(* ===== verification/Prelude.thy ===== *)
theory Prelude
  imports Main "HOL-Library.Sublist" "HOL-Library.Char_ord" "HOL-Library.List_Lexorder"
begin

text \<open>
  What every component of the development shares: the types of identifiers and
  times, the outcomes a request can end with, the Python string operations the
  sources call, and database tables as lists of rows together with the interface
  (locale \<open>keyed_table\<close>) through which the components read and write them.
\<close>

section \<open>Collections of facts\<close>

named_theorems op_defs \<open>definitions of operations, unfolded in the proofs about one operation\<close>
named_theorems table_simps \<open>laws of the keyed tables\<close>

section \<open>Identifiers, times, outcomes\<close>

text \<open>
  A UUID is the 128 bit number it denotes. A \<open>datetime\<close> is a number of
  microseconds (the resolution Python's \<open>datetime\<close> has), so \<open>timedelta\<close> arithmetic
  is integer arithmetic.
\<close>

type_synonym uuid = nat
type_synonym datetime = int

definition seconds :: "int \<Rightarrow> int" where
  "seconds n = n * 1000000"

definition days :: "int \<Rightarrow> int" where
  "days n = n * 86400 * 1000000"

lemma seconds_mono [simp]: "seconds a \<le> seconds b \<longleftrightarrow> a \<le> b"
  by (simp add: seconds_def)

lemma seconds_nonneg [simp]: "0 \<le> seconds a \<longleftrightarrow> 0 \<le> a"
  by (simp add: seconds_def)

text \<open>The exceptions the modelled code raises, with the HTTP status and the message the source gives.\<close>

datatype error =
    HTTPException nat string
  | WorkflowConflict string
  | DomainEventValidationError string
  | UnsupportedDomainEventError string
  | UnknownEventHandlerError string
  | UnsupportedHandlerEventError string
  | ValueError string
  | KeyError
  | IndexError
  | OverflowError
  | IntegrityError string
  | NoResultFound
  | HandlerError string
  | RbacSeedConflictError string
  | LookupError string
  | RuntimeError string
  | PermissionError string
  | NativeTransportUnsupported string
  | CommunicationDeliveryRetryError string
  | CommunicationDeliveryCancelledError string

type_synonym 'a result = "error + 'a"

definition ForbiddenException :: "string \<Rightarrow> error" where
  "ForbiddenException d = HTTPException 403 d"

text \<open>The sequential composition of two steps of which the first may raise.\<close>

definition bind_result :: "'a result \<Rightarrow> ('a \<Rightarrow> 'b result) \<Rightarrow> 'b result" where
  "bind_result r f = (case r of Inl e \<Rightarrow> Inl e | Inr x \<Rightarrow> f x)"

lemma bind_result_simps [simp]:
  "bind_result (Inl e) f = Inl e"
  "bind_result (Inr x) f = f x"
  by (simp_all add: bind_result_def)

lemma bind_result_Inr: "bind_result r f = Inr y \<longleftrightarrow> (\<exists>x. r = Inr x \<and> f x = Inr y)"
  by (cases r) auto

text \<open>A guard: continue unless the condition that raises holds.\<close>

definition raise_if :: "bool \<Rightarrow> error \<Rightarrow> unit result" where
  "raise_if c e = (if c then Inl e else Inr ())"

lemma raise_if_Inr [simp]: "raise_if c e = Inr u \<longleftrightarrow> \<not> c"
  by (simp add: raise_if_def)

lemma raise_if_simps [simp]:
  "raise_if True e = Inl e"
  "raise_if False e = Inr ()"
  by (simp_all add: raise_if_def)

lemma find_SomeD: "find P xs = Some x \<Longrightarrow> x \<in> set xs \<and> P x"
  by (induction xs) (auto split: if_splits)

section \<open>Strings\<close>

text \<open>
  Python's \<open>str\<close> restricted to the code points below 256. \<open>part in text\<close> is
  \<open>contains part text\<close>; \<open>lower\<close> is \<open>str.lower\<close> (the Latin-1 capitals included);
  \<open>replace_char a b\<close> is \<open>str.replace\<close> for one-character arguments.
\<close>

fun contains :: "string \<Rightarrow> string \<Rightarrow> bool" where
  "contains p [] = (p = [])"
| "contains p (c # s) = (prefix p (c # s) \<or> contains p s)"

lemma contains_iff: "contains p s \<longleftrightarrow> (\<exists>u v. s = u @ p @ v)"
proof (induction s)
  case Nil
  then show ?case by simp
next
  case (Cons c s)
  have "(\<exists>u v. c # s = u @ p @ v) \<longleftrightarrow> prefix p (c # s) \<or> (\<exists>u v. s = u @ p @ v)"
    by (metis append_Cons append_Nil prefix_def append_eq_Cons_conv)
  with Cons show ?case by simp
qed

lemma contains_iff_sublist: "contains p s \<longleftrightarrow> sublist p s"
  by (simp add: contains_iff sublist_def)

text \<open>A pattern cannot straddle a seam whose right side starts with a character it does not have.\<close>

lemma contains_append_seam:
  assumes "contains p (u @ c # v)" and "c \<notin> set p"
  shows "contains p u \<or> contains p v"
  using assms
  by (auto simp: contains_iff_sublist sublist_append Cons_eq_append_conv prefix_Cons
      sublist_Cons_right dest: prefix_imp_sublist suffix_imp_sublist)

lemma contains_take: "contains p (take n s) \<Longrightarrow> contains p s"
  unfolding contains_iff by (metis append_assoc append_take_drop_id)

definition lower_char :: "char \<Rightarrow> char" where
  "lower_char c =
     (let n = of_char c :: nat
      in if (65 \<le> n \<and> n \<le> 90) \<or> (192 \<le> n \<and> n \<le> 222 \<and> n \<noteq> 215) then char_of (n + 32) else c)"

definition lower :: "string \<Rightarrow> string" where
  "lower s = map lower_char s"

definition replace_char :: "char \<Rightarrow> char \<Rightarrow> string \<Rightarrow> string" where
  "replace_char a b s = map (\<lambda>c. if c = a then b else c) s"

text \<open>
  The characters with the Unicode property White_Space, which pydantic's \<open>strip_whitespace\<close> removes;
  \<open>str.strip\<close> and \<open>str.split\<close> also take the separators 28 to 31 as space.
\<close>

definition white_space :: "char \<Rightarrow> bool" where
  "white_space c \<longleftrightarrow> (let n = of_char c :: nat in (9 \<le> n \<and> n \<le> 13) \<or> n = 32 \<or> n = 133 \<or> n = 160)"

definition py_space :: "char \<Rightarrow> bool" where
  "py_space c \<longleftrightarrow> white_space c \<or> (let n = of_char c :: nat in 28 \<le> n \<and> n \<le> 31)"

definition strip_by :: "(char \<Rightarrow> bool) \<Rightarrow> string \<Rightarrow> string" where
  "strip_by P s = rev (dropWhile P (rev (dropWhile P s)))"

text \<open>\<open>str(n)\<close> for a natural number and \<open>str(uuid)\<close>: 8-4-4-4-12 lower-case hexadecimal digits.\<close>

definition digit_char :: "nat \<Rightarrow> char" where
  "digit_char d = (if d < 10 then char_of (48 + d) else char_of (87 + d))"

fun nat_str :: "nat \<Rightarrow> string" where
  "nat_str n = (if n < 10 then [digit_char n] else nat_str (n div 10) @ [digit_char (n mod 10)])"

declare nat_str.simps [simp del]

definition int_str :: "int \<Rightarrow> string" where
  "int_str i = (if i < 0 then ''-'' @ nat_str (nat (- i)) else nat_str (nat i))"

fun hex_digits :: "nat \<Rightarrow> nat \<Rightarrow> string" where
  "hex_digits 0 n = []"
| "hex_digits (Suc k) n = hex_digits k (n div 16) @ [digit_char (n mod 16)]"

definition uuid_str :: "uuid \<Rightarrow> string" where
  "uuid_str u =
     (let h = hex_digits 32 u
      in take 8 h @ ''-'' @ take 4 (drop 8 h) @ ''-'' @ take 4 (drop 12 h) @ ''-'' @
         take 4 (drop 16 h) @ ''-'' @ drop 20 h)"

lemma length_hex_digits [simp]: "length (hex_digits k n) = k"
  by (induction k arbitrary: n) auto

lemma length_uuid_str [simp]: "length (uuid_str u) = 36"
  by (simp add: uuid_str_def Let_def)

section \<open>Tables\<close>

text \<open>
  A PostgreSQL table is the list of its rows in insertion order. \<open>row_get\<close> is
  \<open>session.get\<close> (or a query by the primary key), \<open>row_put\<close> writes a modified row back
  (\<open>session.add\<close> of a loaded row and \<open>commit\<close>), \<open>row_add\<close> inserts a new row and
  \<open>row_where\<close> is a query with a condition.
\<close>

definition row_get :: "('r \<Rightarrow> 'k) \<Rightarrow> 'k \<Rightarrow> 'r list \<Rightarrow> 'r option" where
  "row_get key k t = find (\<lambda>r. key r = k) t"

definition row_put :: "('r \<Rightarrow> 'k) \<Rightarrow> 'r \<Rightarrow> 'r list \<Rightarrow> 'r list" where
  "row_put key r t = map (\<lambda>x. if key x = key r then r else x) t"

definition row_add :: "'r \<Rightarrow> 'r list \<Rightarrow> 'r list" where
  "row_add r t = t @ [r]"

abbreviation row_where :: "('r \<Rightarrow> bool) \<Rightarrow> 'r list \<Rightarrow> 'r list" where
  "row_where P t \<equiv> filter P t"

text \<open>
  What a component may rely on: a read by key after a write or an insert, that a
  write changes no other row, and that primary keys stay unique.
\<close>

locale keyed_table =
  fixes key :: "'r \<Rightarrow> 'k"
    and get :: "'k \<Rightarrow> 't \<Rightarrow> 'r option"
    and put :: "'r \<Rightarrow> 't \<Rightarrow> 't"
    and add :: "'r \<Rightarrow> 't \<Rightarrow> 't"
    and rows :: "'t \<Rightarrow> 'r set"
    and keyed :: "'t \<Rightarrow> bool"
  assumes get_rows: "keyed t \<Longrightarrow> get k t = Some r \<longleftrightarrow> r \<in> rows t \<and> key r = k"
    and get_in_rows: "get k t = Some r \<Longrightarrow> r \<in> rows t \<and> key r = k"
    and get_None: "get k t = None \<longleftrightarrow> (\<forall>r \<in> rows t. key r \<noteq> k)"
    and rows_put: "get (key r) t \<noteq> None \<Longrightarrow> rows (put r t) = insert r {x \<in> rows t. key x \<noteq> key r}"
    and rows_put_absent: "get (key r) t = None \<Longrightarrow> put r t = t"
    and get_put: "get (key r) t \<noteq> None \<Longrightarrow> get k (put r t) = (if k = key r then Some r else get k t)"
    and rows_add: "rows (add r t) = insert r (rows t)"
    and get_add: "get (key r) t = None \<Longrightarrow> get k (add r t) = (if k = key r then Some r else get k t)"
    and keyed_put: "keyed t \<Longrightarrow> keyed (put r t)"
    and keyed_add: "keyed t \<Longrightarrow> get (key r) t = None \<Longrightarrow> keyed (add r t)"
begin

lemma get_key: "get k t = Some r \<Longrightarrow> key r = k"
  using get_in_rows by blast

lemma get_put_same: "get k t = Some r \<Longrightarrow> key r' = k \<Longrightarrow> get k (put r' t) = Some r'"
  by (auto simp: get_put)

lemma get_put_other: "k \<noteq> key r' \<Longrightarrow> get k (put r' t) = get k t"
  by (cases "get (key r') t") (auto simp: get_put rows_put_absent)

lemma get_put_None: "get k (put r' t) = None \<longleftrightarrow> get k t = None"
  by (cases "get (key r') t") (auto simp: get_put rows_put_absent)

lemma rows_put_subset: "rows (put r t) \<subseteq> insert r (rows t)"
  by (cases "get (key r) t") (auto simp: rows_put rows_put_absent)

lemma all_put: "(\<And>x. x \<in> rows t \<Longrightarrow> P x) \<Longrightarrow> P r \<Longrightarrow> x \<in> rows (put r t) \<Longrightarrow> P x"
  using rows_put_subset by blast

lemma put_update_rows:
  assumes "keyed t" and "get k t = Some r" and "key r' = k"
  shows "rows (put r' t) = insert r' (rows t - {r})"
proof -
  have "{x \<in> rows t. key x \<noteq> k} = rows t - {r}"
    using assms(2) by (auto simp: get_rows [OF assms(1)] dest!: get_rows [OF assms(1), THEN iffD2, OF conjI])
  with assms rows_put [of r' t] show ?thesis by simp
qed

end

lemma row_get_put_other: "k \<noteq> key r \<Longrightarrow> row_get key k (row_put key r t) = row_get key k t"
  by (induction t) (auto simp: row_get_def row_put_def)

lemma row_get_put_same: "row_get key (key r) t \<noteq> None \<Longrightarrow> row_get key (key r) (row_put key r t) = Some r"
  by (induction t) (auto simp: row_get_def row_put_def)

lemma row_table:
  "keyed_table key (row_get key) (row_put key) row_add set (\<lambda>t. distinct (map key t))"
proof
  fix t :: "'a list" and k r
  show "(row_get key k t = Some r) = (r \<in> set t \<and> key r = k)" if "distinct (map key t)"
    using that by (induction t) (auto simp: row_get_def split: if_splits)
  show "r \<in> set t \<and> key r = k" if "row_get key k t = Some r"
    using that by (auto simp: row_get_def find_Some_iff)
  show "(row_get key k t = None) = (\<forall>r\<in>set t. key r \<noteq> k)"
    by (auto simp: row_get_def find_None_iff)
  show "set (row_put key r t) = insert r {x \<in> set t. key x \<noteq> key r}" if "row_get key (key r) t \<noteq> None"
    using that by (auto simp: row_get_def row_put_def find_None_iff image_iff)
  show "row_put key r t = t" if "row_get key (key r) t = None"
    using that by (auto simp: row_get_def row_put_def find_None_iff intro: map_idI)
  show "row_get key k (row_put key r t) = (if k = key r then Some r else row_get key k t)"
    if "row_get key (key r) t \<noteq> None"
    using row_get_put_same [OF that] by (simp add: row_get_put_other)
  show "set (row_add r t) = insert r (set t)"
    by (simp add: row_add_def)
  show "row_get key k (row_add r t) = (if k = key r then Some r else row_get key k t)"
    if "row_get key (key r) t = None"
    using that by (induction t) (auto simp: row_get_def row_add_def split: if_splits)
  show "distinct (map key (row_put key r t))" if "distinct (map key t)"
  proof -
    have "map key (row_put key r t) = map key t"
      by (auto simp: row_put_def)
    with that show ?thesis by simp
  qed
  show "distinct (map key (row_add r t))" if "distinct (map key t)" and "row_get key (key r) t = None"
    using that by (auto simp: row_get_def row_add_def find_None_iff)
qed

lemma map_key_row_put [simp]: "map key (row_put key r t) = map key t"
  by (auto simp: row_put_def)

lemma length_row_put [simp]: "length (row_put key r t) = length t"
  by (simp add: row_put_def)

text \<open>Counting the rows with a property after a write that does not change the property.\<close>

lemma length_filter_row_put:
  assumes "\<And>x. x \<in> set t \<Longrightarrow> key x = key r \<Longrightarrow> P r = P x"
  shows "length (filter P (row_put key r t)) = length (filter P t)"
  using assms by (induction t) (auto simp: row_put_def)

text \<open>\<open>ORDER BY f LIMIT n\<close>: what a full page leaves out is not smaller than what is on it.\<close>

lemma take_sorted_least:
  assumes "sorted (map f s)" and "d \<in> set s" and "d \<notin> set (take n s)"
  shows "length (take n s) = n \<and> (\<forall>x \<in> set (take n s). f x \<le> f d)"
proof -
  have "d \<in> set (drop n s)"
    using assms(2,3) by (metis Un_iff append_take_drop_id set_append)
  moreover have "sorted (map f (take n s) @ map f (drop n s))"
    using assms(1) by (metis append_take_drop_id map_append)
  moreover have "n < length s"
    using calculation(1) by (metis drop_eq_Nil empty_iff empty_set not_less)
  ultimately show ?thesis
    unfolding sorted_append by auto
qed

end
