(* ===== verification/Rbac_Catalog.thy ===== *)
theory Rbac_Catalog
  imports Prelude
begin

text \<open>
  The permission catalogue (\<open>api/domains/rbac/catalog.py\<close>), the caller's context
  (\<open>api/domains/auth/models.py\<close>) and the fixed Organization Role policy
  (\<open>api/domains/rbac/policy.py\<close>).
\<close>

section \<open>Roles and permissions\<close>

datatype organization_role = ADMIN | MEMBER | OWNER

datatype permission_key =
    ORGANIZATION_READ
  | ORGANIZATION_UPDATE
  | ORGANIZATION_DELETE
  | ORGANIZATION_OWNERSHIP_TRANSFER
  | MEMBERSHIP_READ
  | MEMBERSHIP_INVITE
  | MEMBERSHIP_ROLE_UPDATE
  | MEMBERSHIP_REMOVE
  | AGENT_CREATE
  | AGENT_READ
  | AGENT_UPDATE
  | AGENT_DELETE
  | AGENT_LIFECYCLE_MANAGE
  | AGENT_ACCESS_MANAGE
  | AGENT_SECRET_MANAGE
  | AGENT_MEMORY_MANAGE
  | MEMORY_ACCESS_MANAGE
  | TEMPLATE_READ
  | TEMPLATE_MANAGE
  | SKILL_READ
  | SKILL_MANAGE
  | ACTIVITY_READ
  | COST_READ
  | LLM_BUDGET_MANAGE
  | AGENT_SIZE_MANAGE
  | BILLING_MANAGE

fun permission_value :: "permission_key \<Rightarrow> string" where
  "permission_value ORGANIZATION_READ = ''organization.read''"
| "permission_value ORGANIZATION_UPDATE = ''organization.update''"
| "permission_value ORGANIZATION_DELETE = ''organization.delete''"
| "permission_value ORGANIZATION_OWNERSHIP_TRANSFER = ''organization.ownership.transfer''"
| "permission_value MEMBERSHIP_READ = ''membership.read''"
| "permission_value MEMBERSHIP_INVITE = ''membership.invite''"
| "permission_value MEMBERSHIP_ROLE_UPDATE = ''membership.role.update''"
| "permission_value MEMBERSHIP_REMOVE = ''membership.remove''"
| "permission_value AGENT_CREATE = ''agent.create''"
| "permission_value AGENT_READ = ''agent.read''"
| "permission_value AGENT_UPDATE = ''agent.update''"
| "permission_value AGENT_DELETE = ''agent.delete''"
| "permission_value AGENT_LIFECYCLE_MANAGE = ''agent.lifecycle.manage''"
| "permission_value AGENT_ACCESS_MANAGE = ''agent.access.manage''"
| "permission_value AGENT_SECRET_MANAGE = ''agent.secret.manage''"
| "permission_value AGENT_MEMORY_MANAGE = ''agent.memory.manage''"
| "permission_value MEMORY_ACCESS_MANAGE = ''memory.access.manage''"
| "permission_value TEMPLATE_READ = ''template.read''"
| "permission_value TEMPLATE_MANAGE = ''template.manage''"
| "permission_value SKILL_READ = ''skill.read''"
| "permission_value SKILL_MANAGE = ''skill.manage''"
| "permission_value ACTIVITY_READ = ''activity.read''"
| "permission_value COST_READ = ''cost.read''"
| "permission_value LLM_BUDGET_MANAGE = ''llm_budget.manage''"
| "permission_value AGENT_SIZE_MANAGE = ''agent.size.manage''"
| "permission_value BILLING_MANAGE = ''billing.manage''"

definition AGENT_OWNER_ROLE_ID :: uuid where
  "AGENT_OWNER_ROLE_ID = 0x8f2a47ff7caf5ded90274a16b85620b3"

definition AGENT_EDITOR_ROLE_ID :: uuid where
  "AGENT_EDITOR_ROLE_ID = 0x30e5e8465e24548fa0682505f774ce35"

definition AGENT_VIEWER_ROLE_ID :: uuid where
  "AGENT_VIEWER_ROLE_ID = 0xc7da77aabf9c56268bad5e0ca5159b5d"

definition SYSTEM_AGENT_ACCESS_ROLES :: "(uuid \<times> string) list" where
  "SYSTEM_AGENT_ACCESS_ROLES =
    [(AGENT_OWNER_ROLE_ID, ''OWNER''), (AGENT_EDITOR_ROLE_ID, ''EDITOR''), (AGENT_VIEWER_ROLE_ID, ''VIEWER'')]"

definition PERMISSIONS :: "(uuid \<times> permission_key) list" where
  "PERMISSIONS =
    [(0x9652eb48fd1c5880b5784549365e17f3, ORGANIZATION_READ),
     (0x2cae72d2b48b59199fb3ab50b8319ea5, ORGANIZATION_UPDATE),
     (0xaea08f545f04509392ce42a066b0bbce, ORGANIZATION_DELETE),
     (0x1589db95014e5b178bc990b6187a3900, ORGANIZATION_OWNERSHIP_TRANSFER),
     (0x1c7bffa35b365abcbe314f7aacd7252e, MEMBERSHIP_READ),
     (0x40cade27b0b2565791ba95ac1392ff51, MEMBERSHIP_INVITE),
     (0x6f05fb49ba9b5082be5bc1e461873d5c, MEMBERSHIP_ROLE_UPDATE),
     (0x20fd8db978c551bd9377a37f75c55649, MEMBERSHIP_REMOVE),
     (0x601c65406a185244b61010a4763cf4aa, AGENT_CREATE),
     (0x76bba6c5b1bc5fc2af281eb57bb81fec, AGENT_READ),
     (0x86500651f05b5c39bb56dc7dcd154cd6, AGENT_UPDATE),
     (0x86b3798f34095f7dbbc22d260cfd96d1, AGENT_DELETE),
     (0x61db56c3339c51d7ab33b6afbaa9fc8a, AGENT_LIFECYCLE_MANAGE),
     (0x8c5ae8601a1252e08902de39b94e8145, AGENT_ACCESS_MANAGE),
     (0x4412d59f4e8c5e7e81a9b257f99f9dbf, AGENT_SECRET_MANAGE),
     (0xa0a4981ed2da534e9258e7fb8e76e08e, AGENT_MEMORY_MANAGE),
     (0x77c885cb06d05fd3a99060c129c273f6, MEMORY_ACCESS_MANAGE),
     (0xa07c3af317d653cf841a80d509b94de4, TEMPLATE_READ),
     (0x7b44d5dab324586b9d32d9c49c293037, TEMPLATE_MANAGE),
     (0x3649494715725cdd885379a2bdbf8c4f, SKILL_READ),
     (0x222ab95bf67b527581393f601574f3e1, SKILL_MANAGE),
     (0x3f24e3857c5e56f0828c502985376af9, ACTIVITY_READ),
     (0xb6557147248a5d348bb27c51944d9ee7, COST_READ),
     (0x5d0c2b7e8f415a6c9e3d1b7f4a2c6e90, LLM_BUDGET_MANAGE),
     (0xbdca6a6b54cd574198ef6cdc10cfea69, AGENT_SIZE_MANAGE),
     (0x9a3e6c1f2b745d088e5a4c7f1b2d6e33, BILLING_MANAGE)]"

text \<open>A dict comprehension keeps the last value of a key it meets twice.\<close>

definition PERMISSION_ID_BY_KEY :: "permission_key \<rightharpoonup> uuid" where
  "PERMISSION_ID_BY_KEY = map_of (rev (map (\<lambda>(i, k). (k, i)) PERMISSIONS))"

definition OWNER_ORGANIZATION_KEYS :: "permission_key set" where
  "OWNER_ORGANIZATION_KEYS =
    {ORGANIZATION_READ, ORGANIZATION_UPDATE, ORGANIZATION_DELETE, ORGANIZATION_OWNERSHIP_TRANSFER,
     MEMBERSHIP_READ, MEMBERSHIP_INVITE, MEMBERSHIP_ROLE_UPDATE, MEMBERSHIP_REMOVE, AGENT_CREATE,
     TEMPLATE_READ, TEMPLATE_MANAGE, SKILL_READ, SKILL_MANAGE, ACTIVITY_READ, COST_READ,
     MEMORY_ACCESS_MANAGE, LLM_BUDGET_MANAGE, AGENT_SIZE_MANAGE, BILLING_MANAGE}"

definition ADMIN_ORGANIZATION_KEYS :: "permission_key set" where
  "ADMIN_ORGANIZATION_KEYS =
    OWNER_ORGANIZATION_KEYS - {ORGANIZATION_DELETE, ORGANIZATION_OWNERSHIP_TRANSFER, BILLING_MANAGE}"

definition MEMBER_ORGANIZATION_KEYS :: "permission_key set" where
  "MEMBER_ORGANIZATION_KEYS = {ORGANIZATION_READ, AGENT_CREATE, TEMPLATE_READ, SKILL_READ}"

fun ORGANIZATION_ROLE_GRANTS :: "organization_role \<Rightarrow> permission_key set" where
  "ORGANIZATION_ROLE_GRANTS OWNER = OWNER_ORGANIZATION_KEYS"
| "ORGANIZATION_ROLE_GRANTS ADMIN = ADMIN_ORGANIZATION_KEYS"
| "ORGANIZATION_ROLE_GRANTS MEMBER = MEMBER_ORGANIZATION_KEYS"

definition IMPLICIT_AGENT_OWNER_ROLES :: "organization_role set" where
  "IMPLICIT_AGENT_OWNER_ROLES = {OWNER, ADMIN}"

definition VIEWER_KEYS :: "permission_key set" where
  "VIEWER_KEYS = {AGENT_READ, ACTIVITY_READ, COST_READ}"

definition EDITOR_KEYS :: "permission_key set" where
  "EDITOR_KEYS = VIEWER_KEYS \<union> {AGENT_UPDATE, AGENT_LIFECYCLE_MANAGE, AGENT_SECRET_MANAGE}"

definition OWNER_KEYS :: "permission_key set" where
  "OWNER_KEYS = EDITOR_KEYS \<union> {AGENT_DELETE, AGENT_ACCESS_MANAGE, AGENT_MEMORY_MANAGE}"

definition SYSTEM_AGENT_ACCESS_ROLE_GRANTS :: "(uuid \<times> permission_key set) list" where
  "SYSTEM_AGENT_ACCESS_ROLE_GRANTS =
    [(AGENT_VIEWER_ROLE_ID, VIEWER_KEYS), (AGENT_EDITOR_ROLE_ID, EDITOR_KEYS),
     (AGENT_OWNER_ROLE_ID, OWNER_KEYS)]"

definition organization_role_allows :: "organization_role \<Rightarrow> permission_key \<Rightarrow> bool" where
  "organization_role_allows role permission \<longleftrightarrow> permission \<in> ORGANIZATION_ROLE_GRANTS role"

text \<open>\<open>PermissionKey(value)\<close>: the member with that value, or \<open>ValueError\<close>.\<close>

definition permission_of_value :: "string \<Rightarrow> permission_key result" where
  "permission_of_value v =
    (case find (\<lambda>k. permission_value k = v) (map snd PERMISSIONS) of
       None \<Rightarrow> Inl (ValueError v) | Some k \<Rightarrow> Inr k)"

lemmas org_keys_defs =
  OWNER_ORGANIZATION_KEYS_def ADMIN_ORGANIZATION_KEYS_def MEMBER_ORGANIZATION_KEYS_def

lemmas agent_keys_defs = VIEWER_KEYS_def EDITOR_KEYS_def OWNER_KEYS_def

lemmas system_role_ids = AGENT_OWNER_ROLE_ID_def AGENT_EDITOR_ROLE_ID_def AGENT_VIEWER_ROLE_ID_def

lemma permission_of_value_value: "permission_of_value (permission_value k) = Inr k"
  by (cases k) (simp_all add: permission_of_value_def PERMISSIONS_def)

lemma permission_value_inject [simp]: "permission_value k = permission_value l \<longleftrightarrow> k = l"
  by (metis permission_of_value_value sum.inject(2))

text \<open>Sets of permissions are shown sorted by value (\<open>sorted(..., key=lambda p: p.value)\<close>).\<close>

instantiation permission_key :: linorder
begin

definition less_eq_permission_key :: "permission_key \<Rightarrow> permission_key \<Rightarrow> bool" where
  "less_eq_permission_key a b \<longleftrightarrow> permission_value a \<le> permission_value b"

definition less_permission_key :: "permission_key \<Rightarrow> permission_key \<Rightarrow> bool" where
  "less_permission_key a b \<longleftrightarrow> permission_value a < permission_value b"

instance
proof
  fix a b c :: permission_key
  show "a < b \<longleftrightarrow> a \<le> b \<and> \<not> b \<le> a"
    unfolding less_eq_permission_key_def less_permission_key_def by (rule less_le_not_le)
qed (auto simp: less_eq_permission_key_def)

end

lemma permission_seeded: "k \<in> snd ` set PERMISSIONS"
  by (cases k) (simp_all add: PERMISSIONS_def)

lemma permission_seeds_distinct:
  "distinct (map fst PERMISSIONS)" "distinct (map snd PERMISSIONS)"
  by (simp_all add: PERMISSIONS_def)

lemma permission_id_iff: "PERMISSION_ID_BY_KEY k = Some i \<longleftrightarrow> (i, k) \<in> set PERMISSIONS"
proof -
  have "distinct (map fst (rev (map (\<lambda>(i, k). (k, i)) PERMISSIONS)))"
    using permission_seeds_distinct(2) by (simp add: rev_map [symmetric] comp_def case_prod_beta)
  then show ?thesis
    by (force simp: PERMISSION_ID_BY_KEY_def map_of_eq_Some_iff)
qed

lemma permission_id_total: "\<exists>i. PERMISSION_ID_BY_KEY k = Some i"
  using permission_seeded [of k] by (force simp: permission_id_iff)

lemma permission_id_inj:
  assumes "PERMISSION_ID_BY_KEY k = Some i" and "PERMISSION_ID_BY_KEY l = Some i"
  shows "k = l"
  using assms permission_seeds_distinct(1)
  by (metis permission_id_iff eq_key_imp_eq_value)

section \<open>The caller's context\<close>

record user =
  user_id :: uuid
  user_email :: string
  user_full_name :: "string option"
  email_verified_at :: "datetime option"
  is_platform_admin :: bool

record organization_user =
  mem_id :: uuid
  mem_user_id :: "uuid option"
  mem_organization_id :: uuid
  mem_role :: organization_role

datatype api_key_access_mode = READ_ONLY | FULL_ACCESS

record current_user_context =
  ctx_user :: user
  api_key_access_mode :: "api_key_access_mode option"
  user_organization_map :: "uuid \<rightharpoonup> organization_user"
  current_user_organization :: "organization_user option"

definition no_org_permission :: string where
  "no_org_permission = ''You don't have permission for this organization.''"

definition require_current_user_organization :: "current_user_context \<Rightarrow> organization_user result" where
  "require_current_user_organization ctx =
    (case current_user_organization ctx of
       None \<Rightarrow> Inl (ForbiddenException no_org_permission) | Some m \<Rightarrow> Inr m)"

definition has_org_role :: "current_user_context \<Rightarrow> uuid \<Rightarrow> organization_role set \<Rightarrow> bool" where
  "has_org_role ctx org roles =
    (case user_organization_map ctx org of None \<Rightarrow> False | Some m \<Rightarrow> mem_role m \<in> roles)"

definition require_org_role ::
  "current_user_context \<Rightarrow> uuid \<Rightarrow> organization_role set \<Rightarrow> string \<Rightarrow> unit result" where
  "require_org_role ctx org roles detail =
    raise_if (\<not> has_org_role ctx org roles) (ForbiddenException detail)"

definition require_platform_admin :: "current_user_context \<Rightarrow> string \<Rightarrow> unit result" where
  "require_platform_admin ctx detail =
    raise_if (\<not> is_platform_admin (ctx_user ctx)) (ForbiddenException detail)"

section \<open>The Organization Role policy\<close>

record authz_scope =
  scope_organization_id :: uuid
  scope_membership_id :: "uuid option"
  scope_permission :: "permission_key option"
  include_general_access :: bool

definition organization_scope :: "uuid \<Rightarrow> authz_scope" where
  "organization_scope org =
    \<lparr>scope_organization_id = org, scope_membership_id = None, scope_permission = None,
     include_general_access = False\<rparr>"

definition has_organization_visibility :: "authz_scope \<Rightarrow> bool" where
  "has_organization_visibility s \<longleftrightarrow> scope_membership_id s = None"

definition policy_resolve ::
  "current_user_context \<Rightarrow> uuid \<Rightarrow> permission_key \<Rightarrow> authz_scope option result" where
  "policy_resolve ctx org permission =
    bind_result (require_current_user_organization ctx) (\<lambda>m.
      Inr (if mem_organization_id m \<noteq> org then None
           else if organization_role_allows (mem_role m) permission then Some (organization_scope org)
           else None))"

definition policy_require ::
  "current_user_context \<Rightarrow> uuid \<Rightarrow> permission_key \<Rightarrow> string \<Rightarrow> authz_scope result" where
  "policy_require ctx org permission detail =
    bind_result (policy_resolve ctx org permission) (\<lambda>s.
      case s of None \<Rightarrow> Inl (ForbiddenException detail) | Some scope \<Rightarrow> Inr scope)"

definition policy_require_organization ::
  "current_user_context \<Rightarrow> uuid \<Rightarrow> permission_key \<Rightarrow> string \<Rightarrow> authz_scope result" where
  "policy_require_organization ctx org permission detail = policy_require ctx org permission detail"

lemma policy_require_Inr_iff:
  "policy_require ctx org p d = Inr s \<longleftrightarrow>
     (\<exists>m. current_user_organization ctx = Some m \<and> mem_organization_id m = org \<and>
          p \<in> ORGANIZATION_ROLE_GRANTS (mem_role m) \<and> s = organization_scope org)"
  by (auto simp: policy_require_def policy_resolve_def require_current_user_organization_def
      bind_result_Inr organization_role_allows_def split: option.splits if_splits)

end
