(* ===== verification/Rbac_Store.thy ===== *)
theory Rbac_Store
  imports Rbac_Catalog
begin

text \<open>
  The stored permission catalogue and the Agent Access Roles
  (\<open>api/domains/rbac/repository.py\<close>, \<open>api/domains/rbac/models.py\<close>): the tables, the
  start-up seeding with its validation, and the role queries.
\<close>

section \<open>Tables\<close>

record agent_access_role =
  role_id :: uuid
  role_organization_id :: "uuid option"
  role_name :: string
  role_is_system :: bool

text \<open>
  A row of the table \<open>permissions\<close> is its id and key, a row of
  \<open>agent_access_role_permissions\<close> is the id of the role and of the permission (its primary key).
\<close>

record rbac_db =
  permission_rows :: "(uuid \<times> string) list"
  access_role_rows :: "agent_access_role list"
  role_permission_rows :: "(uuid \<times> uuid) list"

section \<open>Seeding the system catalogue\<close>

fun seed_permissions :: "(uuid \<times> permission_key) list \<Rightarrow> (uuid \<times> string) list \<Rightarrow> (uuid \<times> string) list result" where
  "seed_permissions [] t = Inr t"
| "seed_permissions ((i, k) # seeds) t =
    (let by_id = row_get fst i t;
         by_key = row_get snd (permission_value k) t
     in if by_id \<noteq> None \<and> snd (the by_id) \<noteq> permission_value k then
          Inl (RbacSeedConflictError
                (''Permission ID '' @ uuid_str i @ '' has unexpected key '' @ snd (the by_id)))
        else if by_key \<noteq> None \<and> fst (the by_key) \<noteq> i then
          Inl (RbacSeedConflictError
                (''Permission key '' @ permission_value k @ '' has unexpected ID '' @ uuid_str (fst (the by_key))))
        else seed_permissions seeds (if by_id = None then row_add (i, permission_value k) t else t))"

fun seed_agent_access_roles :: "(uuid \<times> string) list \<Rightarrow> agent_access_role list \<Rightarrow> agent_access_role list result" where
  "seed_agent_access_roles [] t = Inr t"
| "seed_agent_access_roles ((i, n) # seeds) t =
    (let by_id = row_get role_id i t;
         by_name = find (\<lambda>r. role_name r = n \<and> role_is_system r) t
     in if by_id \<noteq> None \<and>
           (role_name (the by_id) \<noteq> n \<or> \<not> role_is_system (the by_id) \<or> role_organization_id (the by_id) \<noteq> None)
        then Inl (RbacSeedConflictError
                   (''System Agent Access Role ID '' @ uuid_str i @ '' has unexpected attributes''))
        else if by_name \<noteq> None \<and> role_id (the by_name) \<noteq> i then
          Inl (RbacSeedConflictError
                (''System Agent Access Role '' @ n @ '' has unexpected ID '' @ uuid_str (role_id (the by_name))))
        else seed_agent_access_roles seeds
               (if by_id = None
                then row_add \<lparr>role_id = i, role_organization_id = None, role_name = n, role_is_system = True\<rparr> t
                else t))"

text \<open>
  The loop goes over the dict and, for each role, over a frozenset of permissions; the
  iteration order of a frozenset is arbitrary and is taken to be the catalogue's.
\<close>

definition system_grants :: "(uuid \<times> permission_key) list" where
  "system_grants =
    concat (map (\<lambda>(r, ks). map (\<lambda>k. (r, k)) (filter (\<lambda>k. k \<in> ks) (map snd PERMISSIONS)))
      SYSTEM_AGENT_ACCESS_ROLE_GRANTS)"

fun seed_role_permissions :: "(uuid \<times> permission_key) list \<Rightarrow> (uuid \<times> uuid) list \<Rightarrow> (uuid \<times> uuid) list result" where
  "seed_role_permissions [] t = Inr t"
| "seed_role_permissions ((r, k) # grants) t =
    (case PERMISSION_ID_BY_KEY k of
       None \<Rightarrow> Inl KeyError
     | Some i \<Rightarrow> seed_role_permissions grants (if (r, i) \<in> set t then t else row_add (r, i) t))"

definition expected_permissions :: "(uuid \<times> string) set" where
  "expected_permissions = set (map (\<lambda>(i, k). (i, permission_value k)) PERMISSIONS)"

definition expected_agent_grants :: "(uuid \<times> uuid) set" where
  "expected_agent_grants =
    {(r, i). \<exists>ks k. (r, ks) \<in> set SYSTEM_AGENT_ACCESS_ROLE_GRANTS \<and> k \<in> ks \<and> PERMISSION_ID_BY_KEY k = Some i}"

definition validate_exact_system_catalogue :: "'a rbac_db_scheme \<Rightarrow> unit result" where
  "validate_exact_system_catalogue db =
    bind_result (raise_if (set (permission_rows db) \<noteq> expected_permissions)
      (RbacSeedConflictError ''Permission catalogue contains unexpected or missing rows'')) (\<lambda>_.
    bind_result (raise_if
        ((\<lambda>r. (role_id r, role_name r)) ` set (row_where role_is_system (access_role_rows db))
         \<noteq> set SYSTEM_AGENT_ACCESS_ROLES)
      (RbacSeedConflictError ''System Agent Access Role catalogue contains unexpected or missing rows'')) (\<lambda>_.
    raise_if
        (set (row_where (\<lambda>g. fst g \<in> fst ` set SYSTEM_AGENT_ACCESS_ROLES) (role_permission_rows db))
         \<noteq> expected_agent_grants)
      (RbacSeedConflictError ''System Agent Access Role grants contain unexpected or missing rows'')))"

definition ensure_system_catalogue :: "'a rbac_db_scheme \<Rightarrow> 'a rbac_db_scheme result" where
  "ensure_system_catalogue db =
    bind_result (seed_permissions PERMISSIONS (permission_rows db)) (\<lambda>ps.
    bind_result (seed_agent_access_roles SYSTEM_AGENT_ACCESS_ROLES (access_role_rows db)) (\<lambda>rs.
    bind_result (seed_role_permissions system_grants (role_permission_rows db)) (\<lambda>gs.
      let db' = db\<lparr>permission_rows := ps, access_role_rows := rs, role_permission_rows := gs\<rparr>
      in bind_result (validate_exact_system_catalogue db') (\<lambda>_. Inr db'))))"

section \<open>Role queries\<close>

definition role_available :: "uuid \<Rightarrow> agent_access_role \<Rightarrow> bool" where
  "role_available org r \<longleftrightarrow> role_is_system r \<or> role_organization_id r = Some org"

definition get_agent_access_role :: "'a rbac_db_scheme \<Rightarrow> uuid \<Rightarrow> uuid \<Rightarrow> agent_access_role option" where
  "get_agent_access_role db i org = find (\<lambda>r. role_id r = i \<and> role_available org r) (access_role_rows db)"

definition get_agent_access_role_permissions :: "'a rbac_db_scheme \<Rightarrow> uuid \<Rightarrow> permission_key set" where
  "get_agent_access_role_permissions db i =
    set (filter (\<lambda>k. \<exists>p \<in> set (permission_rows db). snd p = permission_value k \<and> (i, fst p) \<in> set (role_permission_rows db))
      (map snd PERMISSIONS))"

text \<open>\<open>ORDER BY is_system DESC, name ASC\<close>.\<close>

definition list_agent_access_roles ::
  "'a rbac_db_scheme \<Rightarrow> uuid \<Rightarrow> (agent_access_role \<times> permission_key set) list" where
  "list_agent_access_roles db org =
    map (\<lambda>r. (r, get_agent_access_role_permissions db (role_id r)))
      (sort_key role_name (row_where (\<lambda>r. role_is_system r \<and> role_available org r) (access_role_rows db)) @
       sort_key role_name (row_where (\<lambda>r. \<not> role_is_system r \<and> role_available org r) (access_role_rows db)))"

section \<open>What seeding establishes\<close>

definition catalogue_seeded :: "'a rbac_db_scheme \<Rightarrow> bool" where
  "catalogue_seeded db \<longleftrightarrow> validate_exact_system_catalogue db = Inr ()"

lemma catalogue_seeded_iff:
  "catalogue_seeded db \<longleftrightarrow>
     set (permission_rows db) = expected_permissions \<and>
     (\<lambda>r. (role_id r, role_name r)) ` set (row_where role_is_system (access_role_rows db))
       = set SYSTEM_AGENT_ACCESS_ROLES \<and>
     set (row_where (\<lambda>g. fst g \<in> fst ` set SYSTEM_AGENT_ACCESS_ROLES) (role_permission_rows db))
       = expected_agent_grants"
  by (simp only: catalogue_seeded_def validate_exact_system_catalogue_def bind_result_Inr raise_if_Inr
      not_not simp_thms)

lemma catalogue_seeded_permissions:
  "catalogue_seeded db \<Longrightarrow> set (permission_rows db) = expected_permissions"
  by (simp only: catalogue_seeded_iff)

lemma catalogue_seeded_grants:
  assumes "catalogue_seeded db" and "(r, ks) \<in> set SYSTEM_AGENT_ACCESS_ROLE_GRANTS"
    and "PERMISSION_ID_BY_KEY k = Some i"
  shows "(r, i) \<in> set (role_permission_rows db) \<longleftrightarrow> k \<in> ks"
proof -
  have sys: "r \<in> fst ` set SYSTEM_AGENT_ACCESS_ROLES"
    using assms(2) by (auto simp: SYSTEM_AGENT_ACCESS_ROLES_def SYSTEM_AGENT_ACCESS_ROLE_GRANTS_def)
  have uniq: "ks' = ks" if "(r, ks') \<in> set SYSTEM_AGENT_ACCESS_ROLE_GRANTS" for ks'
    using assms(2) that by (auto simp: SYSTEM_AGENT_ACCESS_ROLE_GRANTS_def system_role_ids)
  have "set (row_where (\<lambda>g. fst g \<in> fst ` set SYSTEM_AGENT_ACCESS_ROLES) (role_permission_rows db))
      = expected_agent_grants"
    using assms(1) by (simp only: catalogue_seeded_iff)
  then have "(r, i) \<in> {g \<in> set (role_permission_rows db). fst g \<in> fst ` set SYSTEM_AGENT_ACCESS_ROLES}
      \<longleftrightarrow> (r, i) \<in> expected_agent_grants"
    by simp
  with sys have "(r, i) \<in> set (role_permission_rows db) \<longleftrightarrow> (r, i) \<in> expected_agent_grants"
    by simp
  also have "\<dots> \<longleftrightarrow> k \<in> ks"
    unfolding expected_agent_grants_def mem_Collect_eq prod.case
    using assms(2,3) uniq permission_id_inj by metis
  finally show ?thesis .
qed

lemma in_expected_permissions:
  "(i, v) \<in> expected_permissions \<longleftrightarrow> (\<exists>k. PERMISSION_ID_BY_KEY k = Some i \<and> v = permission_value k)"
  by (auto simp: expected_permissions_def permission_id_iff image_iff) force

lemma role_permissions_seeded:
  assumes "catalogue_seeded db"
  shows "k \<in> get_agent_access_role_permissions db r \<longleftrightarrow>
    (\<exists>i. PERMISSION_ID_BY_KEY k = Some i \<and> (r, i) \<in> set (role_permission_rows db))"
proof -
  have "k \<in> get_agent_access_role_permissions db r \<longleftrightarrow>
    (\<exists>i v. (i, v) \<in> expected_permissions \<and> v = permission_value k \<and> (r, i) \<in> set (role_permission_rows db))"
    using permission_seeded [of k]
    by (force simp: get_agent_access_role_permissions_def catalogue_seeded_permissions [OF assms])
  then show ?thesis by (auto simp: in_expected_permissions)
qed

section \<open>Seeding a fresh and a seeded database\<close>

definition seeded_permission_rows :: "(uuid \<times> string) list" where
  "seeded_permission_rows = map (\<lambda>(i, k). (i, permission_value k)) PERMISSIONS"

definition seeded_role_rows :: "agent_access_role list" where
  "seeded_role_rows =
    map (\<lambda>(i, n). \<lparr>role_id = i, role_organization_id = None, role_name = n, role_is_system = True\<rparr>)
      SYSTEM_AGENT_ACCESS_ROLES"

definition seeded_grant_rows :: "(uuid \<times> uuid) list" where
  "seeded_grant_rows = map (\<lambda>(r, k). (r, the (PERMISSION_ID_BY_KEY k))) system_grants"

lemma seed_permissions_fresh:
  assumes "distinct (map fst seeds)" and "distinct (map snd seeds)"
    and "\<And>i k v. (i, k) \<in> set seeds \<Longrightarrow> (i, v) \<notin> set t"
    and "\<And>i j k. (i, k) \<in> set seeds \<Longrightarrow> (j, permission_value k) \<notin> set t"
  shows "seed_permissions seeds t = Inr (t @ map (\<lambda>(i, k). (i, permission_value k)) seeds)"
  using assms
proof (induction seeds t rule: seed_permissions.induct)
  case (1 t)
  then show ?case by simp
next
  case (2 i k seeds t)
  have new: "row_get fst i t = None" "row_get snd (permission_value k) t = None"
    using "2.prems"(3,4) by (fastforce simp: row_get_def find_None_iff)+
  have "seed_permissions seeds (row_add (i, permission_value k) t) =
      Inr (row_add (i, permission_value k) t @ map (\<lambda>(i, k). (i, permission_value k)) seeds)"
  proof (rule "2.IH" [OF refl refl, unfolded new, simplified])
    show "distinct (map fst seeds)" "distinct (map snd seeds)"
      using "2.prems"(1,2) by simp_all
    show "(j, v) \<notin> set (row_add (i, permission_value k) t)" if "(j, l) \<in> set seeds" for j l v
      using "2.prems"(1,3) that by (force simp: row_add_def)
    show "(h, permission_value l) \<notin> set (row_add (i, permission_value k) t)" if "(j, l) \<in> set seeds" for h j l
      using "2.prems"(2,4) that by (force simp: row_add_def)
  qed
  then show ?case by (simp add: new row_add_def)
qed

lemma seed_permissions_present:
  assumes "\<And>i k. (i, k) \<in> set seeds \<Longrightarrow> row_get fst i t = Some (i, permission_value k) \<and>
    row_get snd (permission_value k) t = Some (i, permission_value k)"
  shows "seed_permissions seeds t = Inr t"
  using assms
proof (induction seeds)
  case Nil
  then show ?case by simp
next
  case (Cons s seeds)
  obtain i k where s: "s = (i, k)" by (cases s)
  have "seed_permissions seeds t = Inr t"
    by (rule Cons.IH) (simp add: Cons.prems)
  moreover have "row_get fst i t = Some (i, permission_value k)"
      "row_get snd (permission_value k) t = Some (i, permission_value k)"
    using Cons.prems [of i k] by (simp_all add: s)
  ultimately show ?case by (simp add: s)
qed

lemma seed_role_permissions_spec:
  "\<exists>t'. seed_role_permissions grants t = Inr t' \<and>
     set t' = set t \<union> (\<lambda>(r, k). (r, the (PERMISSION_ID_BY_KEY k))) ` set grants \<and>
     ((\<lambda>(r, k). (r, the (PERMISSION_ID_BY_KEY k))) ` set grants \<subseteq> set t \<longrightarrow> t' = t)"
proof (induction grants t rule: seed_role_permissions.induct)
  case (1 t)
  then show ?case by simp
next
  case (2 r k grants t)
  obtain i where i: "PERMISSION_ID_BY_KEY k = Some i" using permission_id_total by blast
  show ?case
    using "2.IH" [OF i] by (auto simp: i row_add_def split: if_splits)
qed

lemma set_system_grants:
  "(\<lambda>(r, k). (r, the (PERMISSION_ID_BY_KEY k))) ` set system_grants = expected_agent_grants"
proof -
  have all: "snd ` set PERMISSIONS = UNIV" using permission_seeded by auto
  have "set system_grants = (\<Union>(r, ks) \<in> set SYSTEM_AGENT_ACCESS_ROLE_GRANTS. Pair r ` ks)"
    by (auto simp: system_grants_def all)
  then have "(\<lambda>(r, k). (r, the (PERMISSION_ID_BY_KEY k))) ` set system_grants =
      {(r, i). \<exists>ks k. (r, ks) \<in> set SYSTEM_AGENT_ACCESS_ROLE_GRANTS \<and> k \<in> ks \<and> i = the (PERMISSION_ID_BY_KEY k)}"
    by fastforce
  moreover have "PERMISSION_ID_BY_KEY k = Some i \<longleftrightarrow> i = the (PERMISSION_ID_BY_KEY k)" for k i
    using permission_id_total [of k] by auto
  ultimately show ?thesis
    unfolding expected_agent_grants_def by simp
qed

lemma expected_grants_system: "(r, i) \<in> expected_agent_grants \<Longrightarrow> r \<in> fst ` set SYSTEM_AGENT_ACCESS_ROLES"
  by (auto simp: expected_agent_grants_def SYSTEM_AGENT_ACCESS_ROLE_GRANTS_def SYSTEM_AGENT_ACCESS_ROLES_def)

lemma seeded_permissions_get:
  assumes "set t = expected_permissions" and "(i, k) \<in> set PERMISSIONS"
  shows "row_get fst i t = Some (i, permission_value k) \<and>
    row_get snd (permission_value k) t = Some (i, permission_value k)"
proof -
  have id: "PERMISSION_ID_BY_KEY k = Some i" using assms(2) by (simp add: permission_id_iff)
  have mem: "(i, permission_value k) \<in> set t"
    using id assms(1) by (auto simp: in_expected_permissions)
  have a: "x = (i, permission_value k)" if "x \<in> set t" "fst x = i \<or> snd x = permission_value k" for x
  proof -
    obtain j v where x: "x = (j, v)" by (cases x)
    with that(1) assms(1) obtain l where "PERMISSION_ID_BY_KEY l = Some j" "v = permission_value l"
      by (auto simp: in_expected_permissions)
    with id that(2) permission_id_inj show ?thesis by (force simp: x)
  qed
  have find: "find P t = Some (i, permission_value k)"
    if "P (i, permission_value k)" "\<And>x. x \<in> set t \<Longrightarrow> P x \<Longrightarrow> x = (i, permission_value k)" for P
  proof (cases "find P t")
    case None
    then show ?thesis using that(1) mem by (auto simp: find_None_iff)
  next
    case (Some y)
    then have "y \<in> set t" "P y" by (auto simp: find_Some_iff)
    with that(2) Some show ?thesis by simp
  qed
  show ?thesis
    unfolding row_get_def using a by (auto intro!: find)
qed

lemma catalogue_seededI:
  assumes "permission_rows db = seeded_permission_rows" and "access_role_rows db = seeded_role_rows"
    and "set (role_permission_rows db) = expected_agent_grants"
  shows "catalogue_seeded db"
proof -
  have "set (row_where (\<lambda>g. fst g \<in> fst ` set SYSTEM_AGENT_ACCESS_ROLES) (role_permission_rows db)) = expected_agent_grants"
    unfolding set_filter assms(3) using expected_grants_system by force
  moreover have "(\<lambda>r. (role_id r, role_name r)) ` set (row_where role_is_system seeded_role_rows) = set SYSTEM_AGENT_ACCESS_ROLES"
    by (simp add: seeded_role_rows_def SYSTEM_AGENT_ACCESS_ROLES_def)
  ultimately show ?thesis
    unfolding catalogue_seeded_iff assms(1,2)
    by (simp add: seeded_permission_rows_def expected_permissions_def)
qed

definition role_rows_ok :: "agent_access_role list \<Rightarrow> bool" where
  "role_rows_ok t \<longleftrightarrow>
    distinct (map role_id t) \<and> (\<forall>r \<in> set t. role_is_system r = (role_organization_id r = None))"

lemma seed_roles_present:
  assumes "\<And>i n. (i, n) \<in> set seeds \<Longrightarrow>
      (\<exists>r. row_get role_id i t = Some r \<and> role_name r = n \<and> role_is_system r \<and> role_organization_id r = None) \<and>
      (\<forall>r \<in> set t. role_name r = n \<and> role_is_system r \<longrightarrow> role_id r = i)"
  shows "seed_agent_access_roles seeds t = Inr t"
  using assms
proof (induction seeds)
  case Nil
  then show ?case by simp
next
  case (Cons s seeds)
  obtain i n where s: "s = (i, n)" by (cases s)
  obtain r where r: "row_get role_id i t = Some r" "role_name r = n" "role_is_system r" "role_organization_id r = None"
    using Cons.prems [of i n] by (auto simp: s)
  have name: "role_id (the (find (\<lambda>r. role_name r = n \<and> role_is_system r) t)) = i"
    if "find (\<lambda>r. role_name r = n \<and> role_is_system r) t \<noteq> None"
  proof -
    from that obtain x where x: "find (\<lambda>r. role_name r = n \<and> role_is_system r) t = Some x" by auto
    then have "x \<in> set t" "role_name x = n" "role_is_system x" by (auto simp: find_Some_iff)
    with Cons.prems [of i n] x show ?thesis by (simp add: s)
  qed
  have "seed_agent_access_roles seeds t = Inr t"
    by (rule Cons.IH, rule Cons.prems) simp
  with r name show ?case
    by (cases "find (\<lambda>r. role_name r = n \<and> role_is_system r) t") (simp_all add: s)
qed

lemma seeded_roles_present:
  assumes "catalogue_seeded db" and ok: "role_rows_ok (access_role_rows db)"
    and seed: "(i, n) \<in> set SYSTEM_AGENT_ACCESS_ROLES"
  shows "(\<exists>r. row_get role_id i (access_role_rows db) = Some r \<and> role_name r = n \<and> role_is_system r \<and>
       role_organization_id r = None) \<and>
     (\<forall>r \<in> set (access_role_rows db). role_name r = n \<and> role_is_system r \<longrightarrow> role_id r = i)"
proof -
  let ?t = "access_role_rows db"
  have img: "(\<lambda>r. (role_id r, role_name r)) ` set (row_where role_is_system ?t) = set SYSTEM_AGENT_ACCESS_ROLES"
    using assms(1) by (simp only: catalogue_seeded_iff)
  from seed [folded img] obtain r where r: "r \<in> set ?t" "role_is_system r" "role_id r = i" "role_name r = n"
    by auto
  have "row_get role_id i ?t = Some r"
    using keyed_table.get_rows [OF row_table, of role_id ?t i r] ok r by (simp add: role_rows_ok_def)
  moreover have "role_organization_id r = None"
    using ok r by (simp add: role_rows_ok_def)
  moreover have "role_id x = i" if "x \<in> set ?t" "role_name x = n" "role_is_system x" for x
  proof -
    have "(role_id x, n) \<in> set SYSTEM_AGENT_ACCESS_ROLES"
      using that by (simp add: img [symmetric] image_iff) blast
    with seed show ?thesis by (auto simp: SYSTEM_AGENT_ACCESS_ROLES_def)
  qed
  ultimately show ?thesis using r by blast
qed

text \<open>
  Start-up on an installation whose catalogue is already seeded changes nothing:
  \<open>ensure_system_catalogue\<close> returns the database it was given. (The hypotheses on the
  role rows are the primary key and the check constraint of \<open>agent_access_roles\<close>.)
\<close>

theorem ensure_system_catalogue_idempotent:
  assumes "catalogue_seeded db" and "role_rows_ok (access_role_rows db)"
  shows "ensure_system_catalogue db = Inr db"
proof -
  have p: "seed_permissions PERMISSIONS (permission_rows db) = Inr (permission_rows db)"
    using seeded_permissions_get [OF catalogue_seeded_permissions [OF assms(1)]]
    by (rule seed_permissions_present)
  have r: "seed_agent_access_roles SYSTEM_AGENT_ACCESS_ROLES (access_role_rows db) = Inr (access_role_rows db)"
    by (rule seed_roles_present) (rule seeded_roles_present [OF assms])
  have "(\<lambda>(r, k). (r, the (PERMISSION_ID_BY_KEY k))) ` set system_grants \<subseteq> set (role_permission_rows db)"
    using assms(1) by (auto simp: catalogue_seeded_iff set_system_grants)
  with seed_role_permissions_spec [of system_grants "role_permission_rows db"]
  have g: "seed_role_permissions system_grants (role_permission_rows db) = Inr (role_permission_rows db)"
    by auto
  show ?thesis
    using assms(1) by (simp add: ensure_system_catalogue_def p r g catalogue_seeded_def)
qed

definition seeded_db :: rbac_db where
  "seeded_db = \<lparr>permission_rows = seeded_permission_rows, access_role_rows = seeded_role_rows,
    role_permission_rows = seeded_grant_rows\<rparr>"

theorem ensure_system_catalogue_idempotent_witness: "ensure_system_catalogue seeded_db = Inr seeded_db"
proof (rule ensure_system_catalogue_idempotent)
  show "catalogue_seeded seeded_db"
    using set_system_grants by (intro catalogue_seededI) (simp_all add: seeded_db_def seeded_grant_rows_def)
  show "role_rows_ok (access_role_rows seeded_db)"
    by (simp add: role_rows_ok_def seeded_db_def seeded_role_rows_def SYSTEM_AGENT_ACCESS_ROLES_def system_role_ids)
qed

text \<open>
  Start-up on an empty installation succeeds: it seeds every permission of the
  catalogue, the three system roles and exactly their grants.
\<close>

theorem ensure_system_catalogue_fresh:
  "\<exists>db'. ensure_system_catalogue (db\<lparr>permission_rows := [], access_role_rows := [], role_permission_rows := []\<rparr>) = Inr db' \<and>
     catalogue_seeded db' \<and> role_rows_ok (access_role_rows db') \<and>
     permission_rows db' = seeded_permission_rows \<and> access_role_rows db' = seeded_role_rows \<and>
     set (role_permission_rows db') = expected_agent_grants"
proof -
  obtain gs where gs: "seed_role_permissions system_grants [] = Inr gs" "set gs = expected_agent_grants"
    using seed_role_permissions_spec [of system_grants "[]"] by (auto simp: set_system_grants)
  have p: "seed_permissions PERMISSIONS [] = Inr seeded_permission_rows"
    using seed_permissions_fresh [of PERMISSIONS "[]"] permission_seeds_distinct
    by (simp add: seeded_permission_rows_def)
  have r: "seed_agent_access_roles SYSTEM_AGENT_ACCESS_ROLES [] = Inr seeded_role_rows"
    by (simp add: SYSTEM_AGENT_ACCESS_ROLES_def seeded_role_rows_def system_role_ids row_get_def row_add_def)
  let ?db = "db\<lparr>permission_rows := seeded_permission_rows, access_role_rows := seeded_role_rows,
    role_permission_rows := gs\<rparr>"
  have "catalogue_seeded ?db"
    using gs(2) by (intro catalogue_seededI) simp_all
  moreover have "role_rows_ok seeded_role_rows"
    by (simp add: role_rows_ok_def seeded_role_rows_def SYSTEM_AGENT_ACCESS_ROLES_def system_role_ids)
  ultimately show ?thesis
    using gs(2) by (simp add: ensure_system_catalogue_def p r gs(1) catalogue_seeded_def)
qed

end
