(* ===== verification/Agent_Authorization.thy ===== *)
theory Agent_Authorization
  imports Rbac_Store
begin

text \<open>
  Authority over Agents: the visibility predicate of the Agent repository
  (\<open>agent_scope_predicates\<close>, \<open>get_active_in_scope\<close>, \<open>find_agent_permissions\<close>,
  \<open>find_membership_with_user\<close> in \<open>api/domains/agents/repository.py\<close>) and the
  service that resolves implicit and explicit authority
  (\<open>api/domains/agents/authorization.py\<close>).
\<close>

section \<open>Tables\<close>

datatype agent_status = STOPPED | RUNNING | ERROR

record agent =
  agent_id :: uuid
  agent_organization_id :: uuid
  agent_name :: string
  agent_status :: agent_status
  agent_type :: string
  general_access_role_id :: "uuid option"
  agent_deleted_at :: "datetime option"
  agent_created_by :: "uuid option"
  communication_key :: "string option"

text \<open>\<open>AgentType(agent.agent_type).value\<close>.\<close>

definition agent_runtime :: "agent \<Rightarrow> string result" where
  "agent_runtime a =
    (if agent_type a \<in> {''openclaw'', ''hermes''} then Inr (agent_type a) else Inl (ValueError (agent_type a @ '' is not a valid AgentType'')))"

record agent_access =
  acc_organization_id :: uuid
  acc_membership_id :: uuid
  acc_agent_id :: uuid
  acc_access_role_id :: uuid

record access_db = rbac_db +
  agents :: "agent list"
  agent_accesses :: "agent_access list"
  memberships :: "organization_user list"
  users :: "user list"

section \<open>Repository queries\<close>

text \<open>
  The conjunction of the SQL predicates, as a test on a row of \<open>agent\<close>. Comparing with
  an SQL \<open>NULL\<close> is not true, so an Agent without General Access matches no role.
\<close>

definition direct_access :: "access_db \<Rightarrow> uuid \<Rightarrow> uuid \<Rightarrow> uuid \<Rightarrow> agent \<Rightarrow> bool" where
  "direct_access db org mid pid a \<longleftrightarrow>
    (\<exists>acc \<in> set (agent_accesses db).
       acc_agent_id acc = agent_id a \<and> acc_organization_id acc = org \<and> acc_membership_id acc = mid \<and>
       (acc_access_role_id acc, pid) \<in> set (role_permission_rows db))"

definition general_access :: "access_db \<Rightarrow> uuid \<Rightarrow> agent \<Rightarrow> bool" where
  "general_access db pid a =
    (case general_access_role_id a of None \<Rightarrow> False | Some r \<Rightarrow> (r, pid) \<in> set (role_permission_rows db))"

definition agent_scope_predicates ::
  "access_db \<Rightarrow> authz_scope \<Rightarrow> bool \<Rightarrow> (agent \<Rightarrow> bool) result" where
  "agent_scope_predicates db scope include_deleted =
    (let in_org = (\<lambda>a. agent_organization_id a = scope_organization_id scope);
         live = (\<lambda>a. include_deleted \<or> agent_deleted_at a = None)
     in case scope_membership_id scope of
          None \<Rightarrow> Inr (\<lambda>a. in_org a \<and> live a)
        | Some mid \<Rightarrow>
            (case scope_permission scope of
               None \<Rightarrow> Inl (ValueError ''Explicit Agent visibility requires a Permission'')
             | Some p \<Rightarrow>
                 (case PERMISSION_ID_BY_KEY p of
                    None \<Rightarrow> Inl KeyError
                  | Some pid \<Rightarrow>
                      Inr (\<lambda>a. in_org a \<and> live a \<and>
                        (direct_access db (scope_organization_id scope) mid pid a \<or>
                         (include_general_access scope \<and> general_access db pid a))))))"

definition get_active_in_scope :: "access_db \<Rightarrow> uuid \<Rightarrow> authz_scope \<Rightarrow> agent option result" where
  "get_active_in_scope db i scope =
    bind_result (agent_scope_predicates db scope False) (\<lambda>P.
      Inr (find (\<lambda>a. agent_id a = i \<and> P a) (agents db)))"

definition get_deleted_in_scope :: "access_db \<Rightarrow> uuid \<Rightarrow> authz_scope \<Rightarrow> agent option result" where
  "get_deleted_in_scope db i scope =
    (if \<not> has_organization_visibility scope then Inr None
     else bind_result (agent_scope_predicates db scope True) (\<lambda>P.
       Inr (find (\<lambda>a. agent_id a = i \<and> agent_deleted_at a \<noteq> None \<and> P a) (agents db))))"

definition find_membership_with_user ::
  "access_db \<Rightarrow> uuid \<Rightarrow> (organization_user \<times> user option) option" where
  "find_membership_with_user db mid =
    map_option (\<lambda>m. (m, Option.bind (mem_user_id m) (\<lambda>u. row_get user_id u (users db))))
      (row_get mem_id mid (memberships db))"

text \<open>The two queries of \<open>find_agent_permissions\<close>, as the list of the rows they return.\<close>

definition direct_permission_rows :: "access_db \<Rightarrow> uuid \<Rightarrow> uuid \<Rightarrow> uuid list \<Rightarrow> (uuid \<times> string) list" where
  "direct_permission_rows db mid org ids =
    [(acc_agent_id acc, snd p).
       acc \<leftarrow> agent_accesses db, rp \<leftarrow> role_permission_rows db, p \<leftarrow> permission_rows db,
       fst rp = acc_access_role_id acc \<and> fst p = snd rp \<and>
       acc_membership_id acc = mid \<and> acc_organization_id acc = org \<and> acc_agent_id acc \<in> set ids]"

definition general_permission_rows :: "access_db \<Rightarrow> uuid \<Rightarrow> uuid list \<Rightarrow> (uuid \<times> string) list" where
  "general_permission_rows db org ids =
    [(agent_id a, snd p).
       a \<leftarrow> agents db, rp \<leftarrow> role_permission_rows db, p \<leftarrow> permission_rows db,
       general_access_role_id a = Some (fst rp) \<and> fst p = snd rp \<and>
       agent_organization_id a = org \<and> agent_id a \<in> set ids \<and> agent_deleted_at a = None]"

fun collect_permissions ::
  "(uuid \<times> string) list \<Rightarrow> (uuid \<Rightarrow> permission_key set) \<Rightarrow> (uuid \<Rightarrow> permission_key set) result" where
  "collect_permissions [] m = Inr m"
| "collect_permissions ((i, v) # rs) m =
    bind_result (permission_of_value v) (\<lambda>k. collect_permissions rs (m(i := insert k (m i))))"

text \<open>
  The dict is read with \<open>.get(agent_id, set())\<close> only, so it is the function that
  gives the empty set outside the dict.
\<close>

definition find_agent_permissions ::
  "access_db \<Rightarrow> uuid \<Rightarrow> uuid \<Rightarrow> uuid list \<Rightarrow> bool \<Rightarrow> (uuid \<Rightarrow> permission_key set) result" where
  "find_agent_permissions db mid org ids with_general =
    (if ids = [] then Inr (\<lambda>_. {})
     else collect_permissions
       (direct_permission_rows db mid org ids @
        (if with_general then general_permission_rows db org ids else [])) (\<lambda>_. {}))"

section \<open>The authorization service\<close>

definition AGENT_ACTION_PERMISSIONS :: "permission_key list" where
  "AGENT_ACTION_PERMISSIONS =
    [AGENT_READ, AGENT_UPDATE, AGENT_DELETE, AGENT_LIFECYCLE_MANAGE, AGENT_ACCESS_MANAGE,
     AGENT_SECRET_MANAGE, AGENT_MEMORY_MANAGE, ACTIVITY_READ, COST_READ, AGENT_SIZE_MANAGE]"

definition explicit_scope :: "organization_user \<Rightarrow> user \<Rightarrow> permission_key \<Rightarrow> authz_scope" where
  "explicit_scope m u p =
    \<lparr>scope_organization_id = mem_organization_id m, scope_membership_id = Some (mem_id m),
     scope_permission = Some p, include_general_access = email_verified_at u \<noteq> None\<rparr>"

definition authorization_scope :: "current_user_context \<Rightarrow> permission_key \<Rightarrow> authz_scope result" where
  "authorization_scope ctx permission =
    bind_result (require_current_user_organization ctx) (\<lambda>m.
      Inr (if mem_role m \<in> IMPLICIT_AGENT_OWNER_ROLES then organization_scope (mem_organization_id m)
           else explicit_scope m (ctx_user ctx) permission))"

definition require_collection_scope ::
  "current_user_context \<Rightarrow> permission_key \<Rightarrow> string \<Rightarrow> authz_scope result" where
  "require_collection_scope ctx permission detail =
    bind_result (require_current_user_organization ctx) (\<lambda>m.
      if permission = AGENT_CREATE then policy_require ctx (mem_organization_id m) permission detail
      else authorization_scope ctx permission)"

definition agent_not_found :: "uuid \<Rightarrow> error" where
  "agent_not_found i = HTTPException 404 (''Agent '' @ uuid_str i @ '' not found'')"

definition require_visible :: "access_db \<Rightarrow> current_user_context \<Rightarrow> uuid \<Rightarrow> agent result" where
  "require_visible db ctx i =
    bind_result (authorization_scope ctx AGENT_READ) (\<lambda>scope.
    bind_result (get_active_in_scope db i scope) (\<lambda>a.
      case a of None \<Rightarrow> Inl (agent_not_found i) | Some agent \<Rightarrow> Inr agent))"

definition require_action_for_visible ::
  "access_db \<Rightarrow> current_user_context \<Rightarrow> agent \<Rightarrow> permission_key \<Rightarrow> string \<Rightarrow> authz_scope result" where
  "require_action_for_visible db ctx agent permission detail =
    bind_result (authorization_scope ctx permission) (\<lambda>scope.
    bind_result (get_active_in_scope db (agent_id agent) scope) (\<lambda>a.
      case a of None \<Rightarrow> Inl (HTTPException 403 detail) | Some _ \<Rightarrow> Inr scope))"

definition require_action ::
  "access_db \<Rightarrow> current_user_context \<Rightarrow> uuid \<Rightarrow> permission_key \<Rightarrow> string \<Rightarrow> agent result" where
  "require_action db ctx i permission detail =
    bind_result (require_visible db ctx i) (\<lambda>agent.
    bind_result (require_action_for_visible db ctx agent permission detail) (\<lambda>_. Inr agent))"

definition membership_scope :: "access_db \<Rightarrow> uuid \<Rightarrow> permission_key \<Rightarrow> authz_scope option" where
  "membership_scope db mid permission =
    (case find_membership_with_user db mid of
       None \<Rightarrow> None
     | Some (m, None) \<Rightarrow> None
     | Some (m, Some u) \<Rightarrow>
         Some (if mem_role m \<in> IMPLICIT_AGENT_OWNER_ROLES then organization_scope (mem_organization_id m)
               else explicit_scope m u permission))"

definition membership_has_permission :: "access_db \<Rightarrow> uuid \<Rightarrow> uuid \<Rightarrow> permission_key \<Rightarrow> bool result" where
  "membership_has_permission db mid i permission =
    (case membership_scope db mid permission of
       None \<Rightarrow> Inr False
     | Some scope \<Rightarrow> bind_result (get_active_in_scope db i scope) (\<lambda>a. Inr (a \<noteq> None)))"

text \<open>The dict \<open>permissions_by_agent\<close> that \<open>allowed_actions\<close> filters.\<close>

definition permissions_by_agent ::
  "access_db \<Rightarrow> current_user_context \<Rightarrow> organization_user \<Rightarrow> agent list \<Rightarrow> (uuid \<Rightarrow> permission_key set) result" where
  "permissions_by_agent db ctx m as =
    (if mem_role m \<in> IMPLICIT_AGENT_OWNER_ROLES then
       (case map_of SYSTEM_AGENT_ACCESS_ROLE_GRANTS AGENT_OWNER_ROLE_ID of
          None \<Rightarrow> Inl KeyError
        | Some implicit \<Rightarrow>
            Inr (\<lambda>_. if organization_role_allows (mem_role m) AGENT_SIZE_MANAGE
                     then insert AGENT_SIZE_MANAGE implicit else implicit))
     else find_agent_permissions db (mem_id m) (mem_organization_id m) (map agent_id as)
            (email_verified_at (ctx_user ctx) \<noteq> None))"

definition allowed_actions ::
  "access_db \<Rightarrow> current_user_context \<Rightarrow> agent list \<Rightarrow> (uuid \<times> permission_key list) list result" where
  "allowed_actions db ctx as =
    (if as = [] then Inr []
     else bind_result (require_current_user_organization ctx) (\<lambda>m.
       bind_result (permissions_by_agent db ctx m as) (\<lambda>perms.
       Inr (map (\<lambda>a. (agent_id a,
              filter (\<lambda>p. p \<in> perms (agent_id a) \<and>
                  (api_key_access_mode ctx \<noteq> Some READ_ONLY \<or> p \<in> {AGENT_READ, ACTIVITY_READ, COST_READ}))
                AGENT_ACTION_PERMISSIONS)) as))))"

section \<open>What authority means\<close>

text \<open>
  The specification of authority, without scopes and queries: a Membership holds a
  Permission on a live Agent of its own Organization when its role is implicit Agent
  Owner, or when an access row of its own, or (for an accepted Member) the Agent's
  General Access, names a role that grants the Permission.
\<close>

definition role_grants :: "'a rbac_db_scheme \<Rightarrow> uuid \<Rightarrow> permission_key \<Rightarrow> bool" where
  "role_grants db r p \<longleftrightarrow> (\<exists>i. PERMISSION_ID_BY_KEY p = Some i \<and> (r, i) \<in> set (role_permission_rows db))"

definition holds_permission :: "access_db \<Rightarrow> organization_user \<Rightarrow> user \<Rightarrow> permission_key \<Rightarrow> agent \<Rightarrow> bool" where
  "holds_permission db m u p a \<longleftrightarrow>
    agent_organization_id a = mem_organization_id m \<and> agent_deleted_at a = None \<and>
    (mem_role m \<in> IMPLICIT_AGENT_OWNER_ROLES \<or>
     (\<exists>acc \<in> set (agent_accesses db).
        acc_agent_id acc = agent_id a \<and> acc_organization_id acc = mem_organization_id m \<and>
        acc_membership_id acc = mem_id m \<and> role_grants db (acc_access_role_id acc) p) \<or>
     (email_verified_at u \<noteq> None \<and>
      (\<exists>r. general_access_role_id a = Some r \<and> role_grants db r p)))"

definition scope_of :: "organization_user \<Rightarrow> user \<Rightarrow> permission_key \<Rightarrow> authz_scope" where
  "scope_of m u p =
    (if mem_role m \<in> IMPLICIT_AGENT_OWNER_ROLES then organization_scope (mem_organization_id m)
     else explicit_scope m u p)"

lemma authorization_scope_eq:
  "authorization_scope ctx p =
    bind_result (require_current_user_organization ctx) (\<lambda>m. Inr (scope_of m (ctx_user ctx) p))"
  by (simp add: authorization_scope_def scope_of_def)

lemma membership_scope_eq:
  "membership_scope db mid p = Some s \<longleftrightarrow>
    (\<exists>m u. find_membership_with_user db mid = Some (m, Some u) \<and> s = scope_of m u p)"
  by (auto simp: membership_scope_def scope_of_def split: option.splits)

lemma scope_predicates_spec:
  "agent_scope_predicates db (scope_of m u p) False = Inr (holds_permission db m u p)"
proof -
  obtain pid where pid: "PERMISSION_ID_BY_KEY p = Some pid"
    using permission_id_total by blast
  show ?thesis
  proof (cases "mem_role m \<in> IMPLICIT_AGENT_OWNER_ROLES")
    case True
    then show ?thesis
      by (auto simp: agent_scope_predicates_def scope_of_def organization_scope_def holds_permission_def)
  next
    case False
    then show ?thesis
      using pid
      by (auto simp: agent_scope_predicates_def scope_of_def explicit_scope_def holds_permission_def
          direct_access_def general_access_def role_grants_def fun_eq_iff split: option.splits)
  qed
qed

lemma get_active_in_scope_spec:
  "get_active_in_scope db i (scope_of m u p) =
    Inr (find (\<lambda>a. agent_id a = i \<and> holds_permission db m u p a) (agents db))"
  by (simp add: get_active_in_scope_def scope_predicates_spec)

definition agents_keyed :: "access_db \<Rightarrow> bool" where
  "agents_keyed db \<longleftrightarrow> distinct (map agent_id (agents db))"

lemma find_keyed:
  assumes "distinct (map key t)"
  shows "find (\<lambda>x. key x = k \<and> P x) t = Some x \<longleftrightarrow> x \<in> set t \<and> key x = k \<and> P x"
  using assms by (induction t) (auto simp: image_iff)

lemma require_visible_iff:
  assumes "agents_keyed db"
  shows "require_visible db ctx i = Inr a \<longleftrightarrow>
    (\<exists>m. current_user_organization ctx = Some m \<and> a \<in> set (agents db) \<and> agent_id a = i \<and>
         holds_permission db m (ctx_user ctx) AGENT_READ a)"
proof (cases "current_user_organization ctx")
  case None
  then show ?thesis
    by (simp add: require_visible_def authorization_scope_eq require_current_user_organization_def)
next
  case (Some m)
  then have "require_visible db ctx i = Inr a \<longleftrightarrow>
      find (\<lambda>a. agent_id a = i \<and> holds_permission db m (ctx_user ctx) AGENT_READ a) (agents db) = Some a"
    by (auto simp: require_visible_def authorization_scope_eq require_current_user_organization_def
        get_active_in_scope_spec split: option.splits)
  with Some assms show ?thesis
    by (simp add: find_keyed agents_keyed_def)
qed

lemma require_action_iff:
  assumes "agents_keyed db"
  shows "require_action db ctx i p d = Inr a \<longleftrightarrow>
    (\<exists>m. current_user_organization ctx = Some m \<and> a \<in> set (agents db) \<and> agent_id a = i \<and>
         holds_permission db m (ctx_user ctx) AGENT_READ a \<and> holds_permission db m (ctx_user ctx) p a)"
proof (cases "require_visible db ctx i")
  case (Inl e)
  then have "require_visible db ctx i \<noteq> Inr a" by simp
  with Inl show ?thesis
    unfolding require_action_def require_visible_iff [OF assms] by auto
next
  case (Inr b)
  then obtain m where m: "current_user_organization ctx = Some m" and b: "b \<in> set (agents db)" "agent_id b = i"
      "holds_permission db m (ctx_user ctx) AGENT_READ b"
    using assms by (auto simp: require_visible_iff)
  let ?f = "find (\<lambda>a. agent_id a = i \<and> holds_permission db m (ctx_user ctx) p a) (agents db)"
  have uniq: "x = b" if "x \<in> set (agents db)" "agent_id x = i" for x
    using that b assms by (auto simp: agents_keyed_def distinct_map inj_on_def)
  have "?f \<noteq> None \<longleftrightarrow> holds_permission db m (ctx_user ctx) p b"
    unfolding find_None_iff using b(1,2) uniq by blast
  moreover have "require_action db ctx i p d = Inr a \<longleftrightarrow> ?f \<noteq> None \<and> a = b"
    using Inr m b(2) by (auto simp: require_action_def require_action_for_visible_def authorization_scope_eq
        require_current_user_organization_def get_active_in_scope_spec bind_result_Inr split: option.splits)
  ultimately show ?thesis
    unfolding m option.inject using b uniq by blast
qed

section \<open>The permissions a query collects\<close>

lemma collect_permissions_spec:
  assumes "\<And>i v. (i, v) \<in> set rows \<Longrightarrow> \<exists>k. v = permission_value k"
  shows "collect_permissions rows m = Inr (\<lambda>i. m i \<union> {k. (i, permission_value k) \<in> set rows})"
  using assms
proof (induction rows m rule: collect_permissions.induct)
  case (1 m)
  then show ?case by simp
next
  case (2 i v rs m)
  then obtain k where v: "v = permission_value k" by force
  have "collect_permissions rs (m(i := insert k (m i))) =
      Inr (\<lambda>j. (m(i := insert k (m i))) j \<union> {l. (j, permission_value l) \<in> set rs})"
    by (rule "2.IH") (use "2.prems" in \<open>auto simp: v permission_of_value_value\<close>)
  then show ?case by (auto simp: v permission_of_value_value fun_eq_iff)
qed

lemma direct_rows_iff:
  assumes "catalogue_seeded db"
  shows "(i, permission_value k) \<in> set (direct_permission_rows db mid org ids) \<longleftrightarrow>
    i \<in> set ids \<and> (\<exists>acc \<in> set (agent_accesses db). acc_agent_id acc = i \<and> acc_organization_id acc = org \<and>
      acc_membership_id acc = mid \<and> role_grants db (acc_access_role_id acc) k)"
proof -
  have perm: "(j, permission_value k) \<in> set (permission_rows db) \<longleftrightarrow> PERMISSION_ID_BY_KEY k = Some j" for j
    by (simp add: catalogue_seeded_permissions [OF assms] in_expected_permissions)
  have "(i, permission_value k) \<in> set (direct_permission_rows db mid org ids) \<longleftrightarrow>
    (\<exists>acc \<in> set (agent_accesses db). \<exists>j. (acc_access_role_id acc, j) \<in> set (role_permission_rows db) \<and>
       (j, permission_value k) \<in> set (permission_rows db) \<and> acc_agent_id acc = i \<and> i \<in> set ids \<and>
       acc_membership_id acc = mid \<and> acc_organization_id acc = org)"
    by (force simp: direct_permission_rows_def)
  then show ?thesis by (auto simp: perm role_grants_def)
qed

lemma general_rows_iff:
  assumes "catalogue_seeded db"
  shows "(i, permission_value k) \<in> set (general_permission_rows db org ids) \<longleftrightarrow>
    i \<in> set ids \<and> (\<exists>a \<in> set (agents db). agent_id a = i \<and> agent_organization_id a = org \<and>
      agent_deleted_at a = None \<and> (\<exists>r. general_access_role_id a = Some r \<and> role_grants db r k))"
proof -
  have perm: "(j, permission_value k) \<in> set (permission_rows db) \<longleftrightarrow> PERMISSION_ID_BY_KEY k = Some j" for j
    by (simp add: catalogue_seeded_permissions [OF assms] in_expected_permissions)
  have "(i, permission_value k) \<in> set (general_permission_rows db org ids) \<longleftrightarrow>
    (\<exists>a \<in> set (agents db). \<exists>r j. (r, j) \<in> set (role_permission_rows db) \<and>
       (j, permission_value k) \<in> set (permission_rows db) \<and> general_access_role_id a = Some r \<and>
       agent_organization_id a = org \<and> agent_id a = i \<and> i \<in> set ids \<and> agent_deleted_at a = None)"
    by (force simp: general_permission_rows_def)
  then show ?thesis by (auto simp: perm role_grants_def)
qed

lemma permission_rows_valid:
  assumes "catalogue_seeded db"
    and "(i, v) \<in> set (direct_permission_rows db mid org ids @
      (if g then general_permission_rows db org ids else []))"
  shows "\<exists>k. v = permission_value k"
proof -
  from assms(2) obtain j where "(j, v) \<in> set (permission_rows db)"
    by (auto simp: direct_permission_rows_def general_permission_rows_def split: if_splits)
  then show ?thesis
    by (auto simp: catalogue_seeded_permissions [OF assms(1)] in_expected_permissions)
qed

lemma find_agent_permissions_spec:
  assumes "catalogue_seeded db" and "ids \<noteq> []"
  shows "find_agent_permissions db mid org ids g =
    Inr (\<lambda>i. {k. (i, permission_value k) \<in> set (direct_permission_rows db mid org ids @
      (if g then general_permission_rows db org ids else []))})"
proof -
  let ?rows = "direct_permission_rows db mid org ids @ (if g then general_permission_rows db org ids else [])"
  have "collect_permissions ?rows (\<lambda>_. {}) = Inr (\<lambda>i. {} \<union> {k. (i, permission_value k) \<in> set ?rows})"
    by (rule collect_permissions_spec) (rule permission_rows_valid [OF assms(1)])
  with assms(2) show ?thesis unfolding find_agent_permissions_def by simp
qed

lemma owner_grants: "map_of SYSTEM_AGENT_ACCESS_ROLE_GRANTS AGENT_OWNER_ROLE_ID = Some OWNER_KEYS"
  by (simp add: SYSTEM_AGENT_ACCESS_ROLE_GRANTS_def system_role_ids)

lemma implicit_actions:
  assumes "r \<in> IMPLICIT_AGENT_OWNER_ROLES" and "p \<in> set AGENT_ACTION_PERMISSIONS"
  shows "p \<in> (if organization_role_allows r AGENT_SIZE_MANAGE then insert AGENT_SIZE_MANAGE OWNER_KEYS else OWNER_KEYS)"
  using assms
  by (auto simp: IMPLICIT_AGENT_OWNER_ROLES_def AGENT_ACTION_PERMISSIONS_def organization_role_allows_def
      org_keys_defs agent_keys_defs)

lemma permissions_by_agent_spec:
  assumes seeded: "catalogue_seeded db" and keyed: "agents_keyed db"
    and as: "a \<in> set as" "set as \<subseteq> set (agents db)"
    and live: "agent_organization_id a = mem_organization_id m" "agent_deleted_at a = None"
  shows "\<exists>perms. permissions_by_agent db ctx m as = Inr perms \<and>
    (\<forall>p \<in> set AGENT_ACTION_PERMISSIONS. p \<in> perms (agent_id a) \<longleftrightarrow> holds_permission db m (ctx_user ctx) p a)"
proof (cases "mem_role m \<in> IMPLICIT_AGENT_OWNER_ROLES")
  case True
  then have "holds_permission db m (ctx_user ctx) p a" for p
    using live by (simp add: holds_permission_def)
  with True implicit_actions [OF True] show ?thesis
    by (simp add: permissions_by_agent_def owner_grants)
next
  case False
  have ids: "agent_id a \<in> set (map agent_id as)" and ne: "map agent_id as \<noteq> []"
    using as(1) by auto
  have uniq: "x = a" if "x \<in> set (agents db)" "agent_id x = agent_id a" for x
    using that as keyed by (auto simp: agents_keyed_def distinct_map inj_on_def)
  have g: "(\<exists>x \<in> set (agents db). agent_id x = agent_id a \<and> agent_organization_id x = mem_organization_id m \<and>
        agent_deleted_at x = None \<and> (\<exists>r. general_access_role_id x = Some r \<and> role_grants db r p))
      \<longleftrightarrow> (\<exists>r. general_access_role_id a = Some r \<and> role_grants db r p)" for p
    using uniq as live by blast
  have "(agent_id a, permission_value p) \<in> set (direct_permission_rows db (mem_id m) (mem_organization_id m)
        (map agent_id as) @ (if email_verified_at (ctx_user ctx) \<noteq> None
          then general_permission_rows db (mem_organization_id m) (map agent_id as) else []))
      \<longleftrightarrow> holds_permission db m (ctx_user ctx) p a" for p
    unfolding holds_permission_def using False live ids
    by (simp add: direct_rows_iff [OF seeded] general_rows_iff [OF seeded] g split: if_split)
  then show ?thesis
    using False by (simp add: permissions_by_agent_def find_agent_permissions_spec [OF seeded ne]
        del: set_append set_map)
qed

lemma allowed_actions_spec:
  assumes "catalogue_seeded db" and "agents_keyed db"
    and m: "current_user_organization ctx = Some m"
    and as: "a \<in> set as" "set as \<subseteq> set (agents db)"
    and live: "agent_organization_id a = mem_organization_id m" "agent_deleted_at a = None"
  shows "\<exists>acts. allowed_actions db ctx as = Inr acts \<and>
    map_of acts (agent_id a) = Some (filter (\<lambda>p. holds_permission db m (ctx_user ctx) p a \<and>
      (api_key_access_mode ctx \<noteq> Some READ_ONLY \<or> p \<in> {AGENT_READ, ACTIVITY_READ, COST_READ}))
      AGENT_ACTION_PERMISSIONS)"
proof -
  obtain perms where perms: "permissions_by_agent db ctx m as = Inr perms"
      "\<forall>p \<in> set AGENT_ACTION_PERMISSIONS. p \<in> perms (agent_id a) \<longleftrightarrow> holds_permission db m (ctx_user ctx) p a"
    using permissions_by_agent_spec [OF assms(1,2) as live, of ctx] by (elim exE conjE)
  have lookup: "map_of (map (\<lambda>x. (agent_id x, f (agent_id x))) xs) (agent_id a) = Some (f (agent_id a))"
    if "a \<in> set xs" for f :: "uuid \<Rightarrow> permission_key list" and xs
    using that by (induction xs) auto
  let ?f = "\<lambda>i. filter (\<lambda>p. p \<in> perms i \<and>
      (api_key_access_mode ctx \<noteq> Some READ_ONLY \<or> p \<in> {AGENT_READ, ACTIVITY_READ, COST_READ})) AGENT_ACTION_PERMISSIONS"
  have "allowed_actions db ctx as = Inr (map (\<lambda>x. (agent_id x, ?f (agent_id x))) as)"
    using as(1) m perms(1) by (auto simp: allowed_actions_def require_current_user_organization_def)
  moreover have "?f (agent_id a) = filter (\<lambda>p. holds_permission db m (ctx_user ctx) p a \<and>
      (api_key_access_mode ctx \<noteq> Some READ_ONLY \<or> p \<in> {AGENT_READ, ACTIVITY_READ, COST_READ})) AGENT_ACTION_PERMISSIONS"
    using perms(2) by (intro filter_cong) auto
  ultimately show ?thesis using lookup [OF as(1), of ?f] by simp
qed

section \<open>The interface other components rely on\<close>

text \<open>
  Services of other domains call \<open>require_visible\<close> and \<open>require_action\<close> and rely on three laws:
  what a request for an Agent returns, that an action needs visibility and the
  Permission, and that authority never leaves the caller's Organization.
\<close>

locale agent_authority =
  fixes visible :: "'d \<Rightarrow> 'c \<Rightarrow> uuid \<Rightarrow> agent result"
    and action :: "'d \<Rightarrow> 'c \<Rightarrow> uuid \<Rightarrow> permission_key \<Rightarrow> string \<Rightarrow> agent result"
    and holds :: "'d \<Rightarrow> 'c \<Rightarrow> permission_key \<Rightarrow> agent \<Rightarrow> bool"
    and stored :: "'d \<Rightarrow> agent set"
    and ok :: "'d \<Rightarrow> bool"
    and home :: "'c \<Rightarrow> uuid option"
  assumes visible_spec: "ok d \<Longrightarrow> visible d c i = Inr a \<longleftrightarrow> a \<in> stored d \<and> agent_id a = i \<and> holds d c AGENT_READ a"
    and action_spec: "ok d \<Longrightarrow> action d c i p s = Inr a \<longleftrightarrow> visible d c i = Inr a \<and> holds d c p a"
    and holds_home: "holds d c p a \<Longrightarrow> home c = Some (agent_organization_id a) \<and> agent_deleted_at a = None"
begin

lemma visible_home: "ok d \<Longrightarrow> visible d c i = Inr a \<Longrightarrow> home c = Some (agent_organization_id a) \<and> agent_deleted_at a = None"
  using holds_home visible_spec by blast

lemma action_visible: "ok d \<Longrightarrow> action d c i p s = Inr a \<Longrightarrow> visible d c i = Inr a"
  using action_spec by blast

lemma action_in_home:
  "ok d \<Longrightarrow> action d c i p s = Inr a \<Longrightarrow>
    agent_id a = i \<and> a \<in> stored d \<and> home c = Some (agent_organization_id a) \<and> agent_deleted_at a = None \<and> holds d c p a"
  using action_spec visible_spec holds_home by blast

lemma action_outside_home:
  assumes "ok d" and "\<And>a. a \<in> stored d \<Longrightarrow> agent_id a = i \<Longrightarrow> home c \<noteq> Some (agent_organization_id a)"
  shows "\<exists>e. action d c i p s = Inl e"
  by (cases "action d c i p s") (use assms action_in_home in blast)+

end

definition caller_holds :: "access_db \<Rightarrow> current_user_context \<Rightarrow> permission_key \<Rightarrow> agent \<Rightarrow> bool" where
  "caller_holds db ctx p a =
    (case current_user_organization ctx of None \<Rightarrow> False | Some m \<Rightarrow> holds_permission db m (ctx_user ctx) p a)"

definition home_organization :: "current_user_context \<Rightarrow> uuid option" where
  "home_organization ctx = map_option mem_organization_id (current_user_organization ctx)"

interpretation authority: agent_authority require_visible require_action caller_holds "\<lambda>db. set (agents db)" agents_keyed home_organization
proof
  fix d c i a p s
  show "require_visible d c i = Inr a \<longleftrightarrow> a \<in> set (agents d) \<and> agent_id a = i \<and> caller_holds d c AGENT_READ a"
    if "agents_keyed d"
    using that by (auto simp: require_visible_iff caller_holds_def split: option.splits)
  show "require_action d c i p s = Inr a \<longleftrightarrow> require_visible d c i = Inr a \<and> caller_holds d c p a"
    if "agents_keyed d"
    using that by (auto simp: require_action_iff require_visible_iff caller_holds_def split: option.splits)
  show "home_organization c = Some (agent_organization_id a) \<and> agent_deleted_at a = None" if "caller_holds d c p a"
    using that by (auto simp: caller_holds_def home_organization_def holds_permission_def split: option.splits)
qed

section \<open>A small installation\<close>

text \<open>
  The database the witnesses are evaluated on: one Organization with an Owner (user 1),
  a Member (user 2) who has Editor access to Agent 100, a pending Member (user 3), a
  second Organization, and an Agent in each.
\<close>

definition demo_user :: "uuid \<Rightarrow> bool \<Rightarrow> user" where
  "demo_user i verified =
    \<lparr>user_id = i, user_email = ''u'', user_full_name = None,
     email_verified_at = (if verified then Some 0 else None), is_platform_admin = False\<rparr>"

definition demo_membership :: "uuid \<Rightarrow> uuid \<Rightarrow> organization_role \<Rightarrow> organization_user" where
  "demo_membership u org r =
    \<lparr>mem_id = 10 + u, mem_user_id = Some u, mem_organization_id = org, mem_role = r\<rparr>"

definition demo_agent :: "uuid \<Rightarrow> uuid \<Rightarrow> uuid option \<Rightarrow> agent" where
  "demo_agent i org general =
    \<lparr>agent_id = i, agent_organization_id = org, agent_name = ''a'', agent_status = RUNNING, agent_type = ''hermes'',
     general_access_role_id = general, agent_deleted_at = None, agent_created_by = Some 1,
     communication_key = Some ''k''\<rparr>"

definition demo_db :: access_db where
  "demo_db =
    \<lparr>permission_rows = seeded_permission_rows, access_role_rows = seeded_role_rows,
     role_permission_rows = seeded_grant_rows,
     agents = [demo_agent 100 7 (Some AGENT_VIEWER_ROLE_ID), demo_agent 200 8 None],
     agent_accesses =
       [\<lparr>acc_organization_id = 7, acc_membership_id = 12, acc_agent_id = 100, acc_access_role_id = AGENT_EDITOR_ROLE_ID\<rparr>],
     memberships = [demo_membership 1 7 OWNER, demo_membership 2 7 MEMBER, demo_membership 3 7 MEMBER],
     users = [demo_user 1 True, demo_user 2 True, demo_user 3 False]\<rparr>"

definition demo_context :: "uuid \<Rightarrow> organization_role \<Rightarrow> bool \<Rightarrow> current_user_context" where
  "demo_context u r verified =
    \<lparr>ctx_user = demo_user u verified, api_key_access_mode = None,
     user_organization_map = [7 \<mapsto> demo_membership u 7 r],
     current_user_organization = Some (demo_membership u 7 r)\<rparr>"

lemmas demo_defs = demo_db_def demo_context_def demo_agent_def demo_membership_def demo_user_def

lemma demo_seeded: "catalogue_seeded demo_db"
  using set_system_grants by (intro catalogue_seededI) (simp_all add: demo_db_def seeded_grant_rows_def)

lemma demo_keyed: "agents_keyed demo_db"
  by (simp add: agents_keyed_def demo_db_def demo_agent_def)

lemma demo_grants:
  assumes "(r, ks) \<in> set SYSTEM_AGENT_ACCESS_ROLE_GRANTS"
  shows "role_grants demo_db r k \<longleftrightarrow> k \<in> ks"
  using catalogue_seeded_grants [OF demo_seeded assms] permission_id_total [of k]
  by (auto simp: role_grants_def)

lemma demo_editor_grants: "role_grants demo_db AGENT_EDITOR_ROLE_ID k \<longleftrightarrow> k \<in> EDITOR_KEYS"
  by (rule demo_grants) (simp add: SYSTEM_AGENT_ACCESS_ROLE_GRANTS_def)

lemma demo_viewer_grants: "role_grants demo_db AGENT_VIEWER_ROLE_ID k \<longleftrightarrow> k \<in> VIEWER_KEYS"
  by (rule demo_grants) (simp add: SYSTEM_AGENT_ACCESS_ROLE_GRANTS_def)

lemma demo_editor_holds:
  "holds_permission demo_db (demo_membership 2 7 MEMBER) (demo_user 2 True) p (demo_agent 100 7 (Some AGENT_VIEWER_ROLE_ID))
    \<longleftrightarrow> p \<in> EDITOR_KEYS"
proof -
  have acc: "agent_accesses demo_db =
      [\<lparr>acc_organization_id = 7, acc_membership_id = 12, acc_agent_id = 100, acc_access_role_id = AGENT_EDITOR_ROLE_ID\<rparr>]"
    by (simp add: demo_db_def)
  show ?thesis
    by (auto simp: holds_permission_def acc demo_membership_def demo_user_def demo_agent_def
        demo_editor_grants demo_viewer_grants agent_keys_defs IMPLICIT_AGENT_OWNER_ROLES_def)
qed

section \<open>Properties\<close>

text \<open>
  C2. Tenant isolation and authority: \<open>require_action\<close> lets a caller act on Agent
  \<open>i\<close> exactly when the caller has an active Membership and the stored, not deleted
  Agent \<open>i\<close> of that Membership's own Organization grants the Membership both
  \<open>agent.read\<close> and the requested Permission (by an implicit Owner role, an access row, or
  General Access for an accepted Member); otherwise it raises.
\<close>

theorem require_action_correct:
  assumes "agents_keyed db"
  shows "require_action db ctx i p d = Inr a \<longleftrightarrow>
    (\<exists>m. current_user_organization ctx = Some m \<and> a \<in> set (agents db) \<and> agent_id a = i \<and>
         agent_organization_id a = mem_organization_id m \<and> agent_deleted_at a = None \<and>
         holds_permission db m (ctx_user ctx) AGENT_READ a \<and> holds_permission db m (ctx_user ctx) p a)"
  unfolding require_action_iff [OF assms] by (auto simp: holds_permission_def)

theorem require_action_correct_witness:
  "agents_keyed demo_db \<and>
   require_action demo_db (demo_context 2 MEMBER True) 100 AGENT_UPDATE ''no''
     = Inr (demo_agent 100 7 (Some AGENT_VIEWER_ROLE_ID)) \<and>
   require_action demo_db (demo_context 2 MEMBER True) 100 AGENT_DELETE ''no''
     \<noteq> Inr (demo_agent 100 7 (Some AGENT_VIEWER_ROLE_ID))"
  unfolding require_action_correct [OF demo_keyed]
  using demo_keyed demo_editor_holds
  by (simp add: demo_context_def agent_keys_defs)
     (simp add: demo_db_def demo_agent_def demo_membership_def)

text \<open>
  Requests for an Agent of another Organization fail: no context with an active
  Membership in one Organization gets an Agent of another one, whatever the role and the
  Permission.
\<close>

theorem cross_organization_denied:
  assumes "agents_keyed db" and "current_user_organization ctx = Some m"
    and "\<And>a. a \<in> set (agents db) \<Longrightarrow> agent_id a = i \<Longrightarrow> agent_organization_id a \<noteq> mem_organization_id m"
  shows "\<exists>e. require_action db ctx i p d = Inl e"
proof (rule authority.action_outside_home [OF assms(1)])
  fix a assume "a \<in> set (agents db)" and "agent_id a = i"
  then have "agent_organization_id a \<noteq> mem_organization_id m" by (rule assms(3))
  then show "home_organization ctx \<noteq> Some (agent_organization_id a)"
    using assms(2) by (simp add: home_organization_def)
qed

theorem cross_organization_denied_witness:
  "\<exists>e. require_action demo_db (demo_context 1 OWNER True) 200 AGENT_READ ''no'' = Inl e"
  by (rule cross_organization_denied [OF demo_keyed, where m = "demo_membership 1 7 OWNER"])
     (auto simp: demo_defs)

text \<open>
  C25. The action list shown for a visible Agent agrees with enforcement: a Permission is
  listed by \<open>allowed_actions\<close> exactly when it is one of the Agent actions, \<open>require_action\<close> would grant
  it, and it is not withheld because the request came with a read-only API key.
\<close>

theorem allowed_actions_agree:
  assumes "catalogue_seeded db" and "agents_keyed db"
    and "require_visible db ctx i = Inr a" and "a \<in> set as" and "set as \<subseteq> set (agents db)"
  shows "\<exists>acts ps. allowed_actions db ctx as = Inr acts \<and> map_of acts i = Some ps \<and>
    set ps = {p \<in> set AGENT_ACTION_PERMISSIONS. require_action db ctx i p d = Inr a \<and>
      (api_key_access_mode ctx = Some READ_ONLY \<longrightarrow> p \<in> {AGENT_READ, ACTIVITY_READ, COST_READ})}"
proof -
  obtain m where m: "current_user_organization ctx = Some m" and a: "a \<in> set (agents db)" "agent_id a = i"
      "holds_permission db m (ctx_user ctx) AGENT_READ a"
    using assms(2,3) by (auto simp: require_visible_iff)
  then have live: "agent_organization_id a = mem_organization_id m" "agent_deleted_at a = None"
    by (simp_all add: holds_permission_def)
  have "require_action db ctx i p d = Inr a \<longleftrightarrow> holds_permission db m (ctx_user ctx) p a" for p
    using m a by (simp add: require_action_iff [OF assms(2)])
  with allowed_actions_spec [OF assms(1,2) m assms(4,5) live] show ?thesis
    by (auto simp: a(2) conj_commute)
qed

theorem allowed_actions_agree_witness:
  "\<exists>acts ps. allowed_actions demo_db (demo_context 2 MEMBER True) (agents demo_db) = Inr acts \<and> map_of acts 100 = Some ps \<and>
    set ps = {p \<in> set AGENT_ACTION_PERMISSIONS.
      require_action demo_db (demo_context 2 MEMBER True) 100 p ''no'' = Inr (demo_agent 100 7 (Some AGENT_VIEWER_ROLE_ID)) \<and>
      (api_key_access_mode (demo_context 2 MEMBER True) = Some READ_ONLY \<longrightarrow> p \<in> {AGENT_READ, ACTIVITY_READ, COST_READ})}"
proof (rule allowed_actions_agree [OF demo_seeded demo_keyed])
  show "require_visible demo_db (demo_context 2 MEMBER True) 100 = Inr (demo_agent 100 7 (Some AGENT_VIEWER_ROLE_ID))"
    unfolding require_visible_iff [OF demo_keyed]
    using demo_editor_holds [of AGENT_READ]
    by (simp add: demo_context_def agent_keys_defs) (simp add: demo_db_def demo_agent_def)
qed (simp_all add: demo_db_def)

text \<open>
  Authority outside a request follows the signed-in Member's: the scope
  \<open>membership_scope\<close> finds for a stored Membership is the scope the same user would get when signed
  in with it, and once the Membership (or its user) is gone, \<open>membership_has_permission\<close> is false
  for every Agent and Permission.
\<close>

theorem membership_scope_agrees:
  assumes "current_user_organization ctx = Some m"
    and "row_get mem_id (mem_id m) (memberships db) = Some m"
    and "mem_user_id m = Some (user_id (ctx_user ctx))"
    and "row_get user_id (user_id (ctx_user ctx)) (users db) = Some (ctx_user ctx)"
  shows "(authorization_scope ctx p = Inr s \<longleftrightarrow> membership_scope db (mem_id m) p = Some s) \<and>
    (row_get mem_id mid (memberships db) = None \<longrightarrow> membership_has_permission db mid i p = Inr False)"
proof -
  have "find_membership_with_user db (mem_id m) = Some (m, Some (ctx_user ctx))"
    using assms by (simp add: find_membership_with_user_def)
  with assms(1) have "authorization_scope ctx p = Inr s \<longleftrightarrow> membership_scope db (mem_id m) p = Some s"
    by (auto simp: authorization_scope_eq require_current_user_organization_def membership_scope_eq)
  moreover have "membership_has_permission db mid i p = Inr False" if "row_get mem_id mid (memberships db) = None"
    using that by (simp add: membership_has_permission_def membership_scope_def find_membership_with_user_def)
  ultimately show ?thesis by blast
qed

theorem membership_scope_agrees_witness:
  "authorization_scope (demo_context 2 MEMBER True) AGENT_UPDATE = Inr (explicit_scope (demo_membership 2 7 MEMBER) (demo_user 2 True) AGENT_UPDATE) \<and>
   membership_scope demo_db 12 AGENT_UPDATE = Some (explicit_scope (demo_membership 2 7 MEMBER) (demo_user 2 True) AGENT_UPDATE) \<and>
   membership_has_permission demo_db 99 100 AGENT_READ = Inr False"
proof -
  have hyps: "current_user_organization (demo_context 2 MEMBER True) = Some (demo_membership 2 7 MEMBER)"
    "row_get mem_id (mem_id (demo_membership 2 7 MEMBER)) (memberships demo_db) = Some (demo_membership 2 7 MEMBER)"
    "mem_user_id (demo_membership 2 7 MEMBER) = Some (user_id (ctx_user (demo_context 2 MEMBER True)))"
    "row_get user_id (user_id (ctx_user (demo_context 2 MEMBER True))) (users demo_db) = Some (ctx_user (demo_context 2 MEMBER True))"
    by (simp_all add: demo_defs row_get_def)
  have gone: "row_get mem_id 99 (memberships demo_db) = None"
    by (simp add: demo_defs row_get_def)
  have "authorization_scope (demo_context 2 MEMBER True) AGENT_UPDATE
      = Inr (explicit_scope (demo_membership 2 7 MEMBER) (demo_user 2 True) AGENT_UPDATE)"
    by (simp add: authorization_scope_def require_current_user_organization_def demo_context_def
        IMPLICIT_AGENT_OWNER_ROLES_def demo_membership_def)
  moreover have "mem_id (demo_membership 2 7 MEMBER) = 12"
    by (simp add: demo_membership_def)
  ultimately show ?thesis
    using membership_scope_agrees [OF hyps, of AGENT_UPDATE _ 99 100]
      membership_scope_agrees [OF hyps, of AGENT_READ _ 99 100] gone by metis
qed

text \<open>
  Organization decisions stay with the Organization: through the system Agent Access
  Roles no Member obtains the permissions that the catalogue reserves to Organization
  roles (sizes, spend limits, billing, memory grants), not even as Agent Owner or through General
  Access.
\<close>

theorem reserved_permissions_not_by_agent_roles:
  assumes "catalogue_seeded db" and "mem_role m = MEMBER"
    and "p \<in> {AGENT_SIZE_MANAGE, LLM_BUDGET_MANAGE, BILLING_MANAGE, MEMORY_ACCESS_MANAGE}"
    and "\<And>acc. acc \<in> set (agent_accesses db) \<Longrightarrow> acc_access_role_id acc \<in> fst ` set SYSTEM_AGENT_ACCESS_ROLES"
    and "\<And>r. general_access_role_id a = Some r \<Longrightarrow> r \<in> fst ` set SYSTEM_AGENT_ACCESS_ROLES"
  shows "\<not> holds_permission db m u p a"
proof -
  have "\<not> role_grants db r p" if r: "r \<in> fst ` set SYSTEM_AGENT_ACCESS_ROLES" for r
  proof -
    from r obtain ks where ks: "(r, ks) \<in> set SYSTEM_AGENT_ACCESS_ROLE_GRANTS"
      by (auto simp: SYSTEM_AGENT_ACCESS_ROLES_def SYSTEM_AGENT_ACCESS_ROLE_GRANTS_def)
    with assms(3) have "p \<notin> ks"
      by (auto simp: SYSTEM_AGENT_ACCESS_ROLE_GRANTS_def agent_keys_defs)
    with catalogue_seeded_grants [OF assms(1) ks] show ?thesis by (auto simp: role_grants_def)
  qed
  with assms(2,4,5) show ?thesis
    by (auto simp: holds_permission_def IMPLICIT_AGENT_OWNER_ROLES_def)
qed

theorem reserved_permissions_not_by_agent_roles_witness:
  "\<not> holds_permission demo_db (demo_membership 2 7 MEMBER) (demo_user 2 True) AGENT_SIZE_MANAGE
      (demo_agent 100 7 (Some AGENT_VIEWER_ROLE_ID))"
  by (rule reserved_permissions_not_by_agent_roles [OF demo_seeded])
     (auto simp: demo_db_def demo_membership_def demo_agent_def SYSTEM_AGENT_ACCESS_ROLES_def)

end
