(* ===== verification/Event_Registry.thy ===== *)
theory Event_Registry
  imports Prelude
begin

text \<open>
  Domain Events before they are stored (\<open>api/domains/events/models.py\<close>,
  \<open>registry.py\<close>, \<open>handlers.py\<close>, \<open>constants.py\<close>): identities and envelopes, the
  registry of event definitions with the validation of scope, identities and payload,
  and the registry of event handlers.
\<close>

section \<open>Identities, payloads, envelopes\<close>

datatype actor_identity_type = ActorMembership | ActorUser | ActorSystem | ActorRuntime

datatype subject_identity_type =
    SubjectAgent | SubjectMembership | SubjectOrganization | SubjectTemplate | SubjectSkill
  | SubjectSystem | SubjectUser

datatype event_scope = ScopeOrganization | ScopePlatform

record actor_identity =
  actor_type :: actor_identity_type
  actor_id :: string
  actor_organization_id :: "uuid option"

record subject_identity =
  subject_type :: subject_identity_type
  subject_id :: string
  subject_organization_id :: "uuid option"

text \<open>
  A Python value as the payload functions meet it. A float is given by its \<open>repr\<close>
  (so \<open>nan\<close>, \<open>inf\<close> and \<open>-inf\<close> are the floats that are not finite); \<open>JOther\<close> is any value of
  another type, \<open>KOther\<close> a dict key that is not a string.
\<close>

datatype json_key = KStr string | KOther

datatype json =
    JNull
  | JBool bool
  | JInt int
  | JFloat string
  | JStr string
  | JList "json list"
  | JObj "(json_key \<times> json) list"
  | JOther

record domain_event =
  ev_event_id :: uuid
  ev_event_name :: string
  ev_schema_version :: int
  ev_occurred_at :: datetime
  ev_event_scope :: event_scope
  ev_organization_id :: "uuid option"
  ev_actor :: actor_identity
  ev_subject :: subject_identity
  ev_correlation_id :: uuid
  ev_causation_id :: "uuid option"
  ev_payload :: json

section \<open>Sensitive names\<close>

definition SENSITIVE_TOKEN_PARTS :: "string list" where
  "SENSITIVE_TOKEN_PARTS =
    [''api_key'', ''apikey'', ''authorization'', ''client_secret'', ''credential'', ''password'',
     ''private_key'', ''refresh_token'', ''secret'', ''token'']"

definition normalized :: "string \<Rightarrow> string" where
  "normalized s = replace_char (CHR ''-'') (CHR ''_'') (lower s)"

definition is_sensitive_key :: "string \<Rightarrow> bool" where
  "is_sensitive_key key \<longleftrightarrow> (\<exists>part \<in> set SENSITIVE_TOKEN_PARTS. contains part (normalized key))"

section \<open>Payload checks\<close>

definition is_finite_float :: "string \<Rightarrow> bool" where
  "is_finite_float r \<longleftrightarrow> r \<notin> {''nan'', ''inf'', ''-inf''}"

fun validate_json_value :: "string \<Rightarrow> json \<Rightarrow> unit result"
  and validate_entries :: "string \<Rightarrow> (json_key \<times> json) list \<Rightarrow> unit result"
  and validate_elements :: "string \<Rightarrow> nat \<Rightarrow> json list \<Rightarrow> unit result" where
  "validate_json_value path (JObj es) = validate_entries path es"
| "validate_json_value path (JList xs) = validate_elements path 0 xs"
| "validate_json_value path (JStr s) = Inr ()"
| "validate_json_value path (JBool b) = Inr ()"
| "validate_json_value path JNull = Inr ()"
| "validate_json_value path (JInt i) = Inr ()"
| "validate_json_value path (JFloat r) =
    (if is_finite_float r then Inr ()
     else Inl (DomainEventValidationError (''Unsupported non-finite payload number at '' @ path)))"
| "validate_json_value path JOther =
    Inl (DomainEventValidationError (''Unsupported payload value at '' @ path))"
| "validate_entries path [] = Inr ()"
| "validate_entries path ((KOther, v) # es) =
    Inl (DomainEventValidationError (''Unsupported non-string payload key at '' @ path))"
| "validate_entries path ((KStr k, v) # es) =
    (if is_sensitive_key k then
       Inl (DomainEventValidationError (''Event Payload contains sensitive key at '' @ path @ ''.'' @ k))
     else bind_result (validate_json_value (path @ ''.'' @ k) v) (\<lambda>_. validate_entries path es))"
| "validate_elements path i [] = Inr ()"
| "validate_elements path i (x # xs) =
    bind_result (validate_json_value (path @ ''['' @ nat_str i @ '']'') x) (\<lambda>_. validate_elements path (Suc i) xs)"

text \<open>\<open>_walk_dicts\<close>: every dict of the value with its path, in the order the generator yields them.\<close>

fun walk_dicts :: "string \<Rightarrow> json \<Rightarrow> (string \<times> (json_key \<times> json) list) list"
  and walk_entries :: "string \<Rightarrow> (json_key \<times> json) list \<Rightarrow> (string \<times> (json_key \<times> json) list) list"
  and walk_elements :: "string \<Rightarrow> nat \<Rightarrow> json list \<Rightarrow> (string \<times> (json_key \<times> json) list) list" where
  "walk_dicts path (JObj es) = (path, es) # walk_entries path es"
| "walk_dicts path (JList xs) = walk_elements path 0 xs"
| "walk_dicts path (JStr s) = []"
| "walk_dicts path (JBool b) = []"
| "walk_dicts path JNull = []"
| "walk_dicts path (JInt i) = []"
| "walk_dicts path (JFloat r) = []"
| "walk_dicts path JOther = []"
| "walk_entries path [] = []"
| "walk_entries path ((k, v) # es) =
    walk_dicts (path @ ''.'' @ (case k of KStr s \<Rightarrow> s | KOther \<Rightarrow> ''?'')) v @ walk_entries path es"
| "walk_elements path i [] = []"
| "walk_elements path i (x # xs) =
    walk_dicts (path @ ''['' @ nat_str i @ '']'') x @ walk_elements path (Suc i) xs"

text \<open>
  \<open>str(value) == s\<close> where \<open>s\<close> is a UUID's text or \<open>None\<close>: the text of a list or a dict starts
  with a bracket and is neither.
\<close>

definition str_is :: "json \<Rightarrow> string \<Rightarrow> bool" where
  "str_is v s =
    (case v of
       JStr t \<Rightarrow> t = s
     | JInt i \<Rightarrow> int_str i = s
     | JFloat r \<Rightarrow> r = s
     | JBool b \<Rightarrow> (if b then ''True'' else ''False'') = s
     | JNull \<Rightarrow> ''None'' = s
     | _ \<Rightarrow> False)"

definition str_org :: "uuid option \<Rightarrow> string" where
  "str_org org = (case org of None \<Rightarrow> ''None'' | Some u \<Rightarrow> uuid_str u)"

text \<open>\<open>value.get("organization_id")\<close>; a missing key and the value \<open>None\<close> are the same.\<close>

definition ref_organization :: "(json_key \<times> json) list \<Rightarrow> json option" where
  "ref_organization es =
    (case map_of es (KStr ''organization_id'') of None \<Rightarrow> None | Some JNull \<Rightarrow> None | Some v \<Rightarrow> Some v)"

fun check_references ::
  "event_scope \<Rightarrow> uuid option \<Rightarrow> (string \<times> (json_key \<times> json) list) list \<Rightarrow> unit result" where
  "check_references scope org [] = Inr ()"
| "check_references scope org ((path, es) # ds) =
    (case ref_organization es of
       None \<Rightarrow> check_references scope org ds
     | Some v \<Rightarrow>
         if scope = ScopePlatform then
           Inl (DomainEventValidationError
             (''Platform Event Payload reference at '' @ path @ '' cannot contain an Organization''))
         else if \<not> str_is v (str_org org) then
           Inl (DomainEventValidationError (''Payload reference at '' @ path @ '' belongs to a different Organization''))
         else check_references scope org ds)"

definition validate_payload_organization :: "json \<Rightarrow> event_scope \<Rightarrow> uuid option \<Rightarrow> unit result" where
  "validate_payload_organization payload scope org = check_references scope org (walk_dicts ''payload'' payload)"

text \<open>\<open>json.dumps(..., separators=(",", ":"), sort_keys=True)\<close>, escaping everything outside printable ASCII.\<close>

definition escape_char :: "char \<Rightarrow> string" where
  "escape_char c =
    (let n = of_char c :: nat; bs = [CHR 0x5C]
     in if n = 34 \<or> n = 92 then bs @ [c]
        else if n = 10 then bs @ ''n'' else if n = 13 then bs @ ''r'' else if n = 9 then bs @ ''t''
        else if n = 8 then bs @ ''b'' else if n = 12 then bs @ ''f''
        else if n < 32 \<or> 126 < n then bs @ ''u'' @ hex_digits 4 n
        else [c])"

definition dumps_str :: "string \<Rightarrow> string" where
  "dumps_str s = [CHR 0x22] @ concat (map escape_char s) @ [CHR 0x22]"

fun join :: "string \<Rightarrow> string list \<Rightarrow> string" where
  "join sep [] = []"
| "join sep [x] = x"
| "join sep (x # y # xs) = x @ sep @ join sep (y # xs)"

fun json_dumps :: "json \<Rightarrow> string"
  and dumps_entries :: "(json_key \<times> json) list \<Rightarrow> (string \<times> string) list"
  and dumps_elements :: "json list \<Rightarrow> string list" where
  "json_dumps JNull = ''null''"
| "json_dumps (JBool b) = (if b then ''true'' else ''false'')"
| "json_dumps (JInt i) = int_str i"
| "json_dumps (JFloat r) = r"
| "json_dumps (JStr s) = dumps_str s"
| "json_dumps (JList xs) = ''['' @ join '','' (dumps_elements xs) @ '']''"
| "json_dumps (JObj es) =
    ''{'' @ join '','' (map (\<lambda>(k, v). dumps_str k @ '':'' @ v) (sort_key fst (dumps_entries es))) @ ''}''"
| "json_dumps JOther = []"
| "dumps_entries [] = []"
| "dumps_entries ((KStr k, v) # es) = (k, json_dumps v) # dumps_entries es"
| "dumps_entries ((KOther, v) # es) = dumps_entries es"
| "dumps_elements [] = []"
| "dumps_elements (x # xs) = json_dumps x # dumps_elements xs"

section \<open>The registry of event definitions\<close>

definition MAX_PAYLOAD_BYTES :: nat where
  "MAX_PAYLOAD_BYTES = 16 * 1024"

text \<open>
  A payload model is a pydantic class: a parameter that says for a payload whether
  \<open>model_validate\<close> raises (with the text of the error), whether \<open>model_dump\<close> raises, or what
  the dump is.
\<close>

datatype payload_outcome = Invalid string | Unserializable | Dumped json

record domain_event_definition =
  def_event_name :: string
  def_schema_version :: int
  def_payload_model :: "json \<Rightarrow> payload_outcome"
  def_handler_names :: "string list"
  def_event_scope :: "event_scope option"

definition definition_key :: "domain_event_definition \<Rightarrow> string \<times> int" where
  "definition_key d = (def_event_name d, def_schema_version d)"

definition domain_event_definition_post_init :: "domain_event_definition \<Rightarrow> domain_event_definition result" where
  "domain_event_definition_post_init d =
    bind_result (raise_if (def_event_name d = []) (DomainEventValidationError ''event_name is required'')) (\<lambda>_.
    bind_result (raise_if (def_schema_version d < 1)
      (DomainEventValidationError ''schema_version must be at least 1'')) (\<lambda>_.
    bind_result (raise_if (length (remdups (def_handler_names d)) \<noteq> length (def_handler_names d))
      (DomainEventValidationError ''handler_names must be unique'')) (\<lambda>_.
    bind_result (raise_if (\<exists>h \<in> set (def_handler_names d). h = [])
      (DomainEventValidationError ''handler_names cannot contain empty values'')) (\<lambda>_.
    Inr d))))"

record event_registry =
  registry_definitions :: "domain_event_definition list"
  registry_max_payload_bytes :: nat

definition event_registry_init :: "nat \<Rightarrow> event_registry" where
  "event_registry_init n = \<lparr>registry_definitions = [], registry_max_payload_bytes = n\<rparr>"

definition event_registry_register :: "event_registry \<Rightarrow> domain_event_definition \<Rightarrow> event_registry result" where
  "event_registry_register reg d =
    bind_result (raise_if (row_get definition_key (definition_key d) (registry_definitions reg) \<noteq> None)
      (DomainEventValidationError (''Domain Event '' @ def_event_name d @ '' v'' @ int_str (def_schema_version d) @
        '' is already registered''))) (\<lambda>_.
    Inr (reg\<lparr>registry_definitions := row_add d (registry_definitions reg)\<rparr>))"

definition event_registry_get :: "event_registry \<Rightarrow> string \<Rightarrow> int \<Rightarrow> domain_event_definition result" where
  "event_registry_get reg name version =
    (case row_get definition_key (name, version) (registry_definitions reg) of
       None \<Rightarrow> Inl (UnsupportedDomainEventError (''Unsupported Domain Event '' @ name @ '' v'' @ int_str version))
     | Some d \<Rightarrow> Inr d)"

definition handler_names_for :: "event_registry \<Rightarrow> string \<Rightarrow> int \<Rightarrow> (string list) result" where
  "handler_names_for reg name version =
    bind_result (event_registry_get reg name version) (\<lambda>d. Inr (def_handler_names d))"

definition list_definitions :: "event_registry \<Rightarrow> domain_event_definition list" where
  "list_definitions reg = registry_definitions reg"

text \<open>\<open>_validate_scope\<close>, \<open>_validate_identity_organization\<close>, \<open>_validate_payload\<close>.\<close>

definition validate_scope :: "event_scope \<Rightarrow> uuid option \<Rightarrow> unit result" where
  "validate_scope scope org =
    bind_result (raise_if (scope = ScopeOrganization \<and> org = None)
      (DomainEventValidationError ''Organization-scoped events require an Organization'')) (\<lambda>_.
    raise_if (scope = ScopePlatform \<and> org \<noteq> None)
      (DomainEventValidationError ''Platform-scoped events cannot reference an Organization''))"

datatype identity = IdActor actor_identity | IdSubject subject_identity

definition identity_organization_id :: "identity \<Rightarrow> uuid option" where
  "identity_organization_id i =
    (case i of IdActor a \<Rightarrow> actor_organization_id a | IdSubject s \<Rightarrow> subject_organization_id s)"

definition validate_identity_organization ::
  "string \<Rightarrow> identity \<Rightarrow> uuid option \<Rightarrow> event_scope \<Rightarrow> unit result" where
  "validate_identity_organization name i org scope =
    (if scope = ScopePlatform then
       bind_result (raise_if (identity_organization_id i \<noteq> None)
         (DomainEventValidationError (''Platform Event '' @ name @ '' cannot reference an Organization''))) (\<lambda>_.
       bind_result (raise_if (case i of IdActor a \<Rightarrow> actor_type a = ActorMembership | IdSubject s \<Rightarrow> False)
         (DomainEventValidationError ''Platform Event actor cannot be an Organization Membership'')) (\<lambda>_.
       raise_if (case i of IdActor a \<Rightarrow> False | IdSubject s \<Rightarrow> subject_type s \<notin> {SubjectUser, SubjectSystem})
         (DomainEventValidationError ''Platform Event subject cannot reference an Organization resource'')))
     else
       raise_if (identity_organization_id i \<noteq> None \<and> identity_organization_id i \<noteq> org)
         (DomainEventValidationError (name @ '' belongs to a different Organization'')))"

definition is_json_object :: "json \<Rightarrow> bool" where
  "is_json_object v = (case v of JObj es \<Rightarrow> True | _ \<Rightarrow> False)"

definition validate_payload ::
  "event_registry \<Rightarrow> domain_event_definition \<Rightarrow> json \<Rightarrow> event_scope \<Rightarrow> uuid option \<Rightarrow> json result" where
  "validate_payload reg d payload scope org =
    bind_result (raise_if (\<not> is_json_object payload)
      (DomainEventValidationError ''Event Payload must be a JSON object'')) (\<lambda>_.
    bind_result (case def_payload_model d payload of
        Invalid e \<Rightarrow> Inl (DomainEventValidationError e)
      | Unserializable \<Rightarrow> Inl (DomainEventValidationError ''Unsupported payload value'')
      | Dumped v \<Rightarrow> Inr v) (\<lambda>data.
    bind_result (raise_if (\<not> is_json_object data)
      (DomainEventValidationError ''Event Payload schema must serialize to a JSON object'')) (\<lambda>_.
    bind_result (validate_json_value ''payload'' data) (\<lambda>_.
    bind_result (validate_payload_organization data scope org) (\<lambda>_.
    bind_result (raise_if (registry_max_payload_bytes reg < length (json_dumps data))
      (DomainEventValidationError ''Event Payload exceeds maximum size'')) (\<lambda>_.
    Inr data))))))"

text \<open>The checks pydantic makes when an envelope is built (\<open>min_length\<close>, \<open>max_length\<close>, \<open>ge\<close>).\<close>

definition domain_event_envelope :: "domain_event \<Rightarrow> domain_event result" where
  "domain_event_envelope ev =
    bind_result (raise_if (ev_event_name ev = [] \<or> 255 < length (ev_event_name ev)) (ValueError ''event_name'')) (\<lambda>_.
    bind_result (raise_if (ev_schema_version ev < 1) (ValueError ''schema_version'')) (\<lambda>_.
    Inr ev))"

text \<open>
  \<open>build_event\<close>; \<open>event_id\<close> is the \<open>uuid4()\<close> the envelope draws. The keyword arguments are
  a record.
\<close>

record event_request =
  rq_event_name :: string
  rq_schema_version :: int
  rq_occurred_at :: datetime
  rq_organization_id :: "uuid option"
  rq_actor :: actor_identity
  rq_subject :: subject_identity
  rq_correlation_id :: uuid
  rq_payload :: json
  rq_causation_id :: "uuid option"
  rq_event_scope :: "event_scope option"

definition scope_value :: "event_scope \<Rightarrow> string" where
  "scope_value s = (case s of ScopeOrganization \<Rightarrow> ''ORGANIZATION'' | ScopePlatform \<Rightarrow> ''PLATFORM'')"

definition resolved_scope :: "domain_event_definition \<Rightarrow> event_request \<Rightarrow> event_scope" where
  "resolved_scope d rq =
    (case def_event_scope d of
       Some s \<Rightarrow> s
     | None \<Rightarrow> (case rq_event_scope rq of Some s \<Rightarrow> s | None \<Rightarrow> ScopeOrganization))"

definition build_event :: "event_registry \<Rightarrow> uuid \<Rightarrow> event_request \<Rightarrow> domain_event result" where
  "build_event reg event_id rq =
    bind_result (event_registry_get reg (rq_event_name rq) (rq_schema_version rq)) (\<lambda>d.
    let scope = resolved_scope d rq; org = rq_organization_id rq in
    bind_result (raise_if (def_event_scope d \<noteq> None \<and> rq_event_scope rq \<noteq> None \<and> rq_event_scope rq \<noteq> def_event_scope d)
      (DomainEventValidationError (''Domain Event '' @ rq_event_name rq @ '' is '' @
        scope_value (the (def_event_scope d)) @ ''-scoped''))) (\<lambda>_.
    bind_result (validate_scope scope org) (\<lambda>_.
    bind_result (validate_identity_organization ''actor'' (IdActor (rq_actor rq)) org scope) (\<lambda>_.
    bind_result (validate_identity_organization ''subject'' (IdSubject (rq_subject rq)) org scope) (\<lambda>_.
    bind_result (validate_payload reg d (rq_payload rq) scope org) (\<lambda>safe_payload.
    domain_event_envelope
      \<lparr>ev_event_id = event_id, ev_event_name = rq_event_name rq, ev_schema_version = rq_schema_version rq,
       ev_occurred_at = rq_occurred_at rq, ev_event_scope = scope, ev_organization_id = org,
       ev_actor = rq_actor rq, ev_subject = rq_subject rq, ev_correlation_id = rq_correlation_id rq,
       ev_causation_id = rq_causation_id rq, ev_payload = safe_payload\<rparr>))))))"

section \<open>The registry of event handlers\<close>

record supported_event =
  sup_event_name :: string
  sup_schema_version :: int

definition supported_event_post_init :: "string \<Rightarrow> int \<Rightarrow> supported_event result" where
  "supported_event_post_init name version =
    bind_result (raise_if (name = [])
      (DomainEventValidationError ''Event Handler supported event name is required'')) (\<lambda>_.
    bind_result (raise_if (version < 1)
      (DomainEventValidationError ''Event Handler supported schema version must be at least 1'')) (\<lambda>_.
    Inr \<lparr>sup_event_name = name, sup_schema_version = version\<rparr>))"

record event_delivery_context =
  ctx_delivery_id :: uuid
  ctx_event_id :: uuid
  ctx_handler_name :: string
  ctx_attempt_count :: nat
  ctx_correlation_id :: uuid
  ctx_organization_id :: "uuid option"

text \<open>How a call of \<open>handle\<close> ends: it returns or raises, with the text of the exception.\<close>

datatype handle_outcome = Handled | TerminalError string | RetryableError string | UnexpectedError string

record event_handler =
  handler_name :: string
  handler_supported_events :: "supported_event list"
  handler_handle :: "domain_event \<Rightarrow> event_delivery_context \<Rightarrow> handle_outcome"

type_synonym handler_registry = "event_handler list"

definition handler_registry_register :: "handler_registry \<Rightarrow> event_handler \<Rightarrow> handler_registry result" where
  "handler_registry_register reg h =
    bind_result (raise_if (handler_name h = []) (DomainEventValidationError ''Event Handler name is required'')) (\<lambda>_.
    bind_result (raise_if (row_get handler_name (handler_name h) reg \<noteq> None)
      (DomainEventValidationError (''Event Handler '' @ handler_name h @ '' is already registered''))) (\<lambda>_.
    bind_result (raise_if (handler_supported_events h = [])
      (DomainEventValidationError (''Event Handler '' @ handler_name h @ '' must declare supported events''))) (\<lambda>_.
    bind_result (raise_if (length (remdups (handler_supported_events h)) \<noteq> length (handler_supported_events h))
      (DomainEventValidationError (''Event Handler '' @ handler_name h @ '' declares duplicate supported events''))) (\<lambda>_.
    Inr (row_add h reg)))))"

fun handler_registry_init :: "handler_registry \<Rightarrow> event_handler list \<Rightarrow> handler_registry result" where
  "handler_registry_init reg [] = Inr reg"
| "handler_registry_init reg (h # hs) =
    bind_result (handler_registry_register reg h) (\<lambda>reg'. handler_registry_init reg' hs)"

definition handler_registry_get :: "handler_registry \<Rightarrow> string \<Rightarrow> event_handler result" where
  "handler_registry_get reg name =
    (case row_get handler_name name reg of
       None \<Rightarrow> Inl (UnknownEventHandlerError (''Unknown Event Handler '' @ name))
     | Some h \<Rightarrow> Inr h)"

definition handler_supports :: "handler_registry \<Rightarrow> string \<Rightarrow> string \<Rightarrow> int \<Rightarrow> bool result" where
  "handler_supports reg name event_name version =
    bind_result (handler_registry_get reg name) (\<lambda>h.
    bind_result (supported_event_post_init event_name version) (\<lambda>e.
    Inr (e \<in> set (handler_supported_events h))))"

definition require_support :: "handler_registry \<Rightarrow> string \<Rightarrow> string \<Rightarrow> int \<Rightarrow> unit result" where
  "require_support reg name event_name version =
    bind_result (handler_supports reg name event_name version) (\<lambda>b.
    raise_if (\<not> b) (UnsupportedHandlerEventError
      (''Event Handler '' @ name @ '' does not support '' @ event_name @ '' v'' @ int_str version)))"

text \<open>\<open>EventDeliveryMonitorService.list_supported_event_types\<close>: the event types that can have deliveries, by name.\<close>

definition supported_event_types :: "event_registry \<Rightarrow> (string \<times> int list) list" where
  "supported_event_types reg =
    (let ds = filter (\<lambda>d. def_handler_names d \<noteq> []) (list_definitions reg)
     in map (\<lambda>n. (n, sort (map def_schema_version (filter (\<lambda>d. def_event_name d = n) ds))))
          (sort (remdups (map def_event_name ds))))"

section \<open>What an accepted payload looks like\<close>

text \<open>All keys and all dicts of a value, at any depth.\<close>

fun all_keys :: "json \<Rightarrow> json_key list" where
  "all_keys (JObj es) = map fst es @ concat (map (\<lambda>(k, v). all_keys v) es)"
| "all_keys (JList xs) = concat (map all_keys xs)"
| "all_keys _ = []"

fun all_dicts :: "json \<Rightarrow> (json_key \<times> json) list list" where
  "all_dicts (JObj es) = es # concat (map (\<lambda>(k, v). all_dicts v) es)"
| "all_dicts (JList xs) = concat (map all_dicts xs)"
| "all_dicts _ = []"

fun all_leaves :: "json \<Rightarrow> json list" where
  "all_leaves (JObj es) = concat (map (\<lambda>(k, v). all_leaves v) es)"
| "all_leaves (JList xs) = concat (map all_leaves xs)"
| "all_leaves v = [v]"

definition plain_key :: "json_key \<Rightarrow> bool" where
  "plain_key k = (case k of KStr s \<Rightarrow> \<not> is_sensitive_key s | KOther \<Rightarrow> False)"

definition plain_leaf :: "json \<Rightarrow> bool" where
  "plain_leaf v = (case v of JOther \<Rightarrow> False | JFloat r \<Rightarrow> is_finite_float r | _ \<Rightarrow> True)"

definition storable_json :: "json \<Rightarrow> bool" where
  "storable_json v \<longleftrightarrow> (\<forall>k \<in> set (all_keys v). plain_key k) \<and> (\<forall>l \<in> set (all_leaves v). plain_leaf l)"

text \<open>\<open>_validate_json_value\<close> accepts exactly the storable values, whatever the path it reports.\<close>

lemma storable_json_simps [simp]:
  "storable_json (JObj es) \<longleftrightarrow> (\<forall>e \<in> set es. plain_key (fst e) \<and> storable_json (snd e))"
  "storable_json (JList xs) \<longleftrightarrow> (\<forall>x \<in> set xs. storable_json x)"
  "storable_json (JStr s)" "storable_json (JBool b)" "storable_json JNull" "storable_json (JInt i)"
  "storable_json (JFloat r) \<longleftrightarrow> is_finite_float r" "\<not> storable_json JOther"
  unfolding storable_json_def plain_leaf_def by (auto split: prod.splits) force+

lemma validate_json_value_iff:
  "validate_json_value p v = Inr () \<longleftrightarrow> storable_json v"
  "validate_entries p es = Inr () \<longleftrightarrow> (\<forall>e \<in> set es. plain_key (fst e) \<and> storable_json (snd e))"
  "validate_elements p i xs = Inr () \<longleftrightarrow> (\<forall>x \<in> set xs. storable_json x)"
  by (induction p v and p es and p i xs rule: validate_json_value_validate_entries_validate_elements.induct)
    (simp_all add: bind_result_Inr plain_key_def)

lemma walk_dicts_all_dicts:
  "map snd (walk_dicts p v) = all_dicts v"
  "map snd (walk_entries p es) = concat (map (\<lambda>(k, v). all_dicts v) es)"
  "map snd (walk_elements p i xs) = concat (map all_dicts xs)"
  by (induction p v and p es and p i xs rule: walk_dicts_walk_entries_walk_elements.induct) auto

definition reference_in_scope :: "event_scope \<Rightarrow> uuid option \<Rightarrow> (json_key \<times> json) list \<Rightarrow> bool" where
  "reference_in_scope scope org es =
    (case ref_organization es of
       None \<Rightarrow> True
     | Some v \<Rightarrow> scope = ScopeOrganization \<and> str_is v (str_org org))"

lemma check_references_iff:
  "check_references scope org ds = Inr () \<longleftrightarrow> (\<forall>es \<in> set (map snd ds). reference_in_scope scope org es)"
  by (induction scope org ds rule: check_references.induct)
    (auto simp: reference_in_scope_def split: option.splits, (metis event_scope.exhaust)+)

lemma validate_payload_organization_iff:
  "validate_payload_organization v scope org = Inr () \<longleftrightarrow> (\<forall>es \<in> set (all_dicts v). reference_in_scope scope org es)"
  unfolding validate_payload_organization_def check_references_iff walk_dicts_all_dicts ..

lemma validate_payload_Inr:
  "validate_payload reg d payload scope org = Inr data \<longleftrightarrow>
    is_json_object payload \<and> def_payload_model d payload = Dumped data \<and> is_json_object data \<and> storable_json data \<and>
    (\<forall>es \<in> set (all_dicts data). reference_in_scope scope org es) \<and>
    length (json_dumps data) \<le> registry_max_payload_bytes reg"
  unfolding validate_payload_def bind_result_Inr raise_if_Inr
  by (auto simp: validate_json_value_iff validate_payload_organization_iff split: payload_outcome.splits)

lemma validate_scope_Inr:
  "validate_scope scope org = Inr u \<longleftrightarrow> (scope = ScopeOrganization \<longleftrightarrow> org \<noteq> None)"
  by (cases scope) (auto simp: validate_scope_def bind_result_Inr)

text \<open>Who may appear in an event of a scope.\<close>

definition identity_in_scope :: "event_scope \<Rightarrow> uuid option \<Rightarrow> identity \<Rightarrow> bool" where
  "identity_in_scope scope org i =
    (case scope of
       ScopeOrganization \<Rightarrow> identity_organization_id i = None \<or> identity_organization_id i = org
     | ScopePlatform \<Rightarrow> identity_organization_id i = None \<and>
         (case i of IdActor a \<Rightarrow> actor_type a \<noteq> ActorMembership
          | IdSubject s \<Rightarrow> subject_type s = SubjectUser \<or> subject_type s = SubjectSystem))"

lemma validate_identity_organization_Inr:
  "validate_identity_organization name i org scope = Inr u \<longleftrightarrow> identity_in_scope scope org i"
  by (cases scope; cases i)
    (auto simp: validate_identity_organization_def bind_result_Inr identity_in_scope_def)

section \<open>Properties\<close>

interpretation definition_table: keyed_table definition_key "row_get definition_key" "row_put definition_key"
  row_add set "\<lambda>t. distinct (map definition_key t)"
  by (rule row_table)

interpretation handler_table: keyed_table handler_name "row_get handler_name" "row_put handler_name"
  row_add set "\<lambda>t. distinct (map handler_name t)"
  by (rule row_table)

definition safe_event :: "nat \<Rightarrow> domain_event \<Rightarrow> bool" where
  "safe_event max_bytes ev \<longleftrightarrow>
    (ev_event_scope ev = ScopeOrganization \<longleftrightarrow> ev_organization_id ev \<noteq> None) \<and>
    identity_in_scope (ev_event_scope ev) (ev_organization_id ev) (IdActor (ev_actor ev)) \<and>
    identity_in_scope (ev_event_scope ev) (ev_organization_id ev) (IdSubject (ev_subject ev)) \<and>
    is_json_object (ev_payload ev) \<and> storable_json (ev_payload ev) \<and>
    (\<forall>es \<in> set (all_dicts (ev_payload ev)). reference_in_scope (ev_event_scope ev) (ev_organization_id ev) es) \<and>
    length (json_dumps (ev_payload ev)) \<le> max_bytes"

lemma build_event_Inr:
  "build_event reg event_id rq = Inr ev \<longleftrightarrow>
    (\<exists>d data. event_registry_get reg (rq_event_name rq) (rq_schema_version rq) = Inr d \<and>
      def_payload_model d (rq_payload rq) = Dumped data \<and> is_json_object (rq_payload rq) \<and>
      (def_event_scope d = None \<or> rq_event_scope rq = None \<or> rq_event_scope rq = def_event_scope d) \<and>
      rq_event_name rq \<noteq> [] \<and> length (rq_event_name rq) \<le> 255 \<and> 1 \<le> rq_schema_version rq \<and>
      ev = \<lparr>ev_event_id = event_id, ev_event_name = rq_event_name rq, ev_schema_version = rq_schema_version rq,
         ev_occurred_at = rq_occurred_at rq, ev_event_scope = resolved_scope d rq,
         ev_organization_id = rq_organization_id rq, ev_actor = rq_actor rq, ev_subject = rq_subject rq,
         ev_correlation_id = rq_correlation_id rq, ev_causation_id = rq_causation_id rq, ev_payload = data\<rparr> \<and>
      safe_event (registry_max_payload_bytes reg) ev)"
  unfolding build_event_def Let_def bind_result_Inr raise_if_Inr validate_scope_Inr
    validate_identity_organization_Inr validate_payload_Inr domain_event_envelope_def safe_event_def
  by (auto simp: not_less)

lemma event_registry_get_Inr:
  "event_registry_get reg name version = Inr d \<longleftrightarrow>
    row_get definition_key (name, version) (registry_definitions reg) = Some d"
  by (auto simp: event_registry_get_def split: option.splits)

lemma event_registry_get_member:
  "event_registry_get reg name version = Inr d \<Longrightarrow>
    d \<in> set (list_definitions reg) \<and> def_event_name d = name \<and> def_schema_version d = version"
  unfolding event_registry_get_Inr list_definitions_def
  using definition_table.get_in_rows [of "(name, version)" "registry_definitions reg" d]
  by (simp add: definition_key_def)

text \<open>A small catalogue and a request, on which the properties are evaluated.\<close>

definition demo_definition :: domain_event_definition where
  "demo_definition =
    \<lparr>def_event_name = ''agent.started'', def_schema_version = 1, def_payload_model = Dumped,
     def_handler_names = [''security_audit.projection''], def_event_scope = Some ScopeOrganization\<rparr>"

definition demo_event_registry :: event_registry where
  "demo_event_registry =
    \<lparr>registry_definitions = [demo_definition], registry_max_payload_bytes = MAX_PAYLOAD_BYTES\<rparr>"

definition demo_request :: "json \<Rightarrow> event_request" where
  "demo_request payload =
    \<lparr>rq_event_name = ''agent.started'', rq_schema_version = 1, rq_occurred_at = 0, rq_organization_id = Some 7,
     rq_actor = \<lparr>actor_type = ActorSystem, actor_id = ''system'', actor_organization_id = None\<rparr>,
     rq_subject = \<lparr>subject_type = SubjectAgent, subject_id = ''a'', subject_organization_id = Some 7\<rparr>,
     rq_correlation_id = 1, rq_payload = payload, rq_causation_id = None, rq_event_scope = None\<rparr>"

definition demo_payload :: json where
  "demo_payload = JObj [(KStr ''agent'', JObj [(KStr ''organization_id'', JStr (uuid_str 7))])]"

definition demo_event :: domain_event where
  "demo_event =
    \<lparr>ev_event_id = 5, ev_event_name = ''agent.started'', ev_schema_version = 1, ev_occurred_at = 0,
     ev_event_scope = ScopeOrganization, ev_organization_id = Some 7,
     ev_actor = \<lparr>actor_type = ActorSystem, actor_id = ''system'', actor_organization_id = None\<rparr>,
     ev_subject = \<lparr>subject_type = SubjectAgent, subject_id = ''a'', subject_organization_id = Some 7\<rparr>,
     ev_correlation_id = 1, ev_causation_id = None, ev_payload = demo_payload\<rparr>"

lemma demo_build_event: "build_event demo_event_registry 5 (demo_request demo_payload) = Inr demo_event"
  by code_simp

text \<open>
  C10. \<open>build_event\<close> only ever returns safe events of registered types: an event is
  Organization-scoped exactly when it has an Organization; neither actor nor subject
  belongs to another Organization (and a Platform event has no membership actor and
  only a user or system subject); the payload is a JSON object in which no key at any
  depth contains a sensitive part and every \<open>organization_id\<close> reference at any depth names
  the event's Organization; its encoding fits the limit; and a definition's fixed scope
  is the event's scope.
\<close>

theorem build_event_safe:
  assumes "build_event reg event_id rq = Inr ev"
  shows "safe_event (registry_max_payload_bytes reg) ev \<and>
    ev_event_id ev = event_id \<and> ev_organization_id ev = rq_organization_id rq \<and>
    (\<exists>d \<in> set (list_definitions reg).
       definition_key d = (ev_event_name ev, ev_schema_version ev) \<and>
       def_payload_model d (rq_payload rq) = Dumped (ev_payload ev) \<and>
       def_event_scope d \<in> {None, Some (ev_event_scope ev)})"
proof -
  obtain d data where d: "event_registry_get reg (rq_event_name rq) (rq_schema_version rq) = Inr d"
    and m: "def_payload_model d (rq_payload rq) = Dumped data"
    and ev: "ev = \<lparr>ev_event_id = event_id, ev_event_name = rq_event_name rq, ev_schema_version = rq_schema_version rq,
         ev_occurred_at = rq_occurred_at rq, ev_event_scope = resolved_scope d rq,
         ev_organization_id = rq_organization_id rq, ev_actor = rq_actor rq, ev_subject = rq_subject rq,
         ev_correlation_id = rq_correlation_id rq, ev_causation_id = rq_causation_id rq, ev_payload = data\<rparr>"
    and safe: "safe_event (registry_max_payload_bytes reg) ev"
    using assms unfolding build_event_Inr by (elim exE conjE)
  have "def_event_scope d \<in> {None, Some (resolved_scope d rq)}"
    by (auto simp: resolved_scope_def split: option.splits)
  with safe event_registry_get_member [OF d] m show ?thesis
    by (auto simp: ev definition_key_def)
qed

theorem build_event_safe_witness:
  "safe_event MAX_PAYLOAD_BYTES demo_event"
  using build_event_safe [OF demo_build_event] by (simp add: demo_event_registry_def)

text \<open>
  What is registered is what is found: a successful \<open>register\<close> makes \<open>get\<close> return that
  definition for its name and version and leaves every other lookup as it was, and a
  second registration of the same name and version is refused.
\<close>

theorem register_then_get:
  assumes "event_registry_register reg d = Inr reg'"
  shows "event_registry_get reg' name version =
      (if definition_key d = (name, version) then Inr d else event_registry_get reg name version) \<and>
    (\<forall>d'. definition_key d' = definition_key d \<longrightarrow> (\<exists>m. event_registry_register reg' d' = Inl (DomainEventValidationError m)))"
proof -
  have absent: "row_get definition_key (definition_key d) (registry_definitions reg) = None"
    and reg': "reg' = reg\<lparr>registry_definitions := row_add d (registry_definitions reg)\<rparr>"
    using assms by (auto simp: event_registry_register_def bind_result_Inr)
  note get = definition_table.get_add [OF absent]
  show ?thesis
    by (auto simp: event_registry_get_def event_registry_register_def reg' get)
qed

theorem register_then_get_witness:
  "event_registry_get demo_event_registry ''agent.started'' 1 = Inr demo_definition"
proof -
  have "event_registry_register (event_registry_init MAX_PAYLOAD_BYTES) demo_definition = Inr demo_event_registry"
    by (simp add: event_registry_register_def event_registry_init_def demo_event_registry_def row_get_def row_add_def)
  from register_then_get [OF this, of "''agent.started''" 1] show ?thesis
    by (simp add: demo_definition_def definition_key_def)
qed

end
