(* ===== verification/Event_Outbox.thy ===== *)
theory Event_Outbox
  imports Event_Registry
begin

text \<open>
  The transactional outbox (\<open>api/domains/events/repository.py\<close>, \<open>processor.py\<close>,
  \<open>dispatch.py\<close>, \<open>reconciliation.py\<close>, \<open>worker.py\<close>): the two tables, every operation that
  changes a delivery, the worker that processes one delivery, the immediate dispatcher
  and the reconciliation sweep. Each repository operation is one database transaction
  and a function of the database, of its arguments and of the clock it reads.
\<close>

section \<open>Tables\<close>

datatype event_delivery_status = DeliveryPENDING | DeliveryENQUEUED | DeliveryPROCESSING | DeliverySUCCEEDED | DeliveryDEAD_LETTERED

datatype dead_letter_reason =
  RETRY_EXHAUSTED | TERMINAL_HANDLER_ERROR | UNKNOWN_HANDLER | UNSUPPORTED_EVENT | INVALID_DELIVERY

record outbox_message =
  om_id :: uuid
  om_created_at :: datetime
  om_event_id :: uuid
  om_event_name :: string
  om_schema_version :: int
  om_occurred_at :: datetime
  om_event_scope :: event_scope
  om_organization_id :: "uuid option"
  om_actor :: actor_identity
  om_subject :: subject_identity
  om_correlation_id :: uuid
  om_causation_id :: "uuid option"
  om_payload :: json

record event_delivery =
  dl_id :: uuid
  dl_created_at :: datetime
  dl_outbox_message_id :: uuid
  dl_event_id :: uuid
  dl_event_scope :: event_scope
  dl_organization_id :: "uuid option"
  dl_handler_name :: string
  dl_status :: event_delivery_status
  dl_attempt_count :: nat
  dl_last_error :: "string option"
  dl_dead_letter_reason :: "dead_letter_reason option"
  dl_enqueued_at :: "datetime option"
  dl_claimed_at :: "datetime option"
  dl_completed_at :: "datetime option"

record event_db =
  outbox_messages :: "outbox_message list"
  event_deliveries :: "event_delivery list"

definition EVENT_DELIVERY_PROCESSING_STALE_SECONDS :: int where
  "EVENT_DELIVERY_PROCESSING_STALE_SECONDS = 900"

definition RECONCILIATION_PENDING_GRACE_SECONDS :: int where
  "RECONCILIATION_PENDING_GRACE_SECONDS = 60"

definition RECONCILIATION_ENQUEUED_STALE_SECONDS :: int where
  "RECONCILIATION_ENQUEUED_STALE_SECONDS = 300"

definition RECONCILIATION_BATCH_SIZE :: nat where
  "RECONCILIATION_BATCH_SIZE = 100"

definition MAX_DELIVERY_ERROR_CHARS :: nat where
  "MAX_DELIVERY_ERROR_CHARS = 2048"

definition bound_delivery_error :: "string option \<Rightarrow> string option" where
  "bound_delivery_error error =
    (case error of
       None \<Rightarrow> None
     | Some message \<Rightarrow>
         if \<exists>part \<in> set SENSITIVE_TOKEN_PARTS. contains part (normalized message) then
           Some ''Event delivery error contained sensitive details and was redacted''
         else if length message \<le> MAX_DELIVERY_ERROR_CHARS then Some message
         else Some (take (MAX_DELIVERY_ERROR_CHARS - 13) message @ ''...[truncated]''))"

section \<open>Storing an event\<close>

definition build_message :: "uuid \<Rightarrow> datetime \<Rightarrow> domain_event \<Rightarrow> outbox_message" where
  "build_message new_id now ev =
    \<lparr>om_id = new_id, om_created_at = now, om_event_id = ev_event_id ev, om_event_name = ev_event_name ev,
     om_schema_version = ev_schema_version ev, om_occurred_at = ev_occurred_at ev,
     om_event_scope = ev_event_scope ev, om_organization_id = ev_organization_id ev, om_actor = ev_actor ev,
     om_subject = ev_subject ev, om_correlation_id = ev_correlation_id ev,
     om_causation_id = ev_causation_id ev, om_payload = ev_payload ev\<rparr>"

definition new_delivery :: "uuid \<Rightarrow> datetime \<Rightarrow> outbox_message \<Rightarrow> string \<Rightarrow> event_delivery" where
  "new_delivery new_id now message name =
    \<lparr>dl_id = new_id, dl_created_at = now, dl_outbox_message_id = om_id message, dl_event_id = om_event_id message,
     dl_event_scope = om_event_scope message, dl_organization_id = om_organization_id message,
     dl_handler_name = name, dl_status = DeliveryPENDING, dl_attempt_count = 0, dl_last_error = None,
     dl_dead_letter_reason = None, dl_enqueued_at = None, dl_claimed_at = None, dl_completed_at = None\<rparr>"

text \<open>The primary keys are \<open>uuid4()\<close> draws: \<open>new_ids 0\<close> for the message, \<open>new_ids (i + 1)\<close> for the i-th delivery.\<close>

definition build_deliveries :: "(nat \<Rightarrow> uuid) \<Rightarrow> datetime \<Rightarrow> outbox_message \<Rightarrow> string list \<Rightarrow> event_delivery list" where
  "build_deliveries new_ids now message names =
    map (\<lambda>(i, name). new_delivery (new_ids (Suc i)) now message name) (enumerate 0 names)"

text \<open>The unique and check constraints the two tables declare, as the database enforces them on an insert.\<close>

definition scope_matches_organization :: "event_scope \<Rightarrow> uuid option \<Rightarrow> bool" where
  "scope_matches_organization scope org \<longleftrightarrow>
    (scope = ScopeOrganization \<and> org \<noteq> None) \<or> (scope = ScopePlatform \<and> org = None)"

definition insert_message :: "outbox_message \<Rightarrow> event_db \<Rightarrow> event_db result" where
  "insert_message m db =
    bind_result (raise_if (row_get om_id (om_id m) (outbox_messages db) \<noteq> None)
      (IntegrityError ''event_outbox_message_pkey'')) (\<lambda>_.
    bind_result (raise_if (\<exists>x \<in> set (outbox_messages db). om_event_id x = om_event_id m)
      (IntegrityError ''uq_event_outbox_message_event_id'')) (\<lambda>_.
    bind_result (raise_if (\<not> scope_matches_organization (om_event_scope m) (om_organization_id m))
      (IntegrityError ''ck_event_outbox_message_scope_organization'')) (\<lambda>_.
    Inr (db\<lparr>outbox_messages := row_add m (outbox_messages db)\<rparr>))))"

definition insert_delivery :: "event_delivery \<Rightarrow> event_db \<Rightarrow> event_db result" where
  "insert_delivery d db =
    bind_result (raise_if (row_get dl_id (dl_id d) (event_deliveries db) \<noteq> None)
      (IntegrityError ''event_delivery_pkey'')) (\<lambda>_.
    bind_result (raise_if (\<exists>x \<in> set (event_deliveries db). dl_event_id x = dl_event_id d \<and> dl_handler_name x = dl_handler_name d)
      (IntegrityError ''uq_event_delivery_event_handler'')) (\<lambda>_.
    bind_result (raise_if (\<not> scope_matches_organization (dl_event_scope d) (dl_organization_id d))
      (IntegrityError ''ck_event_delivery_scope_organization'')) (\<lambda>_.
    Inr (db\<lparr>event_deliveries := row_add d (event_deliveries db)\<rparr>))))"

fun insert_deliveries :: "event_delivery list \<Rightarrow> event_db \<Rightarrow> event_db result" where
  "insert_deliveries [] db = Inr db"
| "insert_deliveries (d # ds) db = bind_result (insert_delivery d db) (insert_deliveries ds)"

text \<open>
  \<open>stage\<close> works inside the caller's transaction and \<open>create\<close> is a transaction of its own;
  an exception rolls the transaction back, so the result is the error alone.
\<close>

definition outbox_stage ::
  "(nat \<Rightarrow> uuid) \<Rightarrow> datetime \<Rightarrow> domain_event \<Rightarrow> event_registry \<Rightarrow> event_db \<Rightarrow> (event_db \<times> outbox_message) result" where
  "outbox_stage new_ids now ev reg db =
    (let message = build_message (new_ids 0) now ev in
    bind_result (insert_message message db) (\<lambda>db1.
    bind_result (handler_names_for reg (ev_event_name ev) (ev_schema_version ev)) (\<lambda>names.
    bind_result (insert_deliveries (build_deliveries new_ids now message names) db1) (\<lambda>db2.
    Inr (db2, message)))))"

definition outbox_create ::
  "(nat \<Rightarrow> uuid) \<Rightarrow> datetime \<Rightarrow> domain_event \<Rightarrow> event_registry \<Rightarrow> event_db \<Rightarrow> (event_db \<times> outbox_message) result" where
  "outbox_create new_ids now ev reg db = outbox_stage new_ids now ev reg db"

section \<open>Queries\<close>

definition get_by_event_id :: "event_db \<Rightarrow> uuid \<Rightarrow> outbox_message option" where
  "get_by_event_id db event_id = row_get om_event_id event_id (outbox_messages db)"

definition delivery_ids_for_event :: "event_db \<Rightarrow> uuid \<Rightarrow> uuid list" where
  "delivery_ids_for_event db event_id =
    map dl_id (row_where (\<lambda>d. dl_event_id d = event_id) (event_deliveries db))"

definition list_deliveries_for_event :: "event_db \<Rightarrow> uuid \<Rightarrow> event_delivery list" where
  "list_deliveries_for_event db event_id = row_where (\<lambda>d. dl_event_id d = event_id) (event_deliveries db)"

definition get_delivery :: "event_db \<Rightarrow> uuid \<Rightarrow> event_delivery option" where
  "get_delivery db delivery_id = row_get dl_id delivery_id (event_deliveries db)"

section \<open>Transitions of a delivery\<close>

definition is_terminal :: "event_delivery_status \<Rightarrow> bool" where
  "is_terminal s \<longleftrightarrow> s = DeliverySUCCEEDED \<or> s = DeliveryDEAD_LETTERED"

text \<open>
  The shape the transitions share: select the row by its id and a condition, return \<open>None\<close>
  when there is none, otherwise assign the columns, commit and return the row.
\<close>

definition update_delivery ::
  "(event_delivery \<Rightarrow> bool) \<Rightarrow> (event_delivery \<Rightarrow> event_delivery) \<Rightarrow> uuid \<Rightarrow> event_db \<Rightarrow> event_db \<times> event_delivery option" where
  "update_delivery cond assign delivery_id db =
    (case get_delivery db delivery_id of
       None \<Rightarrow> (db, None)
     | Some d \<Rightarrow>
         if cond d then (db\<lparr>event_deliveries := row_put dl_id (assign d) (event_deliveries db)\<rparr>, Some (assign d))
         else (db, None))"

definition reclaimed :: "datetime \<Rightarrow> event_delivery \<Rightarrow> event_delivery" where
  "reclaimed enqueued_at d =
    d\<lparr>dl_status := DeliveryENQUEUED, dl_enqueued_at := Some enqueued_at, dl_dead_letter_reason := None,
      dl_completed_at := None\<rparr>"

definition mark_delivery_enqueued :: "datetime \<Rightarrow> uuid \<Rightarrow> event_db \<Rightarrow> event_db \<times> event_delivery option" where
  "mark_delivery_enqueued enqueued_at = update_delivery (\<lambda>d. \<not> is_terminal (dl_status d)) (reclaimed enqueued_at)"

definition clock_before :: "datetime option \<Rightarrow> datetime \<Rightarrow> bool" where
  "clock_before clock t = (case clock of None \<Rightarrow> False | Some c \<Rightarrow> c \<le> t)"

definition claim_eligible :: "datetime option \<Rightarrow> event_delivery \<Rightarrow> bool" where
  "claim_eligible processing_stale_before d \<longleftrightarrow>
    dl_status d = DeliveryENQUEUED \<or>
    (case processing_stale_before of
       None \<Rightarrow> False
     | Some t \<Rightarrow> dl_status d = DeliveryPROCESSING \<and> clock_before (dl_claimed_at d) t)"

definition claimed :: "datetime \<Rightarrow> event_delivery \<Rightarrow> event_delivery" where
  "claimed claimed_at d =
    d\<lparr>dl_status := DeliveryPROCESSING, dl_claimed_at := Some claimed_at, dl_attempt_count := dl_attempt_count d + 1,
      dl_dead_letter_reason := None, dl_completed_at := None\<rparr>"

definition claim_delivery ::
  "datetime \<Rightarrow> datetime option \<Rightarrow> uuid \<Rightarrow> event_db \<Rightarrow> event_db \<times> event_delivery option" where
  "claim_delivery claimed_at processing_stale_before =
    update_delivery (claim_eligible processing_stale_before) (claimed claimed_at)"

definition mark_delivery_retryable_failure ::
  "datetime \<Rightarrow> string \<Rightarrow> uuid \<Rightarrow> event_db \<Rightarrow> event_db \<times> event_delivery option" where
  "mark_delivery_retryable_failure enqueued_at error =
    update_delivery (\<lambda>d. True)
      (\<lambda>d. d\<lparr>dl_status := DeliveryENQUEUED, dl_enqueued_at := Some enqueued_at,
         dl_last_error := bound_delivery_error (Some error), dl_dead_letter_reason := None\<rparr>)"

definition mark_delivery_succeeded :: "datetime \<Rightarrow> uuid \<Rightarrow> event_db \<Rightarrow> event_db \<times> event_delivery option" where
  "mark_delivery_succeeded completed_at =
    update_delivery (\<lambda>d. True)
      (\<lambda>d. d\<lparr>dl_status := DeliverySUCCEEDED, dl_last_error := None, dl_dead_letter_reason := None,
         dl_completed_at := Some completed_at\<rparr>)"

definition mark_delivery_dead_lettered ::
  "datetime \<Rightarrow> dead_letter_reason \<Rightarrow> string \<Rightarrow> uuid \<Rightarrow> event_db \<Rightarrow> event_db \<times> event_delivery option" where
  "mark_delivery_dead_lettered completed_at reason error =
    update_delivery (\<lambda>d. True)
      (\<lambda>d. d\<lparr>dl_status := DeliveryDEAD_LETTERED, dl_dead_letter_reason := Some reason,
         dl_last_error := bound_delivery_error (Some error), dl_completed_at := Some completed_at\<rparr>)"

text \<open>
  \<open>claim_reconciliation_candidates\<close>; \<open>locked\<close> says which rows another transaction holds
  (they are skipped). Rows with equal \<open>created_at\<close> come in insertion order.
\<close>

definition reconciliation_candidate :: "datetime \<Rightarrow> datetime \<Rightarrow> datetime \<Rightarrow> event_delivery \<Rightarrow> bool" where
  "reconciliation_candidate pending_created_before enqueued_before processing_claimed_before d \<longleftrightarrow>
    (dl_status d = DeliveryPENDING \<and> dl_created_at d \<le> pending_created_before) \<or>
    (dl_status d = DeliveryENQUEUED \<and> clock_before (dl_enqueued_at d) enqueued_before) \<or>
    (dl_status d = DeliveryPROCESSING \<and> clock_before (dl_claimed_at d) processing_claimed_before)"

definition select_candidates ::
  "datetime \<Rightarrow> datetime \<Rightarrow> datetime \<Rightarrow> nat \<Rightarrow> (uuid \<Rightarrow> bool) \<Rightarrow> event_db \<Rightarrow> event_delivery list" where
  "select_candidates pending_before enqueued_before processing_before limit locked db =
    take limit (sort_key dl_created_at
      (row_where (\<lambda>d. reconciliation_candidate pending_before enqueued_before processing_before d \<and> \<not> locked (dl_id d))
        (event_deliveries db)))"

fun put_deliveries :: "event_delivery list \<Rightarrow> event_delivery list \<Rightarrow> event_delivery list" where
  "put_deliveries [] t = t"
| "put_deliveries (d # ds) t = put_deliveries ds (row_put dl_id d t)"

definition claim_reconciliation_candidates ::
  "datetime \<Rightarrow> datetime \<Rightarrow> datetime \<Rightarrow> datetime \<Rightarrow> nat \<Rightarrow> (uuid \<Rightarrow> bool) \<Rightarrow> event_db \<Rightarrow> event_db \<times> event_delivery list" where
  "claim_reconciliation_candidates claimed_at pending_before enqueued_before processing_before limit locked db =
    (let ds = map (reclaimed claimed_at)
           (select_candidates pending_before enqueued_before processing_before limit locked db)
     in (db\<lparr>event_deliveries := put_deliveries ds (event_deliveries db)\<rparr>, ds))"

section \<open>Statistics and reads\<close>

text \<open>The minimum of a column over some rows, and its age in microseconds.\<close>

fun sql_min :: "datetime option list \<Rightarrow> datetime option" where
  "sql_min [] = None"
| "sql_min (None # cs) = sql_min cs"
| "sql_min (Some c # cs) = (case sql_min cs of None \<Rightarrow> Some c | Some m \<Rightarrow> Some (min c m))"

record pending_delivery_stats_result =
  pending_count :: nat
  oldest_pending_age :: "int option"

definition pending_delivery_stats :: "datetime \<Rightarrow> event_db \<Rightarrow> pending_delivery_stats_result" where
  "pending_delivery_stats now db =
    (let ps = row_where (\<lambda>d. dl_status d = DeliveryPENDING) (event_deliveries db)
     in \<lparr>pending_count = length ps,
         oldest_pending_age = map_option (\<lambda>t. now - t) (sql_min (map (\<lambda>d. Some (dl_created_at d)) ps))\<rparr>)"

record active_state_stats_result =
  ass_count :: nat
  ass_oldest_age :: "int option"
  ass_stale_threshold_seconds :: int
  ass_stale_count :: nat
  ass_unknown_age_count :: nat

definition active_state_stats ::
  "event_delivery_status \<Rightarrow> (event_delivery \<Rightarrow> datetime option) \<Rightarrow> datetime \<Rightarrow> int \<Rightarrow> event_db \<Rightarrow> active_state_stats_result" where
  "active_state_stats status clock now stale_seconds db =
    (let threshold = now - seconds stale_seconds;
         ds = row_where (\<lambda>d. dl_status d = status) (event_deliveries db)
     in \<lparr>ass_count = length ds,
         ass_oldest_age = map_option (\<lambda>t. now - t) (sql_min (map clock ds)),
         ass_stale_threshold_seconds = stale_seconds,
         ass_stale_count = length (filter (\<lambda>d. clock_before (clock d) threshold) ds),
         ass_unknown_age_count = length (filter (\<lambda>d. clock d = None) ds)\<rparr>)"

record delivery_summary =
  sum_observed_at :: datetime
  sum_total_count :: nat
  sum_status_counts :: "nat \<times> nat \<times> nat \<times> nat \<times> nat"
  sum_pending :: active_state_stats_result
  sum_enqueued :: active_state_stats_result
  sum_processing :: active_state_stats_result

definition status_count :: "event_db \<Rightarrow> event_delivery_status \<Rightarrow> nat" where
  "status_count db status = length (row_where (\<lambda>d. dl_status d = status) (event_deliveries db))"

definition get_delivery_summary :: "datetime \<Rightarrow> event_db \<Rightarrow> delivery_summary" where
  "get_delivery_summary now db =
    (let counts = map (status_count db)
           [DeliveryPENDING, DeliveryENQUEUED, DeliveryPROCESSING, DeliverySUCCEEDED, DeliveryDEAD_LETTERED]
     in \<lparr>sum_observed_at = now,
         sum_total_count = sum_list counts,
         sum_status_counts = (counts ! 0, counts ! 1, counts ! 2, counts ! 3, counts ! 4),
         sum_pending = active_state_stats DeliveryPENDING (\<lambda>d. Some (dl_created_at d)) now
           RECONCILIATION_PENDING_GRACE_SECONDS db,
         sum_enqueued = active_state_stats DeliveryENQUEUED dl_enqueued_at now
           RECONCILIATION_ENQUEUED_STALE_SECONDS db,
         sum_processing = active_state_stats DeliveryPROCESSING dl_claimed_at now
           EVENT_DELIVERY_PROCESSING_STALE_SECONDS db\<rparr>)"

definition status_since :: "event_delivery \<Rightarrow> datetime option" where
  "status_since d =
    (case dl_status d of
       DeliveryPENDING \<Rightarrow> Some (dl_created_at d)
     | DeliveryENQUEUED \<Rightarrow> dl_enqueued_at d
     | DeliveryPROCESSING \<Rightarrow> dl_claimed_at d
     | DeliverySUCCEEDED \<Rightarrow> dl_completed_at d
     | DeliveryDEAD_LETTERED \<Rightarrow> dl_completed_at d)"

section \<open>The worker\<close>

definition message_event :: "outbox_message \<Rightarrow> domain_event" where
  "message_event m =
    \<lparr>ev_event_id = om_event_id m, ev_event_name = om_event_name m, ev_schema_version = om_schema_version m,
     ev_occurred_at = om_occurred_at m, ev_event_scope = om_event_scope m,
     ev_organization_id = om_organization_id m, ev_actor = om_actor m, ev_subject = om_subject m,
     ev_correlation_id = om_correlation_id m, ev_causation_id = om_causation_id m, ev_payload = om_payload m\<rparr>"

definition envelope_from_message :: "outbox_message \<Rightarrow> domain_event result" where
  "envelope_from_message m = domain_event_envelope (message_event m)"

text \<open>\<open>_validate_handler\<close>: the database afterwards, and whether processing goes on (or the exception that escapes).\<close>

definition validate_handler ::
  "handler_registry \<Rightarrow> datetime \<Rightarrow> event_delivery \<Rightarrow> outbox_message \<Rightarrow> event_db \<Rightarrow> event_db \<times> bool result" where
  "validate_handler handlers now d m db =
    (case require_support handlers (dl_handler_name d) (om_event_name m) (om_schema_version m) of
       Inr _ \<Rightarrow> (db, Inr True)
     | Inl (UnknownEventHandlerError e) \<Rightarrow>
         (fst (mark_delivery_dead_lettered now UNKNOWN_HANDLER e (dl_id d) db), Inr False)
     | Inl (UnsupportedHandlerEventError e) \<Rightarrow>
         (fst (mark_delivery_dead_lettered now UNSUPPORTED_EVENT e (dl_id d) db), Inr False)
     | Inl e \<Rightarrow> (db, Inl e))"

definition delivery_context :: "event_delivery \<Rightarrow> outbox_message \<Rightarrow> event_delivery_context" where
  "delivery_context d m =
    \<lparr>ctx_delivery_id = dl_id d, ctx_event_id = dl_event_id d, ctx_handler_name = dl_handler_name d,
     ctx_attempt_count = dl_attempt_count d, ctx_correlation_id = om_correlation_id m,
     ctx_organization_id = dl_organization_id d\<rparr>"

text \<open>The call of the handler on a claimed delivery and what is recorded of its outcome (line 69 on).\<close>

definition run_handler ::
  "handler_registry \<Rightarrow> datetime \<Rightarrow> event_delivery \<Rightarrow> outbox_message \<Rightarrow> event_db \<Rightarrow> event_db \<times> bool result" where
  "run_handler handlers now d m db =
    (case bind_result (envelope_from_message m) (\<lambda>ev.
          bind_result (handler_registry_get handlers (dl_handler_name d)) (\<lambda>h. Inr (ev, h))) of
       Inl e \<Rightarrow> (db, Inl e)
     | Inr (ev, h) \<Rightarrow>
         (case handler_handle h ev (delivery_context d m) of
            TerminalError e \<Rightarrow> (fst (mark_delivery_dead_lettered now TERMINAL_HANDLER_ERROR e (dl_id d) db), Inr False)
          | RetryableError e \<Rightarrow> (fst (mark_delivery_retryable_failure now e (dl_id d) db), Inl (HandlerError e))
          | UnexpectedError e \<Rightarrow> (fst (mark_delivery_retryable_failure now e (dl_id d) db), Inl (HandlerError e))
          | Handled \<Rightarrow> (fst (mark_delivery_succeeded now (dl_id d) db), Inr True)))"

text \<open>
  \<open>EventDeliveryProcessor.process\<close>: \<open>now\<close> is the clock when the delivery is claimed, \<open>later\<close>
  when its outcome is recorded.
\<close>

definition process ::
  "handler_registry \<Rightarrow> int \<Rightarrow> datetime \<Rightarrow> datetime \<Rightarrow> uuid \<Rightarrow> event_db \<Rightarrow> event_db \<times> bool result" where
  "process handlers stale_seconds now later delivery_id db =
    (case get_delivery db delivery_id of
       None \<Rightarrow> (db, Inr False)
     | Some d \<Rightarrow>
         if is_terminal (dl_status d) then (db, Inr False)
         else (case get_by_event_id db (dl_event_id d) of
             None \<Rightarrow>
               (fst (mark_delivery_dead_lettered now INVALID_DELIVERY
                 (''Event Delivery '' @ uuid_str (dl_id d) @ '' references missing Outbox Message '' @ uuid_str (dl_event_id d))
                 (dl_id d) db), Inr False)
           | Some m \<Rightarrow>
               (case validate_handler handlers now d m db of
                  (db1, Inl e) \<Rightarrow> (db1, Inl e)
                | (db1, Inr False) \<Rightarrow> (db1, Inr False)
                | (db1, Inr True) \<Rightarrow>
                    (case claim_delivery now (Some (now - seconds stale_seconds)) (dl_id d) db1 of
                       (db2, None) \<Rightarrow> (db2, Inr False)
                     | (db2, Some c) \<Rightarrow> run_handler handlers later c m db2))))"

definition process_event_delivery ::
  "handler_registry \<Rightarrow> datetime \<Rightarrow> datetime \<Rightarrow> uuid \<Rightarrow> event_db \<Rightarrow> event_db \<times> bool result" where
  "process_event_delivery handlers = process handlers EVENT_DELIVERY_PROCESSING_STALE_SECONDS"

definition handle_retry_exhausted :: "datetime \<Rightarrow> uuid option \<Rightarrow> nat option \<Rightarrow> event_db \<Rightarrow> event_db" where
  "handle_retry_exhausted now delivery_id retries db =
    (case delivery_id of
       None \<Rightarrow> db
     | Some i \<Rightarrow>
         fst (mark_delivery_dead_lettered now RETRY_EXHAUSTED
           (''Dramatiq retries exhausted for Event Delivery '' @ uuid_str i @
            (case retries of None \<Rightarrow> [] | Some n \<Rightarrow> '' after '' @ nat_str n @ '' retries'')) i db))"

section \<open>Publishing\<close>

text \<open>
  The broker is the list of delivery ids it has accepted; \<open>accepts i\<close> says whether
  \<open>transport.enqueue\<close> returns for \<open>i\<close> (otherwise it raises).
\<close>

fun enqueue_immediate ::
  "(uuid \<Rightarrow> bool) \<Rightarrow> datetime \<Rightarrow> uuid list \<Rightarrow> event_db \<times> uuid list \<Rightarrow> event_db \<times> uuid list" where
  "enqueue_immediate accepts now [] (db, queue) = (db, queue)"
| "enqueue_immediate accepts now (i # is) (db, queue) =
    enqueue_immediate accepts now is
      (if accepts i then (fst (mark_delivery_enqueued now i db), queue @ [i]) else (db, queue))"

record reconciliation_result =
  rec_scanned :: nat
  rec_published :: nat
  rec_failed :: nat

definition load_candidates :: "datetime \<Rightarrow> (uuid \<Rightarrow> bool) \<Rightarrow> event_db \<Rightarrow> event_db \<times> event_delivery list" where
  "load_candidates now locked db =
    claim_reconciliation_candidates now
      (now - seconds RECONCILIATION_PENDING_GRACE_SECONDS)
      (now - seconds RECONCILIATION_ENQUEUED_STALE_SECONDS)
      (now - seconds EVENT_DELIVERY_PROCESSING_STALE_SECONDS)
      RECONCILIATION_BATCH_SIZE locked db"

text \<open>
  \<open>_publish_all\<close> and \<open>_publish_candidate\<close>: \<open>submitted\<close> and \<open>in_time\<close> are the two comparisons
  of the elapsed time with the maximal run time, for each candidate.
\<close>

definition publish_candidate :: "(uuid \<Rightarrow> bool) \<Rightarrow> (uuid \<Rightarrow> bool) \<Rightarrow> uuid \<Rightarrow> bool" where
  "publish_candidate in_time accepts i \<longleftrightarrow> in_time i \<and> accepts i"

definition publish_all ::
  "(uuid \<Rightarrow> bool) \<Rightarrow> (uuid \<Rightarrow> bool) \<Rightarrow> (uuid \<Rightarrow> bool) \<Rightarrow> event_delivery list \<Rightarrow> uuid list \<Rightarrow> uuid list \<times> reconciliation_result" where
  "publish_all submitted in_time accepts candidates queue =
    (let futures = filter submitted (map dl_id candidates);
         ok = filter (publish_candidate in_time accepts) futures
     in (queue @ ok,
         \<lparr>rec_scanned = length candidates, rec_published = length ok, rec_failed = length futures - length ok\<rparr>))"

definition run_once ::
  "datetime \<Rightarrow> (uuid \<Rightarrow> bool) \<Rightarrow> (uuid \<Rightarrow> bool) \<Rightarrow> (uuid \<Rightarrow> bool) \<Rightarrow> (uuid \<Rightarrow> bool) \<Rightarrow> event_db \<times> uuid list
    \<Rightarrow> (event_db \<times> uuid list) \<times> reconciliation_result" where
  "run_once now locked submitted in_time accepts = (\<lambda>(db, queue).
    (let (db1, candidates) = load_candidates now locked db;
         (queue1, result) =
           (if candidates = [] then (queue, \<lparr>rec_scanned = 0, rec_published = 0, rec_failed = 0\<rparr>)
            else publish_all submitted in_time accepts candidates queue)
     in ((db1, queue1), result)))"

section \<open>The invariant of the two tables\<close>

interpretation message_table: keyed_table om_id "row_get om_id" "row_put om_id" row_add set "\<lambda>t. distinct (map om_id t)"
  by (rule row_table)

interpretation message_by_event: keyed_table om_event_id "row_get om_event_id" "row_put om_event_id" row_add set
  "\<lambda>t. distinct (map om_event_id t)"
  by (rule row_table)

interpretation delivery_table: keyed_table dl_id "row_get dl_id" "row_put dl_id" row_add set "\<lambda>t. distinct (map dl_id t)"
  by (rule row_table)

text \<open>The columns no transition assigns.\<close>

definition delivery_identity :: "event_delivery \<Rightarrow> uuid \<times> datetime \<times> uuid \<times> uuid \<times> event_scope \<times> uuid option \<times> string" where
  "delivery_identity d =
    (dl_id d, dl_created_at d, dl_outbox_message_id d, dl_event_id d, dl_event_scope d, dl_organization_id d,
     dl_handler_name d)"

text \<open>The text of an error as it may be stored: bounded, and free of sensitive names.\<close>

definition storable_error :: "string \<Rightarrow> bool" where
  "storable_error e \<longleftrightarrow>
    length e \<le> MAX_DELIVERY_ERROR_CHARS + 1 \<and> (\<forall>part \<in> set SENSITIVE_TOKEN_PARTS. \<not> contains part (normalized e))"

definition delivery_ok :: "event_delivery \<Rightarrow> bool" where
  "delivery_ok d \<longleftrightarrow>
    (dl_dead_letter_reason d \<noteq> None \<longleftrightarrow> dl_status d = DeliveryDEAD_LETTERED) \<and>
    (dl_status d = DeliveryENQUEUED \<longrightarrow> dl_enqueued_at d \<noteq> None) \<and>
    (dl_status d = DeliveryPROCESSING \<longrightarrow> dl_claimed_at d \<noteq> None \<and> 1 \<le> dl_attempt_count d) \<and>
    (is_terminal (dl_status d) \<longrightarrow> dl_completed_at d \<noteq> None) \<and>
    (case dl_last_error d of None \<Rightarrow> True | Some e \<Rightarrow> storable_error e)"

definition delivery_of_message :: "event_delivery \<Rightarrow> outbox_message \<Rightarrow> bool" where
  "delivery_of_message d m \<longleftrightarrow>
    om_id m = dl_outbox_message_id d \<and> om_event_id m = dl_event_id d \<and>
    om_event_scope m = dl_event_scope d \<and> om_organization_id m = dl_organization_id d"

definition message_ok :: "outbox_message \<Rightarrow> bool" where
  "message_ok m \<longleftrightarrow>
    om_event_name m \<noteq> [] \<and> length (om_event_name m) \<le> 255 \<and> 1 \<le> om_schema_version m \<and>
    scope_matches_organization (om_event_scope m) (om_organization_id m)"

definition events_inv :: "event_db \<Rightarrow> bool" where
  "events_inv db \<longleftrightarrow>
    distinct (map om_id (outbox_messages db)) \<and>
    distinct (map om_event_id (outbox_messages db)) \<and>
    distinct (map dl_id (event_deliveries db)) \<and>
    distinct (map (\<lambda>d. (dl_event_id d, dl_handler_name d)) (event_deliveries db)) \<and>
    (\<forall>m \<in> set (outbox_messages db). message_ok m) \<and>
    (\<forall>d \<in> set (event_deliveries db). delivery_ok d \<and> (\<exists>m \<in> set (outbox_messages db). delivery_of_message d m))"

lemma normalized_append: "normalized (a @ b) = normalized a @ normalized b"
  by (simp add: normalized_def replace_char_def lower_def)

lemma normalized_take: "normalized (take n s) = take n (normalized s)"
  by (simp add: normalized_def replace_char_def lower_def take_map)

lemma truncation_mark: "normalized ''...[truncated]'' = CHR ''.'' # ''..[truncated]''"
  by code_simp

lemma parts_have_no_dot: "part \<in> set SENSITIVE_TOKEN_PARTS \<Longrightarrow> CHR ''.'' \<notin> set part"
  by (auto simp: SENSITIVE_TOKEN_PARTS_def)

lemma parts_not_in_mark: "part \<in> set SENSITIVE_TOKEN_PARTS \<Longrightarrow> \<not> contains part ''..[truncated]''"
  by (auto simp: SENSITIVE_TOKEN_PARTS_def)

lemma redaction_storable: "storable_error ''Event delivery error contained sensitive details and was redacted''"
  by code_simp

text \<open>Cutting a text and adding the mark cannot create a sensitive name across the seam: the mark starts with a dot.\<close>

lemma truncated_clean:
  assumes "\<not> contains part (normalized message)" and "part \<in> set SENSITIVE_TOKEN_PARTS"
  shows "\<not> contains part (normalized (take n message @ ''...[truncated]''))"
  using assms contains_append_seam [OF _ parts_have_no_dot [OF assms(2)], of "normalized (take n message)"]
    parts_not_in_mark [OF assms(2)]
  unfolding normalized_append truncation_mark normalized_take by (metis contains_take)

lemma bound_delivery_error_storable:
  assumes "bound_delivery_error error = Some e"
  shows "storable_error e"
proof -
  obtain message where m: "error = Some message"
    using assms by (cases error) (auto simp: bound_delivery_error_def)
  show ?thesis
  proof (cases "\<exists>part \<in> set SENSITIVE_TOKEN_PARTS. contains part (normalized message)")
    case True
    then show ?thesis using assms redaction_storable by (simp add: m bound_delivery_error_def)
  next
    case False
    then show ?thesis
      using assms truncated_clean [of _ message "MAX_DELIVERY_ERROR_CHARS - 13"]
      by (auto simp: m bound_delivery_error_def storable_error_def MAX_DELIVERY_ERROR_CHARS_def split: if_splits)
  qed
qed

section \<open>Transitions keep the invariant\<close>

lemma events_inv_put:
  assumes "events_inv db" and "get_delivery db (dl_id d') = Some d"
    and "delivery_identity d' = delivery_identity d" and "delivery_ok d'"
  shows "events_inv (db\<lparr>event_deliveries := row_put dl_id d' (event_deliveries db)\<rparr>)"
proof -
  let ?ds = "event_deliveries db"
  have keyed: "distinct (map dl_id ?ds)" using assms(1) by (simp add: events_inv_def)
  have d: "d \<in> set ?ds" "dl_id d = dl_id d'"
    using delivery_table.get_in_rows assms(2) by (auto simp: get_delivery_def)
  have "x = d" if "x \<in> set ?ds" "dl_id x = dl_id d'" for x
    using that d keyed by (auto simp: distinct_map inj_on_def)
  then have "map (\<lambda>d. (dl_event_id d, dl_handler_name d)) (row_put dl_id d' ?ds)
      = map (\<lambda>d. (dl_event_id d, dl_handler_name d)) ?ds"
    using assms(3) by (auto simp: row_put_def delivery_identity_def)
  moreover have "delivery_ok x \<and> (\<exists>m \<in> set (outbox_messages db). delivery_of_message x m)"
    if "x \<in> set (row_put dl_id d' ?ds)" for x
  proof (rule delivery_table.all_put [OF _ _ that])
    show "delivery_ok y \<and> (\<exists>m \<in> set (outbox_messages db). delivery_of_message y m)" if "y \<in> set ?ds" for y
      using that assms(1) by (simp add: events_inv_def)
    obtain m where "m \<in> set (outbox_messages db)" "delivery_of_message d m"
      using d(1) assms(1) by (auto simp: events_inv_def)
    then show "delivery_ok d' \<and> (\<exists>m \<in> set (outbox_messages db). delivery_of_message d' m)"
      using assms(3,4) by (auto simp: delivery_of_message_def delivery_identity_def)
  qed
  ultimately show ?thesis
    using assms(1) unfolding events_inv_def by simp
qed

text \<open>
  What the outbox asks of a transition: it assigns no identity column and turns a
  well-formed delivery it applies to into a well-formed one.
\<close>

locale delivery_transition =
  fixes cond :: "event_delivery \<Rightarrow> bool"
    and assign :: "event_delivery \<Rightarrow> event_delivery"
  assumes assign_identity: "delivery_identity (assign d) = delivery_identity d"
    and assign_ok: "delivery_ok d \<Longrightarrow> cond d \<Longrightarrow> delivery_ok (assign d)"
begin

lemma assign_id: "dl_id (assign d) = dl_id d"
  using assign_identity by (simp add: delivery_identity_def)

lemma update_inv:
  assumes "events_inv db"
  shows "events_inv (fst (update_delivery cond assign i db))"
proof (cases "get_delivery db i")
  case None
  then show ?thesis using assms by (simp add: update_delivery_def)
next
  case (Some d)
  then have d: "d \<in> set (event_deliveries db)" "dl_id d = i"
    using delivery_table.get_in_rows by (auto simp: get_delivery_def)
  moreover have "delivery_ok d" using assms d(1) by (simp add: events_inv_def)
  ultimately show ?thesis
    using assms Some events_inv_put [OF assms, of "assign d" d] assign_ok
    by (auto simp: update_delivery_def assign_identity assign_id)
qed

lemma update_get:
  "get_delivery (fst (update_delivery cond assign i db)) j =
    (if j = i then map_option (\<lambda>d. if cond d then assign d else d) (get_delivery db i) else get_delivery db j)"
proof (cases "get_delivery db i")
  case None
  then show ?thesis by (simp add: update_delivery_def)
next
  case (Some d)
  then have "dl_id d = i" using delivery_table.get_key by (auto simp: get_delivery_def)
  then show ?thesis
    using Some by (auto simp: update_delivery_def get_delivery_def assign_id delivery_table.get_put_other
        delivery_table.get_put_same)
qed

lemma update_result:
  "snd (update_delivery cond assign i db) = Some d' \<longleftrightarrow>
    (\<exists>d. get_delivery db i = Some d \<and> cond d \<and> d' = assign d)"
  by (auto simp: update_delivery_def split: option.splits)

lemma update_messages: "outbox_messages (fst (update_delivery cond assign i db)) = outbox_messages db"
  by (simp add: update_delivery_def split: option.splits)

end

lemma storable_bound_error: "case bound_delivery_error e of None \<Rightarrow> True | Some e' \<Rightarrow> storable_error e'"
  using bound_delivery_error_storable by (auto split: option.splits)

lemmas delivery_defs = delivery_ok_def delivery_identity_def is_terminal_def

interpretation to_enqueued: delivery_transition "\<lambda>d. \<not> is_terminal (dl_status d)" "reclaimed t"
  by unfold_locales (auto simp: reclaimed_def delivery_defs)

interpretation to_claimed: delivery_transition "claim_eligible stale" "claimed t"
  by unfold_locales (auto simp: claimed_def delivery_defs)

interpretation to_retry: delivery_transition "\<lambda>d. True"
  "\<lambda>d. d\<lparr>dl_status := DeliveryENQUEUED, dl_enqueued_at := Some t,
     dl_last_error := bound_delivery_error (Some e), dl_dead_letter_reason := None\<rparr>"
  using storable_bound_error by unfold_locales (auto simp: delivery_defs)

interpretation to_succeeded: delivery_transition "\<lambda>d. True"
  "\<lambda>d. d\<lparr>dl_status := DeliverySUCCEEDED, dl_last_error := None, dl_dead_letter_reason := None,
     dl_completed_at := Some t\<rparr>"
  by unfold_locales (auto simp: delivery_defs)

interpretation to_dead_lettered: delivery_transition "\<lambda>d. True"
  "\<lambda>d. d\<lparr>dl_status := DeliveryDEAD_LETTERED, dl_dead_letter_reason := Some r,
     dl_last_error := bound_delivery_error (Some e), dl_completed_at := Some t\<rparr>"
  using storable_bound_error by unfold_locales (auto simp: delivery_defs)

lemmas update_op_defs = mark_delivery_enqueued_def claim_delivery_def mark_delivery_retryable_failure_def
  mark_delivery_succeeded_def mark_delivery_dead_lettered_def

lemma transitions_inv [intro]:
  assumes "events_inv db"
  shows "events_inv (fst (mark_delivery_enqueued t i db))"
    and "events_inv (fst (claim_delivery t stale i db))"
    and "events_inv (fst (mark_delivery_retryable_failure t e i db))"
    and "events_inv (fst (mark_delivery_succeeded t i db))"
    and "events_inv (fst (mark_delivery_dead_lettered t r e i db))"
  unfolding update_op_defs
  by (rule to_enqueued.update_inv to_claimed.update_inv to_retry.update_inv to_succeeded.update_inv
      to_dead_lettered.update_inv, rule assms)+

lemmas transition_gets =
  to_enqueued.update_get [folded mark_delivery_enqueued_def]
  to_claimed.update_get [folded claim_delivery_def]
  to_retry.update_get [folded mark_delivery_retryable_failure_def]
  to_succeeded.update_get [folded mark_delivery_succeeded_def]
  to_dead_lettered.update_get [folded mark_delivery_dead_lettered_def]

lemmas transition_messages =
  to_enqueued.update_messages [folded mark_delivery_enqueued_def]
  to_claimed.update_messages [folded claim_delivery_def]
  to_retry.update_messages [folded mark_delivery_retryable_failure_def]
  to_succeeded.update_messages [folded mark_delivery_succeeded_def]
  to_dead_lettered.update_messages [folded mark_delivery_dead_lettered_def]

section \<open>Reconciliation as single transitions\<close>

text \<open>Putting back the candidates one by one is a map over the table.\<close>

lemma put_deliveries_map:
  assumes "distinct (map dl_id t)" and "set ds \<subseteq> set t" and "distinct (map dl_id ds)"
    and f: "\<And>d. dl_id (f d) = dl_id d"
  shows "put_deliveries (map f ds) t = map (\<lambda>x. if x \<in> set ds then f x else x) t"
  using assms(1-3)
proof (induction ds arbitrary: t)
  case Nil
  then show ?case by simp
next
  case (Cons d ds)
  let ?t = "row_put dl_id (f d) t"
  have same: "dl_id x = dl_id d \<longleftrightarrow> x = d" if "x \<in> set t" for x
    using that Cons.prems(1,2) by (auto simp: distinct_map inj_on_def)
  have t: "?t = map (\<lambda>x. if x = d then f d else x) t"
    by (auto simp: row_put_def f same)
  have "set ds \<subseteq> set ?t" and fresh: "f d \<notin> set ds"
    using Cons.prems(2,3) f by (auto simp: t image_iff dest: imageI [of _ _ dl_id])
  then have "put_deliveries (map f ds) ?t = map (\<lambda>x. if x \<in> set ds then f x else x) ?t"
    using Cons.IH [of ?t] Cons.prems(1,3) by simp
  then show ?case
    using fresh Cons.prems(3) by (auto simp: t)
qed

lemma select_candidates_subset:
  "set (select_candidates p e c n locked db) \<subseteq>
    {d \<in> set (event_deliveries db). reconciliation_candidate p e c d \<and> \<not> locked (dl_id d)}"
  unfolding select_candidates_def using set_take_subset by fastforce

lemma distinct_select_candidates:
  assumes "distinct (map dl_id (event_deliveries db))"
  shows "distinct (map dl_id (select_candidates p e c n locked db))"
proof -
  let ?ds = "row_where (\<lambda>d. reconciliation_candidate p e c d \<and> \<not> locked (dl_id d)) (event_deliveries db)"
  have "distinct (map dl_id ?ds)" using assms by (rule distinct_map_filter)
  then have "distinct (map dl_id (sort_key dl_created_at ?ds))"
    by (auto simp: distinct_map distinct_sort)
  then show ?thesis
    unfolding select_candidates_def take_map [symmetric] by (rule distinct_take)
qed

lemma candidate_not_terminal: "reconciliation_candidate p e c d \<Longrightarrow> \<not> is_terminal (dl_status d)"
  by (auto simp: reconciliation_candidate_def is_terminal_def)

lemma reconciliation_deliveries:
  assumes "distinct (map dl_id (event_deliveries db))"
  shows "event_deliveries (fst (claim_reconciliation_candidates t p e c n locked db)) =
    map (\<lambda>x. if x \<in> set (select_candidates p e c n locked db) then reclaimed t x else x) (event_deliveries db)"
proof -
  have "put_deliveries (map (reclaimed t) (select_candidates p e c n locked db)) (event_deliveries db) =
    map (\<lambda>x. if x \<in> set (select_candidates p e c n locked db) then reclaimed t x else x) (event_deliveries db)"
    by (rule put_deliveries_map [OF assms])
      (use select_candidates_subset [of p e c n locked db] distinct_select_candidates [OF assms] in
        \<open>auto simp: reclaimed_def\<close>)
  then show ?thesis by (simp add: claim_reconciliation_candidates_def Let_def)
qed

lemma reconciliation_get:
  assumes "distinct (map dl_id (event_deliveries db))"
  shows "get_delivery (fst (claim_reconciliation_candidates t p e c n locked db)) i =
    map_option (\<lambda>x. if x \<in> set (select_candidates p e c n locked db) then reclaimed t x else x) (get_delivery db i)"
proof -
  have find_map: "find P (map f xs) = map_option f (find (\<lambda>x. P (f x)) xs)" for P f and xs :: "event_delivery list"
    by (induction xs) auto
  show ?thesis
    unfolding get_delivery_def reconciliation_deliveries [OF assms] row_get_def find_map
    by (rule arg_cong [where f = "map_option _"], rule arg_cong2 [where f = find]) (auto simp: reclaimed_def)
qed

lemma reconciliation_messages:
  "outbox_messages (fst (claim_reconciliation_candidates t p e c n locked db)) = outbox_messages db"
  by (simp add: claim_reconciliation_candidates_def Let_def)

lemma events_inv_map:
  assumes "events_inv db" and id: "\<And>x. delivery_identity (f x) = delivery_identity x"
    and ok: "\<And>x. x \<in> set (event_deliveries db) \<Longrightarrow> delivery_ok x \<Longrightarrow> delivery_ok (f x)"
    and db': "event_deliveries db' = map f (event_deliveries db)" "outbox_messages db' = outbox_messages db"
  shows "events_inv db'"
proof -
  have cols: "dl_id (f x) = dl_id x" "dl_event_id (f x) = dl_event_id x" "dl_handler_name (f x) = dl_handler_name x"
    "delivery_of_message (f x) m = delivery_of_message x m" for x m
    using id [of x] by (auto simp: delivery_identity_def delivery_of_message_def)
  show ?thesis
    using assms(1) ok unfolding events_inv_def db' by (auto simp: o_def cols)
qed

lemma reconciliation_inv:
  assumes "events_inv db"
  shows "events_inv (fst (claim_reconciliation_candidates t p e c n locked db))"
proof (rule events_inv_map [OF assms _ _ reconciliation_deliveries reconciliation_messages])
  show "distinct (map dl_id (event_deliveries db))" using assms by (simp add: events_inv_def)
  let ?f = "\<lambda>x. if x \<in> set (select_candidates p e c n locked db) then reclaimed t x else x"
  show "delivery_identity (?f x) = delivery_identity x" for x
    using to_enqueued.assign_identity by simp
  show "delivery_ok (?f x)" if "delivery_ok x" for x
    using that select_candidates_subset [of p e c n locked db] candidate_not_terminal
      to_enqueued.assign_ok [of x t] by auto
qed

section \<open>Storing an event keeps the invariant\<close>

lemma insert_message_Inr:
  "insert_message m db = Inr db' \<longleftrightarrow>
    row_get om_id (om_id m) (outbox_messages db) = None \<and>
    om_event_id m \<notin> om_event_id ` set (outbox_messages db) \<and>
    scope_matches_organization (om_event_scope m) (om_organization_id m) \<and>
    db' = db\<lparr>outbox_messages := row_add m (outbox_messages db)\<rparr>"
  unfolding insert_message_def bind_result_Inr raise_if_Inr image_iff by auto

lemma insert_delivery_Inr:
  "insert_delivery d db = Inr db' \<longleftrightarrow>
    row_get dl_id (dl_id d) (event_deliveries db) = None \<and>
    (\<forall>x \<in> set (event_deliveries db). \<not> (dl_event_id x = dl_event_id d \<and> dl_handler_name x = dl_handler_name d)) \<and>
    scope_matches_organization (dl_event_scope d) (dl_organization_id d) \<and>
    db' = db\<lparr>event_deliveries := row_add d (event_deliveries db)\<rparr>"
  unfolding insert_delivery_def bind_result_Inr raise_if_Inr by auto

lemma insert_message_inv:
  assumes "events_inv db" and "insert_message m db = Inr db'" and "message_ok m"
  shows "events_inv db'"
  using assms message_table.keyed_add [of "outbox_messages db" m]
  unfolding events_inv_def insert_message_Inr by (auto simp: row_add_def)

lemma insert_deliveries_spec:
  assumes "insert_deliveries ds db = Inr db'" and "events_inv db"
    and "\<And>d. d \<in> set ds \<Longrightarrow> delivery_ok d \<and> (\<exists>m \<in> set (outbox_messages db). delivery_of_message d m)"
  shows "events_inv db' \<and> event_deliveries db' = event_deliveries db @ ds \<and> outbox_messages db' = outbox_messages db"
  using assms
proof (induction ds arbitrary: db)
  case Nil
  then show ?case by simp
next
  case (Cons d ds)
  obtain db1 where db1: "insert_delivery d db = Inr db1" and rest: "insert_deliveries ds db1 = Inr db'"
    using Cons.prems(1) by (auto simp: bind_result_Inr)
  then have eq: "db1 = db\<lparr>event_deliveries := row_add d (event_deliveries db)\<rparr>"
    by (simp add: insert_delivery_Inr)
  have "distinct (map dl_id (event_deliveries db1))"
    using delivery_table.keyed_add [of "event_deliveries db" d] db1 Cons.prems(2)
    by (simp add: insert_delivery_Inr events_inv_def eq)
  then have "events_inv db1"
    using Cons.prems(2,3) db1 unfolding events_inv_def insert_delivery_Inr by (auto simp: row_add_def)
  then show ?case
    using Cons.IH [OF rest] Cons.prems(3) by (auto simp: eq row_add_def)
qed

lemma build_deliveries_ok:
  assumes "d \<in> set (build_deliveries new_ids now m names)"
  shows "delivery_ok d \<and> delivery_of_message d m"
  using assms by (auto simp: build_deliveries_def new_delivery_def delivery_defs delivery_of_message_def)

lemma outbox_stage_Inr:
  "outbox_stage new_ids now ev reg db = Inr (db', m) \<longleftrightarrow>
    m = build_message (new_ids 0) now ev \<and>
    (\<exists>db1 names. insert_message m db = Inr db1 \<and>
       handler_names_for reg (ev_event_name ev) (ev_schema_version ev) = Inr names \<and>
       insert_deliveries (build_deliveries new_ids now m names) db1 = Inr db')"
  unfolding outbox_stage_def Let_def bind_result_Inr by auto

text \<open>An event \<open>build_event\<close> made fits the message table.\<close>

lemma build_event_message_ok:
  assumes "build_event reg event_id rq = Inr ev"
  shows "message_ok (build_message i now ev)"
  using assms unfolding build_event_Inr
  by (cases "ev_event_scope ev") (auto simp: message_ok_def build_message_def safe_event_def scope_matches_organization_def)

lemma outbox_stage_spec:
  assumes "outbox_stage new_ids now ev reg db = Inr (db', m)" and "events_inv db" and "message_ok m"
  shows "events_inv db' \<and> outbox_messages db' = outbox_messages db @ [m] \<and>
    (\<exists>names. handler_names_for reg (ev_event_name ev) (ev_schema_version ev) = Inr names \<and>
       event_deliveries db' = event_deliveries db @ build_deliveries new_ids now m names)"
proof -
  obtain db1 names where m: "insert_message m db = Inr db1"
    and names: "handler_names_for reg (ev_event_name ev) (ev_schema_version ev) = Inr names"
    and ds: "insert_deliveries (build_deliveries new_ids now m names) db1 = Inr db'"
    using assms(1) by (auto simp: outbox_stage_Inr)
  have db1: "db1 = db\<lparr>outbox_messages := outbox_messages db @ [m]\<rparr>"
    using m by (simp add: insert_message_Inr row_add_def)
  have "delivery_ok d \<and> (\<exists>m \<in> set (outbox_messages db1). delivery_of_message d m)"
    if "d \<in> set (build_deliveries new_ids now m names)" for d
    using build_deliveries_ok [OF that] by (auto simp: db1)
  from insert_deliveries_spec [OF ds insert_message_inv [OF assms(2) m assms(3)] this]
  show ?thesis using names by (auto simp: db1)
qed

section \<open>The outbox as a transition system\<close>

text \<open>
  Every transaction on the two tables, by any number of concurrent requests, workers
  and sweeps, at any time and in any order: a request stores an event \<open>build_event\<close> made;
  a dispatcher, worker, retry callback or sweep runs one repository operation. In
  particular nothing here says that a worker that records an outcome still holds the
  delivery.
\<close>

inductive event_step :: "event_registry \<Rightarrow> event_db \<Rightarrow> event_db \<Rightarrow> bool" for reg where
  step_stage: "build_event reg event_id rq = Inr ev \<Longrightarrow> outbox_stage new_ids now ev reg db = Inr (db', m)
    \<Longrightarrow> event_step reg db db'"
| step_enqueued: "event_step reg db (fst (mark_delivery_enqueued t i db))"
| step_claim: "event_step reg db (fst (claim_delivery t stale i db))"
| step_retry: "event_step reg db (fst (mark_delivery_retryable_failure t e i db))"
| step_succeeded: "event_step reg db (fst (mark_delivery_succeeded t i db))"
| step_dead_lettered: "event_step reg db (fst (mark_delivery_dead_lettered t r e i db))"
| step_reconcile: "event_step reg db (fst (claim_reconciliation_candidates t p e c n locked db))"

abbreviation event_steps :: "event_registry \<Rightarrow> event_db \<Rightarrow> event_db \<Rightarrow> bool" where
  "event_steps reg \<equiv> (event_step reg)\<^sup>*\<^sup>*"

definition empty_event_db :: event_db where
  "empty_event_db = \<lparr>outbox_messages = [], event_deliveries = []\<rparr>"

lemma event_step_inv:
  assumes "event_step reg db db'" and "events_inv db"
  shows "events_inv db'"
  using assms
proof cases
  case (step_stage event_id rq ev new_ids now m)
  then have "message_ok m"
    using build_event_message_ok by (auto simp: outbox_stage_Inr)
  then show ?thesis using outbox_stage_spec step_stage(2) assms(2) by blast
qed (auto intro: reconciliation_inv)

lemma event_steps_inv: "event_steps reg db db' \<Longrightarrow> events_inv db \<Longrightarrow> events_inv db'"
  by (induction rule: rtranclp_induct) (auto dest: event_step_inv)

lemma empty_events_inv: "events_inv empty_event_db"
  by (simp add: events_inv_def empty_event_db_def)

text \<open>The composite operations are sequences of these transactions.\<close>

lemma validate_handler_steps: "event_steps reg db (fst (validate_handler handlers now d m db))"
  unfolding validate_handler_def
  by (auto split: sum.splits error.splits intro: step_dead_lettered r_into_rtranclp)

lemma run_handler_steps: "event_steps reg db (fst (run_handler handlers now d m db))"
  unfolding run_handler_def
  by (auto split: sum.splits handle_outcome.splits
      intro: step_dead_lettered step_retry step_succeeded r_into_rtranclp)

lemma process_steps: "event_steps reg db (fst (process handlers stale now later i db))"
proof (cases "get_delivery db i")
  case None
  then show ?thesis by (simp add: process_def)
next
  case (Some d)
  show ?thesis
  proof (cases "is_terminal (dl_status d) \<or> get_by_event_id db (dl_event_id d) = None")
    case True
    with Some show ?thesis
      by (auto simp: process_def split: option.splits intro: step_dead_lettered r_into_rtranclp)
  next
    case False
    then obtain m where m: "get_by_event_id db (dl_event_id d) = Some m" and nt: "\<not> is_terminal (dl_status d)"
      by auto
    obtain db1 v where v: "validate_handler handlers now d m db = (db1, v)" by fastforce
    obtain db2 c where c: "claim_delivery now (Some (now - seconds stale)) (dl_id d) db1 = (db2, c)" by fastforce
    have "event_steps reg db db1"
      using validate_handler_steps [of reg db handlers now d m] by (simp add: v)
    moreover have "event_steps reg db1 db2"
      using step_claim [of reg db1 now "Some (now - seconds stale)" "dl_id d"] by (auto simp: c)
    moreover have "event_steps reg db2 (fst (run_handler handlers later x m db2))" for x
      by (rule run_handler_steps)
    ultimately show ?thesis
      using Some nt m v c
      by (auto simp: process_def split: sum.splits bool.splits option.splits) (meson rtranclp_trans)+
  qed
qed

lemma enqueue_immediate_steps: "event_steps reg db (fst (enqueue_immediate accepts now is (db, queue)))"
proof (induction "is" arbitrary: db queue)
  case Nil
  then show ?case by simp
next
  case (Cons i "is")
  show ?case
  proof (cases "accepts i")
    case True
    have "event_steps reg (fst (mark_delivery_enqueued now i db))
        (fst (enqueue_immediate accepts now is (fst (mark_delivery_enqueued now i db), queue @ [i])))"
      by (rule Cons)
    with True show ?thesis
      by (auto intro: converse_rtranclp_into_rtranclp step_enqueued)
  next
    case False
    then show ?thesis using Cons by simp
  qed
qed

lemma run_once_db: "fst (fst (run_once now locked submitted in_time accepts (db, queue))) = fst (load_candidates now locked db)"
  by (simp add: run_once_def split: prod.splits)

lemma run_once_steps: "event_steps reg db (fst (fst (run_once now locked submitted in_time accepts (db, queue))))"
  unfolding run_once_db load_candidates_def by (auto intro: step_reconcile r_into_rtranclp)

lemma handle_retry_exhausted_steps: "event_steps reg db (handle_retry_exhausted now i retries db)"
  by (cases i) (auto simp: handle_retry_exhausted_def intro: step_dead_lettered r_into_rtranclp)

section \<open>Properties\<close>

definition demo_handlers :: "handle_outcome \<Rightarrow> handler_registry" where
  "demo_handlers outcome =
    [\<lparr>handler_name = ''security_audit.projection'',
      handler_supported_events = [\<lparr>sup_event_name = ''agent.started'', sup_schema_version = 1\<rparr>],
      handler_handle = (\<lambda>ev ctx. outcome)\<rparr>]"

definition demo_message :: outbox_message where
  "demo_message = build_message 100 0 demo_event"

definition demo_delivery :: event_delivery where
  "demo_delivery = new_delivery 101 0 demo_message ''security_audit.projection''"

definition demo_event_db :: "event_delivery \<Rightarrow> event_db" where
  "demo_event_db d = \<lparr>outbox_messages = [demo_message], event_deliveries = [d]\<rparr>"

lemma demo_stage:
  "outbox_stage (\<lambda>i. 100 + i) 0 demo_event demo_event_registry empty_event_db = Inr (demo_event_db demo_delivery, demo_message)"
  by (simp add: outbox_stage_def insert_message_def insert_delivery_def handler_names_for_def event_registry_get_def
      row_get_def row_add_def empty_event_db_def demo_event_db_def demo_event_registry_def demo_definition_def
      definition_key_def demo_message_def build_message_def demo_event_def scope_matches_organization_def
      build_deliveries_def demo_delivery_def new_delivery_def raise_if_def Let_def)

lemma demo_reachable: "event_steps demo_event_registry empty_event_db (demo_event_db demo_delivery)"
  using step_stage [OF demo_build_event demo_stage] by blast

text \<open>
  C26. In every database that requests, dispatchers, workers, retry callbacks and sweeps can
  produce, in any interleaving: keys and the pairs (event, handler) are unique; a
  dead-letter reason is present exactly on dead-lettered deliveries; an enqueued, a
  processing and a finished delivery carries the time of that status; a stored error is
  bounded and free of sensitive names; and each delivery belongs to a stored message of the
  same event, scope and Organization.
\<close>

theorem outbox_invariant:
  assumes "event_steps reg empty_event_db db"
  shows "events_inv db"
  using event_steps_inv [OF assms empty_events_inv] .

theorem outbox_invariant_witness: "events_inv (demo_event_db demo_delivery)"
  using outbox_invariant [OF demo_reachable] .

text \<open>
  Storing an event is all or nothing and complete: when \<open>create\<close> succeeds, the event is
  found by its id, it has one PENDING delivery for each handler its definition names, in that
  order, with no attempt made, and every earlier row is as it was.
\<close>

theorem create_stores_one_delivery_per_handler:
  assumes "events_inv db" and "build_event reg event_id rq = Inr ev"
    and "outbox_create new_ids now ev reg db = Inr (db', m)"
  shows "get_by_event_id db' event_id = Some m \<and> envelope_from_message m = Inr ev \<and>
    handler_names_for reg (ev_event_name ev) (ev_schema_version ev) =
      Inr (map dl_handler_name (list_deliveries_for_event db' event_id)) \<and>
    (\<forall>d \<in> set (list_deliveries_for_event db' event_id). dl_status d = DeliveryPENDING \<and> dl_attempt_count d = 0) \<and>
    (\<forall>i d. get_delivery db i = Some d \<longrightarrow> get_delivery db' i = Some d)"
proof -
  have id: "ev_event_id ev = event_id" and env: "domain_event_envelope ev = Inr ev"
    using assms(2) unfolding build_event_Inr by (auto simp: domain_event_envelope_def)
  have m: "m = build_message (new_ids 0) now ev" and fresh: "om_event_id m \<notin> om_event_id ` set (outbox_messages db)"
    using assms(3) unfolding outbox_create_def outbox_stage_Inr insert_message_Inr by auto
  have "message_ok m" unfolding m by (rule build_event_message_ok [OF assms(2)])
  then obtain names where inv': "events_inv db'" and ms: "outbox_messages db' = outbox_messages db @ [m]"
    and names: "handler_names_for reg (ev_event_name ev) (ev_schema_version ev) = Inr names"
    and ds: "event_deliveries db' = event_deliveries db @ build_deliveries new_ids now m names"
    using outbox_stage_spec assms(1,3) unfolding outbox_create_def by blast
  have mid: "om_event_id m = event_id" by (simp add: m build_message_def id)
  have "dl_event_id d \<noteq> event_id" if "d \<in> set (event_deliveries db)" for d
    using that assms(1) fresh unfolding events_inv_def delivery_of_message_def mid by (metis imageI)
  moreover have "dl_event_id d = event_id" if "d \<in> set (build_deliveries new_ids now m names)" for d
    using that by (auto simp: build_deliveries_def new_delivery_def mid)
  ultimately have mine: "list_deliveries_for_event db' event_id = build_deliveries new_ids now m names"
    by (simp add: list_deliveries_for_event_def ds filter_id_conv)
  have "get_by_event_id db' event_id = Some m"
    unfolding get_by_event_id_def using inv' ms mid
    by (subst message_by_event.get_rows) (auto simp: events_inv_def)
  moreover have "get_delivery db' i = Some d" if "get_delivery db i = Some d" for i d
    using that inv' delivery_table.get_in_rows [of i "event_deliveries db"] unfolding get_delivery_def
    by (subst delivery_table.get_rows) (auto simp: events_inv_def ds)
  moreover have "map dl_handler_name (build_deliveries new_ids now m names) = names"
    by (simp add: build_deliveries_def new_delivery_def o_def split_beta)
  moreover have "envelope_from_message m = Inr ev"
    using env by (cases ev) (simp add: envelope_from_message_def message_event_def m build_message_def)
  moreover have "dl_status d = DeliveryPENDING \<and> dl_attempt_count d = 0"
    if "d \<in> set (build_deliveries new_ids now m names)" for d
    using that by (auto simp: build_deliveries_def new_delivery_def)
  ultimately show ?thesis
    unfolding mine using names by simp
qed

theorem create_stores_one_delivery_per_handler_witness:
  "get_by_event_id (demo_event_db demo_delivery) 5 = Some demo_message"
  using create_stores_one_delivery_per_handler [OF empty_events_inv demo_build_event demo_stage [folded outbox_create_def]]
  by simp

text \<open>
  The life of one delivery, without the database: what one run of the worker makes of a
  delivery \<open>d\<close> of message \<open>m\<close>, and what it returns or raises.
\<close>

definition dead_lettered :: "datetime \<Rightarrow> dead_letter_reason \<Rightarrow> string \<Rightarrow> event_delivery \<Rightarrow> event_delivery" where
  "dead_lettered t r e d =
    d\<lparr>dl_status := DeliveryDEAD_LETTERED, dl_dead_letter_reason := Some r,
      dl_last_error := bound_delivery_error (Some e), dl_completed_at := Some t\<rparr>"

definition retried :: "datetime \<Rightarrow> string \<Rightarrow> event_delivery \<Rightarrow> event_delivery" where
  "retried t e d =
    d\<lparr>dl_status := DeliveryENQUEUED, dl_enqueued_at := Some t,
      dl_last_error := bound_delivery_error (Some e), dl_dead_letter_reason := None\<rparr>"

definition succeeded :: "datetime \<Rightarrow> event_delivery \<Rightarrow> event_delivery" where
  "succeeded t d =
    d\<lparr>dl_status := DeliverySUCCEEDED, dl_last_error := None, dl_dead_letter_reason := None, dl_completed_at := Some t\<rparr>"

definition handled_delivery :: "datetime \<Rightarrow> handle_outcome \<Rightarrow> event_delivery \<Rightarrow> event_delivery \<times> bool result" where
  "handled_delivery later outcome c =
    (case outcome of
       Handled \<Rightarrow> (succeeded later c, Inr True)
     | TerminalError e \<Rightarrow> (dead_lettered later TERMINAL_HANDLER_ERROR e c, Inr False)
     | RetryableError e \<Rightarrow> (retried later e c, Inl (HandlerError e))
     | UnexpectedError e \<Rightarrow> (retried later e c, Inl (HandlerError e)))"

definition worker_run ::
  "handler_registry \<Rightarrow> int \<Rightarrow> datetime \<Rightarrow> datetime \<Rightarrow> outbox_message \<Rightarrow> event_delivery \<Rightarrow> event_delivery \<times> bool result" where
  "worker_run handlers stale now later m d =
    (if is_terminal (dl_status d) then (d, Inr False)
     else (case row_get handler_name (dl_handler_name d) handlers of
         None \<Rightarrow> (dead_lettered now UNKNOWN_HANDLER (''Unknown Event Handler '' @ dl_handler_name d) d, Inr False)
       | Some h \<Rightarrow>
           if \<lparr>sup_event_name = om_event_name m, sup_schema_version = om_schema_version m\<rparr> \<notin> set (handler_supported_events h) then
             (dead_lettered now UNSUPPORTED_EVENT (''Event Handler '' @ dl_handler_name d @ '' does not support '' @
               om_event_name m @ '' v'' @ int_str (om_schema_version m)) d, Inr False)
           else if claim_eligible (Some (now - seconds stale)) d then
             handled_delivery later (handler_handle h (message_event m) (delivery_context (claimed now d) m)) (claimed now d)
           else (d, Inr False)))"

lemma message_of_delivery:
  assumes "events_inv db" and "get_delivery db i = Some d"
  obtains m where "get_by_event_id db (dl_event_id d) = Some m" and "m \<in> set (outbox_messages db)"
    and "message_ok m" and "delivery_of_message d m" and "dl_id d = i" and "delivery_ok d"
proof -
  have d: "d \<in> set (event_deliveries db)" "dl_id d = i"
    using assms(2) delivery_table.get_in_rows by (auto simp: get_delivery_def)
  then obtain m where m: "m \<in> set (outbox_messages db)" "delivery_of_message d m" and "delivery_ok d"
    using assms(1) by (auto simp: events_inv_def)
  moreover have "message_ok m" using assms(1) m(1) by (simp add: events_inv_def)
  moreover have "get_by_event_id db (dl_event_id d) = Some m"
    unfolding get_by_event_id_def using assms(1) m
    by (subst message_by_event.get_rows) (auto simp: events_inv_def delivery_of_message_def)
  ultimately show thesis using that d(2) by blast
qed

lemma envelope_of_ok_message: "message_ok m \<Longrightarrow> envelope_from_message m = Inr (message_event m)"
  by (auto simp: envelope_from_message_def domain_event_envelope_def message_ok_def message_event_def)

lemma require_support_ok_message:
  "message_ok m \<Longrightarrow> require_support handlers name (om_event_name m) (om_schema_version m) =
    (case row_get handler_name name handlers of
       None \<Rightarrow> Inl (UnknownEventHandlerError (''Unknown Event Handler '' @ name))
     | Some h \<Rightarrow>
         if \<lparr>sup_event_name = om_event_name m, sup_schema_version = om_schema_version m\<rparr> \<in> set (handler_supported_events h)
         then Inr ()
         else Inl (UnsupportedHandlerEventError (''Event Handler '' @ name @ '' does not support '' @
           om_event_name m @ '' v'' @ int_str (om_schema_version m))))"
  by (simp add: require_support_def handler_supports_def handler_registry_get_def supported_event_post_init_def
      message_ok_def split: option.splits)

lemmas worker_folds = dead_lettered_def [symmetric] retried_def [symmetric] succeeded_def [symmetric]

lemma run_handler_get:
  assumes "get_delivery db i = Some c" and "dl_id c = i" and "message_ok m"
    and "row_get handler_name (dl_handler_name c) handlers = Some h"
  shows "snd (run_handler handlers later c m db) =
      snd (handled_delivery later (handler_handle h (message_event m) (delivery_context c m)) c) \<and>
    get_delivery (fst (run_handler handlers later c m db)) j =
      (if j = i then Some (fst (handled_delivery later (handler_handle h (message_event m) (delivery_context c m)) c))
       else get_delivery db j)"
  using assms
  by (simp add: run_handler_def envelope_of_ok_message handler_registry_get_def handled_delivery_def transition_gets
      worker_folds split: handle_outcome.splits)

lemma process_worker_run:
  assumes "events_inv db" and "get_delivery db i = Some d" and "get_by_event_id db (dl_event_id d) = Some m"
  shows "snd (process handlers stale now later i db) = snd (worker_run handlers stale now later m d) \<and>
    get_delivery (fst (process handlers stale now later i db)) j =
      (if j = i then Some (fst (worker_run handlers stale now later m d)) else get_delivery db j)"
proof -
  have m: "message_ok m" and i: "dl_id d = i"
    using message_of_delivery [OF assms(1,2)] assms(3) by (metis option.inject)+
  show ?thesis
  proof (cases "is_terminal (dl_status d)")
    case True
    then show ?thesis using assms(2) by (simp add: process_def worker_run_def)
  next
    case nt: False
    show ?thesis
    proof (cases "require_support handlers (dl_handler_name d) (om_event_name m) (om_schema_version m)")
      case (Inl e)
      with nt assms(2,3) i show ?thesis
        by (auto simp: process_def validate_handler_def worker_run_def require_support_ok_message [OF m] transition_gets
            worker_folds split: option.splits if_splits)
    next
      case (Inr u)
      then obtain h where h: "row_get handler_name (dl_handler_name d) handlers = Some h"
        and sup: "\<lparr>sup_event_name = om_event_name m, sup_schema_version = om_schema_version m\<rparr> \<in> set (handler_supported_events h)"
        by (auto simp: require_support_ok_message [OF m] split: option.splits if_splits)
      let ?claim = "claim_delivery now (Some (now - seconds stale)) i db"
      have validated: "process handlers stale now later i db =
          (case ?claim of (db2, None) \<Rightarrow> (db2, Inr False) | (db2, Some c) \<Rightarrow> run_handler handlers later c m db2)"
        using nt assms(2,3) Inr i by (simp add: process_def validate_handler_def)
      show ?thesis
      proof (cases "claim_eligible (Some (now - seconds stale)) d")
        case True
        then have "?claim = (fst ?claim, Some (claimed now d))"
          using assms(2) by (simp add: claim_delivery_def update_delivery_def)
        then have run: "process handlers stale now later i db = run_handler handlers later (claimed now d) m (fst ?claim)"
          unfolding validated by (metis (no_types, lifting) old.prod.case option.case(2))
        have get: "get_delivery (fst ?claim) k = (if k = i then Some (claimed now d) else get_delivery db k)" for k
          using True assms(2) by (simp add: transition_gets)
        have c: "dl_id (claimed now d) = i" "dl_handler_name (claimed now d) = dl_handler_name d"
          using i by (simp_all add: claimed_def)
        have "get_delivery (fst ?claim) i = Some (claimed now d)" by (simp add: get)
        from run_handler_get [OF this c(1) m, unfolded c(2), OF h] show ?thesis
          using nt h sup True by (simp add: run get worker_run_def)
      next
        case False
        then have "?claim = (db, None)"
          using assms(2) by (simp add: claim_delivery_def update_delivery_def)
        with False nt h sup assms(2) show ?thesis by (simp add: validated worker_run_def)
      qed
    qed
  qed
qed

text \<open>
  C4. On every reachable database the worker implements \<open>worker_run\<close>: a run on a delivery
  changes that delivery exactly as \<open>worker_run\<close> says, returns or raises the same, and leaves all
  other deliveries alone. In particular the message of a delivery is always found, so
  the dead-letter reason for a missing message is never used. After a retryable failure the
  delivery is ENQUEUED (\<open>retried\<close>), as \<open>mark_delivery_retryable_failure\<close>, its comment and its test have
  it; \<open>docs/features/domain-events.md\<close>, line 138, says instead that it stays PROCESSING.
\<close>

theorem process_refines_worker_run:
  assumes "event_steps reg empty_event_db db" and "get_delivery db i = Some d"
  shows "\<exists>m \<in> set (outbox_messages db). delivery_of_message d m \<and>
    snd (process handlers stale now later i db) = snd (worker_run handlers stale now later m d) \<and>
    (\<forall>j. get_delivery (fst (process handlers stale now later i db)) j =
       (if j = i then Some (fst (worker_run handlers stale now later m d)) else get_delivery db j))"
proof -
  have inv: "events_inv db" using event_steps_inv [OF assms(1) empty_events_inv] .
  obtain m where "get_by_event_id db (dl_event_id d) = Some m" "m \<in> set (outbox_messages db)" "delivery_of_message d m"
    using message_of_delivery [OF inv assms(2)] by metis
  then show ?thesis using process_worker_run [OF inv assms(2)] by blast
qed

definition demo_enqueued :: event_delivery where
  "demo_enqueued = reclaimed 7 demo_delivery"

lemma demo_db_inv: "delivery_ok d \<Longrightarrow> delivery_identity d = delivery_identity demo_delivery \<Longrightarrow> events_inv (demo_event_db d)"
  by (auto simp: events_inv_def demo_event_db_def demo_delivery_def delivery_identity_def new_delivery_def
      demo_message_def build_message_def demo_event_def message_ok_def scope_matches_organization_def
      delivery_of_message_def)

lemmas demo_row_defs = demo_event_db_def demo_enqueued_def reclaimed_def claimed_def demo_delivery_def new_delivery_def
  get_delivery_def get_by_event_id_def row_get_def demo_message_def build_message_def demo_event_def

lemma demo_enqueued_reachable: "event_steps demo_event_registry empty_event_db (demo_event_db demo_enqueued)"
proof -
  have "fst (mark_delivery_enqueued 7 101 (demo_event_db demo_delivery)) = demo_event_db demo_enqueued"
    by (simp add: mark_delivery_enqueued_def update_delivery_def demo_row_defs row_put_def is_terminal_def)
  then show ?thesis
    using demo_reachable step_enqueued by (metis rtranclp.rtrancl_into_rtrancl)
qed

theorem process_refines_worker_run_witness:
  "get_delivery (fst (process (demo_handlers Handled) 900 8 9 101 (demo_event_db demo_enqueued))) 101 =
    Some (succeeded 9 (claimed 8 demo_enqueued))"
proof -
  have "get_delivery (demo_event_db demo_enqueued) 101 = Some demo_enqueued" by (simp add: demo_row_defs)
  from process_refines_worker_run [OF demo_enqueued_reachable this, of "demo_handlers Handled" 900 8 9]
  show ?thesis
    by (auto simp: demo_row_defs worker_run_def is_terminal_def demo_handlers_def claim_eligible_def handled_delivery_def)
qed

text \<open>A worker reads the messages of the outbox and never writes them.\<close>

lemma validate_handler_messages: "outbox_messages (fst (validate_handler handlers now d m db)) = outbox_messages db"
  by (simp add: validate_handler_def transition_messages split: sum.split error.split)

lemma run_handler_messages: "outbox_messages (fst (run_handler handlers now d m db)) = outbox_messages db"
  by (simp add: run_handler_def transition_messages split: sum.split prod.split handle_outcome.split)

lemma process_messages: "outbox_messages (fst (process handlers stale now later i db)) = outbox_messages db"
proof -
  have v: "outbox_messages db1 = outbox_messages db" if "validate_handler handlers now d m db = (db1, out)" for d m db1 out
    using validate_handler_messages [of handlers now d m db] that by simp
  have c: "outbox_messages db2 = outbox_messages db1" if "claim_delivery t stale j db1 = (db2, out)" for t stale j db1 db2 out
    using transition_messages(2) [of t stale j db1] that by simp
  show ?thesis
    unfolding process_def
    by (auto simp: transition_messages run_handler_messages split: option.split prod.split sum.split bool.split dest!: v c)
qed

lemma enqueue_immediate_terminal:
  assumes "get_delivery db i = Some d" and "is_terminal (dl_status d)"
  shows "get_delivery (fst (enqueue_immediate accepts t js (db, queue))) i = Some d"
  using assms
proof (induction js arbitrary: db queue)
  case Nil
  then show ?case by simp
next
  case (Cons j js)
  have "get_delivery (fst (mark_delivery_enqueued t j db)) i = Some d"
    using Cons.prems by (auto simp: transition_gets)
  then show ?case using Cons by simp
qed

lemma claim_eligible_not_terminal: "claim_eligible stale d \<Longrightarrow> \<not> is_terminal (dl_status d)"
  by (auto simp: claim_eligible_def is_terminal_def split: option.splits)

text \<open>
  Work on deliveries that begins and ends after a given moment: a dispatch, a claim, a
  reconciliation sweep or a whole run of the worker, from its reading of the row to its record of the outcome.
\<close>

inductive new_work :: "event_db \<Rightarrow> event_db \<Rightarrow> bool" where
  new_dispatch: "new_work db (fst (enqueue_immediate accepts t js (db, queue)))"
| new_claim: "new_work db (fst (claim_delivery t stale j db))"
| new_sweep: "new_work db (fst (fst (run_once t locked submitted in_time accepts (db, queue))))"
| new_run: "new_work db (fst (process handlers secs t later j db))"

lemma new_work_inv: "new_work db db' \<Longrightarrow> events_inv db \<Longrightarrow> events_inv db'"
proof (induction rule: new_work.induct)
  case new_dispatch then show ?case by (rule event_steps_inv [OF enqueue_immediate_steps])
next
  case new_claim then show ?case by blast
next
  case new_sweep then show ?case by (rule event_steps_inv [OF run_once_steps])
next
  case new_run then show ?case by (rule event_steps_inv [OF process_steps])
qed

lemma new_work_keeps_finished:
  assumes "new_work db db'" "events_inv db" "get_delivery db i = Some d" "is_terminal (dl_status d)"
  shows "get_delivery db' i = Some d"
  using assms(1)
proof cases
  case new_dispatch
  then show ?thesis using enqueue_immediate_terminal [OF assms(3,4)] by simp
next
  case new_claim
  then show ?thesis using assms(3,4) claim_eligible_not_terminal by (auto simp: transition_gets)
next
  case (new_sweep t locked)
  have keyed: "distinct (map dl_id (event_deliveries db))" using assms(2) by (simp add: events_inv_def)
  show ?thesis
    using assms(3,4) candidate_not_terminal select_candidates_subset
    unfolding new_sweep run_once_db load_candidates_def reconciliation_get [OF keyed] by fastforce
next
  case (new_run handlers secs t later j)
  show ?thesis
  proof (cases "get_delivery db j")
    case None
    then show ?thesis using new_run assms(3) by (simp add: process_def)
  next
    case (Some d')
    obtain m where "get_by_event_id db (dl_event_id d') = Some m"
      using message_of_delivery [OF assms(2) Some] by metis
    from process_worker_run [OF assms(2) Some this] show ?thesis
      using new_run Some assms(3,4) by (auto simp: worker_run_def)
  qed
qed

text \<open>
  C11. New work leaves finished deliveries alone: once a delivery has succeeded or is
  dead-lettered, no sequence of dispatches, claims, sweeps and worker runs that begin after that changes it in
  any way. A worker run that began before, and records its outcome after, is not among
  them: it writes without looking at the row (C40).
\<close>

theorem finished_deliveries_are_kept:
  assumes "events_inv db" and "get_delivery db i = Some d" and "is_terminal (dl_status d)"
    and "new_work\<^sup>*\<^sup>* db db'"
  shows "get_delivery db' i = Some d"
proof -
  have "events_inv db' \<and> get_delivery db' i = Some d"
    using assms(4) by (induction rule: rtranclp_induct) (use assms new_work_inv new_work_keeps_finished in blast)+
  then show ?thesis ..
qed

definition demo_finished :: event_delivery where
  "demo_finished = succeeded 9 (claimed 8 (reclaimed 7 demo_delivery))"

lemma demo_finished_inv: "events_inv (demo_event_db demo_finished)"
  by (simp add: events_inv_def demo_event_db_def demo_finished_def succeeded_def claimed_def reclaimed_def
      demo_delivery_def new_delivery_def demo_message_def build_message_def demo_event_def message_ok_def
      scope_matches_organization_def delivery_ok_def is_terminal_def delivery_of_message_def)

theorem finished_deliveries_are_kept_witness:
  "get_delivery (fst (process (demo_handlers Handled) 900 20 21 101
    (fst (claim_delivery 19 (Some 10) 101 (demo_event_db demo_finished))))) 101 = Some demo_finished"
proof -
  have row: "get_delivery (demo_event_db demo_finished) 101 = Some demo_finished" "is_terminal (dl_status demo_finished)"
    by (simp_all add: demo_finished_def succeeded_def demo_row_defs is_terminal_def)
  show ?thesis
    by (rule finished_deliveries_are_kept [OF demo_finished_inv row])
      (rule rtranclp.rtrancl_into_rtrancl [OF r_into_rtranclp, of new_work, OF new_claim new_run])
qed

text \<open>
  A claim is a lease: while the row is as the claim left it, a worker whose handler
  registry supports the event and whose clock is less than \<open>stale\<close> seconds after the claim
  does nothing, so no two workers run the handler of one delivery within the lease.
\<close>

theorem claim_is_exclusive:
  assumes "snd (claim_delivery t before i db) = Some c"
    and "get_delivery db' i = Some c"
    and "get_by_event_id db' (dl_event_id c) = Some m"
    and "require_support handlers (dl_handler_name c) (om_event_name m) (om_schema_version m) = Inr ()"
    and "now < t + seconds stale"
  shows "process handlers stale now later i db' = (db', Inr False)"
proof -
  have "dl_status c = DeliveryPROCESSING" "dl_claimed_at c = Some t"
    using assms(1) unfolding claim_delivery_def to_claimed.update_result by (auto simp: claimed_def)
  then have "\<not> is_terminal (dl_status c)" "\<not> claim_eligible (Some (now - seconds stale)) c"
    using assms(5) by (auto simp: is_terminal_def claim_eligible_def clock_before_def)
  moreover have "dl_id c = i"
    using assms(2) delivery_table.get_key by (auto simp: get_delivery_def)
  ultimately show ?thesis
    using assms(2-4)
    by (simp add: process_def validate_handler_def claim_delivery_def update_delivery_def)
qed

theorem claim_is_exclusive_witness:
  "process (demo_handlers Handled) 900 (seconds 10) 99 101 (demo_event_db (claimed 8 demo_enqueued)) =
    (demo_event_db (claimed 8 demo_enqueued), Inr False)"
proof (rule claim_is_exclusive)
  show "snd (claim_delivery 8 None 101 (demo_event_db demo_enqueued)) = Some (claimed 8 demo_enqueued)"
    by (simp add: claim_delivery_def update_delivery_def claim_eligible_def demo_row_defs)
  show "get_by_event_id (demo_event_db (claimed 8 demo_enqueued)) (dl_event_id (claimed 8 demo_enqueued)) = Some demo_message"
    by (simp add: demo_row_defs)
  show "require_support (demo_handlers Handled) (dl_handler_name (claimed 8 demo_enqueued)) (om_event_name demo_message)
      (om_schema_version demo_message) = Inr ()"
    by (simp add: demo_row_defs require_support_def handler_supports_def handler_registry_get_def
        supported_event_post_init_def demo_handlers_def raise_if_def)
qed (simp_all add: demo_row_defs seconds_def)

lemma select_oldest:
  assumes "reconciliation_candidate p e c d" and "\<not> locked (dl_id d)" and "d \<in> set (event_deliveries db)"
    and "d \<notin> set (select_candidates p e c n locked db)"
  shows "length (select_candidates p e c n locked db) = n \<and>
    (\<forall>x \<in> set (select_candidates p e c n locked db). dl_created_at x \<le> dl_created_at d)"
  using assms unfolding select_candidates_def by (intro take_sorted_least) (auto simp: sorted_sort_key)

text \<open>
  The sweep takes the oldest: it takes only stale, unlocked deliveries, at most a batch of
  them, turns exactly these to ENQUEUED with the sweep's time and leaves all others; a
  stale unlocked delivery it leaves out was created no earlier than any it takes, and is
  left out only when the batch is full.
\<close>

theorem sweep_takes_the_oldest:
  assumes "events_inv db" and "get_delivery db i = Some d"
    and "select_candidates (now - seconds 60) (now - seconds 300) (now - seconds 900) 100 locked db = taken"
  shows "get_delivery (fst (load_candidates now locked db)) i = Some (if d \<in> set taken then reclaimed now d else d) \<and>
    (d \<in> set taken \<longrightarrow> reconciliation_candidate (now - seconds 60) (now - seconds 300) (now - seconds 900) d \<and> \<not> locked i) \<and>
    length taken \<le> 100 \<and>
    (reconciliation_candidate (now - seconds 60) (now - seconds 300) (now - seconds 900) d \<and> \<not> locked i \<and> d \<notin> set taken \<longrightarrow>
       length taken = 100 \<and> (\<forall>x \<in> set taken. dl_created_at x \<le> dl_created_at d))"
proof -
  have keyed: "distinct (map dl_id (event_deliveries db))" using assms(1) by (simp add: events_inv_def)
  have d: "d \<in> set (event_deliveries db)" "dl_id d = i"
    using assms(2) delivery_table.get_in_rows by (auto simp: get_delivery_def)
  have "length taken \<le> 100" using assms(3) by (auto simp: select_candidates_def)
  then show ?thesis
    using select_candidates_subset [of "now - seconds 60" "now - seconds 300" "now - seconds 900" 100 locked db]
      select_oldest [of "now - seconds 60" "now - seconds 300" "now - seconds 900" d locked db 100] d assms(2)
    unfolding load_candidates_def reconciliation_get [OF keyed] RECONCILIATION_PENDING_GRACE_SECONDS_def
      RECONCILIATION_ENQUEUED_STALE_SECONDS_def EVENT_DELIVERY_PROCESSING_STALE_SECONDS_def
      RECONCILIATION_BATCH_SIZE_def assms(3) by auto
qed

theorem sweep_takes_the_oldest_witness:
  "get_delivery (fst (load_candidates (seconds 60) (\<lambda>_. False) (demo_event_db demo_delivery))) 101 =
    Some (reclaimed (seconds 60) demo_delivery)"
proof -
  have "events_inv (demo_event_db demo_delivery)"
    by (rule demo_db_inv) (simp_all add: demo_row_defs delivery_defs)
  moreover have "select_candidates (seconds 60 - seconds 60) (seconds 60 - seconds 300) (seconds 60 - seconds 900) 100
      (\<lambda>_. False) (demo_event_db demo_delivery) = [demo_delivery]"
    by (simp add: select_candidates_def reconciliation_candidate_def demo_row_defs)
  ultimately show ?thesis
    using sweep_takes_the_oldest [of "demo_event_db demo_delivery" 101 demo_delivery "seconds 60" "\<lambda>_. False" "[demo_delivery]"]
    by (simp add: demo_row_defs)
qed

lemma select_candidates_all:
  assumes "length (filter (\<lambda>d. reconciliation_candidate p e c d \<and> \<not> locked (dl_id d)) (event_deliveries db)) \<le> n"
  shows "set (select_candidates p e c n locked db) =
    {d \<in> set (event_deliveries db). reconciliation_candidate p e c d \<and> \<not> locked (dl_id d)}"
  using assms by (simp add: select_candidates_def)

lemma stale_is_candidate:
  assumes "\<not> is_terminal (dl_status d)" and "status_since d = Some t" and "t + seconds 900 \<le> now"
  shows "reconciliation_candidate (now - seconds 60) (now - seconds 300) (now - seconds 900) d"
  using assms by (cases "dl_status d")
    (auto simp: reconciliation_candidate_def status_since_def is_terminal_def clock_before_def seconds_def)

lemma run_once_queue:
  assumes "d \<in> set (snd (load_candidates now locked db))"
    and "submitted (dl_id d)" and "in_time (dl_id d)" and "accepts (dl_id d)"
  shows "dl_id d \<in> set (snd (fst (run_once now locked submitted in_time accepts (db, queue))))"
  using assms
  by (cases "load_candidates now locked db")
    (auto simp: run_once_def publish_all_def publish_candidate_def Let_def image_iff)

lemma load_candidates_snd:
  "snd (load_candidates now locked db) =
    map (reclaimed now) (select_candidates (now - seconds 60) (now - seconds 300) (now - seconds 900) 100 locked db)"
  by (simp add: load_candidates_def claim_reconciliation_candidates_def Let_def RECONCILIATION_PENDING_GRACE_SECONDS_def
      RECONCILIATION_ENQUEUED_STALE_SECONDS_def EVENT_DELIVERY_PROCESSING_STALE_SECONDS_def RECONCILIATION_BATCH_SIZE_def)

lemma load_candidates_get:
  assumes "events_inv db" and "get_delivery db i = Some d"
    and "d \<in> set (select_candidates (now - seconds 60) (now - seconds 300) (now - seconds 900) 100 locked db)"
  shows "events_inv (fst (load_candidates now locked db)) \<and>
    outbox_messages (fst (load_candidates now locked db)) = outbox_messages db \<and>
    get_delivery (fst (load_candidates now locked db)) i = Some (reclaimed now d)"
proof -
  have keyed: "distinct (map dl_id (event_deliveries db))" using assms(1) by (simp add: events_inv_def)
  show ?thesis
    using assms unfolding load_candidates_def reconciliation_get [OF keyed] reconciliation_messages
    by (auto intro: reconciliation_inv simp: RECONCILIATION_PENDING_GRACE_SECONDS_def
      RECONCILIATION_ENQUEUED_STALE_SECONDS_def EVENT_DELIVERY_PROCESSING_STALE_SECONDS_def RECONCILIATION_BATCH_SIZE_def)
qed

text \<open>
  C31. No delivery is lost: whatever unfinished status a delivery has been in for fifteen minutes
  (never published, published and dropped, or claimed by a worker that died), one sweep
  with room in its batch, whose publication succeeds, puts it on the queue, and the next
  worker run with a handler that succeeds completes it.
\<close>

theorem stale_delivery_is_recovered:
  assumes "events_inv db" and "get_delivery db i = Some d" and "\<not> is_terminal (dl_status d)"
    and "status_since d = Some t" and "t + seconds 900 \<le> now" and "\<not> locked i"
    and "length (filter (\<lambda>d. reconciliation_candidate (now - seconds 60) (now - seconds 300) (now - seconds 900) d
        \<and> \<not> locked (dl_id d)) (event_deliveries db)) \<le> 100"
    and "submitted i" and "in_time i" and "accepts i"
    and "get_by_event_id db (dl_event_id d) = Some m"
    and "row_get handler_name (dl_handler_name d) handlers = Some h"
    and "\<lparr>sup_event_name = om_event_name m, sup_schema_version = om_schema_version m\<rparr> \<in> set (handler_supported_events h)"
    and "\<And>ctx. handler_handle h (message_event m) ctx = Handled"
    and "run_once now locked submitted in_time accepts (db, queue) = ((db', queue'), result)"
  shows "i \<in> set queue' \<and> snd (process_event_delivery handlers now2 later i db') = Inr True \<and>
    get_delivery (fst (process_event_delivery handlers now2 later i db')) i =
      Some (succeeded later (claimed now2 (reclaimed now d)))"
proof -
  have d: "d \<in> set (event_deliveries db)" "dl_id d = i"
    using assms(2) delivery_table.get_in_rows by (auto simp: get_delivery_def)
  let ?sel = "select_candidates (now - seconds 60) (now - seconds 300) (now - seconds 900) 100 locked db"
  have sel: "d \<in> set ?sel"
    using select_candidates_all [OF assms(7)] stale_is_candidate [OF assms(3-5)] d assms(6) by auto
  have db': "db' = fst (load_candidates now locked db)"
    using run_once_db [of now locked submitted in_time accepts db queue] assms(15) by simp
  note after = load_candidates_get [OF assms(1,2) sel, folded db']
  have "reclaimed now d \<in> set (snd (load_candidates now locked db))" "dl_id (reclaimed now d) = i"
    using sel d(2) by (auto simp: load_candidates_snd reclaimed_def)
  then have queued: "i \<in> set queue'"
    using run_once_queue [of "reclaimed now d" now locked db submitted in_time accepts queue] assms(8-10,15) by simp
  have r: "dl_status (reclaimed now d) = DeliveryENQUEUED" "dl_event_id (reclaimed now d) = dl_event_id d"
    "dl_handler_name (reclaimed now d) = dl_handler_name d"
    by (simp_all add: reclaimed_def)
  have "get_by_event_id db' (dl_event_id (reclaimed now d)) = Some m"
    using after assms(11) by (simp add: get_by_event_id_def r)
  from process_worker_run [OF _ _ this] after queued show ?thesis
    using assms(12-14)
    by (simp add: process_event_delivery_def worker_run_def handled_delivery_def r is_terminal_def claim_eligible_def)
qed

theorem stale_delivery_is_recovered_witness:
  "get_delivery (fst (process_event_delivery (demo_handlers Handled) (seconds 902) (seconds 903) 101
      (fst (fst (run_once (seconds 901) (\<lambda>_. False) (\<lambda>_. True) (\<lambda>_. True) (\<lambda>_. True) (demo_event_db demo_delivery, [])))))) 101 =
    Some (succeeded (seconds 903) (claimed (seconds 902) (reclaimed (seconds 901) demo_delivery)))"
proof -
  let ?run = "run_once (seconds 901) (\<lambda>_. False) (\<lambda>_. True) (\<lambda>_. True) (\<lambda>_. True) (demo_event_db demo_delivery, [])"
  let ?h = "hd (demo_handlers Handled)"
  have "events_inv (demo_event_db demo_delivery)"
    by (rule demo_db_inv) (simp_all add: demo_row_defs delivery_defs)
  from stale_delivery_is_recovered [OF this, of 101 demo_delivery 0 "seconds 901" "\<lambda>_. False" "\<lambda>_. True" "\<lambda>_. True"
      "\<lambda>_. True" demo_message "demo_handlers Handled" ?h "[]" "fst (fst ?run)" "snd (fst ?run)" "snd ?run"]
  show ?thesis
    by (simp add: demo_row_defs status_since_def is_terminal_def demo_handlers_def seconds_def)
qed

text \<open>
  The sweep's report is right: it counts the claimed candidates, every candidate counted
  as published is on the queue behind what was there, and published and failed together
  are the submitted ones, so they never exceed the scanned ones.
\<close>

theorem sweep_report_is_right:
  assumes "run_once now locked submitted in_time accepts (db, queue) = ((db', queue'), result)"
    and "load_candidates now locked db = (db1, candidates)"
  shows "db' = db1 \<and> rec_scanned result = length candidates \<and> prefix queue queue' \<and>
    length queue' = length queue + rec_published result \<and>
    set (drop (length queue) queue') \<subseteq> dl_id ` set candidates \<and>
    rec_published result + rec_failed result = length (filter (\<lambda>d. submitted (dl_id d)) candidates) \<and>
    rec_published result + rec_failed result \<le> rec_scanned result"
proof -
  have "length (filter (publish_candidate in_time accepts) (filter submitted (map dl_id candidates)))
      \<le> length (filter submitted (map dl_id candidates))"
    by (rule length_filter_le)
  moreover have "length (filter submitted (map dl_id candidates)) = length (filter (\<lambda>d. submitted (dl_id d)) candidates)"
    by (simp add: filter_map o_def)
  moreover have "length (filter (\<lambda>d. submitted (dl_id d)) candidates) \<le> length candidates"
    by (rule length_filter_le)
  ultimately show ?thesis
    using assms by (auto simp: run_once_def publish_all_def Let_def split: if_splits)
qed

theorem sweep_report_is_right_witness:
  "rec_scanned (snd (run_once (seconds 60) (\<lambda>_. False) (\<lambda>_. True) (\<lambda>_. True) (\<lambda>_. True) (demo_event_db demo_delivery, []))) = 1"
proof -
  let ?run = "run_once (seconds 60) (\<lambda>_. False) (\<lambda>_. True) (\<lambda>_. True) (\<lambda>_. True) (demo_event_db demo_delivery, [])"
  let ?load = "load_candidates (seconds 60) (\<lambda>_. False) (demo_event_db demo_delivery)"
  have run: "?run = ((fst (fst ?run), snd (fst ?run)), snd ?run)" by simp
  have "snd ?load = [reclaimed (seconds 60) demo_delivery]"
    by (simp add: load_candidates_snd select_candidates_def reconciliation_candidate_def demo_row_defs)
  then have load: "?load = (fst ?load, [reclaimed (seconds 60) demo_delivery])"
    by (metis prod.collapse)
  show ?thesis
    using sweep_report_is_right [OF run load] by (metis length_Cons list.size(3) One_nat_def)
qed

lemma contains_replicate: "contains p (replicate n c) \<Longrightarrow> set p \<subseteq> {c}"
  unfolding contains_iff_sublist using set_mono_sublist [of p "replicate n c"] by (auto split: if_splits)

lemma long_plain_error:
  "bound_delivery_error (Some (replicate 2049 (CHR ''x''))) = Some (replicate 2035 (CHR ''x'') @ ''...[truncated]'')"
proof -
  have n: "normalized (replicate n (CHR ''x'')) = replicate n (CHR ''x'')" for n
  proof -
    have "lower_char (CHR ''x'') = CHR ''x''" by code_simp
    then show ?thesis by (simp add: normalized_def replace_char_def lower_def)
  qed
  have "\<not> set part \<subseteq> {CHR ''x''}" if "part \<in> set SENSITIVE_TOKEN_PARTS" for part
    using that by (auto simp: SENSITIVE_TOKEN_PARTS_def)
  then have "\<not> contains part (normalized (replicate 2049 (CHR ''x'')))" if "part \<in> set SENSITIVE_TOKEN_PARTS" for part
    using that contains_replicate unfolding n by blast
  then have "\<not> (\<exists>part \<in> set SENSITIVE_TOKEN_PARTS. contains part (normalized (replicate 2049 (CHR ''x''))))"
    by blast
  then show ?thesis
    unfolding bound_delivery_error_def MAX_DELIVERY_ERROR_CHARS_def option.case
    by (simp only: if_False length_replicate take_replicate) simp
qed

text \<open>
  A stored error never shows a sensitive name and is bounded, by one character more than
  \<open>MAX_DELIVERY_ERROR_CHARS\<close>; a short error without sensitive names is stored as it is. The
  bound is attained: the mark that replaces the last 13 characters has 14.
\<close>

theorem delivery_error_bound:
  assumes "bound_delivery_error (Some message) = Some e"
  shows "length e \<le> MAX_DELIVERY_ERROR_CHARS + 1 \<and>
    (\<forall>part \<in> set SENSITIVE_TOKEN_PARTS. \<not> contains part (normalized e)) \<and>
    (\<not> is_sensitive_key message \<and> length message \<le> MAX_DELIVERY_ERROR_CHARS \<longrightarrow> e = message) \<and>
    (\<exists>long e'. bound_delivery_error (Some long) = Some e' \<and> length e' = MAX_DELIVERY_ERROR_CHARS + 1)"
proof -
  have "\<exists>long e'. bound_delivery_error (Some long) = Some e' \<and> length e' = MAX_DELIVERY_ERROR_CHARS + 1"
    using long_plain_error by (intro exI conjI, assumption) (simp add: MAX_DELIVERY_ERROR_CHARS_def)
  moreover have "e = message" if "\<not> is_sensitive_key message" "length message \<le> MAX_DELIVERY_ERROR_CHARS"
    using that assms by (auto simp: bound_delivery_error_def is_sensitive_key_def)
  ultimately show ?thesis
    using bound_delivery_error_storable [OF assms] unfolding storable_error_def by blast
qed

theorem delivery_error_bound_witness:
  "length (replicate 2035 (CHR ''x'') @ ''...[truncated]'') \<le> 2049"
  using delivery_error_bound [OF long_plain_error] by (simp add: MAX_DELIVERY_ERROR_CHARS_def)

lemma status_counts_total:
  "sum_list (map (\<lambda>s. length (filter (\<lambda>d. dl_status d = s) ds))
     [DeliveryPENDING, DeliveryENQUEUED, DeliveryPROCESSING, DeliverySUCCEEDED, DeliveryDEAD_LETTERED]) = length ds"
proof (induction ds)
  case Nil
  then show ?case by simp
next
  case (Cons d ds)
  then show ?case by (cases "dl_status d") simp_all
qed

lemma stale_counts_candidates:
  "length (filter (\<lambda>d. dl_created_at d \<le> p) (filter (\<lambda>d. dl_status d = DeliveryPENDING) ds)) +
   length (filter (\<lambda>d. clock_before (dl_enqueued_at d) e) (filter (\<lambda>d. dl_status d = DeliveryENQUEUED) ds)) +
   length (filter (\<lambda>d. clock_before (dl_claimed_at d) c) (filter (\<lambda>d. dl_status d = DeliveryPROCESSING) ds)) =
   length (filter (reconciliation_candidate p e c) ds)"
proof (induction ds)
  case Nil
  then show ?case by simp
next
  case (Cons d ds)
  then show ?case by (cases "dl_status d") (simp_all add: reconciliation_candidate_def)
qed

text \<open>
  The monitor tells the truth: on every reachable database the total is the number of
  deliveries, no active delivery has an unknown age, and the three stale counts add up to
  exactly the deliveries the next sweep would consider.
\<close>

theorem summary_is_right:
  assumes "event_steps reg empty_event_db db"
  shows "sum_total_count (get_delivery_summary now db) = length (event_deliveries db) \<and>
    ass_unknown_age_count (sum_pending (get_delivery_summary now db)) = 0 \<and>
    ass_unknown_age_count (sum_enqueued (get_delivery_summary now db)) = 0 \<and>
    ass_unknown_age_count (sum_processing (get_delivery_summary now db)) = 0 \<and>
    ass_stale_count (sum_pending (get_delivery_summary now db)) +
    ass_stale_count (sum_enqueued (get_delivery_summary now db)) +
    ass_stale_count (sum_processing (get_delivery_summary now db)) =
      length (filter (reconciliation_candidate (now - seconds 60) (now - seconds 300) (now - seconds 900)) (event_deliveries db))"
proof -
  have "events_inv db" using event_steps_inv [OF assms empty_events_inv] .
  then have ok: "delivery_ok d" if "d \<in> set (event_deliveries db)" for d
    using that by (simp add: events_inv_def)
  have "filter (\<lambda>d. dl_enqueued_at d = None) (filter (\<lambda>d. dl_status d = DeliveryENQUEUED) (event_deliveries db)) = []"
    "filter (\<lambda>d. dl_claimed_at d = None) (filter (\<lambda>d. dl_status d = DeliveryPROCESSING) (event_deliveries db)) = []"
    using ok by (auto simp: filter_empty_conv delivery_ok_def)
  then show ?thesis
    using status_counts_total [of "event_deliveries db"]
      stale_counts_candidates [of "now - seconds 60" "event_deliveries db" "now - seconds 300" "now - seconds 900"]
    by (simp add: get_delivery_summary_def active_state_stats_def status_count_def Let_def clock_before_def
        RECONCILIATION_PENDING_GRACE_SECONDS_def RECONCILIATION_ENQUEUED_STALE_SECONDS_def
        EVENT_DELIVERY_PROCESSING_STALE_SECONDS_def)
qed

theorem summary_is_right_witness:
  "sum_total_count (get_delivery_summary 5 (demo_event_db demo_delivery)) = 1"
  using summary_is_right [OF demo_reachable, of 5] by (simp add: demo_event_db_def)

text \<open>
  C40. A worker that was given up re-opens a finished delivery: worker A claims a queued
  delivery and takes longer than the lease of fifteen minutes; the transport delivers the message
  again and worker B completes it; then A's handler fails, and recording that failure, which looks
  neither at the status nor at the claim, makes the finished delivery ENQUEUED again, with its time
  of completion still set. The next message runs the handler once more for an
  event that has been handled.
\<close>

theorem late_failure_reopens_finished:
  assumes inv: "events_inv db" and d: "get_delivery db i = Some d" "dl_status d = DeliveryENQUEUED"
    and m: "get_by_event_id db (dl_event_id d) = Some m" and h: "row_get handler_name (dl_handler_name d) handlers = Some h"
    and sup: "\<lparr>sup_event_name = om_event_name m, sup_schema_version = om_schema_version m\<rparr> \<in> set (handler_supported_events h)"
    and claim: "claim_delivery t0 (Some (t0 - seconds 900)) i db = (db1, Some c)"
    and late: "t0 + seconds 900 \<le> t1" and again: "process_event_delivery handlers t1 t2 i db1 = (db2, out)"
    and first: "handler_handle h (message_event m) (delivery_context c m) = RetryableError e"
    and others: "\<And>c'. dl_attempt_count c < dl_attempt_count c' \<Longrightarrow>
      handler_handle h (message_event m) (delivery_context c' m) = Handled"
    and failed: "run_handler handlers t3 c m db2 = (db3, out')"
  shows "out = Inr True \<and> get_delivery db2 i = Some (succeeded t2 (claimed t1 c)) \<and>
    (\<exists>f. get_delivery db3 i = Some f \<and> dl_status f = DeliveryENQUEUED \<and> dl_completed_at f = Some t2 \<and>
      (\<forall>t4 t5. process_event_delivery handlers t4 t5 i db3 =
          (fst (process_event_delivery handlers t4 t5 i db3), Inr True) \<and>
        get_delivery (fst (process_event_delivery handlers t4 t5 i db3)) i = Some (succeeded t5 (claimed t4 f))))"
proof -
  have db1: "db1 = fst (claim_delivery t0 (Some (t0 - seconds 900)) i db)" using claim by simp
  have c: "c = claimed t0 d" using claim d by (simp add: claim_delivery_def update_delivery_def split: if_splits)
  have inv1: "events_inv db1" unfolding db1 using inv by blast
  have row1: "get_delivery db1 i = Some c" using d by (simp add: db1 c transition_gets claim_eligible_def)
  have same: "dl_event_id c = dl_event_id d" "dl_handler_name c = dl_handler_name d" "dl_id c = i"
    using message_of_delivery [OF inv d(1)] by (simp_all add: c claimed_def)
  have m1: "get_by_event_id db1 (dl_event_id c) = Some m"
    using m by (simp add: db1 same get_by_event_id_def transition_messages)
  have ok: "message_ok m" using message_of_delivery [OF inv d(1)] m by (metis option.inject)
  have "handler_handle h (message_event m) (delivery_context (claimed t1 c) m) = Handled"
    by (rule others) (simp add: claimed_def)
  then have run1: "worker_run handlers 900 t1 t2 m c = (succeeded t2 (claimed t1 c), Inr True)"
    using h sup late by (simp add: worker_run_def handled_delivery_def same claim_eligible_def clock_before_def is_terminal_def)
      (simp add: c claimed_def)
  have B: "out = Inr True" "get_delivery db2 i = Some (succeeded t2 (claimed t1 c))"
    using process_worker_run [OF inv1 row1 m1, of handlers 900 t1 t2 i] again
    by (simp_all add: process_event_delivery_def EVENT_DELIVERY_PROCESSING_STALE_SECONDS_def run1)
  have inv2: "events_inv db2"
    using event_steps_inv [OF process_steps inv1] again by (metis fst_conv process_event_delivery_def)
  let ?f = "retried t3 e (succeeded t2 (claimed t1 c))"
  have db3: "db3 = fst (mark_delivery_retryable_failure t3 e i db2)"
    using failed h first by (simp add: run_handler_def envelope_of_ok_message [OF ok] handler_registry_get_def same)
  have row3: "get_delivery db3 i = Some ?f" using B(2) by (simp add: db3 transition_gets retried_def)
  have inv3: "events_inv db3" unfolding db3 using inv2 by blast
  have f: "dl_event_id ?f = dl_event_id d" "dl_handler_name ?f = dl_handler_name d" "dl_status ?f = DeliveryENQUEUED"
    "dl_completed_at ?f = Some t2" "dl_attempt_count c < dl_attempt_count (claimed t4 ?f)" for t4
    using same by (simp_all add: retried_def succeeded_def claimed_def)
  have m3: "get_by_event_id db3 (dl_event_id ?f) = Some m"
  proof -
    have "outbox_messages db2 = outbox_messages db1"
      using process_messages [of handlers EVENT_DELIVERY_PROCESSING_STALE_SECONDS t1 t2 i db1] again
      by (simp add: process_event_delivery_def)
    then have "outbox_messages db3 = outbox_messages db" by (simp add: db3 db1 transition_messages)
    then show ?thesis using m by (simp add: get_by_event_id_def f)
  qed
  have "worker_run handlers 900 t4 t5 m ?f = (succeeded t5 (claimed t4 ?f), Inr True)" for t4 t5
    using h sup others [OF f(5)] by (simp add: worker_run_def f(2,3) is_terminal_def claim_eligible_def handled_delivery_def)
  then have "process_event_delivery handlers t4 t5 i db3 = (fst (process_event_delivery handlers t4 t5 i db3), Inr True) \<and>
      get_delivery (fst (process_event_delivery handlers t4 t5 i db3)) i = Some (succeeded t5 (claimed t4 ?f))" for t4 t5
    using process_worker_run [OF inv3 row3 m3, of handlers 900 t4 t5 i]
    by (simp add: process_event_delivery_def EVENT_DELIVERY_PROCESSING_STALE_SECONDS_def prod_eq_iff)
  then show ?thesis using B row3 f(3,4) by blast
qed

text \<open>A handler that times out on the first attempt and succeeds on later ones.\<close>

definition demo_slow_handlers :: handler_registry where
  "demo_slow_handlers =
    [\<lparr>handler_name = ''security_audit.projection'',
      handler_supported_events = [\<lparr>sup_event_name = ''agent.started'', sup_schema_version = 1\<rparr>],
      handler_handle = (\<lambda>ev ctx. if ctx_attempt_count ctx = 1 then RetryableError ''timeout'' else Handled)\<rparr>]"

theorem late_failure_reopens_finished_witness:
  "\<exists>db2 db3 out f. process_event_delivery demo_slow_handlers (seconds 1000) (seconds 1001) 101
      (fst (claim_delivery (seconds 8) (Some (seconds 8 - seconds 900)) 101 (demo_event_db demo_enqueued))) = (db2, Inr True) \<and>
    run_handler demo_slow_handlers (seconds 1002) (claimed (seconds 8) demo_enqueued) demo_message db2 = (db3, out) \<and>
    get_delivery db3 101 = Some f \<and> dl_status f = DeliveryENQUEUED \<and> dl_completed_at f = Some (seconds 1001)"
proof -
  let ?c = "claimed (seconds 8) demo_enqueued" and ?h = "hd demo_slow_handlers"
  let ?claim = "claim_delivery (seconds 8) (Some (seconds 8 - seconds 900)) 101 (demo_event_db demo_enqueued)"
  have row: "get_delivery (demo_event_db demo_enqueued) 101 = Some demo_enqueued" "dl_status demo_enqueued = DeliveryENQUEUED"
    and m: "get_by_event_id (demo_event_db demo_enqueued) (dl_event_id demo_enqueued) = Some demo_message"
    and h: "row_get handler_name (dl_handler_name demo_enqueued) demo_slow_handlers = Some ?h"
      "\<lparr>sup_event_name = om_event_name demo_message, sup_schema_version = om_schema_version demo_message\<rparr> \<in> set (handler_supported_events ?h)"
    by (simp_all add: demo_row_defs demo_slow_handlers_def)
  have inv: "events_inv (demo_event_db demo_enqueued)" using event_steps_inv [OF demo_enqueued_reachable empty_events_inv] .
  have claim: "?claim = (fst ?claim, Some ?c)"
    using row by (simp add: claim_delivery_def update_delivery_def claim_eligible_def)
  have count: "dl_attempt_count ?c = 1" by (simp add: demo_row_defs)
  have first: "handler_handle ?h (message_event demo_message) (delivery_context ?c demo_message) = RetryableError ''timeout''"
    by (simp add: demo_slow_handlers_def delivery_context_def count del: One_nat_def)
  have others: "handler_handle ?h (message_event demo_message) (delivery_context x demo_message) = Handled"
    if "dl_attempt_count ?c < dl_attempt_count x" for x
    using that by (simp add: demo_slow_handlers_def delivery_context_def count)
  obtain db2 out where B: "process_event_delivery demo_slow_handlers (seconds 1000) (seconds 1001) 101 (fst ?claim) = (db2, out)" by fastforce
  obtain db3 out' where A: "run_handler demo_slow_handlers (seconds 1002) ?c demo_message db2 = (db3, out')" by fastforce
  have late: "seconds 8 + seconds 900 \<le> seconds 1000" by (simp add: seconds_def)
  from late_failure_reopens_finished [OF inv row m h claim late B first others A] A B show ?thesis by blast
qed

end
