(* ===== verification/Agent_Sharing.thy ===== *)
theory Agent_Sharing
  imports Agent_Authorization Event_Outbox "HOL-Library.AList"
begin

text \<open>
  Sharing of Agents: the service behind the Share dialog
  (\<open>api/domains/agents/access_service.py\<close>) and the transaction that replaces the settings
  (\<open>replace_access_settings\<close> in \<open>agents/repository.py\<close>). A Python dict is a list of pairs, with
  \<open>AList.update\<close> for an assignment: a new key goes to the end, an old one keeps its place.
\<close>

record share_db =
  sh_access :: access_db
  sh_events :: event_db

section \<open>Payloads and reads\<close>

record access_assignment =
  asg_user_id :: uuid
  asg_access_role_id :: uuid

record access_settings_update =
  upd_general_access_role_id :: "uuid option"
  upd_assignments :: "access_assignment list"

record access_role_read =
  rr_id :: uuid
  rr_name :: string
  rr_permissions :: "permission_key list"
  rr_is_locked :: bool

record access_candidate_read =
  cand_user_id :: uuid
  cand_email :: string
  cand_full_name :: "string option"
  cand_organization_role :: organization_role
  cand_is_pending :: bool
  cand_is_creator :: bool

record access_member_read = access_candidate_read +
  member_access_role :: access_role_read

record access_settings_read =
  read_general_access :: "access_role_read option"
  read_assignments :: "access_member_read list"

section \<open>Queries\<close>

definition find_access_assignments :: "access_db \<Rightarrow> uuid \<Rightarrow> uuid \<Rightarrow> agent_access list" where
  "find_access_assignments db aid org =
    row_where (\<lambda>acc. acc_agent_id acc = aid \<and> acc_organization_id acc = org) (agent_accesses db)"

text \<open>Memberships joined with their users, in the order in which they were created.\<close>

definition get_members_with_users :: "access_db \<Rightarrow> uuid \<Rightarrow> (organization_user \<times> user) list" where
  "get_members_with_users db org =
    concat (map (\<lambda>m. case Option.bind (mem_user_id m) (\<lambda>u. row_get user_id u (users db)) of None \<Rightarrow> [] | Some u \<Rightarrow> [(m, u)])
      (row_where (\<lambda>m. mem_organization_id m = org) (memberships db)))"

definition get_member_with_user :: "access_db \<Rightarrow> uuid \<Rightarrow> uuid \<Rightarrow> (organization_user \<times> user) option" where
  "get_member_with_user db uid org = find (\<lambda>(m, u). mem_user_id m = Some uid) (get_members_with_users db org)"

section \<open>The transaction\<close>

text \<open>\<open>resolve_actor_identity\<close>.\<close>

definition resolve_actor_identity :: "current_user_context \<Rightarrow> uuid \<Rightarrow> actor_identity" where
  "resolve_actor_identity ctx org =
    (case user_organization_map ctx org of
       Some m \<Rightarrow> \<lparr>actor_type = ActorMembership, actor_id = uuid_str (mem_id m), actor_organization_id = Some org\<rparr>
     | None \<Rightarrow> \<lparr>actor_type = ActorUser, actor_id = uuid_str (user_id (ctx_user ctx)), actor_organization_id = None\<rparr>)"

text \<open>
  Who acts, as the audit events tell it (\<open>audit_actor\<close>, \<open>audit_actor_display\<close>, the e-mail address of
  the caller, which is never empty). The arguments of the transaction that are the same
  for all of its events are one record; \<open>sc_new_ids k\<close> are the ids drawn for the k-th event.
\<close>

record share_call =
  sc_registry :: event_registry
  sc_new_ids :: "nat \<Rightarrow> nat \<Rightarrow> uuid"
  sc_now :: datetime
  sc_organization_id :: uuid
  sc_actor :: actor_identity
  sc_actor_display :: string
  sc_correlation_id :: uuid

definition opt_uuid :: "uuid option \<Rightarrow> json" where
  "opt_uuid u = (case u of None \<Rightarrow> JNull | Some i \<Rightarrow> JStr (uuid_str i))"

definition access_event :: "share_call \<Rightarrow> string \<Rightarrow> agent \<Rightarrow> (string \<times> json) list \<Rightarrow> event_request" where
  "access_event c name a entries =
    \<lparr>rq_event_name = name, rq_schema_version = 1, rq_occurred_at = sc_now c,
     rq_organization_id = Some (sc_organization_id c), rq_actor = sc_actor c,
     rq_subject = \<lparr>subject_type = SubjectAgent, subject_id = uuid_str (agent_id a),
       subject_organization_id = Some (sc_organization_id c)\<rparr>,
     rq_correlation_id = sc_correlation_id c,
     rq_payload = JObj (map (\<lambda>(k, v). (KStr k, v))
       ([(''organization_id'', JStr (uuid_str (sc_organization_id c))), (''agent_id'', JStr (uuid_str (agent_id a)))] @ entries)),
     rq_causation_id = None, rq_event_scope = None\<rparr>"

definition general_access_event :: "share_call \<Rightarrow> agent \<Rightarrow> uuid option \<Rightarrow> event_request" where
  "general_access_event c a new =
    access_event c ''agent.general_access.changed'' a
      [(''previous_access_role_id'', opt_uuid (general_access_role_id a)), (''new_access_role_id'', opt_uuid new),
       (''actor_display'', JStr (sc_actor_display c)), (''subject_display'', JStr (agent_name a))]"

definition access_revoked_event :: "share_call \<Rightarrow> agent \<Rightarrow> string \<Rightarrow> agent_access \<Rightarrow> event_request" where
  "access_revoked_event c a display acc =
    access_event c ''agent.access.revoked'' a
      [(''membership_id'', JStr (uuid_str (acc_membership_id acc))),
       (''previous_access_role_id'', JStr (uuid_str (acc_access_role_id acc))),
       (''actor_display'', JStr (sc_actor_display c)), (''subject_display'', JStr (agent_name a)),
       (''member_display'', JStr display)]"

definition access_granted_event :: "share_call \<Rightarrow> agent \<Rightarrow> string \<Rightarrow> uuid \<Rightarrow> uuid \<Rightarrow> uuid option \<Rightarrow> event_request" where
  "access_granted_event c a display mid role previous =
    access_event c ''agent.access.granted'' a
      ([(''membership_id'', JStr (uuid_str mid)), (''access_role_id'', JStr (uuid_str role))] @
       (case previous of None \<Rightarrow> [] | Some p \<Rightarrow> [(''previous_access_role_id'', JStr (uuid_str p))]) @
       [(''actor_display'', JStr (sc_actor_display c)), (''subject_display'', JStr (agent_name a)),
        (''member_display'', JStr display)])"

text \<open>\<open>member_display_by_membership_id.get(membership_id, str(membership_id))\<close>.\<close>

definition member_display :: "access_db \<Rightarrow> uuid \<Rightarrow> string" where
  "member_display db mid =
    (case find_membership_with_user db mid of
       Some (m, Some u) \<Rightarrow> (case user_full_name u of Some n \<Rightarrow> if n \<noteq> [] then n else user_email u | None \<Rightarrow> user_email u)
     | _ \<Rightarrow> uuid_str mid)"

text \<open>Build an event and stage it; the state carries the ids of the events staged so far.\<close>

definition stage_event :: "share_call \<Rightarrow> event_request \<Rightarrow> share_db \<times> uuid list \<Rightarrow> (share_db \<times> uuid list) result" where
  "stage_event c rq = (\<lambda>(db, staged).
    bind_result (build_event (sc_registry c) (sc_new_ids c (length staged) 0) rq) (\<lambda>ev.
    bind_result (outbox_stage (\<lambda>i. sc_new_ids c (length staged) (Suc i)) (sc_now c) ev (sc_registry c) (sh_events db)) (\<lambda>(events, m).
    Inr (db\<lparr>sh_events := events\<rparr>, staged @ [ev_event_id ev]))))"

definition put_accesses :: "(agent_access list \<Rightarrow> agent_access list) \<Rightarrow> share_db \<Rightarrow> share_db" where
  "put_accesses f db = db\<lparr>sh_access := (sh_access db)\<lparr>agent_accesses := f (agent_accesses (sh_access db))\<rparr>\<rparr>"

definition same_access :: "agent_access \<Rightarrow> agent_access \<Rightarrow> bool" where
  "same_access x y \<longleftrightarrow> acc_membership_id x = acc_membership_id y \<and> acc_agent_id x = acc_agent_id y"

definition existing_by_membership :: "agent_access list \<Rightarrow> (uuid \<times> agent_access) list" where
  "existing_by_membership rows = fold (\<lambda>acc d. AList.update (acc_membership_id acc) acc d) rows []"

fun revoke_loop ::
  "share_call \<Rightarrow> agent \<Rightarrow> uuid set \<Rightarrow> (uuid \<times> agent_access) list \<Rightarrow> share_db \<times> uuid list \<Rightarrow> (share_db \<times> uuid list) result" where
  "revoke_loop c a desired [] s = Inr s"
| "revoke_loop c a desired ((mid, acc) # rest) s =
    (if mid \<in> desired then revoke_loop c a desired rest s
     else bind_result (stage_event c (access_revoked_event c a (member_display (sh_access (fst s)) mid) acc) s) (\<lambda>(db, staged).
       revoke_loop c a desired rest (put_accesses (filter (\<lambda>x. \<not> same_access x acc)) db, staged)))"

definition insert_access :: "agent_access \<Rightarrow> share_db \<Rightarrow> share_db result" where
  "insert_access acc db =
    bind_result (raise_if (\<exists>x \<in> set (agent_accesses (sh_access db)). same_access x acc)
      (IntegrityError ''uq_agent_access_membership_agent'')) (\<lambda>_.
    Inr (put_accesses (\<lambda>t. t @ [acc]) db))"

fun grant_loop ::
  "share_call \<Rightarrow> agent \<Rightarrow> (uuid \<times> agent_access) list \<Rightarrow> (uuid \<times> uuid) list \<Rightarrow> share_db \<times> uuid list \<Rightarrow> (share_db \<times> uuid list) result" where
  "grant_loop c a existing [] s = Inr s"
| "grant_loop c a existing ((mid, role) # rest) s =
    (let display = member_display (sh_access (fst s)) mid in
     case map_of existing mid of
       None \<Rightarrow>
         bind_result (insert_access \<lparr>acc_organization_id = sc_organization_id c, acc_membership_id = mid,
           acc_agent_id = agent_id a, acc_access_role_id = role\<rparr> (fst s)) (\<lambda>db.
         bind_result (stage_event c (access_granted_event c a display mid role None) (db, snd s)) (\<lambda>s1.
         grant_loop c a existing rest s1))
     | Some acc \<Rightarrow>
         if acc_access_role_id acc \<noteq> role then
           bind_result (stage_event c (access_granted_event c a display mid role (Some (acc_access_role_id acc)))
             (put_accesses (map (\<lambda>x. if same_access x acc then x\<lparr>acc_access_role_id := role\<rparr> else x)) (fst s), snd s)) (\<lambda>s1.
           grant_loop c a existing rest s1)
         else grant_loop c a existing rest s)"

definition roles_exist :: "access_db \<Rightarrow> uuid \<Rightarrow> uuid set \<Rightarrow> bool" where
  "roles_exist db org ids \<longleftrightarrow> (\<forall>i \<in> ids. \<exists>r \<in> set (access_role_rows db). role_id r = i \<and> role_available org r)"

definition memberships_exist :: "access_db \<Rightarrow> uuid \<Rightarrow> uuid set \<Rightarrow> bool" where
  "memberships_exist db org ids \<longleftrightarrow> (\<forall>i \<in> ids. \<exists>m \<in> set (memberships db). mem_id m = i \<and> mem_organization_id m = org)"

text \<open>\<open>replace_access_settings\<close> of the repository; \<open>None\<close> when the Agent, a role or a member is gone.\<close>

definition repository_replace ::
  "share_call \<Rightarrow> uuid \<Rightarrow> uuid option \<Rightarrow> (uuid \<times> uuid) list \<Rightarrow> share_db \<Rightarrow> (share_db \<times> uuid list) option result" where
  "repository_replace c aid general roles db =
    (let org = sc_organization_id c; acc = sh_access db;
         role_ids = set (map snd roles) \<union> set_option general in
     case find (\<lambda>a. agent_id a = aid \<and> agent_organization_id a = org \<and> agent_deleted_at a = None) (agents acc) of
       None \<Rightarrow> Inr None
     | Some a \<Rightarrow>
         if \<not> roles_exist acc org role_ids \<or> \<not> memberships_exist acc org (set (map fst roles)) then Inr None
         else
           let db1 = db\<lparr>sh_access := acc\<lparr>agents := row_put agent_id (a\<lparr>general_access_role_id := general\<rparr>) (agents acc)\<rparr>\<rparr>;
               existing = existing_by_membership (find_access_assignments acc aid org) in
           bind_result (if general_access_role_id a \<noteq> general then stage_event c (general_access_event c a general) (db1, [])
                        else Inr (db1, [])) (\<lambda>s1.
           bind_result (revoke_loop c a (set (map fst roles)) existing s1) (\<lambda>s2.
           bind_result (grant_loop c a existing roles s2) (\<lambda>(db2, staged).
           Inr (Some (db2, map dl_id (row_where (\<lambda>d. dl_event_id d \<in> set staged) (event_deliveries (sh_events db2)))))))))"

section \<open>The service\<close>

definition role_to_read :: "agent_access_role \<Rightarrow> permission_key set \<Rightarrow> access_role_read" where
  "role_to_read r ps =
    \<lparr>rr_id = role_id r, rr_name = role_name r, rr_permissions = sorted_list_of_set ps, rr_is_locked = role_is_system r\<rparr>"

definition to_assignment :: "agent \<Rightarrow> organization_user \<Rightarrow> user \<Rightarrow> access_role_read \<Rightarrow> access_member_read" where
  "to_assignment a m u r =
    \<lparr>cand_user_id = user_id u, cand_email = user_email u, cand_full_name = user_full_name u,
     cand_organization_role = mem_role m, cand_is_pending = (email_verified_at u = None),
     cand_is_creator = (agent_created_by a = Some (user_id u)), member_access_role = r\<rparr>"

definition list_roles :: "access_db \<Rightarrow> current_user_context \<Rightarrow> access_role_read list result" where
  "list_roles db ctx =
    bind_result (require_current_user_organization ctx) (\<lambda>m.
    Inr (map (\<lambda>(r, ps). role_to_read r ps) (list_agent_access_roles db (mem_organization_id m))))"

definition require_manage_access :: "access_db \<Rightarrow> current_user_context \<Rightarrow> uuid \<Rightarrow> agent result" where
  "require_manage_access db ctx aid =
    require_action db ctx aid AGENT_ACCESS_MANAGE ''You don't have permission to manage access to this Agent.''"

definition require_access_role :: "access_db \<Rightarrow> uuid \<Rightarrow> uuid \<Rightarrow> (agent_access_role \<times> access_role_read) result" where
  "require_access_role db i org =
    (case get_agent_access_role db i org of
       None \<Rightarrow> Inl (HTTPException 400 ''Agent Access Role is not available in this organization'')
     | Some r \<Rightarrow> Inr (r, role_to_read r (get_agent_access_role_permissions db (role_id r))))"

definition require_general_access_role :: "access_db \<Rightarrow> uuid option \<Rightarrow> uuid \<Rightarrow> access_role_read option result" where
  "require_general_access_role db i org =
    (case i of
       None \<Rightarrow> Inr None
     | Some i \<Rightarrow>
         bind_result (require_access_role db i org) (\<lambda>(r, rd).
         bind_result (raise_if (AGENT_READ \<notin> set (rr_permissions rd))
           (HTTPException 400 ''Agent General Access requires an Agent Access Role that grants agent.read'')) (\<lambda>_.
         Inr (Some rd))))"

definition require_accepted_member :: "access_db \<Rightarrow> uuid \<Rightarrow> uuid \<Rightarrow> (organization_user \<times> user) result" where
  "require_accepted_member db uid org =
    (case get_member_with_user db uid org of
       None \<Rightarrow> Inl (HTTPException 404 ''Member not found in this organization'')
     | Some (m, u) \<Rightarrow>
         bind_result (raise_if (mem_role m \<noteq> MEMBER)
           (HTTPException 400 ''Agent Access can only be granted to organization members'')) (\<lambda>_.
         bind_result (raise_if (email_verified_at u = None)
           (HTTPException 409 ''Pending members must accept their invite before receiving Agent Access'')) (\<lambda>_.
         Inr (m, u))))"

definition general_access_role_read :: "access_db \<Rightarrow> agent \<Rightarrow> access_role_read option" where
  "general_access_role_read db a =
    Option.bind (general_access_role_id a) (\<lambda>i.
    map_option (\<lambda>r. role_to_read r (get_agent_access_role_permissions db (role_id r)))
      (get_agent_access_role db i (agent_organization_id a)))"

text \<open>\<open>_assigned_members_for_agent\<close>: the explicit grants of Members; those of Owners and Admins are hidden.\<close>

definition assigned_members_for_agent :: "access_db \<Rightarrow> agent \<Rightarrow> access_member_read list" where
  "assigned_members_for_agent db a =
    (let assignments = existing_by_membership (find_access_assignments db (agent_id a) (agent_organization_id a));
         roles = map (\<lambda>(r, ps). (role_id r, role_to_read r ps)) (list_agent_access_roles db (agent_organization_id a)) in
     concat (map (\<lambda>(m, u).
       case map_of assignments (mem_id m) of
         None \<Rightarrow> []
       | Some acc \<Rightarrow>
           if mem_role m \<noteq> MEMBER then []
           else (case map_of roles (acc_access_role_id acc) of None \<Rightarrow> [] | Some r \<Rightarrow> [to_assignment a m u r]))
       (get_members_with_users db (agent_organization_id a))))"

definition get_access_settings :: "access_db \<Rightarrow> current_user_context \<Rightarrow> uuid \<Rightarrow> access_settings_read result" where
  "get_access_settings db ctx aid =
    bind_result (require_manage_access db ctx aid) (\<lambda>a.
    Inr \<lparr>read_general_access = general_access_role_read db a, read_assignments = assigned_members_for_agent db a\<rparr>)"

text \<open>The loop over the assignments: the roles by membership and what is answered.\<close>

fun collect_assignments ::
  "access_db \<Rightarrow> agent \<Rightarrow> access_assignment list \<Rightarrow> uuid set \<Rightarrow> (uuid \<times> uuid) list \<Rightarrow> access_member_read list
    \<Rightarrow> ((uuid \<times> uuid) list \<times> access_member_read list) result" where
  "collect_assignments db a [] seen roles reads = Inr (roles, reads)"
| "collect_assignments db a (x # rest) seen roles reads =
    bind_result (raise_if (asg_user_id x \<in> seen)
      (HTTPException 400 ''Each member can appear only once in Agent access settings'')) (\<lambda>_.
    bind_result (require_access_role db (asg_access_role_id x) (agent_organization_id a)) (\<lambda>(r, rd).
    bind_result (require_accepted_member db (asg_user_id x) (agent_organization_id a)) (\<lambda>(m, u).
    collect_assignments db a rest (insert (asg_user_id x) seen) (AList.update (mem_id m) (role_id r) roles)
      (reads @ [to_assignment a m u rd]))))"

fun preserve_hidden :: "(uuid \<times> organization_user) list \<Rightarrow> agent_access list \<Rightarrow> (uuid \<times> uuid) list \<Rightarrow> (uuid \<times> uuid) list" where
  "preserve_hidden members [] roles = roles"
| "preserve_hidden members (acc # rest) roles =
    (if acc_membership_id acc \<in> fst ` set roles then preserve_hidden members rest roles
     else (case map_of members (acc_membership_id acc) of
         Some m \<Rightarrow>
           if mem_role m \<noteq> MEMBER
           then preserve_hidden members rest (AList.update (acc_membership_id acc) (acc_access_role_id acc) roles)
           else preserve_hidden members rest roles
       | None \<Rightarrow> preserve_hidden members rest roles))"

definition preserve_hidden_assignments :: "access_db \<Rightarrow> agent \<Rightarrow> (uuid \<times> uuid) list \<Rightarrow> (uuid \<times> uuid) list" where
  "preserve_hidden_assignments db a roles =
    preserve_hidden (map (\<lambda>(m, u). (mem_id m, m)) (get_members_with_users db (agent_organization_id a)))
      (find_access_assignments db (agent_id a) (agent_organization_id a)) roles"

text \<open>What the service decides before the transaction: the Agent, the roles by membership and the answer.\<close>

definition plan_replace ::
  "access_db \<Rightarrow> current_user_context \<Rightarrow> uuid \<Rightarrow> access_settings_update \<Rightarrow> (agent \<times> (uuid \<times> uuid) list \<times> access_settings_read) result" where
  "plan_replace db ctx aid upd =
    bind_result (require_manage_access db ctx aid) (\<lambda>a.
    bind_result (require_general_access_role db (upd_general_access_role_id upd) (agent_organization_id a)) (\<lambda>general.
    bind_result (collect_assignments db a (upd_assignments upd) {} [] []) (\<lambda>(roles, reads).
    Inr (a, preserve_hidden_assignments db a roles, \<lparr>read_general_access = general, read_assignments = reads\<rparr>))))"

definition replace_access_settings ::
  "event_registry \<Rightarrow> (nat \<Rightarrow> nat \<Rightarrow> uuid) \<Rightarrow> uuid \<Rightarrow> (uuid \<Rightarrow> bool) \<Rightarrow> datetime \<Rightarrow> uuid \<Rightarrow> access_settings_update
    \<Rightarrow> current_user_context \<Rightarrow> share_db \<times> uuid list \<Rightarrow> (share_db \<times> uuid list) \<times> access_settings_read result" where
  "replace_access_settings reg new_ids correlation_id accepts now aid upd ctx = (\<lambda>(db, queue).
    (case plan_replace (sh_access db) ctx aid upd of
       Inl e \<Rightarrow> ((db, queue), Inl e)
     | Inr (a, roles, answer) \<Rightarrow>
         (case repository_replace
             \<lparr>sc_registry = reg, sc_new_ids = new_ids, sc_now = now, sc_organization_id = agent_organization_id a,
              sc_actor = resolve_actor_identity ctx (agent_organization_id a), sc_actor_display = user_email (ctx_user ctx),
              sc_correlation_id = correlation_id\<rparr> (agent_id a) (upd_general_access_role_id upd) roles db of
            Inl e \<Rightarrow> ((db, queue), Inl e)
          | Inr None \<Rightarrow> ((db, queue), Inl (HTTPException 404 ''Agent or member is no longer available''))
          | Inr (Some (db1, ids)) \<Rightarrow>
              (case enqueue_immediate accepts now ids (sh_events db1, queue) of
                 (events, queue1) \<Rightarrow> ((db1\<lparr>sh_events := events\<rparr>, queue1), Inr answer)))))"

section \<open>What the transaction does to the access rows\<close>

lemma stage_event_access:
  "stage_event c rq (db, staged) = Inr (db', staged') \<Longrightarrow> sh_access db' = sh_access db"
  by (auto simp: stage_event_def bind_result_Inr)

lemma put_accesses_access [simp]:
  "sh_access (put_accesses f db) = (sh_access db)\<lparr>agent_accesses := f (agent_accesses (sh_access db))\<rparr>"
  "sh_events (put_accesses f db) = sh_events db"
  by (simp_all add: put_accesses_def)

lemma revoke_loop_access:
  assumes "revoke_loop c a desired ex (db, staged) = Inr (db', staged')"
  shows "sh_access db' = (sh_access db)\<lparr>agent_accesses :=
    filter (\<lambda>x. \<forall>(mid, acc) \<in> set ex. mid \<notin> desired \<longrightarrow> \<not> same_access x acc) (agent_accesses (sh_access db))\<rparr>"
  using assms
proof (induction ex arbitrary: db staged)
  case (Cons e ex)
  obtain mid acc where e: "e = (mid, acc)" by (cases e)
  show ?case
  proof (cases "mid \<in> desired")
    case True
    then show ?thesis using Cons by (simp add: e)
  next
    case False
    then obtain db1 staged1 where s: "stage_event c (access_revoked_event c a (member_display (sh_access db) mid) acc) (db, staged) = Inr (db1, staged1)"
      and r: "revoke_loop c a desired ex (put_accesses (filter (\<lambda>x. \<not> same_access x acc)) db1, staged1) = Inr (db', staged')"
      using Cons.prems by (auto simp: e bind_result_Inr)
    show ?thesis using Cons.IH [OF r] stage_event_access [OF s] False by (simp add: e conj_commute)
  qed
qed simp

definition access_row :: "uuid \<Rightarrow> uuid \<Rightarrow> uuid \<Rightarrow> uuid \<Rightarrow> agent_access" where
  "access_row org aid mid role =
    \<lparr>acc_organization_id = org, acc_membership_id = mid, acc_agent_id = aid, acc_access_role_id = role\<rparr>"

lemma access_row_simps [simp]:
  "acc_organization_id (access_row org aid mid role) = org" "acc_agent_id (access_row org aid mid role) = aid"
  "acc_membership_id (access_row org aid mid role) = mid" "acc_access_role_id (access_row org aid mid role) = role"
  by (simp_all add: access_row_def)

lemma replace_rows:
  assumes "t' = {x \<in> t. \<not> (P x \<and> key x = k)} \<union> {r}" and "P r" "key r = k" and "k \<notin> K"
  shows "{x \<in> t'. \<not> (P x \<and> key x \<in> K)} \<union> R = {x \<in> t. \<not> (P x \<and> key x \<in> insert k K)} \<union> insert r R"
  using assms by auto

text \<open>One grant: the row of the Membership is the granted one, all others stay.\<close>

lemma grant_step:
  assumes "grant_loop c a existing ((mid, role) # roles) (db, staged) = Inr out"
    and "\<And>acc. map_of existing mid = Some acc \<Longrightarrow>
      acc_membership_id acc = mid \<and> acc_agent_id acc = agent_id a \<and> acc_organization_id acc = sc_organization_id c"
    and "\<And>acc. map_of existing mid = Some acc \<Longrightarrow>
      acc \<in> set (agent_accesses (sh_access db)) \<and> (\<forall>x \<in> set (agent_accesses (sh_access db)). same_access x acc \<longrightarrow> x = acc)"
  shows "\<exists>db1 staged1 t. grant_loop c a existing roles (db1, staged1) = Inr out \<and>
    sh_access db1 = (sh_access db)\<lparr>agent_accesses := t\<rparr> \<and>
    set t = {x \<in> set (agent_accesses (sh_access db)). \<not> (acc_agent_id x = agent_id a \<and> acc_membership_id x = mid)} \<union>
      {access_row (sc_organization_id c) (agent_id a) mid role}"
    (is "\<exists>db1 staged1 t. _ \<and> _ \<and> set t = {x \<in> set ?t. _ x} \<union> {?row}")
proof (cases "map_of existing mid")
  case None
  then obtain db1 db2 staged2 where i: "insert_access ?row db = Inr db1"
    and s: "stage_event c (access_granted_event c a (member_display (sh_access db) mid) mid role None) (db1, staged) = Inr (db2, staged2)"
    and g: "grant_loop c a existing roles (db2, staged2) = Inr out"
    using assms(1) by (auto simp: bind_result_Inr access_row_def Let_def)
  have "sh_access db2 = (sh_access db)\<lparr>agent_accesses := ?t @ [?row]\<rparr>"
    using i stage_event_access [OF s] by (auto simp: insert_access_def bind_result_Inr)
  moreover have "\<forall>x \<in> set ?t. \<not> (acc_agent_id x = agent_id a \<and> acc_membership_id x = mid)"
    using i by (auto simp: insert_access_def bind_result_Inr same_access_def access_row_def)
  then have "set (?t @ [?row]) = {x \<in> set ?t. \<not> (acc_agent_id x = agent_id a \<and> acc_membership_id x = mid)} \<union> {?row}" by auto
  ultimately show ?thesis using g by blast
next
  case (Some acc)
  have acc: "acc_membership_id acc = mid" "acc_agent_id acc = agent_id a" "acc_organization_id acc = sc_organization_id c"
    using assms(2) [OF Some] by auto
  have alone: "acc \<in> set ?t" "\<And>x. x \<in> set ?t \<Longrightarrow> same_access x acc \<Longrightarrow> x = acc"
    using assms(3) [OF Some] by auto
  have only: "acc_agent_id x = agent_id a \<and> acc_membership_id x = mid \<longleftrightarrow> x = acc" if "x \<in> set ?t" for x
    using alone(2) [OF that] acc by (auto simp: same_access_def)
  show ?thesis
  proof (cases "acc_access_role_id acc = role")
    case True
    then have "?row = acc" using acc by (simp add: access_row_def)
    then have "set ?t = {x \<in> set ?t. \<not> (acc_agent_id x = agent_id a \<and> acc_membership_id x = mid)} \<union> {?row}"
      using only alone(1) by blast
    moreover have "grant_loop c a existing roles (db, staged) = Inr out"
      using assms(1) Some True by (simp add: Let_def)
    ultimately show ?thesis by (intro exI [of _ db] exI [of _ staged] exI [of _ ?t]) simp
  next
    case False
    let ?f = "\<lambda>x. if same_access x acc then x\<lparr>acc_access_role_id := role\<rparr> else x"
    obtain db2 staged2 where
      s: "stage_event c (access_granted_event c a (member_display (sh_access db) mid) mid role (Some (acc_access_role_id acc)))
        (put_accesses (map ?f) db, staged) = Inr (db2, staged2)"
      and g: "grant_loop c a existing roles (db2, staged2) = Inr out"
      using assms(1) Some False by (auto simp: bind_result_Inr Let_def)
    have "sh_access db2 = (sh_access db)\<lparr>agent_accesses := map ?f ?t\<rparr>" using stage_event_access [OF s] by simp
    moreover have "set (map ?f ?t) = {x \<in> set ?t. \<not> (acc_agent_id x = agent_id a \<and> acc_membership_id x = mid)} \<union> {?row}"
    proof -
      have f: "?f x = (if x = acc then ?row else x)" if "x \<in> set ?t" for x
        using only [OF that] acc by (auto simp: same_access_def access_row_def)
      then have "set (map ?f ?t) = (\<lambda>x. if x = acc then ?row else x) ` set ?t" by (simp cong: image_cong)
      also have "\<dots> = {x \<in> set ?t. x \<noteq> acc} \<union> {?row}" using alone(1) by auto
      also have "{x \<in> set ?t. x \<noteq> acc} = {x \<in> set ?t. \<not> (acc_agent_id x = agent_id a \<and> acc_membership_id x = mid)}"
        using only by blast
      finally show ?thesis .
    qed
    ultimately show ?thesis using g by blast
  qed
qed

text \<open>The rows after the grants, when every existing row that is granted again is in the table and alone there.\<close>

lemma grant_loop_access:
  assumes "grant_loop c a existing roles (db, staged) = Inr (db', staged')" and "distinct (map fst roles)"
    and "\<And>mid acc. map_of existing mid = Some acc \<Longrightarrow>
      acc_membership_id acc = mid \<and> acc_agent_id acc = agent_id a \<and> acc_organization_id acc = sc_organization_id c"
    and "\<And>mid acc. mid \<in> fst ` set roles \<Longrightarrow> map_of existing mid = Some acc \<Longrightarrow>
      acc \<in> set (agent_accesses (sh_access db)) \<and> (\<forall>x \<in> set (agent_accesses (sh_access db)). same_access x acc \<longrightarrow> x = acc)"
  shows "(\<exists>t. sh_access db' = (sh_access db)\<lparr>agent_accesses := t\<rparr>) \<and>
    set (agent_accesses (sh_access db')) =
      {x \<in> set (agent_accesses (sh_access db)). \<not> (acc_agent_id x = agent_id a \<and> acc_membership_id x \<in> fst ` set roles)} \<union>
      (\<lambda>(mid, role). access_row (sc_organization_id c) (agent_id a) mid role) ` set roles"
  using assms
proof (induction roles arbitrary: db staged)
  case Nil
  then show ?case by (auto intro: exI [of _ "agent_accesses (sh_access db)"])
next
  case (Cons e roles)
  obtain mid role where e: "e = (mid, role)" by (cases e)
  let ?row = "access_row (sc_organization_id c) (agent_id a) mid role"
  let ?t = "agent_accesses (sh_access db)"
  have new: "mid \<notin> fst ` set roles" and dist: "distinct (map fst roles)" using Cons.prems(2) by (auto simp: e)
  obtain db1 staged1 t where g: "grant_loop c a existing roles (db1, staged1) = Inr (db', staged')"
    and db1: "sh_access db1 = (sh_access db)\<lparr>agent_accesses := t\<rparr>"
    and t: "set t = {x \<in> set ?t. \<not> (acc_agent_id x = agent_id a \<and> acc_membership_id x = mid)} \<union> {?row}"
    using grant_step [OF Cons.prems(1) [unfolded e] Cons.prems(3) Cons.prems(4) [of mid]] by (auto simp: e)
  have "acc \<in> set t \<and> (\<forall>x \<in> set t. same_access x acc \<longrightarrow> x = acc)"
    if "k \<in> fst ` set roles" "map_of existing k = Some acc" for k acc
  proof -
    have "acc_membership_id acc \<noteq> mid" using Cons.prems(3) [OF that(2)] that(1) new by auto
    then show ?thesis using Cons.prems(4) [OF _ that(2)] that(1) unfolding t by (auto simp: same_access_def access_row_def)
  qed
  with Cons.IH [OF g dist Cons.prems(3)] have
    IH: "\<exists>t'. sh_access db' = (sh_access db1)\<lparr>agent_accesses := t'\<rparr>"
      "set (agent_accesses (sh_access db')) =
        {x \<in> set t. \<not> (acc_agent_id x = agent_id a \<and> acc_membership_id x \<in> fst ` set roles)} \<union>
        (\<lambda>(mid, role). access_row (sc_organization_id c) (agent_id a) mid role) ` set roles"
    by (simp_all add: db1)
  have "set (agent_accesses (sh_access db')) =
      {x \<in> set ?t. \<not> (acc_agent_id x = agent_id a \<and> acc_membership_id x \<in> fst ` set (e # roles))} \<union>
      (\<lambda>(mid, role). access_row (sc_organization_id c) (agent_id a) mid role) ` set (e # roles)"
  proof -
    have "acc_agent_id ?row = agent_id a" "acc_membership_id ?row = mid" by (simp_all add: access_row_def)
    from replace_rows [OF t this new]
    show ?thesis unfolding IH(2) by (simp add: e)
  qed
  moreover have "\<exists>t'. sh_access db' = (sh_access db)\<lparr>agent_accesses := t'\<rparr>" using IH(1) by (auto simp: db1)
  ultimately show ?case by blast
qed

text \<open>The constraints of the tables: primary keys, unique indexes and the foreign keys of \<open>agent_access\<close>.\<close>

definition access_key :: "agent_access \<Rightarrow> uuid \<times> uuid" where
  "access_key x = (acc_membership_id x, acc_agent_id x)"

definition access_ok :: "access_db \<Rightarrow> bool" where
  "access_ok db \<longleftrightarrow>
    agents_keyed db \<and> distinct (map role_id (access_role_rows db)) \<and> distinct (map mem_id (memberships db)) \<and>
    distinct (map (\<lambda>m. (mem_user_id m, mem_organization_id m)) (filter (\<lambda>m. mem_user_id m \<noteq> None) (memberships db))) \<and>
    distinct (map access_key (agent_accesses db)) \<and>
    (\<forall>x \<in> set (agent_accesses db).
      (\<exists>a \<in> set (agents db). agent_id a = acc_agent_id x \<and> agent_organization_id a = acc_organization_id x) \<and>
      (\<exists>m \<in> set (memberships db). mem_id m = acc_membership_id x \<and> mem_organization_id m = acc_organization_id x))"

lemma fold_update_append:
  assumes "distinct (map k xs)" "k ` set xs \<inter> fst ` set d = {}"
  shows "fold (\<lambda>x. AList.update (k x) (v x)) xs d = d @ map (\<lambda>x. (k x, v x)) xs"
  using assms
proof (induction xs arbitrary: d)
  case (Cons x xs)
  have update: "AList.update i w d = d @ [(i, w)]" if "i \<notin> fst ` set d" for i w using that by (induction d) auto
  have "AList.update (k x) (v x) d = d @ [(k x, v x)]" by (rule update) (use Cons.prems(2) in auto)
  then show ?case using Cons.IH [of "d @ [(k x, v x)]"] Cons.prems by auto
qed simp

lemma existing_by_membership_keyed:
  "distinct (map acc_membership_id rows) \<Longrightarrow> existing_by_membership rows = map (\<lambda>x. (acc_membership_id x, x)) rows"
  using fold_update_append [of acc_membership_id rows "[]" "\<lambda>x. x"] by (simp add: existing_by_membership_def)

lemma agent_rows_keyed:
  assumes "distinct (map access_key t)"
  shows "distinct (map acc_membership_id (filter (\<lambda>x. acc_agent_id x = aid \<and> P x) t))"
  using assms by (induction t) (auto simp: access_key_def image_iff)

lemma agent_rows_of:
  assumes "access_ok db" and "a \<in> set (agents db)"
  shows "find_access_assignments db (agent_id a) (agent_organization_id a) = filter (\<lambda>x. acc_agent_id x = agent_id a) (agent_accesses db)"
  unfolding find_access_assignments_def
proof (rule filter_cong [OF refl])
  fix x assume "x \<in> set (agent_accesses db)"
  then obtain b where "b \<in> set (agents db)" "agent_id b = acc_agent_id x" "agent_organization_id b = acc_organization_id x"
    using assms(1) by (auto simp: access_ok_def)
  moreover have "b = a" if "acc_agent_id x = agent_id a"
    using calculation that assms by (auto simp: access_ok_def agents_keyed_def distinct_map inj_on_def)
  ultimately show "acc_agent_id x = agent_id a \<and> acc_organization_id x = agent_organization_id a \<longleftrightarrow> acc_agent_id x = agent_id a" by auto
qed

lemma repository_replace_Inr:
  assumes "repository_replace c aid general roles db = Inr (Some (db', ids))"
  obtains a dg sg dr sr staged where
    "a \<in> set (agents (sh_access db))" "agent_id a = aid" "agent_organization_id a = sc_organization_id c" "agent_deleted_at a = None"
    "sh_access dg = (sh_access db)\<lparr>agents := row_put agent_id (a\<lparr>general_access_role_id := general\<rparr>) (agents (sh_access db))\<rparr>"
    "revoke_loop c a (fst ` set roles) (existing_by_membership (find_access_assignments (sh_access db) aid (sc_organization_id c))) (dg, sg) = Inr (dr, sr)"
    "grant_loop c a (existing_by_membership (find_access_assignments (sh_access db) aid (sc_organization_id c))) roles (dr, sr) = Inr (db', staged)"
    "ids = map dl_id (filter (\<lambda>d. dl_event_id d \<in> set staged) (event_deliveries (sh_events db')))"
proof -
  let ?acc = "sh_access db" and ?org = "sc_organization_id c"
  obtain a where f: "find (\<lambda>a. agent_id a = aid \<and> agent_organization_id a = ?org \<and> agent_deleted_at a = None) (agents ?acc) = Some a"
    using assms by (auto simp: repository_replace_def Let_def split: option.splits)
  then have a: "a \<in> set (agents ?acc)" "agent_id a = aid" "agent_organization_id a = ?org" "agent_deleted_at a = None"
    by (auto simp: find_Some_iff)
  let ?db1 = "db\<lparr>sh_access := ?acc\<lparr>agents := row_put agent_id (a\<lparr>general_access_role_id := general\<rparr>) (agents ?acc)\<rparr>\<rparr>"
  obtain dg sg dr sr staged where
    g: "(if general_access_role_id a \<noteq> general then stage_event c (general_access_event c a general) (?db1, []) else Inr (?db1, [])) = Inr (dg, sg)"
    and rest: "revoke_loop c a (fst ` set roles) (existing_by_membership (find_access_assignments ?acc aid ?org)) (dg, sg) = Inr (dr, sr)"
      "grant_loop c a (existing_by_membership (find_access_assignments ?acc aid ?org)) roles (dr, sr) = Inr (db', staged)"
      "ids = map dl_id (filter (\<lambda>d. dl_event_id d \<in> set staged) (event_deliveries (sh_events db')))"
    using assms f by (auto simp: repository_replace_def Let_def bind_result_Inr split: if_splits)
  have "sh_access dg = sh_access ?db1" using g stage_event_access by (auto split: if_splits)
  then show thesis using a rest by (intro that) simp_all
qed

text \<open>The transaction replaces exactly the rows of the Agent by the given ones.\<close>

lemma repository_replace_access:
  assumes ok: "access_ok (sh_access db)" and dist: "distinct (map fst roles)"
    and rep: "repository_replace c aid general roles db = Inr (Some (db', ids))"
  shows "\<exists>a t. a \<in> set (agents (sh_access db)) \<and> agent_id a = aid \<and> agent_organization_id a = sc_organization_id c \<and>
    agent_deleted_at a = None \<and>
    sh_access db' = (sh_access db)\<lparr>agents := row_put agent_id (a\<lparr>general_access_role_id := general\<rparr>) (agents (sh_access db)),
      agent_accesses := t\<rparr> \<and>
    set t = {x \<in> set (agent_accesses (sh_access db)). acc_agent_id x \<noteq> aid} \<union>
      (\<lambda>(mid, role). access_row (sc_organization_id c) aid mid role) ` set roles"
proof -
  let ?acc = "sh_access db" and ?org = "sc_organization_id c"
  let ?rows = "filter (\<lambda>x. acc_agent_id x = aid) (agent_accesses ?acc)" and ?ex = "existing_by_membership (find_access_assignments ?acc aid ?org)"
  obtain a dg sg dr sr staged where a: "a \<in> set (agents ?acc)" "agent_id a = aid" "agent_organization_id a = ?org" "agent_deleted_at a = None"
    and dg: "sh_access dg = ?acc\<lparr>agents := row_put agent_id (a\<lparr>general_access_role_id := general\<rparr>) (agents ?acc)\<rparr>"
    and r: "revoke_loop c a (fst ` set roles) ?ex (dg, sg) = Inr (dr, sr)"
    and gr: "grant_loop c a ?ex roles (dr, sr) = Inr (db', staged)"
    using repository_replace_Inr [OF rep] .
  have rows: "find_access_assignments ?acc aid ?org = ?rows" using agent_rows_of [OF ok a(1)] a by simp
  have ex: "?ex = map (\<lambda>x. (acc_membership_id x, x)) ?rows"
    unfolding rows using ok agent_rows_keyed [of "agent_accesses ?acc" aid "\<lambda>_. True"]
    by (intro existing_by_membership_keyed) (simp add: access_ok_def)
  let ?kept = "filter (\<lambda>x. \<forall>(mid, acc) \<in> set ?ex. mid \<notin> fst ` set roles \<longrightarrow> \<not> same_access x acc) (agent_accesses ?acc)"
  have dr: "sh_access dr = (sh_access dg)\<lparr>agent_accesses := ?kept\<rparr>" using revoke_loop_access [OF r] dg by simp
  have keyed: "x = y" if "x \<in> set (agent_accesses ?acc)" "y \<in> set (agent_accesses ?acc)" "same_access x y" for x y
    using ok that by (auto simp: access_ok_def distinct_map inj_on_def access_key_def same_access_def)
  have kept: "x \<in> set ?kept \<longleftrightarrow> x \<in> set (agent_accesses ?acc) \<and> (acc_agent_id x = aid \<longrightarrow> acc_membership_id x \<in> fst ` set roles)" for x
    unfolding ex using keyed by (auto simp: same_access_def)
  have "(\<exists>t. sh_access db' = (sh_access dr)\<lparr>agent_accesses := t\<rparr>) \<and>
    set (agent_accesses (sh_access db')) =
      {x \<in> set (agent_accesses (sh_access dr)). \<not> (acc_agent_id x = agent_id a \<and> acc_membership_id x \<in> fst ` set roles)} \<union>
      (\<lambda>(mid, role). access_row (sc_organization_id c) (agent_id a) mid role) ` set roles"
  proof (rule grant_loop_access [OF gr dist])
    fix mid acc assume "map_of ?ex mid = Some acc"
    then have acc: "acc \<in> set ?rows" "acc_membership_id acc = mid" unfolding ex by (auto dest!: map_of_SomeD)
    have "acc \<in> set (find_access_assignments ?acc aid ?org)" using acc(1) by (simp add: rows)
    then show "acc_membership_id acc = mid \<and> acc_agent_id acc = agent_id a \<and> acc_organization_id acc = sc_organization_id c"
      using acc(2) a(2) by (simp add: find_access_assignments_def)
    assume "mid \<in> fst ` set roles"
    then show "acc \<in> set (agent_accesses (sh_access dr)) \<and> (\<forall>x \<in> set (agent_accesses (sh_access dr)). same_access x acc \<longrightarrow> x = acc)"
      using acc keyed kept unfolding dr by auto
  qed
  then obtain t where t: "sh_access db' = (sh_access dr)\<lparr>agent_accesses := t\<rparr>" "set t =
      {x \<in> set ?kept. \<not> (acc_agent_id x = aid \<and> acc_membership_id x \<in> fst ` set roles)} \<union>
      (\<lambda>(mid, role). access_row ?org aid mid role) ` set roles"
    by (auto simp: dr a(2))
  have "{x \<in> set ?kept. \<not> (acc_agent_id x = aid \<and> acc_membership_id x \<in> fst ` set roles)} =
      {x \<in> set (agent_accesses ?acc). acc_agent_id x \<noteq> aid}"
    using kept by blast
  then show ?thesis using a t dr dg by (intro exI [of _ a] exI [of _ t]) simp
qed

section \<open>What the service asks the transaction to do\<close>

lemma members_iff:
  "(m, u) \<in> set (get_members_with_users db org) \<longleftrightarrow>
    m \<in> set (memberships db) \<and> mem_organization_id m = org \<and> (\<exists>i. mem_user_id m = Some i \<and> row_get user_id i (users db) = Some u)"
  by (auto simp: get_members_with_users_def split: option.splits Option.bind_splits)

lemma get_member_Some:
  assumes "get_member_with_user db i org = Some (m, u)"
  shows "(m, u) \<in> set (get_members_with_users db org)" "mem_user_id m = Some i"
  using find_SomeD [OF assms [unfolded get_member_with_user_def]] by auto

lemma get_member_iff:
  assumes "access_ok db"
  shows "get_member_with_user db i org = Some (m, u) \<longleftrightarrow> (m, u) \<in> set (get_members_with_users db org) \<and> mem_user_id m = Some i"
proof
  assume r: "(m, u) \<in> set (get_members_with_users db org) \<and> mem_user_id m = Some i"
  then obtain m' u' where f: "get_member_with_user db i org = Some (m', u')"
    unfolding get_member_with_user_def by (cases "find (\<lambda>(m, u). mem_user_id m = Some i) (get_members_with_users db org)") (auto simp: find_None_iff)
  from get_member_Some [OF f] r have "m' = m"
    using assms by (auto simp: members_iff access_ok_def distinct_map inj_on_def)
  moreover have "u' = u" using get_member_Some [OF f] r by (auto simp: members_iff)
  ultimately show "get_member_with_user db i org = Some (m, u)" using f by simp
qed (use get_member_Some in blast)

text \<open>The Membership, the user and the role of an assignment.\<close>

abbreviation asg_member :: "access_db \<Rightarrow> uuid \<Rightarrow> access_assignment \<Rightarrow> organization_user" where
  "asg_member db org x \<equiv> fst (the (get_member_with_user db (asg_user_id x) org))"

definition assignable :: "access_db \<Rightarrow> uuid \<Rightarrow> access_assignment \<Rightarrow> bool" where
  "assignable db org x \<longleftrightarrow> get_agent_access_role db (asg_access_role_id x) org \<noteq> None \<and>
    (\<exists>m u. get_member_with_user db (asg_user_id x) org = Some (m, u) \<and> mem_role m = MEMBER \<and> email_verified_at u \<noteq> None)"

definition assignment_read :: "access_db \<Rightarrow> agent \<Rightarrow> access_assignment \<Rightarrow> access_member_read" where
  "assignment_read db a x =
    (case the (get_member_with_user db (asg_user_id x) (agent_organization_id a)) of (m, u) \<Rightarrow>
       to_assignment a m u (snd (projr (require_access_role db (asg_access_role_id x) (agent_organization_id a)))))"

lemma collect_assignments_Inr:
  assumes "collect_assignments db a xs seen roles reads = Inr (roles', reads')"
  shows "distinct (map asg_user_id xs) \<and> asg_user_id ` set xs \<inter> seen = {} \<and>
    (\<forall>x \<in> set xs. assignable db (agent_organization_id a) x) \<and>
    roles' = fold (\<lambda>x. AList.update (mem_id (asg_member db (agent_organization_id a) x)) (asg_access_role_id x)) xs roles \<and>
    reads' = reads @ map (assignment_read db a) xs"
  using assms
proof (induction xs arbitrary: seen roles reads)
  case (Cons x xs)
  let ?org = "agent_organization_id a"
  obtain r rd m u where r: "require_access_role db (asg_access_role_id x) ?org = Inr (r, rd)"
    and m: "require_accepted_member db (asg_user_id x) ?org = Inr (m, u)" and new: "asg_user_id x \<notin> seen"
    and rest: "collect_assignments db a xs (insert (asg_user_id x) seen) (AList.update (mem_id m) (role_id r) roles)
      (reads @ [to_assignment a m u rd]) = Inr (roles', reads')"
    using Cons.prems by (auto simp: bind_result_Inr raise_if_Inr)
  have member: "get_member_with_user db (asg_user_id x) ?org = Some (m, u)" "mem_role m = MEMBER" "email_verified_at u \<noteq> None"
    using m by (auto simp: require_accepted_member_def bind_result_Inr raise_if_Inr split: option.splits)
  have role: "get_agent_access_role db (asg_access_role_id x) ?org = Some r" "role_id r = asg_access_role_id x"
    using r by (auto simp: require_access_role_def get_agent_access_role_def find_Some_iff split: option.splits)
  show ?case
    using Cons.IH [OF rest] new member role r by (auto simp: assignable_def assignment_read_def)
qed simp

definition hidden :: "(uuid \<times> organization_user) list \<Rightarrow> agent_access \<Rightarrow> bool" where
  "hidden members x \<longleftrightarrow> (\<exists>m. map_of members (acc_membership_id x) = Some m \<and> mem_role m \<noteq> MEMBER)"

lemma preserve_hidden_eq:
  assumes "distinct (map acc_membership_id rows)"
  shows "preserve_hidden members rows roles = roles @ map (\<lambda>x. (acc_membership_id x, acc_access_role_id x))
    (filter (\<lambda>x. acc_membership_id x \<notin> fst ` set roles \<and> hidden members x) rows)"
  using assms
proof (induction rows arbitrary: roles)
  case (Cons x rows)
  have "acc_membership_id y \<noteq> acc_membership_id x" if "y \<in> set rows" for y using Cons.prems that by (auto simp: image_iff)
  then have drop: "filter (\<lambda>y. acc_membership_id y \<notin> fst ` set (roles @ [(acc_membership_id x, acc_access_role_id x)]) \<and> hidden members y) rows =
      filter (\<lambda>y. acc_membership_id y \<notin> fst ` set roles \<and> hidden members y) rows"
    by (intro filter_cong refl) auto
  have "AList.update (acc_membership_id x) (acc_access_role_id x) roles = roles @ [(acc_membership_id x, acc_access_role_id x)]"
    if "acc_membership_id x \<notin> fst ` set roles"
    using fold_update_append [of acc_membership_id "[x]" roles acc_access_role_id] that by simp
  then show ?case
    using Cons.IH [of roles] Cons.IH [of "roles @ [(acc_membership_id x, acc_access_role_id x)]"] Cons.prems
    unfolding drop by (auto simp: hidden_def split: option.splits)
qed simp

text \<open>The roles by Membership that the service passes on.\<close>

definition wanted_roles :: "access_db \<Rightarrow> agent \<Rightarrow> access_assignment list \<Rightarrow> (uuid \<times> uuid) list" where
  "wanted_roles db a xs = map (\<lambda>x. (mem_id (asg_member db (agent_organization_id a) x), asg_access_role_id x)) xs"

definition hidden_rows :: "access_db \<Rightarrow> agent \<Rightarrow> agent_access list" where
  "hidden_rows db a = filter (\<lambda>x. acc_agent_id x = agent_id a \<and>
    (\<exists>(m, u) \<in> set (get_members_with_users db (agent_organization_id a)). mem_id m = acc_membership_id x \<and> mem_role m \<noteq> MEMBER))
    (agent_accesses db)"

lemma members_keyed:
  assumes "access_ok db" shows "distinct (map mem_id (map fst (get_members_with_users db org)))"
proof -
  have "map fst (get_members_with_users db org) =
      filter (\<lambda>m. mem_organization_id m = org \<and> Option.bind (mem_user_id m) (\<lambda>u. row_get user_id u (users db)) \<noteq> None) (memberships db)"
    (is "map fst ?l = filter ?P _")
  proof -
    have "map fst (concat (map (\<lambda>m. case Option.bind (mem_user_id m) (\<lambda>u. row_get user_id u (users db)) of None \<Rightarrow> [] | Some u \<Rightarrow> [(m, u)])
        (filter (\<lambda>m. mem_organization_id m = org) ms))) = filter ?P ms" for ms
      by (induction ms) (auto split: option.splits)
    then show ?thesis unfolding get_members_with_users_def .
  qed
  then show ?thesis using assms by (simp add: access_ok_def distinct_map_filter)
qed

lemma assigned_members_distinct:
  assumes "access_ok db" "distinct (map asg_user_id xs)" "\<forall>x \<in> set xs. assignable db org x"
  shows "distinct (map (\<lambda>x. mem_id (asg_member db org x)) xs)"
proof -
  have "x = y" if xy: "x \<in> set xs" "y \<in> set xs" "mem_id (asg_member db org x) = mem_id (asg_member db org y)" for x y
  proof -
    obtain m u m' u' where m: "get_member_with_user db (asg_user_id x) org = Some (m, u)" "get_member_with_user db (asg_user_id y) org = Some (m', u')"
      using assms(3) xy(1,2) unfolding assignable_def by blast
    then have "m \<in> set (memberships db)" "m' \<in> set (memberships db)" using get_member_Some(1) by (auto simp: members_iff)
    then have "m = m'" using that(3) m assms(1) by (auto simp: access_ok_def distinct_map inj_on_def)
    then have "asg_user_id x = asg_user_id y" using get_member_Some(2) [OF m(1)] get_member_Some(2) [OF m(2)] by simp
    then show ?thesis using assms(2) that by (simp add: distinct_map inj_on_def)
  qed
  moreover have "distinct xs" using assms(2) by (simp add: distinct_map)
  ultimately show ?thesis by (simp add: distinct_map inj_on_def)
qed

lemma wanted_are_members:
  assumes ok: "access_ok db" and "\<forall>x \<in> set xs. assignable db (agent_organization_id a) x"
    and m: "mem_id m \<in> fst ` set (wanted_roles db a xs)" "m \<in> set (memberships db)"
  shows "mem_role m = MEMBER"
proof -
  let ?org = "agent_organization_id a"
  obtain x where x: "x \<in> set xs" "mem_id m = mem_id (asg_member db ?org x)" using m(1) by (auto simp: wanted_roles_def)
  then obtain n u where n: "get_member_with_user db (asg_user_id x) ?org = Some (n, u)" "mem_role n = MEMBER"
    using assms(2) unfolding assignable_def by blast
  then have "n \<in> set (memberships db)" using get_member_Some(1) by (auto simp: members_iff)
  then have "m = n" using x n m(2) ok by (auto simp: access_ok_def distinct_map inj_on_def)
  with n show ?thesis by simp
qed

lemma members_map_of:
  assumes "access_ok db"
  shows "map_of (map (\<lambda>(m, u). (mem_id m, m)) (get_members_with_users db org)) i = Some m \<longleftrightarrow>
    (\<exists>u. (m, u) \<in> set (get_members_with_users db org)) \<and> mem_id m = i"
proof -
  have "distinct (map fst (map (\<lambda>(m, u). (mem_id m, m)) (get_members_with_users db org)))"
    using members_keyed [OF assms, of org] by (simp add: o_def split_def)
  then show ?thesis by (force simp: map_of_eq_Some_iff)
qed

lemma preserved_rows:
  assumes ok: "access_ok db" and a: "a \<in> set (agents db)" and xs: "\<forall>x \<in> set xs. assignable db (agent_organization_id a) x"
  shows "preserve_hidden_assignments db a (wanted_roles db a xs) =
      wanted_roles db a xs @ map (\<lambda>x. (acc_membership_id x, acc_access_role_id x)) (hidden_rows db a)"
    and "distinct (map acc_membership_id (hidden_rows db a))"
    and "acc_membership_id ` set (hidden_rows db a) \<inter> fst ` set (wanted_roles db a xs) = {}"
proof -
  let ?org = "agent_organization_id a" and ?rows = "filter (\<lambda>x. acc_agent_id x = agent_id a) (agent_accesses db)"
  let ?members = "map (\<lambda>(m, u). (mem_id m, m)) (get_members_with_users db ?org)"
  have dist: "distinct (map acc_membership_id (filter (\<lambda>x. acc_agent_id x = agent_id a \<and> P x) (agent_accesses db)))" for P
    using ok agent_rows_keyed by (simp add: access_ok_def)
  then show "distinct (map acc_membership_id (hidden_rows db a))" unfolding hidden_rows_def .
  have apart: "acc_membership_id x \<notin> fst ` set (wanted_roles db a xs)"
    if "(m, u) \<in> set (get_members_with_users db ?org)" "mem_id m = acc_membership_id x" "mem_role m \<noteq> MEMBER" for m u x
    using wanted_are_members [OF ok xs, of m] that by (auto simp: members_iff)
  then show "acc_membership_id ` set (hidden_rows db a) \<inter> fst ` set (wanted_roles db a xs) = {}"
    unfolding hidden_rows_def by auto
  have hid: "hidden ?members x \<longleftrightarrow> (\<exists>(m, u) \<in> set (get_members_with_users db ?org). mem_id m = acc_membership_id x \<and> mem_role m \<noteq> MEMBER)" for x
    unfolding hidden_def members_map_of [OF ok] by blast
  have "filter (\<lambda>x. acc_membership_id x \<notin> fst ` set (wanted_roles db a xs) \<and> hidden ?members x) ?rows = hidden_rows db a"
    unfolding hidden_rows_def filter_filter hid using apart by (intro filter_cong refl) blast
  then show "preserve_hidden_assignments db a (wanted_roles db a xs) =
      wanted_roles db a xs @ map (\<lambda>x. (acc_membership_id x, acc_access_role_id x)) (hidden_rows db a)"
    using preserve_hidden_eq [of ?rows ?members "wanted_roles db a xs"] dist [of "\<lambda>_. True"]
    by (simp add: preserve_hidden_assignments_def agent_rows_of [OF ok a])
qed

lemma plan_replace_Inr:
  assumes ok: "access_ok db" and plan: "plan_replace db ctx aid upd = Inr (a, roles, answer)"
  shows "require_manage_access db ctx aid = Inr a \<and> a \<in> set (agents db) \<and> agent_id a = aid \<and>
    distinct (map asg_user_id (upd_assignments upd)) \<and> (\<forall>x \<in> set (upd_assignments upd). assignable db (agent_organization_id a) x) \<and>
    require_general_access_role db (upd_general_access_role_id upd) (agent_organization_id a) = Inr (read_general_access answer) \<and>
    read_assignments answer = map (assignment_read db a) (upd_assignments upd) \<and>
    roles = wanted_roles db a (upd_assignments upd) @
      map (\<lambda>x. (acc_membership_id x, acc_access_role_id x)) (hidden_rows db a) \<and>
    distinct (map fst roles)"
proof -
  let ?org = "agent_organization_id a" and ?xs = "upd_assignments upd"
  obtain general roles0 where man: "require_manage_access db ctx aid = Inr a"
    and gen: "require_general_access_role db (upd_general_access_role_id upd) ?org = Inr general"
    and col: "collect_assignments db a ?xs {} [] [] = Inr (roles0, read_assignments answer)"
    and roles: "roles = preserve_hidden_assignments db a roles0" and ans: "read_general_access answer = general"
    using plan by (auto simp: plan_replace_def bind_result_Inr)
  obtain m where a: "a \<in> set (agents db)" "agent_id a = aid"
    using man require_action_iff [of db ctx aid AGENT_ACCESS_MANAGE _ a] ok by (auto simp: require_manage_access_def access_ok_def)
  note c = collect_assignments_Inr [OF col]
  have keys: "distinct (map (\<lambda>x. mem_id (asg_member db ?org x)) ?xs)" using assigned_members_distinct [OF ok] c by blast
  have r0: "roles0 = wanted_roles db a ?xs"
    using c fold_update_append [OF keys, of "[]" asg_access_role_id] by (simp add: wanted_roles_def)
  have xs: "\<forall>x \<in> set ?xs. assignable db ?org x" using c by blast
  note p = preserved_rows [OF ok a(1) xs]
  have "roles = wanted_roles db a ?xs @ map (\<lambda>x. (acc_membership_id x, acc_access_role_id x)) (hidden_rows db a)"
    unfolding roles r0 by (rule p(1))
  moreover have "distinct (map fst roles)"
    using calculation p(2,3) keys by (simp add: wanted_roles_def o_def image_image Int_commute)
  ultimately show ?thesis using man a c gen ans by simp
qed

section \<open>The constraints are kept\<close>

lemma grant_loop_keys:
  assumes "grant_loop c a existing roles (db, staged) = Inr (db', staged')" "distinct (map access_key (agent_accesses (sh_access db)))"
  shows "distinct (map access_key (agent_accesses (sh_access db')))"
  using assms
proof (induction roles arbitrary: db staged)
  case (Cons e roles)
  obtain mid role where e: "e = (mid, role)" by (cases e)
  let ?t = "agent_accesses (sh_access db)" and ?row = "access_row (sc_organization_id c) (agent_id a) mid role"
  show ?case
  proof (cases "map_of existing mid")
    case None
    then obtain db1 db2 staged2 rq where i: "insert_access ?row db = Inr db1" and s: "stage_event c rq (db1, staged) = Inr (db2, staged2)"
      and g: "grant_loop c a existing roles (db2, staged2) = Inr (db', staged')"
      using Cons.prems(1) by (auto simp: e bind_result_Inr access_row_def Let_def)
    have "agent_accesses (sh_access db2) = ?t @ [?row]" "access_key ?row \<notin> access_key ` set ?t"
      using i stage_event_access [OF s] by (auto simp: insert_access_def bind_result_Inr same_access_def access_key_def)
    then show ?thesis using Cons.IH [OF g] Cons.prems(2) by simp
  next
    case (Some acc)
    let ?f = "\<lambda>x. if same_access x acc then x\<lparr>acc_access_role_id := role\<rparr> else x"
    have keys: "map access_key (map ?f t) = map access_key t" for t by (simp add: access_key_def)
    show ?thesis
    proof (cases "acc_access_role_id acc = role")
      case True
      then show ?thesis using Cons Some by (simp add: e Let_def)
    next
      case False
      then obtain db2 staged2 rq where s: "stage_event c rq (put_accesses (map ?f) db, staged) = Inr (db2, staged2)"
        and g: "grant_loop c a existing roles (db2, staged2) = Inr (db', staged')"
        using Cons.prems(1) Some by (auto simp: e bind_result_Inr Let_def)
      have "map access_key (agent_accesses (sh_access db2)) = map access_key ?t"
        using stage_event_access [OF s] keys [of ?t] by simp
      then show ?thesis using Cons.IH [OF g] Cons.prems(2) by simp
    qed
  qed
qed simp

lemma repository_replace_keys:
  assumes "access_ok (sh_access db)" "repository_replace c aid general roles db = Inr (Some (db', ids))"
  shows "distinct (map access_key (agent_accesses (sh_access db')))"
proof -
  from repository_replace_Inr [OF assms(2)] obtain a dg sg dr sr staged where
    dg: "sh_access dg = (sh_access db)\<lparr>agents := row_put agent_id (a\<lparr>general_access_role_id := general\<rparr>) (agents (sh_access db))\<rparr>"
    and r: "revoke_loop c a (fst ` set roles) (existing_by_membership (find_access_assignments (sh_access db) aid (sc_organization_id c)))
      (dg, sg) = Inr (dr, sr)"
    and g: "grant_loop c a (existing_by_membership (find_access_assignments (sh_access db) aid (sc_organization_id c))) roles (dr, sr) = Inr (db', staged)" .
  have "distinct (map access_key (agent_accesses (sh_access dr)))"
    unfolding revoke_loop_access [OF r] dg using assms(1) by (simp add: access_ok_def distinct_map_filter)
  then show ?thesis by (rule grant_loop_keys [OF g])
qed

section \<open>Properties\<close>

lemma replace_effect:
  assumes ok: "access_ok (sh_access db)"
    and rep: "replace_access_settings reg new_ids cid accepts now aid upd ctx (db, queue) = ((db', queue'), Inr answer)"
  obtains a t where "plan_replace (sh_access db) ctx aid upd = Inr (a, wanted_roles (sh_access db) a (upd_assignments upd) @
      map (\<lambda>x. (acc_membership_id x, acc_access_role_id x)) (hidden_rows (sh_access db) a), answer)"
    "a \<in> set (agents (sh_access db))" "agent_id a = aid" "agent_deleted_at a = None"
    "sh_access db' = (sh_access db)\<lparr>agents := row_put agent_id (a\<lparr>general_access_role_id := upd_general_access_role_id upd\<rparr>) (agents (sh_access db)),
      agent_accesses := t\<rparr>"
    "set t = {x \<in> set (agent_accesses (sh_access db)). acc_agent_id x \<noteq> aid} \<union>
      (\<lambda>(mid, role). access_row (agent_organization_id a) aid mid role) ` set (wanted_roles (sh_access db) a (upd_assignments upd)) \<union>
      set (hidden_rows (sh_access db) a)"
    "distinct (map access_key t)"
proof -
  obtain a roles where plan: "plan_replace (sh_access db) ctx aid upd = Inr (a, roles, answer)"
    using rep by (auto simp: replace_access_settings_def split: sum.splits option.splits prod.splits)
  note p = plan_replace_Inr [OF ok plan]
  let ?c = "\<lparr>sc_registry = reg, sc_new_ids = new_ids, sc_now = now, sc_organization_id = agent_organization_id a,
      sc_actor = resolve_actor_identity ctx (agent_organization_id a), sc_actor_display = user_email (ctx_user ctx), sc_correlation_id = cid\<rparr>"
  obtain db1 ids where r: "repository_replace ?c (agent_id a) (upd_general_access_role_id upd) roles db = Inr (Some (db1, ids))"
    and db': "sh_access db' = sh_access db1"
    using rep plan by (auto simp: replace_access_settings_def split: sum.splits option.splits prod.splits)
  obtain b t where b: "b \<in> set (agents (sh_access db))" "agent_id b = agent_id a" "agent_deleted_at b = None"
    and t: "sh_access db1 = (sh_access db)\<lparr>agents := row_put agent_id (b\<lparr>general_access_role_id := upd_general_access_role_id upd\<rparr>) (agents (sh_access db)),
      agent_accesses := t\<rparr>" "set t = {x \<in> set (agent_accesses (sh_access db)). acc_agent_id x \<noteq> agent_id a} \<union>
      (\<lambda>(mid, role). access_row (agent_organization_id a) (agent_id a) mid role) ` set roles"
    using repository_replace_access [OF ok _ r] p by auto
  have ab: "b = a" using b p ok by (auto simp: access_ok_def agents_keyed_def distinct_map inj_on_def)
  have "access_row (agent_organization_id a) (agent_id a) (acc_membership_id x) (acc_access_role_id x) = x" if "x \<in> set (hidden_rows (sh_access db) a)" for x
  proof -
    have "x \<in> set (find_access_assignments (sh_access db) (agent_id a) (agent_organization_id a))"
      using that agent_rows_of [OF ok, of a] p by (simp add: hidden_rows_def)
    then show ?thesis by (simp add: find_access_assignments_def access_row_def)
  qed
  then have "(\<lambda>(mid, role). access_row (agent_organization_id a) (agent_id a) mid role) `
      set (map (\<lambda>x. (acc_membership_id x, acc_access_role_id x)) (hidden_rows (sh_access db) a)) = set (hidden_rows (sh_access db) a)"
    by (simp add: image_image)
  moreover have "distinct (map access_key t)" using repository_replace_keys [OF ok r] t by simp
  ultimately show thesis using t p ab db' b plan by (intro that [of a t]) (simp_all add: image_Un Un_assoc)
qed

lemma wanted_for:
  assumes ok: "access_ok db" and xs: "\<forall>x \<in> set xs. assignable db (agent_organization_id a) x"
    and m: "(m, u) \<in> set (get_members_with_users db (agent_organization_id a))"
  shows "(mem_id m, role) \<in> set (wanted_roles db a xs) \<longleftrightarrow> (\<exists>x \<in> set xs. mem_user_id m = Some (asg_user_id x) \<and> asg_access_role_id x = role)"
proof -
  let ?org = "agent_organization_id a"
  have "mem_id (asg_member db ?org x) = mem_id m \<longleftrightarrow> mem_user_id m = Some (asg_user_id x)" if x: "x \<in> set xs" for x
  proof -
    obtain n v where n: "get_member_with_user db (asg_user_id x) ?org = Some (n, v)" using xs x unfolding assignable_def by blast
    have in_db: "n \<in> set (memberships db)" "m \<in> set (memberships db)" using get_member_Some(1) [OF n] m by (auto simp: members_iff)
    then have same: "mem_id n = mem_id m \<longleftrightarrow> n = m" using ok by (auto simp: access_ok_def distinct_map inj_on_def)
    show ?thesis
    proof
      assume "mem_user_id m = Some (asg_user_id x)"
      then have "get_member_with_user db (asg_user_id x) ?org = Some (m, u)" using get_member_iff [OF ok] m by blast
      then show "mem_id (asg_member db ?org x) = mem_id m" by simp
    qed (use n same get_member_Some(2) [OF n] in auto)
  qed
  note iff = this
  have "(mem_id m, role) \<in> set (wanted_roles db a xs) \<longleftrightarrow> (\<exists>x \<in> set xs. mem_id (asg_member db ?org x) = mem_id m \<and> asg_access_role_id x = role)"
    unfolding wanted_roles_def by force
  then show ?thesis using iff by blast
qed

lemma hidden_not_member:
  assumes ok: "access_ok db" and "x \<in> set (hidden_rows db a)" and "m \<in> set (memberships db)" "mem_role m = MEMBER"
  shows "acc_membership_id x \<noteq> mem_id m"
proof
  assume "acc_membership_id x = mem_id m"
  then obtain n v where "(n, v) \<in> set (get_members_with_users db (agent_organization_id a))" "mem_id n = mem_id m" "mem_role n \<noteq> MEMBER"
    using assms(2) by (auto simp: hidden_rows_def)
  then show False using assms(3,4) ok by (auto simp: members_iff access_ok_def distinct_map inj_on_def)
qed

lemma member_rows:
  assumes ok: "access_ok db" and t: "set t = {x \<in> set (agent_accesses db). acc_agent_id x \<noteq> aid} \<union>
      (\<lambda>(mid, role). access_row org aid mid role) ` W \<union> set (hidden_rows db a)"
    and m: "m \<in> set (memberships db)" "mem_role m = MEMBER"
  shows "(\<exists>x \<in> set t. acc_agent_id x = aid \<and> acc_organization_id x = org \<and> acc_membership_id x = mem_id m \<and> Q (acc_access_role_id x)) \<longleftrightarrow>
    (\<exists>role. (mem_id m, role) \<in> W \<and> Q role)"
proof
  assume "\<exists>x \<in> set t. acc_agent_id x = aid \<and> acc_organization_id x = org \<and> acc_membership_id x = mem_id m \<and> Q (acc_access_role_id x)"
  then obtain x where x: "x \<in> set t" "acc_agent_id x = aid" "acc_membership_id x = mem_id m" "Q (acc_access_role_id x)" by blast
  then have "x \<notin> set (hidden_rows db a)" using hidden_not_member [OF ok _ m] by blast
  then obtain mid role where w: "(mid, role) \<in> W" "x = access_row org aid mid role" using x(1,2) unfolding t by auto
  then have "(mem_id m, role) \<in> W" "Q role" using x(3,4) by auto
  then show "\<exists>role. (mem_id m, role) \<in> W \<and> Q role" by blast
next
  assume "\<exists>role. (mem_id m, role) \<in> W \<and> Q role"
  then obtain role where r: "(mem_id m, role) \<in> W" "Q role" by blast
  have "access_row org aid (mem_id m) role \<in> set t" unfolding t using r(1) by (intro UnI1 UnI2) (rule image_eqI, simp_all)
  then show "\<exists>x \<in> set t. acc_agent_id x = aid \<and> acc_organization_id x = org \<and> acc_membership_id x = mem_id m \<and> Q (acc_access_role_id x)"
    using r(2) by (intro bexI [of _ "access_row org aid (mem_id m) role"]) simp_all
qed

text \<open>
  C19. Sharing takes effect exactly as asked: after the settings of an Agent have been replaced,
  a Member of the Organization holds a permission on it exactly when the request assigns to that
  Member a role that grants it, or the Member has accepted the invitation and the requested
  General Access role grants it; nothing of the former settings is left, the grants of
  Owners and Admins, which the dialog hides, and the rows of every other Agent are untouched.
\<close>

theorem sharing_takes_effect:
  assumes ok: "access_ok (sh_access db)"
    and rep: "replace_access_settings reg new_ids cid accepts now aid upd ctx (db, queue) = ((db', queue'), Inr answer)"
  shows "\<exists>a \<in> set (agents (sh_access db')). agent_id a = aid \<and> general_access_role_id a = upd_general_access_role_id upd \<and>
    (\<forall>m u p. (m, u) \<in> set (get_members_with_users (sh_access db) (agent_organization_id a)) \<and> mem_role m = MEMBER \<longrightarrow>
      (holds_permission (sh_access db') m u p a \<longleftrightarrow>
        (\<exists>x \<in> set (upd_assignments upd). mem_user_id m = Some (asg_user_id x) \<and> role_grants (sh_access db) (asg_access_role_id x) p) \<or>
        (email_verified_at u \<noteq> None \<and> (\<exists>r. upd_general_access_role_id upd = Some r \<and> role_grants (sh_access db) r p)))) \<and>
    (\<forall>x. x \<in> set (hidden_rows (sh_access db) a) \<or> acc_agent_id x \<noteq> aid \<longrightarrow>
      (x \<in> set (agent_accesses (sh_access db')) \<longleftrightarrow> x \<in> set (agent_accesses (sh_access db))))"
proof -
  let ?acc = "sh_access db" and ?acc' = "sh_access db'" and ?general = "upd_general_access_role_id upd" and ?xs = "upd_assignments upd"
  obtain a t where plan: "plan_replace ?acc ctx aid upd = Inr (a, wanted_roles ?acc a ?xs @
      map (\<lambda>x. (acc_membership_id x, acc_access_role_id x)) (hidden_rows ?acc a), answer)"
    and a: "a \<in> set (agents ?acc)" "agent_id a = aid" "agent_deleted_at a = None"
    and acc': "?acc' = ?acc\<lparr>agents := row_put agent_id (a\<lparr>general_access_role_id := ?general\<rparr>) (agents ?acc), agent_accesses := t\<rparr>"
    and t: "set t = {x \<in> set (agent_accesses ?acc). acc_agent_id x \<noteq> aid} \<union>
      (\<lambda>(mid, role). access_row (agent_organization_id a) aid mid role) ` set (wanted_roles ?acc a ?xs) \<union> set (hidden_rows ?acc a)"
    using replace_effect [OF ok rep] .
  let ?a = "a\<lparr>general_access_role_id := ?general\<rparr>" and ?org = "agent_organization_id a"
  have xs: "\<forall>x \<in> set ?xs. assignable ?acc ?org x" using plan_replace_Inr [OF ok plan] by blast
  have hid: "hidden_rows ?acc ?a = hidden_rows ?acc a" by (simp add: hidden_rows_def)
  have "?a \<in> set (agents ?acc')" using a by (force simp: acc' row_put_def image_iff)
  moreover have "holds_permission ?acc' m u p ?a \<longleftrightarrow>
        (\<exists>x \<in> set ?xs. mem_user_id m = Some (asg_user_id x) \<and> role_grants ?acc (asg_access_role_id x) p) \<or>
        (email_verified_at u \<noteq> None \<and> (\<exists>r. ?general = Some r \<and> role_grants ?acc r p))"
    if m: "(m, u) \<in> set (get_members_with_users ?acc ?org)" "mem_role m = MEMBER" for m u p
  proof -
    have org: "mem_organization_id m = ?org" "m \<in> set (memberships ?acc)" using m(1) by (auto simp: members_iff)
    have grants: "role_grants ?acc' = role_grants ?acc" by (simp add: acc' role_grants_def fun_eq_iff)
    have "(\<exists>x \<in> set t. acc_agent_id x = aid \<and> acc_organization_id x = ?org \<and> acc_membership_id x = mem_id m \<and> role_grants ?acc (acc_access_role_id x) p) \<longleftrightarrow>
        (\<exists>role. (mem_id m, role) \<in> set (wanted_roles ?acc a ?xs) \<and> role_grants ?acc role p)"
      by (rule member_rows [OF ok t org(2) m(2)])
    then show ?thesis
      using m(2) a org unfolding holds_permission_def grants wanted_for [OF ok xs m(1)]
      by (auto simp: acc' IMPLICIT_AGENT_OWNER_ROLES_def)
  qed
  moreover have "x \<in> set t \<longleftrightarrow> x \<in> set (agent_accesses ?acc)" if "x \<in> set (hidden_rows ?acc a) \<or> acc_agent_id x \<noteq> aid" for x
    using that a unfolding t by (auto simp: hidden_rows_def access_row_def)
  ultimately show ?thesis using a hid by (intro bexI [of _ ?a]) (simp_all add: acc')
qed

lemma replace_ok:
  assumes ok: "access_ok (sh_access db)"
    and rep: "replace_access_settings reg new_ids cid accepts now aid upd ctx (db, queue) = ((db', queue'), Inr answer)"
  shows "access_ok (sh_access db')"
proof -
  let ?acc = "sh_access db" and ?xs = "upd_assignments upd"
  obtain a t where plan: "plan_replace ?acc ctx aid upd = Inr (a, wanted_roles ?acc a ?xs @
      map (\<lambda>x. (acc_membership_id x, acc_access_role_id x)) (hidden_rows ?acc a), answer)"
    and a: "a \<in> set (agents ?acc)" "agent_id a = aid"
    and acc': "sh_access db' = ?acc\<lparr>agents := row_put agent_id (a\<lparr>general_access_role_id := upd_general_access_role_id upd\<rparr>) (agents ?acc), agent_accesses := t\<rparr>"
    and t: "set t = {x \<in> set (agent_accesses ?acc). acc_agent_id x \<noteq> aid} \<union>
      (\<lambda>(mid, role). access_row (agent_organization_id a) aid mid role) ` set (wanted_roles ?acc a ?xs) \<union> set (hidden_rows ?acc a)"
    and keys: "distinct (map access_key t)"
    using replace_effect [OF ok rep] .
  let ?as = "row_put agent_id (a\<lparr>general_access_role_id := upd_general_access_role_id upd\<rparr>) (agents ?acc)"
  have ids: "map agent_id ?as = map agent_id (agents ?acc)" by (simp add: row_put_def)
  have kept: "\<exists>b' \<in> set ?as. agent_id b' = agent_id b \<and> agent_organization_id b' = agent_organization_id b" if "b \<in> set (agents ?acc)" for b
  proof -
    have "agent_id b = agent_id a \<Longrightarrow> b = a" using that a ok by (auto simp: access_ok_def agents_keyed_def distinct_map inj_on_def)
    then show ?thesis using that
      by (intro bexI [of _ "if agent_id b = agent_id a then a\<lparr>general_access_role_id := upd_general_access_role_id upd\<rparr> else b"])
        (auto simp: row_put_def)
  qed
  have "(\<exists>b \<in> set (agents ?acc). agent_id b = acc_agent_id x \<and> agent_organization_id b = acc_organization_id x) \<and>
      (\<exists>m \<in> set (memberships ?acc). mem_id m = acc_membership_id x \<and> mem_organization_id m = acc_organization_id x)" if x: "x \<in> set t" for x
  proof (cases "x \<in> set (agent_accesses ?acc)")
    case False
    then obtain mid role where w: "(mid, role) \<in> set (wanted_roles ?acc a ?xs)" "x = access_row (agent_organization_id a) aid mid role"
      using x unfolding t hidden_rows_def by auto
    then obtain y where y: "y \<in> set ?xs" "mid = mem_id (asg_member ?acc (agent_organization_id a) y)" by (auto simp: wanted_roles_def)
    obtain m u where "get_member_with_user ?acc (asg_user_id y) (agent_organization_id a) = Some (m, u)"
      using plan_replace_Inr [OF ok plan] y(1) unfolding assignable_def by blast
    then have "m \<in> set (memberships ?acc)" "mem_organization_id m = agent_organization_id a" "mid = mem_id m"
      using get_member_Some(1) y by (auto simp: members_iff)
    then show ?thesis using a w by auto
  qed (use ok in \<open>auto simp: access_ok_def\<close>)
  then show ?thesis using ok keys kept ids unfolding access_ok_def agents_keyed_def acc' by simp metis
qed

text \<open>
  C22. Only managers share: when the Share dialog changes the database or publishes anything, the
  caller holds \<open>agent.access.manage\<close> on that live Agent of the caller's own Organization, and
  the constraints of the access tables (one row per Membership and Agent, of the Organization
  of both) still hold.
\<close>

theorem only_managers_share:
  assumes "access_ok (sh_access db)"
    and "fst (replace_access_settings reg new_ids cid accepts now aid upd ctx (db, queue)) \<noteq> (db, queue)"
  shows "(\<exists>a \<in> set (agents (sh_access db)). agent_id a = aid \<and> caller_holds (sh_access db) ctx AGENT_ACCESS_MANAGE a \<and>
      home_organization ctx = Some (agent_organization_id a) \<and> agent_deleted_at a = None) \<and>
    access_ok (sh_access (fst (fst (replace_access_settings reg new_ids cid accepts now aid upd ctx (db, queue)))))"
proof -
  obtain db' queue' answer where rep: "replace_access_settings reg new_ids cid accepts now aid upd ctx (db, queue) = ((db', queue'), Inr answer)"
    using assms(2) unfolding replace_access_settings_def by (auto split: sum.splits option.splits prod.splits)
  obtain a roles where "plan_replace (sh_access db) ctx aid upd = Inr (a, roles, answer)"
    by (rule replace_effect [OF assms(1) rep]) (rule that)
  then have "require_action (sh_access db) ctx aid AGENT_ACCESS_MANAGE ''You don't have permission to manage access to this Agent.'' = Inr a"
    using plan_replace_Inr [OF assms(1)] by (simp add: require_manage_access_def)
  then have "agent_id a = aid \<and> a \<in> set (agents (sh_access db)) \<and> home_organization ctx = Some (agent_organization_id a) \<and>
      agent_deleted_at a = None \<and> caller_holds (sh_access db) ctx AGENT_ACCESS_MANAGE a"
    using authority.action_in_home assms(1) unfolding access_ok_def by blast
  then show ?thesis using replace_ok [OF assms(1) rep] by (auto simp: rep)
qed

section \<open>What is shown is what is in force\<close>

lemma listed_role:
  assumes "access_ok db"
  shows "map_of (map (\<lambda>(r, ps). (role_id r, role_to_read r ps)) (list_agent_access_roles db org)) i =
    map_option (\<lambda>r. role_to_read r (get_agent_access_role_permissions db (role_id r))) (get_agent_access_role db i org)"
proof -
  let ?l = "map (\<lambda>(r, ps). (role_id r, role_to_read r ps)) (list_agent_access_roles db org)"
  have l: "set (list_agent_access_roles db org) =
      (\<lambda>r. (r, get_agent_access_role_permissions db (role_id r))) ` {r \<in> set (access_role_rows db). role_available org r}"
    by (auto simp: list_agent_access_roles_def)
  have inj: "r = s" if "r \<in> set (access_role_rows db)" "s \<in> set (access_role_rows db)" "role_id r = role_id s" for r s
    using that assms by (auto simp: access_ok_def distinct_map inj_on_def)
  show ?thesis
  proof (cases "get_agent_access_role db i org")
    case None
    then have "i \<notin> fst ` set ?l" by (auto simp: l get_agent_access_role_def find_None_iff)
    then show ?thesis using None by (simp add: map_of_eq_None_iff)
  next
    case (Some r)
    then have r: "r \<in> set (access_role_rows db)" "role_available org r" "role_id r = i"
      using find_SomeD [OF Some [unfolded get_agent_access_role_def]] by auto
    then have "(r, get_agent_access_role_permissions db i) \<in> set (list_agent_access_roles db org)" unfolding l by blast
    then have "(\<lambda>(r, ps). (role_id r, role_to_read r ps)) (r, get_agent_access_role_permissions db i) \<in> set ?l"
      unfolding set_map by (rule imageI)
    then have "(i, role_to_read r (get_agent_access_role_permissions db i)) \<in> set ?l" by (simp only: prod.case r(3))
    then have "i \<in> fst ` set ?l" by (rule image_eqI [rotated]) simp
    then have "map_of ?l i \<noteq> None" unfolding map_of_eq_None_iff by blast
    then obtain rd where rd: "map_of ?l i = Some rd" by blast
    then have "(i, rd) \<in> set ?l" by (rule map_of_SomeD)
    then obtain s where "s \<in> set (access_role_rows db)" "role_id s = i" "rd = role_to_read s (get_agent_access_role_permissions db (role_id s))"
      by (auto simp: l)
    then show ?thesis using rd Some inj [OF _ r(1)] r(3) by auto
  qed
qed

lemma assigned_members_iff:
  assumes ok: "access_ok db"
  shows "rd \<in> set (assigned_members_for_agent db a) \<longleftrightarrow>
    (\<exists>m u x r. (m, u) \<in> set (get_members_with_users db (agent_organization_id a)) \<and> mem_role m = MEMBER \<and>
      x \<in> set (agent_accesses db) \<and> acc_agent_id x = agent_id a \<and> acc_organization_id x = agent_organization_id a \<and>
      acc_membership_id x = mem_id m \<and> get_agent_access_role db (acc_access_role_id x) (agent_organization_id a) = Some r \<and>
      rd = to_assignment a m u (role_to_read r (get_agent_access_role_permissions db (role_id r))))"
proof -
  have keyed: "distinct (map acc_membership_id (find_access_assignments db (agent_id a) (agent_organization_id a)))"
    unfolding find_access_assignments_def using ok agent_rows_keyed by (simp add: access_ok_def)
  have row: "map_of (existing_by_membership (find_access_assignments db (agent_id a) (agent_organization_id a))) i = Some x \<longleftrightarrow>
      x \<in> set (agent_accesses db) \<and> acc_agent_id x = agent_id a \<and> acc_organization_id x = agent_organization_id a \<and> acc_membership_id x = i" for i x
    unfolding existing_by_membership_keyed [OF keyed]
    using keyed by (subst map_of_eq_Some_iff) (auto simp: o_def find_access_assignments_def)
  let ?E = "existing_by_membership (find_access_assignments db (agent_id a) (agent_organization_id a))"
  let ?role = "\<lambda>i. get_agent_access_role db i (agent_organization_id a)"
  let ?rd = "\<lambda>r. role_to_read r (get_agent_access_role_permissions db (role_id r))"
  have piece: "rd \<in> set (case map_of ?E (mem_id m) of None \<Rightarrow> [] | Some acc \<Rightarrow> if mem_role m \<noteq> MEMBER then []
      else (case map_option ?rd (?role (acc_access_role_id acc)) of None \<Rightarrow> [] | Some r \<Rightarrow> [to_assignment a m u r])) \<longleftrightarrow>
    mem_role m = MEMBER \<and> (\<exists>x r. map_of ?E (mem_id m) = Some x \<and> ?role (acc_access_role_id x) = Some r \<and> rd = to_assignment a m u (?rd r))" for m u
    by (cases "map_of ?E (mem_id m)"; cases "?role (acc_access_role_id (the (map_of ?E (mem_id m))))") auto
  show ?thesis
    unfolding assigned_members_for_agent_def Let_def listed_role [OF ok] set_concat set_map image_image UN_iff Bex_def split_paired_Ex prod.case piece row
    by blast
qed

lemma assignment_read_eq:
  "get_member_with_user db (asg_user_id x) (agent_organization_id a) = Some (m, u) \<Longrightarrow>
   get_agent_access_role db (asg_access_role_id x) (agent_organization_id a) = Some r \<Longrightarrow>
   assignment_read db a x = to_assignment a m u (role_to_read r (get_agent_access_role_permissions db (role_id r)))"
  by (simp add: assignment_read_def require_access_role_def)

lemma assignment_reads_iff:
  assumes ok: "access_ok db" and xs: "\<forall>x \<in> set xs. assignable db (agent_organization_id a) x"
  shows "rd \<in> assignment_read db a ` set xs \<longleftrightarrow>
    (\<exists>m u. (m, u) \<in> set (get_members_with_users db (agent_organization_id a)) \<and> mem_role m = MEMBER \<and>
      (\<exists>role. (mem_id m, role) \<in> set (wanted_roles db a xs) \<and>
        (\<exists>r. get_agent_access_role db role (agent_organization_id a) = Some r \<and>
          rd = to_assignment a m u (role_to_read r (get_agent_access_role_permissions db (role_id r))))))" (is "_ \<longleftrightarrow> ?shown")
proof
  assume "rd \<in> assignment_read db a ` set xs"
  then obtain x where x: "x \<in> set xs" "rd = assignment_read db a x" by blast
  then obtain m u r where m: "get_member_with_user db (asg_user_id x) (agent_organization_id a) = Some (m, u)" "mem_role m = MEMBER"
      "get_agent_access_role db (asg_access_role_id x) (agent_organization_id a) = Some r"
    using xs unfolding assignable_def by blast
  then have "(mem_id m, asg_access_role_id x) \<in> set (wanted_roles db a xs)"
    unfolding wanted_for [OF ok xs get_member_Some(1) [OF m(1)]] using x get_member_Some(2) [OF m(1)] by blast
  then show ?shown using x(2) m assignment_read_eq [OF m(1,3)] get_member_Some(1) [OF m(1)] by blast
next
  assume ?shown
  then obtain m u role r where m: "(m, u) \<in> set (get_members_with_users db (agent_organization_id a))"
      "(mem_id m, role) \<in> set (wanted_roles db a xs)" "get_agent_access_role db role (agent_organization_id a) = Some r"
      "rd = to_assignment a m u (role_to_read r (get_agent_access_role_permissions db (role_id r)))" by blast
  then obtain x where x: "x \<in> set xs" "mem_user_id m = Some (asg_user_id x)" "asg_access_role_id x = role"
    using wanted_for [OF ok xs m(1)] by blast
  then have "get_member_with_user db (asg_user_id x) (agent_organization_id a) = Some (m, u)" using get_member_iff [OF ok] m(1) by blast
  then have "rd = assignment_read db a x" using assignment_read_eq m(3,4) x(3) by simp
  then show "rd \<in> assignment_read db a ` set xs" using x(1) by blast
qed

text \<open>
  C23. The dialog tells the truth: whoever reads the access settings of an Agent after they have been
  replaced is shown the General Access role and exactly the assignments that the
  replacement was answered with.
\<close>

theorem answer_is_what_is_shown:
  assumes ok: "access_ok (sh_access db)"
    and rep: "replace_access_settings reg new_ids cid accepts now aid upd ctx (db, queue) = ((db', queue'), Inr answer)"
    and get: "get_access_settings (sh_access db') ctx' aid = Inr rd"
  shows "read_general_access rd = read_general_access answer \<and> set (read_assignments rd) = set (read_assignments answer)"
proof -
  let ?acc = "sh_access db" and ?acc' = "sh_access db'" and ?general = "upd_general_access_role_id upd" and ?xs = "upd_assignments upd"
  obtain a t where plan: "plan_replace ?acc ctx aid upd = Inr (a, wanted_roles ?acc a ?xs @
      map (\<lambda>x. (acc_membership_id x, acc_access_role_id x)) (hidden_rows ?acc a), answer)"
    and a: "a \<in> set (agents ?acc)" "agent_id a = aid"
    and acc': "?acc' = ?acc\<lparr>agents := row_put agent_id (a\<lparr>general_access_role_id := ?general\<rparr>) (agents ?acc), agent_accesses := t\<rparr>"
    and t: "set t = {x \<in> set (agent_accesses ?acc). acc_agent_id x \<noteq> aid} \<union>
      (\<lambda>(mid, role). access_row (agent_organization_id a) aid mid role) ` set (wanted_roles ?acc a ?xs) \<union> set (hidden_rows ?acc a)"
    using replace_effect [OF ok rep] .
  note ok' = replace_ok [OF ok rep] and p = plan_replace_Inr [OF ok plan]
  let ?a = "a\<lparr>general_access_role_id := ?general\<rparr>" and ?org = "agent_organization_id a"
  obtain b where b: "require_manage_access ?acc' ctx' aid = Inr b"
    and rd: "rd = \<lparr>read_general_access = general_access_role_read ?acc' b, read_assignments = assigned_members_for_agent ?acc' b\<rparr>"
    using get by (auto simp: get_access_settings_def bind_result_Inr)
  have "b \<in> set (agents ?acc')" "agent_id b = aid"
    using b require_action_iff [of ?acc' ctx' aid AGENT_ACCESS_MANAGE _ b] ok' by (auto simp: require_manage_access_def access_ok_def)
  then have ba: "b = ?a" using a by (auto simp: acc' row_put_def split: if_splits)
  have same: "get_members_with_users ?acc' = get_members_with_users ?acc" "get_agent_access_role ?acc' = get_agent_access_role ?acc"
    "get_agent_access_role_permissions ?acc' = get_agent_access_role_permissions ?acc"
    by (auto simp: acc' get_members_with_users_def get_agent_access_role_def get_agent_access_role_permissions_def fun_eq_iff)
  have to: "to_assignment ?a = to_assignment a" by (simp add: to_assignment_def fun_eq_iff)
  let ?shows = "\<lambda>rd m u role. \<exists>r. get_agent_access_role ?acc role ?org = Some r \<and>
    rd = to_assignment a m u (role_to_read r (get_agent_access_role_permissions ?acc (role_id r)))"
  have xs: "\<forall>x \<in> set ?xs. assignable ?acc ?org x" using p by blast
  have "rd \<in> set (assigned_members_for_agent ?acc' ?a) \<longleftrightarrow>
      (\<exists>m u. (m, u) \<in> set (get_members_with_users ?acc ?org) \<and> mem_role m = MEMBER \<and>
        (\<exists>x \<in> set t. acc_agent_id x = aid \<and> acc_organization_id x = ?org \<and> acc_membership_id x = mem_id m \<and> ?shows rd m u (acc_access_role_id x)))"
    (is "_ \<longleftrightarrow> (\<exists>m u. _ \<and> _ \<and> ?row rd m u)") for rd
  proof -
    have rows: "agent_accesses ?acc' = t" "agent_id ?a = aid" "agent_organization_id ?a = ?org" using a by (simp_all add: acc')
    show ?thesis unfolding assigned_members_iff [OF ok'] same to rows by blast
  qed
  moreover have "?row rd m u \<longleftrightarrow> (\<exists>role. (mem_id m, role) \<in> set (wanted_roles ?acc a ?xs) \<and> ?shows rd m u role)"
    if "(m, u) \<in> set (get_members_with_users ?acc ?org)" "mem_role m = MEMBER" for rd m u
    using that(1) by (intro member_rows [OF ok t _ that(2)]) (simp add: members_iff)
  ultimately have "rd \<in> set (assigned_members_for_agent ?acc' ?a) \<longleftrightarrow> rd \<in> assignment_read ?acc a ` set ?xs" for rd
    unfolding assignment_reads_iff [OF ok xs] by blast
  moreover have "general_access_role_read ?acc' ?a = read_general_access answer"
    using p by (auto simp: general_access_role_read_def require_general_access_role_def require_access_role_def same
        bind_result_Inr split: option.splits)
  ultimately show ?thesis using p by (auto simp: rd ba)
qed

section \<open>A small installation\<close>

text \<open>The payload model is a parameter; the one here keeps the reference to the Organization only.\<close>

definition sharing_definition :: "string \<Rightarrow> domain_event_definition" where
  "sharing_definition name =
    \<lparr>def_event_name = name, def_schema_version = 1, def_payload_model = (\<lambda>_. Dumped demo_payload),
     def_handler_names = [''security_audit.projection''], def_event_scope = Some ScopeOrganization\<rparr>"

definition demo_sharing_registry :: event_registry where
  "demo_sharing_registry =
    \<lparr>registry_definitions = map sharing_definition
       [''agent.general_access.changed'', ''agent.access.revoked'', ''agent.access.granted''],
     registry_max_payload_bytes = MAX_PAYLOAD_BYTES\<rparr>"

definition demo_share_db :: share_db where
  "demo_share_db =
    \<lparr>sh_access =
       \<lparr>permission_rows = [(the (PERMISSION_ID_BY_KEY AGENT_READ), permission_value AGENT_READ)],
        access_role_rows = [\<lparr>role_id = 5, role_organization_id = Some 7, role_name = ''R'', role_is_system = False\<rparr>],
        role_permission_rows = [(5, the (PERMISSION_ID_BY_KEY AGENT_READ))],
        agents = [demo_agent 20 7 (Some 5)],
        agent_accesses = [access_row 7 20 12 5],
        memberships = [demo_membership 1 7 OWNER, demo_membership 2 7 MEMBER],
        users = [demo_user 1 True, demo_user 2 True]\<rparr>,
     sh_events = empty_event_db\<rparr>"

definition demo_update :: access_settings_update where
  "demo_update = \<lparr>upd_general_access_role_id = None, upd_assignments = [\<lparr>asg_user_id = 2, asg_access_role_id = 5\<rparr>]\<rparr>"

lemma demo_manage:
  assumes "agents db = [demo_agent 20 7 g]"
  shows "require_manage_access db (demo_context 1 OWNER True) 20 = Inr (demo_agent 20 7 g)"
proof -
  have keyed: "agents_keyed db" by (simp add: agents_keyed_def assms)
  show ?thesis
    unfolding require_manage_access_def require_action_iff [OF keyed]
    by (simp add: assms holds_permission_def demo_context_def demo_membership_def demo_agent_def IMPLICIT_AGENT_OWNER_ROLES_def OWNER_KEYS_def)
qed

lemma demo_member: "get_member_with_user (sh_access demo_share_db) 2 7 = Some (demo_membership 2 7 MEMBER, demo_user 2 True)"
  by (simp add: get_member_with_user_def get_members_with_users_def demo_share_db_def demo_membership_def demo_user_def row_get_def)

lemma demo_role: "get_agent_access_role (sh_access demo_share_db) 5 7 =
    Some \<lparr>role_id = 5, role_organization_id = Some 7, role_name = ''R'', role_is_system = False\<rparr>"
  by (simp add: get_agent_access_role_def demo_share_db_def role_available_def)

definition demo_answer :: access_settings_read where
  "demo_answer = \<lparr>read_general_access = None,
    read_assignments = [assignment_read (sh_access demo_share_db) (demo_agent 20 7 (Some 5)) \<lparr>asg_user_id = 2, asg_access_role_id = 5\<rparr>]\<rparr>"

lemma demo_general: "upd_general_access_role_id demo_update = None"
  by (simp add: demo_update_def)

lemma demo_plan: "plan_replace (sh_access demo_share_db) (demo_context 1 OWNER True) 20 demo_update = Inr (demo_agent 20 7 (Some 5), [(12, 5)], demo_answer)"
proof -
  have "require_accepted_member (sh_access demo_share_db) 2 7 = Inr (demo_membership 2 7 MEMBER, demo_user 2 True)"
    by (simp add: require_accepted_member_def demo_member demo_membership_def demo_user_def)
  then have "collect_assignments (sh_access demo_share_db) (demo_agent 20 7 (Some 5)) (upd_assignments demo_update) {} [] [] =
      Inr ([(12, 5)], read_assignments demo_answer)"
    by (simp add: demo_update_def demo_answer_def demo_agent_def demo_membership_def require_access_role_def demo_role assignment_read_def demo_member)
  moreover have "preserve_hidden_assignments (sh_access demo_share_db) (demo_agent 20 7 (Some 5)) [(12, 5)] = [(12, 5)]"
    by (simp add: preserve_hidden_assignments_def find_access_assignments_def demo_share_db_def demo_agent_def)
  moreover have "agents (sh_access demo_share_db) = [demo_agent 20 7 (Some 5)]" by (simp add: demo_share_db_def)
  ultimately show ?thesis
    by (simp add: plan_replace_def demo_manage require_general_access_role_def demo_general demo_answer_def del: One_nat_def)
qed

text \<open>The transaction of this call stages one event, of the change of General Access.\<close>

definition demo_call :: share_call where
  "demo_call =
    \<lparr>sc_registry = demo_sharing_registry, sc_new_ids = (\<lambda>k i. 30 + 10 * k + i), sc_now = 5, sc_organization_id = 7,
     sc_actor = resolve_actor_identity (demo_context 1 OWNER True) 7, sc_actor_display = user_email (ctx_user (demo_context 1 OWNER True)),
     sc_correlation_id = 1\<rparr>"

lemma demo_changed: "\<exists>ev. build_event demo_sharing_registry 30 (general_access_event demo_call (demo_agent 20 7 (Some 5)) None) = Inr ev \<and>
    ev_event_id ev = 30 \<and> ev_event_name ev = ''agent.general_access.changed'' \<and> ev_schema_version ev = 1 \<and>
    ev_event_scope ev = ScopeOrganization \<and> ev_organization_id ev = Some 7"
proof -
  have "safe_event (registry_max_payload_bytes demo_event_registry) demo_event"
    using demo_build_event unfolding build_event_Inr by (elim exE conjE)
  then have "safe_event MAX_PAYLOAD_BYTES demo_event" by (simp add: demo_event_registry_def)
  then have "is_json_object demo_payload" "storable_json demo_payload" "length (json_dumps demo_payload) \<le> MAX_PAYLOAD_BYTES"
      "\<forall>es \<in> set (all_dicts demo_payload). reference_in_scope ScopeOrganization (Some 7) es"
    by (simp_all add: safe_event_def demo_event_def)
  then show ?thesis
    unfolding build_event_Inr safe_event_def
    by (simp add: event_registry_get_Inr demo_sharing_registry_def sharing_definition_def definition_key_def row_get_def general_access_event_def access_event_def
      demo_call_def demo_agent_def resolved_scope_def identity_in_scope_def identity_organization_id_def is_json_object_def resolve_actor_identity_def demo_context_def)
qed

lemma demo_staged:
  assumes "sh_events db = empty_event_db"
  shows "\<exists>db' staged. stage_event demo_call (general_access_event demo_call (demo_agent 20 7 (Some 5)) None) (db, []) = Inr (db', staged) \<and>
    sh_access db' = sh_access db"
proof -
  obtain ev where ev: "build_event demo_sharing_registry 30 (general_access_event demo_call (demo_agent 20 7 (Some 5)) None) = Inr ev"
      "ev_event_id ev = 30" "ev_event_name ev = ''agent.general_access.changed''" "ev_schema_version ev = 1"
      "ev_event_scope ev = ScopeOrganization" "ev_organization_id ev = Some 7"
    using demo_changed by (elim exE conjE) (rule that)
  obtain events m where "outbox_stage (\<lambda>i. 30 + Suc i) 5 ev demo_sharing_registry empty_event_db = Inr (events, m)"
    using ev(2-6) by (simp add: outbox_stage_def insert_message_def insert_delivery_def handler_names_for_def event_registry_get_def
      row_get_def row_add_def empty_event_db_def demo_sharing_registry_def sharing_definition_def definition_key_def build_message_def
      scope_matches_organization_def build_deliveries_def new_delivery_def raise_if_def Let_def)
  then show ?thesis using ev(1) assms by (simp add: stage_event_def demo_call_def)
qed

lemma demo_repository: "\<exists>db' ids. repository_replace demo_call 20 None [(12, 5)] demo_share_db = Inr (Some (db', ids)) \<and>
    sh_access db' = (sh_access demo_share_db)\<lparr>agents := [demo_agent 20 7 None]\<rparr>"
proof -
  let ?db = "demo_share_db\<lparr>sh_access := (sh_access demo_share_db)\<lparr>agents := [demo_agent 20 7 None]\<rparr>\<rparr>"
  have "sh_events ?db = empty_event_db" by (simp add: demo_share_db_def)
  then obtain db' staged where s: "stage_event demo_call (general_access_event demo_call (demo_agent 20 7 (Some 5)) None) (?db, []) = Inr (db', staged)"
    and acc: "sh_access db' = sh_access ?db"
    using demo_staged by blast
  have a: "agents (sh_access demo_share_db) = [demo_agent 20 7 (Some 5)]" "demo_agent 20 7 (Some 5)\<lparr>general_access_role_id := None\<rparr> = demo_agent 20 7 None"
    "agent_id (demo_agent 20 7 g) = 20" "agent_organization_id (demo_agent 20 7 g) = 7" "agent_deleted_at (demo_agent 20 7 g) = None"
    "general_access_role_id (demo_agent 20 7 g) = g" for g
    by (simp_all add: demo_share_db_def demo_agent_def)
  have c: "sc_organization_id demo_call = 7" by (simp add: demo_call_def)
  have e: "existing_by_membership (find_access_assignments (sh_access demo_share_db) 20 7) = [(12, access_row 7 20 12 5)]"
    by (simp add: existing_by_membership_def find_access_assignments_def demo_share_db_def)
  have x: "roles_exist (sh_access demo_share_db) 7 {5}" "memberships_exist (sh_access demo_share_db) 7 {12}"
    by (simp_all add: roles_exist_def memberships_exist_def demo_share_db_def role_available_def demo_membership_def)
  show ?thesis
    using s acc by (simp add: repository_replace_def Let_def c a row_put_def e x)
qed

lemma demo_shared: "\<exists>db' queue'. replace_access_settings demo_sharing_registry (\<lambda>k i. 30 + 10 * k + i) 1 (\<lambda>_. True) 5 20 demo_update
    (demo_context 1 OWNER True) (demo_share_db, []) = ((db', queue'), Inr demo_answer) \<and>
    sh_access db' = (sh_access demo_share_db)\<lparr>agents := [demo_agent 20 7 None]\<rparr>"
proof -
  obtain db' ids where r: "repository_replace demo_call 20 None [(12, 5)] demo_share_db = Inr (Some (db', ids))"
    and acc: "sh_access db' = (sh_access demo_share_db)\<lparr>agents := [demo_agent 20 7 None]\<rparr>"
    using demo_repository by blast
  obtain events queue' where q: "enqueue_immediate (\<lambda>_. True) 5 ids (sh_events db', []) = (events, queue')" by force
  have a: "agent_id (demo_agent 20 7 g) = 20" "agent_organization_id (demo_agent 20 7 g) = 7" for g by (simp_all add: demo_agent_def)
  show ?thesis
    using r acc q by (simp add: replace_access_settings_def demo_plan demo_general a demo_call_def del: One_nat_def)
qed

lemma demo_access_ok: "access_ok (sh_access demo_share_db)"
  by (simp add: access_ok_def agents_keyed_def demo_share_db_def demo_membership_def demo_agent_def)

theorem sharing_takes_effect_witness:
  "\<exists>db' queue'. replace_access_settings demo_sharing_registry (\<lambda>k i. 30 + 10 * k + i) 1 (\<lambda>_. True) 5 20 demo_update
      (demo_context 1 OWNER True) (demo_share_db, []) = ((db', queue'), Inr demo_answer) \<and>
    holds_permission (sh_access db') (demo_membership 2 7 MEMBER) (demo_user 2 True) AGENT_READ (demo_agent 20 7 None)"
proof -
  obtain db' queue' where r: "replace_access_settings demo_sharing_registry (\<lambda>k i. 30 + 10 * k + i) 1 (\<lambda>_. True) 5 20 demo_update
      (demo_context 1 OWNER True) (demo_share_db, []) = ((db', queue'), Inr demo_answer)"
    and acc: "sh_access db' = (sh_access demo_share_db)\<lparr>agents := [demo_agent 20 7 None]\<rparr>" using demo_shared by blast
  have m: "(demo_membership 2 7 MEMBER, demo_user 2 True) \<in> set (get_members_with_users (sh_access demo_share_db) 7)"
    using get_member_Some(1) [OF demo_member] .
  have "role_grants (sh_access demo_share_db) 5 AGENT_READ"
    using permission_id_total [of AGENT_READ] by (auto simp: role_grants_def demo_share_db_def)
  then have "holds_permission (sh_access db') (demo_membership 2 7 MEMBER) (demo_user 2 True) AGENT_READ (demo_agent 20 7 None)"
    using sharing_takes_effect [OF demo_access_ok r] m unfolding acc
    by (auto simp: demo_update_def demo_agent_def demo_membership_def)
  with r show ?thesis by blast
qed

theorem only_managers_share_witness:
  "\<exists>a \<in> set (agents (sh_access demo_share_db)). agent_id a = 20 \<and> caller_holds (sh_access demo_share_db) (demo_context 1 OWNER True) AGENT_ACCESS_MANAGE a"
proof -
  have "(sh_access demo_share_db)\<lparr>agents := [demo_agent 20 7 None]\<rparr> \<noteq> sh_access demo_share_db"
    by (simp add: demo_share_db_def demo_agent_def)
  then have "fst (replace_access_settings demo_sharing_registry (\<lambda>k i. 30 + 10 * k + i) 1 (\<lambda>_. True) 5 20 demo_update
      (demo_context 1 OWNER True) (demo_share_db, [])) \<noteq> (demo_share_db, [])"
    using demo_shared by auto
  from only_managers_share [OF demo_access_ok this] show ?thesis by blast
qed

theorem answer_is_what_is_shown_witness:
  "\<exists>db' queue' rd. replace_access_settings demo_sharing_registry (\<lambda>k i. 30 + 10 * k + i) 1 (\<lambda>_. True) 5 20 demo_update
      (demo_context 1 OWNER True) (demo_share_db, []) = ((db', queue'), Inr demo_answer) \<and>
    get_access_settings (sh_access db') (demo_context 1 OWNER True) 20 = Inr rd \<and> set (read_assignments rd) = set (read_assignments demo_answer)"
proof -
  obtain db' queue' where r: "replace_access_settings demo_sharing_registry (\<lambda>k i. 30 + 10 * k + i) 1 (\<lambda>_. True) 5 20 demo_update
      (demo_context 1 OWNER True) (demo_share_db, []) = ((db', queue'), Inr demo_answer)"
    and acc: "sh_access db' = (sh_access demo_share_db)\<lparr>agents := [demo_agent 20 7 None]\<rparr>" using demo_shared by blast
  have "require_manage_access (sh_access db') (demo_context 1 OWNER True) 20 = Inr (demo_agent 20 7 None)"
    by (rule demo_manage) (simp add: acc)
  then obtain rd where "get_access_settings (sh_access db') (demo_context 1 OWNER True) 20 = Inr rd"
    unfolding get_access_settings_def by simp
  with answer_is_what_is_shown [OF demo_access_ok r this] r show ?thesis by blast
qed

end
