(* ===== verification/Workflow_Definitions.thy ===== *)
theory Workflow_Definitions
  imports Agent_Authorization Event_Outbox
begin

text \<open>
  Workflow definitions (\<open>api/domains/workflows/models.py\<close>, \<open>repository.py\<close>, \<open>service.py\<close>,
  \<open>platform_repository.py\<close>, \<open>platform_service.py\<close>): drafts and their validation, saved versions
  under optimistic concurrency, the authoring service and the installation-wide switch.
\<close>

section \<open>Drafts\<close>

datatype input_type = InputText | InputNumber | InputBoolean

datatype capability = CapReasoning | CapBusinessAction | CapNativeCommand

record workflow_input =
  in_key :: string
  in_label :: string
  in_description :: string
  in_type :: input_type
  in_required :: bool

record workflow_step =
  step_id :: uuid
  step_name :: string
  step_goal :: string
  step_completion_criteria :: string
  step_artifact_description :: "string option"
  step_required_capabilities :: "capability list"

record workflow_draft =
  draft_name :: string
  draft_description :: string
  draft_steps :: "workflow_step list"
  draft_inputs :: "workflow_input list"
  draft_final_artifact_description :: "string option"

text \<open>\<open>Text\<close> and \<open>Name\<close>: the stripped text, with at least one and at most 4000 or 200 characters.\<close>

definition constrained :: "nat \<Rightarrow> string \<Rightarrow> string \<Rightarrow> string result" where
  "constrained max_length field s =
    (let t = strip_by white_space s
     in bind_result (raise_if (t = [] \<or> max_length < length t) (ValueError field)) (\<lambda>_. Inr t))"

abbreviation text_field :: "string \<Rightarrow> string \<Rightarrow> string result" where
  "text_field \<equiv> constrained 4000"

abbreviation name_field :: "string \<Rightarrow> string \<Rightarrow> string result" where
  "name_field \<equiv> constrained 200"

definition optional_text :: "string \<Rightarrow> string option \<Rightarrow> string option result" where
  "optional_text field v =
    (case v of None \<Rightarrow> Inr None | Some s \<Rightarrow> bind_result (text_field field s) (\<lambda>t. Inr (Some t)))"

text \<open>The pattern of an input key: a lower-case letter and at most 63 letters, digits, underscores or hyphens.\<close>

definition key_char :: "char \<Rightarrow> bool" where
  "key_char c \<longleftrightarrow> (CHR ''a'' \<le> c \<and> c \<le> CHR ''z'') \<or> (CHR ''0'' \<le> c \<and> c \<le> CHR ''9'') \<or> c = CHR ''_'' \<or> c = CHR ''-''"

fun input_key_pattern :: "string \<Rightarrow> bool" where
  "input_key_pattern [] = False"
| "input_key_pattern (c # cs) \<longleftrightarrow> CHR ''a'' \<le> c \<and> c \<le> CHR ''z'' \<and> length cs \<le> 63 \<and> list_all key_char cs"

definition validate_input :: "workflow_input \<Rightarrow> workflow_input result" where
  "validate_input i =
    bind_result (raise_if (\<not> input_key_pattern (in_key i)) (ValueError ''key'')) (\<lambda>_.
    bind_result (name_field ''label'' (in_label i)) (\<lambda>label.
    bind_result (text_field ''description'' (in_description i)) (\<lambda>description.
    Inr (i\<lparr>in_label := label, in_description := description\<rparr>))))"

definition validate_step :: "workflow_step \<Rightarrow> workflow_step result" where
  "validate_step s =
    bind_result (name_field ''name'' (step_name s)) (\<lambda>name.
    bind_result (text_field ''goal'' (step_goal s)) (\<lambda>goal.
    bind_result (text_field ''completion_criteria'' (step_completion_criteria s)) (\<lambda>criteria.
    bind_result (optional_text ''artifact_description'' (step_artifact_description s)) (\<lambda>artifact.
    bind_result (raise_if (step_required_capabilities s = [] \<or> 3 < length (step_required_capabilities s))
      (ValueError ''required_capabilities'')) (\<lambda>_.
    Inr (s\<lparr>step_name := name, step_goal := goal, step_completion_criteria := criteria,
      step_artifact_description := artifact\<rparr>))))))"

fun map_result :: "('a \<Rightarrow> 'b result) \<Rightarrow> 'a list \<Rightarrow> 'b list result" where
  "map_result f [] = Inr []"
| "map_result f (x # xs) = bind_result (f x) (\<lambda>y. bind_result (map_result f xs) (\<lambda>ys. Inr (y # ys)))"

text \<open>\<open>_require_unique\<close>: \<open>first\<close> is the dict from the values met so far to the index they had.\<close>

fun require_unique_from :: "nat \<Rightarrow> (string \<times> nat) list \<Rightarrow> string list \<Rightarrow> string \<Rightarrow> string \<Rightarrow> unit result" where
  "require_unique_from index first [] noun attr = Inr ()"
| "require_unique_from index first (v # vs) noun attr =
    (case map_of first v of
       Some i \<Rightarrow> Inl (ValueError (noun @ '' '' @ nat_str i @ '' and '' @ nat_str index @ '' share the '' @ attr @
         [CHR '' '', CHR 0x27] @ v @ [CHR 0x27] @ ''; each must be unique''))
     | None \<Rightarrow> require_unique_from (Suc index) ((v, index) # first) vs noun attr)"

definition require_unique :: "string list \<Rightarrow> string \<Rightarrow> string \<Rightarrow> unit result" where
  "require_unique values noun attr = require_unique_from 1 [] values noun attr"

text \<open>
  The validation of a draft in the order of its fields. pydantic reports all violations
  at once; the model reports the first.
\<close>

definition validate_draft :: "workflow_draft \<Rightarrow> workflow_draft result" where
  "validate_draft d =
    bind_result (name_field ''name'' (draft_name d)) (\<lambda>name.
    bind_result (text_field ''description'' (draft_description d)) (\<lambda>description.
    bind_result (raise_if (draft_steps d = [] \<or> 50 < length (draft_steps d)) (ValueError ''steps'')) (\<lambda>_.
    bind_result (map_result validate_step (draft_steps d)) (\<lambda>steps.
    bind_result (require_unique (map (\<lambda>s. uuid_str (step_id s)) steps) ''Steps'' ''id'') (\<lambda>_.
    bind_result (raise_if (30 < length (draft_inputs d)) (ValueError ''inputs'')) (\<lambda>_.
    bind_result (map_result validate_input (draft_inputs d)) (\<lambda>inputs.
    bind_result (require_unique (map in_key inputs) ''Inputs'' ''key'') (\<lambda>_.
    bind_result (optional_text ''final_artifact_description'' (draft_final_artifact_description d)) (\<lambda>artifact.
    Inr (d\<lparr>draft_name := name, draft_description := description, draft_steps := steps, draft_inputs := inputs,
      draft_final_artifact_description := artifact\<rparr>))))))))))"

section \<open>Tables\<close>

record workflow =
  wf_id :: uuid
  wf_created_at :: datetime
  wf_agent_id :: uuid
  wf_revision :: nat
  wf_archived_at :: "datetime option"

text \<open>The JSONB column \<open>snapshot\<close> is the dump of a draft and is read back as that draft.\<close>

record workflow_version =
  ver_id :: uuid
  ver_created_at :: datetime
  ver_workflow_id :: uuid
  ver_number :: nat
  ver_snapshot :: workflow_draft
  ver_created_by_user_id :: "uuid option"

record platform_workflow_settings =
  pws_authoring_enabled :: bool
  pws_updated_at :: datetime
  pws_updated_by :: "uuid option"

record workflow_db =
  wdb_access :: access_db
  wdb_events :: event_db
  wdb_settings :: "platform_workflow_settings option"
  workflows :: "workflow list"
  workflow_versions :: "workflow_version list"

section \<open>Queries\<close>

text \<open>The join of a workflow with its Agent under the scope predicates.\<close>

definition workflow_agent_in :: "'a workflow_db_scheme \<Rightarrow> (agent \<Rightarrow> bool) \<Rightarrow> workflow \<Rightarrow> bool" where
  "workflow_agent_in db P w \<longleftrightarrow> (\<exists>a \<in> set (agents (wdb_access db)). agent_id a = wf_agent_id w \<and> P a)"

definition get_in_scope :: "'a workflow_db_scheme \<Rightarrow> uuid \<Rightarrow> uuid \<Rightarrow> authz_scope \<Rightarrow> workflow option result" where
  "get_in_scope db workflow_id aid scope =
    bind_result (agent_scope_predicates (wdb_access db) scope False) (\<lambda>P.
    Inr (find (\<lambda>w. wf_id w = workflow_id \<and> wf_agent_id w = aid \<and> workflow_agent_in db P w) (workflows db)))"

definition version_in_scope ::
  "'a workflow_db_scheme \<Rightarrow> uuid \<Rightarrow> uuid \<Rightarrow> uuid \<Rightarrow> authz_scope \<Rightarrow> workflow_version option result" where
  "version_in_scope db version_id workflow_id aid scope =
    bind_result (agent_scope_predicates (wdb_access db) scope False) (\<lambda>P.
    Inr (find (\<lambda>v. ver_id v = version_id \<and> ver_workflow_id v = workflow_id \<and>
      (\<exists>w \<in> set (workflows db). wf_id w = workflow_id \<and> wf_agent_id w = aid \<and> workflow_agent_in db P w))
      (workflow_versions db)))"

text \<open>\<open>offset((page - 1) * size).limit(size)\<close>, for pages from 1.\<close>

definition page_of :: "nat \<Rightarrow> nat \<Rightarrow> 'a list \<Rightarrow> 'a list" where
  "page_of page page_size xs = take page_size (drop ((page - 1) * page_size) xs)"

text \<open>\<open>ORDER BY f DESC\<close>.\<close>

definition sort_desc :: "('a \<Rightarrow> int) \<Rightarrow> 'a list \<Rightarrow> 'a list" where
  "sort_desc f xs = sort_key (\<lambda>x. - f x) xs"

definition versions_in_scope ::
  "'a workflow_db_scheme \<Rightarrow> uuid \<Rightarrow> uuid \<Rightarrow> authz_scope \<Rightarrow> nat \<Rightarrow> nat \<Rightarrow> nat option
    \<Rightarrow> (workflow_version list \<times> nat) result" where
  "versions_in_scope db workflow_id aid scope page page_size max_number =
    bind_result (agent_scope_predicates (wdb_access db) scope False) (\<lambda>P.
    let rows = row_where (\<lambda>v. ver_workflow_id v = workflow_id \<and>
          (\<exists>w \<in> set (workflows db). wf_id w = workflow_id \<and> wf_agent_id w = aid \<and> workflow_agent_in db P w) \<and>
          (case max_number of None \<Rightarrow> True | Some n \<Rightarrow> ver_number v \<le> n)) (workflow_versions db)
    in Inr (page_of page page_size (sort_desc (\<lambda>v. int (ver_number v)) rows), length rows))"

record workflow_summary_row =
  sr_workflow :: workflow
  sr_version :: workflow_version
  sr_step_count :: nat
  sr_input_count :: nat

definition versions_of :: "'a workflow_db_scheme \<Rightarrow> uuid \<Rightarrow> workflow_version list" where
  "versions_of db workflow_id = row_where (\<lambda>v. ver_workflow_id v = workflow_id) (workflow_versions db)"

text \<open>The latest version of a workflow: the one whose number is the maximum (the join with \<open>latest\<close>).\<close>

definition latest_versions :: "'a workflow_db_scheme \<Rightarrow> uuid \<Rightarrow> workflow_version list" where
  "latest_versions db workflow_id =
    (let vs = versions_of db workflow_id
     in row_where (\<lambda>v. \<forall>x \<in> set vs. ver_number x \<le> ver_number v) vs)"

definition list_in_scope ::
  "'a workflow_db_scheme \<Rightarrow> uuid \<Rightarrow> authz_scope \<Rightarrow> nat \<Rightarrow> nat \<Rightarrow> (workflow_summary_row list \<times> nat) result" where
  "list_in_scope db aid scope page page_size =
    bind_result (agent_scope_predicates (wdb_access db) scope False) (\<lambda>P.
    let ws = row_where (\<lambda>w. wf_agent_id w = aid \<and> workflow_agent_in db P w) (workflows db);
        rows = concat (map (\<lambda>w. map (\<lambda>v. \<lparr>sr_workflow = w, sr_version = v,
                 sr_step_count = length (draft_steps (ver_snapshot v)),
                 sr_input_count = length (draft_inputs (ver_snapshot v))\<rparr>) (latest_versions db (wf_id w))) ws);
        ordered = sort_desc (\<lambda>r. wf_created_at (sr_workflow r)) (sort_key (\<lambda>r. wf_id (sr_workflow r)) rows)
    in Inr (page_of page page_size ordered, length ws))"

section \<open>Saving\<close>

definition insert_workflow :: "workflow \<Rightarrow> 'a workflow_db_scheme \<Rightarrow> 'a workflow_db_scheme result" where
  "insert_workflow w db =
    bind_result (raise_if (row_get wf_id (wf_id w) (workflows db) \<noteq> None) (IntegrityError ''workflow_pkey'')) (\<lambda>_.
    Inr (db\<lparr>workflows := row_add w (workflows db)\<rparr>))"

definition insert_version :: "workflow_version \<Rightarrow> 'a workflow_db_scheme \<Rightarrow> 'a workflow_db_scheme result" where
  "insert_version v db =
    bind_result (raise_if (row_get ver_id (ver_id v) (workflow_versions db) \<noteq> None)
      (IntegrityError ''workflow_version_pkey'')) (\<lambda>_.
    bind_result (raise_if (\<exists>x \<in> set (workflow_versions db). ver_workflow_id x = ver_workflow_id v \<and> ver_number x = ver_number v)
      (IntegrityError ''uq_workflow_version_number'')) (\<lambda>_.
    Inr (db\<lparr>workflow_versions := row_add v (workflow_versions db)\<rparr>)))"

text \<open>
  \<open>WorkflowRepository.create\<close> and \<open>save_version\<close>: one transaction each, so an exception leaves
  the database as it was. \<open>new_id\<close> and \<open>new_version_id\<close> are the primary keys drawn.
\<close>

definition workflow_create ::
  "uuid \<Rightarrow> uuid \<Rightarrow> datetime \<Rightarrow> uuid \<Rightarrow> workflow_draft \<Rightarrow> uuid \<Rightarrow> authz_scope \<Rightarrow> 'a workflow_db_scheme
    \<Rightarrow> ('a workflow_db_scheme \<times> workflow) result" where
  "workflow_create new_id new_version_id now aid draft uid scope db =
    bind_result (get_active_in_scope (wdb_access db) aid scope) (\<lambda>a.
    bind_result (raise_if (a = None) (WorkflowConflict ''Agent access changed; refresh before saving'')) (\<lambda>_.
    let w = \<lparr>wf_id = new_id, wf_created_at = now, wf_agent_id = aid, wf_revision = 1, wf_archived_at = None\<rparr> in
    bind_result (insert_workflow w db) (\<lambda>db1.
    bind_result (insert_version \<lparr>ver_id = new_version_id, ver_created_at = now, ver_workflow_id = new_id,
      ver_number = 1, ver_snapshot = draft, ver_created_by_user_id = Some uid\<rparr> db1) (\<lambda>db2.
    Inr (db2, w)))))"

definition max_number :: "workflow_version list \<Rightarrow> nat" where
  "max_number vs = foldr (\<lambda>v n. max (ver_number v) n) vs 0"

definition workflow_changed :: error where
  "workflow_changed = WorkflowConflict
    ''Workflow changed or was archived; reload its current revision before saving. Your draft can be kept.''"

definition save_version ::
  "uuid \<Rightarrow> datetime \<Rightarrow> uuid \<Rightarrow> uuid \<Rightarrow> authz_scope \<Rightarrow> nat \<Rightarrow> workflow_draft option \<Rightarrow> uuid \<Rightarrow> 'a workflow_db_scheme
    \<Rightarrow> ('a workflow_db_scheme \<times> workflow) result" where
  "save_version new_version_id now workflow_id aid scope expected_revision draft uid db =
    bind_result (get_in_scope db workflow_id aid scope) (\<lambda>found.
    case found of
      None \<Rightarrow> Inl workflow_changed
    | Some w \<Rightarrow>
        bind_result (raise_if (wf_revision w \<noteq> expected_revision \<or> wf_archived_at w \<noteq> None) workflow_changed) (\<lambda>_.
        bind_result (case draft of
            None \<Rightarrow> Inr (db, w\<lparr>wf_archived_at := Some now\<rparr>)
          | Some d \<Rightarrow>
              bind_result (insert_version \<lparr>ver_id = new_version_id, ver_created_at = now, ver_workflow_id = workflow_id,
                ver_number = max_number (versions_of db workflow_id) + 1, ver_snapshot = d,
                ver_created_by_user_id = Some uid\<rparr> db) (\<lambda>db1. Inr (db1, w))) (\<lambda>(db1, w1).
        let w2 = w1\<lparr>wf_revision := wf_revision w1 + 1\<rparr>
        in Inr (db1\<lparr>workflows := row_put wf_id w2 (workflows db1)\<rparr>, w2))))"

section \<open>The installation-wide switch\<close>

definition settings_read :: "'a workflow_db_scheme \<Rightarrow> bool \<times> datetime option" where
  "settings_read db =
    (case wdb_settings db of
       None \<Rightarrow> (False, None)
     | Some r \<Rightarrow> (pws_authoring_enabled r, Some (pws_updated_at r)))"

definition authoring_enabled :: "'a workflow_db_scheme \<Rightarrow> bool" where
  "authoring_enabled db = fst (settings_read db)"

text \<open>
  \<open>set_authoring\<close>: \<open>new_ids\<close> are the keys of the staged rows, \<open>event_id\<close> and \<open>correlation_id\<close>
  the UUIDs of the event. It returns the settings and the ids of the staged deliveries.
\<close>

definition authoring_event :: "bool \<Rightarrow> bool \<Rightarrow> uuid \<Rightarrow> string \<Rightarrow> uuid \<Rightarrow> datetime \<Rightarrow> event_request" where
  "authoring_event previous enabled actor display correlation_id now =
    \<lparr>rq_event_name = ''platform.workflow_authoring.changed'', rq_schema_version = 1, rq_occurred_at = now,
     rq_organization_id = None,
     rq_actor = \<lparr>actor_type = ActorUser, actor_id = uuid_str actor, actor_organization_id = None\<rparr>,
     rq_subject = \<lparr>subject_type = SubjectSystem, subject_id = ''platform-workflows'', subject_organization_id = None\<rparr>,
     rq_correlation_id = correlation_id,
     rq_payload = JObj [(KStr ''previous'', JBool previous), (KStr ''current'', JBool enabled),
       (KStr ''actor_display'', JStr display), (KStr ''subject_display'', JStr ''Workflow authoring'')],
     rq_causation_id = None, rq_event_scope = None\<rparr>"

definition set_authoring ::
  "event_registry \<Rightarrow> (nat \<Rightarrow> uuid) \<Rightarrow> uuid \<Rightarrow> uuid \<Rightarrow> datetime \<Rightarrow> bool \<Rightarrow> uuid \<Rightarrow> string \<Rightarrow> 'a workflow_db_scheme
    \<Rightarrow> ('a workflow_db_scheme \<times> (bool \<times> datetime option) \<times> uuid list) result" where
  "set_authoring reg new_ids event_id correlation_id now enabled actor display db =
    (let previous = authoring_enabled db in
     if wdb_settings db \<noteq> None \<and> previous = enabled then Inr (db, settings_read db, [])
     else
       let db1 = db\<lparr>wdb_settings := Some \<lparr>pws_authoring_enabled = enabled, pws_updated_at = now, pws_updated_by = Some actor\<rparr>\<rparr>
       in if previous = enabled then Inr (db1, (enabled, Some now), [])
          else bind_result (build_event reg event_id (authoring_event previous enabled actor display correlation_id now)) (\<lambda>ev.
               bind_result (outbox_stage new_ids now ev reg (wdb_events db1)) (\<lambda>(events, m).
               Inr (db1\<lparr>wdb_events := events\<rparr>, (enabled, Some now), delivery_ids_for_event events (ev_event_id ev)))))"

text \<open>\<open>PlatformWorkflowService.update\<close>: the authority check, the write, then the dispatch of its deliveries.\<close>

definition update_platform_settings ::
  "event_registry \<Rightarrow> (nat \<Rightarrow> uuid) \<Rightarrow> uuid \<Rightarrow> uuid \<Rightarrow> datetime \<Rightarrow> (uuid \<Rightarrow> bool) \<Rightarrow> bool \<Rightarrow> current_user_context
    \<Rightarrow> 'a workflow_db_scheme \<times> uuid list \<Rightarrow> ('a workflow_db_scheme \<times> uuid list) \<times> (bool \<times> datetime option) result" where
  "update_platform_settings reg new_ids event_id correlation_id now accepts enabled ctx = (\<lambda>(db, queue).
    (case bind_result (require_platform_admin ctx ''This action requires platform administrator access.'') (\<lambda>_.
       set_authoring reg new_ids event_id correlation_id now enabled (user_id (ctx_user ctx))
         (case user_full_name (ctx_user ctx) of
            None \<Rightarrow> user_email (ctx_user ctx)
          | Some n \<Rightarrow> if n = [] then user_email (ctx_user ctx) else n) db) of
       Inl e \<Rightarrow> ((db, queue), Inl e)
     | Inr (db1, res, is) \<Rightarrow>
         (case enqueue_immediate accepts now is (wdb_events db1, queue) of
            (events, queue1) \<Rightarrow> ((db1\<lparr>wdb_events := events\<rparr>, queue1), Inr res))))"

section \<open>The authoring service\<close>

datatype workflow_action = ActSaveVersion | ActArchive

record workflow_read =
  wr_workflow :: workflow
  wr_version :: workflow_version
  wr_allowed_actions :: "workflow_action list"
  wr_execution_available :: bool

definition workflow_actions :: "datetime option \<Rightarrow> bool \<Rightarrow> workflow_action list" where
  "workflow_actions archived_at can_author =
    (if can_author \<and> archived_at = None then [ActSaveVersion, ActArchive] else [])"

definition snapshot_read :: "workflow \<Rightarrow> workflow_version \<Rightarrow> bool \<Rightarrow> workflow_read" where
  "snapshot_read w v can_author =
    \<lparr>wr_workflow = w, wr_version = v, wr_allowed_actions = workflow_actions (wf_archived_at w) can_author,
     wr_execution_available = (wf_archived_at w = None)\<rparr>"

definition no_action_permission :: string where
  "no_action_permission = ''You don't have permission to perform this action.''"

definition require_authoring :: "'a workflow_db_scheme \<Rightarrow> current_user_context \<Rightarrow> uuid \<Rightarrow> unit result" where
  "require_authoring db ctx aid =
    bind_result (require_action (wdb_access db) ctx aid AGENT_UPDATE no_action_permission) (\<lambda>_.
    raise_if (\<not> authoring_enabled db) (HTTPException 409 ''Workflow authoring is disabled for this installation''))"

text \<open>\<open>self.authorization.allowed_actions(context, [agent])[agent.id]\<close> and the membership test on it.\<close>

definition permits :: "access_db \<Rightarrow> current_user_context \<Rightarrow> agent \<Rightarrow> permission_key \<Rightarrow> bool result" where
  "permits db ctx a p =
    bind_result (allowed_actions db ctx [a]) (\<lambda>acts.
    case map_of acts (agent_id a) of None \<Rightarrow> Inl KeyError | Some ps \<Rightarrow> Inr (p \<in> set ps))"

definition workflow_read_of :: "'a workflow_db_scheme \<Rightarrow> current_user_context \<Rightarrow> workflow \<Rightarrow> workflow_read result" where
  "workflow_read_of db ctx w =
    bind_result (authorization_scope ctx AGENT_READ) (\<lambda>scope.
    bind_result (versions_in_scope db (wf_id w) (wf_agent_id w) scope 1 1 (Some (wf_revision w))) (\<lambda>(versions, total).
    case versions of
      [] \<Rightarrow> Inl (HTTPException 404 ''Workflow is unavailable'')
    | v # _ \<Rightarrow>
        bind_result (require_visible (wdb_access db) ctx (wf_agent_id w)) (\<lambda>a.
        bind_result (permits (wdb_access db) ctx a AGENT_UPDATE) (\<lambda>permitted.
        Inr (snapshot_read w v (permitted \<and> authoring_enabled db))))))"

definition workflow_capabilities :: "'a workflow_db_scheme \<Rightarrow> current_user_context \<Rightarrow> uuid \<Rightarrow> (bool \<times> bool) result" where
  "workflow_capabilities db ctx aid =
    bind_result (require_visible (wdb_access db) ctx aid) (\<lambda>_. Inr (authoring_enabled db, True))"

definition service_list ::
  "'a workflow_db_scheme \<Rightarrow> current_user_context \<Rightarrow> uuid \<Rightarrow> nat \<Rightarrow> nat
    \<Rightarrow> (nat \<times> (workflow_summary_row \<times> workflow_action list \<times> bool) list) result" where
  "service_list db ctx aid page page_size =
    bind_result (require_visible (wdb_access db) ctx aid) (\<lambda>a.
    bind_result (authorization_scope ctx AGENT_READ) (\<lambda>scope.
    bind_result (list_in_scope db aid scope page page_size) (\<lambda>(rows, total).
    bind_result (permits (wdb_access db) ctx a AGENT_UPDATE) (\<lambda>permitted.
    Inr (total, map (\<lambda>r. (r, workflow_actions (wf_archived_at (sr_workflow r)) (permitted \<and> authoring_enabled db),
      wf_archived_at (sr_workflow r) = None)) rows)))))"

definition service_get :: "'a workflow_db_scheme \<Rightarrow> current_user_context \<Rightarrow> uuid \<Rightarrow> uuid \<Rightarrow> workflow_read result" where
  "service_get db ctx aid workflow_id =
    bind_result (require_visible (wdb_access db) ctx aid) (\<lambda>_.
    bind_result (authorization_scope ctx AGENT_READ) (\<lambda>scope.
    bind_result (get_in_scope db workflow_id aid scope) (\<lambda>row.
    case row of None \<Rightarrow> Inl (HTTPException 404 ''Workflow not found'') | Some w \<Rightarrow> workflow_read_of db ctx w)))"

definition service_versions ::
  "'a workflow_db_scheme \<Rightarrow> current_user_context \<Rightarrow> uuid \<Rightarrow> uuid \<Rightarrow> nat \<Rightarrow> nat \<Rightarrow> (workflow_version list \<times> nat) result" where
  "service_versions db ctx aid workflow_id page page_size =
    bind_result (service_get db ctx aid workflow_id) (\<lambda>_.
    bind_result (authorization_scope ctx AGENT_READ) (\<lambda>scope.
    versions_in_scope db workflow_id aid scope page page_size None))"

text \<open>\<open>except WorkflowConflict\<close>: the conflict becomes a 409.\<close>

definition conflict_409 :: "'b result \<Rightarrow> 'b result" where
  "conflict_409 r = (case r of Inl (WorkflowConflict m) \<Rightarrow> Inl (HTTPException 409 m) | _ \<Rightarrow> r)"

text \<open>
  A write and the read that answers it are two transactions: when the read raises, the
  write stays.
\<close>

definition read_after ::
  "current_user_context \<Rightarrow> 'a workflow_db_scheme \<Rightarrow> ('a workflow_db_scheme \<times> workflow) result
    \<Rightarrow> 'a workflow_db_scheme \<times> workflow_read result" where
  "read_after ctx db r =
    (case r of Inl e \<Rightarrow> (db, conflict_409 (Inl e)) | Inr (db1, w) \<Rightarrow> (db1, conflict_409 (workflow_read_of db1 ctx w)))"

definition service_create ::
  "uuid \<Rightarrow> uuid \<Rightarrow> datetime \<Rightarrow> uuid \<Rightarrow> workflow_draft \<Rightarrow> current_user_context \<Rightarrow> 'a workflow_db_scheme
    \<Rightarrow> 'a workflow_db_scheme \<times> workflow_read result" where
  "service_create new_id new_version_id now aid draft ctx db =
    (case bind_result (require_authoring db ctx aid) (\<lambda>_. authorization_scope ctx AGENT_UPDATE) of
       Inl e \<Rightarrow> (db, Inl e)
     | Inr scope \<Rightarrow>
         read_after ctx db (workflow_create new_id new_version_id now aid draft (user_id (ctx_user ctx)) scope db))"

definition service_save ::
  "uuid \<Rightarrow> datetime \<Rightarrow> uuid \<Rightarrow> uuid \<Rightarrow> nat \<Rightarrow> workflow_draft \<Rightarrow> current_user_context \<Rightarrow> 'a workflow_db_scheme
    \<Rightarrow> 'a workflow_db_scheme \<times> workflow_read result" where
  "service_save new_version_id now aid workflow_id expected_revision draft ctx db =
    (case bind_result (require_authoring db ctx aid) (\<lambda>_.
          bind_result (service_get db ctx aid workflow_id) (\<lambda>_. authorization_scope ctx AGENT_UPDATE)) of
       Inl e \<Rightarrow> (db, Inl e)
     | Inr scope \<Rightarrow>
         read_after ctx db
           (save_version new_version_id now workflow_id aid scope expected_revision (Some draft) (user_id (ctx_user ctx)) db))"

definition service_archive ::
  "datetime \<Rightarrow> uuid \<Rightarrow> uuid \<Rightarrow> nat \<Rightarrow> current_user_context \<Rightarrow> 'a workflow_db_scheme \<Rightarrow> 'a workflow_db_scheme \<times> unit result" where
  "service_archive now aid workflow_id revision ctx db =
    (case bind_result (require_authoring db ctx aid) (\<lambda>_.
          bind_result (service_get db ctx aid workflow_id) (\<lambda>_. authorization_scope ctx AGENT_UPDATE)) of
       Inl e \<Rightarrow> (db, Inl e)
     | Inr scope \<Rightarrow>
         (case save_version 0 now workflow_id aid scope revision None (user_id (ctx_user ctx)) db of
            Inl e \<Rightarrow> (db, conflict_409 (Inl e))
          | Inr (db1, w) \<Rightarrow> (db1, Inr ())))"

section \<open>Validated drafts\<close>

lemma strip_by_idem: "strip_by P (strip_by P s) = strip_by P s"
proof -
  let ?t = "dropWhile P s" and ?u = "rev (dropWhile P (rev (dropWhile P s)))"
  have "dropWhile P ?u = ?u"
  proof (cases "?u = []")
    case False
    obtain w where t: "?t = ?u @ w"
      by (metis rev_append rev_rev_ident takeWhile_dropWhile_id)
    have "?t \<noteq> []" using False by (metis append_Nil2 dropWhile.simps(1) rev.simps(1))
    moreover have "hd ?t = hd ?u" using False t by (metis hd_append2)
    ultimately have "\<not> P (hd ?u)" using hd_dropWhile [of P s] by metis
    then show ?thesis using False by (cases ?u) auto
  next
    case True
    show ?thesis by (simp only: True dropWhile.simps(1))
  qed
  then show ?thesis
    by (simp add: strip_by_def)
qed

lemma constrained_Inr:
  "constrained n field s = Inr t \<longleftrightarrow> t = strip_by white_space s \<and> t \<noteq> [] \<and> length t \<le> n"
  by (auto simp: constrained_def Let_def bind_result_Inr)

lemma constrained_idem: "constrained n field s = Inr t \<Longrightarrow> constrained n field t = Inr t"
  unfolding constrained_Inr by (metis strip_by_idem)

lemma optional_text_idem: "optional_text field v = Inr w \<Longrightarrow> optional_text field w = Inr w"
  by (auto simp: optional_text_def bind_result_Inr constrained_idem split: option.splits)

lemma map_result_Inr: "map_result f xs = Inr ys \<longleftrightarrow> list_all2 (\<lambda>x y. f x = Inr y) xs ys"
  by (induction xs arbitrary: ys) (auto simp: bind_result_Inr list_all2_Cons1)

lemma map_result_idem:
  assumes "map_result f xs = Inr ys" and "\<And>x y. f x = Inr y \<Longrightarrow> f y = Inr y"
  shows "map_result f ys = Inr ys"
  using assms unfolding map_result_Inr list_all2_conv_all_nth by auto

lemma require_unique_from_iff:
  "require_unique_from i first vs noun attr = Inr () \<longleftrightarrow> distinct vs \<and> set vs \<inter> fst ` set first = {}"
proof (induction vs arbitrary: i first)
  case Nil
  then show ?case by simp
next
  case (Cons v vs)
  show ?case
  proof (cases "map_of first v")
    case None
    then have "v \<notin> fst ` set first" by (simp add: map_of_eq_None_iff)
    with None show ?thesis by (auto simp: Cons)
  next
    case (Some j)
    then have "v \<in> fst ` set first" by (auto dest: map_of_SomeD intro: rev_image_eqI)
    with Some show ?thesis by auto
  qed
qed

lemma require_unique_iff: "require_unique vs noun attr = Inr u \<longleftrightarrow> distinct vs"
  by (simp add: require_unique_def require_unique_from_iff)

lemma validate_input_idem: "validate_input i = Inr j \<Longrightarrow> validate_input j = Inr j"
  unfolding validate_input_def bind_result_Inr raise_if_Inr by (force simp: constrained_idem)

lemma validate_step_idem: "validate_step i = Inr j \<Longrightarrow> validate_step j = Inr j"
  unfolding validate_step_def bind_result_Inr raise_if_Inr
  by (elim exE conjE) (auto simp: constrained_idem optional_text_idem)

lemma validate_input_key: "validate_input i = Inr j \<Longrightarrow> in_key j = in_key i \<and> input_key_pattern (in_key j)"
  unfolding validate_input_def bind_result_Inr raise_if_Inr by auto

lemma validate_draft_Inr:
  "validate_draft d = Inr d' \<longleftrightarrow>
    name_field ''name'' (draft_name d) = Inr (draft_name d') \<and>
    text_field ''description'' (draft_description d) = Inr (draft_description d') \<and>
    draft_steps d \<noteq> [] \<and> length (draft_steps d) \<le> 50 \<and>
    map_result validate_step (draft_steps d) = Inr (draft_steps d') \<and>
    distinct (map (\<lambda>s. uuid_str (step_id s)) (draft_steps d')) \<and>
    length (draft_inputs d) \<le> 30 \<and>
    map_result validate_input (draft_inputs d) = Inr (draft_inputs d') \<and>
    distinct (map in_key (draft_inputs d')) \<and>
    optional_text ''final_artifact_description'' (draft_final_artifact_description d) =
      Inr (draft_final_artifact_description d')"
  unfolding validate_draft_def bind_result_Inr raise_if_Inr require_unique_iff
  by (cases d; cases d') auto

text \<open>
  An accepted draft is well formed and stable: it has 1 to 50 steps with distinct ids
  and at most 30 inputs with distinct, well-formed keys, all names are stripped, not empty
  and bounded, and validating it again, as every read of a stored snapshot does, gives
  the same draft.
\<close>

theorem validated_draft_is_stable:
  assumes "validate_draft d = Inr d'"
  shows "validate_draft d' = Inr d' \<and>
    1 \<le> length (draft_steps d') \<and> length (draft_steps d') \<le> 50 \<and> distinct (map step_id (draft_steps d')) \<and>
    length (draft_inputs d') \<le> 30 \<and> distinct (map in_key (draft_inputs d')) \<and>
    (\<forall>i \<in> set (draft_inputs d'). input_key_pattern (in_key i)) \<and>
    draft_name d' \<noteq> [] \<and> length (draft_name d') \<le> 200 \<and> strip_by white_space (draft_name d') = draft_name d'"
proof -
  note d = assms [unfolded validate_draft_Inr]
  have len: "length (draft_steps d') = length (draft_steps d)" "length (draft_inputs d') = length (draft_inputs d)"
    using d by (auto simp: map_result_Inr dest: list_all2_lengthD)
  have "map_result validate_step (draft_steps d') = Inr (draft_steps d')"
    "map_result validate_input (draft_inputs d') = Inr (draft_inputs d')"
    using d map_result_idem validate_step_idem validate_input_idem by blast+
  with d len have again: "validate_draft d' = Inr d'"
    unfolding validate_draft_Inr by (auto simp: constrained_idem optional_text_idem)
  have "input_key_pattern (in_key i)" if "i \<in> set (draft_inputs d')" for i
  proof -
    have "list_all2 (\<lambda>x y. validate_input x = Inr y) (draft_inputs d) (draft_inputs d')"
      using d by (simp add: map_result_Inr)
    then show ?thesis using that by (induction rule: list_all2_induct) (auto dest: validate_input_key)
  qed
  moreover have "distinct (map step_id (draft_steps d'))"
    using d distinct_map [of uuid_str "map step_id (draft_steps d')"] by (simp add: o_def)
  moreover have "1 \<le> length (draft_steps d)" using d by (cases "draft_steps d") auto
  moreover have "draft_name d' \<noteq> [] \<and> length (draft_name d') \<le> 200 \<and> strip_by white_space (draft_name d') = draft_name d'"
    using d unfolding constrained_Inr by (metis strip_by_idem)
  ultimately show ?thesis
    using d again len by simp
qed

definition demo_step :: "uuid \<Rightarrow> workflow_step" where
  "demo_step i =
    \<lparr>step_id = i, step_name = ''n'', step_goal = ''g'', step_completion_criteria = ''c'',
     step_artifact_description = None, step_required_capabilities = [CapReasoning]\<rparr>"

definition demo_draft :: "nat \<Rightarrow> workflow_draft" where
  "demo_draft n =
    \<lparr>draft_name = ''w'', draft_description = ''d'', draft_steps = map demo_step [1..<Suc n], draft_inputs = [],
     draft_final_artifact_description = None\<rparr>"

theorem validated_draft_is_stable_witness: "validate_draft (demo_draft 1) = Inr (demo_draft 1)"
proof -
  have "validate_draft ((demo_draft 1)\<lparr>draft_name := '' w ''\<rparr>) = Inr (demo_draft 1)"
    unfolding validate_draft_Inr
    by (simp add: demo_draft_def demo_step_def validate_step_def constrained_def strip_by_def white_space_def
        optional_text_def Let_def raise_if_def)
  from validated_draft_is_stable [OF this] show ?thesis by simp
qed

section \<open>Version numbers\<close>

interpretation workflow_table: keyed_table wf_id "row_get wf_id" "row_put wf_id" row_add set "\<lambda>t. distinct (map wf_id t)"
  by (rule row_table)

interpretation version_table: keyed_table ver_id "row_get ver_id" "row_put ver_id" row_add set "\<lambda>t. distinct (map ver_id t)"
  by (rule row_table)

text \<open>The number of versions a workflow has had: its revision, less the revision that archived it.\<close>

definition version_total :: "workflow \<Rightarrow> nat" where
  "version_total w = (if wf_archived_at w = None then wf_revision w else wf_revision w - 1)"

definition numbered :: "'a workflow_db_scheme \<Rightarrow> workflow \<Rightarrow> bool" where
  "numbered db w \<longleftrightarrow> 1 \<le> version_total w \<and> map ver_number (versions_of db (wf_id w)) = [1..<Suc (version_total w)]"

definition definitions_inv :: "'a workflow_db_scheme \<Rightarrow> bool" where
  "definitions_inv db \<longleftrightarrow>
    distinct (map wf_id (workflows db)) \<and> distinct (map ver_id (workflow_versions db)) \<and>
    (\<forall>v \<in> set (workflow_versions db). ver_workflow_id v \<in> wf_id ` set (workflows db)) \<and>
    (\<forall>w \<in> set (workflows db). numbered db w)"

lemma max_number_upto: "map ver_number vs = [1..<Suc n] \<Longrightarrow> max_number vs = n"
proof -
  have fold: "max_number vs = foldr max (map ver_number vs) 0" for vs
    by (simp add: max_number_def foldr_map o_def)
  have "foldr max [1..<Suc n] k = max n k" for n k :: nat
    by (induction n arbitrary: k) auto
  then show "map ver_number vs = [1..<Suc n] \<Longrightarrow> max_number vs = n"
    by (simp add: fold)
qed

lemma get_in_scope_found:
  assumes "get_in_scope db i aid scope = Inr (Some w)"
  shows "w \<in> set (workflows db)" and "wf_id w = i" and "wf_agent_id w = aid"
  using assms by (auto simp: get_in_scope_def bind_result_Inr find_Some_iff)

lemma insert_version_Inr:
  "insert_version v db = Inr db' \<longleftrightarrow>
    row_get ver_id (ver_id v) (workflow_versions db) = None \<and>
    (\<forall>x \<in> set (workflow_versions db). \<not> (ver_workflow_id x = ver_workflow_id v \<and> ver_number x = ver_number v)) \<and>
    db' = db\<lparr>workflow_versions := row_add v (workflow_versions db)\<rparr>"
  unfolding insert_version_def bind_result_Inr raise_if_Inr by auto

lemma insert_workflow_Inr:
  "insert_workflow w db = Inr db' \<longleftrightarrow>
    row_get wf_id (wf_id w) (workflows db) = None \<and> db' = db\<lparr>workflows := row_add w (workflows db)\<rparr>"
  unfolding insert_workflow_def bind_result_Inr raise_if_Inr by auto

lemma workflow_create_Inr:
  "workflow_create new_id new_version_id now aid draft uid scope db = Inr (db', w) \<longleftrightarrow>
    (\<exists>a. get_active_in_scope (wdb_access db) aid scope = Inr (Some a)) \<and>
    w = \<lparr>wf_id = new_id, wf_created_at = now, wf_agent_id = aid, wf_revision = 1, wf_archived_at = None\<rparr> \<and>
    row_get wf_id new_id (workflows db) = None \<and> row_get ver_id new_version_id (workflow_versions db) = None \<and>
    (\<forall>x \<in> set (workflow_versions db). \<not> (ver_workflow_id x = new_id \<and> ver_number x = 1)) \<and>
    db' = db\<lparr>workflows := row_add w (workflows db),
       workflow_versions := row_add \<lparr>ver_id = new_version_id, ver_created_at = now, ver_workflow_id = new_id,
         ver_number = 1, ver_snapshot = draft, ver_created_by_user_id = Some uid\<rparr> (workflow_versions db)\<rparr>"
  unfolding workflow_create_def Let_def bind_result_Inr raise_if_Inr insert_workflow_Inr insert_version_Inr
  by auto

definition saved_version :: "uuid \<Rightarrow> datetime \<Rightarrow> uuid \<Rightarrow> nat \<Rightarrow> workflow_draft \<Rightarrow> uuid \<Rightarrow> workflow_version" where
  "saved_version new_version_id now workflow_id n d uid =
    \<lparr>ver_id = new_version_id, ver_created_at = now, ver_workflow_id = workflow_id, ver_number = n,
     ver_snapshot = d, ver_created_by_user_id = Some uid\<rparr>"

lemma save_version_Inr:
  "save_version new_version_id now workflow_id aid scope expected draft uid db = Inr (db', w') \<longleftrightarrow>
    (\<exists>w. get_in_scope db workflow_id aid scope = Inr (Some w) \<and> wf_revision w = expected \<and> wf_archived_at w = None \<and>
      (case draft of
         None \<Rightarrow> w' = w\<lparr>wf_archived_at := Some now, wf_revision := expected + 1\<rparr> \<and>
           db' = db\<lparr>workflows := row_put wf_id w' (workflows db)\<rparr>
       | Some d \<Rightarrow> w' = w\<lparr>wf_revision := expected + 1\<rparr> \<and>
           (\<exists>db1. insert_version (saved_version new_version_id now workflow_id (max_number (versions_of db workflow_id) + 1) d uid) db
               = Inr db1 \<and> db' = db1\<lparr>workflows := row_put wf_id w' (workflows db1)\<rparr>)))"
  unfolding save_version_def saved_version_def bind_result_Inr
  by (cases draft) (auto simp: bind_result_Inr Let_def split: option.splits)

lemma versions_of_add:
  "versions_of (db\<lparr>workflow_versions := row_add v (workflow_versions db)\<rparr>) i =
    versions_of db i @ (if ver_workflow_id v = i then [v] else [])"
  by (simp add: versions_of_def row_add_def)

lemma versions_of_workflows [simp]: "versions_of (db\<lparr>workflows := ws\<rparr>) i = versions_of db i"
  by (simp add: versions_of_def)

lemma numbered_cong: "versions_of db' (wf_id w) = versions_of db (wf_id w) \<Longrightarrow> numbered db' w = numbered db w"
  by (simp add: numbered_def)

lemma definitions_inv_other:
  "workflows db' = workflows db \<Longrightarrow> workflow_versions db' = workflow_versions db \<Longrightarrow> definitions_inv db' = definitions_inv db"
  by (simp add: definitions_inv_def numbered_def versions_of_def)

lemma versions_of_absent:
  assumes "definitions_inv db" and "row_get wf_id i (workflows db) = None"
  shows "versions_of db i = []"
  using assms unfolding definitions_inv_def versions_of_def workflow_table.get_None filter_empty_conv image_iff
  by metis

lemma workflow_create_inv:
  assumes "definitions_inv db" and "workflow_create new_id new_version_id now aid draft uid scope db = Inr (db', w)"
  shows "definitions_inv db'"
proof -
  let ?v = "\<lparr>ver_id = new_version_id, ver_created_at = now, ver_workflow_id = new_id,
    ver_number = 1, ver_snapshot = draft, ver_created_by_user_id = Some uid\<rparr>"
  have w: "w = \<lparr>wf_id = new_id, wf_created_at = now, wf_agent_id = aid, wf_revision = 1, wf_archived_at = None\<rparr>"
    and fresh: "row_get wf_id new_id (workflows db) = None" "row_get ver_id new_version_id (workflow_versions db) = None"
    and db': "db' = db\<lparr>workflows := row_add w (workflows db), workflow_versions := row_add ?v (workflow_versions db)\<rparr>"
    using assms(2) unfolding workflow_create_Inr by auto
  have vs: "versions_of db' i = versions_of db i @ (if i = new_id then [?v] else [])" for i
    by (simp add: db' versions_of_def row_add_def)
  have new: "numbered db' w"
    using versions_of_absent [OF assms(1) fresh(1)] by (simp add: numbered_def vs version_total_def w)
  have "numbered db' x" if "x \<in> set (workflows db)" for x
  proof -
    have "wf_id x \<noteq> new_id" using fresh(1) that by (simp add: workflow_table.get_None)
    then show ?thesis using assms(1) that by (simp add: definitions_inv_def numbered_cong [of db' x db] vs)
  qed
  moreover have "distinct (map wf_id (workflows db'))" "distinct (map ver_id (workflow_versions db'))"
    using assms(1) fresh workflow_table.keyed_add [of "workflows db" w] version_table.keyed_add [of "workflow_versions db" ?v]
    by (simp_all add: db' definitions_inv_def w)
  moreover have "\<forall>v \<in> set (workflow_versions db'). ver_workflow_id v \<in> wf_id ` set (workflows db')"
    using assms(1) by (auto simp: db' row_add_def definitions_inv_def w)
  ultimately show ?thesis
    using new unfolding definitions_inv_def by (auto simp: db' row_add_def)
qed

text \<open>A change of one workflow row and of the versions of that workflow only.\<close>

lemma definitions_inv_update:
  assumes inv: "definitions_inv db" and w: "w \<in> set (workflows db)" "wf_id w' = wf_id w"
    and ws: "workflows db' = row_put wf_id w' (workflows db)"
    and vs: "distinct (map ver_id (workflow_versions db'))"
      "\<And>v. v \<in> set (workflow_versions db') \<Longrightarrow> v \<in> set (workflow_versions db) \<or> ver_workflow_id v = wf_id w"
    and other: "\<And>i. i \<noteq> wf_id w \<Longrightarrow> versions_of db' i = versions_of db i"
    and new: "numbered db' w'"
  shows "definitions_inv db'"
proof -
  have ids: "wf_id ` set (workflows db') = wf_id ` set (workflows db)"
    unfolding ws by (metis map_key_row_put list.set_map)
  have "numbered db' x" if "x \<in> set (row_put wf_id w' (workflows db))" for x
  proof (cases "wf_id x = wf_id w")
    case True
    have "x = w'" using that True w(2) by (auto simp: row_put_def split: if_splits)
    then show ?thesis using new by simp
  next
    case False
    then have "x \<in> set (workflows db)" using that w(2) by (auto simp: row_put_def split: if_splits)
    then show ?thesis using inv other [OF False] by (simp add: definitions_inv_def numbered_cong [of db' x db])
  qed
  then show ?thesis
    using inv vs w(1) unfolding definitions_inv_def ids by (auto simp: ws)
qed

lemma save_version_inv:
  assumes inv: "definitions_inv db"
    and save: "save_version new_version_id now i aid scope expected draft uid db = Inr (db', w')"
  shows "definitions_inv db' \<and> wf_id w' = i \<and> wf_revision w' = expected + 1 \<and> w' \<in> set (workflows db') \<and>
    (case draft of None \<Rightarrow> wf_archived_at w' \<noteq> None \<and> versions_of db' i = versions_of db i
     | Some d \<Rightarrow> wf_archived_at w' = None \<and>
         versions_of db' i = versions_of db i @ [saved_version new_version_id now i (expected + 1) d uid])"
proof -
  obtain w where found: "get_in_scope db i aid scope = Inr (Some w)" and w: "wf_revision w = expected" "wf_archived_at w = None"
    using save unfolding save_version_Inr by auto
  note wi = get_in_scope_found [OF found]
  have num: "map ver_number (versions_of db i) = [1..<Suc expected]" "1 \<le> expected"
    using inv wi w by (auto simp: definitions_inv_def numbered_def version_total_def)
  show ?thesis
  proof (cases draft)
    case None
    then have w': "w' = w\<lparr>wf_archived_at := Some now, wf_revision := expected + 1\<rparr>"
      and db': "db' = db\<lparr>workflows := row_put wf_id w' (workflows db)\<rparr>"
      using save found unfolding save_version_Inr by auto
    have "definitions_inv db'"
      by (rule definitions_inv_update [OF inv wi(1)])
        (use inv num wi in \<open>auto simp: w' db' definitions_inv_def numbered_def version_total_def\<close>)
    moreover have "w' \<in> set (workflows db')"
      using wi by (auto simp: db' w' row_put_def image_iff)
    ultimately show ?thesis using None wi by (simp add: w') (simp add: db')
  next
    case (Some d)
    let ?v = "saved_version new_version_id now i (expected + 1) d uid"
    have w': "w' = w\<lparr>wf_revision := expected + 1\<rparr>" and fresh: "row_get ver_id new_version_id (workflow_versions db) = None"
      and db': "db' = db\<lparr>workflow_versions := row_add ?v (workflow_versions db), workflows := row_put wf_id w' (workflows db)\<rparr>"
      using save found Some max_number_upto [OF num(1)] unfolding save_version_Inr insert_version_Inr
      by (auto simp: saved_version_def)
    have vs: "versions_of db' j = versions_of db j @ (if j = i then [?v] else [])" for j
      by (simp add: db' versions_of_def row_add_def saved_version_def)
    have "distinct (map ver_id (workflow_versions db'))"
      using inv fresh version_table.keyed_add [of "workflow_versions db" ?v] by (simp add: db' definitions_inv_def saved_version_def)
    moreover have "workflows db' = row_put wf_id w' (workflows db)"
      "set (workflow_versions db') = insert ?v (set (workflow_versions db))" "ver_workflow_id ?v = i"
      by (auto simp: db' row_add_def saved_version_def)
    ultimately have "definitions_inv db'"
      by (intro definitions_inv_update [OF inv wi(1)])
        (use num wi w in \<open>auto simp: w' vs numbered_def version_total_def saved_version_def\<close>)
    moreover have "w' \<in> set (workflows db')"
      using wi by (auto simp: db' w' row_put_def image_iff)
    ultimately show ?thesis using Some wi w by (simp add: vs) (simp add: w')
  qed
qed

section \<open>Properties\<close>

text \<open>Everything that happens to definitions: creations, saves and archivals, and changes of other tables.\<close>

inductive definition_step :: "'a workflow_db_scheme \<Rightarrow> 'a workflow_db_scheme \<Rightarrow> bool" where
  def_create: "workflow_create new_id new_version_id now aid draft uid scope db = Inr (db', w) \<Longrightarrow> definition_step db db'"
| def_save: "save_version new_version_id now i aid scope expected draft uid db = Inr (db', w) \<Longrightarrow> definition_step db db'"
| def_other: "workflows db' = workflows db \<Longrightarrow> workflow_versions db' = workflow_versions db \<Longrightarrow> definition_step db db'"

lemma definition_step_inv: "definition_step db db' \<Longrightarrow> definitions_inv db \<Longrightarrow> definitions_inv db'"
proof (induction rule: definition_step.induct)
  case def_create
  then show ?case using workflow_create_inv by blast
next
  case def_save
  then show ?case using save_version_inv by blast
next
  case def_other
  then show ?case using definitions_inv_other by blast
qed

lemma definition_steps_inv: "definition_step\<^sup>*\<^sup>* db db' \<Longrightarrow> definitions_inv db \<Longrightarrow> definitions_inv db'"
  by (induction rule: rtranclp_induct) (auto dest: definition_step_inv)

lemma definition_step_grows:
  assumes "definition_step db db'" and "definitions_inv db" and "w \<in> set (workflows db)"
  shows "\<exists>w' \<in> set (workflows db'). wf_id w' = wf_id w \<and> wf_revision w \<le> wf_revision w'"
  using assms
proof cases
  case (def_create new_id new_version_id now aid draft uid scope x)
  then show ?thesis using assms(3) unfolding workflow_create_Inr by (auto simp: row_add_def)
next
  case (def_save new_version_id now i aid scope expected draft uid x)
  then obtain y where y: "get_in_scope db i aid scope = Inr (Some y)" "wf_revision y = expected"
    and ws: "workflows db' = row_put wf_id x (workflows db)"
    unfolding save_version_Inr by (auto simp: insert_version_Inr split: option.splits)
  note x = save_version_inv [OF assms(2) def_save]
  show ?thesis
  proof (cases "wf_id w = i")
    case True
    then have "w = y"
      using assms(2,3) get_in_scope_found [OF y(1)] by (auto simp: definitions_inv_def distinct_map inj_on_def)
    then show ?thesis using x y(2) True by (intro bexI [of _ x]) auto
  next
    case False
    then have "w \<in> set (workflows db')" using assms(3) x by (auto simp: ws row_put_def image_iff)
    then show ?thesis by auto
  qed
qed auto

lemma definition_steps_grow:
  assumes "definition_step\<^sup>*\<^sup>* db db'" and "definitions_inv db" and "w \<in> set (workflows db)"
  shows "\<exists>w' \<in> set (workflows db'). wf_id w' = wf_id w \<and> wf_revision w \<le> wf_revision w'"
  using assms
proof (induction rule: rtranclp_induct)
  case base
  then show ?case by auto
next
  case (step y z)
  then obtain w1 where "w1 \<in> set (workflows y)" "wf_id w1 = wf_id w" "wf_revision w \<le> wf_revision w1" by auto
  moreover have "definitions_inv y" using step definition_steps_inv by blast
  ultimately show ?case using definition_step_grows [OF step(2)] by (metis le_trans)
qed

definition empty_definitions :: "access_db \<Rightarrow> workflow_db" where
  "empty_definitions access =
    \<lparr>wdb_access = access, wdb_events = empty_event_db, wdb_settings = None, workflows = [], workflow_versions = []\<rparr>"

definition demo_workflow :: "nat \<Rightarrow> workflow" where
  "demo_workflow r = \<lparr>wf_id = 30, wf_created_at = 0, wf_agent_id = 100, wf_revision = r, wf_archived_at = None\<rparr>"

definition demo_definitions :: "nat \<Rightarrow> workflow_db" where
  "demo_definitions r =
    (empty_definitions demo_db)\<lparr>workflows := [demo_workflow r],
       workflow_versions := map (\<lambda>n. saved_version (30 + n) 0 30 n (demo_draft 1) 1) [1..<Suc r]\<rparr>"

lemma demo_scope_agent:
  "agent_scope_predicates demo_db (organization_scope 7) False = Inr (\<lambda>a. agent_organization_id a = 7 \<and> agent_deleted_at a = None)"
  by (simp add: agent_scope_predicates_def organization_scope_def Let_def fun_eq_iff)

lemma demo_create:
  "workflow_create 30 31 0 100 (demo_draft 1) 1 (organization_scope 7) (empty_definitions demo_db) = Inr (demo_definitions 1, demo_workflow 1)"
  unfolding workflow_create_Inr
  by (simp add: get_active_in_scope_def empty_definitions_def demo_scope_agent demo_workflow_def demo_definitions_def
      row_get_def row_add_def saved_version_def) (simp add: demo_db_def demo_agent_def)

lemma demo_get_in_scope: "get_in_scope (demo_definitions r) 30 100 (organization_scope 7) = Inr (Some (demo_workflow r))"
  by (simp add: get_in_scope_def demo_definitions_def empty_definitions_def demo_scope_agent demo_workflow_def
      workflow_agent_in_def) (simp add: demo_db_def demo_agent_def)

lemma demo_save:
  "save_version 32 0 30 100 (organization_scope 7) 1 (Some (demo_draft 1)) 1 (demo_definitions 1) = Inr (demo_definitions 2, demo_workflow 2)"
proof -
  have "max_number (versions_of (demo_definitions 1) 30) = 1"
    by (simp add: max_number_def versions_of_def demo_definitions_def saved_version_def)
  then show ?thesis
    unfolding save_version_Inr
    by (simp add: demo_get_in_scope insert_version_Inr)
      (simp add: demo_definitions_def demo_workflow_def row_add_def row_put_def row_get_def saved_version_def upt_rec numeral_2_eq_2)
qed

text \<open>
  C35. The history of a definition is linear: in every state reachable from an installation
  without workflows, the versions of a workflow are numbered 1, 2, ... in the order they
  were saved, as many as its revision says, and every version belongs to a workflow.
\<close>

theorem version_history_is_linear:
  assumes "definition_step\<^sup>*\<^sup>* (empty_definitions access) db"
  shows "(\<forall>w \<in> set (workflows db). 1 \<le> version_total w \<and>
      map ver_number (versions_of db (wf_id w)) = [1..<Suc (version_total w)]) \<and>
    (\<forall>v \<in> set (workflow_versions db). \<exists>w \<in> set (workflows db). ver_workflow_id v = wf_id w)"
proof -
  have "definitions_inv (empty_definitions access)"
    by (simp add: definitions_inv_def empty_definitions_def)
  then have "definitions_inv db" using definition_steps_inv assms by blast
  then show ?thesis by (auto simp: definitions_inv_def numbered_def)
qed

theorem version_history_is_linear_witness:
  "map ver_number (versions_of (demo_definitions 2) 30) = [1, 2]"
proof -
  have "definition_step\<^sup>*\<^sup>* (empty_definitions demo_db) (demo_definitions 2)"
    using def_create [OF demo_create] def_save [OF demo_save] by (meson rtranclp.simps)
  moreover have "demo_workflow 2 \<in> set (workflows (demo_definitions 2))"
    by (simp add: demo_definitions_def)
  ultimately show ?thesis
    using version_history_is_linear [of demo_db "demo_definitions 2"]
    by (auto simp: demo_workflow_def version_total_def upt_rec)
qed

text \<open>
  C5. No update is lost: once a save or an archival that expected a revision has succeeded,
  every later save or archival of that workflow that expects the same revision fails,
  whatever else happens in between; so of concurrent edits of one revision one wins.
\<close>

theorem no_lost_update:
  assumes "definitions_inv db"
    and "save_version v t i aid scope expected draft uid db = Inr (db', w')"
    and "definition_step\<^sup>*\<^sup>* db' db2"
  shows "\<exists>err. save_version v2 t2 i aid2 scope2 expected draft2 uid2 db2 = Inl err"
proof (rule ccontr)
  assume "\<nexists>err. save_version v2 t2 i aid2 scope2 expected draft2 uid2 db2 = Inl err"
  then obtain db3 w3 where "save_version v2 t2 i aid2 scope2 expected draft2 uid2 db2 = Inr (db3, w3)"
    by (cases "save_version v2 t2 i aid2 scope2 expected draft2 uid2 db2") auto
  then obtain y where y: "get_in_scope db2 i aid2 scope2 = Inr (Some y)" "wf_revision y = expected"
    unfolding save_version_Inr by auto
  note w' = save_version_inv [OF assms(1,2)]
  have inv2: "definitions_inv db2" using definition_steps_inv [OF assms(3)] w' by blast
  obtain z where z: "z \<in> set (workflows db2)" "wf_id z = i" "expected < wf_revision z"
    using definition_steps_grow [OF assms(3), of w'] w' by fastforce
  have "z = y"
    using inv2 z(1,2) get_in_scope_found [OF y(1)] by (auto simp: definitions_inv_def distinct_map inj_on_def)
  then show False using y(2) z(3) by simp
qed

theorem no_lost_update_witness:
  "\<exists>err. save_version 33 5 30 100 (organization_scope 7) 1 None 2 (demo_definitions 2) = Inl err"
proof -
  have "definitions_inv (demo_definitions 1)"
    by (simp add: definitions_inv_def demo_definitions_def demo_workflow_def numbered_def version_total_def versions_of_def
        saved_version_def)
  from no_lost_update [OF this demo_save rtranclp.rtrancl_refl] show ?thesis .
qed

lemma require_authoring_Inr:
  assumes "agents_keyed (wdb_access db)" and "require_authoring db ctx aid = Inr u"
  shows "\<exists>a \<in> set (agents (wdb_access db)). agent_id a = aid \<and> caller_holds (wdb_access db) ctx AGENT_UPDATE a \<and>
    home_organization ctx = Some (agent_organization_id a) \<and> authoring_enabled db"
  using assms(2) authority.action_in_home [OF assms(1)]
  unfolding require_authoring_def bind_result_Inr raise_if_Inr by blast

text \<open>
  Only authors change definitions: when creating, saving or archiving changes the database,
  authoring is enabled for the installation and the caller holds \<open>agent.update\<close> on the
  live Agent of the caller's own Organization that owns the definition.
\<close>

theorem only_authors_change_definitions:
  assumes "agents_keyed (wdb_access db)"
    and "fst (service_create new_id new_version_id now aid draft ctx db) \<noteq> db \<or>
      fst (service_save new_version_id now aid i expected draft ctx db) \<noteq> db \<or>
      fst (service_archive now aid i expected ctx db) \<noteq> db"
  shows "authoring_enabled db \<and>
    (\<exists>a \<in> set (agents (wdb_access db)). agent_id a = aid \<and> caller_holds (wdb_access db) ctx AGENT_UPDATE a \<and>
       home_organization ctx = Some (agent_organization_id a) \<and> agent_deleted_at a = None)"
proof -
  have "\<exists>u. require_authoring db ctx aid = Inr u"
    using assms(2)
    by (cases "require_authoring db ctx aid") (auto simp: service_create_def service_save_def service_archive_def)
  then show ?thesis
    using require_authoring_Inr [OF assms(1)] authority.holds_home by metis
qed

definition demo_authoring :: "nat \<Rightarrow> workflow_db" where
  "demo_authoring r =
    (demo_definitions r)\<lparr>wdb_settings := Some \<lparr>pws_authoring_enabled = True, pws_updated_at = 0, pws_updated_by = None\<rparr>\<rparr>"

lemma hd_sort_desc:
  assumes "sort_desc f xs = y # ys"
  shows "y \<in> set xs" and "\<And>x. x \<in> set xs \<Longrightarrow> f x \<le> f y"
proof -
  have "set (y # ys) = set xs" using assms unfolding sort_desc_def by (metis set_sort)
  then show "y \<in> set xs" by auto
  have "sorted (map (\<lambda>x. - f x) (y # ys))" using assms unfolding sort_desc_def by (metis sorted_sort_key)
  then show "f x \<le> f y" if "x \<in> set xs" for x
    using that \<open>set (y # ys) = set xs\<close> by auto
qed

lemma workflow_read_of_Inr:
  assumes "workflow_read_of db ctx w = Inr r"
  obtains scope v rest tot c
  where "versions_in_scope db (wf_id w) (wf_agent_id w) scope 1 1 (Some (wf_revision w)) = Inr (v # rest, tot)"
    and "r = snapshot_read w v c"
proof -
  obtain scope p where q: "versions_in_scope db (wf_id w) (wf_agent_id w) scope 1 1 (Some (wf_revision w)) = Inr p"
    and rest: "(case p of (versions, tot) \<Rightarrow> case versions of [] \<Rightarrow> Inl (HTTPException 404 ''Workflow is unavailable'')
      | v # _ \<Rightarrow> bind_result (require_visible (wdb_access db) ctx (wf_agent_id w)) (\<lambda>a.
        bind_result (permits (wdb_access db) ctx a AGENT_UPDATE) (\<lambda>permitted.
        Inr (snapshot_read w v (permitted \<and> authoring_enabled db))))) = Inr r"
    using assms unfolding workflow_read_of_def bind_result_Inr by (elim exE conjE)
  then show thesis
    using that by (cases p; cases "fst p") (auto simp: bind_result_Inr)
qed

lemma versions_in_scope_first:
  assumes "versions_in_scope db i aid scope 1 1 (Some n) = Inr (v # rest, tot)"
  obtains rows ys where "sort_desc (\<lambda>v. int (ver_number v)) rows = v # ys"
    and "set rows = {v \<in> set (versions_of db i). ver_number v \<le> n}"
proof -
  obtain c where v: "page_of 1 1 (sort_desc (\<lambda>v. int (ver_number v))
      (row_where (\<lambda>v. ver_workflow_id v = i \<and> c \<and> ver_number v \<le> n) (workflow_versions db))) = v # rest"
    using assms unfolding versions_in_scope_def bind_result_Inr Let_def by auto
  then obtain ys where ys: "sort_desc (\<lambda>v. int (ver_number v))
      (row_where (\<lambda>v. ver_workflow_id v = i \<and> c \<and> ver_number v \<le> n) (workflow_versions db)) = v # ys"
    by (cases "sort_desc (\<lambda>v. int (ver_number v))
      (row_where (\<lambda>v. ver_workflow_id v = i \<and> c \<and> ver_number v \<le> n) (workflow_versions db))")
      (auto simp: page_of_def)
  have c using v by (cases c) (auto simp: page_of_def sort_desc_def)
  then show thesis by (intro that [OF ys]) (auto simp: versions_of_def)
qed

text \<open>The version a read shows is the last of the numbered versions of the workflow.\<close>

lemma workflow_read_of_last:
  assumes inv: "definitions_inv db" and w: "w \<in> set (workflows db)" and read: "workflow_read_of db ctx w = Inr r"
  shows "wr_workflow r = w \<and> wr_version r = last (versions_of db (wf_id w))"
proof -
  let ?vs = "versions_of db (wf_id w)" and ?n = "version_total w"
  have num: "map ver_number ?vs = [1..<Suc ?n]" "1 \<le> ?n" using inv w by (auto simp: definitions_inv_def numbered_def)
  obtain scope v rest tot c where q: "versions_in_scope db (wf_id w) (wf_agent_id w) scope 1 1 (Some (wf_revision w)) = Inr (v # rest, tot)"
    and r: "r = snapshot_read w v c"
    using workflow_read_of_Inr [OF read] .
  obtain rows ys where sorted: "sort_desc (\<lambda>v. int (ver_number v)) rows = v # ys"
    and rows: "set rows = {v \<in> set ?vs. ver_number v \<le> wf_revision w}"
    using versions_in_scope_first [OF q] .
  note top = hd_sort_desc [OF sorted]
  have ne: "?vs \<noteq> []" using num by auto
  have lastn: "ver_number (last ?vs) = ?n"
    using num ne by (metis last_map last_upt le_imp_less_Suc One_nat_def diff_Suc_1)
  have "?n \<le> wf_revision w" by (simp add: version_total_def)
  then have "last ?vs \<in> set rows"
    using rows lastn ne by simp
  then have "?n \<le> ver_number v" using top(2) lastn by fastforce
  moreover have "v \<in> set ?vs" using top(1) rows by auto
  moreover have "ver_number x \<le> ?n" if "x \<in> set ?vs" for x
    using num(1) that by (metis atLeastLessThan_iff image_eqI less_Suc_eq_le list.set_map set_upt)
  moreover have "distinct (map ver_number ?vs)" unfolding num(1) by simp
  ultimately have "v = last ?vs"
    using lastn ne by (metis distinct_map inj_onD last_in_set le_antisym)
  then show ?thesis by (simp add: r snapshot_read_def)
qed

text \<open>
  What is saved is what is shown: when a save succeeds, its answer and the next read of the
  workflow by anyone who may see it show the saved draft as the version with the highest
  number, which is the number of versions.
\<close>

theorem saved_draft_is_shown:
  assumes "definitions_inv db"
    and "service_save new_version_id now aid i expected draft ctx db = (db', Inr r)"
    and "w2 \<in> set (workflows db')" and "wf_id w2 = i" and "workflow_read_of db' ctx2 w2 = Inr r2"
  shows "ver_snapshot (wr_version r) = draft \<and> ver_number (wr_version r) = expected + 1 \<and>
    wf_revision (wr_workflow r) = expected + 1 \<and> wr_version r2 = wr_version r"
proof -
  obtain scope w where save: "save_version new_version_id now i aid scope expected (Some draft) (user_id (ctx_user ctx)) db = Inr (db', w)"
    and read: "workflow_read_of db' ctx w = Inr r"
    using assms(2) unfolding service_save_def read_after_def
    by (auto simp: conflict_409_def split: sum.splits error.splits)
  note s = save_version_inv [OF assms(1) save, simplified]
  have r: "wr_workflow r = w \<and> wr_version r = last (versions_of db' i)"
    using workflow_read_of_last [OF _ _ read] s by auto
  have "wr_version r2 = last (versions_of db' i)"
    using workflow_read_of_last [OF _ assms(3,5)] s assms(4) by auto
  then show ?thesis using r s by (simp add: saved_version_def)
qed

text \<open>The Owner of the small installation saves a second version.\<close>

definition demo_owner :: current_user_context where
  "demo_owner = demo_context 1 OWNER True"

abbreviation demo_agent_100 :: agent where
  "demo_agent_100 \<equiv> demo_agent 100 7 (Some AGENT_VIEWER_ROLE_ID)"

lemma demo_owner_scope: "authorization_scope demo_owner p = Inr (organization_scope 7)"
  by (simp add: authorization_scope_def require_current_user_organization_def demo_owner_def demo_context_def demo_membership_def
      IMPLICIT_AGENT_OWNER_ROLES_def)

lemma demo_active: "get_active_in_scope demo_db 100 (organization_scope 7) = Inr (Some demo_agent_100)"
  by (simp add: get_active_in_scope_def demo_scope_agent) (simp add: demo_db_def demo_agent_def)

lemma demo_owner_visible: "require_visible demo_db demo_owner 100 = Inr demo_agent_100"
  by (simp add: require_visible_def demo_owner_scope demo_active)

lemma demo_owner_action: "require_action demo_db demo_owner 100 p d = Inr demo_agent_100"
proof -
  have "agent_id demo_agent_100 = 100" by (simp add: demo_agent_def)
  then show ?thesis
    by (simp add: require_action_def require_action_for_visible_def demo_owner_visible demo_owner_scope demo_active)
qed

lemma demo_owner_permits: "permits demo_db demo_owner demo_agent_100 AGENT_UPDATE = Inr True"
proof -
  have "current_user_organization demo_owner = Some (demo_membership 1 7 OWNER)"
    by (simp add: demo_owner_def demo_context_def)
  from allowed_actions_spec [OF demo_seeded demo_keyed this, of demo_agent_100 "[demo_agent_100]"]
  obtain acts where "allowed_actions demo_db demo_owner [demo_agent_100] = Inr acts"
    "map_of acts (agent_id demo_agent_100) = Some (filter (\<lambda>p. holds_permission demo_db (demo_membership 1 7 OWNER) (ctx_user demo_owner) p demo_agent_100 \<and>
      (api_key_access_mode demo_owner \<noteq> Some READ_ONLY \<or> p \<in> {AGENT_READ, ACTIVITY_READ, COST_READ})) AGENT_ACTION_PERMISSIONS)"
    by (auto simp: demo_db_def demo_agent_def demo_membership_def)
  moreover have "holds_permission demo_db (demo_membership 1 7 OWNER) (ctx_user demo_owner) AGENT_UPDATE demo_agent_100"
    by (simp add: holds_permission_def demo_membership_def demo_agent_def IMPLICIT_AGENT_OWNER_ROLES_def)
  ultimately show ?thesis
    by (simp add: permits_def AGENT_ACTION_PERMISSIONS_def demo_owner_def demo_context_def)
qed

lemma demo_authoring_simps [simp]:
  "wdb_access (demo_authoring r) = demo_db" "authoring_enabled (demo_authoring r)"
  by (simp_all add: demo_authoring_def demo_definitions_def empty_definitions_def authoring_enabled_def settings_read_def)

lemma demo_authoring_get: "get_in_scope (demo_authoring r) 30 100 (organization_scope 7) = Inr (Some (demo_workflow r))"
  using demo_get_in_scope [of r] by (simp add: get_in_scope_def workflow_agent_in_def demo_authoring_def)

lemma demo_authoring_save:
  "save_version 32 0 30 100 (organization_scope 7) 1 (Some (demo_draft 1)) 1 (demo_authoring 1) = Inr (demo_authoring 2, demo_workflow 2)"
proof -
  have "max_number (versions_of (demo_authoring 1) 30) = 1"
    by (simp add: max_number_def versions_of_def demo_authoring_def demo_definitions_def saved_version_def)
  then show ?thesis
    unfolding save_version_Inr
    by (simp add: demo_authoring_get insert_version_Inr)
      (simp add: demo_authoring_def demo_definitions_def demo_workflow_def row_add_def row_put_def row_get_def saved_version_def upt_rec numeral_2_eq_2)
qed

lemma demo_authoring_inv: "definitions_inv (demo_authoring 1)"
  by (simp add: definitions_inv_def demo_authoring_def demo_definitions_def demo_workflow_def numbered_def version_total_def
      versions_of_def saved_version_def)

lemma demo_read: "\<exists>v. workflow_read_of (demo_authoring (Suc r)) demo_owner (demo_workflow (Suc r)) = Inr (snapshot_read (demo_workflow (Suc r)) v True)"
proof -
  let ?db = "demo_authoring (Suc r)"
  have agent: "\<exists>w \<in> set (workflows ?db). wf_id w = 30 \<and> wf_agent_id w = 100 \<and>
      workflow_agent_in ?db (\<lambda>a. agent_organization_id a = 7 \<and> agent_deleted_at a = None) w"
    by (simp add: workflow_agent_in_def) (simp add: demo_authoring_def demo_definitions_def demo_workflow_def demo_db_def demo_agent_def)
  let ?rows = "row_where (\<lambda>v. ver_workflow_id v = 30 \<and> ver_number v \<le> Suc r) (workflow_versions ?db)"
  have "?rows \<noteq> []"
    by (auto simp: demo_authoring_def demo_definitions_def filter_empty_conv saved_version_def intro: bexI [of _ 1])
  then have "length (sort_desc (\<lambda>v. int (ver_number v)) ?rows) \<noteq> 0" by (simp add: sort_desc_def)
  then obtain v ys where "sort_desc (\<lambda>v. int (ver_number v)) ?rows = v # ys"
    by (cases "sort_desc (\<lambda>v. int (ver_number v)) ?rows") auto
  then have "versions_in_scope ?db 30 100 (organization_scope 7) 1 1 (Some (Suc r)) = Inr ([v], length ?rows)"
    using agent by (simp add: versions_in_scope_def demo_scope_agent page_of_def Let_def)
  then show ?thesis
    by (auto simp: workflow_read_of_def demo_owner_scope demo_owner_visible demo_owner_permits demo_workflow_def)
qed

lemma demo_service_save:
  "\<exists>v. service_save 32 0 100 30 1 (demo_draft 1) demo_owner (demo_authoring 1) =
    (demo_authoring 2, Inr (snapshot_read (demo_workflow 2) v True))"
proof -
  obtain v1 v2 where v: "workflow_read_of (demo_authoring 1) demo_owner (demo_workflow 1) = Inr (snapshot_read (demo_workflow 1) v1 True)"
    "workflow_read_of (demo_authoring 2) demo_owner (demo_workflow 2) = Inr (snapshot_read (demo_workflow 2) v2 True)"
    using demo_read [of 0] demo_read [of 1] by (auto simp: numeral_2_eq_2)
  have "user_id (ctx_user demo_owner) = 1" by (simp add: demo_owner_def demo_context_def demo_user_def)
  then show ?thesis
    using v demo_authoring_save
    by (auto simp: service_save_def require_authoring_def demo_owner_action service_get_def demo_owner_visible demo_owner_scope
        demo_authoring_get read_after_def conflict_409_def del: One_nat_def)
qed

lemma demo_authoring_neq: "demo_authoring 2 \<noteq> demo_authoring 1"
proof -
  have "workflows (demo_authoring 2) \<noteq> workflows (demo_authoring 1)"
    by (simp add: demo_authoring_def demo_definitions_def demo_workflow_def)
  then show ?thesis by metis
qed

theorem only_authors_change_definitions_witness:
  "\<exists>a \<in> set (agents demo_db). agent_id a = 100 \<and> caller_holds demo_db demo_owner AGENT_UPDATE a"
proof -
  let ?db = "demo_authoring 1"
  have "fst (service_create 0 32 0 100 (demo_draft 1) demo_owner ?db) \<noteq> ?db \<or>
      fst (service_save 32 0 100 30 1 (demo_draft 1) demo_owner ?db) \<noteq> ?db \<or> fst (service_archive 0 100 30 1 demo_owner ?db) \<noteq> ?db"
    using demo_service_save demo_authoring_neq by auto
  from only_authors_change_definitions [OF _ this] show ?thesis
    using demo_keyed by auto
qed

theorem saved_draft_is_shown_witness:
  "\<exists>r. snd (service_save 32 0 100 30 1 (demo_draft 1) demo_owner (demo_authoring 1)) = Inr r \<and>
    ver_snapshot (wr_version r) = demo_draft 1 \<and> ver_number (wr_version r) = 2"
proof -
  obtain v where s: "service_save 32 0 100 30 1 (demo_draft 1) demo_owner (demo_authoring 1) =
      (demo_authoring 2, Inr (snapshot_read (demo_workflow 2) v True))"
    using demo_service_save by auto
  obtain v2 where "workflow_read_of (demo_authoring 2) demo_owner (demo_workflow 2) = Inr (snapshot_read (demo_workflow 2) v2 True)"
    using demo_read [of 1] by (auto simp: numeral_2_eq_2)
  from saved_draft_is_shown [OF demo_authoring_inv s _ _ this] show ?thesis
    using s by (simp add: demo_authoring_def demo_definitions_def demo_workflow_def)
qed

end
