(* ===== verification/Artifact_References.thy ===== *)
theory Artifact_References
  imports Prelude
begin

text \<open>
  Published files and the references that keep them (\<open>api/domains/artifacts/references.py\<close>):
  pinning a file to an owner, listing the files of an attempt, and releasing an
  owner's references when it settles.
\<close>

datatype artifact_state = ArtUPLOADING | ArtREADY | ArtDELETING | ArtDELETED

record artifact =
  art_id :: uuid
  art_created_at :: datetime
  art_organization_id :: uuid
  art_agent_id :: uuid
  art_filename :: string
  art_size :: nat
  art_checksum :: string
  art_state :: artifact_state
  art_expires_at :: datetime
  art_attempt_id :: "uuid option"

record artifact_reference =
  ref_id :: uuid
  ref_artifact_id :: uuid
  ref_checksum :: string
  ref_kind :: string
  ref_owner_id :: uuid
  ref_released_at :: "datetime option"

record artifact_db =
  artifacts :: "artifact list"
  artifact_references :: "artifact_reference list"

definition find_reference :: "artifact_db \<Rightarrow> uuid \<Rightarrow> string \<Rightarrow> uuid \<Rightarrow> artifact_reference option" where
  "find_reference db aid kind owner =
    find (\<lambda>r. ref_artifact_id r = aid \<and> ref_kind r = kind \<and> ref_owner_id r = owner) (artifact_references db)"

definition pin ::
  "uuid \<Rightarrow> uuid \<Rightarrow> string \<Rightarrow> uuid \<Rightarrow> uuid \<Rightarrow> string \<Rightarrow> uuid \<Rightarrow> artifact_db \<Rightarrow> artifact_db result" where
  "pin new_id artifact_id checksum agent org kind owner db =
    (case row_get art_id artifact_id (artifacts db) of
       None \<Rightarrow> Inl (HTTPException 404 ''Artifact not found'')
     | Some a \<Rightarrow>
         bind_result (raise_if (art_agent_id a \<noteq> agent \<or> art_organization_id a \<noteq> org \<or> art_state a \<noteq> ArtREADY)
           (HTTPException 404 ''Artifact not found'')) (\<lambda>_.
         bind_result (raise_if (art_checksum a \<noteq> checksum)
           (HTTPException 409 ''Artifact checksum does not match the immutable reference'')) (\<lambda>_.
         case find_reference db artifact_id kind owner of
           None \<Rightarrow> Inr (db\<lparr>artifact_references := row_add \<lparr>ref_id = new_id, ref_artifact_id = artifact_id,
             ref_checksum = checksum, ref_kind = kind, ref_owner_id = owner, ref_released_at = None\<rparr>
             (artifact_references db)\<rparr>)
         | Some r \<Rightarrow>
             bind_result (raise_if (ref_released_at r \<noteq> None)
               (HTTPException 409 ''Released artifact references cannot be reactivated'')) (\<lambda>_. Inr db))))"

record attempt_file =
  file_artifact_id :: uuid
  file_checksum :: string
  file_filename :: string
  file_size :: nat

definition attempt_files :: "artifact_db \<Rightarrow> uuid \<Rightarrow> attempt_file list" where
  "attempt_files db attempt =
    map (\<lambda>a. \<lparr>file_artifact_id = art_id a, file_checksum = art_checksum a, file_filename = art_filename a,
        file_size = art_size a\<rparr>)
      (sort_key art_created_at
        (row_where (\<lambda>a. art_attempt_id a = Some attempt \<and> art_state a = ArtREADY) (artifacts db)))"

text \<open>\<open>release\<close>: the loop over the unreleased references of the owner; \<open>one()\<close> raises when an artifact row is missing.\<close>

fun release_loop :: "datetime \<Rightarrow> int \<Rightarrow> artifact_reference list \<Rightarrow> artifact_db \<Rightarrow> artifact_db result" where
  "release_loop now retention_days [] db = Inr db"
| "release_loop now retention_days (r # rs) db =
    (case row_get art_id (ref_artifact_id r) (artifacts db) of
       None \<Rightarrow> Inl NoResultFound
     | Some a \<Rightarrow>
         release_loop now retention_days rs
           (db\<lparr>artifact_references := row_put ref_id (r\<lparr>ref_released_at := Some now\<rparr>) (artifact_references db),
              artifacts := row_put art_id
                (if art_state a = ArtREADY then a\<lparr>art_expires_at := now + days retention_days\<rparr> else a) (artifacts db)\<rparr>))"

definition open_references :: "artifact_db \<Rightarrow> string \<Rightarrow> uuid \<Rightarrow> artifact_reference list" where
  "open_references db kind owner =
    row_where (\<lambda>r. ref_kind r = kind \<and> ref_owner_id r = owner \<and> ref_released_at r = None) (artifact_references db)"

definition release :: "datetime \<Rightarrow> string \<Rightarrow> uuid \<Rightarrow> int \<Rightarrow> artifact_db \<Rightarrow> artifact_db result" where
  "release now kind owner retention_days db = release_loop now retention_days (open_references db kind owner) db"

section \<open>Properties\<close>

interpretation artifact_table: keyed_table art_id "row_get art_id" "row_put art_id" row_add set "\<lambda>t. distinct (map art_id t)"
  by (rule row_table)

interpretation reference_table: keyed_table ref_id "row_get ref_id" "row_put ref_id" row_add set "\<lambda>t. distinct (map ref_id t)"
  by (rule row_table)

definition artifacts_ok :: "artifact_db \<Rightarrow> bool" where
  "artifacts_ok db \<longleftrightarrow> distinct (map ref_id (artifact_references db)) \<and>
    (\<forall>r \<in> set (artifact_references db). ref_artifact_id r \<in> art_id ` set (artifacts db))"

lemma artifacts_ok_images:
  "artifacts_ok db \<longleftrightarrow> distinct (map ref_id (artifact_references db)) \<and>
    ref_artifact_id ` set (artifact_references db) \<subseteq> art_id ` set (artifacts db)"
  unfolding artifacts_ok_def image_subset_iff ..

lemma art_ids_put: "art_id ` set (row_put art_id a t) = art_id ` set t"
  by (metis list.set_map map_key_row_put)

text \<open>What the loop does to the references: exactly the given ones are released at the given time.\<close>

lemma release_loop_spec:
  assumes "distinct (map ref_id (artifact_references db))"
    and "set rs \<subseteq> set (artifact_references db)" and "distinct (map ref_id rs)"
    and "\<And>r. r \<in> set rs \<Longrightarrow> ref_artifact_id r \<in> art_id ` set (artifacts db)"
  shows "\<exists>db'. release_loop now n rs db = Inr db' \<and>
    artifact_references db' = map (\<lambda>r. if r \<in> set rs then r\<lparr>ref_released_at := Some now\<rparr> else r) (artifact_references db) \<and>
    art_id ` set (artifacts db') = art_id ` set (artifacts db)"
  using assms
proof (induction rs arbitrary: db)
  case Nil
  then show ?case by simp
next
  case (Cons r rs)
  obtain a where a: "row_get art_id (ref_artifact_id r) (artifacts db) = Some a"
    using Cons.prems(4) [of r] artifact_table.get_None [of "ref_artifact_id r" "artifacts db"]
    by (cases "row_get art_id (ref_artifact_id r) (artifacts db)") auto
  let ?r = "r\<lparr>ref_released_at := Some now\<rparr>"
  let ?db = "db\<lparr>artifact_references := row_put ref_id ?r (artifact_references db), artifacts := row_put art_id
    (if art_state a = ArtREADY then a\<lparr>art_expires_at := now + days n\<rparr> else a) (artifacts db)\<rparr>"
  have same: "ref_id x = ref_id r \<longleftrightarrow> x = r" if "x \<in> set (artifact_references db)" for x
    using that Cons.prems(1,2) by (auto simp: distinct_map inj_on_def)
  have refs: "artifact_references ?db = map (\<lambda>x. if x = r then ?r else x) (artifact_references db)"
    by (auto simp: row_put_def same)
  have fresh: "?r \<notin> set rs" and sub: "set rs \<subseteq> set (artifact_references ?db)"
    using Cons.prems(2,3) by (auto simp: refs image_iff dest: imageI [of _ _ ref_id])
  have "distinct (map ref_id (artifact_references ?db))" using Cons.prems(1) by simp
  then obtain db' where "release_loop now n rs ?db = Inr db'"
    "artifact_references db' = map (\<lambda>r. if r \<in> set rs then r\<lparr>ref_released_at := Some now\<rparr> else r) (artifact_references ?db)"
    "art_id ` set (artifacts db') = art_id ` set (artifacts ?db)"
    using Cons.IH [of ?db] sub Cons.prems(3,4) by (auto simp: art_ids_put)
  moreover have "map (\<lambda>r. if r \<in> set rs then r\<lparr>ref_released_at := Some now\<rparr> else r) (artifact_references ?db)
      = map (\<lambda>x. if x \<in> set (r # rs) then x\<lparr>ref_released_at := Some now\<rparr> else x) (artifact_references db)"
    unfolding refs using fresh Cons.prems(3) by auto
  ultimately show ?case using a by (auto simp: art_ids_put)
qed

lemma release_spec:
  assumes "artifacts_ok db"
  shows "\<exists>db'. release now kind owner n db = Inr db' \<and> artifacts_ok db' \<and>
    artifact_references db' = map (\<lambda>r. if ref_kind r = kind \<and> ref_owner_id r = owner \<and> ref_released_at r = None
      then r\<lparr>ref_released_at := Some now\<rparr> else r) (artifact_references db)"
proof -
  let ?rs = "open_references db kind owner"
  have "distinct (map ref_id (artifact_references db))" "set ?rs \<subseteq> set (artifact_references db)" "distinct (map ref_id ?rs)"
    using assms by (simp_all add: artifacts_ok_def open_references_def distinct_map_filter)
  moreover have "ref_artifact_id r \<in> art_id ` set (artifacts db)" if "r \<in> set ?rs" for r
    using that assms by (simp add: artifacts_ok_def open_references_def)
  ultimately obtain db' where db': "release_loop now n ?rs db = Inr db'"
    "artifact_references db' = map (\<lambda>r. if r \<in> set ?rs then r\<lparr>ref_released_at := Some now\<rparr> else r) (artifact_references db)"
    "art_id ` set (artifacts db') = art_id ` set (artifacts db)"
    using release_loop_spec [of db ?rs now n] by blast
  have refs: "artifact_references db' = map (\<lambda>r. if ref_kind r = kind \<and> ref_owner_id r = owner \<and> ref_released_at r = None
      then r\<lparr>ref_released_at := Some now\<rparr> else r) (artifact_references db)"
    unfolding db'(2) by (rule map_cong) (simp_all add: open_references_def)
  have "map ref_id (artifact_references db') = map ref_id (artifact_references db)"
    unfolding refs by simp
  moreover have "ref_artifact_id ` set (artifact_references db') = ref_artifact_id ` set (artifact_references db)"
    unfolding refs set_map image_image by (rule image_cong) auto
  ultimately have "artifacts_ok db'"
    using assms db'(3) unfolding artifacts_ok_images by (simp only:)
  with db'(1) refs show ?thesis unfolding release_def by blast
qed

lemma filter_map_fixed:
  "(\<And>x. x \<in> set xs \<Longrightarrow> f x = x \<or> (\<not> P x \<and> \<not> P (f x))) \<Longrightarrow> filter P (map f xs) = filter P xs"
proof (induction xs)
  case Nil
  then show ?case by simp
next
  case (Cons x xs)
  then have "filter P (map f xs) = filter P xs" by simp
  moreover have "f x = x \<or> (\<not> P x \<and> \<not> P (f x))" using Cons.prems by simp
  ultimately show ?case by auto
qed

text \<open>
  Settling an owner releases all its references for good: the release succeeds, afterwards
  the owner has no unreleased reference and the references of other owners are as they
  were, and pinning one of the released files to that owner again is refused.
\<close>

theorem released_references_stay_released:
  assumes "artifacts_ok db" and "release now kind owner n db = Inr db'"
  shows "open_references db' kind owner = [] \<and>
    (\<forall>kind' owner'. (kind', owner') \<noteq> (kind, owner) \<longrightarrow> open_references db' kind' owner' = open_references db kind' owner') \<and>
    (\<forall>r \<in> set (open_references db kind owner). \<exists>e. pin new_id (ref_artifact_id r) checksum agent org kind owner db' = Inl e)"
proof -
  have refs: "artifact_references db' = map (\<lambda>r. if ref_kind r = kind \<and> ref_owner_id r = owner \<and> ref_released_at r = None
      then r\<lparr>ref_released_at := Some now\<rparr> else r) (artifact_references db)"
    using release_spec [OF assms(1), of now kind owner n] unfolding assms(2) by blast
  have released: "open_references db' kind owner = []"
    unfolding open_references_def refs filter_map filter_empty_conv by (simp add: filter_empty_conv)
  have others: "open_references db' kind' owner' = open_references db kind' owner'" if "(kind', owner') \<noteq> (kind, owner)" for kind' owner'
    unfolding open_references_def refs by (rule filter_map_fixed) (use that in auto)
  have "\<exists>e. pin new_id (ref_artifact_id r) checksum agent org kind owner db' = Inl e" if "r \<in> set (open_references db kind owner)" for r
  proof -
    let ?r = "r\<lparr>ref_released_at := Some now\<rparr>"
    have "?r \<in> set (artifact_references db')"
      using that unfolding refs open_references_def by (auto intro!: image_eqI [of _ _ r])
    moreover have "ref_artifact_id ?r = ref_artifact_id r" "ref_kind ?r = kind" "ref_owner_id ?r = owner"
      using that by (auto simp: open_references_def)
    ultimately have "find_reference db' (ref_artifact_id r) kind owner \<noteq> None"
      unfolding find_reference_def find_None_iff by metis
    then obtain x where x: "find_reference db' (ref_artifact_id r) kind owner = Some x" by auto
    then have "x \<in> set (artifact_references db')" "ref_kind x = kind" "ref_owner_id x = owner"
      by (auto simp: find_reference_def find_Some_iff)
    then have "ref_released_at x \<noteq> None" using released by (auto simp: open_references_def filter_empty_conv)
    then show ?thesis
      using x by (auto simp: pin_def raise_if_def split: option.splits)
  qed
  with released others show ?thesis by blast
qed

definition demo_artifacts :: artifact_db where
  "demo_artifacts =
    \<lparr>artifacts = [\<lparr>art_id = 1, art_created_at = 0, art_organization_id = 7, art_agent_id = 100, art_filename = ''f'',
       art_size = 3, art_checksum = ''c'', art_state = ArtREADY, art_expires_at = 0, art_attempt_id = Some 50\<rparr>],
     artifact_references = [\<lparr>ref_id = 2, ref_artifact_id = 1, ref_checksum = ''c'', ref_kind = ''run'', ref_owner_id = 40,
       ref_released_at = None\<rparr>]\<rparr>"

theorem released_references_stay_released_witness:
  "\<exists>db'. release 5 ''run'' 40 30 demo_artifacts = Inr db' \<and> open_references db' ''run'' 40 = [] \<and>
    (\<exists>e. pin 3 1 ''c'' 100 7 ''run'' 40 db' = Inl e)"
proof -
  have ok: "artifacts_ok demo_artifacts" by (simp add: artifacts_ok_def demo_artifacts_def)
  obtain db' where db': "release 5 ''run'' 40 30 demo_artifacts = Inr db'"
    using release_spec [OF ok] by blast
  have "open_references demo_artifacts ''run'' 40 = artifact_references demo_artifacts"
    by (simp add: open_references_def demo_artifacts_def)
  then show ?thesis
    using released_references_stay_released [OF ok db', of 3 "''c''" 100 7] db' by (auto simp: demo_artifacts_def)
qed

end
