(* ===== verification/Workflow_Runs.thy ===== *)
theory Workflow_Runs
  imports Workflow_Definitions Artifact_References "HOL-Library.Sublist"
begin

text \<open>
  Durable execution of workflows (\<open>api/domains/workflows/run_models.py\<close>,
  \<open>run_repository.py\<close>, \<open>config.py\<close>): runs, attempts, checkpoints and history, and every
  operation of the run repository. Each operation is one transaction that reads the clock
  once; an exception rolls it back, so it is the error alone. \<open>fail\<close> is two transactions.
\<close>

section \<open>Tables\<close>

datatype run_state =
  RunQUEUED | RunRUNNING | RunPAUSED | RunBLOCKED | RunCANCELLING | RunCANCELLED | RunSUCCEEDED | RunFAILED

datatype attempt_state = AttREASONING | AttSTOPPING | AttSTOPPED | AttCOMPLETED | AttFAILED

datatype history_kind =
    STARTED | RERUN_STARTED | CANCEL_REQUESTED | STEP_COMPLETED | NEEDS_ATTENTION | ATTEMPT_FAILED
  | FENCED | ATTEMPT_STARTED

definition TERMINAL_STATES :: "run_state set" where
  "TERMINAL_STATES = {RunSUCCEEDED, RunFAILED, RunCANCELLED}"

definition state_text :: "run_state \<Rightarrow> string" where
  "state_text s =
    (case s of RunQUEUED \<Rightarrow> ''QUEUED'' | RunRUNNING \<Rightarrow> ''RUNNING'' | RunPAUSED \<Rightarrow> ''PAUSED'' | RunBLOCKED \<Rightarrow> ''BLOCKED''
     | RunCANCELLING \<Rightarrow> ''CANCELLING'' | RunCANCELLED \<Rightarrow> ''CANCELLED'' | RunSUCCEEDED \<Rightarrow> ''SUCCEEDED'' | RunFAILED \<Rightarrow> ''FAILED'')"

text \<open>The value of an input: \<open>StrictStr | StrictInt | StrictFloat | StrictBool\<close>, a float by its \<open>repr\<close>.\<close>

datatype input_value = ValStr string | ValInt int | ValFloat string | ValBool bool

record workflow_run =
  run_id :: uuid
  run_created_at :: datetime
  run_updated_at :: datetime
  run_workflow_id :: uuid
  run_version_id :: uuid
  run_initiating_user_id :: "uuid option"
  run_initiating_membership_id :: "uuid option"
  run_client_request_id :: uuid
  run_request_hash :: string
  run_inputs :: "(string \<times> input_value) list"
  run_state :: run_state
  run_revision :: nat
  run_next_step :: nat
  run_generation :: nat
  run_runtime :: string
  run_reason :: "string option"
  run_settled_at :: "datetime option"
  run_content_expired :: bool
  run_rerun_of_run_id :: "uuid option"

record workflow_attempt =
  att_id :: uuid
  att_created_at :: datetime
  att_run_id :: uuid
  att_generation :: nat
  att_step_index :: nat
  att_state :: attempt_state
  att_capability_hash :: string
  att_expires_at :: datetime
  att_dispatched_at :: "datetime option"
  att_result_hash :: "string option"

record checkpoint_result =
  cpr_summary :: string
  cpr_step_id :: uuid
  cpr_artifacts :: "attempt_file list"

record workflow_checkpoint =
  cp_created_at :: datetime
  cp_run_id :: uuid
  cp_attempt_id :: uuid
  cp_step_index :: nat
  cp_result :: checkpoint_result

record workflow_history =
  hist_id :: uuid
  hist_created_at :: datetime
  hist_run_id :: uuid
  hist_revision :: nat
  hist_kind :: history_kind
  hist_detail :: string

record run_db = workflow_db +
  workflow_runs :: "workflow_run list"
  workflow_attempts :: "workflow_attempt list"
  workflow_checkpoints :: "workflow_checkpoint list"
  workflow_histories :: "workflow_history list"
  wdb_artifacts :: artifact_db

text \<open>
  The installation's configuration and what the code takes from libraries: the event
  registry, SHA-256 as hexadecimal text, the HMAC that signs an attempt id with the
  installation's key, and the retention of artifacts.
\<close>

record wf_env =
  env_registry :: event_registry
  env_sha256 :: "string \<Rightarrow> string"
  env_token :: "uuid \<Rightarrow> string"
  env_artifact_retention_days :: int

definition ATTEMPT_TIMEOUT_SECONDS :: int where
  "ATTEMPT_TIMEOUT_SECONDS = 900"

definition HISTORY_RETENTION_DAYS :: int where
  "HISTORY_RETENTION_DAYS = 90"

definition MAX_ATTEMPTS :: nat where
  "MAX_ATTEMPTS = 3"

definition DISPATCH_GRACE_SECONDS :: int where
  "DISPATCH_GRACE_SECONDS = 60"

section \<open>Hashes and texts\<close>

definition RETRY_PREFIX :: string where
  "RETRY_PREFIX = ''Step failed, retrying: ''"

definition timeout_cause :: "bool \<Rightarrow> string option \<Rightarrow> string" where
  "timeout_cause accepted earlier =
    (let timeout = (if accepted then ''The attempt timed out'' else ''The Agent did not accept the step'')
     in case earlier of
          None \<Rightarrow> timeout
        | Some e \<Rightarrow> if e = [] then timeout else e @ '' (last attempt: '' @ timeout @ '')'')"

definition digest :: "wf_env \<Rightarrow> json \<Rightarrow> string" where
  "digest env v = env_sha256 env (json_dumps v)"

definition input_json :: "input_value \<Rightarrow> json" where
  "input_json v = (case v of ValStr s \<Rightarrow> JStr s | ValInt i \<Rightarrow> JInt i | ValFloat r \<Rightarrow> JFloat r | ValBool b \<Rightarrow> JBool b)"

record workflow_run_create =
  rc_version_id :: uuid
  rc_client_request_id :: uuid
  rc_inputs :: "(string \<times> input_value) list"

definition start_hash :: "wf_env \<Rightarrow> workflow_run_create \<Rightarrow> uuid \<Rightarrow> uuid option \<Rightarrow> string" where
  "start_hash env payload uid rerun_of =
    (case rerun_of of
       Some r \<Rightarrow>
         digest env (JObj [(KStr ''client_request_id'', JStr (uuid_str (rc_client_request_id payload))),
           (KStr ''user_id'', JStr (uuid_str uid)), (KStr ''rerun_of_run_id'', JStr (uuid_str r))])
     | None \<Rightarrow>
         digest env (JObj [(KStr ''version_id'', JStr (uuid_str (rc_version_id payload))),
           (KStr ''client_request_id'', JStr (uuid_str (rc_client_request_id payload))),
           (KStr ''inputs'', JObj (map (\<lambda>(k, v). (KStr k, input_json v)) (rc_inputs payload))),
           (KStr ''user_id'', JStr (uuid_str uid))]))"

text \<open>\<open>json.dumps(..., allow_nan=False)\<close> raises on a float that is not finite; the hash of a re-run has none.\<close>

definition digestible :: "workflow_run_create \<Rightarrow> uuid option \<Rightarrow> bool" where
  "digestible payload rerun_of \<longleftrightarrow>
    rerun_of \<noteq> None \<or> (\<forall>(k, v) \<in> set (rc_inputs payload). case v of ValFloat r \<Rightarrow> is_finite_float r | _ \<Rightarrow> True)"

definition not_digestible :: error where
  "not_digestible = ValueError ''Out of range float values are not JSON compliant''"

section \<open>Scoped queries\<close>

definition run_in_scope :: "run_db \<Rightarrow> uuid \<Rightarrow> (agent \<Rightarrow> bool) \<Rightarrow> workflow_run \<Rightarrow> bool" where
  "run_in_scope db aid P r \<longleftrightarrow>
    (\<exists>w \<in> set (workflows db). wf_id w = run_workflow_id r \<and> wf_agent_id w = aid \<and> workflow_agent_in db P w)"

definition runs_scoped :: "run_db \<Rightarrow> uuid \<Rightarrow> authz_scope \<Rightarrow> workflow_run list result" where
  "runs_scoped db aid scope =
    bind_result (agent_scope_predicates (wdb_access db) scope False) (\<lambda>P.
    Inr (row_where (run_in_scope db aid P) (workflow_runs db)))"

definition reused_request :: error where
  "reused_request = WorkflowConflict ''Start request identity was reused with different inputs, version or actor''"

definition existing_start ::
  "wf_env \<Rightarrow> run_db \<Rightarrow> uuid \<Rightarrow> uuid \<Rightarrow> authz_scope \<Rightarrow> workflow_run_create \<Rightarrow> uuid \<Rightarrow> uuid option \<Rightarrow> uuid option result" where
  "existing_start env db workflow_id aid scope payload uid rerun_of =
    bind_result (runs_scoped db aid scope) (\<lambda>rs.
    case find (\<lambda>r. run_workflow_id r = workflow_id \<and> run_client_request_id r = rc_client_request_id payload) rs of
      None \<Rightarrow> Inr None
    | Some r \<Rightarrow>
        bind_result (raise_if (\<not> digestible payload rerun_of) not_digestible) (\<lambda>_.
        bind_result (raise_if (run_request_hash r \<noteq> start_hash env payload uid rerun_of) reused_request) (\<lambda>_.
        Inr (Some (run_id r)))))"

definition archived_workflow_ids :: "run_db \<Rightarrow> uuid list \<Rightarrow> uuid list" where
  "archived_workflow_ids db ids =
    map wf_id (row_where (\<lambda>w. wf_id w \<in> set ids \<and> wf_archived_at w \<noteq> None) (workflows db))"

definition get_workflow_one :: "'a workflow_db_scheme \<Rightarrow> uuid \<Rightarrow> workflow result" where
  "get_workflow_one db i = (case row_get wf_id i (workflows db) of None \<Rightarrow> Inl NoResultFound | Some w \<Rightarrow> Inr w)"

definition get_agent_one :: "'a workflow_db_scheme \<Rightarrow> uuid \<Rightarrow> agent result" where
  "get_agent_one db i = (case row_get agent_id i (agents (wdb_access db)) of None \<Rightarrow> Inl NoResultFound | Some a \<Rightarrow> Inr a)"

definition get_version_one :: "'a workflow_db_scheme \<Rightarrow> uuid \<Rightarrow> workflow_version result" where
  "get_version_one db i = (case row_get ver_id i (workflow_versions db) of None \<Rightarrow> Inl NoResultFound | Some v \<Rightarrow> Inr v)"

definition owning_agent_id :: "run_db \<Rightarrow> uuid \<Rightarrow> uuid result" where
  "owning_agent_id db workflow_id = bind_result (get_workflow_one db workflow_id) (\<lambda>w. Inr (wf_agent_id w))"

definition run_get :: "run_db \<Rightarrow> uuid \<Rightarrow> uuid \<Rightarrow> authz_scope \<Rightarrow> (workflow_run \<times> workflow_version) option result" where
  "run_get db i aid scope =
    bind_result (runs_scoped db aid scope) (\<lambda>rs.
    Inr (case find (\<lambda>r. run_id r = i) rs of
           None \<Rightarrow> None
         | Some r \<Rightarrow> map_option (\<lambda>v. (r, v)) (row_get ver_id (run_version_id r) (workflow_versions db))))"

definition list_runs ::
  "run_db \<Rightarrow> uuid \<Rightarrow> authz_scope \<Rightarrow> nat \<Rightarrow> nat \<Rightarrow> uuid option \<Rightarrow> ((workflow_run \<times> workflow_version) list \<times> nat) result" where
  "list_runs db aid scope page page_size workflow_id =
    bind_result (runs_scoped db aid scope) (\<lambda>rs.
    let query = (case workflow_id of None \<Rightarrow> rs | Some w \<Rightarrow> filter (\<lambda>r. run_workflow_id r = w) rs);
        rows = concat (map (\<lambda>r. map (\<lambda>v. (r, v)) (row_where (\<lambda>v. ver_id v = run_version_id r) (workflow_versions db))) query)
    in Inr (page_of page page_size (sort_desc (\<lambda>(r, v). run_created_at r) (sort_key (\<lambda>(r, v). run_id r) rows)), length query))"

definition run_history ::
  "run_db \<Rightarrow> uuid \<Rightarrow> uuid \<Rightarrow> authz_scope \<Rightarrow> nat \<Rightarrow> nat \<Rightarrow> bool \<Rightarrow> (workflow_history list \<times> nat) result" where
  "run_history db i aid scope page page_size newest_first =
    bind_result (runs_scoped db aid scope) (\<lambda>rs.
    let query = row_where (\<lambda>h. hist_run_id h \<in> run_id ` set rs \<and> hist_run_id h = i) (workflow_histories db);
        ordered = (if newest_first then sort_desc hist_created_at (sort_desc (\<lambda>h. int (hist_id h)) query)
                   else sort_key hist_created_at (sort_key hist_id query))
    in Inr (page_of page page_size ordered, length query))"

text \<open>\<open>progress\<close>: the record of a step (started, and summary and completion once it has a checkpoint) and the live attempt.\<close>

record step_record =
  sr_started_at :: "datetime option"
  sr_summary :: "string option"
  sr_completed_at :: "datetime option"

record attempt_read =
  ar_number :: nat
  ar_limit :: nat
  ar_started_at :: datetime
  ar_expires_at :: datetime
  ar_server_time :: datetime
  ar_agent_unresponsive :: bool

definition run_attempts :: "run_db \<Rightarrow> uuid \<Rightarrow> workflow_attempt list" where
  "run_attempts db i = row_where (\<lambda>a. att_run_id a = i) (workflow_attempts db)"

definition run_checkpoints :: "run_db \<Rightarrow> uuid \<Rightarrow> workflow_checkpoint list" where
  "run_checkpoints db i = row_where (\<lambda>c. cp_run_id c = i) (workflow_checkpoints db)"

definition step_record_of :: "workflow_attempt list \<Rightarrow> workflow_checkpoint list \<Rightarrow> nat \<Rightarrow> step_record option" where
  "step_record_of attempts checkpoints k =
    (case (find (\<lambda>a. att_step_index a = k) attempts, find (\<lambda>c. cp_step_index c = k) (rev checkpoints)) of
       (None, None) \<Rightarrow> None
     | (a, c) \<Rightarrow> Some \<lparr>sr_started_at = map_option att_created_at a,
         sr_summary = map_option (\<lambda>c. cpr_summary (cp_result c)) c, sr_completed_at = map_option cp_created_at c\<rparr>)"

definition progress :: "datetime \<Rightarrow> run_db \<Rightarrow> workflow_run \<Rightarrow> (nat \<Rightarrow> step_record option) \<times> attempt_read option" where
  "progress now db r =
    (let attempts = sort_key att_created_at (run_attempts db (run_id r));
         records = step_record_of attempts (run_checkpoints db (run_id r));
         step_attempts = filter (\<lambda>a. att_step_index a = run_next_step r) attempts
     in if run_state r \<noteq> RunRUNNING \<or> step_attempts = [] \<or> att_state (last step_attempts) \<noteq> AttREASONING then (records, None)
        else let current = last step_attempts
             in (records, Some \<lparr>ar_number = length step_attempts, ar_limit = MAX_ATTEMPTS,
                  ar_started_at = att_created_at current, ar_expires_at = att_expires_at current, ar_server_time = now,
                  ar_agent_unresponsive =
                    (att_dispatched_at current = None \<and> seconds DISPATCH_GRACE_SECONDS < now - att_created_at current)\<rparr>))"

section \<open>Recording a change\<close>

definition run_changed_event :: "workflow_run \<Rightarrow> agent \<Rightarrow> datetime \<Rightarrow> event_request" where
  "run_changed_event r a now =
    \<lparr>rq_event_name = ''workflow.run.changed'', rq_schema_version = 1, rq_occurred_at = now,
     rq_organization_id = Some (agent_organization_id a),
     rq_actor = \<lparr>actor_type = ActorSystem, actor_id = ''workflow-controller'', actor_organization_id = None\<rparr>,
     rq_subject = \<lparr>subject_type = SubjectAgent, subject_id = uuid_str (agent_id a),
       subject_organization_id = Some (agent_organization_id a)\<rparr>,
     rq_correlation_id = run_id r,
     rq_payload = JObj [(KStr ''run_id'', JStr (uuid_str (run_id r))), (KStr ''revision'', JInt (int (run_revision r))),
       (KStr ''state'', JStr (state_text (run_state r)))],
     rq_causation_id = None, rq_event_scope = None\<rparr>"

definition put_run :: "workflow_run \<Rightarrow> run_db \<Rightarrow> run_db" where
  "put_run r db = db\<lparr>workflow_runs := row_put run_id r (workflow_runs db)\<rparr>"

definition put_attempt :: "workflow_attempt \<Rightarrow> run_db \<Rightarrow> run_db" where
  "put_attempt a db = db\<lparr>workflow_attempts := row_put att_id a (workflow_attempts db)\<rparr>"

definition add_history :: "workflow_history \<Rightarrow> run_db \<Rightarrow> run_db result" where
  "add_history h db =
    bind_result (raise_if (row_get hist_id (hist_id h) (workflow_histories db) \<noteq> None)
      (IntegrityError ''workflow_history_pkey'')) (\<lambda>_.
    Inr (db\<lparr>workflow_histories := row_add h (workflow_histories db)\<rparr>))"

text \<open>
  \<open>_event\<close>: the run row, a history row and the staged Domain Event, whose delivery ids it
  returns. The UUIDs it draws are \<open>new_ids 0\<close> (history), \<open>new_ids 1\<close> (event) and the
  following ones (outbox rows).
\<close>

definition run_event ::
  "wf_env \<Rightarrow> (nat \<Rightarrow> uuid) \<Rightarrow> datetime \<Rightarrow> workflow_run \<Rightarrow> history_kind \<Rightarrow> string \<Rightarrow> run_db \<Rightarrow> (run_db \<times> uuid list) result" where
  "run_event env new_ids now r kind detail db =
    (let db1 = put_run (r\<lparr>run_updated_at := now\<rparr>) db in
     bind_result (add_history \<lparr>hist_id = new_ids 0, hist_created_at = now, hist_run_id = run_id r,
       hist_revision = run_revision r, hist_kind = kind, hist_detail = detail\<rparr> db1) (\<lambda>db2.
     bind_result (get_workflow_one db2 (run_workflow_id r)) (\<lambda>w.
     bind_result (get_agent_one db2 (wf_agent_id w)) (\<lambda>a.
     bind_result (build_event (env_registry env) (new_ids 1) (run_changed_event r a now)) (\<lambda>ev.
     bind_result (outbox_stage (\<lambda>i. new_ids (2 + i)) now ev (env_registry env) (wdb_events db2)) (\<lambda>(events, m).
     Inr (db2\<lparr>wdb_events := events\<rparr>, delivery_ids_for_event events (om_event_id m))))))))"

text \<open>\<open>_settle\<close>: release the run's artifact references and stamp the run.\<close>

definition settle :: "wf_env \<Rightarrow> datetime \<Rightarrow> workflow_run \<Rightarrow> run_db \<Rightarrow> (run_db \<times> workflow_run) result" where
  "settle env now r db =
    bind_result (release now ''run'' (run_id r) (env_artifact_retention_days env) (wdb_artifacts db)) (\<lambda>arts.
    Inr (db\<lparr>wdb_artifacts := arts\<rparr>, r\<lparr>run_settled_at := Some now\<rparr>))"

section \<open>Starting and cancelling\<close>

definition new_run ::
  "uuid \<Rightarrow> datetime \<Rightarrow> uuid \<Rightarrow> workflow_run_create \<Rightarrow> uuid \<Rightarrow> uuid \<Rightarrow> string \<Rightarrow> string \<Rightarrow> uuid option \<Rightarrow> workflow_run" where
  "new_run new_id now workflow_id payload uid mid hash runtime rerun_of =
    \<lparr>run_id = new_id, run_created_at = now, run_updated_at = now, run_workflow_id = workflow_id,
     run_version_id = rc_version_id payload, run_initiating_user_id = Some uid, run_initiating_membership_id = Some mid,
     run_client_request_id = rc_client_request_id payload, run_request_hash = hash, run_inputs = rc_inputs payload,
     run_state = RunQUEUED, run_revision = 1, run_next_step = 0, run_generation = 0, run_runtime = runtime,
     run_reason = None, run_settled_at = None, run_content_expired = False, run_rerun_of_run_id = rerun_of\<rparr>"

definition insert_run :: "workflow_run \<Rightarrow> run_db \<Rightarrow> run_db result" where
  "insert_run r db =
    bind_result (raise_if (row_get run_id (run_id r) (workflow_runs db) \<noteq> None) (IntegrityError ''workflow_run_pkey'')) (\<lambda>_.
    bind_result (raise_if (\<exists>x \<in> set (workflow_runs db). run_workflow_id x = run_workflow_id r \<and>
        run_client_request_id x = run_client_request_id r) (IntegrityError ''uq_workflow_run_start'')) (\<lambda>_.
    Inr (db\<lparr>workflow_runs := row_add r (workflow_runs db)\<rparr>)))"

definition require_rerun_source :: "run_db \<Rightarrow> uuid option \<Rightarrow> unit result" where
  "require_rerun_source db rerun_of =
    (case rerun_of of
       None \<Rightarrow> Inr ()
     | Some i \<Rightarrow>
         raise_if (case row_get run_id i (workflow_runs db) of None \<Rightarrow> True | Some s \<Rightarrow> run_content_expired s)
           (WorkflowConflict ''The source run's inputs are no longer available''))"

definition start_event ::
  "wf_env \<Rightarrow> (nat \<Rightarrow> uuid) \<Rightarrow> datetime \<Rightarrow> workflow_run \<Rightarrow> uuid option \<Rightarrow> nat \<Rightarrow> run_db \<Rightarrow> (run_db \<times> uuid list) result" where
  "start_event env new_ids now r rerun_of number db =
    (case rerun_of of
       Some s \<Rightarrow> run_event env new_ids now r RERUN_STARTED
         (''Re-run of run '' @ take 8 (uuid_str s) @ '' using version '' @ nat_str number) db
     | None \<Rightarrow> run_event env new_ids now r STARTED (''Run started using version '' @ nat_str number) db)"

definition version_unavailable :: error where
  "version_unavailable = WorkflowConflict ''The saved version is unavailable or the workflow is archived''"

definition start_new ::
  "wf_env \<Rightarrow> uuid \<Rightarrow> (nat \<Rightarrow> uuid) \<Rightarrow> datetime \<Rightarrow> workflow \<Rightarrow> workflow_run_create \<Rightarrow> uuid \<Rightarrow> uuid
    \<Rightarrow> string \<Rightarrow> uuid option \<Rightarrow> run_db \<Rightarrow> (run_db \<times> workflow_run \<times> uuid list) result" where
  "start_new env new_id new_ids now w payload uid mid runtime rerun_of db =
    bind_result (require_rerun_source db rerun_of) (\<lambda>_.
    case row_get ver_id (rc_version_id payload) (workflow_versions db) of
      None \<Rightarrow> Inl version_unavailable
    | Some v \<Rightarrow>
        bind_result (raise_if (wf_archived_at w \<noteq> None \<or> ver_workflow_id v \<noteq> wf_id w) version_unavailable) (\<lambda>_.
        let r = new_run new_id now (wf_id w) payload uid mid (start_hash env payload uid rerun_of) runtime rerun_of in
        bind_result (insert_run r db) (\<lambda>db1.
        bind_result (start_event env new_ids now r rerun_of (ver_number v) db1) (\<lambda>(db2, ids). Inr (db2, r, ids)))))"

definition run_start ::
  "wf_env \<Rightarrow> uuid \<Rightarrow> (nat \<Rightarrow> uuid) \<Rightarrow> datetime \<Rightarrow> uuid \<Rightarrow> uuid \<Rightarrow> authz_scope \<Rightarrow> workflow_run_create \<Rightarrow> uuid \<Rightarrow> uuid
    \<Rightarrow> string \<Rightarrow> uuid option \<Rightarrow> run_db \<Rightarrow> (run_db \<times> workflow_run \<times> uuid list) result" where
  "run_start env new_id new_ids now workflow_id aid scope payload uid mid runtime rerun_of db =
    bind_result (raise_if (\<not> digestible payload rerun_of) not_digestible) (\<lambda>_.
    bind_result (get_active_in_scope (wdb_access db) aid scope) (\<lambda>agent.
    bind_result (raise_if (agent = None) (WorkflowConflict ''Workflow access changed'')) (\<lambda>_.
    bind_result (get_in_scope db workflow_id aid scope) (\<lambda>found.
    case found of
      None \<Rightarrow> Inl (WorkflowConflict ''Workflow access changed'')
    | Some w \<Rightarrow>
       (case find (\<lambda>r. run_workflow_id r = workflow_id \<and> run_client_request_id r = rc_client_request_id payload) (workflow_runs db) of
          Some r \<Rightarrow>
            bind_result (raise_if (run_request_hash r \<noteq> start_hash env payload uid rerun_of) reused_request) (\<lambda>_. Inr (db, r, []))
        | None \<Rightarrow> start_new env new_id new_ids now w payload uid mid runtime rerun_of db)))))"

definition CANCEL_REASON :: string where
  "CANCEL_REASON = ''Cancellation requested; claimed work is stopping''"

definition run_cancel ::
  "wf_env \<Rightarrow> (nat \<Rightarrow> uuid) \<Rightarrow> datetime \<Rightarrow> uuid \<Rightarrow> uuid \<Rightarrow> authz_scope \<Rightarrow> nat \<Rightarrow> run_db \<Rightarrow> (run_db \<times> uuid list) result" where
  "run_cancel env new_ids now i aid scope revision db =
    bind_result (runs_scoped db aid scope) (\<lambda>rs.
    case find (\<lambda>r. run_id r = i) rs of
      None \<Rightarrow> Inl (WorkflowConflict ''Run access changed'')
    | Some r \<Rightarrow>
        if run_state r \<in> {RunCANCELLING, RunCANCELLED} then Inr (db, [])
        else bind_result (raise_if (run_revision r \<noteq> revision \<or> run_state r \<in> TERMINAL_STATES)
            (WorkflowConflict ''Run changed; refresh before cancelling'')) (\<lambda>_.
          run_event env new_ids now
            (r\<lparr>run_state := RunCANCELLING, run_reason := Some CANCEL_REASON, run_revision := run_revision r + 1\<rparr>)
            CANCEL_REQUESTED CANCEL_REASON db))"

section \<open>Admission of an attempt\<close>

text \<open>\<open>_authorized\<close>: the initiator still has \<open>agent.update\<close> on the running Agent.\<close>

definition authorized :: "run_db \<Rightarrow> workflow_run \<Rightarrow> bool result" where
  "authorized db r =
    (case Option.bind (run_initiating_membership_id r) (\<lambda>i. row_get mem_id i (memberships (wdb_access db))) of
       None \<Rightarrow> Inr False
     | Some m \<Rightarrow>
         if mem_user_id m \<noteq> run_initiating_user_id r then Inr False
         else (case Option.bind (mem_user_id m) (\<lambda>u. row_get user_id u (users (wdb_access db))) of
             None \<Rightarrow> Inr False
           | Some u \<Rightarrow>
               let scope = (if mem_role m \<in> IMPLICIT_AGENT_OWNER_ROLES then organization_scope (mem_organization_id m)
                            else explicit_scope m u AGENT_UPDATE) in
               bind_result (get_workflow_one db (run_workflow_id r)) (\<lambda>w.
               bind_result (agent_scope_predicates (wdb_access db) scope False) (\<lambda>P.
               Inr (find (\<lambda>a. agent_id a = wf_agent_id w \<and> agent_status a = RUNNING \<and> P a) (agents (wdb_access db)) \<noteq> None)))))"

definition attempt_fenced :: error where
  "attempt_fenced = WorkflowConflict ''Workflow attempt admission is fenced''"

definition fenced_attempt :: "datetime \<Rightarrow> workflow_attempt \<Rightarrow> run_db \<Rightarrow> (workflow_run \<times> workflow_attempt) result" where
  "fenced_attempt now a db =
    (case row_get run_id (att_run_id a) (workflow_runs db) of
       None \<Rightarrow> Inl NoResultFound
     | Some r \<Rightarrow>
         bind_result (raise_if (run_state r \<noteq> RunRUNNING \<or> att_state a \<noteq> AttREASONING \<or>
           run_generation r \<noteq> att_generation a \<or> att_expires_at a \<le> now) attempt_fenced) (\<lambda>_.
         bind_result (authorized db r) (\<lambda>ok.
         bind_result (raise_if (\<not> ok) attempt_fenced) (\<lambda>_. Inr (r, a)))))"

definition bound :: "wf_env \<Rightarrow> datetime \<Rightarrow> uuid \<Rightarrow> string \<Rightarrow> run_db \<Rightarrow> (workflow_run \<times> workflow_attempt) result" where
  "bound env now attempt_id token db =
    (case row_get att_id attempt_id (workflow_attempts db) of
       None \<Rightarrow> Inl (WorkflowConflict ''Invalid workflow attempt capability'')
     | Some a \<Rightarrow>
         bind_result (raise_if (att_capability_hash a \<noteq> env_sha256 env token)
           (WorkflowConflict ''Invalid workflow attempt capability'')) (\<lambda>_.
         fenced_attempt now a db))"

definition artifact_attempt :: "datetime \<Rightarrow> uuid \<Rightarrow> uuid \<Rightarrow> run_db \<Rightarrow> (workflow_run \<times> workflow_attempt) result" where
  "artifact_attempt now attempt_id aid db =
    (case row_get att_id attempt_id (workflow_attempts db) of
       None \<Rightarrow> Inl (WorkflowConflict ''Workflow attempt not found'')
     | Some a \<Rightarrow>
         (case row_get run_id (att_run_id a) (workflow_runs db) of
            None \<Rightarrow> Inl NoResultFound
          | Some r \<Rightarrow>
              bind_result (get_workflow_one db (run_workflow_id r)) (\<lambda>w.
              bind_result (raise_if (wf_agent_id w \<noteq> aid) (WorkflowConflict ''Workflow attempt belongs to another Agent'')) (\<lambda>_.
              fenced_attempt now a db))))"

record step_packet =
  pk_attempt_id :: uuid
  pk_inputs :: "(string \<times> input_value) list"
  pk_step :: workflow_step
  pk_completed_steps :: "checkpoint_result list"
  pk_final_output_description :: "string option"

definition step_at :: "workflow_version \<Rightarrow> nat \<Rightarrow> workflow_step result" where
  "step_at v k =
    (if k < length (draft_steps (ver_snapshot v)) then Inr (draft_steps (ver_snapshot v) ! k) else Inl IndexError)"

definition admit ::
  "wf_env \<Rightarrow> datetime \<Rightarrow> uuid \<Rightarrow> string \<Rightarrow> run_db \<Rightarrow> (workflow_run \<times> workflow_attempt \<times> step_packet) result" where
  "admit env now attempt_id token db =
    bind_result (bound env now attempt_id token db) (\<lambda>(r, a).
    bind_result (get_version_one db (run_version_id r)) (\<lambda>v.
    bind_result (step_at v (att_step_index a)) (\<lambda>s.
    Inr (r, a, \<lparr>pk_attempt_id = att_id a, pk_inputs = run_inputs r, pk_step = s,
      pk_completed_steps = map cp_result (sort_key cp_step_index (run_checkpoints db (run_id r))),
      pk_final_output_description =
        (if att_step_index a + 1 = length (draft_steps (ver_snapshot v))
         then draft_final_artifact_description (ver_snapshot v) else None)\<rparr>))))"

section \<open>Progression\<close>

definition is_active :: "workflow_attempt \<Rightarrow> bool" where
  "is_active a \<longleftrightarrow> att_state a \<in> {AttREASONING, AttSTOPPING}"

definition current_attempt :: "run_db \<Rightarrow> workflow_run \<Rightarrow> workflow_attempt option" where
  "current_attempt db r =
    find (\<lambda>a. att_run_id a = run_id r \<and> att_generation a = run_generation r) (workflow_attempts db)"

definition reported_failure :: "run_db \<Rightarrow> workflow_run \<Rightarrow> string option" where
  "reported_failure db r =
    (case sort_desc (\<lambda>h. int (hist_revision h))
        (row_where (\<lambda>h. hist_run_id h = run_id r \<and> hist_kind h \<in> {ATTEMPT_FAILED, STEP_COMPLETED}) (workflow_histories db)) of
       [] \<Rightarrow> None
     | h # _ \<Rightarrow> if hist_kind h = ATTEMPT_FAILED then Some (hist_detail h) else None)"

text \<open>The number of attempts a step has had (the query \<open>retries\<close>).\<close>

definition step_attempts :: "run_db \<Rightarrow> uuid \<Rightarrow> nat \<Rightarrow> nat" where
  "step_attempts db i k = length (row_where (\<lambda>a. att_run_id a = i \<and> att_step_index a = k) (workflow_attempts db))"

text \<open>Lines 570 to 596: what becomes of a run whose attempt has stopped.\<close>

definition after_stop ::
  "wf_env \<Rightarrow> datetime \<Rightarrow> string option \<Rightarrow> bool \<Rightarrow> bool \<Rightarrow> workflow_run \<Rightarrow> workflow_attempt option \<Rightarrow> run_db
    \<Rightarrow> (run_db \<times> workflow_run) result" where
  "after_stop env now cause ok expired r attempt db =
    (if run_state r = RunCANCELLING then
       settle env now (r\<lparr>run_state := RunCANCELLED,
         run_reason := Some ''Cancelled; completed step summaries are preserved''\<rparr>) db
     else if expired \<and> ok \<and> run_state r \<noteq> RunPAUSED then
       let c = (case cause of
                  Some t \<Rightarrow> t
                | None \<Rightarrow> timeout_cause (case attempt of None \<Rightarrow> False | Some a \<Rightarrow> att_dispatched_at a \<noteq> None)
                    (reported_failure db r))
       in if step_attempts db (run_id r) (run_next_step r) < MAX_ATTEMPTS
          then Inr (db, r\<lparr>run_state := RunQUEUED, run_reason := Some (RETRY_PREFIX @ c)\<rparr>)
          else settle env now (r\<lparr>run_state := RunFAILED, run_reason := Some (''Attempt recovery limit reached: '' @ c)\<rparr>) db
     else Inr (db, r))"

definition fence_detail :: "bool \<Rightarrow> workflow_run \<Rightarrow> string" where
  "fence_detail reported r =
    (case (if reported \<and> run_state r = RunQUEUED then Some ''Fresh attempt queued'' else run_reason r) of
       None \<Rightarrow> ''Attempt stopped''
     | Some d \<Rightarrow> if d = [] then ''Attempt stopped'' else d)"

text \<open>\<open>session.add(run)\<close> and commit: an unchanged row is not written, a changed one gets a new \<open>updated_at\<close>.\<close>

definition flush_run :: "datetime \<Rightarrow> workflow_run \<Rightarrow> run_db \<Rightarrow> run_db" where
  "flush_run now r db =
    (if row_get run_id (run_id r) (workflow_runs db) = Some r then db else put_run (r\<lparr>run_updated_at := now\<rparr>) db)"

definition stop_attempt :: "bool \<Rightarrow> workflow_attempt option \<Rightarrow> run_db \<Rightarrow> run_db" where
  "stop_attempt stopped attempt db =
    (case attempt of
       None \<Rightarrow> db
     | Some a \<Rightarrow> if is_active a then put_attempt (a\<lparr>att_state := if stopped then AttSTOPPED else AttSTOPPING\<rparr>) db else db)"

text \<open>Lines 562 to 602: stop the attempt; once it has stopped, settle, requeue or keep the run, and record the fence.\<close>

definition advance_fence ::
  "wf_env \<Rightarrow> (nat \<Rightarrow> uuid) \<Rightarrow> datetime \<Rightarrow> bool \<Rightarrow> string option \<Rightarrow> bool \<Rightarrow> bool \<Rightarrow> workflow_run \<Rightarrow> workflow_attempt option
    \<Rightarrow> run_db \<Rightarrow> (run_db \<times> workflow_attempt option \<times> uuid list) result" where
  "advance_fence env new_ids now stopped cause ok expired r attempt db =
    (let active = (case attempt of None \<Rightarrow> False | Some a \<Rightarrow> is_active a); db1 = stop_attempt stopped attempt db in
     if active \<and> \<not> stopped then Inr (flush_run now r db1, None, [])
     else
       bind_result (after_stop env now cause ok expired r attempt db1) (\<lambda>(db2, r2).
       let r3 = r2\<lparr>run_revision := run_revision r2 + 1\<rparr> in
       bind_result (run_event env new_ids now r3 FENCED (fence_detail (cause \<noteq> None) r3) db2) (\<lambda>(db3, ids).
       Inr (db3, None, ids))))"

text \<open>Lines 605 to 622: a fresh attempt for the next step.\<close>

definition new_attempt :: "wf_env \<Rightarrow> uuid \<Rightarrow> datetime \<Rightarrow> workflow_run \<Rightarrow> workflow_attempt" where
  "new_attempt env new_id now r =
    \<lparr>att_id = new_id, att_created_at = now, att_run_id = run_id r, att_generation = run_generation r,
     att_step_index = run_next_step r, att_state = AttREASONING,
     att_capability_hash = env_sha256 env (env_token env new_id),
     att_expires_at = now + seconds ATTEMPT_TIMEOUT_SECONDS, att_dispatched_at = None, att_result_hash = None\<rparr>"

definition insert_attempt :: "workflow_attempt \<Rightarrow> run_db \<Rightarrow> run_db result" where
  "insert_attempt a db =
    bind_result (raise_if (row_get att_id (att_id a) (workflow_attempts db) \<noteq> None) (IntegrityError ''workflow_attempt_pkey'')) (\<lambda>_.
    bind_result (raise_if (\<exists>x \<in> set (workflow_attempts db). att_run_id x = att_run_id a \<and> att_generation x = att_generation a)
      (IntegrityError ''uq_workflow_attempt_generation'')) (\<lambda>_.
    Inr (db\<lparr>workflow_attempts := row_add a (workflow_attempts db)\<rparr>)))"

definition advance_start ::
  "wf_env \<Rightarrow> uuid \<Rightarrow> (nat \<Rightarrow> uuid) \<Rightarrow> datetime \<Rightarrow> workflow_run \<Rightarrow> run_db \<Rightarrow> (run_db \<times> workflow_attempt option \<times> uuid list) result" where
  "advance_start env new_id new_ids now r db =
    (let r1 = r\<lparr>run_generation := run_generation r + 1, run_state := RunRUNNING, run_revision := run_revision r + 1\<rparr>;
         a = new_attempt env new_id now r1 in
     bind_result (insert_attempt a db) (\<lambda>db1.
     bind_result (run_event env new_ids now r1 ATTEMPT_STARTED
       (''Step '' @ nat_str (run_next_step r1 + 1) @ '' started in a fresh session'') db1) (\<lambda>(db2, ids).
     Inr (db2, Some a, ids))))"

definition PAUSE_REASON :: string where
  "PAUSE_REASON = ''Initiator authority or Agent lifecycle changed''"

definition attempt_expired :: "datetime \<Rightarrow> bool \<Rightarrow> workflow_attempt option \<Rightarrow> bool" where
  "attempt_expired now lost attempt =
    (case attempt of
       None \<Rightarrow> False
     | Some a \<Rightarrow> is_active a \<and> (att_expires_at a \<le> now \<or> lost \<or> att_state a = AttSTOPPING))"

text \<open>The row as \<open>advance\<close> sees it: a run of a missing or deleted Agent is being cancelled.\<close>

definition observed_run :: "run_db \<Rightarrow> workflow \<Rightarrow> workflow_run \<Rightarrow> workflow_run" where
  "observed_run db w r =
    (case row_get agent_id (wf_agent_id w) (agents (wdb_access db)) of
       None \<Rightarrow> r\<lparr>run_state := RunCANCELLING\<rparr>
     | Some a \<Rightarrow> if agent_deleted_at a \<noteq> None then r\<lparr>run_state := RunCANCELLING\<rparr> else r)"

definition paused_unless :: "bool \<Rightarrow> workflow_run \<Rightarrow> workflow_run" where
  "paused_unless ok r =
    (if \<not> ok \<and> run_state r \<noteq> RunCANCELLING then r\<lparr>run_state := RunPAUSED, run_reason := Some PAUSE_REASON\<rparr> else r)"

definition advance ::
  "wf_env \<Rightarrow> uuid \<Rightarrow> (nat \<Rightarrow> uuid) \<Rightarrow> datetime \<Rightarrow> bool \<Rightarrow> bool \<Rightarrow> string option \<Rightarrow> uuid \<Rightarrow> run_db
    \<Rightarrow> (run_db \<times> workflow_attempt option \<times> uuid list) result" where
  "advance env new_id new_ids now stopped lost cause i db =
    (case row_get run_id i (workflow_runs db) of
       None \<Rightarrow> Inr (db, None, [])
     | Some r \<Rightarrow>
         if run_state r \<in> TERMINAL_STATES then Inr (db, None, [])
         else
           bind_result (get_workflow_one db (run_workflow_id r)) (\<lambda>w.
           let r1 = observed_run db w r; attempt = current_attempt db r1 in
           if run_state r1 = RunPAUSED \<and> \<not> (case attempt of None \<Rightarrow> False | Some a \<Rightarrow> is_active a) then Inr (db, None, [])
           else
             bind_result (authorized db r1) (\<lambda>ok.
             let r2 = paused_unless ok r1; expired = attempt_expired now lost attempt in
             if run_state r2 \<in> {RunCANCELLING, RunPAUSED} \<or> expired then
               advance_fence env new_ids now stopped cause ok expired r2 attempt db
             else if run_state r2 \<noteq> RunQUEUED then
               Inr (db, (case attempt of None \<Rightarrow> None | Some a \<Rightarrow> if att_state a = AttREASONING then Some a else None), [])
             else advance_start env new_id new_ids now r2 db)))"

section \<open>Reports of the Agent\<close>

definition result_json :: "string \<Rightarrow> json" where
  "result_json summary = JObj [(KStr ''summary'', JStr summary), (KStr ''criteria_met'', JBool True)]"

definition insert_checkpoint :: "workflow_checkpoint \<Rightarrow> run_db \<Rightarrow> run_db result" where
  "insert_checkpoint c db =
    bind_result (raise_if (\<exists>x \<in> set (workflow_checkpoints db). cp_run_id x = cp_run_id c \<and> cp_step_index x = cp_step_index c)
      (IntegrityError ''uq_workflow_checkpoint_step'')) (\<lambda>_.
    Inr (db\<lparr>workflow_checkpoints := row_add c (workflow_checkpoints db)\<rparr>))"

definition is_duplicate_result :: "wf_env \<Rightarrow> uuid \<Rightarrow> string \<Rightarrow> string \<Rightarrow> run_db \<Rightarrow> bool" where
  "is_duplicate_result env attempt_id token summary db =
    (case row_get att_id attempt_id (workflow_attempts db) of
       None \<Rightarrow> False
     | Some a \<Rightarrow> att_capability_hash a = env_sha256 env token \<and> att_state a = AttCOMPLETED \<and>
         att_result_hash a = Some (digest env (result_json summary)))"

text \<open>\<open>complete\<close>: a result is \<open>AttemptResult\<close>, whose \<open>criteria_met\<close> is always true, so it is its summary.\<close>

definition step_checkpoint ::
  "datetime \<Rightarrow> workflow_run \<Rightarrow> workflow_attempt \<Rightarrow> workflow_step \<Rightarrow> string \<Rightarrow> run_db \<Rightarrow> workflow_checkpoint" where
  "step_checkpoint now r a s summary db =
    \<lparr>cp_created_at = now, cp_run_id = run_id r, cp_attempt_id = att_id a, cp_step_index = att_step_index a,
     cp_result = \<lparr>cpr_summary = summary, cpr_step_id = step_id s,
       cpr_artifacts = attempt_files (wdb_artifacts db) (att_id a)\<rparr>\<rparr>"

definition completed_attempt :: "wf_env \<Rightarrow> string \<Rightarrow> workflow_attempt \<Rightarrow> workflow_attempt" where
  "completed_attempt env summary a =
    a\<lparr>att_state := AttCOMPLETED, att_result_hash := Some (digest env (result_json summary))\<rparr>"

text \<open>Lines 449 to 454: the run after its step, settled when it was the last one.\<close>

definition finish_step :: "wf_env \<Rightarrow> datetime \<Rightarrow> workflow_version \<Rightarrow> workflow_run \<Rightarrow> run_db \<Rightarrow> (run_db \<times> workflow_run) result" where
  "finish_step env now v r db =
    (let last_step = (run_next_step r + 1 = length (draft_steps (ver_snapshot v)));
         r1 = r\<lparr>run_next_step := run_next_step r + 1, run_revision := run_revision r + 1, run_reason := None,
           run_state := if last_step then RunSUCCEEDED else RunQUEUED\<rparr>
     in if last_step then settle env now r1 db else Inr (db, r1))"

definition complete_bound ::
  "wf_env \<Rightarrow> (nat \<Rightarrow> uuid) \<Rightarrow> datetime \<Rightarrow> string \<Rightarrow> run_db \<Rightarrow> workflow_run \<times> workflow_attempt \<Rightarrow> (run_db \<times> uuid list) result" where
  "complete_bound env new_ids now summary db = (\<lambda>(r, a).
    bind_result (get_version_one db (run_version_id r)) (\<lambda>v.
    bind_result (step_at v (att_step_index a)) (\<lambda>s.
    bind_result (insert_checkpoint (step_checkpoint now r a s summary db) db) (\<lambda>db1.
    bind_result (finish_step env now v r (put_attempt (completed_attempt env summary a) db1)) (\<lambda>(db2, r1).
    run_event env new_ids now r1 STEP_COMPLETED summary db2)))))"

definition complete ::
  "wf_env \<Rightarrow> (nat \<Rightarrow> uuid) \<Rightarrow> datetime \<Rightarrow> uuid \<Rightarrow> string \<Rightarrow> string \<Rightarrow> run_db \<Rightarrow> (run_db \<times> uuid list) result" where
  "complete env new_ids now attempt_id token summary db =
    (if is_duplicate_result env attempt_id token summary db then Inr (db, [])
     else bind_result (bound env now attempt_id token db) (complete_bound env new_ids now summary db))"

record attempt_failure =
  fail_reason :: string
  fail_needs_attention :: bool
  fail_retryable :: bool

text \<open>The first transaction of \<open>fail\<close>.\<close>

definition fail_record ::
  "wf_env \<Rightarrow> (nat \<Rightarrow> uuid) \<Rightarrow> datetime \<Rightarrow> uuid \<Rightarrow> string \<Rightarrow> attempt_failure \<Rightarrow> run_db \<Rightarrow> (run_db \<times> uuid \<times> uuid list) result" where
  "fail_record env new_ids now attempt_id token f db =
    bind_result (bound env now attempt_id token db) (\<lambda>(r, a).
    let r1 = r\<lparr>run_revision := run_revision r + 1\<rparr> in
    if fail_needs_attention f then
      bind_result (run_event env new_ids now (r1\<lparr>run_state := RunBLOCKED, run_reason := Some (fail_reason f)\<rparr>)
        NEEDS_ATTENTION (fail_reason f) (put_attempt (a\<lparr>att_state := AttSTOPPED\<rparr>) db)) (\<lambda>(db1, ids).
      Inr (db1, run_id r, ids))
    else if \<not> fail_retryable f then
      bind_result (settle env now (r1\<lparr>run_state := RunFAILED, run_reason := Some (fail_reason f)\<rparr>)
        (put_attempt (a\<lparr>att_state := AttSTOPPED\<rparr>) db)) (\<lambda>(db1, r2).
      bind_result (run_event env new_ids now r2 ATTEMPT_FAILED (fail_reason f) db1) (\<lambda>(db2, ids).
      Inr (db2, run_id r, ids)))
    else
      bind_result (run_event env new_ids now r1 ATTEMPT_FAILED (fail_reason f) db) (\<lambda>(db1, ids).
      Inr (db1, run_id r, ids)))"

text \<open>
  \<open>fail\<close>: the second transaction (the retry) follows when the failure can be retried; if
  it raises, the first one stays.
\<close>

definition fail ::
  "wf_env \<Rightarrow> uuid \<Rightarrow> (nat \<Rightarrow> uuid) \<Rightarrow> (nat \<Rightarrow> uuid) \<Rightarrow> datetime \<Rightarrow> datetime \<Rightarrow> uuid \<Rightarrow> string \<Rightarrow> attempt_failure
    \<Rightarrow> run_db \<Rightarrow> run_db \<times> uuid list result" where
  "fail env new_id new_ids new_ids2 now later attempt_id token f db =
    (case fail_record env new_ids now attempt_id token f db of
       Inl e \<Rightarrow> (db, Inl e)
     | Inr (db1, i, ids) \<Rightarrow>
         if \<not> fail_needs_attention f \<and> fail_retryable f then
           (case advance env new_id new_ids2 later True True (Some (fail_reason f)) i db1 of
              Inl e \<Rightarrow> (db1, Inl e)
            | Inr (db2, a, ids2) \<Rightarrow> (db2, Inr (ids @ ids2)))
         else (db1, Inr ids))"

definition mark_dispatched :: "datetime \<Rightarrow> uuid \<Rightarrow> run_db \<Rightarrow> run_db" where
  "mark_dispatched now attempt_id db =
    (case row_get att_id attempt_id (workflow_attempts db) of
       None \<Rightarrow> db
     | Some a \<Rightarrow> if att_dispatched_at a = None then put_attempt (a\<lparr>att_dispatched_at := Some now\<rparr>) db else db)"

section \<open>Operator passes\<close>

definition active_ids :: "nat \<Rightarrow> run_db \<Rightarrow> uuid list" where
  "active_ids limit db =
    map run_id (take limit (sort_key run_updated_at (row_where (\<lambda>r. run_state r \<notin> TERMINAL_STATES) (workflow_runs db))))"

definition run_inspect :: "run_db \<Rightarrow> uuid \<Rightarrow> (workflow_run \<times> workflow_attempt option) option" where
  "run_inspect db i = map_option (\<lambda>r. (r, current_attempt db r)) (row_get run_id i (workflow_runs db))"

definition expired_runs :: "datetime \<Rightarrow> nat \<Rightarrow> run_db \<Rightarrow> workflow_run list" where
  "expired_runs now limit db =
    take limit (row_where (\<lambda>r. (case run_settled_at r of None \<Rightarrow> False | Some t \<Rightarrow> t \<le> now - days HISTORY_RETENTION_DAYS) \<and>
      \<not> run_content_expired r) (workflow_runs db))"

definition expire_run :: "datetime \<Rightarrow> workflow_run \<Rightarrow> run_db \<Rightarrow> run_db" where
  "expire_run now r db =
    (put_run (r\<lparr>run_inputs := [], run_content_expired := True, run_updated_at := now\<rparr>) db)
      \<lparr>workflow_checkpoints := row_where (\<lambda>c. cp_run_id c \<noteq> run_id r) (workflow_checkpoints db),
       workflow_histories := map (\<lambda>h. if hist_run_id h = run_id r
         then h\<lparr>hist_detail := ''Content expired under the installation retention policy''\<rparr> else h) (workflow_histories db)\<rparr>"

definition expire_content :: "datetime \<Rightarrow> nat \<Rightarrow> run_db \<Rightarrow> run_db" where
  "expire_content now limit db = foldl (\<lambda>d r. expire_run now r d) db (expired_runs now limit db)"

section \<open>The invariant of a run\<close>

interpretation run_table: keyed_table run_id "row_get run_id" "row_put run_id" row_add set "\<lambda>t. distinct (map run_id t)"
  by (rule row_table)

interpretation attempt_table: keyed_table att_id "row_get att_id" "row_put att_id" row_add set "\<lambda>t. distinct (map att_id t)"
  by (rule row_table)

definition count_step :: "workflow_attempt list \<Rightarrow> nat \<Rightarrow> nat" where
  "count_step as k = length (filter (\<lambda>a. att_step_index a = k) as)"

definition live :: "workflow_attempt list \<Rightarrow> bool" where
  "live as \<longleftrightarrow> as \<noteq> [] \<and> is_active (last as)"

text \<open>
  A run of a version with \<open>n\<close> steps, its attempts in the order they were made and the steps
  that have a checkpoint, in the order they were completed.
\<close>

definition attempts_ok :: "nat \<Rightarrow> workflow_run \<Rightarrow> workflow_attempt list \<Rightarrow> bool" where
  "attempts_ok n r as \<longleftrightarrow>
    map att_generation as = [1..<Suc (run_generation r)] \<and>
    (\<forall>a \<in> set (butlast as). \<not> is_active a) \<and>
    (live as \<longrightarrow> att_step_index (last as) = run_next_step r) \<and>
    (\<forall>a \<in> set as. att_step_index a \<le> run_next_step r \<and> att_step_index a < n) \<and>
    (\<forall>k. count_step as k \<le> MAX_ATTEMPTS)"

definition state_ok :: "nat \<Rightarrow> workflow_run \<Rightarrow> workflow_attempt list \<Rightarrow> nat list \<Rightarrow> bool" where
  "state_ok n r as cps \<longleftrightarrow>
    (run_state r = RunRUNNING \<longrightarrow> live as) \<and>
    (run_state r \<in> {RunQUEUED, RunBLOCKED} \<union> TERMINAL_STATES \<longrightarrow> \<not> live as) \<and>
    (run_state r = RunQUEUED \<longrightarrow> count_step as (run_next_step r) < MAX_ATTEMPTS) \<and>
    (run_settled_at r \<noteq> None \<longleftrightarrow> run_state r \<in> TERMINAL_STATES) \<and>
    run_next_step r \<le> n \<and> (run_state r = RunSUCCEEDED \<longleftrightarrow> run_next_step r = n) \<and>
    (run_content_expired r \<longrightarrow> run_state r \<in> TERMINAL_STATES) \<and>
    (\<not> run_content_expired r \<longrightarrow> cps = [0..<run_next_step r])"

definition run_ok :: "nat \<Rightarrow> workflow_run \<Rightarrow> workflow_attempt list \<Rightarrow> nat list \<Rightarrow> bool" where
  "run_ok n r as cps \<longleftrightarrow> attempts_ok n r as \<and> state_ok n r as cps"

abbreviation step_total :: "workflow_version \<Rightarrow> nat" where
  "step_total v \<equiv> length (draft_steps (ver_snapshot v))"

abbreviation checkpoint_steps :: "run_db \<Rightarrow> uuid \<Rightarrow> nat list" where
  "checkpoint_steps db i \<equiv> map cp_step_index (run_checkpoints db i)"

definition run_row_ok :: "run_db \<Rightarrow> workflow_run \<Rightarrow> bool" where
  "run_row_ok db r \<longleftrightarrow>
    (\<exists>v. row_get ver_id (run_version_id r) (workflow_versions db) = Some v \<and> ver_workflow_id v = run_workflow_id r \<and>
       run_ok (length (draft_steps (ver_snapshot v))) r (run_attempts db (run_id r)) (checkpoint_steps db (run_id r)))"

definition runs_inv :: "run_db \<Rightarrow> bool" where
  "runs_inv db \<longleftrightarrow>
    distinct (map run_id (workflow_runs db)) \<and>
    distinct (map (\<lambda>r. (run_workflow_id r, run_client_request_id r)) (workflow_runs db)) \<and>
    distinct (map att_id (workflow_attempts db)) \<and>
    (\<forall>i. i \<notin> run_id ` set (workflow_runs db) \<longrightarrow> run_attempts db i = [] \<and> run_checkpoints db i = []) \<and>
    (\<forall>v \<in> set (workflow_versions db). draft_steps (ver_snapshot v) \<noteq> []) \<and>
    (\<forall>r \<in> set (workflow_runs db). run_row_ok db r)"

text \<open>
  The order of a run's rows in time: what identifies it is fixed (the pins that the trigger of
  migration \<open>a38901e8a003\<close> protects), a reference to another row is kept or cleared
  (\<open>ON DELETE SET NULL\<close>) but never changed to a third one, its revision, its position and its generation only
  grow, and nothing of a settled run changes but these references and what retention removes.
\<close>

definition run_identity :: "workflow_run \<Rightarrow> uuid \<times> uuid \<times> uuid \<times> uuid \<times> string \<times> string" where
  "run_identity r =
    (run_id r, run_workflow_id r, run_version_id r, run_client_request_id r, run_request_hash r, run_runtime r)"

definition run_pointers :: "workflow_run \<Rightarrow> uuid option \<times> uuid option \<times> uuid option" where
  "run_pointers r = (run_initiating_user_id r, run_initiating_membership_id r, run_rerun_of_run_id r)"

definition pointers_kept :: "workflow_run \<Rightarrow> workflow_run \<Rightarrow> bool" where
  "pointers_kept r r' \<longleftrightarrow>
    run_initiating_user_id r' \<in> {run_initiating_user_id r, None} \<and>
    run_initiating_membership_id r' \<in> {run_initiating_membership_id r, None} \<and>
    run_rerun_of_run_id r' \<in> {run_rerun_of_run_id r, None}"

definition run_outcome ::
  "workflow_run \<Rightarrow> run_state \<times> nat \<times> nat \<times> nat \<times> string option \<times> datetime option" where
  "run_outcome r = (run_state r, run_revision r, run_next_step r, run_generation r, run_reason r, run_settled_at r)"

definition run_later :: "workflow_run \<Rightarrow> workflow_run \<Rightarrow> bool" where
  "run_later r r' \<longleftrightarrow> run_identity r' = run_identity r \<and> pointers_kept r r' \<and> run_revision r \<le> run_revision r' \<and>
    run_next_step r \<le> run_next_step r' \<and> run_generation r \<le> run_generation r' \<and>
    (run_state r \<in> TERMINAL_STATES \<longrightarrow> run_outcome r' = run_outcome r) \<and>
    (run_content_expired r \<longrightarrow> run_content_expired r')"

definition rows_later :: "run_db \<Rightarrow> run_db \<Rightarrow> bool" where
  "rows_later db db' \<longleftrightarrow>
    (\<forall>i r. row_get run_id i (workflow_runs db) = Some r \<longrightarrow>
      (\<exists>r'. row_get run_id i (workflow_runs db') = Some r' \<and> run_later r r' \<and>
        (prefix (run_checkpoints db i) (run_checkpoints db' i) \<or> run_content_expired r')))"

definition run_moved :: "run_db \<Rightarrow> run_db \<Rightarrow> bool" where
  "run_moved db db' \<longleftrightarrow> runs_inv db' \<and> rows_later db db'"

lemma run_later_refl [simp]: "run_later r r"
  by (simp add: run_later_def pointers_kept_def)

lemma pointers_kept_trans: "pointers_kept r r' \<Longrightarrow> pointers_kept r' r'' \<Longrightarrow> pointers_kept r r''"
  by (auto simp: pointers_kept_def)

lemma run_later_trans: "run_later r r' \<Longrightarrow> run_later r' r'' \<Longrightarrow> run_later r r''"
  using pointers_kept_trans [of r r' r''] by (auto simp: run_later_def run_outcome_def)

lemma rows_later_refl [simp]: "rows_later db db"
  by (auto simp: rows_later_def)

lemma rows_later_trans:
  assumes "rows_later db1 db2" and "rows_later db2 db3"
  shows "rows_later db1 db3"
  unfolding rows_later_def
proof (intro allI impI)
  fix i r assume "row_get run_id i (workflow_runs db1) = Some r"
  then obtain r2 where 2: "row_get run_id i (workflow_runs db2) = Some r2" "run_later r r2"
    "prefix (run_checkpoints db1 i) (run_checkpoints db2 i) \<or> run_content_expired r2"
    using assms(1) unfolding rows_later_def by blast
  then obtain r3 where 3: "row_get run_id i (workflow_runs db3) = Some r3" "run_later r2 r3"
    "prefix (run_checkpoints db2 i) (run_checkpoints db3 i) \<or> run_content_expired r3"
    using assms(2) unfolding rows_later_def by blast
  have "prefix (run_checkpoints db1 i) (run_checkpoints db3 i) \<or> run_content_expired r3"
    using 2(3) 3(2,3) prefix_order.trans unfolding run_later_def by blast
  then show "\<exists>r'. row_get run_id i (workflow_runs db3) = Some r' \<and> run_later r r' \<and>
      (prefix (run_checkpoints db1 i) (run_checkpoints db3 i) \<or> run_content_expired r')"
    using 3 run_later_trans [OF 2(2) 3(2)] by blast
qed

lemma run_moved_refl: "runs_inv db \<Longrightarrow> run_moved db db"
  by (simp add: run_moved_def)

lemma run_moved_trans: "run_moved db1 db2 \<Longrightarrow> run_moved db2 db3 \<Longrightarrow> run_moved db1 db3"
  unfolding run_moved_def using rows_later_trans by blast

text \<open>A change of one run: its row, its attempts and its checkpoints.\<close>

lemma run_moved_update:
  assumes inv: "runs_inv db" and r: "row_get run_id i (workflow_runs db) = Some r"
    and later: "run_later r r'"
    and runs: "workflow_runs db' = row_put run_id r' (workflow_runs db)"
    and vers: "workflow_versions db' = workflow_versions db"
    and atts: "distinct (map att_id (workflow_attempts db'))" "\<And>j. j \<noteq> i \<Longrightarrow> run_attempts db' j = run_attempts db j"
    and cps: "\<And>j. j \<noteq> i \<Longrightarrow> run_checkpoints db' j = run_checkpoints db j"
      "prefix (run_checkpoints db i) (run_checkpoints db' i) \<or> run_content_expired r'"
    and ok: "\<And>v. row_get ver_id (run_version_id r) (workflow_versions db) = Some v \<Longrightarrow>
      run_ok (step_total v) r (run_attempts db i) (checkpoint_steps db i) \<Longrightarrow> 1 \<le> step_total v \<Longrightarrow>
      run_ok (step_total v) r' (run_attempts db' i) (checkpoint_steps db' i)"
  shows "run_moved db db'"
proof -
  have ri: "r \<in> set (workflow_runs db)" "run_id r = i" using run_table.get_in_rows [OF r] by auto
  have key: "run_id r' = i" "run_workflow_id r' = run_workflow_id r" "run_version_id r' = run_version_id r"
    "run_client_request_id r' = run_client_request_id r"
    using later ri by (simp_all add: run_later_def run_identity_def)
  have keyed: "distinct (map run_id (workflow_runs db))" using inv by (simp add: runs_inv_def)
  have ids: "run_id ` set (workflow_runs db') = run_id ` set (workflow_runs db)"
    unfolding runs by (metis map_key_row_put list.set_map)
  have same: "x = r" if "x \<in> set (workflow_runs db)" "run_id x = i" for x
    using that ri keyed by (auto simp: distinct_map inj_on_def)
  have starts: "map (\<lambda>r. (run_workflow_id r, run_client_request_id r)) (workflow_runs db') =
      map (\<lambda>r. (run_workflow_id r, run_client_request_id r)) (workflow_runs db)"
    unfolding runs row_put_def using key same by auto
  have r'_ok: "run_row_ok db' r'"
  proof -
    obtain v where v: "row_get ver_id (run_version_id r) (workflow_versions db) = Some v" "ver_workflow_id v = run_workflow_id r"
      "run_ok (length (draft_steps (ver_snapshot v))) r (run_attempts db i) (checkpoint_steps db i)"
      using inv ri by (auto simp: runs_inv_def run_row_ok_def)
    have "v \<in> set (workflow_versions db)" using version_table.get_in_rows [OF v(1)] by simp
    then have "draft_steps (ver_snapshot v) \<noteq> []" using inv by (simp add: runs_inv_def)
    then have "1 \<le> length (draft_steps (ver_snapshot v))" by (simp add: Suc_le_eq)
    with v ok [OF v(1)] show ?thesis unfolding run_row_ok_def key vers by blast
  qed
  have "run_row_ok db' x" if "x \<in> set (workflow_runs db')" for x
  proof (cases "run_id x = i")
    case True
    then have "x = r'" using that key(1) by (auto simp: runs row_put_def split: if_splits)
    then show ?thesis using r'_ok by simp
  next
    case False
    then have "x \<in> set (workflow_runs db)" using that key(1) by (auto simp: runs row_put_def split: if_splits)
    then show ?thesis using inv False by (simp add: runs_inv_def run_row_ok_def vers atts(2) cps(1))
  qed
  moreover have "distinct (map run_id (workflow_runs db'))" using keyed by (simp add: runs)
  moreover have "run_attempts db' j = [] \<and> run_checkpoints db' j = []" if "j \<notin> run_id ` set (workflow_runs db')" for j
  proof -
    have "j \<noteq> i" "j \<notin> run_id ` set (workflow_runs db)" using that ri ids by auto
    then show ?thesis using inv by (simp add: runs_inv_def atts(2) cps(1))
  qed
  ultimately have "runs_inv db'"
    using inv atts(1) unfolding runs_inv_def starts vers by blast
  moreover have "rows_later db db'"
    unfolding rows_later_def
  proof (intro allI impI)
    fix j x assume x: "row_get run_id j (workflow_runs db) = Some x"
    show "\<exists>x'. row_get run_id j (workflow_runs db') = Some x' \<and> run_later x x' \<and>
        (prefix (run_checkpoints db j) (run_checkpoints db' j) \<or> run_content_expired x')"
      using x r later cps key(1) run_table.get_put_same [OF r key(1)] run_table.get_put_other [of j r' "workflow_runs db"]
      by (cases "j = i") (simp_all add: runs)
  qed
  ultimately show ?thesis by (simp add: run_moved_def)
qed

text \<open>What \<open>_event\<close> changes: the row of the run, the history and the outbox.\<close>

lemma run_event_effect:
  assumes "run_event env new_ids now r kind detail db = Inr (db', ids)"
  shows "workflow_runs db' = row_put run_id (r\<lparr>run_updated_at := now\<rparr>) (workflow_runs db)"
    and "workflow_versions db' = workflow_versions db" and "workflows db' = workflows db"
    and "workflow_attempts db' = workflow_attempts db" and "workflow_checkpoints db' = workflow_checkpoints db"
    and "wdb_access db' = wdb_access db" and "wdb_artifacts db' = wdb_artifacts db" and "wdb_settings db' = wdb_settings db"
  using assms unfolding run_event_def Let_def bind_result_Inr add_history_def
  by (auto simp: put_run_def bind_result_Inr split: prod.splits)

lemma settle_effect:
  assumes "settle env now r db = Inr (db', r')"
  shows "r' = r\<lparr>run_settled_at := Some now\<rparr>" and "\<exists>arts. db' = db\<lparr>wdb_artifacts := arts\<rparr>"
  using assms by (auto simp: settle_def bind_result_Inr)

lemma run_attempts_cong: "workflow_attempts db' = workflow_attempts db \<Longrightarrow> run_attempts db' j = run_attempts db j"
  by (simp add: run_attempts_def)

lemma run_checkpoints_cong: "workflow_checkpoints db' = workflow_checkpoints db \<Longrightarrow> run_checkpoints db' j = run_checkpoints db j"
  by (simp add: run_checkpoints_def)

lemma run_ok_updated [simp]: "run_ok n (r\<lparr>run_updated_at := t\<rparr>) as cps = run_ok n r as cps"
  by (simp add: run_ok_def attempts_ok_def state_ok_def)

lemma run_moved_event:
  assumes inv: "runs_inv db" and r: "row_get run_id i (workflow_runs db) = Some r"
    and later: "run_later r r'"
    and db1: "workflow_runs db1 = workflow_runs db" "workflow_versions db1 = workflow_versions db"
      "distinct (map att_id (workflow_attempts db1))" "\<And>j. j \<noteq> i \<Longrightarrow> run_attempts db1 j = run_attempts db j"
      "\<And>j. j \<noteq> i \<Longrightarrow> run_checkpoints db1 j = run_checkpoints db j"
      "prefix (run_checkpoints db i) (run_checkpoints db1 i)"
    and ok: "\<And>v. row_get ver_id (run_version_id r) (workflow_versions db) = Some v \<Longrightarrow>
      run_ok (step_total v) r (run_attempts db i) (checkpoint_steps db i) \<Longrightarrow> 1 \<le> step_total v \<Longrightarrow>
      run_ok (step_total v) r' (run_attempts db1 i) (checkpoint_steps db1 i)"
    and ev: "run_event env new_ids now r' kind detail db1 = Inr (db', ids)"
  shows "run_moved db db'"
proof (rule run_moved_update [OF inv r, of "r'\<lparr>run_updated_at := now\<rparr>"])
  note e = run_event_effect [OF ev]
  show "workflow_runs db' = row_put run_id (r'\<lparr>run_updated_at := now\<rparr>) (workflow_runs db)"
    "workflow_versions db' = workflow_versions db" "distinct (map att_id (workflow_attempts db'))"
    using e db1 by simp_all
  show "run_attempts db' j = run_attempts db j" "run_checkpoints db' j = run_checkpoints db j" if "j \<noteq> i" for j
    using that db1 run_attempts_cong [OF e(4)] run_checkpoints_cong [OF e(5)] by simp_all
  show "run_ok (step_total v) (r'\<lparr>run_updated_at := now\<rparr>) (run_attempts db' i) (checkpoint_steps db' i)"
    if "row_get ver_id (run_version_id r) (workflow_versions db) = Some v"
      "run_ok (step_total v) r (run_attempts db i) (checkpoint_steps db i)" "1 \<le> step_total v" for v
    using ok [OF that] run_attempts_cong [OF e(4)] run_checkpoints_cong [OF e(5)] by simp
  show "prefix (run_checkpoints db i) (run_checkpoints db' i) \<or> run_content_expired (r'\<lparr>run_updated_at := now\<rparr>)"
    using db1(6) run_checkpoints_cong [OF e(5)] by simp
  show "run_later r (r'\<lparr>run_updated_at := now\<rparr>)"
    using later by (simp add: run_later_def run_identity_def run_outcome_def pointers_kept_def)
qed

lemmas run_later_defs = run_later_def run_identity_def run_outcome_def pointers_kept_def

text \<open>The attempt of the current generation is the last one.\<close>

lemma current_attempt_Some:
  assumes "current_attempt db r = Some a"
  shows "a \<in> set (workflow_attempts db)" and "att_run_id a = run_id r" and "att_generation a = run_generation r"
    and "a \<in> set (run_attempts db (run_id r))"
  using assms by (auto simp: current_attempt_def find_Some_iff run_attempts_def)

lemma current_is_last:
  assumes "attempts_ok n r as" and "a \<in> set as" and "att_generation a = run_generation r"
  shows "as \<noteq> []" and "last as = a" and "as = butlast as @ [a]"
proof -
  have gens: "map att_generation as = [1..<Suc (run_generation r)]" using assms(1) by (simp add: attempts_ok_def)
  show ne: "as \<noteq> []" using assms(2) by auto
  have "distinct (map att_generation as)" unfolding gens by simp
  moreover have "att_generation (last as) = run_generation r"
    using gens ne last_map [OF ne, of att_generation] by (cases "run_generation r") auto
  ultimately show "last as = a"
    using assms(2,3) ne by (metis distinct_map inj_onD last_in_set)
  then show "as = butlast as @ [a]" using ne by (metis append_butlast_last_id)
qed

lemma current_attempt_live:
  assumes "attempts_ok n r (run_attempts db (run_id r))"
  shows "current_attempt db r = (if run_attempts db (run_id r) = [] then None else Some (last (run_attempts db (run_id r))))"
proof (cases "current_attempt db r")
  case None
  have "run_attempts db (run_id r) = []"
  proof (rule ccontr)
    let ?as = "run_attempts db (run_id r)"
    assume ne: "?as \<noteq> []"
    have "att_generation (last ?as) = run_generation r"
      using assms ne last_map [OF ne, of att_generation] unfolding attempts_ok_def by (cases "run_generation r") auto
    moreover have "last ?as \<in> set ?as" using ne by simp
    ultimately show False using None by (auto simp: current_attempt_def find_None_iff run_attempts_def)
  qed
  with None show ?thesis by simp
next
  case (Some a)
  then show ?thesis using current_is_last [OF assms] current_attempt_Some [OF Some] by auto
qed

lemma run_attempts_put:
  assumes keyed: "distinct (map att_id (workflow_attempts db))" and a: "a \<in> set (workflow_attempts db)"
    and a': "att_id a' = att_id a" "att_run_id a' = att_run_id a"
    and last: "run_attempts db (att_run_id a) = bs @ [a]"
  shows "run_attempts (put_attempt a' db) j = (if j = att_run_id a then bs @ [a'] else run_attempts db j)"
proof -
  have same: "att_id x = att_id a \<longleftrightarrow> x = a" if "x \<in> set (workflow_attempts db)" for x
    using that a keyed by (auto simp: distinct_map inj_on_def)
  have put: "workflow_attempts (put_attempt a' db) = map (\<lambda>x. if x = a then a' else x) (workflow_attempts db)"
    by (auto simp: put_attempt_def row_put_def a' same)
  have "filter (\<lambda>x. att_run_id x = j) (map (\<lambda>x. if x = a then a' else x) xs) =
      map (\<lambda>x. if x = a then a' else x) (filter (\<lambda>x. att_run_id x = j) xs)" for xs
    using a'(2) by (induction xs) auto
  then have eq: "run_attempts (put_attempt a' db) j = map (\<lambda>x. if x = a then a' else x) (run_attempts db j)"
    by (simp add: run_attempts_def put)
  have "distinct (run_attempts db (att_run_id a))"
    using keyed by (simp add: run_attempts_def distinct_map)
  then have "a \<notin> set bs" unfolding last by simp
  then have "map (\<lambda>x. if x = a then a' else x) (bs @ [a]) = bs @ [a']"
    by (auto intro: map_idI)
  moreover have "map (\<lambda>x. if x = a then a' else x) (run_attempts db j) = run_attempts db j" if "j \<noteq> att_run_id a"
    using that by (auto simp: run_attempts_def intro: map_idI)
  ultimately show ?thesis unfolding eq using last by auto
qed

lemma put_attempt_frame [simp]:
  "workflow_runs (put_attempt a db) = workflow_runs db" "workflow_versions (put_attempt a db) = workflow_versions db"
  "run_checkpoints (put_attempt a db) j = run_checkpoints db j"
  "distinct (map att_id (workflow_attempts (put_attempt a db))) = distinct (map att_id (workflow_attempts db))"
  by (simp_all add: put_attempt_def run_checkpoints_def)

section \<open>Steps of a run\<close>

lemma count_step_append: "count_step (as @ bs) k = count_step as k + count_step bs k"
  by (simp add: count_step_def)

lemma count_step_replace: "att_step_index a' = att_step_index a \<Longrightarrow> count_step (bs @ [a']) k = count_step (bs @ [a]) k"
  by (simp add: count_step_def)

lemma live_append [simp]: "live (bs @ [a]) = is_active a"
  by (simp add: live_def)

lemma live_Nil [simp]: "\<not> live []"
  by (simp add: live_def)

text \<open>Replacing the last attempt by one of the same generation and step.\<close>

lemma attempts_ok_replace:
  assumes "attempts_ok n r (bs @ [a])" and "att_generation a' = att_generation a" "att_step_index a' = att_step_index a"
    and "is_active a' \<longrightarrow> is_active a"
  shows "attempts_ok n r (bs @ [a'])"
  using assms count_step_replace [OF assms(3)] unfolding attempts_ok_def by simp

lemma attempts_ok_run:
  assumes "attempts_ok n r as" and "run_generation r' = run_generation r" and "run_next_step r' = run_next_step r"
  shows "attempts_ok n r' as"
  using assms by (simp add: attempts_ok_def)

lemma attempts_ok_next:
  assumes "attempts_ok n r as" and "\<not> live as" and "run_generation r' = run_generation r"
    and "run_next_step r' = Suc (run_next_step r)"
  shows "attempts_ok n r' as"
  using assms by (auto simp: attempts_ok_def le_SucI)

lemma attempts_ok_start:
  assumes "attempts_ok n r as" and "\<not> live as" and "count_step as (run_next_step r) < MAX_ATTEMPTS" and "run_next_step r < n"
    and "run_generation r' = Suc (run_generation r)" "run_next_step r' = run_next_step r"
    and "att_generation a = Suc (run_generation r)" "att_step_index a = run_next_step r"
  shows "attempts_ok n r' (as @ [a])"
proof -
  have "\<not> is_active x" if "x \<in> set as" for x
    using assms(1,2) that by (cases as rule: rev_cases) (auto simp: attempts_ok_def)
  moreover have "count_step (as @ [a]) k \<le> MAX_ATTEMPTS" for k
    using assms by (cases "k = run_next_step r") (auto simp: attempts_ok_def count_step_append count_step_def [of "[a]"])
  ultimately show ?thesis
    using assms by (auto simp: attempts_ok_def)
qed

section \<open>Every operation keeps the invariant\<close>

lemma runs_inv_row:
  assumes "runs_inv db" and "row_get run_id i (workflow_runs db) = Some r"
  obtains v where "row_get ver_id (run_version_id r) (workflow_versions db) = Some v" "run_id r = i"
    "run_ok (step_total v) r (run_attempts db i) (checkpoint_steps db i)"
  using assms run_table.get_in_rows [OF assms(2)] by (auto simp: runs_inv_def run_row_ok_def)

lemma fenced_attempt_Inr:
  "fenced_attempt now a db = Inr (r, a') \<longleftrightarrow>
    a' = a \<and> row_get run_id (att_run_id a) (workflow_runs db) = Some r \<and> run_state r = RunRUNNING \<and>
    att_state a = AttREASONING \<and> run_generation r = att_generation a \<and> now < att_expires_at a \<and> authorized db r = Inr True"
  unfolding fenced_attempt_def by (auto simp: bind_result_Inr not_le split: option.splits)

lemma bound_Inr:
  "bound env now i token db = Inr (r, a) \<longleftrightarrow>
    row_get att_id i (workflow_attempts db) = Some a \<and> att_capability_hash a = env_sha256 env token \<and>
    fenced_attempt now a db = Inr (r, a)"
  unfolding bound_def by (auto simp: bind_result_Inr fenced_attempt_Inr split: option.splits)

lemma bound_last:
  assumes inv: "runs_inv db" and b: "bound env now i token db = Inr (r, a)"
  obtains v bs where "row_get run_id (run_id r) (workflow_runs db) = Some r" "a \<in> set (workflow_attempts db)" "att_id a = i"
    "att_run_id a = run_id r" "run_attempts db (run_id r) = bs @ [a]" "run_state r = RunRUNNING" "att_state a = AttREASONING"
    "row_get ver_id (run_version_id r) (workflow_versions db) = Some v"
    "run_ok (step_total v) r (bs @ [a]) (checkpoint_steps db (run_id r))"
proof -
  note f = b [unfolded bound_Inr fenced_attempt_Inr]
  have a: "a \<in> set (workflow_attempts db)" "att_id a = i" using f attempt_table.get_in_rows by auto
  obtain v where v: "row_get ver_id (run_version_id r) (workflow_versions db) = Some v" "run_id r = att_run_id a"
    "run_ok (step_total v) r (run_attempts db (att_run_id a)) (checkpoint_steps db (att_run_id a))"
    using runs_inv_row [OF inv, of "att_run_id a" r] f by metis
  have "a \<in> set (run_attempts db (att_run_id a))" using a(1) by (simp add: run_attempts_def)
  then have "run_attempts db (att_run_id a) = butlast (run_attempts db (att_run_id a)) @ [a]"
    using current_is_last [of "step_total v" r] v(3) f by (auto simp: run_ok_def)
  then show thesis using that [of "butlast (run_attempts db (att_run_id a))" v] f a v by metis
qed

lemmas run_ok_defs = run_ok_def state_ok_def TERMINAL_STATES_def

lemma run_cancel_moved:
  assumes inv: "runs_inv db" and c: "run_cancel env new_ids now i aid scope revision db = Inr (db', ids)"
  shows "run_moved db db'"
proof -
  obtain rs where rs: "runs_scoped db aid scope = Inr rs" using c by (auto simp: run_cancel_def bind_result_Inr)
  then have sub: "set rs \<subseteq> set (workflow_runs db)" by (auto simp: runs_scoped_def bind_result_Inr)
  obtain r where r: "find (\<lambda>r. run_id r = i) rs = Some r"
    using c rs by (auto simp: run_cancel_def split: option.splits)
  then have "r \<in> set (workflow_runs db)" "run_id r = i" using sub by (auto simp: find_Some_iff)
  then have row: "row_get run_id i (workflow_runs db) = Some r"
    using inv run_table.get_rows by (auto simp: runs_inv_def)
  show ?thesis
  proof (cases "run_state r \<in> {RunCANCELLING, RunCANCELLED}")
    case True
    then show ?thesis using c rs r run_moved_refl [OF inv] by (auto simp: run_cancel_def)
  next
    case False
    then have nt: "run_state r \<notin> TERMINAL_STATES"
      and ev: "run_event env new_ids now (r\<lparr>run_state := RunCANCELLING, run_reason := Some CANCEL_REASON,
        run_revision := run_revision r + 1\<rparr>) CANCEL_REQUESTED CANCEL_REASON db = Inr (db', ids)"
      using c rs r by (auto simp: run_cancel_def bind_result_Inr)
    show ?thesis
      by (rule run_moved_event [OF inv row _ _ _ _ _ _ _ _ ev])
        (use inv nt \<open>run_id r = i\<close> in \<open>auto simp: runs_inv_def run_ok_defs attempts_ok_def run_later_defs\<close>)
  qed
qed

lemma insert_checkpoint_Inr:
  "insert_checkpoint c db = Inr db' \<longleftrightarrow>
    (\<forall>x \<in> set (workflow_checkpoints db). \<not> (cp_run_id x = cp_run_id c \<and> cp_step_index x = cp_step_index c)) \<and>
    db' = db\<lparr>workflow_checkpoints := row_add c (workflow_checkpoints db)\<rparr>"
  unfolding insert_checkpoint_def bind_result_Inr raise_if_Inr by auto

lemma complete_bound_Inr:
  assumes "complete_bound env new_ids now summary db (r, a) = Inr (db', ids)"
  obtains v s db2 r1 where "row_get ver_id (run_version_id r) (workflow_versions db) = Some v"
    "step_at v (att_step_index a) = Inr s"
    "insert_checkpoint (step_checkpoint now r a s summary db) db =
      Inr (db\<lparr>workflow_checkpoints := row_add (step_checkpoint now r a s summary db) (workflow_checkpoints db)\<rparr>)"
    "finish_step env now v r (put_attempt (completed_attempt env summary a)
      (db\<lparr>workflow_checkpoints := row_add (step_checkpoint now r a s summary db) (workflow_checkpoints db)\<rparr>)) = Inr (db2, r1)"
    "run_event env new_ids now r1 STEP_COMPLETED summary db2 = Inr (db', ids)"
  using assms unfolding complete_bound_def bind_result_Inr prod.case get_version_one_def
  by (auto simp: insert_checkpoint_Inr split: option.splits)

lemma finish_step_effect:
  assumes "finish_step env now v r db = Inr (db', r')"
  shows "\<exists>arts. db' = db\<lparr>wdb_artifacts := arts\<rparr>"
    and "r' = r\<lparr>run_next_step := run_next_step r + 1, run_revision := run_revision r + 1, run_reason := None,
      run_state := (if run_next_step r + 1 = step_total v then RunSUCCEEDED else RunQUEUED),
      run_settled_at := (if run_next_step r + 1 = step_total v then Some now else run_settled_at r)\<rparr>"
proof -
  show "\<exists>arts. db' = db\<lparr>wdb_artifacts := arts\<rparr>"
    using assms settle_effect(2) unfolding finish_step_def Let_def
    by (cases "run_next_step r + 1 = step_total v") (auto intro: exI [of _ "wdb_artifacts db"])
  show "r' = r\<lparr>run_next_step := run_next_step r + 1, run_revision := run_revision r + 1, run_reason := None,
      run_state := (if run_next_step r + 1 = step_total v then RunSUCCEEDED else RunQUEUED),
      run_settled_at := (if run_next_step r + 1 = step_total v then Some now else run_settled_at r)\<rparr>"
    using assms settle_effect(1) unfolding finish_step_def Let_def
    by (cases "run_next_step r + 1 = step_total v") auto
qed

text \<open>The completion of a live step, on the row, its attempts and its checkpoints.\<close>

lemma run_ok_complete:
  assumes ok: "run_ok n r (bs @ [a]) cps" and st: "run_state r = RunRUNNING"
    and r': "run_generation r' = run_generation r" "run_next_step r' = Suc (run_next_step r)"
      "run_state r' = (if Suc (run_next_step r) = n then RunSUCCEEDED else RunQUEUED)"
      "run_settled_at r' = (if Suc (run_next_step r) = n then Some now else run_settled_at r)"
      "run_content_expired r' = run_content_expired r"
    and a': "att_generation a' = att_generation a" "att_step_index a' = att_step_index a" "\<not> is_active a'"
  shows "run_ok n r' (bs @ [a']) (cps @ [att_step_index a])"
proof -
  have live: "is_active a" "att_step_index a = run_next_step r" "\<not> run_content_expired r" "run_settled_at r = None"
    using ok st by (auto simp: run_ok_defs attempts_ok_def)
  have ao: "attempts_ok n r (bs @ [a'])"
    using attempts_ok_replace [of n r bs a a'] ok a' by (simp add: run_ok_def)
  then have ao': "attempts_ok n r' (bs @ [a'])"
    by (rule attempts_ok_next) (use a' r' in auto)
  have "att_step_index x \<noteq> Suc (run_next_step r)" if "x \<in> set (bs @ [a'])" for x
    using ao that unfolding attempts_ok_def by fastforce
  then have none: "count_step (bs @ [a']) (Suc (run_next_step r)) = 0"
    by (auto simp: count_step_def filter_empty_conv)
  have "Suc (run_next_step r) \<le> n"
    using ok st by (auto simp: run_ok_defs)
  then have "state_ok n r' (bs @ [a']) (cps @ [att_step_index a])"
    using ok live r' a' none by (auto simp: run_ok_defs MAX_ATTEMPTS_def)
  with ao' show ?thesis by (simp add: run_ok_def)
qed

lemma complete_moved:
  assumes inv: "runs_inv db" and c: "complete env new_ids now i token summary db = Inr (db', ids)"
  shows "run_moved db db'"
proof (cases "is_duplicate_result env i token summary db")
  case True
  then show ?thesis using c run_moved_refl [OF inv] by (simp add: complete_def)
next
  case False
  obtain r a where b: "bound env now i token db = Inr (r, a)" and cb: "complete_bound env new_ids now summary db (r, a) = Inr (db', ids)"
    using c False by (auto simp: complete_def bind_result_Inr)
  obtain v0 bs where row: "row_get run_id (run_id r) (workflow_runs db) = Some r" and a: "a \<in> set (workflow_attempts db)"
    "att_run_id a = run_id r" and as: "run_attempts db (run_id r) = bs @ [a]" and st: "run_state r = RunRUNNING"
    using bound_last [OF inv b] by metis
  obtain v s db2 r1 where v: "row_get ver_id (run_version_id r) (workflow_versions db) = Some v"
    and fin: "finish_step env now v r (put_attempt (completed_attempt env summary a)
      (db\<lparr>workflow_checkpoints := row_add (step_checkpoint now r a s summary db) (workflow_checkpoints db)\<rparr>)) = Inr (db2, r1)"
    and ev: "run_event env new_ids now r1 STEP_COMPLETED summary db2 = Inr (db', ids)"
    using complete_bound_Inr [OF cb] .
  let ?a = "completed_attempt env summary a"
  let ?db1 = "db\<lparr>workflow_checkpoints := row_add (step_checkpoint now r a s summary db) (workflow_checkpoints db)\<rparr>"
  have a': "att_id ?a = att_id a" "att_run_id ?a = att_run_id a" "att_generation ?a = att_generation a"
    "att_step_index ?a = att_step_index a" "\<not> is_active ?a"
    by (simp_all add: completed_attempt_def is_active_def)
  have keyed: "distinct (map att_id (workflow_attempts ?db1))" using inv by (simp add: runs_inv_def)
  have "run_attempts ?db1 (att_run_id a) = bs @ [a]" using as a(2) by (simp add: run_attempts_def)
  from run_attempts_put [OF keyed _ a'(1,2) this]
  have atts: "run_attempts (put_attempt ?a ?db1) j = (if j = run_id r then bs @ [?a] else run_attempts db j)" for j
    using a by (simp add: run_attempts_def)
  obtain arts where db2: "db2 = (put_attempt ?a ?db1)\<lparr>wdb_artifacts := arts\<rparr>" using finish_step_effect(1) [OF fin] by auto
  have atts2: "run_attempts db2 j = (if j = run_id r then bs @ [?a] else run_attempts db j)" for j
    using atts by (simp add: db2 run_attempts_def)
  have cps2: "run_checkpoints db2 j = run_checkpoints db j @ (if j = run_id r then [step_checkpoint now r a s summary db] else [])" for j
    by (simp add: db2 run_checkpoints_def put_attempt_def row_add_def step_checkpoint_def)
  note r1 = finish_step_effect(2) [OF fin]
  show ?thesis
  proof (rule run_moved_event [OF inv row _ _ _ _ _ _ _ _ ev])
    show "distinct (map att_id (workflow_attempts db2))" using keyed by (simp add: db2 put_attempt_def)
    show "run_ok (step_total x) r1 (run_attempts db2 (run_id r)) (checkpoint_steps db2 (run_id r))"
      if "row_get ver_id (run_version_id r) (workflow_versions db) = Some x"
        "run_ok (step_total x) r (run_attempts db (run_id r)) (checkpoint_steps db (run_id r))" for x
    proof -
      have "x = v" using that(1) v by simp
      then have "run_ok (step_total v) r1 (bs @ [?a]) (checkpoint_steps db (run_id r) @ [att_step_index a])"
        using run_ok_complete [of "step_total v" r bs a "checkpoint_steps db (run_id r)" r1 now ?a] that(2) as st a'
        by (simp add: r1)
      then show ?thesis using \<open>x = v\<close> by (simp add: atts2 cps2 step_checkpoint_def)
    qed
    show "run_attempts db2 j = run_attempts db j" "run_checkpoints db2 j = run_checkpoints db j" if "j \<noteq> run_id r" for j
      using that by (simp_all add: atts2 cps2)
    show "prefix (run_checkpoints db (run_id r)) (run_checkpoints db2 (run_id r))" by (simp add: cps2)
  qed (use st in \<open>simp_all add: r1 db2 put_attempt_def run_later_defs TERMINAL_STATES_def\<close>)
qed

text \<open>The end of the current attempt, with a run state that allows it.\<close>

lemma run_ok_stop:
  assumes ok: "run_ok n r (bs @ [a]) cps" and "run_state r \<notin> TERMINAL_STATES"
    and r': "run_generation r' = run_generation r" "run_next_step r' = run_next_step r" "run_content_expired r' = run_content_expired r"
    and a': "att_generation a' = att_generation a" "att_step_index a' = att_step_index a" "is_active a' \<longrightarrow> is_active a"
    and st: "run_state r' = RunRUNNING \<longrightarrow> is_active a'" "run_state r' \<in> {RunQUEUED, RunBLOCKED} \<union> TERMINAL_STATES \<longrightarrow> \<not> is_active a'"
      "run_state r' = RunQUEUED \<longrightarrow> count_step (bs @ [a]) (run_next_step r) < MAX_ATTEMPTS"
      "run_settled_at r' \<noteq> None \<longleftrightarrow> run_state r' \<in> TERMINAL_STATES" "run_state r' \<noteq> RunSUCCEEDED"
  shows "run_ok n r' (bs @ [a']) cps"
proof -
  have "attempts_ok n r (bs @ [a'])"
    using attempts_ok_replace [of n r bs a a'] ok a' by (simp add: run_ok_def)
  then have "attempts_ok n r' (bs @ [a'])" using attempts_ok_run r' by blast
  moreover have "state_ok n r' (bs @ [a']) cps"
    using assms count_step_replace [OF a'(2)] by (auto simp: run_ok_defs)
  ultimately show ?thesis by (simp add: run_ok_def)
qed

text \<open>The same without an attempt to stop.\<close>

lemma run_ok_state:
  assumes ok: "run_ok n r as cps" and "run_state r \<notin> TERMINAL_STATES"
    and r': "run_generation r' = run_generation r" "run_next_step r' = run_next_step r" "run_content_expired r' = run_content_expired r"
    and st: "run_state r' = RunRUNNING \<longrightarrow> live as" "run_state r' \<in> {RunQUEUED, RunBLOCKED} \<union> TERMINAL_STATES \<longrightarrow> \<not> live as"
      "run_state r' = RunQUEUED \<longrightarrow> count_step as (run_next_step r) < MAX_ATTEMPTS"
      "run_settled_at r' \<noteq> None \<longleftrightarrow> run_state r' \<in> TERMINAL_STATES" "run_state r' \<noteq> RunSUCCEEDED"
  shows "run_ok n r' as cps"
  using assms attempts_ok_run [of n r as r'] by (auto simp: run_ok_defs)

lemma fail_record_moved:
  assumes inv: "runs_inv db" and f: "fail_record env new_ids now i token failure db = Inr (db', j, ids)"
  shows "run_moved db db'"
proof -
  obtain r a where b: "bound env now i token db = Inr (r, a)"
    using f by (auto simp: fail_record_def bind_result_Inr)
  obtain v0 bs where row: "row_get run_id (run_id r) (workflow_runs db) = Some r" and a: "a \<in> set (workflow_attempts db)"
    "att_run_id a = run_id r" and as: "run_attempts db (run_id r) = bs @ [a]" and st: "run_state r = RunRUNNING" "att_state a = AttREASONING"
    and ok0: "run_ok (step_total v0) r (bs @ [a]) (checkpoint_steps db (run_id r))"
    using bound_last [OF inv b] by metis
  have settled: "run_settled_at r = None" using ok0 st(1) by (auto simp: run_ok_defs)
  let ?a = "a\<lparr>att_state := AttSTOPPED\<rparr>"
  have keyed: "distinct (map att_id (workflow_attempts db))" using inv by (simp add: runs_inv_def)
  have atts: "run_attempts (put_attempt ?a db) j = (if j = run_id r then bs @ [?a] else run_attempts db j)" for j
    using run_attempts_put [OF keyed a(1), of ?a bs j] a(2) as by simp
  have stopped: "run_ok n r' (bs @ [?a]) cps"
    if "run_ok n r (bs @ [a]) cps" "run_generation r' = run_generation r" "run_next_step r' = run_next_step r"
      "run_content_expired r' = run_content_expired r" "run_state r' = RunBLOCKED \<or> run_state r' = RunFAILED"
      "run_settled_at r' \<noteq> None \<longleftrightarrow> run_state r' = RunFAILED" for n r' cps
    by (rule run_ok_stop [OF that(1)]) (use st that in \<open>auto simp: TERMINAL_STATES_def is_active_def\<close>)
  have active: "is_active a" using st(2) by (simp add: is_active_def)
  consider (attention) "fail_needs_attention failure" | (final) "\<not> fail_needs_attention failure" "\<not> fail_retryable failure"
    | (retry) "\<not> fail_needs_attention failure" "fail_retryable failure" by blast
  then show ?thesis
  proof cases
    case attention
    then obtain kind detail where ev: "run_event env new_ids now
        (r\<lparr>run_revision := run_revision r + 1, run_state := RunBLOCKED, run_reason := Some (fail_reason failure)\<rparr>)
        kind detail (put_attempt ?a db) = Inr (db', ids)"
      using f b by (auto simp: fail_record_def bind_result_Inr Let_def)
    show ?thesis
      by (rule run_moved_event [OF inv row _ _ _ _ _ _ _ _ ev])
        (use keyed atts as settled st in \<open>auto intro!: stopped simp: run_later_defs TERMINAL_STATES_def\<close>)
  next
    case final
    then obtain db1 r2 where s: "settle env now (r\<lparr>run_revision := run_revision r + 1, run_state := RunFAILED,
        run_reason := Some (fail_reason failure)\<rparr>) (put_attempt ?a db) = Inr (db1, r2)"
      and ev: "run_event env new_ids now r2 ATTEMPT_FAILED (fail_reason failure) db1 = Inr (db', ids)"
      using f b by (auto simp: fail_record_def bind_result_Inr Let_def)
    obtain arts where db1: "db1 = (put_attempt ?a db)\<lparr>wdb_artifacts := arts\<rparr>" using settle_effect(2) [OF s] by auto
    have frame: "run_attempts db1 j = (if j = run_id r then bs @ [?a] else run_attempts db j)"
      "run_checkpoints db1 j = run_checkpoints db j" for j
      using atts by (simp_all add: db1 run_attempts_def run_checkpoints_def put_attempt_def)
    show ?thesis
      by (rule run_moved_event [OF inv row _ _ _ _ _ _ _ _ ev])
        (use keyed as st frame settle_effect(1) [OF s] in \<open>auto intro!: stopped simp: db1 run_later_defs TERMINAL_STATES_def\<close>)
  next
    case retry
    then have ev: "run_event env new_ids now (r\<lparr>run_revision := run_revision r + 1\<rparr>) ATTEMPT_FAILED (fail_reason failure) db = Inr (db', ids)"
      using f b by (auto simp: fail_record_def bind_result_Inr Let_def)
    show ?thesis
      by (rule run_moved_event [OF inv row _ _ _ _ _ _ _ _ ev])
        (use keyed st in \<open>auto simp: run_ok_defs attempts_ok_def run_later_defs\<close>)
  qed
qed

end
