(* ===== verification/Workflow_Execution.thy ===== *)
theory Workflow_Execution
  imports Workflow_Runs
begin

text \<open>
  The life of a run: every operation of the run repository keeps the invariant of
  \<open>Workflow_Runs\<close>, also when operations of any clients interleave, and what the invariant
  gives: bounded retries, checkpoints for every step of a finished run, fenced attempts that
  cannot write, idempotent starts and results, and terminal runs that stay as they are.
\<close>

section \<open>Stopping an attempt\<close>

text \<open>The attempts of a run after \<open>stop_attempt\<close>.\<close>

definition stopped_attempts :: "bool \<Rightarrow> workflow_attempt list \<Rightarrow> workflow_attempt list" where
  "stopped_attempts stopped as =
    (if live as then butlast as @ [(last as)\<lparr>att_state := if stopped then AttSTOPPED else AttSTOPPING\<rparr>] else as)"

lemma live_stopped [simp]: "live (stopped_attempts stopped as) \<longleftrightarrow> live as \<and> \<not> stopped"
  by (auto simp: stopped_attempts_def is_active_def)

lemma count_stopped [simp]: "count_step (stopped_attempts stopped as) k = count_step as k"
  by (cases as rule: rev_cases) (simp_all add: stopped_attempts_def count_step_def)

lemma run_ok_stopped:
  assumes ok: "run_ok n r as cps" and "run_state r \<notin> TERMINAL_STATES"
    and r': "run_generation r' = run_generation r" "run_next_step r' = run_next_step r" "run_content_expired r' = run_content_expired r"
    and st: "run_state r' = RunRUNNING \<longrightarrow> live as \<and> \<not> stopped"
      "run_state r' \<in> {RunQUEUED, RunBLOCKED} \<union> TERMINAL_STATES \<longrightarrow> \<not> (live as \<and> \<not> stopped)"
      "run_state r' = RunQUEUED \<longrightarrow> count_step as (run_next_step r) < MAX_ATTEMPTS"
      "run_settled_at r' \<noteq> None \<longleftrightarrow> run_state r' \<in> TERMINAL_STATES" "run_state r' \<noteq> RunSUCCEEDED"
  shows "run_ok n r' (stopped_attempts stopped as) cps"
proof (cases "live as")
  case True
  then obtain bs a where as: "as = bs @ [a]" "is_active a" by (cases as rule: rev_cases) auto
  let ?a = "a\<lparr>att_state := if stopped then AttSTOPPED else AttSTOPPING\<rparr>"
  have "run_ok n r' (bs @ [?a]) cps"
    by (rule run_ok_stop [OF ok [unfolded as(1)] assms(2) r']) (use st as in \<open>auto simp: is_active_def\<close>)
  then show ?thesis using as by (simp add: stopped_attempts_def)
next
  case False
  then show ?thesis
    using run_ok_state [OF ok assms(2) r'] st by (simp add: stopped_attempts_def)
qed

lemma stop_attempt_effect:
  assumes inv: "runs_inv db" and row: "row_get run_id i (workflow_runs db) = Some r"
    and db1_def: "db1 = stop_attempt stopped (current_attempt db r) db"
  shows "run_attempts db1 j = (if j = i then stopped_attempts stopped (run_attempts db i) else run_attempts db j)"
    and "run_checkpoints db1 j = run_checkpoints db j" and "distinct (map att_id (workflow_attempts db1))"
    and "workflow_runs db1 = workflow_runs db" and "workflow_versions db1 = workflow_versions db"
proof -
  let ?as = "run_attempts db i"
  have keyed: "distinct (map att_id (workflow_attempts db))" using inv by (simp add: runs_inv_def)
  obtain v where ri: "run_id r = i" and ok: "run_ok (step_total v) r ?as (checkpoint_steps db i)"
    using runs_inv_row [OF inv row] .
  have cur: "current_attempt db r = (if ?as = [] then None else Some (last ?as))"
    using current_attempt_live [of "step_total v" r db] ok ri by (simp add: run_ok_def)
  have idle: "db1 = db" if "\<not> live ?as"
    using that by (auto simp: db1_def stop_attempt_def cur live_def)
  show "run_attempts db1 j = (if j = i then stopped_attempts stopped ?as else run_attempts db j)"
  proof (cases "live ?as")
    case True
    let ?a = "last ?as" and ?a' = "(last ?as)\<lparr>att_state := if stopped then AttSTOPPED else AttSTOPPING\<rparr>"
    have "?as \<noteq> []" "is_active ?a" using True by (simp_all add: live_def)
    moreover have "?a \<in> set ?as" using \<open>?as \<noteq> []\<close> by simp
    then have "?a \<in> set (workflow_attempts db)" "att_run_id ?a = i" by (simp_all add: run_attempts_def)
    ultimately show ?thesis
      using run_attempts_put [OF keyed, of ?a ?a' "butlast ?as" j] True
      by (simp add: db1_def stop_attempt_def cur stopped_attempts_def)
  qed (simp add: idle stopped_attempts_def)
  show "run_checkpoints db1 j = run_checkpoints db j" "distinct (map att_id (workflow_attempts db1))"
    "workflow_runs db1 = workflow_runs db" "workflow_versions db1 = workflow_versions db"
    using keyed by (auto simp: db1_def stop_attempt_def split: option.splits)
qed

lemma flush_run_runs:
  assumes "distinct (map run_id (workflow_runs db))"
  shows "\<exists>t. workflow_runs (flush_run now r db) = row_put run_id (r\<lparr>run_updated_at := t\<rparr>) (workflow_runs db)"
proof (cases "row_get run_id (run_id r) (workflow_runs db) = Some r")
  case True
  then have "x = r" if "x \<in> set (workflow_runs db)" "run_id x = run_id r" for x
    using that assms run_table.get_in_rows [OF True] by (auto simp: distinct_map inj_on_def)
  then have "row_put run_id r (workflow_runs db) = workflow_runs db"
    unfolding row_put_def by (intro map_idI) metis
  moreover have "r\<lparr>run_updated_at := run_updated_at r\<rparr> = r" by simp
  ultimately show ?thesis using True by (metis flush_run_def)
next
  case False
  then show ?thesis by (auto simp: flush_run_def put_run_def)
qed

lemma flush_run_frame [simp]:
  "workflow_versions (flush_run now r db) = workflow_versions db" "workflow_attempts (flush_run now r db) = workflow_attempts db"
  "workflow_checkpoints (flush_run now r db) = workflow_checkpoints db"
  by (simp_all add: flush_run_def put_run_def)

lemma after_stop_effect:
  assumes "after_stop env now cause ok expired r attempt db = Inr (db', r')"
  shows "\<exists>arts. db' = db\<lparr>wdb_artifacts := arts\<rparr>"
    and "\<exists>st reason t. r' = r\<lparr>run_state := st, run_reason := reason, run_settled_at := t\<rparr> \<and>
      (if run_state r = RunCANCELLING then st = RunCANCELLED \<and> t \<noteq> None
       else if expired \<and> ok \<and> run_state r \<noteq> RunPAUSED then
         (if step_attempts db (run_id r) (run_next_step r) < MAX_ATTEMPTS then st = RunQUEUED \<and> t = run_settled_at r
          else st = RunFAILED \<and> t \<noteq> None)
       else st = run_state r \<and> t = run_settled_at r)"
proof -
  show "\<exists>arts. db' = db\<lparr>wdb_artifacts := arts\<rparr>"
    using assms settle_effect(2) unfolding after_stop_def Let_def
    by (auto split: if_splits intro: exI [of _ "wdb_artifacts db"])
  have same: "r = r\<lparr>run_state := run_state r, run_reason := run_reason r, run_settled_at := run_settled_at r\<rparr>" by simp
  show "\<exists>st reason t. r' = r\<lparr>run_state := st, run_reason := reason, run_settled_at := t\<rparr> \<and>
      (if run_state r = RunCANCELLING then st = RunCANCELLED \<and> t \<noteq> None
       else if expired \<and> ok \<and> run_state r \<noteq> RunPAUSED then
         (if step_attempts db (run_id r) (run_next_step r) < MAX_ATTEMPTS then st = RunQUEUED \<and> t = run_settled_at r
          else st = RunFAILED \<and> t \<noteq> None)
       else st = run_state r \<and> t = run_settled_at r)"
  proof (cases "run_state r = RunCANCELLING")
    case True
    then show ?thesis using assms settle_effect(1) by (fastforce simp: after_stop_def)
  next
    case False
    note nc = False
    show ?thesis
    proof (cases "expired \<and> ok \<and> run_state r \<noteq> RunPAUSED")
      case True
      then show ?thesis using assms nc settle_effect(1) 
        by (cases "step_attempts db (run_id r) (run_next_step r) < MAX_ATTEMPTS") (force simp: after_stop_def Let_def)+
    next
      case False
      then have "r' = r" using assms nc by (auto simp: after_stop_def)
      then show ?thesis using nc False same by (intro exI [of _ "run_state r"] exI [of _ "run_reason r"] exI [of _ "run_settled_at r"]) auto
    qed
  qed
qed

section \<open>Progression keeps the invariant\<close>

lemma current_attempt_cong:
  "run_id r' = run_id r \<Longrightarrow> run_generation r' = run_generation r \<Longrightarrow> current_attempt db r' = current_attempt db r"
  by (simp add: current_attempt_def)

lemma step_attempts_count: "step_attempts db i k = count_step (run_attempts db i) k"
  by (simp add: step_attempts_def run_attempts_def count_step_def conj_commute)

lemma advance_fence_Inr:
  assumes "advance_fence env new_ids now stopped cause ok expired r attempt db = Inr (db', out, ids)"
    and "\<not> ((case attempt of None \<Rightarrow> False | Some a \<Rightarrow> is_active a) \<and> \<not> stopped)"
  obtains db2 r2 where "after_stop env now cause ok expired r attempt (stop_attempt stopped attempt db) = Inr (db2, r2)"
    "run_event env new_ids now (r2\<lparr>run_revision := run_revision r2 + 1\<rparr>) FENCED
      (fence_detail (cause \<noteq> None) (r2\<lparr>run_revision := run_revision r2 + 1\<rparr>)) db2 = Inr (db', ids)"
  using assms by (auto simp: advance_fence_def Let_def bind_result_Inr)

text \<open>The run that \<open>advance\<close> fences: the stored one, perhaps seen as cancelling or paused.\<close>

definition seen_as :: "workflow_run \<Rightarrow> workflow_run \<Rightarrow> bool" where
  "seen_as r r' \<longleftrightarrow> run_identity r' = run_identity r \<and> run_pointers r' = run_pointers r \<and> run_revision r' = run_revision r \<and> run_generation r' = run_generation r \<and>
    run_next_step r' = run_next_step r \<and> run_content_expired r' = run_content_expired r \<and>
    run_settled_at r' = run_settled_at r \<and> run_state r' \<in> {run_state r, RunCANCELLING, RunPAUSED}"

lemma seen_as_observed: "seen_as r (paused_unless ok (observed_run db w r))"
  by (auto simp: seen_as_def run_identity_def run_pointers_def paused_unless_def observed_run_def split: option.splits)

lemma advance_fence_moved:
  assumes inv: "runs_inv db" and row: "row_get run_id i (workflow_runs db) = Some r" and nt: "run_state r \<notin> TERMINAL_STATES"
    and seen: "seen_as r r1"
    and ex: "expired \<longrightarrow> (case current_attempt db r of None \<Rightarrow> False | Some a \<Rightarrow> is_active a)"
    and st: "run_state r1 \<in> {RunCANCELLING, RunPAUSED} \<or> expired \<and> ok"
    and f: "advance_fence env new_ids now stopped cause ok expired r1 (current_attempt db r) db = Inr (db', out, ids)"
  shows "run_moved db db'"
proof -
  let ?db1 = "stop_attempt stopped (current_attempt db r) db" and ?as = "run_attempts db i"
  note stop = stop_attempt_effect [OF inv row refl, of stopped]
  obtain v0 where ri: "run_id r = i" and ok0: "run_ok (step_total v0) r ?as (checkpoint_steps db i)"
    using runs_inv_row [OF inv row] .
  have cur: "(case current_attempt db r of None \<Rightarrow> False | Some a \<Rightarrow> is_active a) = live ?as"
    using current_attempt_live [of "step_total v0" r db] ok0 ri by (simp add: run_ok_def live_def)
  have settled: "run_settled_at r = None" using ok0 nt by (auto simp: run_ok_def state_ok_def)
  note same = seen [unfolded seen_as_def run_identity_def run_pointers_def prod.inject]
  show ?thesis
  proof (cases "live ?as \<and> \<not> stopped")
    case True
    then have db': "db' = flush_run now r1 ?db1" using f by (simp add: advance_fence_def cur)
    obtain t where t: "workflow_runs db' = row_put run_id (r1\<lparr>run_updated_at := t\<rparr>) (workflow_runs db)"
      using flush_run_runs [of ?db1 now r1] inv stop(4) by (auto simp: runs_inv_def db')
    show ?thesis
    proof (rule run_moved_update [OF inv row _ t])
      show "run_attempts db' j = run_attempts db j" "run_checkpoints db' j = run_checkpoints db j" if "j \<noteq> i" for j
        using that stop(1,2) run_attempts_cong [of db' ?db1 j] run_checkpoints_cong [of db' ?db1 j] by (simp_all add: db')
      show "prefix (run_checkpoints db i) (run_checkpoints db' i) \<or> run_content_expired (r1\<lparr>run_updated_at := t\<rparr>)"
        using stop(2) [of i] run_checkpoints_cong [of db' ?db1 i] by (simp add: db')
      fix v assume ok: "run_ok (step_total v) r ?as (checkpoint_steps db i)"
      have "run_ok (step_total v) (r1\<lparr>run_updated_at := t\<rparr>) (stopped_attempts stopped ?as) (checkpoint_steps db i)"
        by (rule run_ok_stopped [OF ok nt]) (use same True settled ok nt in \<open>auto simp: run_ok_defs\<close>)
      then show "run_ok (step_total v) (r1\<lparr>run_updated_at := t\<rparr>) (run_attempts db' i) (checkpoint_steps db' i)"
        using stop(1,2) [of i] run_attempts_cong [of db' ?db1 i] run_checkpoints_cong [of db' ?db1 i] by (simp add: db')
    qed (use same nt ri stop in \<open>simp_all add: db' run_later_defs\<close>)
  next
    case False
    obtain db2 r2 where as: "after_stop env now cause ok expired r1 (current_attempt db r) ?db1 = Inr (db2, r2)"
      and ev: "run_event env new_ids now (r2\<lparr>run_revision := run_revision r2 + 1\<rparr>) FENCED
        (fence_detail (cause \<noteq> None) (r2\<lparr>run_revision := run_revision r2 + 1\<rparr>)) db2 = Inr (db', ids)"
      using advance_fence_Inr [OF f] False cur by auto
    obtain arts where db2: "db2 = ?db1\<lparr>wdb_artifacts := arts\<rparr>" using after_stop_effect(1) [OF as] by auto
    obtain s reason t where r2: "r2 = r1\<lparr>run_state := s, run_reason := reason, run_settled_at := t\<rparr>"
      and s: "if run_state r1 = RunCANCELLING then s = RunCANCELLED \<and> t \<noteq> None
       else if expired \<and> ok \<and> run_state r1 \<noteq> RunPAUSED then
         (if step_attempts ?db1 (run_id r1) (run_next_step r1) < MAX_ATTEMPTS then s = RunQUEUED \<and> t = run_settled_at r1
          else s = RunFAILED \<and> t \<noteq> None)
       else s = run_state r1 \<and> t = run_settled_at r1"
      using after_stop_effect(2) [OF as] by blast
    have retries: "step_attempts ?db1 (run_id r1) (run_next_step r1) = count_step ?as (run_next_step r)"
      using same ri stop(1) [of i] by (simp add: step_attempts_count)
    have frame: "run_attempts db2 j = (if j = i then stopped_attempts stopped ?as else run_attempts db j)"
      "run_checkpoints db2 j = run_checkpoints db j" for j
      using stop(1,2) [of j] by (simp_all add: db2 run_attempts_def run_checkpoints_def)
    have s': "s = RunCANCELLED \<and> t \<noteq> None \<or> s = RunFAILED \<and> t \<noteq> None \<or> s = RunPAUSED \<and> t = None \<or>
        s = RunQUEUED \<and> t = None \<and> count_step ?as (run_next_step r) < MAX_ATTEMPTS"
      using s [unfolded retries] st same settled by (auto split: if_splits)
    show ?thesis
    proof (rule run_moved_event [OF inv row _ _ _ _ _ _ _ _ ev])
      show "prefix (run_checkpoints db i) (run_checkpoints db2 i)" by (simp add: frame)
      fix v assume ok: "run_ok (step_total v) r ?as (checkpoint_steps db i)"
      have "run_ok (step_total v) (r2\<lparr>run_revision := run_revision r2 + 1\<rparr>) (stopped_attempts stopped ?as) (checkpoint_steps db i)"
        by (rule run_ok_stopped [OF ok nt]) (use same False s' in \<open>auto simp: r2 TERMINAL_STATES_def\<close>)
      then show "run_ok (step_total v) (r2\<lparr>run_revision := run_revision r2 + 1\<rparr>) (run_attempts db2 i) (checkpoint_steps db2 i)"
        by (simp add: frame)
    qed (use same nt ri stop frame in \<open>simp_all add: r2 db2 run_later_defs\<close>)
  qed
qed

lemma insert_attempt_Inr:
  "insert_attempt a db = Inr db' \<longleftrightarrow>
    row_get att_id (att_id a) (workflow_attempts db) = None \<and>
    (\<forall>x \<in> set (workflow_attempts db). \<not> (att_run_id x = att_run_id a \<and> att_generation x = att_generation a)) \<and>
    db' = db\<lparr>workflow_attempts := row_add a (workflow_attempts db)\<rparr>"
  unfolding insert_attempt_def bind_result_Inr raise_if_Inr by auto

lemma advance_start_moved:
  assumes inv: "runs_inv db" and row: "row_get run_id i (workflow_runs db) = Some r"
    and seen: "seen_as r r1" and st: "run_state r1 = RunQUEUED"
    and f: "advance_start env new_id new_ids now r1 db = Inr (db', out, ids)"
  shows "run_moved db db'"
proof -
  let ?r = "r1\<lparr>run_generation := run_generation r1 + 1, run_state := RunRUNNING, run_revision := run_revision r1 + 1\<rparr>"
  let ?a = "new_attempt env new_id now ?r"
  let ?db1 = "db\<lparr>workflow_attempts := row_add ?a (workflow_attempts db)\<rparr>"
  note same = seen [unfolded seen_as_def run_identity_def run_pointers_def prod.inject]
  have queued: "run_state r = RunQUEUED" using same st by simp
  have ri: "run_id r = i" using run_table.get_in_rows [OF row] by simp
  obtain detail where fresh: "row_get att_id new_id (workflow_attempts db) = None"
    and ev: "run_event env new_ids now ?r ATTEMPT_STARTED detail ?db1 = Inr (db', ids)"
    using f by (auto simp: advance_start_def Let_def bind_result_Inr insert_attempt_Inr new_attempt_def)
  have a: "att_id ?a = new_id" "att_run_id ?a = i" "att_generation ?a = Suc (run_generation r)"
    "att_step_index ?a = run_next_step r" "is_active ?a"
    using same ri by (simp_all add: new_attempt_def is_active_def)
  have frame: "run_attempts ?db1 j = run_attempts db j @ (if j = i then [?a] else [])"
    "run_checkpoints ?db1 j = run_checkpoints db j" for j
    using a(2) by (simp_all add: run_attempts_def run_checkpoints_def row_add_def)
  have new: "distinct (map att_id (workflow_attempts ?db1))"
    using inv fresh a(1) by (auto simp: runs_inv_def row_add_def row_get_def find_None_iff)
  show ?thesis
  proof (rule run_moved_event [OF inv row _ _ _ new _ _ _ _ ev])
    show "prefix (run_checkpoints db i) (run_checkpoints ?db1 i)" unfolding frame by simp
    fix v assume ok: "run_ok (step_total v) r (run_attempts db i) (checkpoint_steps db i)" and "1 \<le> step_total v"
    have "attempts_ok (step_total v) ?r (run_attempts db i @ [?a])"
      by (rule attempts_ok_start [of _ r]) (use ok queued same a in \<open>auto simp: run_ok_defs\<close>)
    moreover have "state_ok (step_total v) ?r (run_attempts db i @ [?a]) (checkpoint_steps db i)"
      using ok queued same a by (auto simp: run_ok_defs)
    ultimately show "run_ok (step_total v) ?r (run_attempts ?db1 i) (checkpoint_steps ?db1 i)"
      unfolding run_ok_def frame by simp
  qed (use same queued ri frame in \<open>simp_all add: run_later_defs TERMINAL_STATES_def\<close>)
qed

lemma advance_moved:
  assumes inv: "runs_inv db" and f: "advance env new_id new_ids now stopped lost cause i db = Inr (db', out, ids)"
  shows "run_moved db db'"
proof (cases "db' = db")
  case False
  obtain r where row: "row_get run_id i (workflow_runs db) = Some r" and nt: "run_state r \<notin> TERMINAL_STATES"
    using f False by (auto simp: advance_def split: option.splits if_splits)
  obtain w where w: "get_workflow_one db (run_workflow_id r) = Inr w"
    using f row nt by (auto simp: advance_def bind_result_Inr)
  let ?r1 = "observed_run db w r"
  have cur: "current_attempt db ?r1 = current_attempt db r"
    by (rule current_attempt_cong) (auto simp: observed_run_def split: option.splits)
  obtain ok where ok: "authorized db ?r1 = Inr ok"
    using f row nt w False by (auto simp: advance_def bind_result_Inr Let_def split: if_splits)
  let ?r2 = "paused_unless ok ?r1" and ?ex = "attempt_expired now lost (current_attempt db r)"
  have seen: "seen_as r ?r2" by (rule seen_as_observed)
  have "(if run_state ?r2 \<in> {RunCANCELLING, RunPAUSED} \<or> ?ex then
           advance_fence env new_ids now stopped cause ok ?ex ?r2 (current_attempt db r) db
         else advance_start env new_id new_ids now ?r2 db) = Inr (db', out, ids)"
    and queued: "run_state ?r2 \<in> {RunCANCELLING, RunPAUSED} \<or> ?ex \<or> run_state ?r2 = RunQUEUED"
    using f row nt w ok False by (auto simp: advance_def bind_result_Inr Let_def cur split: if_splits)
  then consider (fence) "run_state ?r2 \<in> {RunCANCELLING, RunPAUSED} \<or> ?ex"
      "advance_fence env new_ids now stopped cause ok ?ex ?r2 (current_attempt db r) db = Inr (db', out, ids)"
    | (start) "run_state ?r2 = RunQUEUED" "advance_start env new_id new_ids now ?r2 db = Inr (db', out, ids)"
    by (meson)
  then show ?thesis
  proof cases
    case fence
    then have "run_state ?r2 \<in> {RunCANCELLING, RunPAUSED} \<or> ?ex \<and> ok" by (auto simp: paused_unless_def)
    then show ?thesis
      by (rule advance_fence_moved [OF inv row nt seen _ _ fence(2), rotated]) (auto simp: attempt_expired_def split: option.splits)
  qed (rule advance_start_moved [OF inv row seen])
qed (use run_moved_refl [OF inv] in simp)

lemma fail_moved:
  assumes "runs_inv db"
  shows "run_moved db (fst (fail env new_id new_ids new_ids2 now later i token failure db))"
proof (cases "fail_record env new_ids now i token failure db")
  case (Inr out)
  obtain db1 j ids where out: "out = (db1, j, ids)" by (cases out)
  have m1: "run_moved db db1" using fail_record_moved [OF assms] Inr out by simp
  then have "run_moved db db2" if "advance env new_id new_ids2 later True True (Some (fail_reason failure)) j db1 = Inr (db2, a, ids2)"
    for db2 a ids2 using advance_moved that run_moved_trans unfolding run_moved_def by blast
  with m1 Inr show ?thesis
    by (auto simp: fail_def out split: sum.splits)
qed (use run_moved_refl [OF assms] in \<open>simp add: fail_def\<close>)

section \<open>The other operations\<close>

text \<open>A database whose runs, attempts, checkpoints and versions are the same.\<close>

lemma runs_inv_frame:
  assumes "runs_inv db" and "workflow_runs db' = workflow_runs db" and "workflow_attempts db' = workflow_attempts db"
    and "workflow_checkpoints db' = workflow_checkpoints db" and "workflow_versions db' = workflow_versions db"
  shows "run_moved db db'"
  using assms unfolding run_moved_def rows_later_def runs_inv_def run_row_ok_def run_attempts_def run_checkpoints_def
  by auto

text \<open>A new version with steps.\<close>

lemma runs_inv_version:
  assumes inv: "runs_inv db" and "workflow_runs db' = workflow_runs db" and "workflow_attempts db' = workflow_attempts db"
    and "workflow_checkpoints db' = workflow_checkpoints db"
    and vs: "workflow_versions db' = row_add v (workflow_versions db)"
    and v: "row_get ver_id (ver_id v) (workflow_versions db) = None" "draft_steps (ver_snapshot v) \<noteq> []"
  shows "run_moved db db'"
proof -
  have "run_row_ok db' r" if "run_row_ok db r" for r
  proof -
    obtain x where "row_get ver_id (run_version_id r) (workflow_versions db) = Some x" "ver_workflow_id x = run_workflow_id r"
      "run_ok (step_total x) r (run_attempts db (run_id r)) (checkpoint_steps db (run_id r))"
      using \<open>run_row_ok db r\<close> by (auto simp: run_row_ok_def)
    moreover have "row_get ver_id (run_version_id r) (workflow_versions db') = Some x"
      using calculation(1) v(1) by (auto simp: vs version_table.get_add)
    ultimately show ?thesis
      using assms(3,4) by (auto simp: run_row_ok_def run_attempts_def run_checkpoints_def)
  qed
  then have "runs_inv db'"
    using assms unfolding runs_inv_def run_attempts_def run_checkpoints_def by (auto simp: row_add_def)
  then show ?thesis
    using assms by (auto simp: run_moved_def rows_later_def run_checkpoints_def)
qed

lemma create_moved:
  assumes "runs_inv db" and "workflow_create new_id new_version_id now aid draft uid scope db = Inr (db', w)"
    and "draft_steps draft \<noteq> []"
  shows "run_moved db db'"
  by (rule runs_inv_version [OF assms(1)]) (use assms(2,3) in \<open>auto simp: workflow_create_Inr\<close>)

lemma save_moved:
  assumes inv: "runs_inv db" and s: "save_version new_version_id now i aid scope expected draft uid db = Inr (db', w)"
    and steps: "\<And>d. draft = Some d \<Longrightarrow> draft_steps d \<noteq> []"
  shows "run_moved db db'"
proof (cases draft)
  case None
  then show ?thesis
    by (intro runs_inv_frame [OF inv]) (use s in \<open>auto simp: save_version_Inr\<close>)
next
  case (Some d)
  then show ?thesis
    by (intro runs_inv_version [OF inv, where v = "saved_version new_version_id now i (max_number (versions_of db i) + 1) d uid"])
      (use s steps in \<open>auto simp: save_version_Inr insert_version_Inr saved_version_def\<close>)
qed

lemma insert_run_Inr:
  "insert_run r db = Inr db' \<longleftrightarrow>
    row_get run_id (run_id r) (workflow_runs db) = None \<and>
    (\<forall>x \<in> set (workflow_runs db). \<not> (run_workflow_id x = run_workflow_id r \<and> run_client_request_id x = run_client_request_id r)) \<and>
    db' = db\<lparr>workflow_runs := row_add r (workflow_runs db)\<rparr>"
  unfolding insert_run_def bind_result_Inr raise_if_Inr by auto

text \<open>A start either finds the run of its request or inserts a queued one.\<close>

lemma run_start_Inr:
  assumes "run_start env new_id new_ids now workflow_id aid scope payload uid mid runtime rerun_of db = Inr (db', r, ids)"
  shows "db' = db \<and> r \<in> set (workflow_runs db) \<and> run_request_hash r = start_hash env payload uid rerun_of \<and>
      run_workflow_id r = workflow_id \<and> run_client_request_id r = rc_client_request_id payload \<and> ids = []
    \<or> r = new_run new_id now workflow_id payload uid mid (start_hash env payload uid rerun_of) runtime rerun_of \<and>
      (\<exists>v. row_get ver_id (rc_version_id payload) (workflow_versions db) = Some v \<and> ver_workflow_id v = workflow_id) \<and>
      insert_run r db = Inr (db\<lparr>workflow_runs := row_add r (workflow_runs db)\<rparr>) \<and>
      (\<exists>kind detail. run_event env new_ids now r kind detail (db\<lparr>workflow_runs := row_add r (workflow_runs db)\<rparr>) = Inr (db', ids))"
proof -
  let ?same = "\<lambda>r. run_workflow_id r = workflow_id \<and> run_client_request_id r = rc_client_request_id payload"
  obtain w where w: "get_in_scope db workflow_id aid scope = Inr (Some w)"
    using assms unfolding run_start_def bind_result_Inr by (auto split: option.splits)
  show ?thesis
  proof (cases "find ?same (workflow_runs db)")
    case (Some x)
    then have "x \<in> set (workflow_runs db)" "?same x" by (auto simp: find_Some_iff)
    moreover have "db' = db \<and> r = x \<and> ids = [] \<and> run_request_hash x = start_hash env payload uid rerun_of"
      using assms w Some unfolding run_start_def by (auto simp: bind_result_Inr)
    ultimately show ?thesis by simp
  next
    case None
    then have new: "start_new env new_id new_ids now w payload uid mid runtime rerun_of db = Inr (db', r, ids)"
      using assms w unfolding run_start_def bind_result_Inr by auto
    have "wf_id w = workflow_id" using get_in_scope_found [OF w] by simp
    then show ?thesis
      using new unfolding start_new_def bind_result_Inr start_event_def
      by (auto simp: bind_result_Inr Let_def insert_run_Inr split: option.splits)
  qed
qed

lemma row_put_same:
  "distinct (map key t) \<Longrightarrow> row_get key (key r) t = Some r \<Longrightarrow> row_put key r t = t"
  unfolding row_put_def by (intro map_idI) (auto simp: row_get_def find_Some_iff distinct_conv_nth in_set_conv_nth)

lemma run_start_moved:
  assumes inv: "runs_inv db"
    and s: "run_start env new_id new_ids now workflow_id aid scope payload uid mid runtime rerun_of db = Inr (db', r, ids)"
  shows "run_moved db db'"
  using run_start_Inr [OF s]
proof (elim disjE conjE exE)
  fix v kind detail
  let ?db1 = "db\<lparr>workflow_runs := row_add r (workflow_runs db)\<rparr>"
  assume r: "r = new_run new_id now workflow_id payload uid mid (start_hash env payload uid rerun_of) runtime rerun_of"
    and v: "row_get ver_id (rc_version_id payload) (workflow_versions db) = Some v" "ver_workflow_id v = workflow_id"
    and ins: "insert_run r db = Inr ?db1" and ev: "run_event env new_ids now r kind detail ?db1 = Inr (db', ids)"
  note e = run_event_effect [OF ev]
  have fresh: "row_get run_id (run_id r) (workflow_runs db) = None"
    and request: "\<And>x. x \<in> set (workflow_runs db) \<Longrightarrow>
      \<not> (run_workflow_id x = run_workflow_id r \<and> run_client_request_id x = run_client_request_id r)"
    using ins unfolding insert_run_Inr by auto
  have keyed: "distinct (map run_id (workflow_runs db))" using inv by (simp add: runs_inv_def)
  have up: "r\<lparr>run_updated_at := now\<rparr> = r" by (simp add: r new_run_def)
  have runs: "workflow_runs db' = row_add r (workflow_runs db)"
    using e(1) row_put_same [OF run_table.keyed_add [OF keyed fresh], of r] fresh by (simp add: up run_table.get_add)
  have new: "run_id r \<notin> run_id ` set (workflow_runs db)" using fresh unfolding run_table.get_None by auto
  have atts: "run_attempts db' = run_attempts db" and cps: "run_checkpoints db' = run_checkpoints db"
    using e by (auto simp: run_attempts_def run_checkpoints_def)
  have none: "run_attempts db (run_id r) = []" "run_checkpoints db (run_id r) = []"
    using inv new unfolding runs_inv_def by blast+
  have "v \<in> set (workflow_versions db)" using version_table.get_in_rows [OF v(1)] by simp
  then have "draft_steps (ver_snapshot v) \<noteq> []" using inv by (simp add: runs_inv_def)
  then have "run_row_ok db' r"
    using v none e by (auto simp: run_row_ok_def atts cps r new_run_def run_ok_defs attempts_ok_def count_step_def MAX_ATTEMPTS_def)
  moreover have "run_row_ok db' x" if "x \<in> set (workflow_runs db)" for x
    using inv that e by (auto simp: runs_inv_def run_row_ok_def atts cps)
  moreover have "distinct (map (\<lambda>r. (run_workflow_id r, run_client_request_id r)) (row_add r (workflow_runs db)))"
    using inv request unfolding runs_inv_def row_add_def by (auto simp del: not_None_eq) metis
  ultimately have "runs_inv db'"
    using inv e(2,4) run_table.keyed_add [OF keyed fresh] unfolding runs_inv_def runs atts cps by (auto simp: row_add_def)
  moreover have "rows_later db db'"
    using fresh by (auto simp: rows_later_def runs run_table.get_add cps)
  ultimately show ?thesis by (simp add: run_moved_def)
qed (use run_moved_refl [OF inv] in simp)

text \<open>The time of dispatch is no part of the invariant.\<close>

lemma run_ok_map:
  assumes "\<And>a. att_generation (f a) = att_generation a \<and> att_step_index (f a) = att_step_index a \<and> is_active (f a) = is_active a"
  shows "run_ok n r (map f as) cps = run_ok n r as cps"
proof -
  have "count_step (map f as) k = count_step as k" for k
    using assms by (induction as) (auto simp: count_step_def)
  moreover have "live (map f as) = live as" using assms by (cases as rule: rev_cases) simp_all
  moreover have "map att_generation (map f as) = map att_generation as" using assms by simp
  moreover have "live as \<Longrightarrow> att_step_index (last (map f as)) = att_step_index (last as)"
    using assms by (cases as rule: rev_cases) simp_all
  moreover have "(\<forall>a \<in> set (butlast (map f as)). \<not> is_active a) = (\<forall>a \<in> set (butlast as). \<not> is_active a)"
    using assms by (simp add: map_butlast [symmetric])
  moreover have "(\<forall>a \<in> set (map f as). att_step_index a \<le> k \<and> att_step_index a < n) =
      (\<forall>a \<in> set as. att_step_index a \<le> k \<and> att_step_index a < n)" for k
    using assms by simp
  ultimately show ?thesis
    unfolding run_ok_def attempts_ok_def state_ok_def by presburger
qed

lemma mark_dispatched_moved:
  assumes inv: "runs_inv db"
  shows "run_moved db (mark_dispatched now i db)"
proof (cases "mark_dispatched now i db = db")
  case False
  then obtain a where a: "row_get att_id i (workflow_attempts db) = Some a"
    and db': "mark_dispatched now i db = put_attempt (a\<lparr>att_dispatched_at := Some now\<rparr>) db"
    by (auto simp: mark_dispatched_def split: option.splits if_splits)
  let ?f = "\<lambda>x. if att_id x = att_id a then x\<lparr>att_dispatched_at := Some now\<rparr> else x"
  have keyed: "distinct (map att_id (workflow_attempts db))" using inv by (simp add: runs_inv_def)
  have "x = a" if "x \<in> set (workflow_attempts db)" "att_id x = att_id a" for x
    using that keyed attempt_table.get_in_rows [OF a] by (auto simp: distinct_map inj_on_def)
  then have put: "workflow_attempts (mark_dispatched now i db) = map ?f (workflow_attempts db)"
    by (auto simp: db' put_attempt_def row_put_def)
  have atts: "run_attempts (mark_dispatched now i db) j = map ?f (run_attempts db j)" for j
    unfolding run_attempts_def put filter_map o_def by (rule arg_cong [of _ _ "map ?f"], rule filter_cong) auto
  have "run_ok n r (map ?f as) cps = run_ok n r as cps" for n r as cps
    by (rule run_ok_map) (simp add: is_active_def)
  moreover have "distinct (map att_id (workflow_attempts (mark_dispatched now i db)))" using keyed by (simp add: db')
  ultimately have "runs_inv (mark_dispatched now i db)"
    using inv unfolding runs_inv_def run_row_ok_def atts by (simp add: db')
  then show ?thesis by (simp add: run_moved_def rows_later_def db')
qed (use run_moved_refl [OF inv] in simp)

text \<open>Retention removes the content of settled runs, one after the other.\<close>

lemma expire_run_moved:
  assumes inv: "runs_inv db" and row: "row_get run_id (run_id r) (workflow_runs db) = Some r" and settled: "run_settled_at r \<noteq> None"
  shows "run_moved db (expire_run now r db)"
proof (rule run_moved_update [OF inv row, of "r\<lparr>run_inputs := [], run_content_expired := True, run_updated_at := now\<rparr>"])
  show "run_later r (r\<lparr>run_inputs := [], run_content_expired := True, run_updated_at := now\<rparr>)" by (simp add: run_later_defs)
  fix v assume "run_ok (step_total v) r (run_attempts db (run_id r)) (checkpoint_steps db (run_id r))"
  then show "run_ok (step_total v) (r\<lparr>run_inputs := [], run_content_expired := True, run_updated_at := now\<rparr>)
      (run_attempts (expire_run now r db) (run_id r)) (checkpoint_steps (expire_run now r db) (run_id r))"
    using settled by (auto simp: run_ok_def state_ok_def attempts_ok_def expire_run_def put_run_def run_attempts_def)
qed (use inv in \<open>auto simp: expire_run_def put_run_def run_attempts_def run_checkpoints_def runs_inv_def intro: filter_cong\<close>)

lemma expire_runs_moved:
  assumes "runs_inv db" and "distinct (map run_id rs)"
    and "\<And>r. r \<in> set rs \<Longrightarrow> row_get run_id (run_id r) (workflow_runs db) = Some r \<and> run_settled_at r \<noteq> None"
  shows "run_moved db (foldl (\<lambda>d r. expire_run now r d) db rs)"
  using assms
proof (induction rs arbitrary: db)
  case Nil
  then show ?case by (simp add: run_moved_refl)
next
  case (Cons r rs)
  have m: "run_moved db (expire_run now r db)" using expire_run_moved Cons.prems by simp
  moreover have "row_get run_id (run_id x) (workflow_runs (expire_run now r db)) = Some x \<and> run_settled_at x \<noteq> None"
    if "x \<in> set rs" for x
  proof -
    have "run_id x \<noteq> run_id r" using Cons.prems(2) that by (auto simp: image_iff)
    then show ?thesis
      using Cons.prems(3) [of x] that by (simp add: expire_run_def put_run_def run_table.get_put_other)
  qed
  ultimately have "run_moved (expire_run now r db) (foldl (\<lambda>d r. expire_run now r d) (expire_run now r db) rs)"
    using Cons.IH [of "expire_run now r db"] Cons.prems(2) by (simp add: run_moved_def)
  with m show ?case using run_moved_trans by simp
qed

lemma expire_content_moved:
  assumes inv: "runs_inv db"
  shows "run_moved db (expire_content now limit db)"
  unfolding expire_content_def
proof (rule expire_runs_moved [OF inv])
  have keyed: "distinct (map run_id (workflow_runs db))" using inv by (simp add: runs_inv_def)
  then show "distinct (map run_id (expired_runs now limit db))"
    by (simp add: expired_runs_def take_map [symmetric] distinct_map_filter)
  fix r assume "r \<in> set (expired_runs now limit db)"
  then have "r \<in> set (workflow_runs db)" "run_settled_at r \<noteq> None"
    by (auto simp: expired_runs_def dest!: in_set_takeD split: option.splits)
  then show "row_get run_id (run_id r) (workflow_runs db) = Some r \<and> run_settled_at r \<noteq> None"
    using run_table.get_rows [OF keyed] by auto
qed

section \<open>Rows that the deletion of other rows changes\<close>

text \<open>
  A foreign key of a run that is \<open>ON DELETE SET NULL\<close> is cleared when the row it points to is
  deleted (\<open>run_models.py\<close>, lines 49 to 51 and 66; \<open>created_by_user_id\<close> of a version likewise):
  here the users \<open>us\<close> and the memberships \<open>ms\<close> are deleted.
\<close>

definition cleared :: "uuid set \<Rightarrow> uuid option \<Rightarrow> uuid option" where
  "cleared S p = (case p of None \<Rightarrow> None | Some i \<Rightarrow> if i \<in> S then None else Some i)"

definition forget_initiator :: "uuid set \<Rightarrow> uuid set \<Rightarrow> workflow_run \<Rightarrow> workflow_run" where
  "forget_initiator us ms r =
    r\<lparr>run_initiating_user_id := cleared us (run_initiating_user_id r),
      run_initiating_membership_id := cleared ms (run_initiating_membership_id r)\<rparr>"

definition forget_people :: "uuid set \<Rightarrow> uuid set \<Rightarrow> run_db \<Rightarrow> run_db" where
  "forget_people us ms db =
    db\<lparr>workflow_runs := map (forget_initiator us ms) (workflow_runs db),
       workflow_versions := map (\<lambda>v. v\<lparr>ver_created_by_user_id := cleared us (ver_created_by_user_id v)\<rparr>) (workflow_versions db)\<rparr>"

text \<open>
  The hard deletion of an Agent or of an Organization takes its workflows along (\<open>ON DELETE
  CASCADE\<close>): their versions, their runs and the attempts, checkpoints and history of these; a
  run that repeated one of the removed runs loses the reference to it.
\<close>

definition forget_original :: "uuid set \<Rightarrow> workflow_run \<Rightarrow> workflow_run" where
  "forget_original gone r = r\<lparr>run_rerun_of_run_id := cleared gone (run_rerun_of_run_id r)\<rparr>"

definition delete_workflows :: "uuid set \<Rightarrow> run_db \<Rightarrow> run_db" where
  "delete_workflows W db =
    (let gone = run_id ` set (row_where (\<lambda>r. run_workflow_id r \<in> W) (workflow_runs db))
     in db\<lparr>workflows := row_where (\<lambda>w. wf_id w \<notin> W) (workflows db),
           workflow_versions := row_where (\<lambda>v. ver_workflow_id v \<notin> W) (workflow_versions db),
           workflow_runs := map (forget_original gone) (row_where (\<lambda>r. run_workflow_id r \<notin> W) (workflow_runs db)),
           workflow_attempts := row_where (\<lambda>a. att_run_id a \<notin> gone) (workflow_attempts db),
           workflow_checkpoints := row_where (\<lambda>c. cp_run_id c \<notin> gone) (workflow_checkpoints db),
           workflow_histories := row_where (\<lambda>h. hist_run_id h \<notin> gone) (workflow_histories db)\<rparr>)"

text \<open>A change of rows that leaves what the invariant reads of them alone.\<close>

lemma row_get_through:
  assumes "\<And>x. key (f x) = key x"
  shows "row_get key i (map f t) = map_option f (row_get key i t)"
  by (induction t) (simp_all add: row_get_def assms)

lemma row_get_where: "row_get key i t = Some x \<Longrightarrow> P x \<Longrightarrow> row_get key i (row_where P t) = Some x"
  by (induction t) (auto simp: row_get_def split: if_splits)

lemma pointers_kept_forget [simp]:
  "pointers_kept r (forget_initiator us ms r)" "pointers_kept r (forget_original gone r)"
  by (auto simp: pointers_kept_def forget_initiator_def forget_original_def cleared_def split: option.splits)

lemma forget_fields [simp]:
  "run_id (forget_initiator us ms r) = run_id r" "run_id (forget_original gone r) = run_id r"
  "run_workflow_id (forget_initiator us ms r) = run_workflow_id r" "run_workflow_id (forget_original gone r) = run_workflow_id r"
  "run_version_id (forget_initiator us ms r) = run_version_id r" "run_version_id (forget_original gone r) = run_version_id r"
  "run_client_request_id (forget_initiator us ms r) = run_client_request_id r"
  "run_client_request_id (forget_original gone r) = run_client_request_id r"
  by (simp_all add: forget_initiator_def forget_original_def)

lemma run_ok_forget [simp]:
  "run_ok n (forget_initiator us ms r) as cps = run_ok n r as cps" "run_ok n (forget_original gone r) as cps = run_ok n r as cps"
  by (simp_all add: run_ok_def attempts_ok_def state_ok_def forget_initiator_def forget_original_def)

lemma run_later_forget [simp]: "run_later r (forget_initiator us ms r)" "run_later r (forget_original gone r)"
  unfolding run_later_def by (simp_all add: run_identity_def run_outcome_def) (simp_all add: forget_initiator_def forget_original_def)

lemma forget_people_moved:
  assumes inv: "runs_inv db" shows "run_moved db (forget_people us ms db)"
proof -
  let ?db = "forget_people us ms db" and ?f = "forget_initiator us ms"
  let ?g = "\<lambda>v. v\<lparr>ver_created_by_user_id := cleared us (ver_created_by_user_id v)\<rparr>"
  have runs: "workflow_runs ?db = map ?f (workflow_runs db)" and vers: "workflow_versions ?db = map ?g (workflow_versions db)"
    and atts: "workflow_attempts ?db = workflow_attempts db" "run_attempts ?db = run_attempts db" "run_checkpoints ?db = run_checkpoints db"
    by (auto simp: forget_people_def run_attempts_def run_checkpoints_def)
  have rv: "row_get ver_id i (map ?g t) = map_option ?g (row_get ver_id i t)" for i t by (rule row_get_through) simp
  have row: "run_row_ok ?db (?f r)" if "run_row_ok db r" for r
    using that by (auto simp: run_row_ok_def vers rv atts)
  have "distinct (map run_id (workflow_runs ?db))" "distinct (map (\<lambda>r. (run_workflow_id r, run_client_request_id r)) (workflow_runs ?db))"
    using inv by (simp_all add: runs_inv_def runs o_def)
  moreover have "run_id ` set (workflow_runs ?db) = run_id ` set (workflow_runs db)" by (simp add: runs image_image)
  moreover have "\<forall>v \<in> set (workflow_versions ?db). draft_steps (ver_snapshot v) \<noteq> []" using inv by (auto simp: runs_inv_def vers)
  moreover have "\<forall>r \<in> set (workflow_runs ?db). run_row_ok ?db r" using inv row by (auto simp: runs_inv_def runs)
  ultimately have "runs_inv ?db" using inv unfolding runs_inv_def atts by simp
  moreover have "rows_later db ?db"
    by (auto simp: rows_later_def runs atts row_get_through)
  ultimately show ?thesis by (simp add: run_moved_def)
qed

text \<open>What is left after the deletion of workflows is as good as before.\<close>

lemma delete_workflows_rows:
  assumes inv: "runs_inv db" and row: "row_get run_id i (workflow_runs db) = Some r" and w: "run_workflow_id r \<notin> W"
  shows "row_get run_id i (workflow_runs (delete_workflows W db)) =
      Some (forget_original (run_id ` set (row_where (\<lambda>r. run_workflow_id r \<in> W) (workflow_runs db))) r)"
    and "run_attempts (delete_workflows W db) i = run_attempts db i" "run_checkpoints (delete_workflows W db) i = run_checkpoints db i"
proof -
  let ?gone = "run_id ` set (row_where (\<lambda>r. run_workflow_id r \<in> W) (workflow_runs db))"
  have keyed: "distinct (map run_id (workflow_runs db))" using inv by (simp add: runs_inv_def)
  have "x = r" if "x \<in> set (workflow_runs db)" "run_id x = i" for x
    using that keyed run_table.get_in_rows [OF row] by (auto simp: distinct_map inj_on_def)
  then have kept: "i \<notin> ?gone" using w by auto
  show "row_get run_id i (workflow_runs (delete_workflows W db)) = Some (forget_original ?gone r)"
    using row_get_where [OF row, of "\<lambda>r. run_workflow_id r \<notin> W"] w
    by (simp add: delete_workflows_def Let_def row_get_through del: set_filter)
  show "run_attempts (delete_workflows W db) i = run_attempts db i" "run_checkpoints (delete_workflows W db) i = run_checkpoints db i"
    using kept by (auto simp: delete_workflows_def Let_def run_attempts_def run_checkpoints_def intro!: filter_cong)
qed

lemma delete_workflows_inv:
  assumes inv: "runs_inv db" shows "runs_inv (delete_workflows W db)"
proof -
  let ?db = "delete_workflows W db" and ?gone = "run_id ` set (row_where (\<lambda>r. run_workflow_id r \<in> W) (workflow_runs db))"
  have keyed: "distinct (map run_id (workflow_runs db))" using inv by (simp add: runs_inv_def)
  have runs: "workflow_runs ?db = map (forget_original ?gone) (row_where (\<lambda>r. run_workflow_id r \<notin> W) (workflow_runs db))"
    and vers: "workflow_versions ?db = row_where (\<lambda>v. ver_workflow_id v \<notin> W) (workflow_versions db)"
    by (simp_all add: delete_workflows_def Let_def del: set_filter)
  have "distinct (map run_id (workflow_runs ?db))" "distinct (map (\<lambda>r. (run_workflow_id r, run_client_request_id r)) (workflow_runs ?db))"
    using inv by (simp_all add: runs_inv_def runs o_def distinct_map_filter del: set_filter)
  moreover have "distinct (map att_id (workflow_attempts ?db))"
    using inv by (simp add: runs_inv_def delete_workflows_def Let_def distinct_map_filter)
  moreover have "run_attempts ?db i = [] \<and> run_checkpoints ?db i = []" if "i \<notin> run_id ` set (workflow_runs ?db)" for i
  proof (cases "i \<in> run_id ` set (workflow_runs db)")
    case True
    then have "i \<in> ?gone" using that by (auto simp: runs image_iff)
    then show ?thesis by (auto simp: delete_workflows_def Let_def run_attempts_def run_checkpoints_def filter_empty_conv)
  next
    case False
    then have "run_attempts db i = []" "run_checkpoints db i = []" using inv unfolding runs_inv_def by blast+
    then show ?thesis by (auto simp: delete_workflows_def Let_def run_attempts_def run_checkpoints_def filter_empty_conv)
  qed
  moreover have "\<forall>v \<in> set (workflow_versions ?db). draft_steps (ver_snapshot v) \<noteq> []" using inv by (auto simp: runs_inv_def vers)
  moreover have "run_row_ok ?db r'" if r': "r' \<in> set (workflow_runs ?db)" for r'
  proof -
    obtain r where r: "r \<in> set (workflow_runs db)" "run_workflow_id r \<notin> W" "r' = forget_original ?gone r" using r' by (auto simp: runs)
    have row: "row_get run_id (run_id r) (workflow_runs db) = Some r" using run_table.get_rows [OF keyed] r(1) by auto
    obtain v where v: "row_get ver_id (run_version_id r) (workflow_versions db) = Some v" "ver_workflow_id v = run_workflow_id r"
      "run_ok (step_total v) r (run_attempts db (run_id r)) (checkpoint_steps db (run_id r))"
      using inv r(1) by (auto simp: runs_inv_def run_row_ok_def)
    have "row_get ver_id (run_version_id r) (workflow_versions ?db) = Some v"
      unfolding vers by (rule row_get_where [OF v(1)]) (simp add: v(2) r(2))
    then show ?thesis
      unfolding run_row_ok_def r(3) using v(2,3) delete_workflows_rows(2,3) [OF inv row r(2)]
      by (intro exI [of _ v]) (simp del: set_filter)
  qed
  ultimately show ?thesis unfolding runs_inv_def by blast
qed

section \<open>Any interleaving of operations\<close>

text \<open>
  The transactions by which runs go on: those of the run repository, those of workflow
  definitions with a draft that has steps (as every validated draft does), the deletion of users
  and memberships, which clears the references of runs to them, and any change of the other tables:
  memberships and Agents, events and deliveries, settings, artifacts.
\<close>

inductive run_step :: "run_db \<Rightarrow> run_db \<Rightarrow> bool" where
  by_start: "run_start env new_id new_ids now workflow_id aid scope payload uid mid runtime rerun_of db = Inr (db', r, ids)
    \<Longrightarrow> run_step db db'"
| by_cancel: "run_cancel env new_ids now i aid scope revision db = Inr (db', ids) \<Longrightarrow> run_step db db'"
| by_advance: "advance env new_id new_ids now stopped lost cause i db = Inr (db', out, ids) \<Longrightarrow> run_step db db'"
| by_complete: "complete env new_ids now i token summary db = Inr (db', ids) \<Longrightarrow> run_step db db'"
| by_failure: "fail_record env new_ids now i token failure db = Inr (db', j, ids) \<Longrightarrow> run_step db db'"
| by_dispatch: "run_step db (mark_dispatched now i db)"
| by_retention: "run_step db (expire_content now limit db)"
| by_create: "workflow_create new_id new_version_id now aid draft uid scope db = Inr (db', w) \<Longrightarrow> draft_steps draft \<noteq> []
    \<Longrightarrow> run_step db db'"
| by_save: "save_version new_version_id now i aid scope expected draft uid db = Inr (db', w)
    \<Longrightarrow> (\<And>d. draft = Some d \<Longrightarrow> draft_steps d \<noteq> []) \<Longrightarrow> run_step db db'"
| by_forgetting: "run_step db (forget_people us ms db)"
| by_others: "workflow_runs db' = workflow_runs db \<Longrightarrow> workflow_attempts db' = workflow_attempts db
    \<Longrightarrow> workflow_checkpoints db' = workflow_checkpoints db \<Longrightarrow> workflow_versions db' = workflow_versions db
    \<Longrightarrow> run_step db db'"

lemma run_step_moved: "run_step db db' \<Longrightarrow> runs_inv db \<Longrightarrow> run_moved db db'"
proof (induction rule: run_step.induct)
  case by_start then show ?case by (blast intro: run_start_moved)
next
  case by_cancel then show ?case by (blast intro: run_cancel_moved)
next
  case by_advance then show ?case by (blast intro: advance_moved)
next
  case by_complete then show ?case by (blast intro: complete_moved)
next
  case by_failure then show ?case by (blast intro: fail_record_moved)
next
  case by_dispatch then show ?case by (rule mark_dispatched_moved)
next
  case by_retention then show ?case by (rule expire_content_moved)
next
  case by_create then show ?case by (blast intro: create_moved)
next
  case by_save then show ?case using save_moved by blast
next
  case by_forgetting then show ?case by (rule forget_people_moved)
next
  case by_others then show ?case by (blast intro: runs_inv_frame)
qed

lemma run_steps_moved: "run_step\<^sup>*\<^sup>* db db' \<Longrightarrow> runs_inv db \<Longrightarrow> run_moved db db'"
proof (induction rule: rtranclp_induct)
  case base then show ?case by (rule run_moved_refl)
next
  case (step y z)
  then have "run_moved db y" "run_moved y z" using run_step_moved by (auto simp: run_moved_def)
  then show ?case by (rule run_moved_trans)
qed

text \<open>
  All that can happen to a database with runs: one of these transactions, or a hard deletion
  that takes workflows along, of which none is outside the set \<open>W\<close>.
\<close>

inductive change_step :: "uuid set \<Rightarrow> run_db \<Rightarrow> run_db \<Rightarrow> bool" for W where
  by_transaction: "run_step db db' \<Longrightarrow> change_step W db db'"
| by_deletion: "V \<subseteq> W \<Longrightarrow> change_step W db (delete_workflows V db)"

text \<open>What a sequence of changes keeps of the runs whose workflow is not deleted.\<close>

definition rows_later_outside :: "uuid set \<Rightarrow> run_db \<Rightarrow> run_db \<Rightarrow> bool" where
  "rows_later_outside W db db' \<longleftrightarrow>
    (\<forall>i r. row_get run_id i (workflow_runs db) = Some r \<longrightarrow> run_workflow_id r \<notin> W \<longrightarrow>
      (\<exists>r'. row_get run_id i (workflow_runs db') = Some r' \<and> run_later r r' \<and>
        (prefix (run_checkpoints db i) (run_checkpoints db' i) \<or> run_content_expired r')))"

lemma rows_later_outside_refl [simp]: "rows_later_outside W db db"
  by (auto simp: rows_later_outside_def)

lemma rows_later_outside_trans:
  assumes "rows_later_outside W db1 db2" and "rows_later_outside W db2 db3"
  shows "rows_later_outside W db1 db3"
  unfolding rows_later_outside_def
proof (intro allI impI)
  fix i r assume "row_get run_id i (workflow_runs db1) = Some r" and w: "run_workflow_id r \<notin> W"
  then obtain r2 where 2: "row_get run_id i (workflow_runs db2) = Some r2" "run_later r r2"
    "prefix (run_checkpoints db1 i) (run_checkpoints db2 i) \<or> run_content_expired r2"
    using assms(1) unfolding rows_later_outside_def by blast
  have "run_workflow_id r2 \<notin> W" using 2(2) w by (simp add: run_later_def run_identity_def)
  then obtain r3 where 3: "row_get run_id i (workflow_runs db3) = Some r3" "run_later r2 r3"
    "prefix (run_checkpoints db2 i) (run_checkpoints db3 i) \<or> run_content_expired r3"
    using assms(2) 2(1) unfolding rows_later_outside_def by blast
  have "prefix (run_checkpoints db1 i) (run_checkpoints db3 i) \<or> run_content_expired r3"
    using 2(3) 3(2,3) prefix_order.trans unfolding run_later_def by blast
  then show "\<exists>r'. row_get run_id i (workflow_runs db3) = Some r' \<and> run_later r r' \<and>
      (prefix (run_checkpoints db1 i) (run_checkpoints db3 i) \<or> run_content_expired r')"
    using 3 run_later_trans [OF 2(2) 3(2)] by blast
qed

lemma rows_later_outside: "rows_later db db' \<Longrightarrow> rows_later_outside W db db'"
  unfolding rows_later_def rows_later_outside_def by blast

lemma delete_workflows_later: "runs_inv db \<Longrightarrow> V \<subseteq> W \<Longrightarrow> rows_later_outside W db (delete_workflows V db)"
  unfolding rows_later_outside_def
proof (intro allI impI)
  fix i r assume inv: "runs_inv db" and V: "V \<subseteq> W" and row: "row_get run_id i (workflow_runs db) = Some r" and w: "run_workflow_id r \<notin> W"
  have "run_workflow_id r \<notin> V" using V w by blast
  from delete_workflows_rows [OF inv row this] show "\<exists>r'. row_get run_id i (workflow_runs (delete_workflows V db)) = Some r' \<and>
      run_later r r' \<and> (prefix (run_checkpoints db i) (run_checkpoints (delete_workflows V db) i) \<or> run_content_expired r')"
    by (simp del: set_filter)
qed

lemma change_step_kept:
  assumes "change_step W db db'" and inv: "runs_inv db"
  shows "runs_inv db' \<and> rows_later_outside W db db'"
  using assms(1)
proof cases
  case by_transaction
  then show ?thesis using run_step_moved [OF _ inv] rows_later_outside by (auto simp: run_moved_def)
next
  case (by_deletion V)
  then show ?thesis using delete_workflows_inv [OF inv] delete_workflows_later [OF inv] by simp
qed

lemma change_steps_kept: "(change_step W)\<^sup>*\<^sup>* db db' \<Longrightarrow> runs_inv db \<Longrightarrow> runs_inv db' \<and> rows_later_outside W db db'"
proof (induction rule: rtranclp_induct)
  case (step y z)
  then show ?case using change_step_kept [OF step(2)] rows_later_outside_trans by blast
qed simp

lemma run_steps_change: "run_step\<^sup>*\<^sup>* db db' \<Longrightarrow> (change_step W)\<^sup>*\<^sup>* db db'"
  by (rule mono_rtranclp [rule_format, of run_step "change_step W"]) (auto intro: by_transaction)

lemma change_steps_mono: "V \<subseteq> W \<Longrightarrow> (change_step V)\<^sup>*\<^sup>* db db' \<Longrightarrow> (change_step W)\<^sup>*\<^sup>* db db'"
  by (rule mono_rtranclp [rule_format, of "change_step V" "change_step W"]) (auto elim!: change_step.cases intro: change_step.intros)

end
