(* ===== verification/Workflow_Guarantees.thy ===== *)
theory Workflow_Guarantees
  imports Workflow_Execution
begin

text \<open>
  Properties of workflow execution. The first part shows that recording a change of a run
  succeeds, so that progress can be stated as progress: the event \<open>workflow.run.changed\<close> is
  accepted by a registry that has it, and its outbox rows can be inserted under fresh ids.
\<close>

section \<open>Recording a change succeeds\<close>

definition changed_payload :: "workflow_run \<Rightarrow> json" where
  "changed_payload r =
    JObj [(KStr ''run_id'', JStr (uuid_str (run_id r))), (KStr ''revision'', JInt (int (run_revision r))),
      (KStr ''state'', JStr (state_text (run_state r)))]"

text \<open>
  What the catalogue registers for \<open>workflow.run.changed\<close>: an Organization event (or one
  without a fixed scope) whose payload model dumps a valid payload as it is, small enough.
\<close>

definition change_accepted :: "event_registry \<Rightarrow> workflow_run \<Rightarrow> bool" where
  "change_accepted reg r \<longleftrightarrow>
    (case event_registry_get reg ''workflow.run.changed'' 1 of
       Inl e \<Rightarrow> False
     | Inr d \<Rightarrow> def_event_scope d \<in> {None, Some ScopeOrganization} \<and> distinct (def_handler_names d) \<and>
         def_payload_model d (changed_payload r) = Dumped (changed_payload r) \<and>
         length (json_dumps (changed_payload r)) \<le> registry_max_payload_bytes reg)"

definition unused_ids :: "(nat \<Rightarrow> uuid) \<Rightarrow> run_db \<Rightarrow> bool" where
  "unused_ids new_ids db \<longleftrightarrow> inj new_ids \<and>
    range new_ids \<inter> (hist_id ` set (workflow_histories db) \<union> om_id ` set (outbox_messages (wdb_events db)) \<union>
      om_event_id ` set (outbox_messages (wdb_events db)) \<union> dl_id ` set (event_deliveries (wdb_events db)) \<union>
      dl_event_id ` set (event_deliveries (wdb_events db))) = {}"

lemma insert_deliveries_total:
  assumes "\<And>d. d \<in> set ds \<Longrightarrow> scope_matches_organization (dl_event_scope d) (dl_organization_id d)"
    and "distinct (map dl_id ds)" and "\<And>x d. x \<in> set (event_deliveries db) \<Longrightarrow> d \<in> set ds \<Longrightarrow> dl_id x \<noteq> dl_id d"
    and "distinct (map (\<lambda>d. (dl_event_id d, dl_handler_name d)) ds)"
    and "\<And>x d. x \<in> set (event_deliveries db) \<Longrightarrow> d \<in> set ds \<Longrightarrow> (dl_event_id x, dl_handler_name x) \<noteq> (dl_event_id d, dl_handler_name d)"
  shows "insert_deliveries ds db = Inr (db\<lparr>event_deliveries := event_deliveries db @ ds\<rparr>)"
  using assms
proof (induction ds arbitrary: db)
  case (Cons d ds)
  have "insert_delivery d db = Inr (db\<lparr>event_deliveries := row_add d (event_deliveries db)\<rparr>)"
    unfolding insert_delivery_Inr delivery_table.get_None
    using Cons.prems(1) [of d] Cons.prems(3) [of _ d] Cons.prems(5) [of _ d] by (auto simp: image_iff)
  moreover have "insert_deliveries ds (db\<lparr>event_deliveries := row_add d (event_deliveries db)\<rparr>) =
      Inr (db\<lparr>event_deliveries := row_add d (event_deliveries db)\<rparr>
        \<lparr>event_deliveries := row_add d (event_deliveries db) @ ds\<rparr>)"
    using Cons.IH [of "db\<lparr>event_deliveries := row_add d (event_deliveries db)\<rparr>"] Cons.prems
    by (simp add: row_add_def) (fastforce simp: image_iff)
  ultimately show ?case by (simp add: row_add_def)
qed simp

lemma change_builds:
  assumes "change_accepted reg r"
  shows "\<exists>ev. build_event reg i (run_changed_event r a now) = Inr ev \<and> ev_event_id ev = i \<and>
    ev_event_name ev = ''workflow.run.changed'' \<and> ev_schema_version ev = 1 \<and>
    ev_event_scope ev = ScopeOrganization \<and> ev_organization_id ev \<noteq> None"
proof -
  let ?rq = "run_changed_event r a now"
  obtain d where d: "event_registry_get reg ''workflow.run.changed'' 1 = Inr d" "def_event_scope d \<in> {None, Some ScopeOrganization}"
    "def_payload_model d (changed_payload r) = Dumped (changed_payload r)"
    "length (json_dumps (changed_payload r)) \<le> registry_max_payload_bytes reg"
    using assms by (auto simp: change_accepted_def split: sum.splits)
  have rq: "rq_payload ?rq = changed_payload r" "rq_event_name ?rq = ''workflow.run.changed''" "rq_schema_version ?rq = 1"
    "rq_event_scope ?rq = None" "rq_organization_id ?rq = Some (agent_organization_id a)"
    by (simp_all add: run_changed_event_def changed_payload_def)
  have scope: "resolved_scope d ?rq = ScopeOrganization" using d(2) by (auto simp: resolved_scope_def rq)
  have plain: "plain_key (KStr ''run_id'')" "plain_key (KStr ''revision'')" "plain_key (KStr ''state'')"
    by code_simp+
  have ref: "ref_organization [(KStr ''run_id'', JStr (uuid_str (run_id r))), (KStr ''revision'', JInt (int (run_revision r))),
      (KStr ''state'', JStr (state_text (run_state r)))] = None"
    by (simp add: ref_organization_def)
  let ?ev = "\<lparr>ev_event_id = i, ev_event_name = rq_event_name ?rq, ev_schema_version = rq_schema_version ?rq,
         ev_occurred_at = rq_occurred_at ?rq, ev_event_scope = resolved_scope d ?rq,
         ev_organization_id = rq_organization_id ?rq, ev_actor = rq_actor ?rq, ev_subject = rq_subject ?rq,
         ev_correlation_id = rq_correlation_id ?rq, ev_causation_id = rq_causation_id ?rq, ev_payload = changed_payload r\<rparr>"
  have "safe_event (registry_max_payload_bytes reg) ?ev"
    using d(4) plain ref unfolding safe_event_def domain_event.simps scope
    by (auto simp: identity_in_scope_def identity_organization_id_def is_json_object_def
        changed_payload_def reference_in_scope_def run_changed_event_def simp del: json_dumps.simps)
  then have "build_event reg i ?rq = Inr ?ev"
    unfolding build_event_Inr using d by (intro exI [of _ d] exI [of _ "changed_payload r"])
      (auto simp: rq is_json_object_def changed_payload_def)
  then show ?thesis by (simp add: rq scope)
qed

lemma run_event_total:
  assumes acc: "change_accepted (env_registry env) r" and ids: "unused_ids new_ids db"
    and w: "row_get wf_id (run_workflow_id r) (workflows db) = Some w"
    and a: "row_get agent_id (wf_agent_id w) (agents (wdb_access db)) = Some a"
  shows "\<exists>db' ids. run_event env new_ids now r kind detail db = Inr (db', ids)"
proof -
  let ?reg = "env_registry env" and ?fresh = "\<lambda>i. new_ids (2 + i)"
  obtain ev where ev: "build_event ?reg (new_ids 1) (run_changed_event r a now) = Inr ev" "ev_event_id ev = new_ids 1"
    "ev_event_name ev = ''workflow.run.changed''" "ev_schema_version ev = 1"
    "ev_event_scope ev = ScopeOrganization" "ev_organization_id ev \<noteq> None"
    using change_builds [OF acc] by blast
  obtain d where d: "event_registry_get ?reg ''workflow.run.changed'' 1 = Inr d" "distinct (def_handler_names d)"
    using acc by (auto simp: change_accepted_def split: sum.splits)
  note fresh = ids [unfolded unused_ids_def]
  have inj: "new_ids m = new_ids n \<longleftrightarrow> m = n" for m n using fresh by (auto dest: injD)
  let ?db = "wdb_events db" and ?m = "build_message (new_ids 2) now ev"
  let ?ds = "build_deliveries ?fresh now ?m (def_handler_names d)"
  have msg: "insert_message ?m ?db = Inr (?db\<lparr>outbox_messages := row_add ?m (outbox_messages ?db)\<rparr>)"
    using fresh ev unfolding insert_message_Inr message_table.get_None
    by (auto simp: build_message_def scope_matches_organization_def)
  have ds_ids: "map dl_id ?ds = map (\<lambda>n. new_ids (3 + n)) [0..<length (def_handler_names d)]"
    by (rule nth_equalityI) (simp_all add: build_deliveries_def new_delivery_def nth_enumerate_eq numeral_3_eq_3)
  have ds_names: "map dl_handler_name ?ds = def_handler_names d"
    by (rule nth_equalityI) (simp_all add: build_deliveries_def new_delivery_def nth_enumerate_eq)
  have ds_event: "dl_event_id x = new_ids 1" "scope_matches_organization (dl_event_scope x) (dl_organization_id x)"
    if "x \<in> set ?ds" for x
    using that ev by (auto simp: build_deliveries_def new_delivery_def build_message_def scope_matches_organization_def)
  have "distinct (map dl_handler_name ?ds)" using d(2) unfolding ds_names .
  then have pairs: "distinct (map (\<lambda>d. (dl_event_id d, dl_handler_name d)) ?ds)"
    by (auto simp: distinct_map inj_on_def)
  let ?db1 = "?db\<lparr>outbox_messages := row_add ?m (outbox_messages ?db)\<rparr>"
  have "insert_deliveries ?ds ?db1 = Inr (?db1\<lparr>event_deliveries := event_deliveries ?db1 @ ?ds\<rparr>)"
  proof (rule insert_deliveries_total [OF ds_event(2) _ _ pairs])
    show "distinct (map dl_id ?ds)"
      unfolding ds_ids by (simp add: distinct_map inj_on_def inj)
    have mine: "set (map dl_id ?ds) \<subseteq> range new_ids" unfolding ds_ids by auto
    show "dl_id x \<noteq> dl_id y" if "x \<in> set (event_deliveries ?db1)" "y \<in> set ?ds" for x y
    proof -
      have "dl_id y \<in> range new_ids" using mine that(2) by auto
      moreover have "dl_id x \<notin> range new_ids" using that(1) fresh by auto
      ultimately show ?thesis by metis
    qed
    show "(dl_event_id x, dl_handler_name x) \<noteq> (dl_event_id y, dl_handler_name y)"
      if "x \<in> set (event_deliveries ?db1)" "y \<in> set ?ds" for x y
    proof -
      have "dl_event_id x \<notin> range new_ids" using that(1) fresh by auto
      then show ?thesis using ds_event(1) [OF that(2)] by auto
    qed
  qed
  then have staged: "outbox_stage ?fresh now ev ?reg ?db = Inr (?db1\<lparr>event_deliveries := event_deliveries ?db @ ?ds\<rparr>, ?m)"
    using msg d(1) ev by (simp add: outbox_stage_def Let_def handler_names_for_def numeral_2_eq_2)
  have "row_get hist_id (new_ids 0) (workflow_histories db) = None"
    using fresh by (auto simp: row_get_def find_None_iff)
  then show ?thesis
    using w a ev(1) staged
    by (auto simp: run_event_def Let_def add_history_def put_run_def get_workflow_one_def get_agent_one_def raise_if_def)
qed

lemma authorized_total:
  assumes "row_get wf_id (run_workflow_id r) (workflows db) = Some w"
  shows "\<exists>ok. authorized db r = Inr ok"
proof -
  have "\<exists>P. agent_scope_predicates (wdb_access db)
      (if mem_role m \<in> IMPLICIT_AGENT_OWNER_ROLES then organization_scope (mem_organization_id m) else explicit_scope m u AGENT_UPDATE) False = Inr P"
    for m u using permission_id_total [of AGENT_UPDATE]
    by (auto simp: agent_scope_predicates_def organization_scope_def explicit_scope_def Let_def)
  note scoped = this
  show ?thesis
  proof (cases "Option.bind (run_initiating_membership_id r) (\<lambda>i. row_get mem_id i (memberships (wdb_access db)))")
    case (Some m)
    note member = Some
    show ?thesis
    proof (cases "mem_user_id m \<noteq> run_initiating_user_id r")
      case False
      show ?thesis
      proof (cases "Option.bind (mem_user_id m) (\<lambda>u. row_get user_id u (users (wdb_access db)))")
        case (Some u)
        obtain P where "agent_scope_predicates (wdb_access db) (if mem_role m \<in> IMPLICIT_AGENT_OWNER_ROLES
            then organization_scope (mem_organization_id m) else explicit_scope m u AGENT_UPDATE) False = Inr P"
          using scoped by blast
        then show ?thesis using member False Some assms by (simp add: authorized_def get_workflow_one_def)
      qed (use member False in \<open>auto simp: authorized_def\<close>)
    qed (use member in \<open>auto simp: authorized_def\<close>)
  qed (auto simp: authorized_def)
qed

lemma change_accepted_cong:
  assumes "run_id r' = run_id r" "run_revision r' = run_revision r" "run_state r' = run_state r"
  shows "change_accepted reg r' = change_accepted reg r"
proof -
  have "changed_payload r' = changed_payload r" using assms by (simp add: changed_payload_def)
  then show ?thesis unfolding change_accepted_def by (simp only:)
qed

lemma release_closes:
  assumes "artifacts_ok db" and "release now kind owner n db = Inr db'"
  shows "open_references db' kind owner = []"
proof -
  have refs: "artifact_references db' = map (\<lambda>r. if ref_kind r = kind \<and> ref_owner_id r = owner \<and> ref_released_at r = None
      then r\<lparr>ref_released_at := Some now\<rparr> else r) (artifact_references db)"
    using release_spec [OF assms(1), of now kind owner n] assms(2) by auto
  show ?thesis
    unfolding open_references_def filter_empty_conv refs set_map by (rule ballI, erule imageE) (simp split: if_splits)
qed

lemma settle_total:
  assumes "artifacts_ok (wdb_artifacts db)"
  shows "\<exists>arts. settle env now r db = Inr (db\<lparr>wdb_artifacts := arts\<rparr>, r\<lparr>run_settled_at := Some now\<rparr>)"
  using release_spec [OF assms, of now "''run''" "run_id r" "env_artifact_retention_days env"] by (auto simp: settle_def)

lemma unused_ids_cong:
  "workflow_histories db' = workflow_histories db \<Longrightarrow> wdb_events db' = wdb_events db \<Longrightarrow> unused_ids f db' = unused_ids f db"
  by (simp add: unused_ids_def)

lemma stop_attempt_frame [simp]:
  "workflow_histories (stop_attempt s a db) = workflow_histories db" "wdb_events (stop_attempt s a db) = wdb_events db"
  "workflows (stop_attempt s a db) = workflows db" "wdb_access (stop_attempt s a db) = wdb_access db"
  "wdb_artifacts (stop_attempt s a db) = wdb_artifacts db"
  by (auto simp: stop_attempt_def put_attempt_def split: option.splits)

section \<open>Properties\<close>

text \<open>A cancelling run settles as soon as its attempt has stopped or it has no live one.\<close>

lemma cancelling_settles:
  assumes inv: "runs_inv db" and row: "row_get run_id i (workflow_runs db) = Some r" and st: "run_state r = RunCANCELLING"
    and stop: "stopped \<or> \<not> (case current_attempt db r of None \<Rightarrow> False | Some a \<Rightarrow> is_active a)"
    and w: "row_get wf_id (run_workflow_id r) (workflows db) = Some w"
    and a: "row_get agent_id (wf_agent_id w) (agents (wdb_access db)) = Some a"
    and arts: "artifacts_ok (wdb_artifacts db)" and ids: "unused_ids new_ids db"
    and acc: "change_accepted (env_registry env) (r\<lparr>run_state := RunCANCELLED, run_revision := run_revision r + 1\<rparr>)"
  shows "\<exists>db' dl r'. advance env new_id new_ids now stopped lost cause i db = Inr (db', None, dl) \<and>
    row_get run_id i (workflow_runs db') = Some r' \<and> run_state r' = RunCANCELLED \<and> run_settled_at r' = Some now \<and>
    \<not> live (run_attempts db' i) \<and> open_references (wdb_artifacts db') ''run'' i = []"
proof -
  have same: "observed_run db w r = r" using st by (auto simp: observed_run_def split: option.splits)
  have gw: "get_workflow_one db (run_workflow_id r) = Inr w" using w by (simp add: get_workflow_one_def)
  obtain ok where ok: "authorized db r = Inr ok" using authorized_total [OF w] by blast
  let ?cur = "current_attempt db r" and ?ri = "run_id r"
  let ?db1 = "stop_attempt stopped ?cur db" and ?ex = "attempt_expired now lost (current_attempt db r)"
  let ?r1 = "r\<lparr>run_state := RunCANCELLED, run_reason := Some ''Cancelled; completed step summaries are preserved''\<rparr>"
  obtain arts' where s: "settle env now ?r1 ?db1 = Inr (?db1\<lparr>wdb_artifacts := arts'\<rparr>, ?r1\<lparr>run_settled_at := Some now\<rparr>)"
    using settle_total [of ?db1 env now ?r1] arts by auto
  let ?r2 = "?r1\<lparr>run_settled_at := Some now, run_revision := run_revision r + 1\<rparr>"
  have "change_accepted (env_registry env) ?r2"
    using acc change_accepted_cong [of ?r2 "r\<lparr>run_state := RunCANCELLED, run_revision := run_revision r + 1\<rparr>"] by simp
  moreover have "unused_ids new_ids (?db1\<lparr>wdb_artifacts := arts'\<rparr>)"
    using ids unused_ids_cong [of "?db1\<lparr>wdb_artifacts := arts'\<rparr>" db] by simp
  ultimately have "\<exists>db' ids. run_event env new_ids now ?r2 FENCED (fence_detail (cause \<noteq> None) ?r2) (?db1\<lparr>wdb_artifacts := arts'\<rparr>) = Inr (db', ids)"
    by (rule run_event_total) (use w a in simp_all)
  then obtain db' dl where ev: "run_event env new_ids now ?r2 FENCED (fence_detail (cause \<noteq> None) ?r2) (?db1\<lparr>wdb_artifacts := arts'\<rparr>) = Inr (db', dl)"
    by (elim exE)
  have "advance env new_id new_ids now stopped lost cause i db = advance_fence env new_ids now stopped cause ok ?ex r ?cur db"
    using row st gw ok by (simp add: advance_def same paused_unless_def TERMINAL_STATES_def Let_def)
  also have "\<dots> = Inr (db', None, dl)"
    using s ev st stop by (auto simp: advance_fence_def after_stop_def Let_def)
  finally have adv: "advance env new_id new_ids now stopped lost cause i db = Inr (db', None, dl)" .
  note e = run_event_effect [OF ev]
  have ri: "?ri = i" using run_table.get_in_rows [OF row] by simp
  have "workflow_runs ?db1 = workflow_runs db" using stop_attempt_effect(4) [OF inv row refl] .
  then have row': "row_get run_id i (workflow_runs db') = Some (?r2\<lparr>run_updated_at := now\<rparr>)"
    using e(1) run_table.get_put_same [OF row] ri by simp
  have "runs_inv db'" using advance_moved [OF inv adv] by (simp add: run_moved_def)
  then have "\<not> live (run_attempts db' i)"
    using runs_inv_row [of db' i "?r2\<lparr>run_updated_at := now\<rparr>"] row' by (auto simp: run_ok_defs)
  moreover have "open_references (wdb_artifacts db') ''run'' i = []"
  proof -
    have "release now ''run'' i (env_artifact_retention_days env) (wdb_artifacts db) = Inr arts'"
      using s ri by (auto simp: settle_def bind_result_Inr dest: arg_cong [where f = wdb_artifacts])
    then have "open_references arts' ''run'' i = []" by (rule release_closes [OF arts])
    moreover have "wdb_artifacts db' = arts'" using e(7) by simp
    ultimately show ?thesis by simp
  qed
  ultimately show ?thesis using adv row'
    by (intro exI [of _ db'] exI [of _ dl] exI [of _ "?r2\<lparr>run_updated_at := now\<rparr>"]) simp
qed

text \<open>
  C32. Cancellation finishes: when the controller reports the session of a cancelling run as
  stopped, \<open>advance\<close> returns, the run is \<open>CANCELLED\<close> and settled, no attempt of it is live and
  its artifact references are released, whatever has become of its initiator's authority or
  of its Agent's lifecycle.
\<close>

theorem cancelled_run_settles:
  assumes inv: "runs_inv db" and row: "row_get run_id i (workflow_runs db) = Some r" and st: "run_state r = RunCANCELLING"
    and w: "row_get wf_id (run_workflow_id r) (workflows db) = Some w"
    and a: "row_get agent_id (wf_agent_id w) (agents (wdb_access db)) = Some a"
    and arts: "artifacts_ok (wdb_artifacts db)" and ids: "unused_ids new_ids db"
    and acc: "change_accepted (env_registry env) (r\<lparr>run_state := RunCANCELLED, run_revision := run_revision r + 1\<rparr>)"
  shows "\<exists>db' dl r'. advance env new_id new_ids now True lost cause i db = Inr (db', None, dl) \<and>
    row_get run_id i (workflow_runs db') = Some r' \<and> run_state r' = RunCANCELLED \<and> run_settled_at r' = Some now \<and>
    \<not> live (run_attempts db' i) \<and> open_references (wdb_artifacts db') ''run'' i = []"
  by (rule cancelling_settles [OF inv row st _ w a arts ids acc]) simp

text \<open>A small installation: one workflow of one step on the Agent of the Owner, without and with a run.\<close>

definition demo_run_registry :: event_registry where
  "demo_run_registry =
    \<lparr>registry_definitions = [\<lparr>def_event_name = ''workflow.run.changed'', def_schema_version = 1, def_payload_model = Dumped,
       def_handler_names = [''workflow.controller''], def_event_scope = None\<rparr>],
     registry_max_payload_bytes = MAX_PAYLOAD_BYTES\<rparr>"

definition demo_env :: wf_env where
  "demo_env = \<lparr>env_registry = demo_run_registry, env_sha256 = id, env_token = uuid_str, env_artifact_retention_days = 30\<rparr>"

definition demo_installation :: run_db where
  "demo_installation =
    \<lparr>wdb_access = demo_db, wdb_events = empty_event_db, wdb_settings = None, workflows = [], workflow_versions = [],
     workflow_runs = [], workflow_attempts = [], workflow_checkpoints = [], workflow_histories = [],
     wdb_artifacts = \<lparr>artifacts = [], artifact_references = []\<rparr>\<rparr>"

definition demo_saved :: run_db where
  "demo_saved = demo_installation\<lparr>workflows := [demo_workflow 1], workflow_versions := [saved_version 31 0 30 1 (demo_draft 1) 1]\<rparr>"

definition demo_payload_create :: workflow_run_create where
  "demo_payload_create = \<lparr>rc_version_id = 31, rc_client_request_id = 50, rc_inputs = []\<rparr>"

definition demo_run :: workflow_run where
  "demo_run = new_run 40 5 30 demo_payload_create 1 11 (start_hash demo_env demo_payload_create 1 None) ''hermes'' None"

definition demo_attempt :: workflow_attempt where
  "demo_attempt = new_attempt demo_env 60 5 (demo_run\<lparr>run_generation := 1\<rparr>)"

text \<open>The run with its first attempt, in a given state.\<close>

definition demo_running :: "run_state \<Rightarrow> run_db" where
  "demo_running st = demo_saved\<lparr>workflow_runs := [demo_run\<lparr>run_generation := 1, run_revision := 2, run_state := st\<rparr>],
     workflow_attempts := [demo_attempt]\<rparr>"

definition demo_ids :: "nat \<Rightarrow> uuid" where
  "demo_ids n = 1000 + n"

lemma length_dumps_str: "length (dumps_str s) \<le> 6 * length s + 2"
proof -
  have "length (escape_char c) \<le> 6" for c by (simp add: escape_char_def Let_def)
  then have "length (concat (map escape_char s)) \<le> 6 * length s"
    by (induction s) (simp, fastforce intro: add_mono)
  then show ?thesis by (simp add: dumps_str_def)
qed

lemma length_nat_str: "length (nat_str n) \<le> n + 1"
  by (induction n rule: nat_str.induct) (subst nat_str.simps, auto)

lemma demo_change_accepted:
  assumes "run_revision r \<le> 1000"
  shows "change_accepted demo_run_registry r"
proof -
  have "length (state_text (run_state r)) \<le> 10" by (cases "run_state r") (simp_all add: state_text_def)
  then have "length (json_dumps (changed_payload r)) \<le> MAX_PAYLOAD_BYTES"
    using assms length_dumps_str [of "''run_id''"] length_dumps_str [of "''revision''"] length_dumps_str [of "''state''"]
      length_dumps_str [of "uuid_str (run_id r)"] length_dumps_str [of "state_text (run_state r)"] length_nat_str [of "run_revision r"]
    by (simp add: changed_payload_def MAX_PAYLOAD_BYTES_def int_str_def)
  then show ?thesis
    by (simp add: change_accepted_def demo_run_registry_def event_registry_get_def row_get_def definition_key_def
        del: json_dumps.simps)
qed

lemmas demo_run_defs = demo_run_def new_run_def demo_payload_create_def demo_attempt_def new_attempt_def demo_saved_def
  demo_installation_def demo_running_def demo_workflow_def saved_version_def

lemma demo_unused: "workflow_histories db = [] \<Longrightarrow> wdb_events db = empty_event_db \<Longrightarrow> unused_ids demo_ids db"
  by (auto simp: unused_ids_def demo_ids_def empty_event_db_def inj_def)

lemma demo_agent_row: "row_get agent_id 100 (agents demo_db) = Some demo_agent_100"
  by (simp add: row_get_def demo_db_def demo_agent_def)

lemma demo_running_inv: "st \<in> {RunRUNNING, RunCANCELLING, RunPAUSED} \<Longrightarrow> runs_inv (demo_running st)"
  by (auto simp: runs_inv_def run_row_ok_def run_ok_defs attempts_ok_def count_step_def live_def is_active_def run_attempts_def
      run_checkpoints_def row_get_def demo_run_defs demo_draft_def MAX_ATTEMPTS_def)

theorem cancelled_run_settles_witness:
  "\<exists>db' dl r'. advance demo_env 61 demo_ids 9 True False None 40 (demo_running RunCANCELLING) = Inr (db', None, dl) \<and>
    row_get run_id 40 (workflow_runs db') = Some r' \<and> run_state r' = RunCANCELLED \<and> run_settled_at r' = Some 9 \<and>
    \<not> live (run_attempts db' 40) \<and> open_references (wdb_artifacts db') ''run'' 40 = []"
proof (rule cancelled_run_settles)
  show "runs_inv (demo_running RunCANCELLING)" by (rule demo_running_inv) simp
  show "row_get run_id 40 (workflow_runs (demo_running RunCANCELLING)) =
      Some (demo_run\<lparr>run_generation := 1, run_revision := 2, run_state := RunCANCELLING\<rparr>)"
    by (simp add: demo_run_defs row_get_def)
  show "row_get wf_id (run_workflow_id (demo_run\<lparr>run_generation := 1, run_revision := 2, run_state := RunCANCELLING\<rparr>))
      (workflows (demo_running RunCANCELLING)) = Some (demo_workflow 1)"
    by (simp add: demo_run_defs row_get_def)
  show "row_get agent_id (wf_agent_id (demo_workflow 1)) (agents (wdb_access (demo_running RunCANCELLING))) = Some demo_agent_100"
    using demo_agent_row by (simp add: demo_run_defs)
  show "unused_ids demo_ids (demo_running RunCANCELLING)" by (rule demo_unused) (simp_all add: demo_run_defs)
  show "artifacts_ok (wdb_artifacts (demo_running RunCANCELLING))" by (simp add: demo_run_defs artifacts_ok_def)
  show "change_accepted (env_registry demo_env) (demo_run\<lparr>run_generation := 1, run_revision := 2, run_state := RunCANCELLING\<rparr>
      \<lparr>run_state := RunCANCELLED, run_revision := run_revision (demo_run\<lparr>run_generation := 1, run_revision := 2, run_state := RunCANCELLING\<rparr>) + 1\<rparr>)"
    by (simp add: demo_env_def demo_change_accepted)
qed simp

section \<open>Reachable states\<close>

definition no_workflows :: "run_db \<Rightarrow> bool" where
  "no_workflows db \<longleftrightarrow> workflow_versions db = [] \<and> workflow_runs db = [] \<and> workflow_attempts db = [] \<and> workflow_checkpoints db = []"

definition reachable :: "run_db \<Rightarrow> bool" where
  "reachable db \<longleftrightarrow> (\<exists>db0. no_workflows db0 \<and> (change_step UNIV)\<^sup>*\<^sup>* db0 db)"

lemma reachable_inv: "reachable db \<Longrightarrow> runs_inv db"
proof -
  assume "reachable db"
  then obtain db0 where "no_workflows db0" "(change_step UNIV)\<^sup>*\<^sup>* db0 db" by (auto simp: reachable_def)
  moreover have "runs_inv db0" using calculation(1) by (simp add: no_workflows_def runs_inv_def run_attempts_def run_checkpoints_def)
  ultimately show ?thesis using change_steps_kept by blast
qed

lemma reachable_changes: "reachable db \<Longrightarrow> (change_step W)\<^sup>*\<^sup>* db db' \<Longrightarrow> reachable db'"
  using change_steps_mono [of W UNIV db db'] unfolding reachable_def by (meson rtranclp_trans subset_UNIV)

lemma reachable_steps: "reachable db \<Longrightarrow> run_step\<^sup>*\<^sup>* db db' \<Longrightarrow> reachable db'"
  using reachable_changes [OF _ run_steps_change] by blast

lemma reachable_step: "reachable db \<Longrightarrow> run_step db db' \<Longrightarrow> reachable db'"
  using reachable_steps by blast

lemma reachable_run:
  assumes "reachable db" and "r \<in> set (workflow_runs db)"
  obtains v where "row_get ver_id (run_version_id r) (workflow_versions db) = Some v"
    "run_ok (step_total v) r (run_attempts db (run_id r)) (checkpoint_steps db (run_id r))"
proof -
  have "row_get run_id (run_id r) (workflow_runs db) = Some r"
    using reachable_inv [OF assms(1)] assms(2) run_table.get_rows by (auto simp: runs_inv_def)
  from runs_inv_row [OF reachable_inv [OF assms(1)] this] that show thesis by blast
qed

text \<open>A started run of the small installation.\<close>

lemma demo_saved_reachable: "reachable demo_saved"
proof -
  have "workflow_create 30 31 0 100 (demo_draft 1) 1 (organization_scope 7) demo_installation = Inr (demo_saved, demo_workflow 1)"
    using demo_active by (simp add: workflow_create_Inr demo_run_defs row_get_def row_add_def)
  moreover have "draft_steps (demo_draft 1) \<noteq> []" by (simp add: demo_draft_def)
  ultimately have "run_step demo_installation demo_saved" by (rule by_create)
  moreover have "no_workflows demo_installation" by (simp add: no_workflows_def demo_installation_def)
  then have "reachable demo_installation" by (auto simp: reachable_def)
  ultimately show ?thesis by (rule reachable_step [rotated])
qed

lemma demo_start:
  obtains db' ids where
    "run_start demo_env 40 demo_ids 5 30 100 (organization_scope 7) demo_payload_create 1 11 ''hermes'' None demo_saved = Inr (db', demo_run, ids)"
    "workflow_runs db' = [demo_run]" "wdb_access db' = demo_db" "workflows db' = [demo_workflow 1]"
    "workflow_versions db' = [saved_version 31 0 30 1 (demo_draft 1) 1]" "workflow_attempts db' = []"
    "workflow_checkpoints db' = []" "wdb_artifacts db' = \<lparr>artifacts = [], artifact_references = []\<rparr>"
proof -
  let ?db = "demo_saved\<lparr>workflow_runs := [demo_run]\<rparr>"
  have "\<exists>db' ids. run_event demo_env demo_ids 5 demo_run STARTED ''Run started using version 1'' ?db = Inr (db', ids)"
  proof (rule run_event_total)
    show "change_accepted (env_registry demo_env) demo_run"
      by (simp add: demo_env_def demo_change_accepted demo_run_def new_run_def)
    show "unused_ids demo_ids ?db" by (rule demo_unused) (simp_all add: demo_run_defs)
    show "row_get wf_id (run_workflow_id demo_run) (workflows ?db) = Some (demo_workflow 1)" by (simp add: demo_run_defs row_get_def)
    show "row_get agent_id (wf_agent_id (demo_workflow 1)) (agents (wdb_access ?db)) = Some demo_agent_100"
      using demo_agent_row by (simp add: demo_run_defs)
  qed
  then obtain db' ids where ev: "run_event demo_env demo_ids 5 demo_run STARTED ''Run started using version 1'' ?db = Inr (db', ids)"
    by blast
  note e = run_event_effect [OF ev]
  have get: "get_in_scope demo_saved 30 100 (organization_scope 7) = Inr (Some (demo_workflow 1))"
    using demo_get_in_scope [of 1]
    by (simp add: get_in_scope_def workflow_agent_in_def demo_saved_def demo_installation_def demo_definitions_def empty_definitions_def)
  have active: "get_active_in_scope (wdb_access demo_saved) 100 (organization_scope 7) = Inr (Some demo_agent_100)"
    using demo_active by (simp add: demo_run_defs)
  have "start_new demo_env 40 demo_ids 5 (demo_workflow 1) demo_payload_create 1 11 ''hermes'' None demo_saved = Inr (db', demo_run, ids)"
  proof -
    have "row_get ver_id (rc_version_id demo_payload_create) (workflow_versions demo_saved) = Some (saved_version 31 0 30 1 (demo_draft 1) 1)"
      by (simp add: demo_run_defs row_get_def)
    moreover have "insert_run demo_run demo_saved = Inr ?db"
      by (simp add: insert_run_Inr demo_run_defs row_get_def row_add_def)
    moreover have "nat_str 1 = ''1''" by code_simp
    moreover have w: "wf_id (demo_workflow 1) = 30" "wf_archived_at (demo_workflow 1) = None" by (simp_all add: demo_workflow_def)
    ultimately show ?thesis
      unfolding start_new_def Let_def w demo_run_def [symmetric] require_rerun_source_def start_event_def
      using ev by (simp add: saved_version_def raise_if_def del: One_nat_def)
  qed
  then have "run_start demo_env 40 demo_ids 5 30 100 (organization_scope 7) demo_payload_create 1 11 ''hermes'' None demo_saved = Inr (db', demo_run, ids)"
    using get active by (simp add: run_start_def raise_if_def digestible_def) (simp add: demo_run_defs)
  moreover have "demo_run\<lparr>run_updated_at := 5\<rparr> = demo_run" by (simp add: demo_run_def new_run_def)
  ultimately show thesis
    using e by (intro that) (simp_all add: demo_saved_def demo_installation_def row_put_def)
qed

lemma demo_started_reachable:
  obtains db where "reachable db" "workflow_runs db = [demo_run]" "workflow_versions db = [saved_version 31 0 30 1 (demo_draft 1) 1]"
  using demo_start reachable_step [OF demo_saved_reachable by_start] by metis

lemma count_step_total:
  assumes "\<And>a. a \<in> set as \<Longrightarrow> att_step_index a < n"
  shows "(\<Sum>k<n. count_step as k) = length as"
  using assms
proof (induction as)
  case (Cons a as)
  have "count_step (a # as) k = (if k = att_step_index a then 1 else 0) + count_step as k" for k
    by (simp add: count_step_def)
  then show ?case using Cons by (simp add: sum.distrib)
qed (simp add: count_step_def)

text \<open>
  C27. Work on a run is bounded: in every reachable state a step of a run has had at most
  three attempts, the run's generation is the number of its attempts, and that number is
  at most three times the number of steps of its version.
\<close>

theorem attempts_are_bounded:
  assumes "reachable db" and "r \<in> set (workflow_runs db)"
  shows "step_attempts db (run_id r) k \<le> 3 \<and> run_generation r = length (run_attempts db (run_id r)) \<and>
    (\<exists>v. row_get ver_id (run_version_id r) (workflow_versions db) = Some v \<and> run_generation r \<le> 3 * step_total v)"
proof -
  obtain v where v: "row_get ver_id (run_version_id r) (workflow_versions db) = Some v"
    and ok: "attempts_ok (step_total v) r (run_attempts db (run_id r))"
    using reachable_run [OF assms] by (metis run_ok_def)
  let ?as = "run_attempts db (run_id r)"
  have len: "run_generation r = length ?as"
    using ok unfolding attempts_ok_def by (metis diff_Suc_1 length_map length_upt)
  have most: "count_step ?as k \<le> 3" for k using ok by (simp add: attempts_ok_def MAX_ATTEMPTS_def)
  have "length ?as = (\<Sum>k<step_total v. count_step ?as k)"
    using count_step_total [of ?as "step_total v"] ok by (simp add: attempts_ok_def)
  also have "\<dots> \<le> 3 * step_total v" using sum_bounded_above [of "{..<step_total v}" "count_step ?as" 3] most by simp
  finally show ?thesis using v most len by (simp add: step_attempts_count)
qed

theorem attempts_are_bounded_witness: "\<exists>db. reachable db \<and> demo_run \<in> set (workflow_runs db) \<and> step_attempts db 40 0 \<le> 3"
proof -
  obtain db where db: "reachable db" "workflow_runs db = [demo_run]" using demo_started_reachable .
  then have "demo_run \<in> set (workflow_runs db)" by simp
  from attempts_are_bounded [OF db(1) this, of 0] this db(1) show ?thesis by (auto simp: demo_run_def new_run_def)
qed

text \<open>
  C6. What a run's state says is true: in every reachable state a run has succeeded exactly
  when every step of its version is done, it is settled exactly when its state is terminal,
  its content is only removed once it is settled, and until then it has exactly one
  checkpoint for each completed step, in the order of the steps.
\<close>

theorem run_states_are_true:
  assumes "reachable db" and "r \<in> set (workflow_runs db)"
  shows "\<exists>v. row_get ver_id (run_version_id r) (workflow_versions db) = Some v \<and>
    (run_state r = RunSUCCEEDED \<longleftrightarrow> run_next_step r = step_total v) \<and> run_next_step r \<le> step_total v \<and>
    (run_settled_at r \<noteq> None \<longleftrightarrow> run_state r \<in> TERMINAL_STATES) \<and>
    (run_content_expired r \<longrightarrow> run_state r \<in> TERMINAL_STATES) \<and>
    (\<not> run_content_expired r \<longrightarrow> map cp_step_index (run_checkpoints db (run_id r)) = [0..<run_next_step r])"
proof -
  obtain v where "row_get ver_id (run_version_id r) (workflow_versions db) = Some v"
    "state_ok (step_total v) r (run_attempts db (run_id r)) (checkpoint_steps db (run_id r))"
    using reachable_run [OF assms] unfolding run_ok_def by blast
  then show ?thesis unfolding state_ok_def by blast
qed

theorem run_states_are_true_witness:
  "\<exists>db. reachable db \<and> demo_run \<in> set (workflow_runs db) \<and> run_next_step demo_run \<noteq> 1"
proof -
  obtain db where db: "reachable db" "workflow_runs db = [demo_run]" "workflow_versions db = [saved_version 31 0 30 1 (demo_draft 1) 1]"
    using demo_started_reachable .
  then have mem: "demo_run \<in> set (workflow_runs db)" by simp
  from run_states_are_true [OF db(1) mem] obtain v where
    "row_get ver_id (run_version_id demo_run) (workflow_versions db) = Some v"
    "run_state demo_run = RunSUCCEEDED \<longleftrightarrow> run_next_step demo_run = step_total v" by blast
  then have "run_next_step demo_run \<noteq> 1" using db(3) by (auto simp: demo_run_defs row_get_def demo_draft_def)
  with db(1) mem show ?thesis by blast
qed

text \<open>
  C7. At most one session works on a run: in every reachable state two live attempts of the
  same run are the same attempt, and it is the attempt of the run's current generation and
  of its next step, and the run is not settled, queued or blocked.
\<close>

theorem at_most_one_live_attempt:
  assumes "reachable db" and "a \<in> set (workflow_attempts db)" "b \<in> set (workflow_attempts db)"
    and "att_run_id a = att_run_id b" and "is_active a" "is_active b"
  shows "a = b \<and> (\<exists>r \<in> set (workflow_runs db). run_id r = att_run_id a \<and> att_generation a = run_generation r \<and>
    att_step_index a = run_next_step r \<and> run_state r \<in> {RunRUNNING, RunPAUSED, RunCANCELLING})"
proof -
  let ?as = "run_attempts db (att_run_id a)"
  have ab: "a \<in> set ?as" "b \<in> set ?as" using assms(2-4) by (simp_all add: run_attempts_def)
  then have "att_run_id a \<in> run_id ` set (workflow_runs db)"
    using reachable_inv [OF assms(1)] unfolding runs_inv_def by (metis empty_iff empty_set)
  then obtain r where r: "r \<in> set (workflow_runs db)" "run_id r = att_run_id a" by auto
  obtain v where ok: "attempts_ok (step_total v) r ?as" "state_ok (step_total v) r ?as (checkpoint_steps db (run_id r))"
    using reachable_run [OF assms(1) r(1)] r(2) by (metis run_ok_def)
  obtain bs l where as: "?as = bs @ [l]" using ab(1) by (cases ?as rule: rev_cases) auto
  have idle: "\<not> is_active x" if "x \<in> set bs" for x using ok(1) that by (simp add: attempts_ok_def as)
  have eq: "a = l" "b = l" using ab idle assms(5,6) unfolding as by auto
  have "map att_generation bs @ [att_generation l] = [1..<Suc (run_generation r)]"
    using ok(1) by (simp add: attempts_ok_def as)
  then have "att_generation l = run_generation r" by (cases "run_generation r") auto
  moreover have "att_step_index l = run_next_step r" using ok(1) [unfolded as] assms(5) [unfolded eq(1)] by (simp add: attempts_ok_def)
  moreover have "run_state r \<in> {RunRUNNING, RunPAUSED, RunCANCELLING}"
    using ok(2) [unfolded as] assms(5) [unfolded eq(1)] by (cases "run_state r") (simp_all add: state_ok_def TERMINAL_STATES_def)
  ultimately show ?thesis using eq r by auto
qed

text \<open>The first attempt of the started run.\<close>

lemma fresh_naturals:
  assumes "finite (U :: nat set)"
  obtains f :: "nat \<Rightarrow> nat" where "inj f" "range f \<inter> U = {}"
proof -
  have "Suc (Max U) + n \<notin> U" for n
    using Max_ge [OF assms, of "Suc (Max U) + n"] by auto
  then have "range (\<lambda>n. Suc (Max U) + n) \<inter> U = {}" by blast
  then show thesis by (intro that [of "\<lambda>n. Suc (Max U) + n"]) (simp_all add: inj_def)
qed

lemma unused_ids_exist: obtains f where "unused_ids f db"
  using fresh_naturals that unfolding unused_ids_def
  by (metis (no_types, lifting) finite_UnI finite_imageI finite_set)

lemma demo_authorized:
  assumes "wdb_access db = demo_db" "workflows db = [demo_workflow 1]"
    "run_initiating_membership_id r = Some 11" "run_initiating_user_id r = Some 1" "run_workflow_id r = 30"
  shows "authorized db r = Inr True"
proof -
  have "row_get mem_id 11 (memberships demo_db) = Some (demo_membership 1 7 OWNER)"
    "row_get user_id 1 (users demo_db) = Some (demo_user 1 True)"
    by (simp_all add: demo_defs row_get_def)
  moreover have "find (\<lambda>a. agent_id a = 100 \<and> agent_status a = RUNNING \<and> agent_organization_id a = 7 \<and> agent_deleted_at a = None)
      (agents demo_db) = Some demo_agent_100"
    by (simp add: demo_db_def demo_agent_def)
  moreover have "mem_user_id (demo_membership 1 7 OWNER) = Some 1" "mem_role (demo_membership 1 7 OWNER) \<in> IMPLICIT_AGENT_OWNER_ROLES"
    "mem_organization_id (demo_membership 1 7 OWNER) = 7"
    by (simp_all add: demo_membership_def IMPLICIT_AGENT_OWNER_ROLES_def)
  moreover have "get_workflow_one db 30 = Inr (demo_workflow 1)" "wf_agent_id (demo_workflow 1) = 100"
    using assms by (simp_all add: get_workflow_one_def row_get_def demo_workflow_def)
  ultimately show ?thesis
    using assms by (simp add: authorized_def demo_scope_agent del: One_nat_def)
qed

lemma demo_first_attempt:
  obtains db where "reachable db" "workflow_attempts db = [new_attempt demo_env 60 6 (demo_run\<lparr>run_generation := 1\<rparr>)]"
    "workflow_runs db = [demo_run\<lparr>run_generation := 1, run_state := RunRUNNING, run_revision := 2, run_updated_at := 6\<rparr>]"
    "workflow_versions db = [saved_version 31 0 30 1 (demo_draft 1) 1]" "workflows db = [demo_workflow 1]" "wdb_access db = demo_db"
    "workflow_checkpoints db = []" "wdb_artifacts db = \<lparr>artifacts = [], artifact_references = []\<rparr>"
proof -
  obtain db1 ids where start: "run_start demo_env 40 demo_ids 5 30 100 (organization_scope 7) demo_payload_create 1 11 ''hermes'' None demo_saved
      = Inr (db1, demo_run, ids)" and db1: "workflow_runs db1 = [demo_run]" "wdb_access db1 = demo_db" "workflows db1 = [demo_workflow 1]"
    "workflow_versions db1 = [saved_version 31 0 30 1 (demo_draft 1) 1]" "workflow_attempts db1 = []"
    "workflow_checkpoints db1 = []" "wdb_artifacts db1 = \<lparr>artifacts = [], artifact_references = []\<rparr>"
    using demo_start .
  have r1: "reachable db1" using reachable_step [OF demo_saved_reachable by_start [OF start]] .
  let ?r = "demo_run\<lparr>run_generation := 1, run_state := RunRUNNING, run_revision := 2\<rparr>"
  let ?a = "new_attempt demo_env 60 6 (demo_run\<lparr>run_generation := 1\<rparr>)"
  let ?db = "db1\<lparr>workflow_attempts := [?a]\<rparr>"
  obtain f where f: "unused_ids f ?db" using unused_ids_exist .
  have "\<exists>db' ids. run_event demo_env f 6 ?r ATTEMPT_STARTED (''Step '' @ nat_str 1 @ '' started in a fresh session'') ?db = Inr (db', ids)"
  proof (rule run_event_total [OF _ f])
    show "change_accepted (env_registry demo_env) ?r" by (simp add: demo_env_def demo_change_accepted)
    show "row_get wf_id (run_workflow_id ?r) (workflows ?db) = Some (demo_workflow 1)" by (simp add: db1 demo_run_defs row_get_def)
    show "row_get agent_id (wf_agent_id (demo_workflow 1)) (agents (wdb_access ?db)) = Some demo_agent_100"
      using demo_agent_row by (simp add: db1 demo_workflow_def)
  qed
  then obtain db2 ids2 where ev: "run_event demo_env f 6 ?r ATTEMPT_STARTED (''Step '' @ nat_str 1 @ '' started in a fresh session'') ?db = Inr (db2, ids2)"
    by blast
  have run: "run_id demo_run = 40" "run_state demo_run = RunQUEUED" "run_workflow_id demo_run = 30" "run_generation demo_run = 0"
    "run_revision demo_run = 1" "run_next_step demo_run = 0" "run_initiating_membership_id demo_run = Some 11" "run_initiating_user_id demo_run = Some 1"
    by (simp_all add: demo_run_defs)
  have "advance_start demo_env 60 f 6 demo_run db1 = Inr (db2, Some ?a, ids2)"
    using ev by (simp add: advance_start_def insert_attempt_def Let_def db1 run row_get_def row_add_def new_attempt_def raise_if_def numeral_2_eq_2)
  moreover have "authorized db1 demo_run = Inr True" by (rule demo_authorized) (simp_all add: db1 run)
  moreover have "get_workflow_one db1 30 = Inr (demo_workflow 1)" by (simp add: db1 get_workflow_one_def row_get_def demo_workflow_def)
  moreover have "observed_run db1 (demo_workflow 1) demo_run = demo_run"
    using demo_agent_row by (simp add: observed_run_def db1 demo_workflow_def) (simp add: demo_agent_def)
  ultimately have "advance demo_env 60 f 6 False False None 40 db1 = Inr (db2, Some ?a, ids2)"
    by (simp add: advance_def db1 run row_get_def TERMINAL_STATES_def current_attempt_def paused_unless_def attempt_expired_def Let_def)
  then have "reachable db2" using reachable_step [OF r1 by_advance] by blast
  then show thesis
    by (rule that) (use run_event_effect [OF ev] db1 run in \<open>simp_all add: row_put_def\<close>)
qed

theorem at_most_one_live_attempt_witness:
  "\<exists>db a. reachable db \<and> a \<in> set (workflow_attempts db) \<and> is_active a \<and> (\<exists>r \<in> set (workflow_runs db). run_id r = 40 \<and> run_next_step r = 0)"
proof -
  let ?a = "new_attempt demo_env 60 6 (demo_run\<lparr>run_generation := 1\<rparr>)"
  obtain db where db: "reachable db" "workflow_attempts db = [?a]" using demo_first_attempt by metis
  have a: "?a \<in> set (workflow_attempts db)" "is_active ?a" "att_run_id ?a = 40" "att_step_index ?a = 0"
    using db(2) by (simp_all add: is_active_def demo_run_defs)
  from at_most_one_live_attempt [OF db(1) a(1) a(1) refl a(2) a(2)] db(1) a show ?thesis by metis
qed

text \<open>
  C24. Runs only move forward: whatever happens after a reachable state, unless the workflow
  of the run is deleted (with its Agent or Organization), the run keeps its identity, its
  initiating user and membership and the run it repeats are kept or cleared when those are deleted,
  never replaced, its revision, its generation and its position never decrease, its checkpoints are
  kept until retention removes the content of the settled run, and a settled run keeps its
  state, its reason and its time of settlement for good. \<open>W\<close> holds the workflows that deletions
  may have taken along.
\<close>

theorem runs_only_move_forward:
  assumes "reachable db" and "(change_step W)\<^sup>*\<^sup>* db db'" and "row_get run_id i (workflow_runs db) = Some r"
    and "run_workflow_id r \<notin> W"
  shows "\<exists>r'. row_get run_id i (workflow_runs db') = Some r' \<and> run_identity r' = run_identity r \<and> pointers_kept r r' \<and>
    run_revision r \<le> run_revision r' \<and> run_next_step r \<le> run_next_step r' \<and> run_generation r \<le> run_generation r' \<and>
    (run_state r \<in> TERMINAL_STATES \<longrightarrow> run_outcome r' = run_outcome r) \<and>
    (prefix (run_checkpoints db i) (run_checkpoints db' i) \<or> run_content_expired r')"
proof -
  have "rows_later_outside W db db'" using change_steps_kept [OF assms(2) reachable_inv [OF assms(1)]] by blast
  then obtain r' where "row_get run_id i (workflow_runs db') = Some r'" "run_later r r'"
    "prefix (run_checkpoints db i) (run_checkpoints db' i) \<or> run_content_expired r'"
    using assms(3,4) unfolding rows_later_outside_def by blast
  then show ?thesis unfolding run_later_def by blast
qed

text \<open>The initiator of the started run is deleted, then another workflow with its Agent.\<close>

theorem runs_only_move_forward_witness:
  "\<exists>db r'. reachable db \<and> demo_run \<in> set (workflow_runs db) \<and>
    row_get run_id 40 (workflow_runs (delete_workflows {31} (forget_people {1} {11} db))) = Some r' \<and>
    run_identity r' = run_identity demo_run \<and> run_initiating_user_id r' \<in> {Some 1, None} \<and> 1 \<le> run_revision r'"
proof -
  obtain db where db: "reachable db" "workflow_runs db = [demo_run]" using demo_started_reachable .
  have row: "row_get run_id 40 (workflow_runs db) = Some demo_run" by (simp add: db(2) row_get_def demo_run_def new_run_def)
  have steps: "(change_step {31})\<^sup>*\<^sup>* db (delete_workflows {31} (forget_people {1} {11} db))"
    using rtranclp.rtrancl_into_rtrancl [OF r_into_rtranclp [of "change_step {31}", OF by_transaction [OF by_forgetting]] by_deletion]
    by blast
  have "run_workflow_id demo_run \<notin> {31}" by (simp add: demo_run_defs)
  from runs_only_move_forward [OF db(1) steps row this] db show ?thesis
    by (auto simp: pointers_kept_def demo_run_def new_run_def)
qed

text \<open>
  C1. A step is recorded once, and only by the session that holds it: if \<open>complete\<close> returns,
  then either this result had been recorded by this attempt before and nothing changes, or
  the token is the attempt's, the attempt is the latest one of a running run, has not
  expired and its initiator is still authorized; then exactly one checkpoint is added, for
  the run's next step, and sending the same result again later changes nothing.
\<close>

theorem result_recorded_once:
  assumes "reachable db" and "complete env new_ids now i token summary db = Inr (db', ids)"
  shows "(is_duplicate_result env i token summary db \<and> db' = db \<or>
      (\<exists>a r. row_get att_id i (workflow_attempts db) = Some a \<and> att_capability_hash a = env_sha256 env token \<and>
        row_get run_id (att_run_id a) (workflow_runs db) = Some r \<and> run_state r = RunRUNNING \<and>
        last (run_attempts db (run_id r)) = a \<and> att_state a = AttREASONING \<and> now < att_expires_at a \<and> authorized db r = Inr True \<and>
        map cp_step_index (run_checkpoints db' (run_id r)) = map cp_step_index (run_checkpoints db (run_id r)) @ [run_next_step r])) \<and>
    complete env new_ids' later i token summary db' = Inr (db', [])"
proof (cases "is_duplicate_result env i token summary db")
  case True
  then show ?thesis using assms(2) by (simp add: complete_def)
next
  case False
  obtain r a where b: "bound env now i token db = Inr (r, a)"
    and cb: "complete_bound env new_ids now summary db (r, a) = Inr (db', ids)"
    using assms(2) False by (auto simp: complete_def bind_result_Inr)
  note inv = reachable_inv [OF assms(1)]
  obtain v0 bs where last: "run_attempts db (run_id r) = bs @ [a]" "att_run_id a = run_id r"
    and ok: "run_ok (step_total v0) r (bs @ [a]) (checkpoint_steps db (run_id r))" and run: "run_state r = RunRUNNING"
    using bound_last [OF inv b] by metis
  note f = b [unfolded bound_Inr fenced_attempt_Inr]
  have step: "att_step_index a = run_next_step r" using ok run by (simp add: run_ok_defs attempts_ok_def)
  obtain v s db2 r1 where
    fin: "finish_step env now v r (put_attempt (completed_attempt env summary a)
      (db\<lparr>workflow_checkpoints := row_add (step_checkpoint now r a s summary db) (workflow_checkpoints db)\<rparr>)) = Inr (db2, r1)"
    and ev: "run_event env new_ids now r1 STEP_COMPLETED summary db2 = Inr (db', ids)"
    using complete_bound_Inr [OF cb] .
  obtain arts where db2: "db2 = (put_attempt (completed_attempt env summary a)
      (db\<lparr>workflow_checkpoints := row_add (step_checkpoint now r a s summary db) (workflow_checkpoints db)\<rparr>))\<lparr>wdb_artifacts := arts\<rparr>"
    using finish_step_effect(1) [OF fin] by auto
  note e = run_event_effect [OF ev]
  have cps: "map cp_step_index (run_checkpoints db' (run_id r)) = map cp_step_index (run_checkpoints db (run_id r)) @ [run_next_step r]"
    using run_checkpoints_cong [OF e(5)] step
    by (simp add: db2 run_checkpoints_def put_attempt_def row_add_def step_checkpoint_def)
  have "att_id (completed_attempt env summary a) = i" using f attempt_table.get_in_rows by (auto simp: completed_attempt_def)
  then have "row_get att_id i (workflow_attempts db') = Some (completed_attempt env summary a)"
    using e(4) f attempt_table.get_put_same [of i "workflow_attempts db" a] by (simp add: db2 put_attempt_def)
  then have "is_duplicate_result env i token summary db'"
    using f by (simp add: is_duplicate_result_def completed_attempt_def)
  then have "complete env new_ids' later i token summary db' = Inr (db', [])" by (simp add: complete_def)
  then show ?thesis using f last cps by auto
qed

theorem result_recorded_once_witness:
  "\<exists>db db' f ids. reachable db \<and> complete demo_env f 7 60 (uuid_str 60) ''done'' db = Inr (db', ids) \<and>
    complete demo_env f 8 60 (uuid_str 60) ''done'' db' = Inr (db', [])"
proof -
  let ?r = "demo_run\<lparr>run_generation := 1, run_state := RunRUNNING, run_revision := 2, run_updated_at := 6\<rparr>"
  let ?a = "new_attempt demo_env 60 6 (demo_run\<lparr>run_generation := 1\<rparr>)"
  let ?v = "saved_version 31 0 30 1 (demo_draft 1) 1"
  obtain db where db: "reachable db" "workflow_attempts db = [?a]" "workflow_runs db = [?r]" "workflow_versions db = [?v]"
    "workflows db = [demo_workflow 1]" "wdb_access db = demo_db" "workflow_checkpoints db = []"
    "wdb_artifacts db = \<lparr>artifacts = [], artifact_references = []\<rparr>"
    using demo_first_attempt .
  let ?cp = "step_checkpoint 7 ?r ?a (demo_step 1) ''done'' db"
  let ?db1 = "put_attempt (completed_attempt demo_env ''done'' ?a) (db\<lparr>workflow_checkpoints := [?cp]\<rparr>)"
  let ?r1 = "?r\<lparr>run_next_step := 1, run_revision := 3, run_reason := None, run_state := RunSUCCEEDED\<rparr>"
  obtain f where f: "unused_ids f db" using unused_ids_exist .
  obtain arts where s: "settle demo_env 7 ?r1 ?db1 = Inr (?db1\<lparr>wdb_artifacts := arts\<rparr>, ?r1\<lparr>run_settled_at := Some 7\<rparr>)"
    using settle_total [of ?db1 demo_env 7 ?r1] by (auto simp: put_attempt_def db artifacts_ok_def)
  have "\<exists>db' ids. run_event demo_env f 7 (?r1\<lparr>run_settled_at := Some 7\<rparr>) STEP_COMPLETED ''done'' (?db1\<lparr>wdb_artifacts := arts\<rparr>) = Inr (db', ids)"
  proof (rule run_event_total)
    show "change_accepted (env_registry demo_env) (?r1\<lparr>run_settled_at := Some 7\<rparr>)" by (simp add: demo_env_def demo_change_accepted)
    show "unused_ids f (?db1\<lparr>wdb_artifacts := arts\<rparr>)" using f by (simp add: unused_ids_def put_attempt_def)
    show "row_get wf_id (run_workflow_id (?r1\<lparr>run_settled_at := Some 7\<rparr>)) (workflows (?db1\<lparr>wdb_artifacts := arts\<rparr>)) = Some (demo_workflow 1)"
      by (simp add: put_attempt_def db row_get_def demo_run_defs)
    show "row_get agent_id (wf_agent_id (demo_workflow 1)) (agents (wdb_access (?db1\<lparr>wdb_artifacts := arts\<rparr>))) = Some demo_agent_100"
      using demo_agent_row by (simp add: put_attempt_def db demo_workflow_def)
  qed
  then obtain db' ids where ev: "run_event demo_env f 7 (?r1\<lparr>run_settled_at := Some 7\<rparr>) STEP_COMPLETED ''done'' (?db1\<lparr>wdb_artifacts := arts\<rparr>) = Inr (db', ids)"
    by blast
  have "finish_step demo_env 7 ?v ?r ?db1 = Inr (?db1\<lparr>wdb_artifacts := arts\<rparr>, ?r1\<lparr>run_settled_at := Some 7\<rparr>)"
    using s by (simp add: finish_step_def saved_version_def demo_draft_def demo_run_def new_run_def)
  moreover have "insert_checkpoint ?cp db = Inr (db\<lparr>workflow_checkpoints := [?cp]\<rparr>)" by (simp add: insert_checkpoint_Inr db row_add_def)
  moreover have "get_version_one db (run_version_id ?r) = Inr ?v" by (simp add: get_version_one_def db row_get_def demo_run_defs)
  moreover have "step_at ?v (att_step_index ?a) = Inr (demo_step 1)"
    by (simp add: step_at_def saved_version_def demo_draft_def new_attempt_def demo_run_def new_run_def)
  ultimately have cb: "complete_bound demo_env f 7 ''done'' db (?r, ?a) = Inr (db', ids)"
    using ev by (simp add: complete_bound_def)
  have "authorized db ?r = Inr True" by (rule demo_authorized) (simp_all add: db demo_run_def new_run_def)
  then have "bound demo_env 7 60 (uuid_str 60) db = Inr (?r, ?a)"
    unfolding bound_Inr fenced_attempt_Inr
    by (simp add: db row_get_def new_attempt_def demo_run_def new_run_def demo_env_def ATTEMPT_TIMEOUT_SECONDS_def seconds_def)
  moreover have "\<not> is_duplicate_result demo_env 60 (uuid_str 60) ''done'' db"
    by (simp add: is_duplicate_result_def db row_get_def new_attempt_def)
  ultimately have "complete demo_env f 7 60 (uuid_str 60) ''done'' db = Inr (db', ids)"
    using cb by (simp add: complete_def)
  with result_recorded_once [OF db(1) this, of f 8] db(1) show ?thesis by blast
qed

lemma find_request:
  assumes "runs_inv db" and "r \<in> set (workflow_runs db)" and "run_workflow_id r = i" "run_client_request_id r = c"
  shows "find (\<lambda>r. run_workflow_id r = i \<and> run_client_request_id r = c) (workflow_runs db) = Some r"
proof -
  obtain x where x: "find (\<lambda>r. run_workflow_id r = i \<and> run_client_request_id r = c) (workflow_runs db) = Some x"
    using assms by (cases "find (\<lambda>r. run_workflow_id r = i \<and> run_client_request_id r = c) (workflow_runs db)") (auto simp: find_None_iff)
  then have "x \<in> set (workflow_runs db)" "run_workflow_id x = i" "run_client_request_id x = c" by (auto simp: find_Some_iff)
  moreover have "inj_on (\<lambda>r. (run_workflow_id r, run_client_request_id r)) (set (workflow_runs db))"
    using assms(1) by (simp add: runs_inv_def distinct_map)
  ultimately have "x = r" using assms by (auto dest!: inj_onD)
  with x show ?thesis by simp
qed

lemma run_start_row:
  assumes "runs_inv db"
    and s: "run_start env new_id new_ids now workflow_id aid scope payload uid mid runtime rerun_of db = Inr (db', r, ids)"
  shows "r \<in> set (workflow_runs db') \<and> run_request_hash r = start_hash env payload uid rerun_of \<and>
    run_workflow_id r = workflow_id \<and> run_client_request_id r = rc_client_request_id payload"
  using run_start_Inr [OF s]
proof (elim disjE conjE exE)
  fix v kind detail
  assume r: "r = new_run new_id now workflow_id payload uid mid (start_hash env payload uid rerun_of) runtime rerun_of"
    and ev: "run_event env new_ids now r kind detail (db\<lparr>workflow_runs := row_add r (workflow_runs db)\<rparr>) = Inr (db', ids)"
  have "r\<lparr>run_updated_at := now\<rparr> = r" by (simp add: r new_run_def)
  then have "r \<in> set (workflow_runs db')" using run_event_effect(1) [OF ev] by (auto simp: row_add_def row_put_def)
  then show ?thesis by (simp add: r new_run_def)
qed simp

text \<open>
  Starting is idempotent: once a start has returned a run, a start with the same request
  identity at any later time (whatever happened in between, while the caller has access and
  the workflow is not deleted)
  returns that same run and changes nothing if inputs, version and actor hash to the same
  value, and is refused as a reused identity if they do not.
\<close>

theorem start_is_idempotent:
  assumes "reachable db"
    and "run_start env new_id new_ids now workflow_id aid scope payload uid mid runtime rerun_of db = Inr (db1, r, ids)"
    and "(change_step W)\<^sup>*\<^sup>* db1 db2" and own: "workflow_id \<notin> W"
    and access: "get_active_in_scope (wdb_access db2) aid scope' = Inr (Some a)" "get_in_scope db2 workflow_id aid scope' = Inr (Some w)"
    and same: "rc_client_request_id payload' = rc_client_request_id payload" and fin: "digestible payload' rerun_of'"
  shows "if start_hash env payload' uid' rerun_of' = start_hash env payload uid rerun_of
    then \<exists>r'. run_start env new_id' new_ids' now' workflow_id aid scope' payload' uid' mid' runtime' rerun_of' db2 = Inr (db2, r', []) \<and>
      run_identity r' = run_identity r
    else run_start env new_id' new_ids' now' workflow_id aid scope' payload' uid' mid' runtime' rerun_of' db2 = Inl reused_request"
proof -
  have r1: "reachable db1" using reachable_step [OF assms(1) by_start [OF assms(2)]] .
  have keyed: "runs_inv db1" "runs_inv db2"
    using reachable_inv [OF r1] reachable_inv [OF reachable_changes [OF r1 assms(3)]] by auto
  have r: "r \<in> set (workflow_runs db1)" "run_request_hash r = start_hash env payload uid rerun_of"
    "run_workflow_id r = workflow_id" "run_client_request_id r = rc_client_request_id payload"
    using run_start_row [OF reachable_inv [OF assms(1)] assms(2)] by auto
  have "row_get run_id (run_id r) (workflow_runs db1) = Some r"
    using keyed(1) r(1) run_table.get_rows by (auto simp: runs_inv_def)
  moreover have "rows_later_outside W db1 db2" using change_steps_kept [OF assms(3) keyed(1)] by blast
  ultimately obtain r2 where r2: "row_get run_id (run_id r) (workflow_runs db2) = Some r2" "run_identity r2 = run_identity r"
    using own r(3) unfolding rows_later_outside_def run_later_def by blast
  have in2: "r2 \<in> set (workflow_runs db2)" using run_table.get_in_rows [OF r2(1)] by simp
  have key: "run_workflow_id r2 = workflow_id" "run_client_request_id r2 = rc_client_request_id payload'"
    "run_request_hash r2 = start_hash env payload uid rerun_of"
    using r r2(2) same by (simp_all add: run_identity_def)
  have "find (\<lambda>r. run_workflow_id r = workflow_id \<and> run_client_request_id r = rc_client_request_id payload') (workflow_runs db2) = Some r2"
    by (rule find_request [OF keyed(2) in2 key(1,2)])
  then show ?thesis
    using access key(3) r2(2) fin by (auto simp: run_start_def raise_if_def)
qed

theorem start_is_idempotent_witness:
  "\<exists>db r'. run_start demo_env 41 demo_ids 8 30 100 (organization_scope 7) demo_payload_create 1 11 ''hermes'' None db = Inr (db, r', []) \<and>
    run_identity r' = run_identity demo_run"
proof -
  obtain db1 ids where start: "run_start demo_env 40 demo_ids 5 30 100 (organization_scope 7) demo_payload_create 1 11 ''hermes'' None demo_saved
      = Inr (db1, demo_run, ids)" and db1: "wdb_access db1 = demo_db" "workflows db1 = [demo_workflow 1]"
    using demo_start by metis
  have "get_active_in_scope (wdb_access db1) 100 (organization_scope 7) = Inr (Some demo_agent_100)" using demo_active by (simp add: db1)
  moreover have "get_in_scope db1 30 100 (organization_scope 7) = Inr (Some (demo_workflow 1))"
    using demo_get_in_scope [of 1]
    by (simp add: get_in_scope_def workflow_agent_in_def db1 demo_definitions_def empty_definitions_def)
  moreover have "digestible demo_payload_create None" by (simp add: digestible_def demo_payload_create_def)
  moreover have notin_empty: "30 \<notin> ({} :: uuid set)" by simp
  ultimately show ?thesis
    using start_is_idempotent [OF demo_saved_reachable start rtranclp.rtrancl_refl [of "change_step {}"] notin_empty _ _ refl,
        of "organization_scope 7" demo_agent_100 "demo_workflow 1" None 1 41 demo_ids 8 11 "''hermes''"] by auto
qed

end
