(* ===== verification/Workflow_Service.thy ===== *)
theory Workflow_Service
  imports Workflow_Guarantees
begin

text \<open>
  The service that people and Agents call to run workflows
  (\<open>api/domains/workflows/run_service.py\<close>) and the hand-over of a step to an Agent
  (\<open>runtime_service.py\<close>). A service call is a sequence of transactions: what an earlier one
  has written stays when a later one raises, so a call returns the state and its result. The
  state is the database and the queue of the broker.
\<close>

section \<open>Inputs\<close>

text \<open>
  \<open>math.isfinite\<close>: an \<open>int\<close> that does not round to a double raises \<open>OverflowError\<close>; a float is
  given by its \<open>repr\<close>.
\<close>

definition isfinite :: "input_value \<Rightarrow> bool result" where
  "isfinite v =
    (case v of
       ValInt i \<Rightarrow> bind_result (raise_if (2 ^ 1024 - 2 ^ 970 \<le> \<bar>i\<bar>) OverflowError) (\<lambda>_. Inr True)
     | ValFloat r \<Rightarrow> Inr (is_finite_float r)
     | _ \<Rightarrow> Inr False)"

definition valid_input :: "input_type \<Rightarrow> input_value \<Rightarrow> bool result" where
  "valid_input t v =
    (case t of
       InputText \<Rightarrow>
         Inr (case v of ValStr s \<Rightarrow> strip_by py_space s \<noteq> [] \<and> length (strip_by py_space s) \<le> 16000 | _ \<Rightarrow> False)
     | InputBoolean \<Rightarrow> Inr (case v of ValBool b \<Rightarrow> True | _ \<Rightarrow> False)
     | InputNumber \<Rightarrow> (case v of ValInt i \<Rightarrow> isfinite v | ValFloat r \<Rightarrow> isfinite v | _ \<Rightarrow> Inr False))"

definition input_type_text :: "input_type \<Rightarrow> string" where
  "input_type_text t = (case t of InputText \<Rightarrow> ''text'' | InputNumber \<Rightarrow> ''number'' | InputBoolean \<Rightarrow> ''boolean'')"

text \<open>The dict of declared inputs: a key stands where it first occurs and has its last declaration.\<close>

definition declared_inputs :: "workflow_draft \<Rightarrow> (string \<times> workflow_input) list" where
  "declared_inputs d =
    map (\<lambda>k. (k, the (find (\<lambda>i. in_key i = k) (rev (draft_inputs d))))) (rev (remdups (rev (map in_key (draft_inputs d)))))"

fun check_inputs :: "(string \<times> workflow_input) list \<Rightarrow> (string \<times> input_value) list \<Rightarrow> unit result" where
  "check_inputs [] vals = Inr ()"
| "check_inputs ((k, item) # rest) vals =
    (case map_of vals k of
       None \<Rightarrow>
         if in_required item then Inl (HTTPException 422 (in_label item @ '' is required''))
         else check_inputs rest vals
     | Some v \<Rightarrow>
         bind_result (valid_input (in_type item) v) (\<lambda>valid.
         if valid then check_inputs rest vals
         else Inl (HTTPException 422 (in_label item @ '' must be a valid '' @ input_type_text (in_type item) @ '' input''))))"

definition validate_inputs :: "workflow_draft \<Rightarrow> (string \<times> input_value) list \<Rightarrow> unit result" where
  "validate_inputs d vals =
    (let declared = declared_inputs d in
     bind_result (raise_if (\<exists>k \<in> set (map fst vals). k \<notin> set (map fst declared)) (HTTPException 422 ''Unknown workflow inputs'')) (\<lambda>_.
     check_inputs declared vals))"

section \<open>Reads\<close>

datatype step_state = StepCOMPLETED | StepRUNNING | StepPENDING

record step_read =
  st_id :: uuid
  st_name :: string
  st_state :: step_state
  st_summary :: "string option"
  st_started_at :: "datetime option"
  st_completed_at :: "datetime option"

datatype run_action = ActCancel | ActRerun

text \<open>\<open>WorkflowRunRead\<close>: the columns of the run it copies are the run itself.\<close>

record workflow_run_read =
  rd_run :: workflow_run
  rd_version_number :: nat
  rd_name :: string
  rd_steps :: "step_read list"
  rd_final_summary :: "string option"
  rd_allowed_actions :: "run_action list"
  rd_attempt :: "attempt_read option"

definition can_start_on :: "agent \<Rightarrow> bool \<Rightarrow> bool" where
  "can_start_on a archived \<longleftrightarrow> agent_status a = RUNNING \<and> \<not> archived"

definition run_allowed_actions :: "workflow_run \<Rightarrow> bool \<Rightarrow> bool \<Rightarrow> run_action list" where
  "run_allowed_actions r can_write can_start =
    (if \<not> can_write then []
     else if run_state r \<in> TERMINAL_STATES then (if can_start \<and> \<not> run_content_expired r then [ActRerun] else [])
     else if run_state r = RunCANCELLING then [] else [ActCancel])"

definition step_state_of :: "workflow_run \<Rightarrow> nat \<Rightarrow> step_state" where
  "step_state_of r k =
    (if k < run_next_step r then StepCOMPLETED
     else if k = run_next_step r \<and> run_state r = RunRUNNING then StepRUNNING else StepPENDING)"

definition step_read_of :: "workflow_run \<Rightarrow> (nat \<Rightarrow> step_record option) \<Rightarrow> nat \<times> workflow_step \<Rightarrow> step_read" where
  "step_read_of r records = (\<lambda>(k, s).
    \<lparr>st_id = step_id s, st_name = step_name s, st_state = step_state_of r k,
     st_summary = Option.bind (records k) sr_summary, st_started_at = Option.bind (records k) sr_started_at,
     st_completed_at = Option.bind (records k) sr_completed_at\<rparr>)"

definition read_row ::
  "workflow_run \<Rightarrow> workflow_version \<Rightarrow> bool \<Rightarrow> bool \<Rightarrow> (nat \<Rightarrow> step_record option) \<Rightarrow> attempt_read option \<Rightarrow> workflow_run_read" where
  "read_row r v can_write can_start records attempt =
    \<lparr>rd_run = r, rd_version_number = ver_number v, rd_name = draft_name (ver_snapshot v),
     rd_steps = map (step_read_of r records) (enumerate 0 (draft_steps (ver_snapshot v))),
     rd_final_summary =
       (if run_state r = RunSUCCEEDED then
          (if draft_steps (ver_snapshot v) = [] then None
           else Option.bind (records (length (draft_steps (ver_snapshot v)) - 1)) sr_summary) else None),
     rd_allowed_actions = run_allowed_actions r can_write can_start, rd_attempt = attempt\<rparr>"

text \<open>\<open>_scope\<close>.\<close>

definition run_scope :: "run_db \<Rightarrow> current_user_context \<Rightarrow> uuid \<Rightarrow> bool \<Rightarrow> authz_scope result" where
  "run_scope db ctx aid write =
    bind_result (if write then require_action (wdb_access db) ctx aid AGENT_UPDATE no_action_permission
                 else require_visible (wdb_access db) ctx aid) (\<lambda>_.
    authorization_scope ctx (if write then AGENT_UPDATE else AGENT_READ))"

text \<open>\<open>_read\<close> when the caller has not decided \<open>can_write\<close> and \<open>can_start\<close>.\<close>

definition run_read ::
  "run_db \<Rightarrow> current_user_context \<Rightarrow> uuid \<Rightarrow> workflow_run \<Rightarrow> workflow_version \<Rightarrow> (nat \<Rightarrow> step_record option) \<Rightarrow> attempt_read option
    \<Rightarrow> workflow_run_read result" where
  "run_read db ctx aid r v records attempt =
    bind_result (require_visible (wdb_access db) ctx aid) (\<lambda>a.
    bind_result (permits (wdb_access db) ctx a AGENT_UPDATE) (\<lambda>can_write.
    Inr (read_row r v can_write (can_start_on a (archived_workflow_ids db [run_workflow_id r] \<noteq> [])) records attempt)))"

definition run_service_get :: "datetime \<Rightarrow> run_db \<Rightarrow> current_user_context \<Rightarrow> uuid \<Rightarrow> uuid \<Rightarrow> workflow_run_read result" where
  "run_service_get now db ctx aid i =
    bind_result (run_scope db ctx aid False) (\<lambda>scope.
    bind_result (run_get db i aid scope) (\<lambda>found.
    case found of
      None \<Rightarrow> Inl (HTTPException 404 ''Workflow run not found'')
    | Some (r, v) \<Rightarrow> (case progress now db r of (records, attempt) \<Rightarrow> run_read db ctx aid r v records attempt)))"

definition run_service_list ::
  "run_db \<Rightarrow> current_user_context \<Rightarrow> uuid \<Rightarrow> nat \<Rightarrow> nat \<Rightarrow> uuid option \<Rightarrow> (nat \<times> workflow_run_read list) result" where
  "run_service_list db ctx aid page page_size workflow_id =
    bind_result (run_scope db ctx aid False) (\<lambda>scope.
    bind_result (list_runs db aid scope page page_size workflow_id) (\<lambda>(rows, tot).
    bind_result (require_visible (wdb_access db) ctx aid) (\<lambda>a.
    bind_result (permits (wdb_access db) ctx a AGENT_UPDATE) (\<lambda>can_write.
    let archived = archived_workflow_ids db (map (\<lambda>(r, v). run_workflow_id r) rows) in
    Inr (tot, map (\<lambda>(r, v). read_row r v can_write (can_start_on a (run_workflow_id r \<in> set archived)) (\<lambda>_. None) None) rows)))))"

definition run_service_history ::
  "datetime \<Rightarrow> run_db \<Rightarrow> current_user_context \<Rightarrow> uuid \<Rightarrow> uuid \<Rightarrow> nat \<Rightarrow> nat \<Rightarrow> bool \<Rightarrow> (workflow_history list \<times> nat) result" where
  "run_service_history now db ctx aid i page page_size newest_first =
    bind_result (run_service_get now db ctx aid i) (\<lambda>_.
    bind_result (run_scope db ctx aid False) (\<lambda>scope.
    run_history db i aid scope page page_size newest_first))"

section \<open>Writes\<close>

type_synonym sys = "run_db \<times> uuid list"

text \<open>\<open>dispatcher.enqueue_immediate\<close> on the deliveries a transaction has staged.\<close>

definition dispatch :: "(uuid \<Rightarrow> bool) \<Rightarrow> datetime \<Rightarrow> uuid list \<Rightarrow> sys \<Rightarrow> sys" where
  "dispatch accepts now ids = (\<lambda>(db, queue).
    (case enqueue_immediate accepts now ids (wdb_events db, queue) of (events, queue1) \<Rightarrow> (db\<lparr>wdb_events := events\<rparr>, queue1)))"

text \<open>The parts of \<open>_start\<close> before the transaction that starts: a run of an earlier request, or what the new run needs.\<close>

datatype start_plan = Existing uuid | Fresh authz_scope string uuid

definition plan_start ::
  "wf_env \<Rightarrow> run_db \<Rightarrow> current_user_context \<Rightarrow> uuid \<Rightarrow> uuid \<Rightarrow> workflow_run_create \<Rightarrow> workflow_run option \<Rightarrow> start_plan result" where
  "plan_start env db ctx aid workflow_id payload rerun_of =
    bind_result (run_scope db ctx aid True) (\<lambda>scope.
    bind_result (get_in_scope db workflow_id aid scope) (\<lambda>w.
    bind_result (raise_if (w = None) (HTTPException 404 ''Workflow not found'')) (\<lambda>_.
    bind_result (conflict_409 (existing_start env db workflow_id aid scope payload (user_id (ctx_user ctx)) (map_option run_id rerun_of))) (\<lambda>existing.
    case existing of
      Some i \<Rightarrow> Inr (Existing i)
    | None \<Rightarrow>
        bind_result (raise_if (case rerun_of of None \<Rightarrow> False | Some s \<Rightarrow> run_content_expired s)
          (HTTPException 409 ''This run's inputs were removed by retention; start a new run instead'')) (\<lambda>_.
        bind_result (version_in_scope db (rc_version_id payload) workflow_id aid scope) (\<lambda>version.
        case version of
          None \<Rightarrow> Inl (HTTPException 404 ''Saved workflow version not found'')
        | Some v \<Rightarrow>
            bind_result (validate_draft (ver_snapshot v)) (\<lambda>draft.
            bind_result (validate_inputs draft (rc_inputs payload)) (\<lambda>_.
            bind_result (require_visible (wdb_access db) ctx aid) (\<lambda>a.
            bind_result (raise_if (agent_status a \<noteq> RUNNING) (HTTPException 409 ''Start the Agent before running a workflow'')) (\<lambda>_.
            bind_result (agent_runtime a) (\<lambda>runtime.
            bind_result (require_current_user_organization ctx) (\<lambda>membership.
            Inr (Fresh scope runtime (mem_id membership))))))))))))))"

definition start_run ::
  "wf_env \<Rightarrow> uuid \<Rightarrow> (nat \<Rightarrow> uuid) \<Rightarrow> (uuid \<Rightarrow> bool) \<Rightarrow> datetime \<Rightarrow> uuid \<Rightarrow> uuid \<Rightarrow> workflow_run_create
    \<Rightarrow> current_user_context \<Rightarrow> workflow_run option \<Rightarrow> sys \<Rightarrow> sys \<times> workflow_run_read result" where
  "start_run env new_id new_ids accepts now aid workflow_id payload ctx rerun_of = (\<lambda>(db, queue).
    (case plan_start env db ctx aid workflow_id payload rerun_of of
       Inl e \<Rightarrow> ((db, queue), Inl e)
     | Inr (Existing i) \<Rightarrow> ((db, queue), run_service_get now db ctx aid i)
     | Inr (Fresh scope runtime mid) \<Rightarrow>
         (case run_start env new_id new_ids now workflow_id aid scope payload (user_id (ctx_user ctx)) mid runtime
             (map_option run_id rerun_of) db of
            Inl e \<Rightarrow> ((db, queue), conflict_409 (Inl e))
          | Inr (db1, r, ids) \<Rightarrow>
              (let s = dispatch accepts now ids (db1, queue) in (s, run_service_get now (fst s) ctx aid (run_id r))))))"

definition run_service_start ::
  "wf_env \<Rightarrow> uuid \<Rightarrow> (nat \<Rightarrow> uuid) \<Rightarrow> (uuid \<Rightarrow> bool) \<Rightarrow> datetime \<Rightarrow> uuid \<Rightarrow> uuid \<Rightarrow> workflow_run_create
    \<Rightarrow> current_user_context \<Rightarrow> sys \<Rightarrow> sys \<times> workflow_run_read result" where
  "run_service_start env new_id new_ids accepts now aid workflow_id payload ctx =
    start_run env new_id new_ids accepts now aid workflow_id payload ctx None"

definition rerun_payload :: "workflow_run \<Rightarrow> uuid \<Rightarrow> workflow_run_create" where
  "rerun_payload source request_id =
    \<lparr>rc_version_id = run_version_id source, rc_client_request_id = request_id, rc_inputs = run_inputs source\<rparr>"

definition run_service_rerun ::
  "wf_env \<Rightarrow> uuid \<Rightarrow> (nat \<Rightarrow> uuid) \<Rightarrow> (uuid \<Rightarrow> bool) \<Rightarrow> datetime \<Rightarrow> uuid \<Rightarrow> uuid \<Rightarrow> uuid
    \<Rightarrow> current_user_context \<Rightarrow> sys \<Rightarrow> sys \<times> workflow_run_read result" where
  "run_service_rerun env new_id new_ids accepts now aid i request_id ctx = (\<lambda>(db, queue).
    (case bind_result (run_scope db ctx aid True) (run_get db i aid) of
       Inl e \<Rightarrow> ((db, queue), Inl e)
     | Inr None \<Rightarrow> ((db, queue), Inl (HTTPException 404 ''Workflow run not found''))
     | Inr (Some (source, v)) \<Rightarrow>
         if run_state source \<notin> TERMINAL_STATES then ((db, queue), Inl (HTTPException 409 ''Only a settled run can be run again''))
         else start_run env new_id new_ids accepts now aid (run_workflow_id source) (rerun_payload source request_id) ctx
                (Some source) (db, queue)))"

definition run_service_cancel ::
  "wf_env \<Rightarrow> (nat \<Rightarrow> uuid) \<Rightarrow> (uuid \<Rightarrow> bool) \<Rightarrow> datetime \<Rightarrow> uuid \<Rightarrow> uuid \<Rightarrow> nat \<Rightarrow> current_user_context
    \<Rightarrow> sys \<Rightarrow> sys \<times> workflow_run_read result" where
  "run_service_cancel env new_ids accepts now aid i revision ctx = (\<lambda>(db, queue).
    (case bind_result (run_service_get now db ctx aid i) (\<lambda>_. run_scope db ctx aid True) of
       Inl e \<Rightarrow> ((db, queue), Inl e)
     | Inr scope \<Rightarrow>
         (case run_cancel env new_ids now i aid scope revision db of
            Inl e \<Rightarrow> ((db, queue), conflict_409 (Inl e))
          | Inr (db1, ids) \<Rightarrow> (let s = dispatch accepts now ids (db1, queue) in (s, run_service_get now (fst s) ctx aid i)))))"

text \<open>What an Agent reports: \<open>result\<close> and \<open>failure\<close>.\<close>

definition run_service_result ::
  "wf_env \<Rightarrow> (nat \<Rightarrow> uuid) \<Rightarrow> (uuid \<Rightarrow> bool) \<Rightarrow> datetime \<Rightarrow> uuid \<Rightarrow> string \<Rightarrow> string \<Rightarrow> sys \<Rightarrow> sys \<times> unit result" where
  "run_service_result env new_ids accepts now attempt_id token summary = (\<lambda>(db, queue).
    (case complete env new_ids now attempt_id token summary db of
       Inl e \<Rightarrow> ((db, queue), Inl e)
     | Inr (db1, ids) \<Rightarrow> (dispatch accepts now ids (db1, queue), Inr ())))"

definition run_service_failure ::
  "wf_env \<Rightarrow> uuid \<Rightarrow> (nat \<Rightarrow> uuid) \<Rightarrow> (nat \<Rightarrow> uuid) \<Rightarrow> (uuid \<Rightarrow> bool) \<Rightarrow> datetime \<Rightarrow> datetime \<Rightarrow> uuid \<Rightarrow> string \<Rightarrow> attempt_failure
    \<Rightarrow> sys \<Rightarrow> sys \<times> unit result" where
  "run_service_failure env new_id new_ids new_ids2 accepts now later attempt_id token f = (\<lambda>(db, queue).
    (case fail env new_id new_ids new_ids2 now later attempt_id token f db of
       (db1, Inl e) \<Rightarrow> ((db1, queue), Inl e)
     | (db1, Inr ids) \<Rightarrow> (dispatch accepts later ids (db1, queue), Inr ())))"

section \<open>Handing a step to an Agent\<close>

definition MAX_CONTEXT_BYTES :: nat where
  "MAX_CONTEXT_BYTES = 64000"

text \<open>\<open>STEP_INSTRUCTIONS\<close>, the prompt in front of every step.\<close>

definition NEWLINE :: string where
  "NEWLINE = [char_of (10 :: nat)]"

definition STEP_INSTRUCTIONS :: string where
  "STEP_INSTRUCTIONS =
    ''You are running one step of a saved workflow. Complete only the current step, using the '' @
    ''supplied inputs and the summaries of earlier steps. You may use your normal tools and '' @
    ''connected integrations; your usual approval rules apply. Do not invent facts or claim actions '' @
    ''you did not take.'' @ NEWLINE @
    ''When you are done, reply with ONLY a JSON object: {\"summary\": string, \"criteria_met\": '' @
    ''boolean}. The summary must contain the actual result and any facts later steps need, in at '' @
    ''most 4000 characters, following output_description and final_output_description. If the step '' @
    ''cannot be completed, set criteria_met to false and explain why in the summary.'' @ NEWLINE"

text \<open>What a packet says about files when artifact storage is configured.\<close>

definition file_publication :: "uuid \<Rightarrow> json" where
  "file_publication attempt_id =
    JObj [(KStr ''command'', JStr ''/usr/local/bin/agentbarn-artifacts upload <workspace-file>''),
      (KStr ''required_arguments'', JObj [(KStr ''--attempt-id'', JStr (uuid_str attempt_id))]),
      (KStr ''instructions'', JStr
        (''Publish requested files before replying. Existing files are identified by exact '' @
         ''artifact_id/checksum in completed_steps; use agentbarn-artifacts retrieve to read them. Never '' @
         ''report a local path as a published artifact. Storage failure does not prevent an honest '' @
         ''text-only result.''))]"

text \<open>
  \<open>handoff\<close>: \<open>storage\<close> says whether artifact storage is configured, and \<open>render\<close> is \<open>json.dumps\<close>
  of a packet and its entry \<open>file_publication\<close>, as UTF-8 bytes.
\<close>

definition handoff ::
  "wf_env \<Rightarrow> datetime \<Rightarrow> bool \<Rightarrow> (step_packet \<Rightarrow> json option \<Rightarrow> string) \<Rightarrow> uuid \<Rightarrow> string \<Rightarrow> run_db \<Rightarrow> (string \<times> string \<times> string) result" where
  "handoff env now storage render attempt_id token db =
    bind_result (admit env now attempt_id token db) (\<lambda>(r, a, packet).
    let context = render packet (if storage then Some (file_publication attempt_id) else None) in
    bind_result (raise_if (MAX_CONTEXT_BYTES < length context)
      (WorkflowConflict ''Workflow context (summaries and file references) exceeds the context limit'')) (\<lambda>_.
    Inr (run_runtime r, ''workflow-'' @ uuid_str attempt_id, STEP_INSTRUCTIONS @ context)))"

section \<open>Properties\<close>

lemma declared_inputs_distinct:
  assumes "distinct (map in_key (draft_inputs d))"
  shows "declared_inputs d = map (\<lambda>i. (in_key i, i)) (draft_inputs d)"
proof -
  have "find (\<lambda>j. in_key j = in_key i) (rev (draft_inputs d)) = Some i" if "i \<in> set (draft_inputs d)" for i
  proof -
    have "find (\<lambda>j. in_key j = in_key i) (rev (draft_inputs d)) \<noteq> None"
      using that unfolding find_None_iff by auto
    then obtain j where j: "find (\<lambda>j. in_key j = in_key i) (rev (draft_inputs d)) = Some j" by auto
    then have "in_key j = in_key i" "j \<in> set (rev (draft_inputs d))" by (auto simp: find_Some_iff simp del: set_rev intro: nth_mem)
    then have "j = i" using that assms by (simp add: distinct_map inj_on_def)
    with j show ?thesis by simp
  qed
  moreover have "rev (remdups (rev (map in_key (draft_inputs d)))) = map in_key (draft_inputs d)"
    using assms by (simp add: distinct_remdups_id rev_map [symmetric])
  ultimately show ?thesis by (simp add: declared_inputs_def)
qed

definition input_accepted :: "(string \<times> input_value) list \<Rightarrow> string \<Rightarrow> workflow_input \<Rightarrow> bool" where
  "input_accepted vals k item \<longleftrightarrow>
    (case map_of vals k of None \<Rightarrow> \<not> in_required item | Some v \<Rightarrow> valid_input (in_type item) v = Inr True)"

lemma check_inputs_iff:
  "check_inputs ds vals = Inr () \<longleftrightarrow> (\<forall>(k, item) \<in> set ds. input_accepted vals k item)"
  by (induction ds vals rule: check_inputs.induct) (auto simp: input_accepted_def bind_result_Inr split: option.splits)

text \<open>The values of an input, as the documentation of the inputs states them.\<close>

definition input_fits :: "input_type \<Rightarrow> input_value \<Rightarrow> bool" where
  "input_fits t v =
    (case (t, v) of
       (InputText, ValStr s) \<Rightarrow> strip_by py_space s \<noteq> [] \<and> length (strip_by py_space s) \<le> 16000
     | (InputBoolean, ValBool b) \<Rightarrow> True
     | (InputNumber, ValInt n) \<Rightarrow> \<bar>n\<bar> < 2 ^ 1024 - 2 ^ 970
     | (InputNumber, ValFloat r) \<Rightarrow> is_finite_float r
     | _ \<Rightarrow> False)"

lemma valid_input_iff: "valid_input t v = Inr True \<longleftrightarrow> input_fits t v"
  by (cases t; cases v) (simp_all add: valid_input_def isfinite_def input_fits_def bind_result_Inr not_le)

text \<open>
  \<open>validate_inputs\<close> accepts exactly the values a definition asks for: every given key is
  declared, every required input is given, a text has 1 to 16000 characters without
  surrounding white space, a boolean is a boolean and a number is finite and fits a double.
\<close>

theorem validate_inputs_exact:
  assumes "distinct (map in_key (draft_inputs d))"
  shows "validate_inputs d vals = Inr () \<longleftrightarrow>
    set (map fst vals) \<subseteq> set (map in_key (draft_inputs d)) \<and>
    (\<forall>i \<in> set (draft_inputs d).
      case map_of vals (in_key i) of None \<Rightarrow> \<not> in_required i | Some v \<Rightarrow> input_fits (in_type i) v)"
  unfolding validate_inputs_def Let_def bind_result_Inr raise_if_Inr check_inputs_iff declared_inputs_distinct [OF assms]
    input_accepted_def valid_input_iff by auto

definition demo_inputs :: workflow_draft where
  "demo_inputs = (demo_draft 1)\<lparr>draft_inputs :=
    [\<lparr>in_key = ''n'', in_label = ''N'', in_description = '''', in_type = InputNumber, in_required = True\<rparr>]\<rparr>"

theorem validate_inputs_exact_witness:
  "validate_inputs demo_inputs [(''n'', ValInt 3)] = Inr () \<and> validate_inputs demo_inputs [] \<noteq> Inr () \<and>
   validate_inputs demo_inputs [(''n'', ValStr ''3'')] \<noteq> Inr ()"
proof -
  have "distinct (map in_key (draft_inputs demo_inputs))" by (simp add: demo_inputs_def)
  note exact = validate_inputs_exact [OF this]
  have "(3::int) < 2 ^ 1024 - 2 ^ 970" by simp
  then show ?thesis unfolding exact by (simp add: demo_inputs_def input_fits_def)
qed

section \<open>Authority\<close>

lemma run_scope_write:
  assumes "agents_keyed (wdb_access db)" and "run_scope db ctx aid True = Inr scope"
  shows "\<exists>a \<in> set (agents (wdb_access db)). agent_id a = aid \<and> caller_holds (wdb_access db) ctx AGENT_UPDATE a \<and>
    home_organization ctx = Some (agent_organization_id a) \<and> agent_deleted_at a = None"
proof -
  obtain a where "require_action (wdb_access db) ctx aid AGENT_UPDATE no_action_permission = Inr a"
    using assms(2) by (auto simp: run_scope_def bind_result_Inr)
  then show ?thesis using authority.action_in_home [OF assms(1)] authority.holds_home by metis
qed

lemma plan_start_scope: "plan_start env db ctx aid i payload rerun_of = Inr p \<Longrightarrow> \<exists>scope. run_scope db ctx aid True = Inr scope"
  by (auto simp: plan_start_def bind_result_Inr)

lemma start_run_scope:
  "fst (start_run env new_id new_ids accepts now aid i payload ctx rerun_of (db, queue)) \<noteq> (db, queue)
    \<Longrightarrow> \<exists>scope. run_scope db ctx aid True = Inr scope"
  using plan_start_scope by (cases "plan_start env db ctx aid i payload rerun_of") (auto simp: start_run_def)

text \<open>
  Only editors of an Agent run its workflows: when starting, re-running or cancelling a
  run changes the database or publishes anything, the caller holds \<open>agent.update\<close> on that live
  Agent of the caller's own Organization.
\<close>

theorem only_editors_run_workflows:
  assumes "agents_keyed (wdb_access db)"
    and "fst (run_service_start env new_id new_ids accepts now aid w payload ctx (db, queue)) \<noteq> (db, queue) \<or>
      fst (run_service_rerun env new_id new_ids accepts now aid i request ctx (db, queue)) \<noteq> (db, queue) \<or>
      fst (run_service_cancel env new_ids accepts now aid i revision ctx (db, queue)) \<noteq> (db, queue)"
  shows "\<exists>a \<in> set (agents (wdb_access db)). agent_id a = aid \<and> caller_holds (wdb_access db) ctx AGENT_UPDATE a \<and>
    home_organization ctx = Some (agent_organization_id a) \<and> agent_deleted_at a = None"
proof -
  have "\<exists>scope. run_scope db ctx aid True = Inr scope"
    using assms(2)
  proof (elim disjE)
    assume "fst (run_service_start env new_id new_ids accepts now aid w payload ctx (db, queue)) \<noteq> (db, queue)"
    then show ?thesis unfolding run_service_start_def by (rule start_run_scope)
  next
    assume "fst (run_service_rerun env new_id new_ids accepts now aid i request ctx (db, queue)) \<noteq> (db, queue)"
    then show ?thesis by (cases "run_scope db ctx aid True") (auto simp: run_service_rerun_def)
  next
    assume "fst (run_service_cancel env new_ids accepts now aid i revision ctx (db, queue)) \<noteq> (db, queue)"
    then show ?thesis by (cases "run_scope db ctx aid True"; cases "run_service_get now db ctx aid i") (auto simp: run_service_cancel_def)
  qed
  then show ?thesis using run_scope_write [OF assms(1)] by blast
qed

section \<open>What is offered can be done\<close>

text \<open>A caller's view of a run: the Membership, the visible Agent, the workflow and the version.\<close>

definition sees_run :: "run_db \<Rightarrow> current_user_context \<Rightarrow> uuid \<Rightarrow> uuid \<Rightarrow> organization_user \<Rightarrow> agent \<Rightarrow> workflow_run \<Rightarrow> workflow_version \<Rightarrow> bool" where
  "sees_run db ctx aid i m a r v \<longleftrightarrow>
    current_user_organization ctx = Some m \<and> a \<in> set (agents (wdb_access db)) \<and> agent_id a = aid \<and>
    holds_permission (wdb_access db) m (ctx_user ctx) AGENT_READ a \<and>
    (\<exists>w \<in> set (workflows db). wf_id w = run_workflow_id r \<and> wf_agent_id w = aid) \<and>
    r \<in> set (workflow_runs db) \<and> run_id r = i \<and> row_get ver_id (run_version_id r) (workflow_versions db) = Some v"

lemma find_keyed_filter:
  assumes "distinct (map run_id rs)"
  shows "find (\<lambda>r. run_id r = i) (filter P rs) = Some r \<longleftrightarrow> r \<in> set rs \<and> P r \<and> run_id r = i"
  using find_keyed [of run_id "filter P rs" i "\<lambda>_. True" r] assms by (simp add: distinct_map_filter conj_assoc)

lemma runs_scoped_holds:
  assumes "agents_keyed (wdb_access db)" and "a \<in> set (agents (wdb_access db))" "agent_id a = aid"
  shows "runs_scoped db aid (scope_of m u p) =
    Inr (filter (\<lambda>r. (\<exists>w \<in> set (workflows db). wf_id w = run_workflow_id r \<and> wf_agent_id w = aid) \<and>
      holds_permission (wdb_access db) m u p a) (workflow_runs db))"
proof -
  have "x = a" if "x \<in> set (agents (wdb_access db))" "agent_id x = aid" for x
    using that assms by (auto simp: agents_keyed_def distinct_map inj_on_def)
  then have "run_in_scope db aid (holds_permission (wdb_access db) m u p) r \<longleftrightarrow>
      (\<exists>w \<in> set (workflows db). wf_id w = run_workflow_id r \<and> wf_agent_id w = aid) \<and> holds_permission (wdb_access db) m u p a" for r
    using assms(2,3) unfolding run_in_scope_def workflow_agent_in_def by metis
  then have "filter (run_in_scope db aid (holds_permission (wdb_access db) m u p)) (workflow_runs db) =
      filter (\<lambda>r. (\<exists>w \<in> set (workflows db). wf_id w = run_workflow_id r \<and> wf_agent_id w = aid) \<and>
        holds_permission (wdb_access db) m u p a) (workflow_runs db)"
    by (intro filter_cong refl)
  then show ?thesis unfolding runs_scoped_def scope_predicates_spec by simp
qed

lemma run_scope_iff:
  assumes "agents_keyed (wdb_access db)" and "current_user_organization ctx = Some m"
    and "a \<in> set (agents (wdb_access db))" "agent_id a = aid" "holds_permission (wdb_access db) m (ctx_user ctx) AGENT_READ a"
  shows "run_scope db ctx aid False = Inr (scope_of m (ctx_user ctx) AGENT_READ)"
    and "holds_permission (wdb_access db) m (ctx_user ctx) AGENT_UPDATE a \<Longrightarrow>
      run_scope db ctx aid True = Inr (scope_of m (ctx_user ctx) AGENT_UPDATE)"
proof -
  have "require_visible (wdb_access db) ctx aid = Inr a" using require_visible_iff [OF assms(1)] assms by auto
  then show "run_scope db ctx aid False = Inr (scope_of m (ctx_user ctx) AGENT_READ)"
    using assms(2) by (simp add: run_scope_def authorization_scope_eq require_current_user_organization_def)
  assume "holds_permission (wdb_access db) m (ctx_user ctx) AGENT_UPDATE a"
  then have "require_action (wdb_access db) ctx aid AGENT_UPDATE no_action_permission = Inr a"
    using require_action_iff [OF assms(1)] assms by auto
  then show "run_scope db ctx aid True = Inr (scope_of m (ctx_user ctx) AGENT_UPDATE)"
    using assms(2) by (simp add: run_scope_def authorization_scope_eq require_current_user_organization_def)
qed

lemma permits_iff:
  assumes "catalogue_seeded db" "agents_keyed db" "current_user_organization ctx = Some m" "a \<in> set (agents db)"
    and "holds_permission db m (ctx_user ctx) AGENT_READ a"
  shows "permits db ctx a AGENT_UPDATE =
    Inr (holds_permission db m (ctx_user ctx) AGENT_UPDATE a \<and> api_key_access_mode ctx \<noteq> Some READ_ONLY)"
proof -
  have "agent_organization_id a = mem_organization_id m" "agent_deleted_at a = None"
    using assms(5) by (simp_all add: holds_permission_def)
  from allowed_actions_spec [OF assms(1-3) _ _ this, of "[a]"] assms(4)
  obtain acts where "allowed_actions db ctx [a] = Inr acts"
    "map_of acts (agent_id a) = Some (filter (\<lambda>p. holds_permission db m (ctx_user ctx) p a \<and>
      (api_key_access_mode ctx \<noteq> Some READ_ONLY \<or> p \<in> {AGENT_READ, ACTIVITY_READ, COST_READ})) AGENT_ACTION_PERMISSIONS)"
    by auto
  then show ?thesis by (auto simp: permits_def AGENT_ACTION_PERMISSIONS_def)
qed

lemma run_service_get_eq:
  assumes inv: "runs_inv db" and seeded: "catalogue_seeded (wdb_access db)" and keyed: "agents_keyed (wdb_access db)"
    and sees: "sees_run db ctx aid i m a r v"
  shows "run_service_get now db ctx aid i =
    Inr (read_row r v (holds_permission (wdb_access db) m (ctx_user ctx) AGENT_UPDATE a \<and> api_key_access_mode ctx \<noteq> Some READ_ONLY)
      (can_start_on a (archived_workflow_ids db [run_workflow_id r] \<noteq> [])) (fst (progress now db r)) (snd (progress now db r)))"
proof -
  note s = sees [unfolded sees_run_def]
  have runs: "distinct (map run_id (workflow_runs db))" using inv by (simp add: runs_inv_def)
  have "find (\<lambda>r. run_id r = i) (filter (\<lambda>r. (\<exists>w \<in> set (workflows db). wf_id w = run_workflow_id r \<and> wf_agent_id w = aid) \<and>
      holds_permission (wdb_access db) m (ctx_user ctx) AGENT_READ a) (workflow_runs db)) = Some r"
    using find_keyed_filter [OF runs] s by blast
  then have "run_get db i aid (scope_of m (ctx_user ctx) AGENT_READ) = Inr (Some (r, v))"
    using runs_scoped_holds [OF keyed, of a aid m "ctx_user ctx" AGENT_READ] s by (simp add: run_get_def)
  moreover have "run_scope db ctx aid False = Inr (scope_of m (ctx_user ctx) AGENT_READ)"
    using run_scope_iff(1) [OF keyed] s by blast
  moreover have "require_visible (wdb_access db) ctx aid = Inr a" using require_visible_iff [OF keyed] s by auto
  moreover have "permits (wdb_access db) ctx a AGENT_UPDATE =
      Inr (holds_permission (wdb_access db) m (ctx_user ctx) AGENT_UPDATE a \<and> api_key_access_mode ctx \<noteq> Some READ_ONLY)"
    using permits_iff [OF seeded keyed] s by blast
  ultimately show ?thesis
    by (simp add: run_service_get_def run_read_def split: prod.split)
qed

lemma run_service_get_sees:
  assumes keyed: "agents_keyed (wdb_access db)" and get: "run_service_get now db ctx aid i = Inr rd"
  shows "\<exists>m a v. sees_run db ctx aid i m a (rd_run rd) v"
proof -
  obtain scope where scope: "run_scope db ctx aid False = Inr scope" using get by (auto simp: run_service_get_def bind_result_Inr)
  then obtain a where a: "require_visible (wdb_access db) ctx aid = Inr a" by (auto simp: run_scope_def bind_result_Inr)
  then obtain m where m: "current_user_organization ctx = Some m" "a \<in> set (agents (wdb_access db))" "agent_id a = aid"
      "holds_permission (wdb_access db) m (ctx_user ctx) AGENT_READ a"
    using require_visible_iff [OF keyed] by auto
  have sc: "scope = scope_of m (ctx_user ctx) AGENT_READ" using scope run_scope_iff(1) [OF keyed m] by simp
  obtain r v where rv: "run_get db i aid scope = Inr (Some (r, v))"
    using get scope by (auto simp: run_service_get_def bind_result_Inr split: option.splits)
  have "rd_run rd = r"
    using get scope rv by (auto simp: run_service_get_def run_read_def read_row_def bind_result_Inr split: prod.splits)
  moreover have f: "find (\<lambda>r. run_id r = i) (filter (\<lambda>r. (\<exists>w \<in> set (workflows db). wf_id w = run_workflow_id r \<and> wf_agent_id w = aid) \<and>
      holds_permission (wdb_access db) m (ctx_user ctx) AGENT_READ a) (workflow_runs db)) = Some r"
    and "row_get ver_id (run_version_id r) (workflow_versions db) = Some v"
    using rv runs_scoped_holds [OF keyed m(2,3), of m "ctx_user ctx" AGENT_READ] by (auto simp: run_get_def sc split: option.splits)
  ultimately show ?thesis unfolding sees_run_def using m find_SomeD [OF f] by auto
qed

lemma dispatch_frame:
  "workflow_runs (fst (dispatch accepts now ids (db, queue))) = workflow_runs db"
  "workflow_attempts (fst (dispatch accepts now ids (db, queue))) = workflow_attempts db"
  "workflow_checkpoints (fst (dispatch accepts now ids (db, queue))) = workflow_checkpoints db"
  "workflow_versions (fst (dispatch accepts now ids (db, queue))) = workflow_versions db"
  "workflows (fst (dispatch accepts now ids (db, queue))) = workflows db"
  "wdb_access (fst (dispatch accepts now ids (db, queue))) = wdb_access db"
  by (simp_all add: dispatch_def split: prod.splits)

text \<open>
  What is offered can be done: when a read of a run offers to cancel it, cancelling it at
  the revision that was read (and no transaction in between) succeeds, and the run it
  answers with is being cancelled and offers no further action.
\<close>

theorem offered_cancel_works:
  assumes reach: "reachable db" and defs: "definitions_inv db"
    and seeded: "catalogue_seeded (wdb_access db)" and keyed: "agents_keyed (wdb_access db)"
    and get: "run_service_get now db ctx aid i = Inr rd" and offered: "ActCancel \<in> set (rd_allowed_actions rd)"
    and ids: "unused_ids new_ids db"
    and acc: "change_accepted (env_registry env) ((rd_run rd)\<lparr>run_state := RunCANCELLING, run_revision := run_revision (rd_run rd) + 1\<rparr>)"
  shows "\<exists>s rd'. run_service_cancel env new_ids accepts now aid i (run_revision (rd_run rd)) ctx (db, queue) = (s, Inr rd') \<and>
    run_id (rd_run rd') = i \<and> run_state (rd_run rd') = RunCANCELLING \<and> rd_allowed_actions rd' = []"
proof -
  let ?r = "rd_run rd" and ?u = "ctx_user ctx" and ?acc = "wdb_access db"
  note inv = reachable_inv [OF reach]
  obtain m a v where sees: "sees_run db ctx aid i m a ?r v" using run_service_get_sees [OF keyed get] by blast
  note s = sees [unfolded sees_run_def]
  obtain w where w: "w \<in> set (workflows db)" "wf_id w = run_workflow_id ?r" "wf_agent_id w = aid" using s by blast
  have rd: "rd = read_row ?r v (holds_permission ?acc m ?u AGENT_UPDATE a \<and> api_key_access_mode ctx \<noteq> Some READ_ONLY)
      (can_start_on a (archived_workflow_ids db [run_workflow_id ?r] \<noteq> [])) (fst (progress now db ?r)) (snd (progress now db ?r))"
    using run_service_get_eq [OF inv seeded keyed sees, of now] get by simp
  have "rd_allowed_actions rd = run_allowed_actions ?r (holds_permission ?acc m ?u AGENT_UPDATE a \<and> api_key_access_mode ctx \<noteq> Some READ_ONLY)
      (can_start_on a (archived_workflow_ids db [run_workflow_id ?r] \<noteq> []))"
    by (subst rd) (simp add: read_row_def)
  then have upd: "holds_permission ?acc m ?u AGENT_UPDATE a" and st: "run_state ?r \<notin> TERMINAL_STATES" "run_state ?r \<noteq> RunCANCELLING"
    using offered by (auto simp: run_allowed_actions_def split: if_splits)
  have scope: "run_scope db ctx aid True = Inr (scope_of m ?u AGENT_UPDATE)" using run_scope_iff(2) [OF keyed] s upd by blast
  have runs: "distinct (map run_id (workflow_runs db))" using inv by (simp add: runs_inv_def)
  have found: "find (\<lambda>r. run_id r = i) (filter (\<lambda>r. (\<exists>w \<in> set (workflows db). wf_id w = run_workflow_id r \<and> wf_agent_id w = aid) \<and>
      holds_permission ?acc m ?u AGENT_UPDATE a) (workflow_runs db)) = Some ?r"
    using find_keyed_filter [OF runs] s upd by blast
  let ?r1 = "?r\<lparr>run_state := RunCANCELLING, run_reason := Some CANCEL_REASON, run_revision := run_revision ?r + 1\<rparr>"
  have "\<exists>db1 dl. run_event env new_ids now ?r1 CANCEL_REQUESTED CANCEL_REASON db = Inr (db1, dl)"
  proof (rule run_event_total [OF _ ids])
    show "change_accepted (env_registry env) ?r1"
      using acc change_accepted_cong [of ?r1 "?r\<lparr>run_state := RunCANCELLING, run_revision := run_revision ?r + 1\<rparr>"] by simp
    show "row_get wf_id (run_workflow_id ?r1) (workflows db) = Some w"
      using w defs workflow_table.get_rows by (auto simp: definitions_inv_def)
    have "distinct (map agent_id (agents ?acc))" using keyed by (simp add: agents_keyed_def)
    then show "row_get agent_id (wf_agent_id w) (agents ?acc) = Some a"
      using s w(3) find_keyed [of agent_id "agents ?acc" aid "\<lambda>_. True" a] by (simp add: row_get_def)
  qed
  then obtain db1 dl where ev: "run_event env new_ids now ?r1 CANCEL_REQUESTED CANCEL_REASON db = Inr (db1, dl)" by blast
  note e = run_event_effect [OF ev]
  have cancel: "run_cancel env new_ids now i aid (scope_of m ?u AGENT_UPDATE) (run_revision ?r) db = Inr (db1, dl)"
    using found st ev runs_scoped_holds [OF keyed, of a aid m ?u AGENT_UPDATE] s
    by (simp add: run_cancel_def raise_if_def TERMINAL_STATES_def)
  define s1 where "s1 = dispatch accepts now dl (db1, queue)"
  let ?r2 = "?r1\<lparr>run_updated_at := now\<rparr>" and ?db2 = "fst s1"
  have frame: "workflow_runs ?db2 = row_put run_id ?r2 (workflow_runs db)" "workflow_versions ?db2 = workflow_versions db"
    "workflows ?db2 = workflows db" "wdb_access ?db2 = ?acc"
    using e by (simp_all add: s1_def dispatch_frame)
  have row: "row_get run_id i (workflow_runs db) = Some ?r" using s runs run_table.get_rows by auto
  have "run_moved db db1" using run_cancel_moved [OF inv cancel] .
  then have inv2: "runs_inv ?db2"
    using runs_inv_frame [of db1 ?db2] by (simp add: run_moved_def s1_def dispatch_frame)
  have "row_get run_id i (workflow_runs ?db2) = Some ?r2"
    unfolding frame using run_table.get_put_same [OF row] s by simp
  then have "sees_run ?db2 ctx aid i m a ?r2 v"
    using s run_table.get_in_rows [of i "workflow_runs ?db2"] by (auto simp: sees_run_def frame)
  from run_service_get_eq [OF inv2 _ _ this, of now] seeded keyed
  have get2: "\<exists>rd'. run_service_get now ?db2 ctx aid i = Inr rd' \<and> rd_run rd' = ?r2 \<and> rd_allowed_actions rd' = []"
    by (simp add: frame read_row_def run_allowed_actions_def TERMINAL_STATES_def)
  have "run_service_cancel env new_ids accepts now aid i (run_revision ?r) ctx (db, queue) = (s1, run_service_get now ?db2 ctx aid i)"
    using get scope cancel by (simp add: run_service_cancel_def s1_def Let_def)
  with get2 s show ?thesis by auto
qed

text \<open>The Owner of the small installation looks at the started run.\<close>

lemma demo_sees:
  assumes "wdb_access db = demo_db" "workflows db = [demo_workflow 1]" "workflow_runs db = [demo_run]"
    "workflow_versions db = [saved_version 31 0 30 1 (demo_draft 1) 1]"
  shows "sees_run db demo_owner 100 40 (demo_membership 1 7 OWNER) demo_agent_100 demo_run (saved_version 31 0 30 1 (demo_draft 1) 1)"
    and "holds_permission demo_db (demo_membership 1 7 OWNER) (ctx_user demo_owner) p demo_agent_100"
    and "definitions_inv db"
proof -
  show h: "holds_permission demo_db (demo_membership 1 7 OWNER) (ctx_user demo_owner) p demo_agent_100" for p
    by (simp add: holds_permission_def demo_membership_def demo_agent_def IMPLICIT_AGENT_OWNER_ROLES_def)
  show "definitions_inv db"
    using assms by (simp add: definitions_inv_def numbered_def versions_of_def version_total_def demo_workflow_def saved_version_def)
  have "current_user_organization demo_owner = Some (demo_membership 1 7 OWNER)" by (simp add: demo_owner_def demo_context_def)
  moreover have "demo_agent_100 \<in> set (agents demo_db)" "agent_id demo_agent_100 = 100" by (simp_all add: demo_db_def demo_agent_def)
  ultimately show "sees_run db demo_owner 100 40 (demo_membership 1 7 OWNER) demo_agent_100 demo_run (saved_version 31 0 30 1 (demo_draft 1) 1)"
    using assms h by (simp add: sees_run_def demo_workflow_def demo_run_def new_run_def demo_payload_create_def saved_version_def row_get_def)
qed

theorem offered_cancel_works_witness:
  "\<exists>db f s rd'. run_service_cancel demo_env f (\<lambda>_. True) 7 100 40 1 demo_owner (db, []) = (s, Inr rd') \<and>
    run_state (rd_run rd') = RunCANCELLING"
proof -
  obtain db ids where start: "run_start demo_env 40 demo_ids 5 30 100 (organization_scope 7) demo_payload_create 1 11 ''hermes'' None demo_saved
      = Inr (db, demo_run, ids)" and db: "workflow_runs db = [demo_run]" "wdb_access db = demo_db" "workflows db = [demo_workflow 1]"
    "workflow_versions db = [saved_version 31 0 30 1 (demo_draft 1) 1]"
    using demo_start by metis
  have reach: "reachable db" using reachable_step [OF demo_saved_reachable by_start [OF start]] .
  note sees = demo_sees [OF db(2,3,1,4)]
  have acc: "catalogue_seeded (wdb_access db)" "agents_keyed (wdb_access db)" using demo_seeded demo_keyed by (simp_all add: db)
  obtain rd where get: "run_service_get 7 db demo_owner 100 40 = Inr rd" and rd: "rd_run rd = demo_run" "ActCancel \<in> set (rd_allowed_actions rd)"
    using run_service_get_eq [OF reachable_inv [OF reach] acc sees(1), of 7] sees(2)
    by (auto simp: db read_row_def run_allowed_actions_def demo_owner_def demo_context_def demo_run_def new_run_def TERMINAL_STATES_def)
  obtain f where f: "unused_ids f db" using unused_ids_exist .
  have "change_accepted (env_registry demo_env) ((rd_run rd)\<lparr>run_state := RunCANCELLING, run_revision := run_revision (rd_run rd) + 1\<rparr>)"
    by (simp add: rd demo_env_def demo_change_accepted demo_run_def new_run_def)
  from offered_cancel_works [OF reach sees(3) acc get rd(2) f this, of "\<lambda>_. True" "[]"]
  have "\<exists>s rd'. run_service_cancel demo_env f (\<lambda>_. True) 7 100 40 1 demo_owner (db, []) = (s, Inr rd') \<and> run_state (rd_run rd') = RunCANCELLING"
    by (auto simp: rd demo_run_def new_run_def)
  then show ?thesis by blast
qed

theorem only_editors_run_workflows_witness:
  "\<exists>a \<in> set (agents demo_db). agent_id a = 100 \<and> caller_holds demo_db demo_owner AGENT_UPDATE a"
proof -
  obtain db ids where start: "run_start demo_env 40 demo_ids 5 30 100 (organization_scope 7) demo_payload_create 1 11 ''hermes'' None demo_saved
      = Inr (db, demo_run, ids)" and db: "workflow_runs db = [demo_run]"
    using demo_start by metis
  have acc: "wdb_access demo_saved = demo_db" by (simp add: demo_run_defs)
  have scope: "run_scope demo_saved demo_owner 100 True = Inr (organization_scope 7)"
    by (simp add: run_scope_def acc demo_owner_action demo_owner_scope)
  have w: "get_in_scope demo_saved 30 100 (organization_scope 7) = Inr (Some (demo_workflow 1))"
    using demo_get_in_scope [of 1]
    by (simp add: get_in_scope_def workflow_agent_in_def demo_saved_def demo_installation_def demo_definitions_def empty_definitions_def)
  have ex: "existing_start demo_env demo_saved 30 100 (organization_scope 7) demo_payload_create 1 None = Inr None"
    by (simp add: existing_start_def runs_scoped_def acc demo_scope_agent) (simp add: demo_run_defs)
  have v: "version_in_scope demo_saved 31 30 100 (organization_scope 7) = Inr (Some (saved_version 31 0 30 1 (demo_draft 1) 1))"
    using w by (simp add: version_in_scope_def get_in_scope_def acc demo_scope_agent)
      (simp add: demo_run_defs workflow_agent_in_def demo_db_def demo_agent_def)
  have valid: "validate_draft (demo_draft 1) = Inr (demo_draft 1)" "validate_inputs (demo_draft 1) [] = Inr ()"
    unfolding validate_draft_Inr
    by (simp_all add: demo_draft_def demo_step_def validate_step_def constrained_def strip_by_def white_space_def
        optional_text_def Let_def raise_if_def validate_inputs_def declared_inputs_def)
  have user: "user_id (ctx_user demo_owner) = 1" "require_current_user_organization demo_owner = Inr (demo_membership 1 7 OWNER)"
    "mem_id (demo_membership 1 7 OWNER) = 11"
    by (simp_all add: require_current_user_organization_def demo_owner_def demo_context_def demo_user_def demo_membership_def)
  have agent: "agent_status demo_agent_100 = RUNNING" "agent_type demo_agent_100 = ''hermes''" by (simp_all add: demo_agent_def)
  have "plan_start demo_env demo_saved demo_owner 100 30 demo_payload_create None = Inr (Fresh (organization_scope 7) ''hermes'' 11)"
    using scope w ex v valid by (simp add: plan_start_def user acc demo_owner_visible agent agent_runtime_def raise_if_def conflict_409_def
       demo_payload_create_def saved_version_def del: One_nat_def)
  with start have "workflow_runs (fst (fst (run_service_start demo_env 40 demo_ids (\<lambda>_. True) 5 100 30 demo_payload_create demo_owner (demo_saved, [])))) = [demo_run]"
    by (simp add: run_service_start_def start_run_def user Let_def dispatch_frame db del: One_nat_def)
  then have "fst (run_service_start demo_env 40 demo_ids (\<lambda>_. True) 5 100 30 demo_payload_create demo_owner (demo_saved, [])) \<noteq> (demo_saved, [])"
    by (auto simp: demo_saved_def demo_installation_def)
  from only_editors_run_workflows [OF _ disjI1 [OF this]] show ?thesis using demo_keyed unfolding acc by blast
qed

end
