(* ===== verification/Workflow_Controller.thy ===== *)
theory Workflow_Controller
  imports Workflow_Service
begin

text \<open>
  The controller that sends each step of a run to its Agent
  (\<open>api/domains/workflows/controller.py\<close>) and the operator pass that recovers missed wakeups
  (\<open>maintenance.py\<close>). One \<open>wake\<close> is a sequence of transactions and of HTTP requests to the
  Agent; between them other processes act. Their actions are the parameter \<open>ctl_others\<close>, the
  readings of the clock and the ids that the n-th transaction draws are \<open>ctl_clock\<close>,
  \<open>ctl_new_id\<close> and \<open>ctl_ids\<close>. The proxy of the cluster answers a request with a status or not at
  all (\<open>ctl_proxy\<close>), and \<open>ctl_decrypt\<close> is the decryption of a stored communication key.
\<close>

record trigger_request =
  tr_agent_id :: uuid
  tr_path :: string
  tr_key :: string
  tr_payload :: json

record controller_env =
  ctl_wf :: wf_env
  ctl_accepts :: "uuid \<Rightarrow> bool"
  ctl_clock :: "nat \<Rightarrow> datetime"
  ctl_new_id :: "nat \<Rightarrow> uuid"
  ctl_ids :: "nat \<Rightarrow> nat \<Rightarrow> uuid"
  ctl_others :: "nat \<Rightarrow> run_db \<Rightarrow> run_db"
  ctl_decrypt :: "string \<Rightarrow> string result"
  ctl_proxy :: "trigger_request \<Rightarrow> nat option"
  ctl_base_url :: string

definition STEPS_PATH :: string where
  "STEPS_PATH = ''/agent-triggers/v1/workflow-steps''"

definition TRANSIENT_REJECTIONS :: "nat set" where
  "TRANSIENT_REJECTIONS = {408, 409, 425, 429}"

text \<open>\<open>AgentRepository.get_by_id\<close>.\<close>

definition agent_get_by_id :: "access_db \<Rightarrow> uuid \<Rightarrow> agent option" where
  "agent_get_by_id db aid = find (\<lambda>a. agent_id a = aid \<and> agent_deleted_at a = None) (agents db)"

text \<open>\<open>_send\<close>: the request that goes out, if any, and the status; an Agent that cannot be reached has no status.\<close>

definition send_trigger ::
  "controller_env \<Rightarrow> run_db \<Rightarrow> workflow_run \<Rightarrow> string \<Rightarrow> json \<Rightarrow> trigger_request list \<times> nat option result" where
  "send_trigger env db r path payload =
    (case owning_agent_id db (run_workflow_id r) of
       Inl e \<Rightarrow> ([], Inl e)
     | Inr aid \<Rightarrow>
         (case Option.bind (agent_get_by_id (wdb_access db) aid) communication_key of
            None \<Rightarrow> ([], Inr None)
          | Some c \<Rightarrow>
              if c = [] then ([], Inr None)
              else
                (case ctl_decrypt env c of
                   Inl e \<Rightarrow> ([], Inl e)
                 | Inr key \<Rightarrow>
                     let q = \<lparr>tr_agent_id = aid, tr_path = path, tr_key = key, tr_payload = payload\<rparr> in ([q], Inr (ctl_proxy env q)))))"

text \<open>\<open>advance\<close> and the publication of what it has staged.\<close>

definition advance_and_dispatch :: "controller_env \<Rightarrow> nat \<Rightarrow> bool \<Rightarrow> uuid \<Rightarrow> sys \<Rightarrow> sys \<times> unit result" where
  "advance_and_dispatch env n stopped i = (\<lambda>(db, queue).
    (case advance (ctl_wf env) (ctl_new_id env n) (ctl_ids env n) (ctl_clock env n) stopped False None i db of
       Inl e \<Rightarrow> ((db, queue), Inl e)
     | Inr (db1, a, ids) \<Rightarrow> (dispatch (ctl_accepts env) (ctl_clock env n) ids (db1, queue), Inr ())))"

text \<open>What other processes do while the controller is between two transactions.\<close>

definition meanwhile :: "controller_env \<Rightarrow> nat \<Rightarrow> sys \<Rightarrow> sys" where
  "meanwhile env n = (\<lambda>(db, queue). (ctl_others env n db, queue))"

type_synonym wake_result = "sys \<times> trigger_request list \<times> unit result"

text \<open>The branch of a stopping attempt: tell the Agent if it has the step, then record the stop.\<close>

definition wake_stop :: "controller_env \<Rightarrow> uuid \<Rightarrow> workflow_run \<Rightarrow> workflow_attempt \<Rightarrow> sys \<Rightarrow> wake_result" where
  "wake_stop env i r a s =
    (case (if att_dispatched_at a \<noteq> None
           then send_trigger env (fst s) r (STEPS_PATH @ ''/'' @ uuid_str (att_id a) @ ''/stop'') (JObj []) else ([], Inr None)) of
       (sent, Inl e) \<Rightarrow> (s, sent, Inl e)
     | (sent, Inr status) \<Rightarrow>
         (case advance_and_dispatch env 3 True i (meanwhile env 2 s) of (s1, out) \<Rightarrow> (s1, sent, out)))"

definition step_payload :: "controller_env \<Rightarrow> workflow_attempt \<Rightarrow> json" where
  "step_payload env a =
    JObj [(KStr ''attempt_id'', JStr (uuid_str (att_id a))),
      (KStr ''token'', JStr (env_token (ctl_wf env) (att_id a))),
      (KStr ''callback_url'',
        JStr (rev (dropWhile (\<lambda>c. c = CHR ''/'') (rev (ctl_base_url env))) @ ''/attempts/'' @ uuid_str (att_id a)))]"

text \<open>A refusal that is not going to go away, from an Agent that had time to start.\<close>

definition refused :: "datetime \<Rightarrow> workflow_attempt \<Rightarrow> nat \<Rightarrow> bool" where
  "refused now a status \<longleftrightarrow> 400 \<le> status \<and> status < 500 \<and> status \<notin> TRANSIENT_REJECTIONS \<and>
    seconds DISPATCH_GRACE_SECONDS < now - att_created_at a"

definition refusal :: "nat \<Rightarrow> attempt_failure" where
  "refusal status =
    \<lparr>fail_reason = ''The Agent did not accept the step (HTTP '' @ nat_str status @ '')'', fail_needs_attention = False,
     fail_retryable = False\<rparr>"

definition wake_send :: "controller_env \<Rightarrow> workflow_run \<Rightarrow> workflow_attempt \<Rightarrow> sys \<Rightarrow> wake_result" where
  "wake_send env r a s =
    (case send_trigger env (fst s) r STEPS_PATH (step_payload env a) of
       (sent, Inl e) \<Rightarrow> (s, sent, Inl e)
     | (sent, Inr None) \<Rightarrow> (meanwhile env 2 s, sent, Inr ())
     | (sent, Inr (Some status)) \<Rightarrow>
         (case meanwhile env 2 s of
            (db, queue) \<Rightarrow>
              if status \<in> {202, 409} then ((mark_dispatched (ctl_clock env 3) (att_id a) db, queue), sent, Inr ())
              else if refused (ctl_clock env 3) a status then
                (case run_service_failure (ctl_wf env) (ctl_new_id env 4) (ctl_ids env 4) (ctl_ids env 5) (ctl_accepts env)
                    (ctl_clock env 4) (ctl_clock env 5) (att_id a) (env_token (ctl_wf env) (att_id a)) (refusal status) (db, queue) of
                   (s1, out) \<Rightarrow> (s1, sent, out))
              else ((db, queue), sent, Inr ())))"

definition may_send :: "datetime \<Rightarrow> workflow_run \<Rightarrow> workflow_attempt \<Rightarrow> bool" where
  "may_send now r a \<longleftrightarrow>
    \<not> (att_state a \<noteq> AttREASONING \<or> run_state r \<noteq> RunRUNNING \<or> att_dispatched_at a \<noteq> None \<or> att_expires_at a \<le> now)"

text \<open>\<open>wake\<close>.\<close>

definition wake :: "controller_env \<Rightarrow> uuid \<Rightarrow> sys \<Rightarrow> wake_result" where
  "wake env i s0 =
    (case run_inspect (fst s0) i of
       None \<Rightarrow> (s0, [], Inr ())
     | Some (r0, a0) \<Rightarrow>
         if run_state r0 \<in> TERMINAL_STATES then (s0, [], Inr ())
         else
           (case advance_and_dispatch env 1 False i (meanwhile env 0 s0) of
              (s1, Inl e) \<Rightarrow> (s1, [], Inl e)
            | (s1, Inr _) \<Rightarrow>
                let s = meanwhile env 1 s1 in
                (case (case run_inspect (fst s) i of None \<Rightarrow> (r0, a0) | Some found \<Rightarrow> found) of
                   (r, None) \<Rightarrow> (s, [], Inr ())
                 | (r, Some a) \<Rightarrow>
                     if att_state a = AttSTOPPING then wake_stop env i r a s
                     else if \<not> may_send (ctl_clock env 2) r a then (s, [], Inr ())
                     else wake_send env r a s)))"

section \<open>The operator pass\<close>

text \<open>\<open>maintenance.main\<close>: every wake has its own environment; what a wake raises is logged and the pass goes on.\<close>

fun wake_all :: "(nat \<Rightarrow> controller_env) \<Rightarrow> nat \<Rightarrow> uuid list \<Rightarrow> sys \<Rightarrow> sys" where
  "wake_all envs n [] s = s"
| "wake_all envs n (i # is) s = wake_all envs (Suc n) is (fst (wake (envs n) i s))"

definition maintenance_main :: "(nat \<Rightarrow> controller_env) \<Rightarrow> datetime \<Rightarrow> sys \<Rightarrow> sys" where
  "maintenance_main envs now s =
    (case wake_all envs 0 (active_ids 100 (fst s)) s of (db, queue) \<Rightarrow> (expire_content now 100 db, queue))"

section \<open>The controller only makes steps of the runs\<close>

text \<open>
  What the controller relies on: other processes act on runs through the transactions of the
  repository, and the deletions among their actions take no workflow outside \<open>W\<close> along.
\<close>

definition others_ok :: "uuid set \<Rightarrow> controller_env \<Rightarrow> bool" where
  "others_ok W env \<longleftrightarrow> (\<forall>n db. (change_step W)\<^sup>*\<^sup>* db (ctl_others env n db))"

lemma meanwhile_steps: "others_ok W env \<Longrightarrow> (change_step W)\<^sup>*\<^sup>* (fst s) (fst (meanwhile env n s))"
  by (simp add: others_ok_def meanwhile_def split: prod.splits)

lemma dispatch_step: "run_step (fst s) (fst (dispatch accepts now ids s))"
  by (cases s) (auto intro: by_others simp: dispatch_frame)

lemma advance_and_dispatch_steps: "run_step\<^sup>*\<^sup>* (fst s) (fst (fst (advance_and_dispatch env n stopped i s)))"
proof (cases s)
  case (Pair db queue)
  show ?thesis
  proof (cases "advance (ctl_wf env) (ctl_new_id env n) (ctl_ids env n) (ctl_clock env n) stopped False None i db")
    case (Inr out)
    obtain db1 a ids where out: "out = (db1, a, ids)" by (cases out)
    have "run_step db db1" using Inr unfolding out by (rule by_advance)
    moreover have "run_step db1 (fst (dispatch (ctl_accepts env) (ctl_clock env n) ids (db1, queue)))"
      using dispatch_step [of "(db1, queue)"] by simp
    ultimately show ?thesis using Inr by (simp add: advance_and_dispatch_def Pair out)
  qed (simp add: advance_and_dispatch_def Pair)
qed

lemma failure_steps:
  "run_step\<^sup>*\<^sup>* (fst s) (fst (fst (run_service_failure env new_id f g accepts now later i token x s)))"
proof (cases s)
  case (Pair db queue)
  have fail: "run_step\<^sup>*\<^sup>* db (fst (fail env new_id f g now later i token x db))"
    by (auto simp: fail_def split: sum.splits prod.splits intro: r_into_rtranclp by_failure
        rtranclp.rtrancl_into_rtrancl [OF r_into_rtranclp [of run_step, OF by_failure] by_advance])
  obtain db1 out where f: "fail env new_id f g now later i token x db = (db1, out)" by fastforce
  show ?thesis
    using fail f dispatch_step [of "(db1, queue)" accepts later]
    by (cases out) (auto simp: run_service_failure_def Pair intro: rtranclp.rtrancl_into_rtrancl)
qed

lemmas advance_and_dispatch_changes = run_steps_change [OF advance_and_dispatch_steps]

lemma wake_stop_steps:
  assumes "others_ok W env" shows "(change_step W)\<^sup>*\<^sup>* (fst s) (fst (fst (wake_stop env i r a s)))"
proof -
  have "(change_step W)\<^sup>*\<^sup>* (fst s) (fst (fst (advance_and_dispatch env 3 True i (meanwhile env 2 s))))"
    using rtranclp_trans [OF meanwhile_steps [OF assms] advance_and_dispatch_changes] .
  then show ?thesis unfolding wake_stop_def by (auto split: prod.splits sum.splits)
qed

lemma wake_send_steps:
  assumes "others_ok W env" shows "(change_step W)\<^sup>*\<^sup>* (fst s) (fst (fst (wake_send env r a s)))"
proof -
  obtain db queue where m: "meanwhile env 2 s = (db, queue)" by fastforce
  have base: "(change_step W)\<^sup>*\<^sup>* (fst s) db" using meanwhile_steps [OF assms, of s 2] by (simp add: m)
  have "(change_step W)\<^sup>*\<^sup>* (fst s) (mark_dispatched t j db)" for t j
    using base by_transaction [OF by_dispatch] by (rule rtranclp.rtrancl_into_rtrancl)
  moreover have "(change_step W)\<^sup>*\<^sup>* (fst s) (fst (fst (run_service_failure (ctl_wf env) x f g accepts t t' j token y (db, queue))))"
    for x f g accepts t t' j token y
    using rtranclp_trans [OF base] run_steps_change [OF failure_steps [of "(db, queue)"]] by simp
  then have "(change_step W)\<^sup>*\<^sup>* (fst s) db1"
    if "run_service_failure (ctl_wf env) x f g accepts t t' j token y (db, queue) = ((db1, q1), out)" for x f g accepts t t' j token y db1 q1 out
    using that by (metis fst_conv)
  ultimately show ?thesis using base unfolding wake_send_def m by (auto simp: m split: prod.splits sum.splits option.splits)
qed

lemma wake_steps:
  assumes "others_ok W env" shows "(change_step W)\<^sup>*\<^sup>* (fst s) (fst (fst (wake env i s)))"
proof -
  obtain s1 out where a: "advance_and_dispatch env 1 False i (meanwhile env 0 s) = (s1, out)" by fastforce
  have s1: "(change_step W)\<^sup>*\<^sup>* (fst s) (fst s1)"
    using rtranclp_trans [OF meanwhile_steps [OF assms, of s 0] advance_and_dispatch_changes [of _ "meanwhile env 0 s" env 1 False i]]
    by (simp add: a del: One_nat_def)
  then have s2: "(change_step W)\<^sup>*\<^sup>* (fst s) (fst (meanwhile env 1 s1))" using meanwhile_steps [OF assms] by (rule rtranclp_trans)
  note more = rtranclp_trans [OF s2 wake_stop_steps [OF assms]] rtranclp_trans [OF s2 wake_send_steps [OF assms]]
  show ?thesis using s1 s2 more unfolding wake_def a Let_def by (auto split: option.split sum.split prod.split)
qed

lemma wake_all_steps: "(\<And>n. others_ok W (envs n)) \<Longrightarrow> (change_step W)\<^sup>*\<^sup>* (fst s) (fst (wake_all envs n is s))"
  by (induction envs n "is" s rule: wake_all.induct) (auto intro: rtranclp_trans [OF wake_steps])

text \<open>
  C34. The operator pass is safe under interference: whatever other processes do between its
  transactions (through the transactions of the repository, deletions of users, memberships, Agents and
  Organizations included), a pass of the controller over the active runs leaves a reachable
  state, so that the guarantees on runs hold after it; and no run has lost its identity, its
  progress or its outcome unless its workflow (in \<open>W\<close>) was deleted meanwhile. The pass itself
  deletes none: without deletions (\<open>W\<close> empty) every run is kept.
\<close>

theorem maintenance_is_safe:
  assumes "reachable db" and "\<And>n. others_ok W (envs n)"
  shows "reachable (fst (maintenance_main envs now (db, queue))) \<and>
    rows_later_outside W db (fst (maintenance_main envs now (db, queue)))"
proof -
  obtain db1 q1 where w: "wake_all envs 0 (active_ids 100 db) (db, queue) = (db1, q1)" by fastforce
  have "(change_step W)\<^sup>*\<^sup>* db (expire_content now 100 db1)"
    using wake_all_steps [of W envs "(db, queue)" 0 "active_ids 100 db", OF assms(2)]
      rtranclp.rtrancl_into_rtrancl [of "change_step W" db db1, OF _ by_transaction [OF by_retention]]
    by (simp add: w)
  then show ?thesis
    using reachable_changes [OF assms(1)] change_steps_kept [OF _ reachable_inv [OF assms(1)]]
    by (simp add: maintenance_main_def w)
qed

section \<open>When a step is sent\<close>

lemma run_kept:
  assumes "runs_inv db" "(change_step W)\<^sup>*\<^sup>* db db'" "row_get run_id i (workflow_runs db) = Some r" "run_workflow_id r \<notin> W"
  shows "\<exists>r'. row_get run_id i (workflow_runs db') = Some r'"
  using change_steps_kept [OF assms(2,1)] assms(3,4) unfolding rows_later_outside_def by blast

lemma wake_sent:
  assumes others: "others_ok W env" and inv: "runs_inv db" and w: "wake env i (db, queue) = (s', sent, out)" and "sent \<noteq> []"
    and own: "\<And>r. row_get run_id i (workflow_runs db) = Some r \<Longrightarrow> run_workflow_id r \<notin> W"
  obtains db1 q1 r a where "(change_step W)\<^sup>*\<^sup>* db db1" "row_get run_id i (workflow_runs db1) = Some r" "current_attempt db1 r = Some a"
    "att_state a = AttSTOPPING \<and> wake_stop env i r a (db1, q1) = (s', sent, out) \<or>
     may_send (ctl_clock env 2) r a \<and> wake_send env r a (db1, q1) = (s', sent, out)"
proof -
  obtain s1 o1 where a: "advance_and_dispatch env 1 False i (meanwhile env 0 (db, queue)) = (s1, o1)" by fastforce
  obtain db1 q1 where m: "meanwhile env 1 s1 = (db1, q1)" by fastforce
  have s1: "(change_step W)\<^sup>*\<^sup>* db (fst s1)"
    using rtranclp_trans [OF meanwhile_steps [OF others, of "(db, queue)" 0]
        advance_and_dispatch_changes [of _ "meanwhile env 0 (db, queue)" env 1 False i]] by (simp add: a del: One_nat_def)
  have steps: "(change_step W)\<^sup>*\<^sup>* db db1" using rtranclp_trans [OF s1 meanwhile_steps [OF others, of s1 1]] by (simp add: m del: One_nat_def)
  obtain r0 where r0: "row_get run_id i (workflow_runs db) = Some r0" and st: "run_state r0 \<notin> TERMINAL_STATES"
    using w assms(4) by (auto simp: wake_def run_inspect_def split: option.splits if_splits)
  obtain r where r: "row_get run_id i (workflow_runs db1) = Some r" using run_kept [OF inv steps r0 own [OF r0]] by blast
  have "o1 = Inr ()" using w assms(4) r0 st by (cases o1) (simp_all add: wake_def run_inspect_def a del: One_nat_def)
  then have w1: "(case current_attempt db1 r of None \<Rightarrow> ((db1, q1), [], Inr ())
      | Some a \<Rightarrow> if att_state a = AttSTOPPING then wake_stop env i r a (db1, q1)
          else if \<not> may_send (ctl_clock env 2) r a then ((db1, q1), [], Inr ()) else wake_send env r a (db1, q1)) = (s', sent, out)"
    using w r0 st r unfolding wake_def a Let_def by (auto simp: run_inspect_def m simp del: One_nat_def split: option.splits if_splits)
  then obtain a where "current_attempt db1 r = Some a" using assms(4) by (cases "current_attempt db1 r") auto
  with w1 show thesis using assms(4) by (intro that [OF steps r]) (auto split: if_splits)
qed

lemma send_trigger_sent:
  assumes "send_trigger env db r path payload = (sent, out)" "sent \<noteq> []"
  shows "\<exists>w a c key. get_workflow_one db (run_workflow_id r) = Inr w \<and> a \<in> set (agents (wdb_access db)) \<and> agent_id a = wf_agent_id w \<and>
    agent_deleted_at a = None \<and> communication_key a = Some c \<and> ctl_decrypt env c = Inr key \<and>
    sent = [\<lparr>tr_agent_id = agent_id a, tr_path = path, tr_key = key, tr_payload = payload\<rparr>] \<and> out = Inr (ctl_proxy env (hd sent))"
proof -
  obtain aid where aid: "owning_agent_id db (run_workflow_id r) = Inr aid"
    using assms by (cases "owning_agent_id db (run_workflow_id r)") (auto simp: send_trigger_def)
  then obtain w where w: "get_workflow_one db (run_workflow_id r) = Inr w" "aid = wf_agent_id w"
    by (auto simp: owning_agent_id_def bind_result_Inr)
  obtain a c where a: "agent_get_by_id (wdb_access db) aid = Some a" "communication_key a = Some c" "c \<noteq> []"
    using assms aid by (auto simp: send_trigger_def bind_eq_Some_conv split: option.splits if_splits)
  obtain key where "ctl_decrypt env c = Inr key" using assms aid a by (cases "ctl_decrypt env c") (auto simp: send_trigger_def)
  moreover have "a \<in> set (agents (wdb_access db))" "agent_id a = aid" "agent_deleted_at a = None"
    using find_SomeD [OF a(1) [unfolded agent_get_by_id_def]] by auto
  ultimately show ?thesis using assms(1) aid a w by (auto simp: send_trigger_def Let_def)
qed

lemma marked_dispatched:
  assumes "row_get att_id i (workflow_attempts (mark_dispatched now i db)) = Some a"
  shows "att_dispatched_at a \<noteq> None"
proof (cases "row_get att_id i (workflow_attempts db)")
  case (Some b)
  have "row_get att_id i (row_put att_id (b\<lparr>att_dispatched_at := Some now\<rparr>) (workflow_attempts db)) = Some (b\<lparr>att_dispatched_at := Some now\<rparr>)"
    using attempt_table.get_put_same [OF Some, of "b\<lparr>att_dispatched_at := Some now\<rparr>"] attempt_table.get_in_rows [OF Some] by simp
  with assms Some show ?thesis by (auto simp: mark_dispatched_def put_attempt_def split: if_splits)
qed (use assms in \<open>simp add: mark_dispatched_def\<close>)

text \<open>
  C8. A step is sent only when it is due, and only to its Agent: when a wake sends a step,
  then (in a state after the actions of other processes) the run is running, the attempt
  is its current one, is reasoning, has not been accepted by the Agent and has not expired; the
  request carries the id and the token of that attempt, goes to the live Agent that owns the
  workflow under that Agent's key, and is the only request of this wake. If the Agent accepts
  it or already holds it, the attempt is recorded as dispatched. Other processes may do anything
  in between except delete the workflow of this run (the deletions take along only workflows in \<open>W\<close>).
\<close>

theorem step_sent_only_when_due:
  assumes "reachable db" and "others_ok W env"
    and "wake env i (db, queue) = (s', sent, out)" and "q \<in> set sent" "tr_path q = STEPS_PATH"
    and own: "\<And>r. row_get run_id i (workflow_runs db) = Some r \<Longrightarrow> run_workflow_id r \<notin> W"
  shows "\<exists>db1 r a w ag. (change_step W)\<^sup>*\<^sup>* db db1 \<and> row_get run_id i (workflow_runs db1) = Some r \<and> run_state r = RunRUNNING \<and>
    a \<in> set (workflow_attempts db1) \<and> att_run_id a = i \<and> att_generation a = run_generation r \<and> att_state a = AttREASONING \<and>
    att_dispatched_at a = None \<and> ctl_clock env 2 < att_expires_at a \<and>
    get_workflow_one db1 (run_workflow_id r) = Inr w \<and> ag \<in> set (agents (wdb_access db1)) \<and> agent_id ag = wf_agent_id w \<and>
    agent_deleted_at ag = None \<and> map_option (ctl_decrypt env) (communication_key ag) = Some (Inr (tr_key q)) \<and>
    sent = [q] \<and> tr_agent_id q = agent_id ag \<and> tr_payload q = step_payload env a \<and>
    (ctl_proxy env q \<in> {Some 202, Some 409} \<longrightarrow>
      (\<forall>a'. row_get att_id (att_id a) (workflow_attempts (fst s')) = Some a' \<longrightarrow> att_dispatched_at a' \<noteq> None))"
proof -
  have "sent \<noteq> []" using assms(4) by auto
  with wake_sent [OF assms(2) reachable_inv [OF assms(1)] assms(3) _ own] obtain db1 q1 r a where
    db1: "(change_step W)\<^sup>*\<^sup>* db db1" "row_get run_id i (workflow_runs db1) = Some r" "current_attempt db1 r = Some a"
    and branch: "att_state a = AttSTOPPING \<and> wake_stop env i r a (db1, q1) = (s', sent, out) \<or>
      may_send (ctl_clock env 2) r a \<and> wake_send env r a (db1, q1) = (s', sent, out)" by metis
  have "wake_stop env i r a (db1, q1) \<noteq> (s', sent, out)"
  proof
    assume "wake_stop env i r a (db1, q1) = (s', sent, out)"
    then obtain o1 where "send_trigger env db1 r (STEPS_PATH @ ''/'' @ uuid_str (att_id a) @ ''/stop'') (JObj []) = (sent, o1)"
      using \<open>sent \<noteq> []\<close> by (auto simp: wake_stop_def split: if_splits prod.splits sum.splits)
    from send_trigger_sent [OF this \<open>sent \<noteq> []\<close>] assms(4,5) show False by auto
  qed
  with branch have may: "may_send (ctl_clock env 2) r a" and send: "wake_send env r a (db1, q1) = (s', sent, out)" by auto
  obtain o1 where o1: "send_trigger env db1 r STEPS_PATH (step_payload env a) = (sent, o1)"
    using send by (auto simp: wake_send_def split: prod.splits sum.splits option.splits if_splits)
  from send_trigger_sent [OF this \<open>sent \<noteq> []\<close>] obtain w ag c key where
    w: "get_workflow_one db1 (run_workflow_id r) = Inr w" "ag \<in> set (agents (wdb_access db1))" "agent_id ag = wf_agent_id w"
      "agent_deleted_at ag = None" "communication_key ag = Some c" "ctl_decrypt env c = Inr key"
    and sent: "sent = [\<lparr>tr_agent_id = agent_id ag, tr_path = STEPS_PATH, tr_key = key, tr_payload = step_payload env a\<rparr>]"
    and out: "o1 = Inr (ctl_proxy env (hd sent))" by blast
  have q: "sent = [q]" using assms(4) sent by simp
  have cur: "a \<in> set (workflow_attempts db1)" "att_run_id a = i" "att_generation a = run_generation r"
    using find_SomeD [OF db1(3) [unfolded current_attempt_def]] run_table.get_in_rows [OF db1(2)] by auto
  have "\<forall>a'. row_get att_id (att_id a) (workflow_attempts (fst s')) = Some a' \<longrightarrow> att_dispatched_at a' \<noteq> None"
    if "ctl_proxy env q \<in> {Some 202, Some 409}"
  proof -
    have "s' = (mark_dispatched (ctl_clock env 3) (att_id a) (ctl_others env 2 db1), q1)"
      using send o1 out that by (auto simp: wake_send_def q meanwhile_def)
    then show ?thesis using marked_dispatched by auto
  qed
  moreover have "run_state r = RunRUNNING" "att_state a = AttREASONING" "att_dispatched_at a = None" "ctl_clock env 2 < att_expires_at a"
    using may by (auto simp: may_send_def)
  moreover have "tr_agent_id q = agent_id ag" "tr_payload q = step_payload env a" "tr_key q = key" using q sent by auto
  ultimately show ?thesis using db1(1,2) cur w q
    by (intro exI [of _ db1] exI [of _ r] exI [of _ a] exI [of _ w] exI [of _ ag]) simp
qed

text \<open>A controller nobody interferes with, whose Agent answers every request in the same way.\<close>

definition demo_controller :: "(nat \<Rightarrow> uuid) \<Rightarrow> nat option \<Rightarrow> controller_env" where
  "demo_controller f status =
    \<lparr>ctl_wf = demo_env, ctl_accepts = (\<lambda>_. True), ctl_clock = (\<lambda>_. 7), ctl_new_id = (\<lambda>n. 70 + n), ctl_ids = (\<lambda>_. f),
     ctl_others = (\<lambda>_ db. db), ctl_decrypt = Inr, ctl_proxy = (\<lambda>_. status), ctl_base_url = ''http://barn/''\<rparr>"

lemma demo_controller_ok: "others_ok W (demo_controller f status)"
  by (simp add: others_ok_def demo_controller_def)

theorem maintenance_is_safe_witness:
  "\<exists>db. reachable db \<and> reachable (fst (maintenance_main (\<lambda>_. demo_controller demo_ids None) 9 (db, [])))"
  using maintenance_is_safe [OF demo_saved_reachable, of UNIV "\<lambda>_. demo_controller demo_ids None" 9 "[]"] demo_controller_ok
    demo_saved_reachable by blast

theorem step_sent_only_when_due_witness:
  "\<exists>db s' q out. reachable db \<and> wake (demo_controller demo_ids (Some 202)) 40 (db, []) = (s', [q], out) \<and>
    tr_path q = STEPS_PATH \<and> tr_agent_id q = 100 \<and> tr_key q = ''k'' \<and>
    (\<exists>db1 r. (change_step {31})\<^sup>*\<^sup>* db db1 \<and> row_get run_id 40 (workflow_runs db1) = Some r \<and> run_state r = RunRUNNING)"
proof -
  let ?env = "demo_controller demo_ids (Some 202)"
  let ?r = "demo_run\<lparr>run_generation := 1, run_state := RunRUNNING, run_revision := 2, run_updated_at := 6\<rparr>"
  let ?a = "new_attempt demo_env 60 6 (demo_run\<lparr>run_generation := 1\<rparr>)"
  obtain db where db: "reachable db" "workflow_attempts db = [?a]" "workflow_runs db = [?r]"
    "workflows db = [demo_workflow 1]" "wdb_access db = demo_db" using demo_first_attempt by metis
  have run: "run_id demo_run = 40" "run_workflow_id demo_run = 30"
    "run_initiating_membership_id demo_run = Some 11" "run_initiating_user_id demo_run = Some 1"
    by (simp_all add: demo_run_defs)
  have att: "att_state ?a = AttREASONING" "att_dispatched_at ?a = None" "att_run_id ?a = 40" "att_generation ?a = 1" "7 < att_expires_at ?a"
    by (simp_all add: new_attempt_def run ATTEMPT_TIMEOUT_SECONDS_def seconds_def)
  have cur: "current_attempt db ?r = Some ?a" using att by (simp add: current_attempt_def db run)
  have wf: "get_workflow_one db 30 = Inr (demo_workflow 1)" by (simp add: db get_workflow_one_def row_get_def demo_workflow_def)
  have agent: "row_get agent_id 100 (agents demo_db) = Some demo_agent_100" "agent_deleted_at demo_agent_100 = None"
    "communication_key demo_agent_100 = Some ''k''" "wf_agent_id (demo_workflow 1) = 100"
    using demo_agent_row by (simp_all add: demo_agent_def demo_workflow_def)
  have "observed_run db (demo_workflow 1) ?r = ?r" using agent by (simp add: observed_run_def db)
  moreover have "authorized db ?r = Inr True" by (rule demo_authorized) (simp_all add: db run)
  ultimately have adv: "advance demo_env x f 7 False False None 40 db = Inr (db, Some ?a, [])" for x f
    using wf cur att by (simp add: advance_def db(3) run row_get_def TERMINAL_STATES_def paused_unless_def attempt_expired_def Let_def is_active_def)
  have aad: "advance_and_dispatch ?env 1 False 40 (db, []) = ((db, []), Inr ())"
    using adv by (simp add: advance_and_dispatch_def demo_controller_def dispatch_def)
  have ins: "run_inspect db 40 = Some (?r, Some ?a)" using cur by (simp add: run_inspect_def db(3) row_get_def run)
  have "agent_get_by_id demo_db 100 = Some demo_agent_100" by (simp add: agent_get_by_id_def demo_db_def demo_agent_def)
  then have "send_trigger ?env db ?r STEPS_PATH (step_payload ?env ?a) =
      ([\<lparr>tr_agent_id = 100, tr_path = STEPS_PATH, tr_key = ''k'', tr_payload = step_payload ?env ?a\<rparr>], Inr (Some 202))"
    using wf agent by (simp add: send_trigger_def owning_agent_id_def run db(5)) (simp add: demo_controller_def)
  then obtain s' q out where w: "wake ?env 40 (db, []) = (s', [q], out)" and q: "tr_path q = STEPS_PATH" "tr_key q = ''k''" "tr_agent_id q = 100"
    using ins aad att by (auto simp: wake_def meanwhile_def wake_send_def may_send_def TERMINAL_STATES_def Let_def demo_controller_def simp del: One_nat_def)
  have own: "run_workflow_id r \<notin> {31}" if "row_get run_id 40 (workflow_runs db) = Some r" for r
    using that by (simp add: db(3) row_get_def run split: if_splits) (auto simp: run)
  from step_sent_only_when_due [OF db(1) demo_controller_ok w _ q(1) own] have "\<exists>db1 r. (change_step {31})\<^sup>*\<^sup>* db db1 \<and> row_get run_id 40 (workflow_runs db1) = Some r \<and> run_state r = RunRUNNING"
    by simp blast
  then show ?thesis using db(1) w q by blast
qed

section \<open>One wake finishes a cancellation\<close>

lemma dispatch_nothing [simp]: "dispatch accepts now [] s = s"
  by (cases s) (simp add: dispatch_def)

lemma dispatch_artifacts: "wdb_artifacts (fst (dispatch accepts now ids (db, queue))) = wdb_artifacts db"
  by (simp add: dispatch_def split: prod.splits)

text \<open>The outcome of a cancellation.\<close>

definition cancelled :: "datetime \<Rightarrow> uuid \<Rightarrow> run_db \<Rightarrow> bool" where
  "cancelled now i db \<longleftrightarrow>
    (\<exists>r. row_get run_id i (workflow_runs db) = Some r \<and> run_state r = RunCANCELLED \<and> run_settled_at r = Some now) \<and>
    \<not> live (run_attempts db i) \<and> open_references (wdb_artifacts db) ''run'' i = []"

lemma cancelled_dispatch: "cancelled now i (fst (dispatch accepts t ids (db, queue))) \<longleftrightarrow> cancelled now i db"
  by (simp add: cancelled_def dispatch_frame dispatch_artifacts run_attempts_def)

lemma advance_settles:
  assumes "runs_inv db" and "row_get run_id i (workflow_runs db) = Some r" "run_state r = RunCANCELLING"
    and "row_get wf_id (run_workflow_id r) (workflows db) = Some w"
    and "row_get agent_id (wf_agent_id w) (agents (wdb_access db)) = Some a"
    and "artifacts_ok (wdb_artifacts db)" and "unused_ids (ctl_ids env n) db"
    and "change_accepted (env_registry (ctl_wf env)) (r\<lparr>run_state := RunCANCELLED, run_revision := run_revision r + 1\<rparr>)"
    and "stopped \<or> \<not> (case current_attempt db r of None \<Rightarrow> False | Some a \<Rightarrow> is_active a)"
  shows "\<exists>s. advance_and_dispatch env n stopped i (db, queue) = (s, Inr ()) \<and> cancelled (ctl_clock env n) i (fst s)"
proof -
  obtain db' dl r' where adv: "advance (ctl_wf env) (ctl_new_id env n) (ctl_ids env n) (ctl_clock env n) stopped False None i db = Inr (db', None, dl)"
    and "row_get run_id i (workflow_runs db') = Some r'" "run_state r' = RunCANCELLED" "run_settled_at r' = Some (ctl_clock env n)"
      "\<not> live (run_attempts db' i)" "open_references (wdb_artifacts db') ''run'' i = []"
    using cancelling_settles [OF assms(1-3,9,4-8), of "ctl_new_id env n" "ctl_clock env n" False None] by blast
  then show ?thesis by (simp add: advance_and_dispatch_def cancelled_dispatch) (simp add: cancelled_def)
qed

lemma current_last:
  assumes "runs_inv db" "row_get run_id i (workflow_runs db) = Some r"
  shows "current_attempt db r = (if run_attempts db i = [] then None else Some (last (run_attempts db i)))"
proof -
  obtain v where "run_id r = i" "run_ok (step_total v) r (run_attempts db i) (checkpoint_steps db i)"
    using runs_inv_row [OF assms] .
  then show ?thesis using current_attempt_live [of "step_total v" r db] by (simp add: run_ok_def)
qed

lemma active_live:
  assumes "runs_inv db" "row_get run_id i (workflow_runs db) = Some r" "current_attempt db r = Some a"
  shows "run_attempts db i \<noteq> []" "last (run_attempts db i) = a" "live (run_attempts db i) \<longleftrightarrow> is_active a"
  using current_last [OF assms(1,2)] assms(3) by (auto simp: live_def split: if_splits)

lemma send_trigger_total:
  assumes "get_workflow_one db (run_workflow_id r) = Inr w"
    and "\<And>c. Option.bind (agent_get_by_id (wdb_access db) (wf_agent_id w)) communication_key = Some c \<Longrightarrow> c \<noteq> [] \<Longrightarrow> \<exists>k. ctl_decrypt env c = Inr k"
  shows "\<exists>sent status. send_trigger env db r path payload = (sent, Inr status) \<and>
    (Option.bind (agent_get_by_id (wdb_access db) (wf_agent_id w)) communication_key \<notin> {None, Some []} \<longrightarrow> map tr_path sent = [path])"
proof -
  have aid: "owning_agent_id db (run_workflow_id r) = Inr (wf_agent_id w)" using assms(1) by (simp add: owning_agent_id_def)
  show ?thesis
  proof (cases "Option.bind (agent_get_by_id (wdb_access db) (wf_agent_id w)) communication_key")
    case (Some c)
    show ?thesis
    proof (cases "c = []")
      case False
      then obtain k where "ctl_decrypt env c = Inr k" using assms(2) Some by blast
      then show ?thesis using aid Some False by (simp add: send_trigger_def Let_def)
    qed (use aid Some in \<open>simp add: send_trigger_def\<close>)
  qed (simp add: send_trigger_def aid)
qed

text \<open>The first half of that wake when the run has a live attempt: the attempt is told to stop, and nothing else changes.\<close>

lemma advance_stops:
  assumes inv: "runs_inv db" and row: "row_get run_id i (workflow_runs db) = Some r" and st: "run_state r = RunCANCELLING"
    and w: "row_get wf_id (run_workflow_id r) (workflows db) = Some w"
    and cur: "current_attempt db r = Some b" "is_active b"
  shows "advance env new_id new_ids now False lost cause i db = Inr (stop_attempt False (Some b) db, None, [])"
    and "runs_inv (stop_attempt False (Some b) db)" and "row_get run_id i (workflow_runs (stop_attempt False (Some b) db)) = Some r"
    and "current_attempt (stop_attempt False (Some b) db) r = Some (b\<lparr>att_state := AttSTOPPING\<rparr>)"
proof -
  have same: "observed_run db w r = r" using st by (auto simp: observed_run_def split: option.splits)
  have gw: "get_workflow_one db (run_workflow_id r) = Inr w" using w by (simp add: get_workflow_one_def)
  obtain ok where ok: "authorized db r = Inr ok" using authorized_total [OF w] by blast
  have runs: "workflow_runs (stop_attempt False (Some b) db) = workflow_runs db"
    using stop_attempt_effect(4) [OF inv row refl, of False] by (simp add: cur)
  have ri: "run_id r = i" using run_table.get_in_rows [OF row] by simp
  have "flush_run now r (stop_attempt False (Some b) db) = stop_attempt False (Some b) db"
    using row by (simp add: flush_run_def runs ri)
  then show adv: "advance env new_id new_ids now False lost cause i db = Inr (stop_attempt False (Some b) db, None, [])"
    using row st gw ok cur
    by (simp add: advance_def same paused_unless_def TERMINAL_STATES_def Let_def advance_fence_def)
  show "runs_inv (stop_attempt False (Some b) db)" using advance_moved [OF inv adv] by (simp add: run_moved_def)
  show "row_get run_id i (workflow_runs (stop_attempt False (Some b) db)) = Some r" using row by (simp add: runs)
  note stopping = advance_moved [OF inv adv, unfolded run_moved_def]
  have "run_attempts (stop_attempt False (Some b) db) i = butlast (run_attempts db i) @ [b\<lparr>att_state := AttSTOPPING\<rparr>]"
    using stop_attempt_effect(1) [OF inv row refl, of False i] active_live [OF inv row cur(1)] cur by (simp add: stopped_attempts_def)
  then show "current_attempt (stop_attempt False (Some b) db) r = Some (b\<lparr>att_state := AttSTOPPING\<rparr>)"
    using current_last [of "stop_attempt False (Some b) db" i r] stopping row by (simp add: runs)
qed

lemma quiet_still: "ctl_others env = (\<lambda>_ db. db) \<Longrightarrow> meanwhile env n s = s"
  by (simp add: meanwhile_def split: prod.splits)

lemma wake_settles_idle:
  assumes inv: "runs_inv db" and row: "row_get run_id i (workflow_runs db) = Some r" and st: "run_state r = RunCANCELLING"
    and w: "row_get wf_id (run_workflow_id r) (workflows db) = Some w"
    and a: "row_get agent_id (wf_agent_id w) (agents (wdb_access db)) = Some a"
    and arts: "artifacts_ok (wdb_artifacts db)" and ids: "unused_ids (ctl_ids env 1) db"
    and acc: "change_accepted (env_registry (ctl_wf env)) (r\<lparr>run_state := RunCANCELLED, run_revision := run_revision r + 1\<rparr>)"
    and quiet: "ctl_others env = (\<lambda>_ db. db)"
    and idle: "\<not> (case current_attempt db r of None \<Rightarrow> False | Some b \<Rightarrow> is_active b)"
  shows "\<exists>s. wake env i (db, queue) = (s, [], Inr ()) \<and> cancelled (ctl_clock env 1) i (fst s)"
proof -
  have insp: "run_inspect db i = Some (r, current_attempt db r)" using row by (simp add: run_inspect_def)
  note still = quiet_still [OF quiet]
  obtain s where adv: "advance_and_dispatch env 1 False i (db, queue) = (s, Inr ())" and s: "cancelled (ctl_clock env 1) i (fst s)"
    using advance_settles [OF inv row st w a arts ids acc, of False queue] idle by blast
  then obtain r' where r': "row_get run_id i (workflow_runs (fst s)) = Some r'" "run_state r' = RunCANCELLED"
    "\<not> live (run_attempts (fst s) i)" by (auto simp: cancelled_def)
  have "runs_inv (fst s)"
    using run_steps_moved [OF advance_and_dispatch_steps [of "(db, queue)" env 1 False i]] inv by (simp add: adv run_moved_def del: One_nat_def)
  then have calm: "att_state b \<noteq> AttSTOPPING" if "current_attempt (fst s) r' = Some b" for b
    using active_live [OF _ r'(1) that] r'(3) by (auto simp: is_active_def)
  have "wake env i (db, queue) = (s, [], Inr ())"
    unfolding wake_def still
    using insp adv r' calm st
    by (auto simp: run_inspect_def TERMINAL_STATES_def may_send_def Let_def simp del: One_nat_def split: option.splits)
  with s show ?thesis by blast
qed

lemma wake_settles_live:
  assumes inv: "runs_inv db" and row: "row_get run_id i (workflow_runs db) = Some r" and st: "run_state r = RunCANCELLING"
    and w: "row_get wf_id (run_workflow_id r) (workflows db) = Some w"
    and a: "row_get agent_id (wf_agent_id w) (agents (wdb_access db)) = Some a"
    and arts: "artifacts_ok (wdb_artifacts db)" and ids: "unused_ids (ctl_ids env 3) db"
    and acc: "change_accepted (env_registry (ctl_wf env)) (r\<lparr>run_state := RunCANCELLED, run_revision := run_revision r + 1\<rparr>)"
    and quiet: "ctl_others env = (\<lambda>_ db. db)" and b: "current_attempt db r = Some b" "is_active b"
    and keys: "\<And>c. att_dispatched_at b \<noteq> None \<Longrightarrow>
      Option.bind (agent_get_by_id (wdb_access db) (wf_agent_id w)) communication_key = Some c \<Longrightarrow> c \<noteq> [] \<Longrightarrow> \<exists>k. ctl_decrypt env c = Inr k"
  shows "\<exists>s sent. wake env i (db, queue) = (s, sent, Inr ()) \<and> cancelled (ctl_clock env 3) i (fst s) \<and>
    (att_dispatched_at b \<noteq> None \<and> Option.bind (agent_get_by_id (wdb_access db) (wf_agent_id w)) communication_key \<notin> {None, Some []} \<longrightarrow>
      map tr_path sent = [STEPS_PATH @ ''/'' @ uuid_str (att_id b) @ ''/stop''])"
proof -
  have insp: "run_inspect db i = Some (r, current_attempt db r)" using row by (simp add: run_inspect_def)
  note still = quiet_still [OF quiet]
  let ?db1 = "stop_attempt False (Some b) db" and ?b1 = "b\<lparr>att_state := AttSTOPPING\<rparr>"
  let ?path = "STEPS_PATH @ ''/'' @ uuid_str (att_id b) @ ''/stop''"
  note stops = advance_stops [OF inv row st w b]
  have "advance_and_dispatch env 1 False i (db, queue) = ((?db1, queue), Inr ())"
    unfolding advance_and_dispatch_def by (simp add: stops(1))
  moreover have "run_inspect ?db1 i = Some (r, Some ?b1)" using stops by (simp add: run_inspect_def)
  ultimately have wake: "wake env i (db, queue) = wake_stop env i r ?b1 (?db1, queue)"
    unfolding wake_def still using insp st by (simp add: TERMINAL_STATES_def del: One_nat_def)
  have "unused_ids (ctl_ids env 3) ?db1" using ids unused_ids_cong [of ?db1 db] by simp
  then obtain s where adv: "advance_and_dispatch env 3 True i (?db1, queue) = (s, Inr ())" and s: "cancelled (ctl_clock env 3) i (fst s)"
    using advance_settles [OF stops(2,3) st, of w a env 3 True queue] w a arts acc by auto
  have gw: "get_workflow_one ?db1 (run_workflow_id r) = Inr w" using w by (simp add: get_workflow_one_def)
  show ?thesis
  proof (cases "att_dispatched_at b")
    case None
    then have "wake_stop env i r ?b1 (?db1, queue) = (s, [], Inr ())" using adv by (simp add: wake_stop_def still)
    then show ?thesis using wake s None by (intro exI [of _ s] exI [of _ "[]"]) simp
  next
    case (Some t)
    from send_trigger_total [OF gw, of env ?path "JObj []"] keys Some obtain sent status where
      sent: "send_trigger env ?db1 r ?path (JObj []) = (sent, Inr status)"
      "Option.bind (agent_get_by_id (wdb_access ?db1) (wf_agent_id w)) communication_key \<notin> {None, Some []} \<longrightarrow> map tr_path sent = [?path]"
      by auto
    have "wake_stop env i r ?b1 (?db1, queue) = (s, sent, Inr ())"
      using sent(1) adv Some by (simp add: wake_stop_def still)
    then show ?thesis using wake s sent(2) by (intro exI [of _ s] exI [of _ sent]) simp
  qed
qed

text \<open>
  The Agent has to be told to stop a step it accepted, but the key that is stored for it cannot be
  decrypted (it was encrypted with another installation key): \<open>_send\<close> raises.
\<close>

definition stop_key_unreadable :: "controller_env \<Rightarrow> run_db \<Rightarrow> workflow_run \<Rightarrow> workflow \<Rightarrow> bool" where
  "stop_key_unreadable env db r w \<longleftrightarrow>
    (case current_attempt db r of
       None \<Rightarrow> False
     | Some b \<Rightarrow> is_active b \<and> att_dispatched_at b \<noteq> None \<and>
         (case Option.bind (agent_get_by_id (wdb_access db) (wf_agent_id w)) communication_key of
            None \<Rightarrow> False
          | Some c \<Rightarrow> c \<noteq> [] \<and> (case ctl_decrypt env c of Inl e \<Rightarrow> True | Inr k \<Rightarrow> False)))"

lemma wake_stuck:
  assumes inv: "runs_inv db" and row: "row_get run_id i (workflow_runs db) = Some r" and st: "run_state r = RunCANCELLING"
    and w: "row_get wf_id (run_workflow_id r) (workflows db) = Some w"
    and quiet: "ctl_others env = (\<lambda>_ db. db)" and broken: "stop_key_unreadable env db r w"
  shows "\<exists>db' e. wake env i (db, queue) = ((db', queue), [], Inl e) \<and> row_get run_id i (workflow_runs db') = Some r \<and>
    live (run_attempts db' i)"
proof -
  obtain b c e where b: "current_attempt db r = Some b" "is_active b" "att_dispatched_at b \<noteq> None"
    and c: "Option.bind (agent_get_by_id (wdb_access db) (wf_agent_id w)) communication_key = Some c" "c \<noteq> []" "ctl_decrypt env c = Inl e"
    using broken by (auto simp: stop_key_unreadable_def split: option.splits sum.splits)
  have insp: "run_inspect db i = Some (r, current_attempt db r)" using row by (simp add: run_inspect_def)
  note still = quiet_still [OF quiet]
  let ?db1 = "stop_attempt False (Some b) db" and ?b1 = "b\<lparr>att_state := AttSTOPPING\<rparr>"
  note stops = advance_stops [OF inv row st w b(1,2)]
  have "advance_and_dispatch env 1 False i (db, queue) = ((?db1, queue), Inr ())"
    unfolding advance_and_dispatch_def by (simp add: stops(1))
  moreover have "run_inspect ?db1 i = Some (r, Some ?b1)" using stops by (simp add: run_inspect_def)
  ultimately have "wake env i (db, queue) = wake_stop env i r ?b1 (?db1, queue)"
    unfolding wake_def still using insp st by (simp add: TERMINAL_STATES_def del: One_nat_def)
  moreover have "owning_agent_id ?db1 (run_workflow_id r) = Inr (wf_agent_id w)"
    using w by (simp add: owning_agent_id_def get_workflow_one_def)
  then have "wake_stop env i r ?b1 (?db1, queue) = ((?db1, queue), [], Inl e)"
    using b c by (simp add: wake_stop_def send_trigger_def)
  moreover have "live (run_attempts ?db1 i)"
    using active_live(3) [OF stops(2,3,4)] by (simp add: is_active_def)
  ultimately show ?thesis using stops(3) by (intro exI [of _ ?db1] exI [of _ e]) simp
qed

text \<open>
  C9. One wake finishes a cancellation: if nobody interferes, a wake of a cancelling run
  returns and leaves the run cancelled and settled, without a live attempt and with its artifact
  references released, whatever the Agent answers or if it cannot be reached at all; when the
  Agent had accepted the step, is not deleted and has a communication key, it is told to stop it.
  There is exactly one exception: the Agent had accepted the step and its stored key
  cannot be decrypted. Then the wake raises before it settles anything, and the run stays
  cancelling with its attempt live, although stopping the session is meant to be best effort.
\<close>

theorem wake_finishes_cancellation:
  assumes inv: "runs_inv db" and row: "row_get run_id i (workflow_runs db) = Some r" and st: "run_state r = RunCANCELLING"
    and w: "row_get wf_id (run_workflow_id r) (workflows db) = Some w"
    and a: "row_get agent_id (wf_agent_id w) (agents (wdb_access db)) = Some a"
    and arts: "artifacts_ok (wdb_artifacts db)" and ids: "unused_ids (ctl_ids env 1) db" "unused_ids (ctl_ids env 3) db"
    and acc: "change_accepted (env_registry (ctl_wf env)) (r\<lparr>run_state := RunCANCELLED, run_revision := run_revision r + 1\<rparr>)"
    and quiet: "ctl_others env = (\<lambda>_ db. db)"
  shows "if stop_key_unreadable env db r w
    then \<exists>db' e. wake env i (db, queue) = ((db', queue), [], Inl e) \<and> row_get run_id i (workflow_runs db') = Some r \<and>
      live (run_attempts db' i)
    else \<exists>s sent now. wake env i (db, queue) = (s, sent, Inr ()) \<and> cancelled now i (fst s) \<and>
      (\<forall>b. current_attempt db r = Some b \<and> is_active b \<and> att_dispatched_at b \<noteq> None \<and>
          Option.bind (agent_get_by_id (wdb_access db) (wf_agent_id w)) communication_key \<notin> {None, Some []} \<longrightarrow>
        map tr_path sent = [STEPS_PATH @ ''/'' @ uuid_str (att_id b) @ ''/stop''])"
proof (cases "stop_key_unreadable env db r w")
  case True
  with wake_stuck [OF inv row st w quiet True, of queue] show ?thesis by simp
next
  case readable: False
  show ?thesis
  proof (cases "case current_attempt db r of None \<Rightarrow> False | Some b \<Rightarrow> is_active b")
    case True
    then obtain b where b: "current_attempt db r = Some b" "is_active b" by (auto split: option.splits)
    have keys: "\<exists>k. ctl_decrypt env c = Inr k" if "att_dispatched_at b \<noteq> None"
      "Option.bind (agent_get_by_id (wdb_access db) (wf_agent_id w)) communication_key = Some c" "c \<noteq> []" for c
      using readable b that by (auto simp: stop_key_unreadable_def split: sum.splits)
    from wake_settles_live [OF inv row st w a arts ids(2) acc quiet b keys, of queue] b readable show ?thesis by auto
  next
    case False
    from wake_settles_idle [OF inv row st w a arts ids(1) acc quiet False, of queue] obtain s where
      "wake env i (db, queue) = (s, [], Inr ())" "cancelled (ctl_clock env 1) i (fst s)" by blast
    with False readable show ?thesis by (auto intro: exI [of _ s] exI [of _ "ctl_clock env 1"])
  qed
qed

theorem wake_finishes_cancellation_witness:
  "\<exists>s sent now. wake (demo_controller demo_ids None) 40 (demo_running RunCANCELLING, []) = (s, sent, Inr ()) \<and> cancelled now 40 (fst s)"
proof -
  let ?r = "demo_run\<lparr>run_generation := 1, run_revision := 2, run_state := RunCANCELLING\<rparr>"
  let ?db = "demo_running RunCANCELLING" and ?env = "demo_controller demo_ids None"
  have "row_get run_id 40 (workflow_runs ?db) = Some ?r" "row_get wf_id (run_workflow_id ?r) (workflows ?db) = Some (demo_workflow 1)"
    by (simp_all add: demo_run_defs row_get_def)
  moreover have "row_get agent_id (wf_agent_id (demo_workflow 1)) (agents (wdb_access ?db)) = Some demo_agent_100"
    using demo_agent_row by (simp add: demo_run_defs)
  moreover have "runs_inv ?db" by (rule demo_running_inv) simp
  moreover have "unused_ids demo_ids ?db" by (rule demo_unused) (simp_all add: demo_run_defs)
  moreover have "artifacts_ok (wdb_artifacts ?db)" by (simp add: demo_run_defs artifacts_ok_def)
  moreover have "change_accepted (env_registry (ctl_wf ?env)) (?r\<lparr>run_state := RunCANCELLED, run_revision := run_revision ?r + 1\<rparr>)"
    by (simp add: demo_controller_def demo_env_def demo_change_accepted)
  ultimately have "if stop_key_unreadable ?env ?db ?r (demo_workflow 1)
    then \<exists>db' e. wake ?env 40 (?db, []) = ((db', []), [], Inl e) \<and> row_get run_id 40 (workflow_runs db') = Some ?r \<and>
      live (run_attempts db' 40)
    else \<exists>s sent now. wake ?env 40 (?db, []) = (s, sent, Inr ()) \<and> cancelled now 40 (fst s) \<and>
      (\<forall>b. current_attempt ?db ?r = Some b \<and> is_active b \<and> att_dispatched_at b \<noteq> None \<and>
          Option.bind (agent_get_by_id (wdb_access ?db) (wf_agent_id (demo_workflow 1))) communication_key \<notin> {None, Some []} \<longrightarrow>
        map tr_path sent = [STEPS_PATH @ ''/'' @ uuid_str (att_id b) @ ''/stop''])"
    by (intro wake_finishes_cancellation) (simp_all add: demo_controller_def)
  moreover have "\<not> stop_key_unreadable ?env ?db ?r (demo_workflow 1)"
    by (simp add: stop_key_unreadable_def demo_controller_def split: option.split)
  ultimately show ?thesis by (simp only: if_False) (elim exE conjE, intro exI conjI)
qed

section \<open>What the operator pass does not reach\<close>

definition active_runs :: "run_db \<Rightarrow> workflow_run list" where
  "active_runs db = filter (\<lambda>r. run_state r \<notin> TERMINAL_STATES) (workflow_runs db)"

text \<open>A paused run without a live attempt, of a live Agent: it waits for a person.\<close>

definition parked :: "run_db \<Rightarrow> uuid \<Rightarrow> bool" where
  "parked db i \<longleftrightarrow>
    (\<exists>r w a. r \<in> set (workflow_runs db) \<and> run_id r = i \<and> run_state r = RunPAUSED \<and>
      row_get wf_id (run_workflow_id r) (workflows db) = Some w \<and>
      row_get agent_id (wf_agent_id w) (agents (wdb_access db)) = Some a \<and> agent_deleted_at a = None \<and>
      (\<forall>b. current_attempt db r = Some b \<longrightarrow> \<not> is_active b))"

lemma wake_parked:
  assumes keyed: "distinct (map run_id (workflow_runs db))" and quiet: "ctl_others env = (\<lambda>_ db. db)" and "parked db i"
  shows "wake env i (db, queue) = ((db, queue), [], Inr ())"
proof -
  obtain r w a where r: "r \<in> set (workflow_runs db)" "run_id r = i" "run_state r = RunPAUSED"
    and w: "row_get wf_id (run_workflow_id r) (workflows db) = Some w"
    and a: "row_get agent_id (wf_agent_id w) (agents (wdb_access db)) = Some a" "agent_deleted_at a = None"
    and idle: "\<And>b. current_attempt db r = Some b \<Longrightarrow> \<not> is_active b"
    using assms(3) unfolding parked_def by blast
  have row: "row_get run_id i (workflow_runs db) = Some r" using run_table.get_rows [OF keyed] r by auto
  have "observed_run db w r = r" using a by (simp add: observed_run_def)
  then have "advance e x f now False False None i db = Inr (db, None, [])" for e x f now
    using row r w idle by (auto simp: advance_def get_workflow_one_def TERMINAL_STATES_def Let_def split: option.splits)
  then have "advance_and_dispatch env 1 False i (db, queue) = ((db, queue), Inr ())" by (simp add: advance_and_dispatch_def)
  then show ?thesis
    unfolding wake_def quiet_still [OF quiet] using row r idle
    by (auto simp: run_inspect_def TERMINAL_STATES_def may_send_def is_active_def Let_def simp del: One_nat_def split: option.splits)
qed

lemma wake_all_parked:
  assumes "distinct (map run_id (workflow_runs db))" "\<And>n. ctl_others (envs n) = (\<lambda>_ db. db)" "\<forall>i \<in> set is. parked db i"
  shows "wake_all envs n is (db, queue) = (db, queue)"
  using assms(3) wake_parked [OF assms(1,2)] by (induction "is" arbitrary: n) auto

lemma filter_put:
  assumes "\<not> P r" "\<And>x. x \<in> set t \<Longrightarrow> key x = key r \<Longrightarrow> \<not> P x"
  shows "filter P (row_put key r t) = filter P t"
  using assms(2) by (induction t) (auto simp: row_put_def assms(1))

text \<open>Retention leaves the active runs and all attempts alone.\<close>

lemma expire_runs_active:
  assumes "\<And>r x. r \<in> set rs \<Longrightarrow> x \<in> set (workflow_runs db) \<Longrightarrow> run_id x = run_id r \<Longrightarrow> run_state x \<in> TERMINAL_STATES"
    and "\<And>r. r \<in> set rs \<Longrightarrow> run_state r \<in> TERMINAL_STATES"
  shows "active_runs (foldl (\<lambda>d r. expire_run now r d) db rs) = active_runs db \<and>
    map run_id (workflow_runs (foldl (\<lambda>d r. expire_run now r d) db rs)) = map run_id (workflow_runs db) \<and>
    workflow_attempts (foldl (\<lambda>d r. expire_run now r d) db rs) = workflow_attempts db \<and>
    workflows (foldl (\<lambda>d r. expire_run now r d) db rs) = workflows db \<and>
    wdb_access (foldl (\<lambda>d r. expire_run now r d) db rs) = wdb_access db"
  using assms
proof (induction rs arbitrary: db)
  case (Cons r rs)
  let ?r = "r\<lparr>run_inputs := [], run_content_expired := True, run_updated_at := now\<rparr>" and ?db = "expire_run now r db"
  have runs: "workflow_runs ?db = row_put run_id ?r (workflow_runs db)" by (simp add: expire_run_def put_run_def)
  have "run_state x \<in> TERMINAL_STATES" if "s \<in> set rs" "x \<in> set (workflow_runs ?db)" "run_id x = run_id s" for s x
    using that Cons.prems by (auto simp: runs row_put_def)
  note IH = Cons.IH [of ?db, OF this]
  have "active_runs ?db = active_runs db"
    unfolding active_runs_def runs by (rule filter_put) (use Cons.prems in auto)
  moreover have "map run_id (workflow_runs ?db) = map run_id (workflow_runs db)" by (simp add: runs row_put_def)
  moreover have "workflow_attempts ?db = workflow_attempts db" "workflows ?db = workflows db" "wdb_access ?db = wdb_access db"
    by (simp_all add: expire_run_def put_run_def)
  ultimately show ?case using IH Cons.prems(2) by simp
qed simp

definition settled_runs_ended :: "run_db \<Rightarrow> bool" where
  "settled_runs_ended db \<longleftrightarrow> distinct (map run_id (workflow_runs db)) \<and>
    (\<forall>r \<in> set (workflow_runs db). run_settled_at r \<noteq> None \<longrightarrow> run_state r \<in> TERMINAL_STATES)"

lemma expire_content_active:
  assumes "settled_runs_ended db"
  shows "active_runs (expire_content now limit db) = active_runs db" "map run_id (workflow_runs (expire_content now limit db)) = map run_id (workflow_runs db)"
    "workflow_attempts (expire_content now limit db) = workflow_attempts db" "workflows (expire_content now limit db) = workflows db"
    "wdb_access (expire_content now limit db) = wdb_access db"
proof -
  have due: "r \<in> set (workflow_runs db) \<and> run_state r \<in> TERMINAL_STATES" if "r \<in> set (expired_runs now limit db)" for r
    using that assms by (auto simp: expired_runs_def settled_runs_ended_def dest!: in_set_takeD split: option.splits)
  have "x = r" if "x \<in> set (workflow_runs db)" "r \<in> set (workflow_runs db)" "run_id x = run_id r" for x r
    using that assms by (auto simp: settled_runs_ended_def distinct_map inj_on_def)
  note f = expire_runs_active [of "expired_runs now limit db" db now, folded expire_content_def]
  have *: "active_runs (expire_content now limit db) = active_runs db \<and>
    map run_id (workflow_runs (expire_content now limit db)) = map run_id (workflow_runs db) \<and>
    workflow_attempts (expire_content now limit db) = workflow_attempts db \<and>
    workflows (expire_content now limit db) = workflows db \<and> wdb_access (expire_content now limit db) = wdb_access db"
    by (rule f) (use due \<open>\<And>x r. x \<in> set (workflow_runs db) \<Longrightarrow> r \<in> set (workflow_runs db) \<Longrightarrow> run_id x = run_id r \<Longrightarrow> x = r\<close> in blast)+
  show "active_runs (expire_content now limit db) = active_runs db" "map run_id (workflow_runs (expire_content now limit db)) = map run_id (workflow_runs db)"
    "workflow_attempts (expire_content now limit db) = workflow_attempts db" "workflows (expire_content now limit db) = workflows db"
    "wdb_access (expire_content now limit db) = wdb_access db" using * by auto
qed

lemma expire_run_ended: "settled_runs_ended db \<Longrightarrow> run_state r \<in> TERMINAL_STATES \<Longrightarrow> settled_runs_ended (expire_run now r db)"
  by (auto simp: settled_runs_ended_def expire_run_def put_run_def row_put_def o_def if_distrib [of run_id] cong: if_cong)

lemma expire_content_ended:
  assumes "settled_runs_ended db" shows "settled_runs_ended (expire_content now limit db)"
proof -
  have "settled_runs_ended (foldl (\<lambda>d r. expire_run now r d) d rs)"
    if "settled_runs_ended d" "\<forall>r \<in> set rs. run_state r \<in> TERMINAL_STATES" for d rs
    using that by (induction rs arbitrary: d) (simp_all add: expire_run_ended)
  moreover have "run_state r \<in> TERMINAL_STATES" if "r \<in> set (expired_runs now limit db)" for r
    using that assms by (auto simp: expired_runs_def settled_runs_ended_def dest!: in_set_takeD split: option.splits)
  ultimately show ?thesis using assms unfolding expire_content_def by blast
qed

lemma parked_active: "parked db i \<longleftrightarrow>
    (\<exists>r w a. r \<in> set (active_runs db) \<and> run_id r = i \<and> run_state r = RunPAUSED \<and>
      row_get wf_id (run_workflow_id r) (workflows db) = Some w \<and>
      row_get agent_id (wf_agent_id w) (agents (wdb_access db)) = Some a \<and> agent_deleted_at a = None \<and>
      (\<forall>b. current_attempt db r = Some b \<longrightarrow> \<not> is_active b))"
  unfolding parked_def active_runs_def by (auto simp: TERMINAL_STATES_def)

lemma active_ids_active: "active_ids limit db = map run_id (take limit (sort_key run_updated_at (active_runs db)))"
  by (simp add: active_ids_def active_runs_def)

text \<open>
  C36. Parked runs starve the operator pass: the pass looks at the hundred active runs with the
  oldest change, and looking at a paused run does not change it. So when these hundred runs are
  all parked, then however often the pass runs, it touches no active run and no attempt at all:
  runs that came after them and whose wakeup was missed are never recovered.
\<close>

theorem parked_runs_starve_the_pass:
  assumes "settled_runs_ended db" and quiet: "\<And>n. ctl_others (envs n) = (\<lambda>_ db. db)"
    and "\<forall>i \<in> set (active_ids 100 db). parked db i"
  shows "\<exists>db'. fold (maintenance_main envs) ts (db, queue) = (db', queue) \<and>
    active_runs db' = active_runs db \<and> workflow_attempts db' = workflow_attempts db"
  using assms(1,3)
proof (induction ts arbitrary: db)
  case (Cons t ts)
  let ?db = "expire_content t 100 db"
  note e = expire_content_active [OF Cons.prems(1), of t 100]
  have "maintenance_main envs t (db, queue) = (?db, queue)"
    using wake_all_parked [OF _ quiet Cons.prems(2)] Cons.prems(1) by (simp add: maintenance_main_def settled_runs_ended_def)
  moreover have "parked ?db i = parked db i" for i
    unfolding parked_active e current_attempt_def ..
  then have "\<forall>i \<in> set (active_ids 100 ?db). parked ?db i" using Cons.prems(2) by (simp add: active_ids_active e)
  ultimately show ?case
    using Cons.IH [OF expire_content_ended [OF Cons.prems(1)], of t 100] e by simp
qed simp

text \<open>A hundred parked runs, and a queued one that came after them.\<close>

definition demo_parked :: "nat \<Rightarrow> workflow_run" where
  "demo_parked k = demo_run\<lparr>run_id := 300 + k, run_client_request_id := 600 + k, run_state := RunPAUSED\<rparr>"

definition demo_waiting :: workflow_run where
  "demo_waiting = demo_run\<lparr>run_updated_at := 9\<rparr>"

definition demo_crowd :: run_db where
  "demo_crowd = demo_saved\<lparr>workflow_runs := map demo_parked [0..<100] @ [demo_waiting]\<rparr>"

theorem parked_runs_starve_the_pass_witness:
  "\<exists>db'. fold (maintenance_main (\<lambda>_. demo_controller demo_ids None)) [10, 20, 30] (demo_crowd, []) = (db', []) \<and>
    demo_waiting \<in> set (active_runs db') \<and> run_state demo_waiting = RunQUEUED \<and> workflow_attempts db' = []"
proof -
  have run: "run_id demo_run = 40" "run_state demo_run = RunQUEUED" "run_workflow_id demo_run = 30" "run_updated_at demo_run = 5"
    "run_settled_at demo_run = None" by (simp_all add: demo_run_defs)
  have crowd: "workflow_runs demo_crowd = map demo_parked [0..<100] @ [demo_waiting]" "workflow_attempts demo_crowd = []"
    "workflows demo_crowd = [demo_workflow 1]" "wdb_access demo_crowd = demo_db"
    by (simp_all add: demo_crowd_def demo_saved_def demo_installation_def)
  have waiting: "demo_waiting \<in> set (active_runs demo_crowd)" "run_state demo_waiting = RunQUEUED"
    by (simp_all add: active_runs_def crowd demo_waiting_def run TERMINAL_STATES_def)
  have all: "active_runs demo_crowd = map demo_parked [0..<100] @ [demo_waiting]"
    unfolding active_runs_def crowd by (rule filter_True) (auto simp: demo_parked_def demo_waiting_def run TERMINAL_STATES_def)
  have "sorted (map run_updated_at (map demo_parked [0..<100] @ [demo_waiting]))"
  proof -
    have "map run_updated_at (map demo_parked [0..<100]) = replicate 100 5"
      by (rule replicate_eqI [symmetric, THEN sym]) (auto simp: demo_parked_def run)
    then show ?thesis by (simp add: demo_waiting_def sorted_append)
  qed
  then have "active_ids 100 demo_crowd = map run_id (map demo_parked [0..<100])"
    by (simp add: active_ids_active all sort_key_id_if_sorted)
  moreover have "parked demo_crowd (300 + k)" if "k < 100" for k
    unfolding parked_def
  proof (intro exI conjI)
    show "demo_parked k \<in> set (workflow_runs demo_crowd)" using that by (simp add: crowd)
    show "row_get agent_id (wf_agent_id (demo_workflow 1)) (agents (wdb_access demo_crowd)) = Some demo_agent_100"
      using demo_agent_row by (simp add: crowd demo_workflow_def)
  qed (simp_all add: demo_parked_def run crowd row_get_def demo_workflow_def demo_agent_def current_attempt_def)
  moreover have "run_id (demo_parked k) = 300 + k" for k by (simp add: demo_parked_def)
  ultimately have "\<forall>i \<in> set (active_ids 100 demo_crowd). parked demo_crowd i"
    by (metis (no_types, lifting) atLeastLessThan_iff imageE map_map o_apply set_map set_upt)
  moreover have "settled_runs_ended demo_crowd"
    by (auto simp: settled_runs_ended_def crowd demo_parked_def demo_waiting_def run distinct_map inj_on_def)
  ultimately show ?thesis
    using parked_runs_starve_the_pass [of demo_crowd "\<lambda>_. demo_controller demo_ids None" "[10, 20, 30]" "[]"] waiting
    by (auto simp: demo_controller_def crowd)
qed

end
