(* ===== verification/Communication_Errors.thy ===== *)
theory Communication_Errors
  imports Event_Registry
begin

text \<open>
  Diagnostics of chat deliveries (\<open>api/domains/communications/error_details.py\<close>): what of a provider
  error may be stored. Every caller in the repository passes a validated
  \<open>CommunicationErrorDetails\<close> or \<open>None\<close>, on which \<open>safe_error_details\<close> is the identity.
\<close>

section \<open>Error details\<close>

datatype error_category =
    AUTHENTICATION | AUTHORIZATION | CONFIGURATION | NETWORK | PROVIDER_REJECTED | PROVIDER_UNAVAILABLE
  | RATE_LIMITED | TIMEOUT | UNKNOWN

record communication_error_details =
  det_category :: error_category
  det_operation :: string
  det_http_status :: "int option"
  det_provider_code :: "string option"
  det_retryable :: bool
  det_retry_after_seconds :: "int option"
  det_request_id :: "string option"

definition char_between :: "char \<Rightarrow> char \<Rightarrow> char \<Rightarrow> bool" where
  "char_between a b c \<longleftrightarrow> of_char a \<le> (of_char c :: nat) \<and> (of_char c :: nat) \<le> of_char b"

definition lower_letter :: "char \<Rightarrow> bool" where
  "lower_letter c \<longleftrightarrow> char_between CHR ''a'' CHR ''z'' c"

definition identifier_char :: "char \<Rightarrow> bool" where
  "identifier_char c \<longleftrightarrow> lower_letter c \<or> char_between CHR ''A'' CHR ''Z'' c \<or> char_between CHR ''0'' CHR ''9'' c \<or>
    c \<in> set ''_.:-''"

text \<open>\<open>^[A-Za-z0-9_.:-]{1,n}$\<close> and \<open>^[a-z][a-z0-9_.-]*$\<close>.\<close>

definition identifier_upto :: "nat \<Rightarrow> string \<Rightarrow> bool" where
  "identifier_upto n s \<longleftrightarrow> s \<noteq> [] \<and> length s \<le> n \<and> list_all identifier_char s"

definition operation_pattern :: "string \<Rightarrow> bool" where
  "operation_pattern s \<longleftrightarrow>
    (case s of
       [] \<Rightarrow> False
     | c # t \<Rightarrow> lower_letter c \<and> list_all (\<lambda>c. lower_letter c \<or> char_between CHR ''0'' CHR ''9'' c \<or> c \<in> set ''_.-'') t)"

text \<open>The constraints the fields of \<open>CommunicationErrorDetails\<close> declare.\<close>

definition details_valid :: "communication_error_details \<Rightarrow> bool" where
  "details_valid d \<longleftrightarrow>
    length (det_operation d) \<le> 64 \<and> operation_pattern (det_operation d) \<and>
    (case det_http_status d of None \<Rightarrow> True | Some n \<Rightarrow> 100 \<le> n \<and> n \<le> 599) \<and>
    (case det_provider_code d of None \<Rightarrow> True | Some c \<Rightarrow> identifier_upto 100 c) \<and>
    (case det_retry_after_seconds d of None \<Rightarrow> True | Some n \<Rightarrow> 0 \<le> n \<and> n \<le> 86400) \<and>
    (case det_request_id d of None \<Rightarrow> True | Some r \<Rightarrow> identifier_upto 128 r)"

section \<open>Sensitive text\<close>

definition COMM_SENSITIVE_PARTS :: "string list" where
  "COMM_SENSITIVE_PARTS =
    [''api_key'', ''apikey'', ''authorization'', ''bearer'', ''client_secret'', ''credential'', ''password'',
     ''private_key'', ''refresh_token'', ''secret'', ''token'']"

text \<open>\<open>str.casefold\<close> below code point 256 (the micro sign folds to a Greek letter, which is not in range, and is kept).\<close>

definition casefold :: "string \<Rightarrow> string" where
  "casefold s = concat (map (\<lambda>c. if of_char c = (223 :: nat) then ''ss'' else [lower_char c]) s)"

definition contains_sensitive :: "string \<Rightarrow> bool" where
  "contains_sensitive s \<longleftrightarrow> (\<exists>part \<in> set COMM_SENSITIVE_PARTS. contains part (replace_char CHR ''-'' CHR ''_'' (casefold s)))"

definition REDACTED_ERROR_CODE :: string where
  "REDACTED_ERROR_CODE = ''REDACTED''"

definition REDACTED_ERROR_SUMMARY :: string where
  "REDACTED_ERROR_SUMMARY = ''Provider error details were redacted''"

section \<open>Codes and summaries\<close>

fun ERROR_CODES :: "error_category \<Rightarrow> string" where
  "ERROR_CODES AUTHENTICATION = ''AUTHENTICATION_FAILED''"
| "ERROR_CODES AUTHORIZATION = ''AUTHORIZATION_FAILED''"
| "ERROR_CODES CONFIGURATION = ''CONFIGURATION_ERROR''"
| "ERROR_CODES NETWORK = ''NETWORK_ERROR''"
| "ERROR_CODES PROVIDER_REJECTED = ''PROVIDER_REJECTED''"
| "ERROR_CODES PROVIDER_UNAVAILABLE = ''PROVIDER_UNAVAILABLE''"
| "ERROR_CODES RATE_LIMITED = ''RATE_LIMITED''"
| "ERROR_CODES TIMEOUT = ''TIMEOUT''"
| "ERROR_CODES UNKNOWN = ''PROVIDER_ERROR''"

fun SUMMARY_BY_CATEGORY :: "error_category \<Rightarrow> string" where
  "SUMMARY_BY_CATEGORY AUTHENTICATION = ''Provider rejected the connection credential''"
| "SUMMARY_BY_CATEGORY AUTHORIZATION = ''Provider denied the requested operation''"
| "SUMMARY_BY_CATEGORY CONFIGURATION = ''The connection configuration is invalid''"
| "SUMMARY_BY_CATEGORY NETWORK = ''The connection to the provider could not be established''"
| "SUMMARY_BY_CATEGORY PROVIDER_REJECTED = ''The provider rejected the request''"
| "SUMMARY_BY_CATEGORY PROVIDER_UNAVAILABLE = ''The provider is temporarily unavailable''"
| "SUMMARY_BY_CATEGORY RATE_LIMITED = ''The provider rate-limited the request''"
| "SUMMARY_BY_CATEGORY TIMEOUT = ''The provider did not respond before the request timed out''"
| "SUMMARY_BY_CATEGORY UNKNOWN = ''The provider reported an error''"

definition SUMMARY_BY_PROVIDER_CODE :: "(string \<times> string) list" where
  "SUMMARY_BY_PROVIDER_CODE =
    [(''4004'', ''Discord rejected the bot token; update this Connection with a valid bot token, then reconnect''),
     (''4013'', ''Discord rejected the gateway intent selection; review the configured Discord intents, then reconnect''),
     (''4014'', ''Discord rejected a privileged gateway intent; enable Message Content Intent in the Discord Developer Portal, then reconnect'')]"

definition RUNTIME_CODES :: "(string \<times> string) list" where
  "RUNTIME_CODES =
    [(''SPEND_LIMIT_REACHED'',
      ''A model spend limit has been reached, so this agent cannot reply right now. Contact your administrator to raise it or wait for the limit to renew.''),
     (''CREDIT_EXHAUSTED'',
      ''This organization has used all its credit, so this agent cannot reply right now. Ask the organization's owner to add more credit.'')]"

definition SUMMARY_BY_HTTP_STATUS :: "(int \<times> string) list" where
  "SUMMARY_BY_HTTP_STATUS =
    [(402, ''The provider reports exhausted credits or billing; add credits to the provider account, then retry'')]"

definition SAFE_ERROR_SUMMARIES :: "(string \<times> string) list" where
  "SAFE_ERROR_SUMMARIES =
    [(''agent was not running when the message arrived'', ''Agent was not running when the message arrived''),
     (''communication connection is unavailable'', ''Communication Connection is unavailable''),
     (''communication connection was retired'', ''Communication Connection was retired''),
     (''native chat gateway work was retired without replay.'', ''Native chat gateway work was retired without replay.''),
     (casefold REDACTED_ERROR_SUMMARY, REDACTED_ERROR_SUMMARY)]"

definition safe_error_code :: "string option \<Rightarrow> string option" where
  "safe_error_code v =
    (case v of
       None \<Rightarrow> None
     | Some s \<Rightarrow>
         if s = [] then None
         else if contains_sensitive s \<or> \<not> identifier_upto 100 s then Some REDACTED_ERROR_CODE
         else Some s)"

definition error_code_from_details :: "communication_error_details option \<Rightarrow> string option" where
  "error_code_from_details d = map_option (\<lambda>d. ERROR_CODES (det_category d)) d"

definition error_summary_from_details :: "communication_error_details \<Rightarrow> string" where
  "error_summary_from_details d =
    (case Option.bind (det_provider_code d) (map_of RUNTIME_CODES) of
       Some s \<Rightarrow> s
     | None \<Rightarrow>
         let summary =
               (case map_of SUMMARY_BY_PROVIDER_CODE (case det_provider_code d of None \<Rightarrow> [] | Some c \<Rightarrow> c) of
                  Some s \<Rightarrow> s
                | None \<Rightarrow>
                    (case map_of SUMMARY_BY_HTTP_STATUS (case det_http_status d of None \<Rightarrow> 0 | Some n \<Rightarrow> n) of
                       Some s \<Rightarrow> s
                     | None \<Rightarrow> SUMMARY_BY_CATEGORY (det_category d)));
             qualifiers =
               (case det_http_status d of None \<Rightarrow> [] | Some n \<Rightarrow> [''HTTP '' @ int_str n]) @
               (case det_provider_code d of None \<Rightarrow> [] | Some c \<Rightarrow> [c])
         in if qualifiers \<noteq> [] then summary @ '' ('' @ join '', '' qualifiers @ '')'' else summary)"

text \<open>\<open>" ".join(value.split())\<close>.\<close>

fun split_words :: "string \<Rightarrow> string \<Rightarrow> string list" where
  "split_words w [] = (if w = [] then [] else [w])"
| "split_words w (c # s) =
    (if py_space c then (if w = [] then [] else [w]) @ split_words [] s else split_words (w @ [c]) s)"

definition safe_error_summary :: "string option \<Rightarrow> communication_error_details option \<Rightarrow> string option" where
  "safe_error_summary v d =
    (case d of
       Some d \<Rightarrow> Some (error_summary_from_details d)
     | None \<Rightarrow>
         (case v of
            None \<Rightarrow> None
          | Some s \<Rightarrow>
              if s = [] then None
              else Some (case map_of SAFE_ERROR_SUMMARIES (casefold (join '' '' (split_words [] s))) of
                  Some t \<Rightarrow> t
                | None \<Rightarrow> REDACTED_ERROR_SUMMARY)))"

section \<open>What is stored is safe\<close>

lemma length_join: "length (join sep xs) \<le> sum_list (map length xs) + length sep * (length xs - 1)"
  by (induction sep xs rule: join.induct) auto

lemma three_digits: "100 \<le> n \<Longrightarrow> n \<le> 599 \<Longrightarrow> length (int_str n) = 3"
proof -
  assume n: "100 \<le> n" "n \<le> 599"
  have "length (nat_str k) = 3" if "100 \<le> k" "k \<le> 599" for k :: nat
    using that by (subst nat_str.simps, subst nat_str.simps, subst nat_str.simps) auto
  from this [of "nat n"] n show ?thesis by (simp add: int_str_def)
qed

lemma length_tables:
  "map_of SUMMARY_BY_PROVIDER_CODE c = Some s \<Longrightarrow> length s \<le> 150"
  "map_of SUMMARY_BY_HTTP_STATUS n = Some s \<Longrightarrow> length s \<le> 150"
  "map_of RUNTIME_CODES c = Some s \<Longrightarrow> length s \<le> 150"
  "length (SUMMARY_BY_CATEGORY k) \<le> 150"
  by (auto simp: SUMMARY_BY_PROVIDER_CODE_def SUMMARY_BY_HTTP_STATUS_def RUNTIME_CODES_def split: if_splits)
    (cases k; simp)

lemma length_summary:
  assumes "details_valid d"
  shows "length (error_summary_from_details d) \<le> 500"
proof -
  have http: "length (''HTTP '' @ int_str n) \<le> 8" if "det_http_status d = Some n" for n
    using assms that three_digits [of n] by (simp add: details_valid_def)
  have code: "length c \<le> 100" if "det_provider_code d = Some c" for c
    using assms that by (simp add: details_valid_def identifier_upto_def)
  let ?q = "(case det_http_status d of None \<Rightarrow> [] | Some n \<Rightarrow> [''HTTP '' @ int_str n]) @ (case det_provider_code d of None \<Rightarrow> [] | Some c \<Rightarrow> [c])"
  have q: "length (join '', '' ?q) \<le> 110"
    using length_join [of "'', ''" ?q] http code by (auto split: option.splits)
  let ?s = "case map_of SUMMARY_BY_PROVIDER_CODE (case det_provider_code d of None \<Rightarrow> [] | Some c \<Rightarrow> c) of Some s \<Rightarrow> s
    | None \<Rightarrow> (case map_of SUMMARY_BY_HTTP_STATUS (case det_http_status d of None \<Rightarrow> 0 | Some n \<Rightarrow> n) of Some s \<Rightarrow> s
      | None \<Rightarrow> SUMMARY_BY_CATEGORY (det_category d))"
  have s: "length ?s \<le> 150" using length_tables by (auto split: option.splits)
  show ?thesis
  proof (cases "Option.bind (det_provider_code d) (map_of RUNTIME_CODES)")
    case None
    then have "length (error_summary_from_details d) \<le> length ?s + 3 + length (join '', '' ?q)"
      unfolding error_summary_from_details_def Let_def by simp
    then show ?thesis using q s by linarith
  next
    case (Some t)
    then obtain c where "map_of RUNTIME_CODES c = Some t" by (auto simp: bind_eq_Some_conv)
    from length_tables(3) [OF this] show ?thesis using Some by (simp add: error_summary_from_details_def)
  qed
qed

lemma table_codes: "identifier_upto 100 (ERROR_CODES k)" "identifier_upto 100 REDACTED_ERROR_CODE"
  by (cases k; simp add: identifier_upto_def identifier_char_def lower_letter_def char_between_def)
    (simp add: REDACTED_ERROR_CODE_def identifier_upto_def identifier_char_def lower_letter_def char_between_def)

text \<open>A stored code is an identifier of at most a hundred characters; what is not one of the fixed codes has no sensitive part.\<close>

lemma safe_error_code_spec:
  "safe_error_code v = Some c \<Longrightarrow> identifier_upto 100 c \<and> (c = REDACTED_ERROR_CODE \<or> (v = Some c \<and> \<not> contains_sensitive c))"
  using table_codes by (auto simp: safe_error_code_def split: option.splits if_splits)

lemma safe_error_summary_spec:
  assumes "safe_error_summary v d = Some s"
  shows "(\<exists>e. d = Some e \<and> s = error_summary_from_details e) \<or> s \<in> snd ` set SAFE_ERROR_SUMMARIES"
proof (cases d)
  case None
  have "REDACTED_ERROR_SUMMARY \<in> snd ` set SAFE_ERROR_SUMMARIES" by (simp add: SAFE_ERROR_SUMMARIES_def)
  moreover have "t \<in> snd ` set SAFE_ERROR_SUMMARIES" if "map_of SAFE_ERROR_SUMMARIES k = Some t" for k t
    using map_of_SomeD [OF that] by (rule image_eqI [rotated]) simp
  ultimately show ?thesis using assms None by (auto simp: safe_error_summary_def split: option.splits if_splits)
qed (use assms in \<open>simp add: safe_error_summary_def\<close>)

lemma safe_summaries_length: "s \<in> snd ` set SAFE_ERROR_SUMMARIES \<Longrightarrow> length s \<le> 500"
  by (auto simp: SAFE_ERROR_SUMMARIES_def REDACTED_ERROR_SUMMARY_def)

end
