(* ===== verification/Communication_Deliveries.thy ===== *)
theory Communication_Deliveries
  imports Agent_Authorization Event_Outbox Communication_Errors "HOL-Library.Product_Lexorder"
begin

text \<open>
  Chat deliveries (\<open>api/domains/communications/delivery_repository.py\<close>): messages of a chat platform on
  their way to an Agent and its replies on their way back, with claims, leases, retries,
  cancellation and the order of a conversation; and the operation journal written with them
  (\<open>operations.py\<close>). The repository is always constructed with the operational repository, so the
  journal is always written.
\<close>

section \<open>Rows\<close>

datatype comm_direction = INBOUND | OUTBOUND

datatype comm_status = CommPENDING | CommPROCESSING | CommSUCCEEDED | CommDEAD_LETTERED | CommCANCELLED | CommUNAVAILABLE

datatype conversation_type = CHANNEL | DM

datatype policy_disposition =
  ACCEPTED | BOT_IGNORED | EVENT_IGNORED | MENTION_REQUIRED | USER_DENIED | CHANNEL_DENIED | MALFORMED_PAYLOAD

datatype journal_stage =
    StPROVIDER_OBSERVED | StPOLICY_ADMITTED | StPOLICY_REJECTED | StQUEUED | StAGENT_CLAIMED | StMODEL_COMPLETED
  | StREPLY_QUEUED | StINITIATED_QUEUED | StPROVIDER_DELIVERY_ATTEMPTED | StPROVIDER_DELIVERED
  | StCONNECTION_CONNECTING | StCONNECTION_CONNECTED | StCONNECTION_DEGRADED | StCONNECTION_ERROR
  | StRECONNECT_REQUESTED | StRETRY_REQUESTED | StDEAD_LETTERED | StRECOVERED

record communication_connection =
  cn_id :: uuid
  cn_organization_id :: uuid
  cn_agent_id :: uuid
  cn_platform_key :: string
  cn_display_name :: string
  cn_enabled :: bool
  cn_retired_at :: "datetime option"
  cn_revision :: nat

record communication_attachment =
  cat_id :: string
  cat_media_type :: string
  cat_filename :: "string option"
  cat_size_bytes :: "nat option"

record conversation_location =
  loc_id :: string
  loc_type :: conversation_type
  loc_display_name :: "string option"
  loc_thread_id :: "string option"

record communication_sender =
  snd_id :: "string option"
  snd_display_name :: "string option"

record normalized_envelope =
  env_provider_message_id :: string
  env_occurred_at :: datetime
  env_location :: conversation_location
  env_sender :: communication_sender
  env_text :: string
  env_mentions :: "string list"
  env_attachments :: "communication_attachment list"
  env_reply_to_provider_message_id :: "string option"
  env_provider_metadata :: "(string \<times> json) list"

record approval_request =
  apr_approval_id :: string
  apr_command :: string
  apr_choices :: "string list"
  apr_choice_labels :: "(string \<times> string) list"

text \<open>A reply; the origins of gateway-initiated messages are retired, so an envelope has the origin \<open>reply\<close>.\<close>

record outbound_envelope =
  out_source_delivery_id :: "uuid option"
  out_location :: conversation_location
  out_text :: string
  out_attachments :: "communication_attachment list"
  out_reply_to_provider_message_id :: "string option"
  out_provider_metadata :: "(string \<times> json) list"
  out_approval :: "approval_request option"

record runtime_reply =
  rep_idempotency_key :: string
  rep_text :: string
  rep_attachments :: "communication_attachment list"
  rep_approval :: "approval_request option"

text \<open>The JSON column \<open>envelope\<close> holds the dump of either kind.\<close>

datatype stored_envelope = InboundEnvelope normalized_envelope | OutboundEnvelope outbound_envelope

record agent_chat_message =
  acm_id :: uuid
  acm_created_at :: datetime
  acm_agent_id :: uuid
  acm_connection_id :: uuid
  acm_openclaw_msg_id :: string
  acm_session_key :: string
  acm_channel_id :: string
  acm_thread_id :: "string option"
  acm_direction :: comm_direction
  acm_conversation_type :: conversation_type
  acm_sender_id :: "string option"
  acm_sender_name :: "string option"
  acm_channel_name :: "string option"
  acm_content :: string
  acm_occurred_at :: datetime

record communication_delivery =
  cd_id :: uuid
  cd_created_at :: datetime
  cd_organization_id :: uuid
  cd_agent_id :: uuid
  cd_connection_id :: uuid
  cd_message_id :: uuid
  cd_direction :: comm_direction
  cd_status :: comm_status
  cd_idempotency_key :: string
  cd_ordering_key :: string
  cd_attempt_count :: nat
  cd_available_at :: datetime
  cd_claimed_at :: "datetime option"
  cd_lease_expires_at :: "datetime option"
  cd_completed_at :: "datetime option"
  cd_provider_message_id :: "string option"
  cd_last_error_code :: "string option"
  cd_last_error_message :: "string option"
  cd_cancel_requested_at :: "datetime option"
  cd_awaiting_input :: bool
  cd_envelope :: stored_envelope

text \<open>The keyword arguments of \<open>stage_journal\<close>; an entry also has the time since the previous one, here in microseconds.\<close>

record journal_request =
  jr_organization_id :: uuid
  jr_agent_id :: uuid
  jr_connection_id :: uuid
  jr_stage :: journal_stage
  jr_delivery_id :: "uuid option"
  jr_disposition :: "policy_disposition option"
  jr_attempt_number :: nat
  jr_occurred_at :: datetime
  jr_error_code :: "string option"
  jr_error_summary :: "string option"
  jr_error_details :: "communication_error_details option"

record journal_entry = journal_request +
  je_duration :: "int option"

record comm_db =
  cm_agents :: "agent list"
  cm_connections :: "communication_connection list"
  cm_messages :: "agent_chat_message list"
  cm_deliveries :: "communication_delivery list"
  cm_journal :: "journal_entry list"
  cm_events :: event_db

record accepted_communication =
  ac_message_id :: uuid
  ac_delivery_id :: uuid
  ac_status :: comm_status
  ac_duplicate :: bool

record runtime_delivery =
  rd_delivery_id :: uuid
  rd_message_id :: uuid
  rd_connection_id :: uuid
  rd_attempt_count :: nat
  rd_envelope :: normalized_envelope

section \<open>Transport\<close>

definition PLATFORM_TRANSPORTS :: "(string \<times> string) list" where
  "PLATFORM_TRANSPORTS =
    [(''slack'', ''native''), (''discord'', ''native''), (''telegram'', ''native''), (''teams'', ''native''),
     (''agentbarn_telegram'', ''native''), (''web'', ''gateway''), (''email'', ''gateway'')]"

definition GATEWAY_PLATFORM_KEYS :: "string list" where
  "GATEWAY_PLATFORM_KEYS = map fst (filter (\<lambda>(k, t). t = ''gateway'') PLATFORM_TRANSPORTS)"

definition require_gateway_transport :: "string \<Rightarrow> unit result" where
  "require_gateway_transport key =
    (case map_of PLATFORM_TRANSPORTS key of
       None \<Rightarrow> Inl KeyError
     | Some t \<Rightarrow> raise_if (t \<noteq> ''gateway'')
         (NativeTransportUnsupported ''This Platform uses native transport; gateway delivery is unsupported''))"

text \<open>The join with the connection, on a gateway platform.\<close>

definition on_gateway :: "comm_db \<Rightarrow> communication_delivery \<Rightarrow> bool" where
  "on_gateway db d \<longleftrightarrow> (\<exists>c \<in> set (cm_connections db). cn_id c = cd_connection_id d \<and> cn_platform_key c \<in> set GATEWAY_PLATFORM_KEYS)"

section \<open>Journal and events\<close>

definition connection_stage :: "journal_stage \<Rightarrow> bool" where
  "connection_stage s \<longleftrightarrow> s \<in> {StCONNECTION_CONNECTING, StCONNECTION_CONNECTED, StCONNECTION_DEGRADED, StCONNECTION_ERROR, StRECONNECT_REQUESTED}"

definition duration_from_previous :: "journal_entry list \<Rightarrow> journal_request \<Rightarrow> int option" where
  "duration_from_previous journal rq =
    (case filter (\<lambda>e. jr_connection_id e = jr_connection_id rq \<and> jr_delivery_id e = jr_delivery_id rq \<and>
            (connection_stage (jr_stage rq) \<longrightarrow> connection_stage (jr_stage e)) \<and> jr_occurred_at e \<le> jr_occurred_at rq) journal of
       [] \<Rightarrow> None
     | e # es \<Rightarrow> Some (jr_occurred_at rq - Max (jr_occurred_at ` set (e # es))))"

definition stage_journal :: "journal_request \<Rightarrow> comm_db \<Rightarrow> comm_db" where
  "stage_journal rq db =
    db\<lparr>cm_journal := cm_journal db @
      [journal_request.extend
        (rq\<lparr>jr_error_code := (case safe_error_code (jr_error_code rq) of Some c \<Rightarrow> Some c | None \<Rightarrow> error_code_from_details (jr_error_details rq)),
            jr_error_summary := safe_error_summary (jr_error_summary rq) (jr_error_details rq)\<rparr>)
        (journal_entry.fields (duration_from_previous (cm_journal db) rq))]\<rparr>"

definition has_stage :: "comm_db \<Rightarrow> uuid \<Rightarrow> journal_stage \<Rightarrow> bool" where
  "has_stage db i s \<longleftrightarrow> (\<exists>e \<in> set (cm_journal db). jr_delivery_id e = Some i \<and> jr_stage e = s)"

text \<open>The journal arguments of a delivery.\<close>

definition delivery_journal :: "communication_delivery \<Rightarrow> journal_stage \<Rightarrow> nat \<Rightarrow> datetime \<Rightarrow> journal_request" where
  "delivery_journal d stage attempt now =
    \<lparr>jr_organization_id = cd_organization_id d, jr_agent_id = cd_agent_id d, jr_connection_id = cd_connection_id d,
     jr_stage = stage, jr_delivery_id = Some (cd_id d), jr_disposition = None, jr_attempt_number = attempt,
     jr_occurred_at = now, jr_error_code = None, jr_error_summary = None, jr_error_details = None\<rparr>"

definition stage_comm_event ::
  "event_registry \<Rightarrow> (nat \<Rightarrow> uuid) \<Rightarrow> string \<Rightarrow> uuid \<Rightarrow> actor_identity \<Rightarrow> subject_identity \<Rightarrow> (string \<times> json) list \<Rightarrow> datetime
    \<Rightarrow> comm_db \<Rightarrow> comm_db result" where
  "stage_comm_event reg ids name org actor subject payload now db =
    bind_result (build_event reg (ids 0)
      \<lparr>rq_event_name = name, rq_schema_version = 1, rq_occurred_at = now, rq_organization_id = Some org, rq_actor = actor,
       rq_subject = subject, rq_correlation_id = ids 1, rq_payload = JObj (map (\<lambda>(k, v). (KStr k, v)) payload),
       rq_causation_id = None, rq_event_scope = None\<rparr>) (\<lambda>ev.
    bind_result (outbox_stage (\<lambda>i. ids (i + 2)) now ev reg (cm_events db)) (\<lambda>(events, m).
    Inr (db\<lparr>cm_events := events\<rparr>)))"

definition direction_value :: "comm_direction \<Rightarrow> string" where
  "direction_value r = (case r of INBOUND \<Rightarrow> ''INBOUND'' | OUTBOUND \<Rightarrow> ''OUTBOUND'')"

definition delivery_subject :: "communication_delivery \<Rightarrow> subject_identity" where
  "delivery_subject d =
    \<lparr>subject_type = SubjectAgent, subject_id = uuid_str (cd_agent_id d), subject_organization_id = Some (cd_organization_id d)\<rparr>"

definition delivery_payload :: "communication_delivery \<Rightarrow> nat \<Rightarrow> string \<Rightarrow> string \<Rightarrow> (string \<times> json) list" where
  "delivery_payload d attempt actor_display subject_display =
    [(''organization_id'', JStr (uuid_str (cd_organization_id d))), (''agent_id'', JStr (uuid_str (cd_agent_id d))),
     (''connection_id'', JStr (uuid_str (cd_connection_id d))), (''delivery_id'', JStr (uuid_str (cd_id d))),
     (''direction'', JStr (direction_value (cd_direction d))), (''attempt_number'', JInt (int attempt)),
     (''actor_display'', JStr actor_display), (''subject_display'', JStr subject_display)]"

definition opt_str :: "string option \<Rightarrow> json" where
  "opt_str v = (case v of None \<Rightarrow> JNull | Some s \<Rightarrow> JStr s)"

definition COMMUNICATION_DELIVERY_DEAD_LETTERED :: string where
  "COMMUNICATION_DELIVERY_DEAD_LETTERED = ''communication.delivery.dead_lettered''"

definition COMMUNICATION_DELIVERY_RECOVERED :: string where
  "COMMUNICATION_DELIVERY_RECOVERED = ''communication.delivery.recovered''"

definition COMMUNICATION_DELIVERY_RETRY_REQUESTED :: string where
  "COMMUNICATION_DELIVERY_RETRY_REQUESTED = ''communication.delivery.retry.requested''"

definition stage_delivery_event ::
  "event_registry \<Rightarrow> (nat \<Rightarrow> uuid) \<Rightarrow> communication_delivery \<Rightarrow> string \<Rightarrow> datetime \<Rightarrow> comm_db \<Rightarrow> comm_db result" where
  "stage_delivery_event reg ids d name now db =
    (let subject_display = (case row_get cn_id (cd_connection_id d) (cm_connections db) of
           Some c \<Rightarrow> cn_display_name c | None \<Rightarrow> ''Communication Connection'');
         payload = delivery_payload d (cd_attempt_count d) ''Communications Runtime'' subject_display @
           (if name = COMMUNICATION_DELIVERY_DEAD_LETTERED
            then [(''error_code'', opt_str (cd_last_error_code d)), (''error_summary'', opt_str (cd_last_error_message d))] else [])
     in stage_comm_event reg ids name (cd_organization_id d)
          \<lparr>actor_type = ActorSystem, actor_id = ''communications-runtime'', actor_organization_id = None\<rparr>
          (delivery_subject d) payload now db)"

definition stage_completion_journal ::
  "event_registry \<Rightarrow> (nat \<Rightarrow> uuid) \<Rightarrow> communication_delivery \<Rightarrow> datetime \<Rightarrow> communication_error_details option \<Rightarrow> comm_db \<Rightarrow> comm_db result" where
  "stage_completion_journal reg ids d now details db =
    (let stage = (if cd_direction d = OUTBOUND
           then (if cd_status d = CommSUCCEEDED then StPROVIDER_DELIVERED else StPROVIDER_DELIVERY_ATTEMPTED)
           else StMODEL_COMPLETED);
         outcome = (\<lambda>s. (delivery_journal d s (cd_attempt_count d) now)
           \<lparr>jr_error_code := cd_last_error_code d, jr_error_summary := cd_last_error_message d, jr_error_details := details\<rparr>);
         db1 = stage_journal (outcome stage) db
     in if cd_status d = CommDEAD_LETTERED then
          stage_delivery_event reg ids d COMMUNICATION_DELIVERY_DEAD_LETTERED now (stage_journal (outcome StDEAD_LETTERED) db1)
        else if cd_status d = CommSUCCEEDED \<and> has_stage db1 (cd_id d) StRETRY_REQUESTED then
          stage_delivery_event reg ids d COMMUNICATION_DELIVERY_RECOVERED now
            (stage_journal (delivery_journal d StRECOVERED (cd_attempt_count d) now) db1)
        else Inr db1)"

section \<open>What happens to a row\<close>

definition backoff :: "nat \<Rightarrow> int" where
  "backoff n = seconds (min 300 (2 ^ n))"

definition apply_completion ::
  "bool \<Rightarrow> datetime \<Rightarrow> nat \<Rightarrow> string option \<Rightarrow> string option \<Rightarrow> communication_error_details option
    \<Rightarrow> communication_delivery \<Rightarrow> communication_delivery" where
  "apply_completion success now max_attempts code message details d =
    (let code1 = (case safe_error_code code of Some c \<Rightarrow> Some c | None \<Rightarrow> error_code_from_details details);
         message1 = safe_error_summary message details;
         d1 = d\<lparr>cd_lease_expires_at := None, cd_last_error_code := code1, cd_last_error_message := message1\<rparr>
     in if cd_cancel_requested_at d \<noteq> None then
          d1\<lparr>cd_status := CommCANCELLED, cd_completed_at := Some now,
             cd_last_error_code := Some (case code1 of Some c \<Rightarrow> c | None \<Rightarrow> ''CANCELLED''),
             cd_last_error_message := Some (case message1 of Some m \<Rightarrow> m | None \<Rightarrow> ''Cancelled by user'')\<rparr>
        else if success then d1\<lparr>cd_status := CommSUCCEEDED, cd_completed_at := Some now\<rparr>
        else if (\<exists>e. details = Some e \<and> \<not> det_retryable e) then d1\<lparr>cd_status := CommDEAD_LETTERED, cd_completed_at := Some now\<rparr>
        else if max_attempts \<le> cd_attempt_count d then d1\<lparr>cd_status := CommDEAD_LETTERED, cd_completed_at := Some now\<rparr>
        else d1\<lparr>cd_status := CommPENDING, cd_available_at := now + backoff (cd_attempt_count d), cd_claimed_at := None\<rparr>)"

definition claimed_inbound :: "datetime \<Rightarrow> int \<Rightarrow> communication_delivery \<Rightarrow> communication_delivery" where
  "claimed_inbound now lease d =
    d\<lparr>cd_status := CommPROCESSING, cd_claimed_at := Some now, cd_lease_expires_at := Some (now + seconds lease),
      cd_awaiting_input := False, cd_attempt_count := cd_attempt_count d + 1\<rparr>"

definition claimed_outbound :: "datetime \<Rightarrow> int \<Rightarrow> communication_delivery \<Rightarrow> communication_delivery" where
  "claimed_outbound now lease d =
    d\<lparr>cd_status := CommPROCESSING, cd_claimed_at := Some now, cd_lease_expires_at := Some (now + seconds lease),
      cd_attempt_count := cd_attempt_count d + 1\<rparr>"

definition cancel_requested :: "datetime \<Rightarrow> communication_delivery \<Rightarrow> communication_delivery" where
  "cancel_requested now d =
    (let d1 = d\<lparr>cd_cancel_requested_at := Some now\<rparr>
     in if cd_status d = CommPENDING
        then d1\<lparr>cd_status := CommCANCELLED, cd_completed_at := Some now, cd_last_error_code := Some ''CANCELLED'',
               cd_last_error_message := Some ''Cancelled by user''\<rparr>
        else d1)"

definition renewed :: "datetime \<Rightarrow> int \<Rightarrow> bool \<Rightarrow> communication_delivery \<Rightarrow> communication_delivery" where
  "renewed now lease awaiting d = d\<lparr>cd_lease_expires_at := Some (now + seconds lease), cd_awaiting_input := awaiting\<rparr>"

definition requeued_outbound :: "communication_delivery \<Rightarrow> communication_delivery" where
  "requeued_outbound d = d\<lparr>cd_status := CommPENDING, cd_claimed_at := None, cd_lease_expires_at := None\<rparr>"

definition retry_requested :: "datetime \<Rightarrow> communication_delivery \<Rightarrow> communication_delivery" where
  "retry_requested now d =
    d\<lparr>cd_status := CommPENDING, cd_attempt_count := 0, cd_available_at := now, cd_claimed_at := None, cd_lease_expires_at := None,
      cd_completed_at := None, cd_provider_message_id := None, cd_last_error_code := None, cd_last_error_message := None\<rparr>"

definition fill :: "string option \<Rightarrow> string option \<Rightarrow> string option" where
  "fill old new = (case old of None \<Rightarrow> new | Some s \<Rightarrow> Some s)"

definition backfill_delivery_names :: "normalized_envelope \<Rightarrow> communication_delivery \<Rightarrow> communication_delivery" where
  "backfill_delivery_names env d =
    (case cd_envelope d of
       InboundEnvelope e \<Rightarrow>
         d\<lparr>cd_envelope := InboundEnvelope (e
           \<lparr>env_sender := (env_sender e)\<lparr>snd_display_name := fill (snd_display_name (env_sender e)) (snd_display_name (env_sender env))\<rparr>,
            env_location := (env_location e)\<lparr>loc_display_name := fill (loc_display_name (env_location e)) (loc_display_name (env_location env))\<rparr>\<rparr>)\<rparr>
     | OutboundEnvelope e \<Rightarrow> d)"

section \<open>Operations\<close>

definition put_delivery :: "communication_delivery \<Rightarrow> comm_db \<Rightarrow> comm_db" where
  "put_delivery d db = db\<lparr>cm_deliveries := row_put cd_id d (cm_deliveries db)\<rparr>"

definition same_key :: "communication_delivery \<Rightarrow> communication_delivery \<Rightarrow> bool" where
  "same_key x y \<longleftrightarrow> cd_connection_id x = cd_connection_id y \<and> cd_direction x = cd_direction y \<and> cd_idempotency_key x = cd_idempotency_key y"

definition insert_comm_delivery :: "communication_delivery \<Rightarrow> comm_db \<Rightarrow> comm_db result" where
  "insert_comm_delivery d db =
    bind_result (raise_if (row_get cd_id (cd_id d) (cm_deliveries db) \<noteq> None) (IntegrityError ''communication_delivery_pkey'')) (\<lambda>_.
    bind_result (raise_if (\<exists>x \<in> set (cm_deliveries db). same_key x d) (IntegrityError ''uq_communication_delivery_idempotency'')) (\<lambda>_.
    Inr (db\<lparr>cm_deliveries := row_add d (cm_deliveries db)\<rparr>)))"

definition find_message :: "comm_db \<Rightarrow> uuid \<Rightarrow> string \<Rightarrow> agent_chat_message option" where
  "find_message db cid key = find (\<lambda>m. acm_connection_id m = cid \<and> acm_openclaw_msg_id m = key) (cm_messages db)"

definition insert_chat_message :: "agent_chat_message \<Rightarrow> comm_db \<Rightarrow> comm_db result" where
  "insert_chat_message m db =
    bind_result (raise_if (row_get acm_id (acm_id m) (cm_messages db) \<noteq> None) (IntegrityError ''agent_chat_message_pkey'')) (\<lambda>_.
    bind_result (raise_if (find_message db (acm_connection_id m) (acm_openclaw_msg_id m) \<noteq> None)
      (IntegrityError ''uq_agent_chat_message_connection_msg'')) (\<lambda>_.
    Inr (db\<lparr>cm_messages := row_add m (cm_messages db)\<rparr>)))"

definition ordering_key_for_location :: "uuid \<Rightarrow> conversation_location \<Rightarrow> string" where
  "ordering_key_for_location cid loc =
    (let thread = (case loc_thread_id loc of None \<Rightarrow> ''root'' | Some t \<Rightarrow> if t = [] then ''root'' else t)
     in uuid_str cid @ '':'' @ loc_id loc @ '':'' @ thread)"

definition message_values :: "agent \<Rightarrow> uuid \<Rightarrow> normalized_envelope \<Rightarrow> uuid \<Rightarrow> datetime \<Rightarrow> agent_chat_message" where
  "message_values a cid env new_id now =
    \<lparr>acm_id = new_id, acm_created_at = now, acm_agent_id = agent_id a, acm_connection_id = cid,
     acm_openclaw_msg_id = env_provider_message_id env, acm_session_key = ordering_key_for_location cid (env_location env),
     acm_channel_id = loc_id (env_location env), acm_thread_id = loc_thread_id (env_location env), acm_direction = INBOUND,
     acm_conversation_type = loc_type (env_location env), acm_sender_id = snd_id (env_sender env),
     acm_sender_name = snd_display_name (env_sender env), acm_channel_name = loc_display_name (env_location env),
     acm_content = env_text env, acm_occurred_at = env_occurred_at env\<rparr>"

definition backfill_message_names :: "normalized_envelope \<Rightarrow> agent_chat_message \<Rightarrow> agent_chat_message" where
  "backfill_message_names env m =
    m\<lparr>acm_sender_name := fill (acm_sender_name m) (snd_display_name (env_sender env)),
      acm_channel_name := fill (acm_channel_name m) (loc_display_name (env_location env))\<rparr>"

text \<open>\<open>INSERT ... ON CONFLICT DO NOTHING RETURNING\<close>; the message id and whether the message was there.\<close>

definition store_message :: "agent_chat_message \<Rightarrow> normalized_envelope \<Rightarrow> comm_db \<Rightarrow> (comm_db \<times> uuid \<times> bool) result" where
  "store_message m env db =
    (case find_message db (acm_connection_id m) (acm_openclaw_msg_id m) of
       Some old \<Rightarrow> Inr (db\<lparr>cm_messages := row_put acm_id (backfill_message_names env old) (cm_messages db)\<rparr>, acm_id old, True)
     | None \<Rightarrow> bind_result (insert_chat_message m db) (\<lambda>db1. Inr (db1, acm_id m, False)))"

definition find_delivery :: "comm_db \<Rightarrow> uuid \<Rightarrow> comm_direction \<Rightarrow> string \<Rightarrow> communication_delivery option" where
  "find_delivery db cid r key =
    find (\<lambda>d. cd_connection_id d = cid \<and> cd_direction d = r \<and> cd_idempotency_key d = key) (cm_deliveries db)"

definition inbound_row :: "agent \<Rightarrow> uuid \<Rightarrow> uuid \<Rightarrow> normalized_envelope \<Rightarrow> uuid \<Rightarrow> datetime \<Rightarrow> communication_delivery" where
  "inbound_row a cid mid env new_id now =
    (let up = agent_status a = RUNNING
     in \<lparr>cd_id = new_id, cd_created_at = now, cd_organization_id = agent_organization_id a, cd_agent_id = agent_id a,
         cd_connection_id = cid, cd_message_id = mid, cd_direction = INBOUND,
         cd_status = (if up then CommPENDING else CommUNAVAILABLE), cd_idempotency_key = env_provider_message_id env,
         cd_ordering_key = ordering_key_for_location cid (env_location env), cd_attempt_count = 0, cd_available_at = now,
         cd_claimed_at = None, cd_lease_expires_at = None, cd_completed_at = (if up then None else Some now),
         cd_provider_message_id = None, cd_last_error_code = (if up then None else Some ''AGENT_STOPPED''),
         cd_last_error_message = (if up then None else Some ''Agent was not running when the message arrived''),
         cd_cancel_requested_at = None, cd_awaiting_input = False, cd_envelope = InboundEnvelope env\<rparr>)"

definition accept_inbound ::
  "(nat \<Rightarrow> uuid) \<Rightarrow> datetime \<Rightarrow> uuid \<Rightarrow> normalized_envelope \<Rightarrow> comm_db \<Rightarrow> (comm_db \<times> accepted_communication) result" where
  "accept_inbound new_ids now cid env db =
    (case row_get cn_id cid (cm_connections db) of
       None \<Rightarrow> Inl (LookupError ''Communication Connection is unavailable'')
     | Some c \<Rightarrow>
         bind_result (raise_if (cn_retired_at c \<noteq> None \<or> \<not> cn_enabled c) (LookupError ''Communication Connection is unavailable'')) (\<lambda>_.
         case row_get agent_id (cn_agent_id c) (cm_agents db) of
           None \<Rightarrow> Inl (LookupError ''Agent is unavailable'')
         | Some a \<Rightarrow>
             bind_result (raise_if (agent_deleted_at a \<noteq> None) (LookupError ''Agent is unavailable'')) (\<lambda>_.
             bind_result (store_message (message_values a cid env (new_ids 0) now) env db) (\<lambda>(db1, mid, duplicate).
             case find_delivery db1 cid INBOUND (env_provider_message_id env) of
               Some old \<Rightarrow>
                 Inr (put_delivery (backfill_delivery_names env old) db1,
                   \<lparr>ac_message_id = mid, ac_delivery_id = cd_id old, ac_status = cd_status old, ac_duplicate = True\<rparr>)
             | None \<Rightarrow>
                 let d = inbound_row a cid mid env (new_ids 1) now in
                 bind_result (insert_comm_delivery d db1) (\<lambda>db2.
                 Inr (stage_journal ((delivery_journal d StQUEUED (if cd_status d = CommPENDING then 1 else 0) now)
                     \<lparr>jr_error_code := cd_last_error_code d, jr_error_summary := cd_last_error_message d\<rparr>) db2,
                   \<lparr>ac_message_id = mid, ac_delivery_id = cd_id d, ac_status = cd_status d, ac_duplicate = duplicate\<rparr>))))))"

text \<open>\<open>ORDER BY available_at, created_at, id LIMIT 1\<close>; \<open>locked\<close> are the rows that other transactions hold.\<close>

definition first_available :: "communication_delivery list \<Rightarrow> communication_delivery option" where
  "first_available ds =
    (case sort_key (\<lambda>d. (cd_available_at d, cd_created_at d, cd_id d)) ds of [] \<Rightarrow> None | d # _ \<Rightarrow> Some d)"

definition holds_thread :: "string \<Rightarrow> communication_delivery \<Rightarrow> bool" where
  "holds_thread key d \<longleftrightarrow> cd_ordering_key d = key \<and> cd_status d = CommPROCESSING \<and> \<not> cd_awaiting_input d"

definition inbound_claimable :: "comm_db \<Rightarrow> datetime \<Rightarrow> uuid \<Rightarrow> communication_delivery \<Rightarrow> bool" where
  "inbound_claimable db now aid d \<longleftrightarrow>
    cd_agent_id d = aid \<and> cd_direction d = INBOUND \<and> cd_status d = CommPENDING \<and> cd_available_at d \<le> now \<and>
    \<not> (\<exists>x \<in> set (cm_deliveries db). holds_thread (cd_ordering_key d) x) \<and> on_gateway db d"

definition runtime_read :: "communication_delivery \<Rightarrow> runtime_delivery result" where
  "runtime_read d =
    (case cd_envelope d of
       InboundEnvelope e \<Rightarrow>
         Inr \<lparr>rd_delivery_id = cd_id d, rd_message_id = cd_message_id d, rd_connection_id = cd_connection_id d,
              rd_attempt_count = cd_attempt_count d, rd_envelope = e\<rparr>
     | OutboundEnvelope e \<Rightarrow> Inl (ValueError ''NormalizedCommunicationEnvelope''))"

fun reclaim_loop ::
  "event_registry \<Rightarrow> (nat \<Rightarrow> nat \<Rightarrow> uuid) \<Rightarrow> datetime \<Rightarrow> nat \<Rightarrow> communication_delivery list \<Rightarrow> runtime_delivery list \<Rightarrow> comm_db
    \<Rightarrow> (comm_db \<times> runtime_delivery list) result" where
  "reclaim_loop reg ids now max_attempts [] dead db = Inr (db, dead)"
| "reclaim_loop reg ids now max_attempts (d # ds) dead db =
    (let d' = apply_completion False now max_attempts (Some ''LEASE_EXPIRED'')
           (Some ''Runtime did not complete this delivery before its claim lease expired'') None d in
     bind_result (stage_completion_journal reg (ids (length ds)) d' now None (put_delivery d' db)) (\<lambda>db1.
     if cd_status d' = CommDEAD_LETTERED
     then bind_result (runtime_read d') (\<lambda>r. reclaim_loop reg ids now max_attempts ds (dead @ [r]) db1)
     else reclaim_loop reg ids now max_attempts ds dead db1))"

definition inbound_expired :: "comm_db \<Rightarrow> datetime \<Rightarrow> uuid \<Rightarrow> communication_delivery \<Rightarrow> bool" where
  "inbound_expired db now aid d \<longleftrightarrow>
    cd_agent_id d = aid \<and> cd_direction d = INBOUND \<and> cd_status d = CommPROCESSING \<and>
    (\<exists>t. cd_lease_expires_at d = Some t \<and> t < now) \<and> on_gateway db d"

definition reclaim_expired_inbound ::
  "event_registry \<Rightarrow> (nat \<Rightarrow> nat \<Rightarrow> uuid) \<Rightarrow> datetime \<Rightarrow> (uuid \<Rightarrow> bool) \<Rightarrow> uuid \<Rightarrow> nat \<Rightarrow> comm_db \<Rightarrow> (comm_db \<times> runtime_delivery list) result" where
  "reclaim_expired_inbound reg ids now locked aid max_attempts db =
    reclaim_loop reg ids now max_attempts
      (row_where (\<lambda>d. inbound_expired db now aid d \<and> \<not> locked (cd_id d)) (cm_deliveries db)) [] db"

text \<open>The claim of the transaction itself, after the sweep of expired leases.\<close>

definition claim_inbound ::
  "datetime \<Rightarrow> (uuid \<Rightarrow> bool) \<Rightarrow> uuid \<Rightarrow> int \<Rightarrow> comm_db \<Rightarrow> comm_db \<times> runtime_delivery option result" where
  "claim_inbound now locked aid lease db =
    (case first_available (row_where (\<lambda>d. inbound_claimable db now aid d \<and> \<not> locked (cd_id d)) (cm_deliveries db)) of
       None \<Rightarrow> (db, Inr None)
     | Some d \<Rightarrow>
         let d' = claimed_inbound now lease d in
         (stage_journal (delivery_journal d' StAGENT_CLAIMED (cd_attempt_count d') now) (put_delivery d' db),
          bind_result (runtime_read d') (\<lambda>r. Inr (Some r))))"

definition claim_next_inbound ::
  "event_registry \<Rightarrow> (nat \<Rightarrow> nat \<Rightarrow> uuid) \<Rightarrow> datetime \<Rightarrow> datetime \<Rightarrow> (uuid \<Rightarrow> bool) \<Rightarrow> uuid \<Rightarrow> int \<Rightarrow> nat \<Rightarrow> bool \<Rightarrow> comm_db
    \<Rightarrow> comm_db \<times> runtime_delivery option result" where
  "claim_next_inbound reg ids now0 now locked aid lease max_attempts reclaim_expired db =
    (if reclaim_expired
     then (case reclaim_expired_inbound reg ids now0 locked aid max_attempts db of
         Inl e \<Rightarrow> (db, Inl e)
       | Inr (db1, dead) \<Rightarrow> claim_inbound now locked aid lease db1)
     else claim_inbound now locked aid lease db)"

definition find_active_inbound_delivery :: "comm_db \<Rightarrow> uuid \<Rightarrow> string \<Rightarrow> uuid option" where
  "find_active_inbound_delivery db cid key =
    (case sort_key (\<lambda>d. (if cd_status d = CommPROCESSING then 0 else 1 :: nat, - cd_created_at d))
        (row_where (\<lambda>d. cd_connection_id d = cid \<and> cd_direction d = INBOUND \<and> cd_ordering_key d = key \<and>
          cd_status d \<in> {CommPENDING, CommPROCESSING}) (cm_deliveries db)) of
       [] \<Rightarrow> None
     | d # _ \<Rightarrow> Some (cd_id d))"

text \<open>A query by primary key with further conditions.\<close>

definition get_where :: "(communication_delivery \<Rightarrow> bool) \<Rightarrow> uuid \<Rightarrow> comm_db \<Rightarrow> communication_delivery option" where
  "get_where P i db = find (\<lambda>d. cd_id d = i \<and> P d) (cm_deliveries db)"

definition request_cancel :: "datetime \<Rightarrow> uuid \<Rightarrow> uuid \<Rightarrow> comm_db \<Rightarrow> comm_db \<times> comm_status option" where
  "request_cancel now i aid db =
    (case get_where (\<lambda>d. cd_agent_id d = aid \<and> cd_direction d = INBOUND \<and> cd_status d \<in> {CommPENDING, CommPROCESSING}) i db of
       None \<Rightarrow> (db, None)
     | Some d \<Rightarrow> (put_delivery (cancel_requested now d) db, Some (cd_status (cancel_requested now d))))"

definition renew_runtime_delivery_lease :: "datetime \<Rightarrow> uuid \<Rightarrow> uuid \<Rightarrow> int \<Rightarrow> bool \<Rightarrow> comm_db \<Rightarrow> comm_db \<times> bool" where
  "renew_runtime_delivery_lease now i aid lease awaiting db =
    (case get_where (\<lambda>d. on_gateway db d \<and> cd_agent_id d = aid \<and> cd_direction d = INBOUND \<and> cd_status d = CommPROCESSING \<and>
        (\<exists>t. cd_lease_expires_at d = Some t \<and> now < t)) i db of
       None \<Rightarrow> (db, False)
     | Some d \<Rightarrow> (put_delivery (renewed now lease awaiting d) db, True))"

definition reply_envelope :: "communication_delivery \<Rightarrow> normalized_envelope \<Rightarrow> runtime_reply \<Rightarrow> outbound_envelope" where
  "reply_envelope source inbound reply =
    \<lparr>out_source_delivery_id = Some (cd_id source), out_location = env_location inbound, out_text = rep_text reply,
     out_attachments = rep_attachments reply, out_reply_to_provider_message_id = Some (env_provider_message_id inbound),
     out_provider_metadata = env_provider_metadata inbound, out_approval = rep_approval reply\<rparr>"

definition reply_message ::
  "uuid \<Rightarrow> communication_delivery \<Rightarrow> normalized_envelope \<Rightarrow> runtime_reply \<Rightarrow> uuid \<Rightarrow> datetime \<Rightarrow> agent_chat_message" where
  "reply_message aid source inbound reply new_id now =
    \<lparr>acm_id = new_id, acm_created_at = now, acm_agent_id = aid, acm_connection_id = cd_connection_id source,
     acm_openclaw_msg_id = ''outbound:'' @ rep_idempotency_key reply, acm_session_key = cd_ordering_key source,
     acm_channel_id = loc_id (env_location inbound), acm_thread_id = loc_thread_id (env_location inbound),
     acm_direction = OUTBOUND, acm_conversation_type = loc_type (env_location inbound), acm_sender_id = None,
     acm_sender_name = None, acm_channel_name = loc_display_name (env_location inbound), acm_content = rep_text reply,
     acm_occurred_at = now\<rparr>"

definition reply_row ::
  "uuid \<Rightarrow> communication_delivery \<Rightarrow> uuid \<Rightarrow> outbound_envelope \<Rightarrow> runtime_reply \<Rightarrow> uuid \<Rightarrow> datetime \<Rightarrow> communication_delivery" where
  "reply_row aid source mid outbound reply new_id now =
    \<lparr>cd_id = new_id, cd_created_at = now, cd_organization_id = cd_organization_id source, cd_agent_id = aid,
     cd_connection_id = cd_connection_id source, cd_message_id = mid, cd_direction = OUTBOUND, cd_status = CommPENDING,
     cd_idempotency_key = rep_idempotency_key reply, cd_ordering_key = cd_ordering_key source, cd_attempt_count = 0,
     cd_available_at = now, cd_claimed_at = None, cd_lease_expires_at = None, cd_completed_at = None,
     cd_provider_message_id = None, cd_last_error_code = None, cd_last_error_message = None,
     cd_cancel_requested_at = None, cd_awaiting_input = False, cd_envelope = OutboundEnvelope outbound\<rparr>"

definition enqueue_runtime_reply ::
  "(nat \<Rightarrow> uuid) \<Rightarrow> datetime \<Rightarrow> uuid \<Rightarrow> uuid \<Rightarrow> runtime_reply \<Rightarrow> comm_db \<Rightarrow> (comm_db \<times> uuid) result" where
  "enqueue_runtime_reply new_ids now aid i reply db =
    (case get_where (\<lambda>d. cd_agent_id d = aid \<and> cd_direction d = INBOUND) i db of
       None \<Rightarrow> Inl (LookupError ''Source Communication Delivery not found'')
     | Some source \<Rightarrow>
         (case row_get cn_id (cd_connection_id source) (cm_connections db) of
            None \<Rightarrow> Inl (LookupError ''Communication Connection not found'')
          | Some c \<Rightarrow>
              bind_result (require_gateway_transport (cn_platform_key c)) (\<lambda>_.
              bind_result (raise_if (cd_cancel_requested_at source \<noteq> None \<or> cd_status source = CommCANCELLED)
                (CommunicationDeliveryCancelledError ''Source Communication Delivery was cancelled'')) (\<lambda>_.
              case find_delivery db (cd_connection_id source) OUTBOUND (rep_idempotency_key reply) of
                Some old \<Rightarrow> Inr (db, cd_id old)
              | None \<Rightarrow>
                  (case cd_envelope source of
                     OutboundEnvelope e \<Rightarrow> Inl (ValueError ''NormalizedCommunicationEnvelope'')
                   | InboundEnvelope inbound \<Rightarrow>
                       bind_result (insert_chat_message (reply_message aid source inbound reply (new_ids 0) now) db) (\<lambda>db1.
                       let d = reply_row aid source (new_ids 0) (reply_envelope source inbound reply) reply (new_ids 1) now in
                       bind_result (insert_comm_delivery d db1) (\<lambda>db2.
                       Inr (stage_journal (delivery_journal d StREPLY_QUEUED 1 now) db2, cd_id d))))))))"

definition BLOCKING_OUTBOUND_STATUSES :: "comm_status list" where
  "BLOCKING_OUTBOUND_STATUSES = [CommPENDING, CommPROCESSING, CommDEAD_LETTERED]"

definition same_stream :: "communication_delivery \<Rightarrow> communication_delivery \<Rightarrow> bool" where
  "same_stream x y \<longleftrightarrow> cd_connection_id x = cd_connection_id y \<and> cd_ordering_key x = cd_ordering_key y \<and>
    cd_direction x = OUTBOUND \<and> cd_direction y = OUTBOUND"

definition earlier :: "communication_delivery \<Rightarrow> communication_delivery \<Rightarrow> bool" where
  "earlier x y \<longleftrightarrow> cd_created_at x < cd_created_at y \<or> (cd_created_at x = cd_created_at y \<and> cd_id x < cd_id y)"

definition outbound_claimable :: "comm_db \<Rightarrow> datetime \<Rightarrow> communication_delivery \<Rightarrow> bool" where
  "outbound_claimable db now d \<longleftrightarrow>
    cd_direction d = OUTBOUND \<and> cd_status d = CommPENDING \<and> cd_available_at d \<le> now \<and>
    (\<exists>c \<in> set (cm_connections db). cn_id c = cd_connection_id d \<and> cn_platform_key c \<in> set GATEWAY_PLATFORM_KEYS \<and>
      cn_enabled c \<and> cn_retired_at c = None) \<and>
    \<not> (\<exists>x \<in> set (cm_deliveries db). same_stream x d \<and> earlier x d \<and> cd_status x \<in> set BLOCKING_OUTBOUND_STATUSES)"

definition outbound_expired :: "comm_db \<Rightarrow> datetime \<Rightarrow> communication_delivery \<Rightarrow> bool" where
  "outbound_expired db now d \<longleftrightarrow>
    cd_direction d = OUTBOUND \<and> cd_status d = CommPROCESSING \<and> (\<exists>t. cd_lease_expires_at d = Some t \<and> t < now) \<and> on_gateway db d"

definition requeue_expired_outbound :: "datetime \<Rightarrow> comm_db \<Rightarrow> comm_db" where
  "requeue_expired_outbound now db =
    db\<lparr>cm_deliveries := map (\<lambda>d. if outbound_expired db now d then requeued_outbound d else d) (cm_deliveries db)\<rparr>"

definition claim_next_outbound ::
  "datetime \<Rightarrow> (uuid \<Rightarrow> bool) \<Rightarrow> int \<Rightarrow> comm_db \<Rightarrow> comm_db \<times> communication_delivery option" where
  "claim_next_outbound now locked lease db =
    (let db1 = requeue_expired_outbound now db in
     case first_available (row_where (\<lambda>d. outbound_claimable db1 now d \<and> \<not> locked (cd_id d)) (cm_deliveries db1)) of
       None \<Rightarrow> (db1, None)
     | Some d \<Rightarrow>
         let d' = claimed_outbound now lease d in
         (stage_journal (delivery_journal d' StPROVIDER_DELIVERY_ATTEMPTED (cd_attempt_count d') now) (put_delivery d' db1), Some d'))"

definition complete_outbound ::
  "event_registry \<Rightarrow> (nat \<Rightarrow> uuid) \<Rightarrow> datetime \<Rightarrow> uuid \<Rightarrow> string option \<Rightarrow> string option \<Rightarrow> string option
    \<Rightarrow> communication_error_details option \<Rightarrow> nat \<Rightarrow> comm_db \<Rightarrow> (comm_db \<times> bool) result" where
  "complete_outbound reg ids now i provider_id code message details max_attempts db =
    (case get_where (\<lambda>d. on_gateway db d \<and> cd_direction d = OUTBOUND \<and> cd_status d = CommPROCESSING) i db of
       None \<Rightarrow> Inr (db, False)
     | Some d \<Rightarrow>
         let d' = (apply_completion (provider_id \<noteq> None) now max_attempts code message details d)\<lparr>cd_provider_message_id := provider_id\<rparr> in
         bind_result (stage_completion_journal reg ids d' now details (put_delivery d' db)) (\<lambda>db1. Inr (db1, True)))"

definition complete_runtime_delivery ::
  "event_registry \<Rightarrow> (nat \<Rightarrow> uuid) \<Rightarrow> datetime \<Rightarrow> uuid \<Rightarrow> uuid \<Rightarrow> bool \<Rightarrow> string option \<Rightarrow> string option
    \<Rightarrow> communication_error_details option \<Rightarrow> nat \<Rightarrow> comm_db \<Rightarrow> (comm_db \<times> bool) result" where
  "complete_runtime_delivery reg ids now i aid success code message details max_attempts db =
    (case get_where (\<lambda>d. on_gateway db d \<and> cd_agent_id d = aid \<and> cd_direction d = INBOUND \<and> cd_status d = CommPROCESSING) i db of
       None \<Rightarrow> Inr (db, False)
     | Some d \<Rightarrow>
         let d' = apply_completion success now max_attempts code message details d in
         bind_result (stage_completion_journal reg ids d' now details (put_delivery d' db)) (\<lambda>db1. Inr (db1, True)))"

definition comm_actor_display :: "actor_identity \<Rightarrow> string" where
  "comm_actor_display actor = (if actor_type actor = ActorSystem then ''Communications Runtime'' else actor_id actor)"

definition retry_dead_lettered ::
  "event_registry \<Rightarrow> (nat \<Rightarrow> uuid) \<Rightarrow> datetime \<Rightarrow> uuid \<Rightarrow> uuid \<Rightarrow> uuid \<Rightarrow> actor_identity \<Rightarrow> comm_db
    \<Rightarrow> (comm_db \<times> communication_delivery) result" where
  "retry_dead_lettered reg ids now i aid cid actor db =
    (case get_where (\<lambda>d. cd_agent_id d = aid \<and> cd_connection_id d = cid \<and> cd_direction d = OUTBOUND \<and> cd_status d = CommDEAD_LETTERED \<and>
        (\<exists>c \<in> set (cm_connections db). cn_id c = cd_connection_id d \<and> cn_enabled c \<and> cn_retired_at c = None)) i db of
       None \<Rightarrow> Inl (CommunicationDeliveryRetryError ''Only an active dead-lettered outbound delivery can be retried'')
     | Some d \<Rightarrow>
         (case row_get cn_id (cd_connection_id d) (cm_connections db) of
            None \<Rightarrow> Inl (CommunicationDeliveryRetryError ''Communication Connection is unavailable'')
          | Some c \<Rightarrow>
              let d' = retry_requested now d in
              bind_result (stage_comm_event reg ids COMMUNICATION_DELIVERY_RETRY_REQUESTED (cd_organization_id d') actor (delivery_subject d')
                (delivery_payload d' 1 (comm_actor_display actor) (cn_display_name c)) now
                (stage_journal (delivery_journal d' StRETRY_REQUESTED 1 now) (put_delivery d' db))) (\<lambda>db1.
              Inr (db1, d'))))"

section \<open>Retirement\<close>

text \<open>
  The end of a connection (\<open>communications/repository.py\<close>) and the soft deletion of an Agent
  (\<open>agents/repository.py\<close>), which retires all its connections: both cancel what is still queued or in
  flight. The encrypted credentials, the observed status and the e-mail addresses, which they also
  clear, are not columns of the model. \<open>CommunicationConnectionConflictError\<close> is a \<open>RuntimeError\<close>.
\<close>

definition retired_connection :: "datetime \<Rightarrow> communication_connection \<Rightarrow> communication_connection" where
  "retired_connection now c = c\<lparr>cn_enabled := False, cn_retired_at := Some now, cn_revision := cn_revision c + 1\<rparr>"

definition retired_delivery :: "datetime \<Rightarrow> communication_delivery \<Rightarrow> communication_delivery" where
  "retired_delivery now d =
    d\<lparr>cd_status := CommCANCELLED, cd_completed_at := Some now, cd_lease_expires_at := None,
      cd_last_error_code := Some ''CONNECTION_RETIRED'', cd_last_error_message := Some ''Communication Connection was retired''\<rparr>"

definition cancel_unfinished :: "(communication_delivery \<Rightarrow> bool) \<Rightarrow> datetime \<Rightarrow> communication_delivery list \<Rightarrow> communication_delivery list" where
  "cancel_unfinished P now =
    map (\<lambda>d. if P d \<and> cd_status d \<in> {CommPENDING, CommPROCESSING} then retired_delivery now d else d)"

definition retire_connection :: "datetime \<Rightarrow> uuid \<Rightarrow> nat \<Rightarrow> comm_db \<Rightarrow> (comm_db \<times> bool) result" where
  "retire_connection now cid expected_revision db =
    (case row_get cn_id cid (cm_connections db) of
       None \<Rightarrow> Inr (db, False)
     | Some c \<Rightarrow>
         if cn_retired_at c \<noteq> None then Inr (db, False)
         else if cn_revision c \<noteq> expected_revision
         then Inl (RuntimeError ''Communication Connection changed; refresh and retry'')
         else Inr
           (db\<lparr>cm_connections := row_put cn_id (retired_connection now c) (cm_connections db),
               cm_deliveries := cancel_unfinished (\<lambda>d. cd_connection_id d = cid) now (cm_deliveries db)\<rparr>, True))"

definition AGENT_DELETED :: string where
  "AGENT_DELETED = ''agent.deleted''"

definition actor_type_value :: "actor_identity_type \<Rightarrow> string" where
  "actor_type_value t =
    (case t of ActorMembership \<Rightarrow> ''MEMBERSHIP'' | ActorUser \<Rightarrow> ''USER'' | ActorSystem \<Rightarrow> ''SYSTEM'' | ActorRuntime \<Rightarrow> ''RUNTIME'')"

definition deletion_display :: "actor_identity \<Rightarrow> string option \<Rightarrow> string" where
  "deletion_display actor display =
    (case display of None \<Rightarrow> actor_type_value (actor_type actor) | Some s \<Rightarrow> if s = [] then actor_type_value (actor_type actor) else s)"

definition agent_deleted_payload :: "agent \<Rightarrow> string \<Rightarrow> (string \<times> json) list" where
  "agent_deleted_payload a display =
    [(''organization_id'', JStr (uuid_str (agent_organization_id a))), (''agent_id'', JStr (uuid_str (agent_id a))),
     (''agent_name'', JStr (agent_name a)), (''runtime'', JStr (agent_type a)), (''actor_display'', JStr display),
     (''subject_display'', JStr (agent_name a))]"

definition soft_delete_agent ::
  "event_registry \<Rightarrow> (nat \<Rightarrow> uuid) \<Rightarrow> datetime \<Rightarrow> datetime \<Rightarrow> uuid \<Rightarrow> actor_identity \<Rightarrow> string option \<Rightarrow> comm_db \<Rightarrow> comm_db result" where
  "soft_delete_agent reg ids now event_now aid actor display db =
    (case row_get agent_id aid (cm_agents db) of
       None \<Rightarrow> Inr db
     | Some a \<Rightarrow>
         let org = agent_organization_id a in
         stage_comm_event reg ids AGENT_DELETED org actor
           \<lparr>subject_type = SubjectAgent, subject_id = uuid_str (agent_id a), subject_organization_id = Some org\<rparr>
           (agent_deleted_payload a (deletion_display actor display)) event_now
           (db\<lparr>cm_agents := row_put agent_id (a\<lparr>agent_deleted_at := Some now\<rparr>) (cm_agents db),
               cm_connections := map (\<lambda>c. if cn_agent_id c = aid \<and> cn_organization_id c = org \<and> cn_retired_at c = None
                 then retired_connection now c else c) (cm_connections db),
               cm_deliveries := cancel_unfinished (\<lambda>d. cd_agent_id d = aid \<and> cd_organization_id d = org) now (cm_deliveries db)\<rparr>))"

text \<open>The rows that go with Agents that are removed, as when their Organization is deleted (\<open>ON DELETE CASCADE\<close>).\<close>

definition cascade_agents :: "uuid set \<Rightarrow> comm_db \<Rightarrow> comm_db" where
  "cascade_agents A db =
    db\<lparr>cm_agents := row_where (\<lambda>a. agent_id a \<notin> A) (cm_agents db),
       cm_connections := row_where (\<lambda>c. cn_agent_id c \<notin> A) (cm_connections db),
       cm_messages := row_where (\<lambda>m. acm_agent_id m \<notin> A) (cm_messages db),
       cm_deliveries := row_where (\<lambda>d. cd_agent_id d \<notin> A) (cm_deliveries db)\<rparr>"

end
