(* ===== verification/Communication_Guarantees.thy ===== *)
theory Communication_Guarantees
  imports Communication_Deliveries
begin

text \<open>
  What the chat deliveries guarantee under any interleaving of providers, Agents, senders and
  operators: the state machine of a delivery (\<open>row_move\<close>), of which every operation of the
  repository is an instance, the invariant of the table, and the properties that follow.
\<close>

section \<open>The state machine of a delivery\<close>

text \<open>The defaults with which every caller uses the repository.\<close>

definition DEFAULT_MAX_ATTEMPTS :: nat where
  "DEFAULT_MAX_ATTEMPTS = 5"

definition DEFAULT_LEASE_SECONDS :: int where
  "DEFAULT_LEASE_SECONDS = 120"

inductive row_move :: "communication_delivery list \<Rightarrow> communication_delivery \<Rightarrow> communication_delivery \<Rightarrow> bool" for ds where
  claim_in: "cd_direction d = INBOUND \<Longrightarrow> cd_status d = CommPENDING \<Longrightarrow> \<not> (\<exists>x \<in> set ds. holds_thread (cd_ordering_key d) x)
    \<Longrightarrow> row_move ds d (claimed_inbound now lease d)"
| claim_out: "cd_direction d = OUTBOUND \<Longrightarrow> cd_status d = CommPENDING
    \<Longrightarrow> \<not> (\<exists>x \<in> set ds. same_stream x d \<and> earlier x d \<and> cd_status x \<in> set BLOCKING_OUTBOUND_STATUSES)
    \<Longrightarrow> row_move ds d (claimed_outbound now lease d)"
| cancel: "cd_direction d = INBOUND \<Longrightarrow> cd_status d \<in> {CommPENDING, CommPROCESSING} \<Longrightarrow> row_move ds d (cancel_requested now d)"
| renew: "cd_direction d = INBOUND \<Longrightarrow> cd_status d = CommPROCESSING \<Longrightarrow> row_move ds d (renewed now lease awaiting d)"
| requeue: "cd_direction d = OUTBOUND \<Longrightarrow> cd_status d = CommPROCESSING \<Longrightarrow> row_move ds d (requeued_outbound d)"
| complete: "cd_status d = CommPROCESSING \<Longrightarrow> pred_option details_valid details
    \<Longrightarrow> row_move ds d ((apply_completion success now DEFAULT_MAX_ATTEMPTS code message details d)\<lparr>cd_provider_message_id := p\<rparr>)"
| retry: "cd_direction d = OUTBOUND \<Longrightarrow> cd_status d = CommDEAD_LETTERED \<Longrightarrow> row_move ds d (retry_requested now d)"
| backfill: "cd_direction d = INBOUND \<Longrightarrow> row_move ds d (backfill_delivery_names env d)"
| retire: "cd_status d \<in> {CommPENDING, CommPROCESSING} \<Longrightarrow> row_move ds d (retired_delivery now d)"

lemmas row_defs = claimed_inbound_def claimed_outbound_def cancel_requested_def renewed_def requeued_outbound_def
  apply_completion_def retry_requested_def backfill_delivery_names_def retired_delivery_def Let_def

text \<open>What a move never changes, and what makes a row consistent.\<close>

definition row_identity :: "communication_delivery \<Rightarrow> uuid \<times> datetime \<times> uuid \<times> uuid \<times> comm_direction \<times> string \<times> string" where
  "row_identity d =
    (cd_id d, cd_created_at d, cd_agent_id d, cd_connection_id d, cd_direction d, cd_idempotency_key d, cd_ordering_key d)"

definition row_typed :: "communication_delivery \<Rightarrow> bool" where
  "row_typed d \<longleftrightarrow>
    (cd_direction d = INBOUND \<longleftrightarrow> (\<exists>e. cd_envelope d = InboundEnvelope e)) \<and>
    pred_option (identifier_upto 100) (cd_last_error_code d) \<and> pred_option (\<lambda>m. length m \<le> 500) (cd_last_error_message d)"

definition row_ok :: "communication_delivery \<Rightarrow> bool" where
  "row_ok d \<longleftrightarrow> row_typed d \<and>
    (cd_completed_at d = None \<longleftrightarrow> cd_status d \<in> {CommPENDING, CommPROCESSING}) \<and>
    (cd_status d = CommPROCESSING \<longrightarrow> cd_lease_expires_at d \<noteq> None \<and> 0 < cd_attempt_count d) \<and>
    (cd_direction d = INBOUND \<longrightarrow> cd_attempt_count d \<le> DEFAULT_MAX_ATTEMPTS \<and>
      (cd_status d = CommPENDING \<longrightarrow> cd_attempt_count d < DEFAULT_MAX_ATTEMPTS) \<and>
      (cd_cancel_requested_at d \<noteq> None \<longrightarrow> cd_status d \<in> {CommPROCESSING, CommCANCELLED})) \<and>
    (cd_direction d = OUTBOUND \<longrightarrow> cd_cancel_requested_at d = None \<and> cd_status d \<noteq> CommUNAVAILABLE \<and>
      (cd_status d = CommCANCELLED \<longrightarrow> cd_last_error_code d = Some ''CONNECTION_RETIRED''))"

lemma row_move_identity: "row_move ds d d' \<Longrightarrow> row_identity d' = row_identity d"
  by (induction rule: row_move.induct) (auto simp: row_identity_def row_defs split: stored_envelope.splits)

lemma stored_code:
  "pred_option (identifier_upto 100) (case safe_error_code code of Some c \<Rightarrow> Some c | None \<Rightarrow> error_code_from_details details)"
  using table_codes by (auto simp: error_code_from_details_def pred_option_def split: option.splits dest: safe_error_code_spec)

lemma stored_message:
  assumes "pred_option details_valid details"
  shows "pred_option (\<lambda>m. length m \<le> 500) (safe_error_summary message details)"
proof -
  have "length m \<le> 500" if "safe_error_summary message details = Some m" for m
    using safe_error_summary_spec [OF that] assms length_summary safe_summaries_length by (auto simp: pred_option_def)
  then show ?thesis by (simp add: pred_option_def)
qed

lemma fixed_codes: "identifier_upto 100 ''CANCELLED''" "identifier_upto 100 ''AGENT_STOPPED''" "identifier_upto 100 ''CONNECTION_RETIRED''"
  by (simp_all add: identifier_upto_def identifier_char_def lower_letter_def char_between_def)

lemma completion_typed:
  assumes "row_typed d" "pred_option details_valid details"
  shows "row_typed (apply_completion success now n code message details d)"
  using stored_code [where code = code and details = details] stored_message [OF assms(2), of message] assms(1) fixed_codes(1)
  by (auto simp: row_typed_def apply_completion_def Let_def pred_option_def split: option.splits if_splits)

lemma typed_provider: "row_typed (d\<lparr>cd_provider_message_id := p\<rparr>) = row_typed d"
  by (simp add: row_typed_def)

lemma row_move_typed: "row_move ds d d' \<Longrightarrow> row_typed d \<Longrightarrow> row_typed d'"
proof (induction rule: row_move.induct)
  case complete
  then show ?case by (simp add: typed_provider completion_typed)
qed (auto simp: row_typed_def row_defs fixed_codes pred_option_def split: stored_envelope.splits if_splits)

lemma row_move_ok: "row_move ds d d' \<Longrightarrow> row_ok d \<Longrightarrow> row_ok d'"
proof -
  assume m: "row_move ds d d'" and ok: "row_ok d"
  have "row_typed d'" using row_move_typed [OF m] ok by (simp add: row_ok_def)
  moreover have "row_typed d' \<longrightarrow> row_ok d'" using m ok
    by (induction rule: row_move.induct)
      (auto simp: row_ok_def row_defs DEFAULT_MAX_ATTEMPTS_def split: stored_envelope.splits if_splits)
  ultimately show ?thesis by simp
qed

text \<open>A reply that somebody has tried to send, and one that is out of the way of the later ones.\<close>

definition started :: "communication_delivery \<Rightarrow> bool" where
  "started d \<longleftrightarrow> cd_status d \<notin> {CommPENDING, CommCANCELLED} \<or> 0 < cd_attempt_count d"

definition sent_or_retired :: "communication_delivery \<Rightarrow> bool" where
  "sent_or_retired d \<longleftrightarrow>
    cd_status d = CommSUCCEEDED \<or> (cd_status d = CommCANCELLED \<and> cd_last_error_code d = Some ''CONNECTION_RETIRED'')"

lemma row_move_started:
  assumes "row_move ds d d'" "cd_direction d = OUTBOUND" "started d'"
  shows "started d \<or> \<not> (\<exists>x \<in> set ds. same_stream x d \<and> earlier x d \<and> cd_status x \<in> set BLOCKING_OUTBOUND_STATUSES)"
  using assms by (induction rule: row_move.induct) (auto simp: started_def row_defs split: if_splits)

lemma row_move_sent: "row_move ds d d' \<Longrightarrow> cd_direction d = OUTBOUND \<Longrightarrow> \<not> sent_or_retired d"
  by (induction rule: row_move.induct) (auto simp: sent_or_retired_def)

lemma not_blocking:
  assumes "row_ok d" "cd_direction d = OUTBOUND" "cd_status d \<notin> set BLOCKING_OUTBOUND_STATUSES"
  shows "sent_or_retired d"
  using assms by (cases "cd_status d") (simp_all add: BLOCKING_OUTBOUND_STATUSES_def row_ok_def sent_or_retired_def)

section \<open>The table\<close>

definition new_row :: "communication_delivery list \<Rightarrow> communication_delivery \<Rightarrow> bool" where
  "new_row ds d \<longleftrightarrow>
    cd_id d \<notin> cd_id ` set ds \<and> \<not> (\<exists>x \<in> set ds. same_key x d) \<and> row_ok d"

inductive delivery_change :: "communication_delivery list \<Rightarrow> communication_delivery list \<Rightarrow> bool" where
  moved: "(\<And>d. d \<in> set ds \<Longrightarrow> f d = d \<or> row_move ds d (f d)) \<Longrightarrow> delivery_change ds (map f ds)"
| added: "new_row ds d \<Longrightarrow> delivery_change ds (ds @ [d])"

abbreviation delivery_changes :: "communication_delivery list \<Rightarrow> communication_delivery list \<Rightarrow> bool" where
  "delivery_changes \<equiv> delivery_change\<^sup>*\<^sup>*"

definition deliveries_inv :: "communication_delivery list \<Rightarrow> bool" where
  "deliveries_inv ds \<longleftrightarrow>
    distinct (map cd_id ds) \<and> (\<forall>x \<in> set ds. \<forall>y \<in> set ds. same_key x y \<longrightarrow> cd_id x = cd_id y) \<and> (\<forall>d \<in> set ds. row_ok d)"

lemma deliveries_invD:
  assumes "deliveries_inv ds"
  shows "distinct (map cd_id ds)" "x \<in> set ds \<Longrightarrow> y \<in> set ds \<Longrightarrow> same_key x y \<Longrightarrow> cd_id x = cd_id y" "x \<in> set ds \<Longrightarrow> row_ok x"
  using assms unfolding deliveries_inv_def by blast+

lemma deliveries_invI:
  assumes "distinct (map cd_id ds)" "\<And>x y. x \<in> set ds \<Longrightarrow> y \<in> set ds \<Longrightarrow> same_key x y \<Longrightarrow> cd_id x = cd_id y" "\<And>x. x \<in> set ds \<Longrightarrow> row_ok x"
  shows "deliveries_inv ds"
  using assms unfolding deliveries_inv_def by blast

lemma identity_cong:
  assumes "row_identity x' = row_identity x" "row_identity y' = row_identity y"
  shows "same_key x' y' = same_key x y" "same_stream x' y' = same_stream x y" "earlier x' y' = earlier x y" "cd_id x' = cd_id x"
  using assms by (auto simp: row_identity_def same_key_def same_stream_def earlier_def)

lemma moved_inv:
  assumes inv: "deliveries_inv ds" and f: "\<And>d. d \<in> set ds \<Longrightarrow> f d = d \<or> row_move ds d (f d)"
  shows "deliveries_inv (map f ds)"
proof (rule deliveries_invI)
  have same: "row_identity (f d) = row_identity d" if "d \<in> set ds" for d using f [OF that] row_move_identity by metis
  have ids: "cd_id (f d) = cd_id d" if "d \<in> set ds" for d using identity_cong(4) [OF same [OF that] same [OF that]] .
  have "map cd_id (map f ds) = map cd_id ds" using ids by (simp add: o_def)
  then show "distinct (map cd_id (map f ds))" using deliveries_invD(1) [OF inv] by (simp only:)
  fix x' assume "x' \<in> set (map f ds)"
  then obtain x where x: "x \<in> set ds" "x' = f x" by auto
  show "row_ok x'" using f [OF x(1)] row_move_ok deliveries_invD(3) [OF inv x(1)] x(2) by metis
  fix y' assume "y' \<in> set (map f ds)"
  then obtain y where y: "y \<in> set ds" "y' = f y" by auto
  note cong = identity_cong [OF same [OF x(1)] same [OF y(1)], folded x(2) y(2)]
  show "cd_id x' = cd_id y'" if "same_key x' y'"
    using deliveries_invD(2) [OF inv x(1) y(1)] that x y ids unfolding cong by simp
qed

lemma added_inv:
  assumes inv: "deliveries_inv ds" and new: "new_row ds d"
  shows "deliveries_inv (ds @ [d])"
proof (rule deliveries_invI)
  show "distinct (map cd_id (ds @ [d]))" using deliveries_invD(1) [OF inv] new by (simp add: new_row_def)
  fix x assume x: "x \<in> set (ds @ [d])"
  show "row_ok x" using deliveries_invD(3) [OF inv, of x] new x by (auto simp: new_row_def)
  fix y assume y: "y \<in> set (ds @ [d])"
  have sym: "same_key d z \<longleftrightarrow> same_key z d" for z by (auto simp: same_key_def)
  show "cd_id x = cd_id y" if "same_key x y"
    using deliveries_invD(2) [OF inv, of x y] that x y new sym [of y] by (auto simp: new_row_def)
qed

lemma change_inv: "delivery_change ds ds' \<Longrightarrow> deliveries_inv ds \<Longrightarrow> deliveries_inv ds'"
  by (induction rule: delivery_change.induct) (auto intro: moved_inv added_inv)

lemma changes_inv: "delivery_changes ds ds' \<Longrightarrow> deliveries_inv ds \<Longrightarrow> deliveries_inv ds'"
  by (induction rule: rtranclp_induct) (auto intro: change_inv)

text \<open>
  The order of a stream: as long as it holds of two replies that nobody attempts the later one before
  the earlier one is out of the way, no change ends it.
\<close>

definition in_order :: "communication_delivery \<Rightarrow> communication_delivery \<Rightarrow> bool" where
  "in_order x y \<longleftrightarrow> same_stream x y \<and> earlier x y \<and> (started y \<longrightarrow> sent_or_retired x)"

lemma move_in_order:
  assumes inv: "deliveries_inv ds" and f: "\<And>d. d \<in> set ds \<Longrightarrow> f d = d \<or> row_move ds d (f d)"
    and x: "x \<in> set ds" and y: "y \<in> set ds" and ord: "in_order x y"
  shows "in_order (f x) (f y)"
proof -
  have same: "row_identity (f d) = row_identity d" if "d \<in> set ds" for d using f [OF that] row_move_identity by metis
  have s: "same_stream x y" "earlier x y" and out: "cd_direction x = OUTBOUND" "cd_direction y = OUTBOUND"
    using ord by (simp_all add: in_order_def same_stream_def)
  have "sent_or_retired (f x)" if st: "started (f y)"
  proof -
    have "sent_or_retired x"
    proof (cases "started y")
      case False
      then have "row_move ds y (f y)" using f [OF y] st by metis
      then have "cd_status x \<notin> set BLOCKING_OUTBOUND_STATUSES" using row_move_started [OF _ out(2) st] False s x by blast
      then show ?thesis using not_blocking deliveries_invD(3) [OF inv x] out(1) by blast
    qed (use ord in \<open>simp add: in_order_def\<close>)
    then show ?thesis using f [OF x] row_move_sent [OF _ out(1)] by metis
  qed
  then show ?thesis using s unfolding in_order_def identity_cong [OF same [OF x] same [OF y]] by blast
qed

lemma changes_in_order:
  assumes "delivery_changes ds ds'" "deliveries_inv ds" "x \<in> set ds" "y \<in> set ds" "in_order x y"
  shows "\<exists>x' \<in> set ds'. \<exists>y' \<in> set ds'. cd_id x' = cd_id x \<and> cd_id y' = cd_id y \<and> in_order x' y'"
  using assms
proof (induction rule: rtranclp_induct)
  case (step d e)
  then obtain x' y' where o: "x' \<in> set d" "y' \<in> set d" "cd_id x' = cd_id x" "cd_id y' = cd_id y" "in_order x' y'" by blast
  have inv: "deliveries_inv d" using changes_inv [OF step.hyps(1) step.prems(1)] .
  from step.hyps(2) show ?case
  proof cases
    case (moved f)
    have "cd_id (f z) = cd_id z" if "z \<in> set d" for z
      using moved(2) [OF that] row_move_identity by (auto simp: row_identity_def)
    moreover have "in_order (f x') (f y')" using move_in_order [OF inv moved(2) o(1,2,5)] by blast
    moreover have "f x' \<in> set e" "f y' \<in> set e" using o(1,2) moved(1) by simp_all
    ultimately show ?thesis using o by metis
  qed (use o in auto)
qed blast

text \<open>A write of one row.\<close>

lemma put_change:
  assumes "distinct (map cd_id ds)" "d \<in> set ds" "row_move ds d d'"
  shows "delivery_change ds (row_put cd_id d' ds)"
proof -
  have id: "cd_id d' = cd_id d" using row_move_identity [OF assms(3)] by (simp add: row_identity_def)
  have "x = d" if "x \<in> set ds" "cd_id x = cd_id d" for x using assms(1,2) that by (auto simp: distinct_map inj_on_def)
  then show ?thesis unfolding row_put_def id using assms(3) by (intro moved) auto
qed

text \<open>What a row is later.\<close>

definition row_later :: "communication_delivery \<Rightarrow> communication_delivery \<Rightarrow> bool" where
  "row_later = (\<lambda>x y. row_ok x \<and> (\<exists>ds. row_move ds x y))\<^sup>*\<^sup>*"

lemma changes_grow:
  assumes "delivery_changes ds ds'"
  shows "\<exists>xs. map row_identity ds' = map row_identity ds @ xs"
  using assms
proof (induction rule: rtranclp_induct)
  case (step y z)
  from step.hyps(2) have "\<exists>xs. map row_identity z = map row_identity y @ xs"
  proof cases
    case (moved f)
    have "row_identity (f d) = row_identity d" if "d \<in> set y" for d using moved(2) [OF that] row_move_identity by metis
    then have "map row_identity z = map row_identity y" unfolding moved(1) map_map by (intro map_cong) simp_all
    then show ?thesis by simp
  qed simp
  with step.IH show ?case by auto
qed simp

lemma changes_row:
  assumes "delivery_changes ds ds'" "deliveries_inv ds" "d \<in> set ds"
  shows "\<exists>d' \<in> set ds'. row_later d d'"
  using assms
proof (induction rule: rtranclp_induct)
  case base
  then show ?case by (auto simp: row_later_def)
next
  case (step y z)
  then obtain x where x: "x \<in> set y" "row_later d x" by blast
  have ok: "row_ok x" using changes_inv [OF step.hyps(1) step.prems(1)] x(1) by (auto dest: deliveries_invD(3))
  from step.hyps(2) show ?case
  proof cases
    case (moved f)
    then have "f x = x \<or> row_move y x (f x)" using x(1) by blast
    then have "row_later d (f x)" using x(2) ok unfolding row_later_def by (auto intro: rtranclp.rtrancl_into_rtrancl)
    then show ?thesis using moved(1) x(1) by auto
  qed (use x in auto)
qed

lemma row_later_identity: "row_later d d' \<Longrightarrow> row_identity d' = row_identity d"
  unfolding row_later_def by (induction rule: rtranclp_induct) (auto dest: row_move_identity)

section \<open>Every operation is a sequence of such moves\<close>

inductive comm_step :: "event_registry \<Rightarrow> comm_db \<Rightarrow> comm_db \<Rightarrow> bool" for reg where
  accepts: "accept_inbound ids now cid env db = Inr (db', acc) \<Longrightarrow> comm_step reg db db'"
| claims_inbound: "comm_step reg db (fst (claim_next_inbound reg eids now0 now locked aid lease DEFAULT_MAX_ATTEMPTS b db))"
| reclaims: "reclaim_expired_inbound reg eids now locked aid DEFAULT_MAX_ATTEMPTS db = Inr (db', dead) \<Longrightarrow> comm_step reg db db'"
| cancels: "comm_step reg db (fst (request_cancel now i aid db))"
| renews: "comm_step reg db (fst (renew_runtime_delivery_lease now i aid lease awaiting db))"
| replies: "enqueue_runtime_reply ids now aid i reply db = Inr (db', j) \<Longrightarrow> comm_step reg db db'"
| claims_outbound: "comm_step reg db (fst (claim_next_outbound now locked lease db))"
| completes_outbound: "pred_option details_valid details
    \<Longrightarrow> complete_outbound reg ids now i p code message details DEFAULT_MAX_ATTEMPTS db = Inr (db', b) \<Longrightarrow> comm_step reg db db'"
| completes_inbound: "pred_option details_valid details
    \<Longrightarrow> complete_runtime_delivery reg ids now i aid success code message details DEFAULT_MAX_ATTEMPTS db = Inr (db', b) \<Longrightarrow> comm_step reg db db'"
| retries: "retry_dead_lettered reg ids now i aid cid actor db = Inr (db', d) \<Longrightarrow> comm_step reg db db'"
| retires: "retire_connection now cid expected_revision db = Inr (db', b) \<Longrightarrow> comm_step reg db db'"
| deletes_agent: "soft_delete_agent reg ids now event_now aid actor display db = Inr db' \<Longrightarrow> comm_step reg db db'"
| others: "cm_messages db' = cm_messages db \<Longrightarrow> cm_deliveries db' = cm_deliveries db \<Longrightarrow> comm_step reg db db'"

abbreviation comm_steps :: "event_registry \<Rightarrow> comm_db \<Rightarrow> comm_db \<Rightarrow> bool" where
  "comm_steps reg \<equiv> (comm_step reg)\<^sup>*\<^sup>*"

definition message_key :: "agent_chat_message \<Rightarrow> uuid \<times> uuid \<times> string" where
  "message_key m = (acm_id m, acm_connection_id m, acm_openclaw_msg_id m)"

definition comm_effect :: "comm_db \<Rightarrow> comm_db \<Rightarrow> bool" where
  "comm_effect db db' \<longleftrightarrow> delivery_changes (cm_deliveries db) (cm_deliveries db') \<and>
    (\<exists>xs. map message_key (cm_messages db') = map message_key (cm_messages db) @ xs) \<and>
    (distinct (map acm_id (cm_messages db)) \<longrightarrow> distinct (map acm_id (cm_messages db')))"

text \<open>Stored messages have distinct ids.\<close>

definition comm_inv :: "comm_db \<Rightarrow> bool" where
  "comm_inv db \<longleftrightarrow> deliveries_inv (cm_deliveries db) \<and> distinct (map acm_id (cm_messages db))"

lemma comm_effect_inv: "comm_effect db db' \<Longrightarrow> comm_inv db \<Longrightarrow> comm_inv db'"
  using changes_inv by (auto simp: comm_effect_def comm_inv_def)

lemma comm_effect_refl: "cm_messages db' = cm_messages db \<Longrightarrow> cm_deliveries db' = cm_deliveries db \<Longrightarrow> comm_effect db db'"
  by (simp add: comm_effect_def)

lemma comm_effect_trans: "comm_effect a b \<Longrightarrow> comm_effect b c \<Longrightarrow> comm_effect a c"
  unfolding comm_effect_def by auto

lemma stage_journal_frame [simp]:
  "cm_deliveries (stage_journal rq db) = cm_deliveries db" "cm_messages (stage_journal rq db) = cm_messages db"
  "cm_connections (stage_journal rq db) = cm_connections db" "cm_agents (stage_journal rq db) = cm_agents db"
  by (simp_all add: stage_journal_def)

lemma put_delivery_frame [simp]:
  "cm_deliveries (put_delivery d db) = row_put cd_id d (cm_deliveries db)" "cm_messages (put_delivery d db) = cm_messages db"
  "cm_connections (put_delivery d db) = cm_connections db" "cm_agents (put_delivery d db) = cm_agents db"
  by (simp_all add: put_delivery_def)

lemma comm_event_frame:
  assumes "stage_comm_event reg ids name org actor subject payload now db = Inr db'"
  shows "cm_deliveries db' = cm_deliveries db \<and> cm_messages db' = cm_messages db"
  using assms by (auto simp: stage_comm_event_def bind_result_Inr)

lemma completion_frame:
  assumes "stage_completion_journal reg ids d now details db = Inr db'"
  shows "cm_deliveries db' = cm_deliveries db" "cm_messages db' = cm_messages db"
proof -
  have "cm_deliveries b = cm_deliveries a \<and> cm_messages b = cm_messages a" if "stage_delivery_event reg ids d name now a = Inr b" for a b name
    using that comm_event_frame unfolding stage_delivery_event_def Let_def by blast
  then show "cm_deliveries db' = cm_deliveries db" "cm_messages db' = cm_messages db"
    using assms unfolding stage_completion_journal_def Let_def by (auto split: if_splits)
qed

lemma put_effect:
  assumes "deliveries_inv (cm_deliveries db)" "d \<in> set (cm_deliveries db)" "row_move (cm_deliveries db) d d'"
    and "cm_deliveries db' = row_put cd_id d' (cm_deliveries db)" "cm_messages db' = cm_messages db"
  shows "comm_effect db db'"
  using put_change [OF deliveries_invD(1) [OF assms(1)] assms(2,3)] assms(4,5) by (auto simp: comm_effect_def)

lemma get_where_Some: "get_where P i db = Some d \<Longrightarrow> d \<in> set (cm_deliveries db) \<and> cd_id d = i \<and> P d"
  using find_SomeD unfolding get_where_def by fastforce

lemma first_available_Some: "first_available ds = Some d \<Longrightarrow> d \<in> set ds"
  unfolding first_available_def by (auto split: list.splits) (metis list.set_intros(1) set_sort)

lemma move_effect:
  assumes "deliveries_inv (cm_deliveries db)" "get_where P i db = Some d" "P d \<Longrightarrow> row_move (cm_deliveries db) d d'"
    and "cm_deliveries db' = row_put cd_id d' (cm_deliveries db)" "cm_messages db' = cm_messages db"
  shows "comm_effect db db'"
  using put_effect [OF assms(1) _ _ assms(4,5)] get_where_Some [OF assms(2)] assms(3) by blast

lemma provider_unchanged: "(apply_completion success now n code message details d)\<lparr>cd_provider_message_id := cd_provider_message_id d\<rparr> =
    apply_completion success now n code message details d"
  by (simp add: apply_completion_def Let_def)

lemma complete_move:
  "cd_status d = CommPROCESSING \<Longrightarrow> pred_option details_valid details \<Longrightarrow>
    row_move ds d (apply_completion success now DEFAULT_MAX_ATTEMPTS code message details d)"
  by (subst provider_unchanged [symmetric]) (rule complete)

lemma cancel_effect:
  assumes "deliveries_inv (cm_deliveries db)"
  shows "comm_effect db (fst (request_cancel now i aid db))"
proof (cases "get_where (\<lambda>d. cd_agent_id d = aid \<and> cd_direction d = INBOUND \<and> cd_status d \<in> {CommPENDING, CommPROCESSING}) i db")
  case (Some d)
  then show ?thesis using move_effect [OF assms Some, of "cancel_requested now d"] by (simp add: request_cancel_def cancel)
qed (simp add: request_cancel_def comm_effect_refl)

lemma renew_effect:
  assumes "deliveries_inv (cm_deliveries db)"
  shows "comm_effect db (fst (renew_runtime_delivery_lease now i aid lease awaiting db))"
proof (cases "get_where (\<lambda>d. on_gateway db d \<and> cd_agent_id d = aid \<and> cd_direction d = INBOUND \<and> cd_status d = CommPROCESSING \<and>
    (\<exists>t. cd_lease_expires_at d = Some t \<and> now < t)) i db")
  case (Some d)
  then show ?thesis using move_effect [OF assms Some, of "renewed now lease awaiting d"] by (simp add: renew_runtime_delivery_lease_def renew)
qed (simp add: renew_runtime_delivery_lease_def comm_effect_refl)

lemma complete_outbound_effect:
  assumes "deliveries_inv (cm_deliveries db)" "pred_option details_valid details"
    and "complete_outbound reg ids now i p code message details DEFAULT_MAX_ATTEMPTS db = Inr (db', b)"
  shows "comm_effect db db'"
proof (cases "get_where (\<lambda>d. on_gateway db d \<and> cd_direction d = OUTBOUND \<and> cd_status d = CommPROCESSING) i db")
  case None
  then show ?thesis using assms(3) by (simp add: complete_outbound_def comm_effect_refl)
next
  case (Some d)
  let ?d = "(apply_completion (p \<noteq> None) now DEFAULT_MAX_ATTEMPTS code message details d)\<lparr>cd_provider_message_id := p\<rparr>"
  from Some assms(3) have "stage_completion_journal reg ids ?d now details (put_delivery ?d db) = Inr db'"
    by (auto simp: complete_outbound_def Let_def bind_result_Inr)
  then show ?thesis using move_effect [OF assms(1) Some, of ?d] complete [of d details] assms(2) by (simp add: completion_frame)
qed

lemma complete_runtime_effect:
  assumes "deliveries_inv (cm_deliveries db)" "pred_option details_valid details"
    and "complete_runtime_delivery reg ids now i aid success code message details DEFAULT_MAX_ATTEMPTS db = Inr (db', b)"
  shows "comm_effect db db'"
proof (cases "get_where (\<lambda>d. on_gateway db d \<and> cd_agent_id d = aid \<and> cd_direction d = INBOUND \<and> cd_status d = CommPROCESSING) i db")
  case None
  then show ?thesis using assms(3) by (simp add: complete_runtime_delivery_def comm_effect_refl)
next
  case (Some d)
  let ?d = "apply_completion success now DEFAULT_MAX_ATTEMPTS code message details d"
  from Some assms(3) have "stage_completion_journal reg ids ?d now details (put_delivery ?d db) = Inr db'"
    by (auto simp: complete_runtime_delivery_def Let_def bind_result_Inr)
  then show ?thesis using move_effect [OF assms(1) Some, of ?d] complete_move assms(2) by (simp add: completion_frame)
qed

lemma retry_effect:
  assumes "deliveries_inv (cm_deliveries db)" "retry_dead_lettered reg ids now i aid cid actor db = Inr (db', d')"
  shows "comm_effect db db'"
proof (cases "get_where (\<lambda>d. cd_agent_id d = aid \<and> cd_connection_id d = cid \<and> cd_direction d = OUTBOUND \<and> cd_status d = CommDEAD_LETTERED \<and>
      (\<exists>c \<in> set (cm_connections db). cn_id c = cd_connection_id d \<and> cn_enabled c \<and> cn_retired_at c = None)) i db")
  case (Some d)
  let ?d = "retry_requested now d"
  obtain c :: communication_connection where "stage_comm_event reg ids COMMUNICATION_DELIVERY_RETRY_REQUESTED (cd_organization_id ?d) actor (delivery_subject ?d)
        (delivery_payload ?d 1 (comm_actor_display actor) (cn_display_name c)) now
        (stage_journal (delivery_journal ?d StRETRY_REQUESTED 1 now) (put_delivery ?d db)) = Inr db'"
    using assms(2) Some by (auto simp: retry_dead_lettered_def Let_def bind_result_Inr split: option.splits)
  from comm_event_frame [OF this] show ?thesis using move_effect [OF assms(1) Some, of ?d] by (simp add: retry)
qed (use assms(2) in \<open>simp add: retry_dead_lettered_def\<close>)

lemma reclaim_loop_effect:
  assumes "reclaim_loop reg eids now DEFAULT_MAX_ATTEMPTS rows dead db = Inr (db', dead')" "deliveries_inv (cm_deliveries db)"
    and "distinct (map cd_id rows)" "set rows \<subseteq> set (cm_deliveries db)" "\<forall>d \<in> set rows. cd_status d = CommPROCESSING"
  shows "comm_effect db db'"
  using assms
proof (induction rows arbitrary: dead db)
  case (Cons d rows)
  let ?d = "apply_completion False now DEFAULT_MAX_ATTEMPTS (Some ''LEASE_EXPIRED'')
    (Some ''Runtime did not complete this delivery before its claim lease expired'') None d"
  obtain db1 dead1 where j: "stage_completion_journal reg (eids (length rows)) ?d now None (put_delivery ?d db) = Inr db1"
    and rest: "reclaim_loop reg eids now DEFAULT_MAX_ATTEMPTS rows dead1 db1 = Inr (db', dead')"
    using Cons.prems(1) by (auto simp: Let_def bind_result_Inr split: if_splits)
  have d: "d \<in> set (cm_deliveries db)" "cd_status d = CommPROCESSING" using Cons.prems(4,5) by auto
  have id: "cd_id ?d = cd_id d" by (simp add: apply_completion_def Let_def)
  have db1: "cm_deliveries db1 = row_put cd_id ?d (cm_deliveries db)" "cm_messages db1 = cm_messages db"
    using completion_frame [OF j] by simp_all
  have eff: "comm_effect db db1" using put_effect [OF Cons.prems(2) d(1) _ db1] complete_move [OF d(2)] by simp
  have inv: "deliveries_inv (cm_deliveries db1)" using changes_inv Cons.prems(2) eff by (auto simp: comm_effect_def)
  have "x \<in> set (cm_deliveries db1)" if "x \<in> set rows" for x
  proof -
    have "cd_id x \<noteq> cd_id d" using Cons.prems(3) that by (auto simp: image_iff)
    then show ?thesis using that Cons.prems(4) by (force simp: db1 row_put_def id image_iff)
  qed
  then have "comm_effect db1 db'" using Cons.IH [OF rest inv] Cons.prems(3,5) by auto
  then show ?case by (rule comm_effect_trans [OF eff])
qed (simp add: comm_effect_refl)

lemma reclaim_effect:
  assumes "deliveries_inv (cm_deliveries db)" "reclaim_expired_inbound reg eids now locked aid DEFAULT_MAX_ATTEMPTS db = Inr (db', dead)"
  shows "comm_effect db db'"
proof (rule reclaim_loop_effect [OF assms(2) [unfolded reclaim_expired_inbound_def] assms(1)])
  show "distinct (map cd_id (row_where (\<lambda>d. inbound_expired db now aid d \<and> \<not> locked (cd_id d)) (cm_deliveries db)))"
    using deliveries_invD(1) [OF assms(1)] by (rule distinct_map_filter)
qed (auto simp: inbound_expired_def)

lemma claim_inbound_effect:
  assumes "deliveries_inv (cm_deliveries db)"
  shows "comm_effect db (fst (claim_inbound now locked aid lease db))"
proof (cases "first_available (row_where (\<lambda>d. inbound_claimable db now aid d \<and> \<not> locked (cd_id d)) (cm_deliveries db))")
  case (Some d)
  then have d: "d \<in> set (cm_deliveries db)" "inbound_claimable db now aid d" using first_available_Some by fastforce+
  then have "row_move (cm_deliveries db) d (claimed_inbound now lease d)" unfolding inbound_claimable_def by (intro claim_in) blast+
  from put_effect [OF assms d(1) this] show ?thesis using Some by (simp add: claim_inbound_def Let_def)
qed (simp add: claim_inbound_def comm_effect_refl)

lemma claim_next_inbound_effect:
  assumes "deliveries_inv (cm_deliveries db)"
  shows "comm_effect db (fst (claim_next_inbound reg eids now0 now locked aid lease DEFAULT_MAX_ATTEMPTS b db))"
proof (cases "reclaim_expired_inbound reg eids now0 locked aid DEFAULT_MAX_ATTEMPTS db")
  case (Inr r)
  obtain db1 dead where r: "r = (db1, dead)" by (cases r)
  have eff: "comm_effect db db1" using reclaim_effect [OF assms] Inr r by simp
  then have "deliveries_inv (cm_deliveries db1)" using changes_inv assms by (auto simp: comm_effect_def)
  from comm_effect_trans [OF eff claim_inbound_effect [OF this]] show ?thesis
    using Inr r claim_inbound_effect [OF assms] by (simp add: claim_next_inbound_def)
qed (use claim_inbound_effect [OF assms] in \<open>simp add: claim_next_inbound_def comm_effect_refl\<close>)

lemma claim_next_outbound_effect:
  assumes "deliveries_inv (cm_deliveries db)"
  shows "comm_effect db (fst (claim_next_outbound now locked lease db))"
proof -
  let ?db = "requeue_expired_outbound now db"
  have rows: "cm_deliveries ?db = map (\<lambda>d. if outbound_expired db now d then requeued_outbound d else d) (cm_deliveries db)"
    by (simp add: requeue_expired_outbound_def)
  have "delivery_change (cm_deliveries db) (cm_deliveries ?db)"
    unfolding rows by (rule moved) (simp add: outbound_expired_def requeue)
  then have eff: "comm_effect db ?db" by (auto simp: comm_effect_def requeue_expired_outbound_def)
  then have inv: "deliveries_inv (cm_deliveries ?db)" using changes_inv assms by (auto simp: comm_effect_def)
  show ?thesis
  proof (cases "first_available (row_where (\<lambda>d. outbound_claimable ?db now d \<and> \<not> locked (cd_id d)) (cm_deliveries ?db))")
    case (Some d)
    then have d: "d \<in> set (cm_deliveries ?db)" "outbound_claimable ?db now d" using first_available_Some by fastforce+
    then have "row_move (cm_deliveries ?db) d (claimed_outbound now lease d)" unfolding outbound_claimable_def by (intro claim_out) blast+
    from comm_effect_trans [OF eff put_effect [OF inv d(1) this]] show ?thesis using Some by (simp add: claim_next_outbound_def Let_def)
  qed (use eff in \<open>simp add: claim_next_outbound_def\<close>)
qed

lemma find_delivery_None: "find_delivery db cid r key = None \<longleftrightarrow>
    \<not> (\<exists>d \<in> set (cm_deliveries db). cd_connection_id d = cid \<and> cd_direction d = r \<and> cd_idempotency_key d = key)"
  by (auto simp: find_delivery_def find_None_iff)

lemma find_delivery_Some: "find_delivery db cid r key = Some d \<Longrightarrow>
    d \<in> set (cm_deliveries db) \<and> cd_connection_id d = cid \<and> cd_direction d = r \<and> cd_idempotency_key d = key"
  using find_SomeD unfolding find_delivery_def by fastforce

lemma insert_comm_delivery_Inr: "insert_comm_delivery d db = Inr db' \<longleftrightarrow>
    cd_id d \<notin> cd_id ` set (cm_deliveries db) \<and> \<not> (\<exists>x \<in> set (cm_deliveries db). same_key x d) \<and>
    db' = db\<lparr>cm_deliveries := cm_deliveries db @ [d]\<rparr>"
  by (auto simp: insert_comm_delivery_def bind_result_Inr row_add_def row_get_def find_None_iff image_iff)

lemma insert_chat_message_Inr: "insert_chat_message m db = Inr db' \<Longrightarrow>
    cm_messages db' = cm_messages db @ [m] \<and> cm_deliveries db' = cm_deliveries db \<and>
    find_message db (acm_connection_id m) (acm_openclaw_msg_id m) = None \<and> acm_id m \<notin> acm_id ` set (cm_messages db)"
  by (auto simp: insert_chat_message_def bind_result_Inr row_add_def row_get_def find_None_iff)

lemma message_keys_put:
  assumes "message_key m' = message_key m"
  shows "distinct (map acm_id ms) \<Longrightarrow> m \<in> set ms \<Longrightarrow> map message_key (row_put acm_id m' ms) = map message_key ms"
  using assms by (auto simp: row_put_def message_key_def distinct_map inj_on_def)

lemma store_message_Inr:
  assumes "store_message m env db = Inr (db', mid, duplicate)" "distinct (map acm_id (cm_messages db))"
  shows "comm_effect db db'" "cm_deliveries db' = cm_deliveries db"
proof -
  have "(\<exists>xs. map message_key (cm_messages db') = map message_key (cm_messages db) @ xs) \<and> distinct (map acm_id (cm_messages db')) \<and>
      cm_deliveries db' = cm_deliveries db"
  proof (cases "find_message db (acm_connection_id m) (acm_openclaw_msg_id m)")
    case None
    then have "insert_chat_message m db = Inr db'" using assms(1) by (auto simp: store_message_def bind_result_Inr)
    from insert_chat_message_Inr [OF this] show ?thesis using assms(2) by auto
  next
    case (Some old)
    then have "old \<in> set (cm_messages db)" using find_SomeD unfolding find_message_def by fastforce
    then have "map message_key (row_put acm_id (backfill_message_names env old) (cm_messages db)) = map message_key (cm_messages db)"
      by (intro message_keys_put [OF _ assms(2)]) (simp_all add: message_key_def backfill_message_names_def)
    then show ?thesis using assms Some by (auto simp: store_message_def)
  qed
  then show "comm_effect db db'" "cm_deliveries db' = cm_deliveries db" by (simp_all add: comm_effect_def)
qed

lemma inbound_row_new:
  assumes "insert_comm_delivery (inbound_row a cid mid env i now) db = Inr db'"
  shows "new_row (cm_deliveries db) (inbound_row a cid mid env i now)"
  using assms fixed_codes unfolding insert_comm_delivery_Inr new_row_def
  by (auto simp: inbound_row_def Let_def row_ok_def row_typed_def same_stream_def DEFAULT_MAX_ATTEMPTS_def)

lemma reply_row_new:
  assumes "insert_comm_delivery (reply_row aid source mid out reply i now) db = Inr db'"
  shows "new_row (cm_deliveries db) (reply_row aid source mid out reply i now)"
  using assms unfolding insert_comm_delivery_Inr new_row_def
  by (auto simp: reply_row_def row_ok_def row_typed_def)

lemma added_effect:
  assumes "new_row (cm_deliveries db) d" "cm_deliveries db' = cm_deliveries db @ [d]" "cm_messages db' = cm_messages db"
  shows "comm_effect db db'"
  using added [OF assms(1)] assms(2,3) by (auto simp: comm_effect_def)

lemma accept_inbound_Inr:
  assumes "accept_inbound ids now cid env db = Inr (db', acc)"
  obtains a db1 mid duplicate where
    "store_message (message_values a cid env (ids 0) now) env db = Inr (db1, mid, duplicate)" "ac_message_id acc = mid"
    "(\<exists>old. find_delivery db1 cid INBOUND (env_provider_message_id env) = Some old \<and> db' = put_delivery (backfill_delivery_names env old) db1 \<and>
        ac_delivery_id acc = cd_id old \<and> ac_duplicate acc) \<or>
     (\<exists>db2 rq. find_delivery db1 cid INBOUND (env_provider_message_id env) = None \<and>
        insert_comm_delivery (inbound_row a cid mid env (ids 1) now) db1 = Inr db2 \<and> db' = stage_journal rq db2 \<and>
        ac_delivery_id acc = ids 1)"
proof -
  obtain c a db1 mid duplicate where "store_message (message_values a cid env (ids 0) now) env db = Inr (db1, mid, duplicate)"
    and rest: "(case find_delivery db1 cid INBOUND (env_provider_message_id env) of
               Some old \<Rightarrow>
                 Inr (put_delivery (backfill_delivery_names env old) db1,
                   \<lparr>ac_message_id = mid, ac_delivery_id = cd_id old, ac_status = cd_status old, ac_duplicate = True\<rparr>)
             | None \<Rightarrow>
                 let d = inbound_row a cid mid env (ids 1) now in
                 bind_result (insert_comm_delivery d db1) (\<lambda>db2.
                 Inr (stage_journal ((delivery_journal d StQUEUED (if cd_status d = CommPENDING then 1 else 0) now)
                     \<lparr>jr_error_code := cd_last_error_code d, jr_error_summary := cd_last_error_message d\<rparr>) db2,
                   \<lparr>ac_message_id = mid, ac_delivery_id = cd_id d, ac_status = cd_status d, ac_duplicate = duplicate\<rparr>))) = Inr (db', acc)"
    using assms unfolding accept_inbound_def by (auto simp: bind_result_Inr split: option.splits)
  moreover have "cd_id (inbound_row a cid mid env (ids 1) now) = ids 1" by (simp add: inbound_row_def Let_def)
  ultimately show thesis
    by (cases "find_delivery db1 cid INBOUND (env_provider_message_id env)"; intro that [of a db1 mid duplicate])
      (auto simp: Let_def bind_result_Inr)
qed

lemma accept_effect:
  assumes "comm_inv db" "accept_inbound ids now cid env db = Inr (db', acc)"
  shows "comm_effect db db'"
proof -
  obtain a db1 mid duplicate where s: "store_message (message_values a cid env (ids 0) now) env db = Inr (db1, mid, duplicate)"
    and rest: "(\<exists>old. find_delivery db1 cid INBOUND (env_provider_message_id env) = Some old \<and> db' = put_delivery (backfill_delivery_names env old) db1 \<and>
        ac_delivery_id acc = cd_id old \<and> ac_duplicate acc) \<or>
     (\<exists>db2 rq. find_delivery db1 cid INBOUND (env_provider_message_id env) = None \<and>
        insert_comm_delivery (inbound_row a cid mid env (ids 1) now) db1 = Inr db2 \<and> db' = stage_journal rq db2 \<and>
        ac_delivery_id acc = ids 1)"
    using accept_inbound_Inr [OF assms(2)] by metis
  have eff: "comm_effect db db1" and same: "cm_deliveries db1 = cm_deliveries db" using store_message_Inr [OF s] assms(1) by (simp_all add: comm_inv_def)
  have inv: "deliveries_inv (cm_deliveries db1)" using assms(1) same by (simp add: comm_inv_def)
  from rest have "comm_effect db1 db'"
  proof (elim disjE exE conjE)
    fix old assume old: "find_delivery db1 cid INBOUND (env_provider_message_id env) = Some old" and db': "db' = put_delivery (backfill_delivery_names env old) db1"
    show ?thesis
      by (rule put_effect [OF inv]) (use find_delivery_Some [OF old] in \<open>auto simp: db' intro: backfill\<close>)
  next
    fix db2 rq assume i: "insert_comm_delivery (inbound_row a cid mid env (ids 1) now) db1 = Inr db2" and db': "db' = stage_journal rq db2"
    show ?thesis using added_effect [OF inbound_row_new [OF i]] i by (simp add: db' insert_comm_delivery_Inr)
  qed
  then show ?thesis by (rule comm_effect_trans [OF eff])
qed

lemma reply_effect:
  assumes "comm_inv db" "enqueue_runtime_reply ids now aid i reply db = Inr (db', j)"
  shows "comm_effect db db'"
proof (cases "db' = db")
  case False
  then obtain source inbound db1 db2 rq where
    m: "insert_chat_message (reply_message aid source inbound reply (ids 0) now) db = Inr db1"
    and d: "insert_comm_delivery (reply_row aid source (ids 0) (reply_envelope source inbound reply) reply (ids 1) now) db1 = Inr db2"
    and db': "db' = stage_journal rq db2"
    using assms(2) unfolding enqueue_runtime_reply_def
    by (auto simp: bind_result_Inr Let_def split: option.splits stored_envelope.splits)
  have eff: "comm_effect db db1" and same: "cm_deliveries db1 = cm_deliveries db"
    using insert_chat_message_Inr [OF m] by (auto simp: comm_effect_def)
  have "comm_effect db1 db'" using added_effect [OF reply_row_new [OF d]] d by (simp add: db' insert_comm_delivery_Inr)
  then show ?thesis by (rule comm_effect_trans [OF eff])
qed (simp add: comm_effect_refl)

lemma cancel_unfinished_change: "delivery_change ds (cancel_unfinished P now ds)"
  unfolding cancel_unfinished_def by (rule moved) (auto intro: retire)

lemma cancel_unfinished_effect:
  assumes "cm_deliveries db' = cancel_unfinished P now (cm_deliveries db)" "cm_messages db' = cm_messages db"
  shows "comm_effect db db'"
  using cancel_unfinished_change assms by (auto simp: comm_effect_def)

lemma retire_effect: "retire_connection now cid n db = Inr (db', b) \<Longrightarrow> comm_effect db db'"
  unfolding retire_connection_def
  by (auto simp: comm_effect_refl split: option.splits if_splits intro: cancel_unfinished_effect)

lemma soft_delete_effect:
  assumes "soft_delete_agent reg ids now event_now aid actor display db = Inr db'"
  shows "comm_effect db db'"
proof (cases "row_get agent_id aid (cm_agents db)")
  case (Some a)
  have "cm_deliveries db' = cancel_unfinished (\<lambda>d. cd_agent_id d = aid \<and> cd_organization_id d = agent_organization_id a) now (cm_deliveries db) \<and>
      cm_messages db' = cm_messages db"
    using comm_event_frame [OF assms [unfolded soft_delete_agent_def Some option.case Let_def]] by simp
  then show ?thesis using cancel_unfinished_effect by blast
qed (use assms in \<open>simp add: soft_delete_agent_def comm_effect_refl\<close>)

lemma comm_step_effect: "comm_step reg db db' \<Longrightarrow> comm_inv db \<Longrightarrow> comm_effect db db'"
  by (induction rule: comm_step.induct)
    (auto simp: comm_inv_def intro: accept_effect claim_next_inbound_effect reclaim_effect cancel_effect renew_effect reply_effect
      claim_next_outbound_effect complete_outbound_effect complete_runtime_effect retry_effect retire_effect soft_delete_effect comm_effect_refl)

lemma comm_steps_effect:
  assumes "comm_steps reg db db'" "comm_inv db"
  shows "comm_effect db db' \<and> comm_inv db'"
  using assms by (induction rule: rtranclp_induct)
    (auto intro: comm_effect_refl comm_effect_trans comm_effect_inv dest: comm_step_effect)

text \<open>What happens to the tables: such steps, and the removal of Agents with all their rows.\<close>

inductive comm_change :: "event_registry \<Rightarrow> comm_db \<Rightarrow> comm_db \<Rightarrow> bool" for reg where
  by_step: "comm_step reg db db' \<Longrightarrow> comm_change reg db db'"
| by_cascade: "comm_change reg db (cascade_agents A db)"

lemma cascade_inv: "comm_inv db \<Longrightarrow> comm_inv (cascade_agents A db)"
  by (auto simp: comm_inv_def cascade_agents_def deliveries_inv_def distinct_map_filter)

lemma comm_change_inv: "comm_change reg db db' \<Longrightarrow> comm_inv db \<Longrightarrow> comm_inv db'"
  by (induction rule: comm_change.induct) (auto intro: cascade_inv comm_effect_inv dest: comm_step_effect)

lemma comm_changes_inv:
  assumes "(comm_change reg)\<^sup>*\<^sup>* db db'" "comm_inv db"
  shows "comm_inv db'"
  using assms by (induction rule: rtranclp_induct) (auto intro: comm_change_inv)

lemma steps_are_changes: "comm_steps reg db db' \<Longrightarrow> (comm_change reg)\<^sup>*\<^sup>* db db'"
  using mono_rtranclp [of "comm_step reg" "comm_change reg"] by_step by blast

end
