(* ===== verification/Communication_Properties.thy ===== *)
theory Communication_Properties
  imports Communication_Guarantees
begin

text \<open>
  The properties of chat deliveries in every reachable state, and what goes wrong at the edges:
  concurrent claims and senders that crash.
\<close>

definition comm_reachable :: "event_registry \<Rightarrow> comm_db \<Rightarrow> bool" where
  "comm_reachable reg db \<longleftrightarrow> (\<exists>db0. cm_deliveries db0 = [] \<and> cm_messages db0 = [] \<and> (comm_change reg)\<^sup>*\<^sup>* db0 db)"

lemma comm_reachable_inv: "comm_reachable reg db \<Longrightarrow> comm_inv db"
proof -
  have "comm_inv db0" if "cm_deliveries db0 = []" "cm_messages db0 = []" for db0
    using that by (simp add: comm_inv_def deliveries_inv_def)
  then show "comm_reachable reg db \<Longrightarrow> comm_inv db" using comm_changes_inv unfolding comm_reachable_def by blast
qed

lemma comm_reachable_row: "comm_reachable reg db \<Longrightarrow> d \<in> set (cm_deliveries db) \<Longrightarrow> row_ok d"
  using comm_reachable_inv deliveries_invD(3) unfolding comm_inv_def by blast

lemma comm_reachable_steps: "comm_reachable reg db \<Longrightarrow> comm_steps reg db db' \<Longrightarrow> comm_reachable reg db'"
  unfolding comm_reachable_def using steps_are_changes by (meson rtranclp_trans)

lemma same_row:
  assumes "comm_inv db" "x \<in> set (cm_deliveries db)" "y \<in> set (cm_deliveries db)" "cd_id x = cd_id y"
  shows "x = y"
  using deliveries_invD(1) assms by (auto simp: comm_inv_def distinct_map inj_on_def)

section \<open>A small installation\<close>

definition demo_connection :: communication_connection where
  "demo_connection =
    \<lparr>cn_id = 4, cn_organization_id = 7, cn_agent_id = 3, cn_platform_key = ''web'', cn_display_name = ''w'', cn_enabled = True,
     cn_retired_at = None, cn_revision = 1\<rparr>"

definition demo_envelope :: "string \<Rightarrow> normalized_envelope" where
  "demo_envelope i =
    \<lparr>env_provider_message_id = i, env_occurred_at = 0,
     env_location = \<lparr>loc_id = ''l'', loc_type = DM, loc_display_name = None, loc_thread_id = None\<rparr>,
     env_sender = \<lparr>snd_id = None, snd_display_name = None\<rparr>, env_text = ''t'', env_mentions = [], env_attachments = [],
     env_reply_to_provider_message_id = None, env_provider_metadata = []\<rparr>"

definition demo_chat_agent :: agent where
  "demo_chat_agent = demo_agent 3 7 None"

definition demo_message_row :: "string \<Rightarrow> uuid \<Rightarrow> datetime \<Rightarrow> agent_chat_message" where
  "demo_message_row s i t = message_values demo_chat_agent 4 (demo_envelope s) i t"

definition demo_inbound :: "string \<Rightarrow> uuid \<Rightarrow> uuid \<Rightarrow> datetime \<Rightarrow> communication_delivery" where
  "demo_inbound s mid i t = inbound_row demo_chat_agent 4 mid (demo_envelope s) i t"

definition demo_queued :: "communication_delivery \<Rightarrow> journal_request" where
  "demo_queued d = (delivery_journal d StQUEUED 1 (cd_created_at d))\<lparr>jr_error_code := None, jr_error_summary := None\<rparr>"

text \<open>No message, one message and two messages of one conversation.\<close>

definition demo_chat0 :: comm_db where
  "demo_chat0 =
    \<lparr>cm_agents = [demo_chat_agent], cm_connections = [demo_connection], cm_messages = [], cm_deliveries = [], cm_journal = [],
     cm_events = empty_event_db\<rparr>"

definition demo_chat1 :: comm_db where
  "demo_chat1 = stage_journal (demo_queued (demo_inbound ''x'' 2 3 1))
    (demo_chat0\<lparr>cm_messages := [demo_message_row ''x'' 2 1], cm_deliveries := [demo_inbound ''x'' 2 3 1]\<rparr>)"

definition demo_chat2 :: comm_db where
  "demo_chat2 = stage_journal (demo_queued (demo_inbound ''y'' 4 5 2))
    (demo_chat1\<lparr>cm_messages := [demo_message_row ''x'' 2 1, demo_message_row ''y'' 4 2],
      cm_deliveries := [demo_inbound ''x'' 2 3 1, demo_inbound ''y'' 4 5 2]\<rparr>)"

lemmas demo_row_simps = demo_queued_def demo_inbound_def demo_message_row_def
  demo_chat_agent_def demo_envelope_def demo_connection_def demo_agent_def inbound_row_def message_values_def delivery_journal_def

lemmas demo_insert_simps = find_message_def find_delivery_def store_message_def insert_chat_message_def insert_comm_delivery_def
  same_key_def row_get_def row_add_def raise_if_def Let_def

lemma demo_accept1: "accept_inbound (\<lambda>k. if k = 0 then 2 else 3) 1 4 (demo_envelope ''x'') demo_chat0 =
    Inr (demo_chat1, \<lparr>ac_message_id = 2, ac_delivery_id = 3, ac_status = CommPENDING, ac_duplicate = False\<rparr>)"
  by (simp add: accept_inbound_def demo_chat1_def demo_chat0_def demo_row_simps demo_insert_simps)

lemma demo_accept2: "accept_inbound (\<lambda>k. if k = 0 then 4 else 5) 2 4 (demo_envelope ''y'') demo_chat1 =
    Inr (demo_chat2, \<lparr>ac_message_id = 4, ac_delivery_id = 5, ac_status = CommPENDING, ac_duplicate = False\<rparr>)"
  by (simp add: accept_inbound_def demo_chat2_def demo_chat1_def demo_chat0_def demo_row_simps demo_insert_simps)

lemma demo_chat_reachable: "comm_reachable reg demo_chat0" "comm_reachable reg demo_chat1" "comm_reachable reg demo_chat2"
proof -
  show "comm_reachable reg demo_chat0" unfolding comm_reachable_def
    by (rule exI [of _ demo_chat0]) (simp add: demo_chat0_def)
  then show "comm_reachable reg demo_chat1" using accepts [OF demo_accept1] by (blast intro: comm_reachable_steps)
  then show "comm_reachable reg demo_chat2" using accepts [OF demo_accept2] by (blast intro: comm_reachable_steps)
qed

section \<open>Rows\<close>

text \<open>
  C33. Stored deliveries are well typed: in every reachable state the envelope of a delivery is of the
  kind its direction says, so a claimed delivery is always readable; stored error codes are
  identifiers of at most 100 and messages at most 500 characters long, as the columns require;
  and an inbound delivery is attempted at most five times.
\<close>

theorem deliveries_well_typed:
  assumes "comm_reachable reg db" "d \<in> set (cm_deliveries db)"
  shows "(cd_direction d = INBOUND \<longleftrightarrow> (\<exists>r. runtime_read d = Inr r)) \<and>
    (\<forall>c. cd_last_error_code d = Some c \<longrightarrow> identifier_upto 100 c) \<and> (\<forall>m. cd_last_error_message d = Some m \<longrightarrow> length m \<le> 500) \<and>
    (cd_direction d = INBOUND \<longrightarrow> cd_attempt_count d \<le> 5) \<and>
    (cd_completed_at d = None \<longleftrightarrow> cd_status d \<in> {CommPENDING, CommPROCESSING})"
proof -
  have ok: "row_ok d" using comm_reachable_row [OF assms] .
  then have "row_typed d" by (simp add: row_ok_def)
  then have "cd_direction d = INBOUND \<longleftrightarrow> (\<exists>r. runtime_read d = Inr r)"
    by (auto simp: row_typed_def runtime_read_def split: stored_envelope.splits)
  with ok show ?thesis by (auto simp: row_ok_def row_typed_def DEFAULT_MAX_ATTEMPTS_def pred_option_def)
qed

theorem deliveries_well_typed_witness:
  "\<exists>r. runtime_read (demo_inbound ''x'' 2 3 1) = Inr r"
proof -
  have "demo_inbound ''x'' 2 3 1 \<in> set (cm_deliveries demo_chat1)" "cd_direction (demo_inbound ''x'' 2 3 1) = INBOUND"
    by (simp_all add: demo_chat1_def demo_inbound_def inbound_row_def Let_def)
  then show ?thesis using deliveries_well_typed [OF demo_chat_reachable(2)] by blast
qed

section \<open>Messages are accepted once\<close>

lemma find_key_extend:
  assumes "map k ys = map k xs @ zs" "find (\<lambda>x. P (k x)) xs = Some x"
  shows "\<exists>y. find (\<lambda>x. P (k x)) ys = Some y \<and> k y = k x"
  using assms
proof (induction xs arbitrary: ys)
  case (Cons a xs)
  then obtain b bs where "ys = b # bs" "k b = k a" "map k bs = map k xs @ zs" by auto
  then show ?case using Cons by (auto split: if_splits)
qed simp

lemma find_message_later:
  assumes "comm_effect db db'" "find_message db cid key = Some m"
  shows "\<exists>m'. find_message db' cid key = Some m' \<and> acm_id m' = acm_id m"
proof -
  obtain xs where "map message_key (cm_messages db') = map message_key (cm_messages db) @ xs" using assms(1) by (auto simp: comm_effect_def)
  from find_key_extend [OF this, of "\<lambda>(i, c, k). c = cid \<and> k = key"] assms(2) show ?thesis
    by (auto simp: find_message_def message_key_def)
qed

lemma find_delivery_later:
  assumes "comm_effect db db'" "find_delivery db cid r key = Some d"
  shows "\<exists>d'. find_delivery db' cid r key = Some d' \<and> cd_id d' = cd_id d"
proof -
  obtain xs where "map row_identity (cm_deliveries db') = map row_identity (cm_deliveries db) @ xs"
    using assms(1) changes_grow by (auto simp: comm_effect_def)
  from find_key_extend [OF this, of "\<lambda>(i, t, a, c, dir, k, q). c = cid \<and> dir = r \<and> k = key"] assms(2) show ?thesis
    by (auto simp: find_delivery_def row_identity_def)
qed

lemma find_snoc: "find P xs = None \<Longrightarrow> P x \<Longrightarrow> find P (xs @ [x]) = Some x"
  by (induction xs) (auto split: if_splits)

lemma store_message_found:
  assumes "store_message m env db = Inr (db1, mid, duplicate)" "distinct (map acm_id (cm_messages db))"
  shows "\<exists>x. find_message db1 (acm_connection_id m) (acm_openclaw_msg_id m) = Some x \<and> acm_id x = mid"
proof (cases "find_message db (acm_connection_id m) (acm_openclaw_msg_id m)")
  case None
  then have "cm_messages db1 = cm_messages db @ [m]" "mid = acm_id m"
    using assms(1) by (auto simp: store_message_def bind_result_Inr dest: insert_chat_message_Inr)
  then show ?thesis using None by (simp add: find_message_def find_snoc)
next
  case (Some old)
  then have "mid = acm_id old" using assms(1) by (simp add: store_message_def)
  then show ?thesis using find_message_later [OF store_message_Inr(1) [OF assms] Some] by simp
qed

lemma accepted_found:
  assumes "comm_inv db" "accept_inbound ids now cid env db = Inr (db', acc)"
  shows "(\<exists>m. find_message db' cid (env_provider_message_id env) = Some m \<and> acm_id m = ac_message_id acc) \<and>
    (\<exists>d. find_delivery db' cid INBOUND (env_provider_message_id env) = Some d \<and> cd_id d = ac_delivery_id acc)"
proof -
  let ?key = "env_provider_message_id env"
  obtain a db1 mid duplicate where s: "store_message (message_values a cid env (ids 0) now) env db = Inr (db1, mid, duplicate)" "ac_message_id acc = mid"
    and rest: "(\<exists>old. find_delivery db1 cid INBOUND ?key = Some old \<and> db' = put_delivery (backfill_delivery_names env old) db1 \<and>
        ac_delivery_id acc = cd_id old \<and> ac_duplicate acc) \<or>
     (\<exists>db2 rq. find_delivery db1 cid INBOUND ?key = None \<and>
        insert_comm_delivery (inbound_row a cid mid env (ids 1) now) db1 = Inr db2 \<and> db' = stage_journal rq db2 \<and>
        ac_delivery_id acc = ids 1)"
    using accept_inbound_Inr [OF assms(2)] by metis
  have m1: "\<exists>x. find_message db1 cid ?key = Some x \<and> acm_id x = mid"
    using store_message_found [OF s(1)] assms(1) by (simp add: comm_inv_def message_values_def)
  have inv: "comm_inv db1" using comm_effect_inv [OF store_message_Inr(1) [OF s(1)]] assms(1) by (simp add: comm_inv_def)
  have "(\<exists>d. find_delivery db' cid INBOUND ?key = Some d \<and> cd_id d = ac_delivery_id acc) \<and> cm_messages db' = cm_messages db1"
    using rest
  proof (elim disjE exE conjE)
    fix old assume old: "find_delivery db1 cid INBOUND ?key = Some old" "db' = put_delivery (backfill_delivery_names env old) db1" "ac_delivery_id acc = cd_id old"
    have "comm_effect db1 db'" using inv find_delivery_Some [OF old(1)] unfolding old(2) comm_inv_def
      by (intro put_effect [of db1 old]) (auto intro: backfill)
    from find_delivery_later [OF this old(1)] show ?thesis using old by simp
  next
    fix db2 rq assume none: "find_delivery db1 cid INBOUND ?key = None"
      and i: "insert_comm_delivery (inbound_row a cid mid env (ids 1) now) db1 = Inr db2" "db' = stage_journal rq db2" "ac_delivery_id acc = ids 1"
    let ?d = "inbound_row a cid mid env (ids 1) now"
    have "cm_deliveries db' = cm_deliveries db1 @ [?d]" "cm_messages db' = cm_messages db1" using i by (simp_all add: insert_comm_delivery_Inr)
    moreover have "cd_connection_id ?d = cid" "cd_direction ?d = INBOUND" "cd_idempotency_key ?d = ?key" "cd_id ?d = ids 1"
      by (simp_all add: inbound_row_def Let_def)
    ultimately show ?thesis using none i(3) by (simp add: find_delivery_def find_snoc)
  qed
  then show ?thesis using m1 s(2) by (auto simp: find_message_def)
qed

text \<open>
  C18. A message is accepted once: when a provider sends a message again, whatever has happened in
  between, the answer names the same message and the same delivery and says that it is a
  duplicate, and nothing is queued a second time.
\<close>

theorem message_accepted_once:
  assumes "comm_reachable reg db" and first: "accept_inbound ids now cid env db = Inr (db1, acc)"
    and "comm_steps reg db1 db2" and again: "accept_inbound ids' now' cid env' db2 = Inr (db3, acc')"
    and "env_provider_message_id env' = env_provider_message_id env"
  shows "ac_message_id acc' = ac_message_id acc \<and> ac_delivery_id acc' = ac_delivery_id acc \<and> ac_duplicate acc' \<and>
    map cd_id (cm_deliveries db3) = map cd_id (cm_deliveries db2) \<and> map cd_status (cm_deliveries db3) = map cd_status (cm_deliveries db2)"
proof -
  let ?key = "env_provider_message_id env"
  have inv: "comm_inv db" using comm_reachable_inv [OF assms(1)] .
  have inv1: "comm_inv db1" using comm_effect_inv [OF accept_effect [OF inv first] inv] .
  then have inv2: "comm_inv db2" and eff: "comm_effect db1 db2" using comm_steps_effect [OF assms(3)] by blast+
  obtain m d where "find_message db1 cid ?key = Some m" "acm_id m = ac_message_id acc"
      "find_delivery db1 cid INBOUND ?key = Some d" "cd_id d = ac_delivery_id acc"
    using accepted_found [OF inv first] by blast
  then obtain m2 d2 where m2: "find_message db2 cid ?key = Some m2" "acm_id m2 = ac_message_id acc"
      and d2: "find_delivery db2 cid INBOUND ?key = Some d2" "cd_id d2 = ac_delivery_id acc"
    using find_message_later [OF eff] find_delivery_later [OF eff] by metis
  obtain a db' mid duplicate where s: "store_message (message_values a cid env' (ids' 0) now') env' db2 = Inr (db', mid, duplicate)" "ac_message_id acc' = mid"
    and rest: "(\<exists>old. find_delivery db' cid INBOUND ?key = Some old \<and> db3 = put_delivery (backfill_delivery_names env' old) db' \<and>
        ac_delivery_id acc' = cd_id old \<and> ac_duplicate acc') \<or>
     (\<exists>db2 rq. find_delivery db' cid INBOUND ?key = None \<and>
        insert_comm_delivery (inbound_row a cid mid env' (ids' 1) now') db' = Inr db2 \<and> db3 = stage_journal rq db2 \<and>
        ac_delivery_id acc' = ids' 1)"
    using accept_inbound_Inr [OF again] assms(5) by metis
  have same: "cm_deliveries db' = cm_deliveries db2" using store_message_Inr(2) [OF s(1)] inv2 by (simp add: comm_inv_def)
  then have "find_delivery db' cid INBOUND ?key = Some d2" using d2(1) by (simp add: find_delivery_def)
  then have db3: "db3 = put_delivery (backfill_delivery_names env' d2) db'" "ac_delivery_id acc' = cd_id d2" "ac_duplicate acc'" using rest by auto
  have b: "cd_id (backfill_delivery_names env' d2) = cd_id d2" "cd_status (backfill_delivery_names env' d2) = cd_status d2"
    by (simp_all add: backfill_delivery_names_def split: stored_envelope.splits)
  have "cd_status (if cd_id x = cd_id d2 then backfill_delivery_names env' d2 else x) = cd_status x" if "x \<in> set (cm_deliveries db2)" for x
    using same_row [OF inv2 that, of d2] find_delivery_Some [OF d2(1)] b by auto
  then have "map cd_status (cm_deliveries db3) = map cd_status (cm_deliveries db2)"
    unfolding db3 put_delivery_frame same row_put_def b map_map by (intro map_cong) simp_all
  moreover have "mid = acm_id m2" using s(1) m2(1) assms(5) by (simp add: store_message_def message_values_def)
  ultimately show ?thesis using db3 d2(2) m2(2) s(2) same by simp
qed

theorem message_accepted_once_witness:
  "\<exists>db. accept_inbound (\<lambda>k. if k = 0 then 8 else 9) 2 4 (demo_envelope ''x'') demo_chat1 =
    Inr (db, \<lparr>ac_message_id = 2, ac_delivery_id = 3, ac_status = CommPENDING, ac_duplicate = True\<rparr>) \<and>
    map cd_id (cm_deliveries db) = [3]"
proof -
  obtain db3 acc' where again: "accept_inbound (\<lambda>k. if k = 0 then 8 else 9) 2 4 (demo_envelope ''x'') demo_chat1 = Inr (db3, acc')"
    and st: "ac_status acc' = CommPENDING"
    by (simp add: accept_inbound_def demo_chat1_def demo_chat0_def demo_row_simps demo_insert_simps)
  have "map cd_id (cm_deliveries demo_chat1) = [3]" by (simp add: demo_chat1_def demo_inbound_def inbound_row_def Let_def)
  with message_accepted_once [OF demo_chat_reachable(1) demo_accept1 rtranclp.rtrancl_refl again refl] again st show ?thesis
    by (cases acc') simp
qed

section \<open>Cancellation\<close>

lemma cancelled_later:
  assumes "row_later d d'" "cd_direction d = INBOUND" "cd_cancel_requested_at d \<noteq> None"
  shows "cd_direction d' = INBOUND \<and> cd_cancel_requested_at d' \<noteq> None \<and> cd_attempt_count d' = cd_attempt_count d"
  using assms(1) unfolding row_later_def
proof (induction rule: rtranclp_induct)
  case (step y z)
  then obtain ds where "row_move ds y z" "row_ok y" by blast
  then show ?case using step.IH
    by (induction rule: row_move.induct) (auto simp: row_ok_def row_defs split: stored_envelope.splits if_splits)
qed (use assms in simp)

lemma get_where_unique:
  assumes "comm_inv db" "d \<in> set (cm_deliveries db)" "get_where P (cd_id d) db = Some x"
  shows "x = d"
  using get_where_Some [OF assms(3)] same_row [OF assms(1) _ assms(2)] by blast

lemma fails_anyway: "\<exists>e. bind_result x (\<lambda>_. Inl e0) = Inl e"
  by (cases x) auto

text \<open>
  C13. Cancelled work is abandoned: once a user has asked to stop a delivery and the request was
  accepted, whatever happens afterwards the delivery is either still with the Agent that had it
  or cancelled; it is never attempted again, and no reply to it is sent. (Steps include the retirement of
  the connection and the soft deletion of the Agent; the removal of all rows with their Organization is
  not among them.)
\<close>

theorem cancelled_work_is_abandoned:
  assumes "comm_reachable reg db" and cancel: "request_cancel now i aid db = (db1, Some st)" and later: "comm_steps reg db1 db2"
  shows "\<exists>d \<in> set (cm_deliveries db). cd_id d = i \<and> (\<exists>d' \<in> set (cm_deliveries db2). cd_id d' = i \<and>
      cd_status d' \<in> {CommPROCESSING, CommCANCELLED} \<and> cd_attempt_count d' = cd_attempt_count d \<and>
      (\<forall>new_ids now' aid' reply. \<exists>e. enqueue_runtime_reply new_ids now' aid' i reply db2 = Inl e))"
proof -
  have inv: "comm_inv db" using comm_reachable_inv [OF assms(1)] .
  obtain d where d: "d \<in> set (cm_deliveries db)" "cd_id d = i" "cd_direction d = INBOUND"
    and db1: "db1 = put_delivery (cancel_requested now d) db"
    using cancel by (auto simp: request_cancel_def split: option.splits dest: get_where_Some)
  let ?c = "cancel_requested now d"
  have c: "cd_id ?c = i" "cd_direction ?c = INBOUND" "cd_cancel_requested_at ?c \<noteq> None" "cd_attempt_count ?c = cd_attempt_count d"
    using d by (simp_all add: cancel_requested_def Let_def)
  have "comm_reachable reg db1" using comm_reachable_steps [OF assms(1)] cancels [of reg db now i aid] cancel by auto
  then have inv1: "comm_inv db1" using comm_reachable_inv by blast
  have "?c \<in> set (cm_deliveries db1)" using d c unfolding db1 put_delivery_frame row_put_def by force
  moreover have "delivery_changes (cm_deliveries db1) (cm_deliveries db2)" using comm_steps_effect [OF later inv1] by (simp add: comm_effect_def)
  ultimately obtain d' where d': "d' \<in> set (cm_deliveries db2)" "row_later ?c d'"
    using changes_row inv1 unfolding comm_inv_def by blast
  have id: "cd_id d' = i" using row_later_identity [OF d'(2)] c(1) by (simp add: row_identity_def)
  have l: "cd_direction d' = INBOUND" "cd_cancel_requested_at d' \<noteq> None" "cd_attempt_count d' = cd_attempt_count d"
    using cancelled_later [OF d'(2) c(2,3)] c(4) by simp_all
  have inv2: "comm_inv db2" using comm_steps_effect [OF later inv1] by blast
  then have "row_ok d'" using d'(1) deliveries_invD(3) unfolding comm_inv_def by blast
  then have st: "cd_status d' \<in> {CommPROCESSING, CommCANCELLED}" using l unfolding row_ok_def by blast
  have "\<exists>e. enqueue_runtime_reply new_ids now' aid' i reply db2 = Inl e" for new_ids now' aid' reply
  proof (cases "get_where (\<lambda>d. cd_agent_id d = aid' \<and> cd_direction d = INBOUND) i db2")
    case (Some x)
    then have "x = d'" using get_where_unique [OF inv2 d'(1)] id by simp
    then show ?thesis using Some l(2)
      by (auto simp: enqueue_runtime_reply_def raise_if_def fails_anyway split: option.splits)
  qed (simp add: enqueue_runtime_reply_def)
  then show ?thesis using d d'(1) id st l(3) by blast
qed

theorem cancelled_work_is_abandoned_witness:
  "\<exists>d \<in> set (cm_deliveries demo_chat1). cd_id d = 3 \<and> (\<exists>e. enqueue_runtime_reply (\<lambda>_. 9) 4 3 3
    \<lparr>rep_idempotency_key = ''k'', rep_text = ''r'', rep_attachments = [], rep_approval = None\<rparr> (fst (request_cancel 3 3 3 demo_chat1)) = Inl e)"
proof -
  have "request_cancel 3 3 3 demo_chat1 = (fst (request_cancel 3 3 3 demo_chat1), Some CommCANCELLED)"
    by (simp add: request_cancel_def get_where_def demo_chat1_def demo_row_simps cancel_requested_def Let_def)
  from cancelled_work_is_abandoned [OF demo_chat_reachable(2) this rtranclp.rtrancl_refl] show ?thesis by blast
qed

section \<open>The order of replies\<close>

text \<open>
  C12. Replies of a conversation go out in order: of two queued replies of which the later one has not
  been attempted yet, whatever happens, the later one is attempted only when the earlier one has been
  delivered, or was cancelled because its connection was retired or its Agent deleted. So a later
  reply never overtakes one that is queued, in flight or given up on. Nothing is assumed of the order in
  which replies are queued: one that is queued with an earlier time after the other was attempted
  is not covered, for then the order is lost already.
\<close>

theorem replies_in_order:
  assumes "comm_reachable reg db" "x \<in> set (cm_deliveries db)" "y \<in> set (cm_deliveries db)"
    and "same_stream x y" "earlier x y" "cd_status y = CommPENDING" "cd_attempt_count y = 0"
    and later: "comm_steps reg db db'" "x' \<in> set (cm_deliveries db')" "y' \<in> set (cm_deliveries db')" "cd_id x' = cd_id x" "cd_id y' = cd_id y"
    and "cd_status y' \<notin> {CommPENDING, CommCANCELLED} \<or> 0 < cd_attempt_count y'"
  shows "cd_status x' = CommSUCCEEDED \<or> (cd_status x' = CommCANCELLED \<and> cd_last_error_code x' = Some ''CONNECTION_RETIRED'')"
proof -
  have inv: "comm_inv db" using comm_reachable_inv [OF assms(1)] .
  then have eff: "delivery_changes (cm_deliveries db) (cm_deliveries db')" and inv': "comm_inv db'"
    using comm_steps_effect [OF later(1)] by (simp_all add: comm_effect_def)
  have "in_order x y" using assms(4-7) by (simp add: in_order_def started_def)
  then obtain u v where "u \<in> set (cm_deliveries db')" "v \<in> set (cm_deliveries db')" "cd_id u = cd_id x" "cd_id v = cd_id y" "in_order u v"
    using changes_in_order [OF eff _ assms(2,3)] inv by (auto simp: comm_inv_def)
  moreover from this have "u = x'" "v = y'" using same_row [OF inv'] later(2-5) by simp_all
  ultimately show ?thesis using assms(13) by (auto simp: in_order_def started_def sent_or_retired_def)
qed

text \<open>Two replies to one message, with everything but messages and deliveries reset.\<close>

lemma reachable_frame:
  "comm_reachable reg db \<Longrightarrow> cm_deliveries db' = cm_deliveries db \<Longrightarrow> cm_messages db' = cm_messages db \<Longrightarrow> comm_reachable reg db'"
  using others by (blast intro: comm_reachable_steps)

definition demo_reply :: "string \<Rightarrow> runtime_reply" where
  "demo_reply k = \<lparr>rep_idempotency_key = k, rep_text = ''r'', rep_attachments = [], rep_approval = None\<rparr>"

definition demo_outbound :: "string \<Rightarrow> uuid \<Rightarrow> uuid \<Rightarrow> datetime \<Rightarrow> communication_delivery" where
  "demo_outbound k mid i t =
    (let d = demo_inbound ''x'' 2 3 1 in reply_row 3 d mid (reply_envelope d (demo_envelope ''x'') (demo_reply k)) (demo_reply k) i t)"

definition demo_replied :: "communication_delivery list \<Rightarrow> comm_db" where
  "demo_replied ds = demo_chat0
    \<lparr>cm_messages := demo_message_row ''x'' 2 1 #
       map (\<lambda>d. reply_message 3 (demo_inbound ''x'' 2 3 1) (demo_envelope ''x'') (demo_reply (cd_idempotency_key d)) (cd_message_id d) (cd_created_at d)) ds,
     cm_deliveries := demo_inbound ''x'' 2 3 1 # ds\<rparr>"

lemmas demo_reply_simps = demo_replied_def demo_outbound_def demo_reply_def demo_chat0_def reply_row_def reply_envelope_def reply_message_def

text \<open>Each state of the example is reached from the one before by one operation.\<close>

lemma stepped:
  assumes "comm_step reg db db1" "cm_deliveries db2 = cm_deliveries db1" "cm_messages db2 = cm_messages db1"
  shows "comm_steps reg db db2"
  using assms(1) others [OF assms(3,2)] by (meson converse_rtranclp_into_rtranclp r_into_rtranclp)

lemma reached:
  assumes "comm_reachable reg db" "comm_step reg db db1" "cm_deliveries db2 = cm_deliveries db1" "cm_messages db2 = cm_messages db1"
  shows "comm_reachable reg db2"
  using comm_reachable_steps [OF assms(1)] stepped [OF assms(2-4)] by blast

lemma reached_reply:
  assumes "comm_reachable reg db"
    and "\<exists>db1 j. enqueue_runtime_reply ids t aid i reply db = Inr (db1, j) \<and>
      cm_deliveries db2 = cm_deliveries db1 \<and> cm_messages db2 = cm_messages db1"
  shows "comm_reachable reg db2"
  using assms reached replies by metis

definition demo_first :: communication_delivery where
  "demo_first = demo_outbound ''k'' 4 5 2"

definition demo_first_sent :: communication_delivery where
  "demo_first_sent = (apply_completion True 5 5 None None None (claimed_outbound 4 120 demo_first))\<lparr>cd_provider_message_id := Some ''p''\<rparr>"

definition demo_second :: communication_delivery where
  "demo_second = demo_outbound ''m'' 6 7 3"

lemmas demo_pair_simps = demo_first_def demo_first_sent_def demo_second_def

lemma has_stage_staged: "has_stage (stage_journal rq db) i s \<longleftrightarrow> has_stage db i s \<or> (jr_delivery_id rq = Some i \<and> jr_stage rq = s)"
  by (auto simp: has_stage_def stage_journal_def journal_request.defs journal_entry.defs)

lemma plain_success:
  assumes "cd_status d = CommSUCCEEDED" "\<not> has_stage db (cd_id d) StRETRY_REQUESTED"
  shows "\<exists>rq. stage_completion_journal reg ids d now details db = Inr (stage_journal rq db)"
proof -
  have "jr_stage (delivery_journal d s n now\<lparr>jr_error_code := c, jr_error_summary := m, jr_error_details := details\<rparr>) = s" for s n c m
    by (simp add: delivery_journal_def)
  then show ?thesis using assms by (auto simp: stage_completion_journal_def has_stage_staged Let_def)
qed

lemma demo_replied_reachable:
  "comm_reachable reg (demo_replied [])"
  "comm_reachable reg (demo_replied [demo_first])"
  "comm_reachable reg (demo_replied [demo_first, demo_second])"
proof -
  show 0: "comm_reachable reg (demo_replied [])"
    by (rule reachable_frame [OF demo_chat_reachable(2)]) (simp_all add: demo_replied_def demo_chat1_def)
  note simps = enqueue_runtime_reply_def get_where_def require_gateway_transport_def PLATFORM_TRANSPORTS_def demo_pair_simps
    demo_reply_simps demo_row_simps demo_insert_simps
  show 1: "comm_reachable reg (demo_replied [demo_first])"
    by (rule reached_reply [OF 0, where t = 2 and ids = "\<lambda>k. if k = 0 then 4 else 5" and aid = 3 and i = 3 and reply = "demo_reply ''k''"]) (simp_all add: simps)
  show "comm_reachable reg (demo_replied [demo_first, demo_second])"
    by (rule reached_reply [OF 1, where t = 3 and ids = "\<lambda>k. if k = 0 then 6 else 7" and aid = 3 and i = 3 and reply = "demo_reply ''m''"]) (simp_all add: simps)
qed

lemma demo_sent_steps:
  "comm_steps reg (demo_replied [demo_first, demo_second]) (demo_replied [claimed_outbound 4 120 demo_first, demo_second])"
  "comm_steps reg (demo_replied [claimed_outbound 4 120 demo_first, demo_second]) (demo_replied [demo_first_sent, demo_second])"
  "comm_steps reg (demo_replied [demo_first_sent, demo_second]) (demo_replied [demo_first_sent, claimed_outbound 6 120 demo_second])"
proof -
  note simps = claim_next_outbound_def requeue_expired_outbound_def first_available_def outbound_claimable_def outbound_expired_def
    on_gateway_def GATEWAY_PLATFORM_KEYS_def PLATFORM_TRANSPORTS_def BLOCKING_OUTBOUND_STATUSES_def same_stream_def earlier_def
    claimed_outbound_def demo_pair_simps apply_completion_def row_put_def
    demo_reply_simps demo_row_simps demo_insert_simps
  show "comm_steps reg (demo_replied [demo_first, demo_second]) (demo_replied [claimed_outbound 4 120 demo_first, demo_second])"
    by (rule stepped [OF claims_outbound [of _ _ 4 "\<lambda>_. False" 120]]) (simp_all add: simps)
  show "comm_steps reg (demo_replied [demo_first_sent, demo_second]) (demo_replied [demo_first_sent, claimed_outbound 6 120 demo_second])"
    by (rule stepped [OF claims_outbound [of _ _ 6 "\<lambda>_. False" 120]]) (simp_all add: simps)
  let ?db = "demo_replied [claimed_outbound 4 120 demo_first, demo_second]" and ?ids = "\<lambda>_. 0 :: uuid"
  have "complete_outbound reg ?ids 5 5 (Some ''p'') None None None DEFAULT_MAX_ATTEMPTS ?db =
    bind_result (stage_completion_journal reg ?ids demo_first_sent 5 None (put_delivery demo_first_sent ?db)) (\<lambda>db1. Inr (db1, True))"
    by (simp add: complete_outbound_def get_where_def DEFAULT_MAX_ATTEMPTS_def simps)
  moreover have "\<exists>rq. stage_completion_journal reg ?ids demo_first_sent 5 None (put_delivery demo_first_sent ?db) =
      Inr (stage_journal rq (put_delivery demo_first_sent ?db))"
    by (rule plain_success) (simp_all add: has_stage_def put_delivery_def simps)
  ultimately obtain rq where "complete_outbound reg ?ids 5 5 (Some ''p'') None None None DEFAULT_MAX_ATTEMPTS ?db =
      Inr (stage_journal rq (put_delivery demo_first_sent ?db), True)" by auto
  from stepped [OF completes_outbound [OF _ this]]
  show "comm_steps reg ?db (demo_replied [demo_first_sent, demo_second])" by (simp add: pred_option_def simps)
qed

theorem replies_in_order_witness:
  "cd_status demo_first_sent = CommSUCCEEDED"
proof -
  let ?db = "demo_replied [demo_first, demo_second]" and ?s = "claimed_outbound 6 120 demo_second"
  let ?fin = "demo_replied [demo_first_sent, ?s]"
  note simps = same_stream_def earlier_def claimed_outbound_def demo_pair_simps apply_completion_def demo_reply_simps demo_row_simps
  have "comm_steps reg ?db ?fin" for reg using demo_sent_steps by (meson rtranclp_trans)
  moreover have "same_stream demo_first demo_second" "earlier demo_first demo_second" "cd_status demo_second = CommPENDING" "cd_attempt_count demo_second = 0"
      "cd_id demo_first_sent = cd_id demo_first" "cd_id ?s = cd_id demo_second" "0 < cd_attempt_count ?s"
      "cd_status demo_first_sent \<noteq> CommCANCELLED"
    by (simp_all add: simps)
  moreover have "demo_first \<in> set (cm_deliveries ?db)" "demo_second \<in> set (cm_deliveries ?db)"
      "demo_first_sent \<in> set (cm_deliveries ?fin)" "?s \<in> set (cm_deliveries ?fin)"
    by (simp_all add: demo_replied_def)
  ultimately show ?thesis
    using replies_in_order [OF demo_replied_reachable(3), of demo_first demo_second _ ?fin demo_first_sent ?s] by blast
qed

section \<open>Turns of a conversation\<close>

lemma claim_inbound_Some:
  assumes "claim_inbound now locked aid lease db = (db', Inr (Some r))"
  shows "\<exists>d \<in> set (cm_deliveries db). inbound_claimable db now aid d \<and> rd_delivery_id r = cd_id d \<and>
    cm_deliveries db' = row_put cd_id (claimed_inbound now lease d) (cm_deliveries db)"
proof (cases "first_available (row_where (\<lambda>d. inbound_claimable db now aid d \<and> \<not> locked (cd_id d)) (cm_deliveries db))")
  case None
  then show ?thesis using assms by (simp add: claim_inbound_def)
next
  case (Some d)
  then have "bind_result (runtime_read (claimed_inbound now lease d)) (\<lambda>r. Inr (Some r)) = Inr (Some r)"
      "cm_deliveries db' = row_put cd_id (claimed_inbound now lease d) (cm_deliveries db)"
    using assms by (auto simp: claim_inbound_def Let_def)
  moreover from this have "rd_delivery_id r = cd_id d"
    by (auto simp: bind_result_Inr runtime_read_def claimed_inbound_def split: stored_envelope.splits)
  ultimately show ?thesis using first_available_Some [OF Some] by auto
qed

text \<open>
  Committed turns do not overlap: right after an Agent has claimed a message, nobody claims
  another message of the same conversation, at any later time and whatever rows are locked.
\<close>

theorem turns_do_not_overlap:
  assumes "comm_reachable reg db" "claim_inbound now locked aid lease db = (db1, Inr (Some r1))"
    and "claim_inbound now' locked' aid' lease' db1 = (db2, Inr (Some r2))"
  shows "\<exists>d1 \<in> set (cm_deliveries db). \<exists>d2 \<in> set (cm_deliveries db). cd_id d1 = rd_delivery_id r1 \<and> cd_id d2 = rd_delivery_id r2 \<and>
    cd_ordering_key d1 \<noteq> cd_ordering_key d2"
proof -
  obtain d1 where d1: "d1 \<in> set (cm_deliveries db)" "rd_delivery_id r1 = cd_id d1"
      "cm_deliveries db1 = row_put cd_id (claimed_inbound now lease d1) (cm_deliveries db)"
    using claim_inbound_Some [OF assms(2)] by blast
  let ?c = "claimed_inbound now lease d1"
  obtain d2 where d2: "d2 \<in> set (cm_deliveries db1)" "inbound_claimable db1 now' aid' d2" "rd_delivery_id r2 = cd_id d2"
    using claim_inbound_Some [OF assms(3)] by blast
  have c: "cd_id ?c = cd_id d1" "holds_thread (cd_ordering_key d1) ?c" by (simp_all add: claimed_inbound_def holds_thread_def)
  then have "?c \<in> set (cm_deliveries db1)" using d1(1) unfolding d1(3) row_put_def by force
  then have differ: "cd_ordering_key d2 \<noteq> cd_ordering_key d1" and "d2 \<noteq> ?c" using d2(2) c(2) by (auto simp: inbound_claimable_def holds_thread_def)
  then have "d2 \<in> set (cm_deliveries db)" using d2(1) unfolding d1(3) row_put_def by (auto split: if_splits)
  then show ?thesis using d1 d2 differ by metis
qed

definition demo_other :: normalized_envelope where
  "demo_other = (demo_envelope ''z'')\<lparr>env_location := \<lparr>loc_id = ''o'', loc_type = DM, loc_display_name = None, loc_thread_id = None\<rparr>\<rparr>"

lemmas demo_claim_simps = claim_inbound_def first_available_def inbound_claimable_def holds_thread_def on_gateway_def
  GATEWAY_PLATFORM_KEYS_def PLATFORM_TRANSPORTS_def runtime_read_def claimed_inbound_def put_delivery_def row_put_def
  demo_chat2_def demo_chat1_def demo_chat0_def demo_row_simps

definition demo_other_row :: communication_delivery where
  "demo_other_row = inbound_row demo_chat_agent 4 4 demo_other 5 2"

definition demo_two :: comm_db where
  "demo_two = demo_chat0\<lparr>cm_messages := [demo_message_row ''x'' 2 1, message_values demo_chat_agent 4 demo_other 4 2],
    cm_deliveries := [demo_inbound ''x'' 2 3 1, demo_other_row]\<rparr>"

lemma demo_two_reachable: "comm_reachable reg demo_two"
proof -
  have "\<exists>db acc. accept_inbound (\<lambda>k. if k = 0 then 4 else 5) 2 4 demo_other demo_chat1 = Inr (db, acc) \<and>
      cm_deliveries demo_two = cm_deliveries db \<and> cm_messages demo_two = cm_messages db"
    by (simp add: accept_inbound_def demo_two_def demo_other_row_def demo_other_def demo_chat1_def demo_chat0_def demo_row_simps demo_insert_simps)
  then show ?thesis using reached [OF demo_chat_reachable(2) accepts] by metis
qed

theorem turns_do_not_overlap_witness:
  "cd_ordering_key (demo_inbound ''x'' 2 3 1) \<noteq> cd_ordering_key demo_other_row"
proof -
  note simps = demo_claim_simps demo_two_def demo_other_row_def demo_other_def
  obtain r1 where r1: "claim_inbound 5 (\<lambda>_. False) 3 120 demo_two = (fst (claim_inbound 5 (\<lambda>_. False) 3 120 demo_two), Inr (Some r1))"
      "rd_delivery_id r1 = 3"
    by (simp add: simps)
  obtain db2 r2 where r2: "claim_inbound 6 (\<lambda>_. False) 3 120 (fst (claim_inbound 5 (\<lambda>_. False) 3 120 demo_two)) = (db2, Inr (Some r2))"
      "rd_delivery_id r2 = 5"
    by (simp add: simps ordering_key_for_location_def)
  have "set (cm_deliveries demo_two) = {demo_inbound ''x'' 2 3 1, demo_other_row}" "cd_id (demo_inbound ''x'' 2 3 1) = 3" "cd_id demo_other_row = 5"
    by (simp_all add: demo_two_def demo_other_row_def demo_inbound_def inbound_row_def Let_def)
  with turns_do_not_overlap [OF demo_two_reachable r1(1) r2(1)] r1(2) r2(2) show ?thesis by auto
qed

text \<open>
  Concurrent turns overlap: two claims that run at the same time, each before the other commits,
  take two messages of the same conversation. The second skips the row that the first has locked,
  and does not see that it is now processed.
\<close>

theorem concurrent_turns_overlap:
  "\<exists>db db1 r1 db2 r2 d1 d2. comm_reachable reg db \<and>
    claim_inbound 5 (\<lambda>_. False) 3 120 db = (db1, Inr (Some r1)) \<and>
    claim_inbound 5 (\<lambda>i. i = rd_delivery_id r1) 3 120 db = (db2, Inr (Some r2)) \<and>
    row_get cd_id (rd_delivery_id r1) (cm_deliveries db) = Some d1 \<and> row_get cd_id (rd_delivery_id r2) (cm_deliveries db) = Some d2 \<and>
    d1 \<noteq> d2 \<and> cd_ordering_key d1 = cd_ordering_key d2"
proof -
  let ?x = "demo_inbound ''x'' 2 3 1" and ?y = "demo_inbound ''y'' 4 5 2"
  have rows: "row_get cd_id 3 (cm_deliveries demo_chat2) = Some ?x" "row_get cd_id 5 (cm_deliveries demo_chat2) = Some ?y"
      "?x \<noteq> ?y" "cd_ordering_key ?x = cd_ordering_key ?y"
    by (simp_all add: row_get_def demo_claim_simps)
  obtain db1 r1 where r1: "claim_inbound 5 (\<lambda>_. False) 3 120 demo_chat2 = (db1, Inr (Some r1))" "rd_delivery_id r1 = 3"
    by (simp add: demo_claim_simps)
  obtain db2 r2 where r2: "claim_inbound 5 (\<lambda>i. i = 3) 3 120 demo_chat2 = (db2, Inr (Some r2))" "rd_delivery_id r2 = 5"
    by (simp add: demo_claim_simps)
  show ?thesis
    by (rule exI [of _ demo_chat2], rule exI [of _ db1], rule exI [of _ r1], rule exI [of _ db2], rule exI [of _ r2],
        rule exI [of _ ?x], rule exI [of _ ?y]) (simp only: demo_chat_reachable r1 r2 rows simp_thms)
qed

section \<open>Senders that crash\<close>

text \<open>A sender claims, crashes, and two minutes later the next one does the same.\<close>

fun crash_cycles :: "nat \<Rightarrow> datetime \<Rightarrow> comm_db \<Rightarrow> comm_db" where
  "crash_cycles 0 now db = db"
| "crash_cycles (Suc n) now db =
    crash_cycles n (now + seconds 121) (fst (claim_next_outbound now (\<lambda>_. False) DEFAULT_LEASE_SECONDS db))"

definition sendable :: "comm_db \<Rightarrow> datetime \<Rightarrow> communication_delivery \<Rightarrow> bool" where
  "sendable db now d \<longleftrightarrow> cm_deliveries db = [d] \<and> cd_direction d = OUTBOUND \<and> cd_available_at d \<le> now \<and>
    (cd_status d = CommPENDING \<or> cd_status d = CommPROCESSING \<and> (\<exists>t. cd_lease_expires_at d = Some t \<and> t < now)) \<and>
    (\<exists>c \<in> set (cm_connections db). cn_id c = cd_connection_id d \<and> cn_platform_key c \<in> set GATEWAY_PLATFORM_KEYS \<and>
      cn_enabled c \<and> cn_retired_at c = None)"

lemma crash_cycle:
  assumes "sendable db now d"
  shows "\<exists>d'. sendable (fst (claim_next_outbound now (\<lambda>_. False) DEFAULT_LEASE_SECONDS db)) (now + seconds 121) d' \<and>
    cd_attempt_count d' = Suc (cd_attempt_count d)"
proof -
  let ?r = "if outbound_expired db now d then requeued_outbound d else d"
  let ?d = "claimed_outbound now DEFAULT_LEASE_SECONDS ?r" and ?db = "requeue_expired_outbound now db"
  have q: "cm_deliveries ?db = [?r]" "cm_connections ?db = cm_connections db"
    using assms by (simp_all add: requeue_expired_outbound_def sendable_def)
  have r: "cd_id ?r = cd_id d" "cd_status ?r = CommPENDING" "cd_direction ?r = OUTBOUND" "cd_available_at ?r = cd_available_at d"
      "cd_connection_id ?r = cd_connection_id d" "cd_attempt_count ?r = cd_attempt_count d"
    using assms by (auto simp: sendable_def outbound_expired_def on_gateway_def requeued_outbound_def)
  have "\<not> earlier ?r ?r" by (simp add: earlier_def)
  then have "outbound_claimable ?db now ?r" using assms r q by (auto simp: outbound_claimable_def sendable_def)
  then have "cm_deliveries (fst (claim_next_outbound now (\<lambda>_. False) DEFAULT_LEASE_SECONDS db)) = [?d]"
      "cm_connections (fst (claim_next_outbound now (\<lambda>_. False) DEFAULT_LEASE_SECONDS db)) = cm_connections db"
    using q by (simp_all add: claim_next_outbound_def first_available_def Let_def row_put_def claimed_outbound_def put_delivery_def)
  moreover have "seconds DEFAULT_LEASE_SECONDS < seconds 121" by (simp add: DEFAULT_LEASE_SECONDS_def seconds_def)
  moreover have "cd_available_at d \<le> now + seconds 121" using assms by (auto simp: sendable_def seconds_def)
  ultimately show ?thesis using assms r
    by (intro exI [of _ ?d]) (auto simp: sendable_def claimed_outbound_def)
qed

text \<open>
  C37. A reply that crashes its sender is never given up on: an outbound delivery whose
  lease runs out is queued again without looking at the number of attempts, so however often the sender
  crashes, the delivery is claimed once more and never becomes a dead letter, although a delivery
  that fails with an error is a dead letter after five attempts.
\<close>

theorem crashing_reply_never_given_up:
  assumes "cm_deliveries db = [d]" "outbound_claimable db now d"
  shows "\<exists>d'. cm_deliveries (crash_cycles n now db) = [d'] \<and> cd_attempt_count d' = cd_attempt_count d + n \<and>
    cd_status d' \<in> {CommPENDING, CommPROCESSING}"
proof -
  have "sendable db now d" using assms by (auto simp: sendable_def outbound_claimable_def)
  then show ?thesis
  proof (induction n arbitrary: db now d)
    case (Suc n)
    from crash_cycle [OF Suc.prems] Suc.IH show ?case by fastforce
  qed (auto simp: sendable_def)
qed

theorem crashing_reply_never_given_up_witness:
  "\<exists>d'. cm_deliveries (crash_cycles 6 4 (demo_chat0\<lparr>cm_deliveries := [demo_first]\<rparr>)) = [d'] \<and> cd_attempt_count d' = 6"
proof -
  let ?db = "demo_chat0\<lparr>cm_deliveries := [demo_first]\<rparr>"
  have "cm_deliveries ?db = [demo_first]" "outbound_claimable ?db 4 demo_first" "cd_attempt_count demo_first = 0"
    by (simp_all add: outbound_claimable_def earlier_def GATEWAY_PLATFORM_KEYS_def PLATFORM_TRANSPORTS_def demo_first_def demo_reply_simps
        demo_row_simps)
  then show ?thesis using crashing_reply_never_given_up [of ?db demo_first 4 6] by auto
qed

section \<open>Error codes\<close>

text \<open>The code of a failed authorization contains a word that marks credentials, so it is stored redacted.\<close>

lemma authorization_code_is_redacted:
  "safe_error_code (Some (ERROR_CODES k)) = Some (if k = AUTHORIZATION then REDACTED_ERROR_CODE else ERROR_CODES k)"
  by (cases k; hypsubst; code_simp)

text \<open>
  The message with which an expired claim is reported is not one of the safe summaries, so what is
  stored says that provider details were redacted.
\<close>

lemma expired_claim_message_is_redacted:
  "safe_error_summary (Some ''Runtime did not complete this delivery before its claim lease expired'') None = Some REDACTED_ERROR_SUMMARY"
  by code_simp

end
