(* ===== verification/Actions.thy ===== *)
theory Actions
  imports Main
begin

text \<open>
  Operations that make several transactions and calls: they take and return the whole state, a
  failure leaves what is already written, and an operation that does not return is \<open>None\<close>. The second half is a
  calculus of actions that keep an assertion about a view of the state, a part of it or all.
\<close>

named_theorems keeps_intros \<open>rules for actions that keep an assertion\<close>

section \<open>Actions\<close>

type_synonym ('w, 'e, 'a) action = "'w \<Rightarrow> ('w \<times> ('e + 'a)) option"

definition ret :: "'a \<Rightarrow> ('w, 'e, 'a) action" where
  "ret x w = Some (w, Inr x)"

definition throw :: "'e \<Rightarrow> ('w, 'e, 'a) action" where
  "throw e w = Some (w, Inl e)"

definition andthen :: "('w, 'e, 'a) action \<Rightarrow> ('a \<Rightarrow> ('w, 'e, 'b) action) \<Rightarrow> ('w, 'e, 'b) action" where
  "andthen m f w = Option.bind (m w) (\<lambda>(w1, r). case r of Inl e \<Rightarrow> Some (w1, Inl e) | Inr x \<Rightarrow> f x w1)"

text \<open>\<open>try\<close> with \<open>except\<close> clauses: those that apply to an exception, or none.\<close>

definition catch :: "('w, 'e, 'a) action \<Rightarrow> ('e \<Rightarrow> ('w, 'e, 'a) action option) \<Rightarrow> ('w, 'e, 'a) action" where
  "catch m handler w =
    Option.bind (m w) (\<lambda>(w1, r).
      case r of
        Inl e \<Rightarrow> (case handler e of None \<Rightarrow> Some (w1, Inl e) | Some h \<Rightarrow> h w1)
      | Inr x \<Rightarrow> Some (w1, Inr x))"

definition only_if :: "bool \<Rightarrow> ('w, 'e, unit) action \<Rightarrow> ('w, 'e, unit) action" where
  "only_if c m = (if c then m else ret ())"

fun each :: "'x list \<Rightarrow> ('x \<Rightarrow> ('w, 'e, unit) action) \<Rightarrow> ('w, 'e, unit) action" where
  "each [] f = ret ()"
| "each (x # xs) f = andthen (f x) (\<lambda>_. each xs f)"

text \<open>The values of the iterations that return one.\<close>

fun gather :: "'x list \<Rightarrow> ('x \<Rightarrow> ('w, 'e, 'a option) action) \<Rightarrow> ('w, 'e, 'a list) action" where
  "gather [] f = ret []"
| "gather (x # xs) f = andthen (f x) (\<lambda>y. andthen (gather xs f) (\<lambda>ys. ret (case y of None \<Rightarrow> ys | Some v \<Rightarrow> v # ys)))"

lemma andthen_Some: "andthen m f w = Some (w', r) \<longleftrightarrow>
    (\<exists>e. m w = Some (w', Inl e) \<and> r = Inl e) \<or> (\<exists>w1 x. m w = Some (w1, Inr x) \<and> f x w1 = Some (w', r))"
proof (cases "m w")
  case (Some p)
  obtain w1 x where p: "p = (w1, x)" by fastforce
  then show ?thesis using Some by (cases x) (auto simp: andthen_def)
qed (simp add: andthen_def)

lemma catch_Inr:
  "catch m handler w = Some (w', Inr x) \<Longrightarrow> m w = Some (w', Inr x) \<or> (\<exists>e h w1. handler e = Some h \<and> h w1 = Some (w', Inr x))"
  by (cases "m w") (auto simp: catch_def split: sum.splits option.splits)

lemma gather_member:
  "gather xs f w = Some (w', Inr ys) \<Longrightarrow> y \<in> set ys \<Longrightarrow> \<exists>x \<in> set xs. \<exists>w1 w2. f x w1 = Some (w2, Inr (Some y))"
proof (induction xs arbitrary: w ys)
  case (Cons x xs)
  then obtain w1 z zs where z: "f x w = Some (w1, Inr z)" "gather xs f w1 = Some (w', Inr zs)" "ys = (case z of None \<Rightarrow> zs | Some v \<Rightarrow> v # zs)"
    by (auto simp: andthen_Some ret_def)
  then show ?case using Cons by (cases z) fastforce+
qed (simp add: ret_def)

section \<open>Actions that keep an assertion\<close>

definition keeps_in :: "('w \<Rightarrow> 'v) \<Rightarrow> ('v \<Rightarrow> bool) \<Rightarrow> ('w, 'e, 'a) action \<Rightarrow> bool" where
  "keeps_in view J m \<longleftrightarrow> (\<forall>w w' r. J (view w) \<longrightarrow> m w = Some (w', r) \<longrightarrow> J (view w'))"

lemma keepsD: "keeps_in v J m \<Longrightarrow> J (v w) \<Longrightarrow> m w = Some (w', r) \<Longrightarrow> J (v w')"
  unfolding keeps_in_def by blast

lemma keepsI: "(\<And>w w' r. J (v w) \<Longrightarrow> m w = Some (w', r) \<Longrightarrow> J (v w')) \<Longrightarrow> keeps_in v J m"
  unfolding keeps_in_def by blast

lemma keeps_ret [keeps_intros]: "keeps_in v J (ret x)"
  by (simp add: keeps_in_def ret_def)

lemma keeps_throw [keeps_intros]: "keeps_in v J (throw e)"
  by (simp add: keeps_in_def throw_def)

text \<open>The most general rule: what the first action finds out may be used by the second.\<close>

lemma keeps_learning:
  assumes "keeps_in v J m"
    and "\<And>w w' x. J (v w) \<Longrightarrow> m w = Some (w', Inr x) \<Longrightarrow> P x \<and> J' x (v w')"
    and "\<And>x. P x \<Longrightarrow> keeps_in v (J' x) (f x)" and "\<And>x s. J' x s \<Longrightarrow> J s"
  shows "keeps_in v J (andthen m f)"
proof (rule keepsI)
  fix w w' r assume w: "J (v w)" and "andthen m f w = Some (w', r)"
  then consider e where "m w = Some (w', Inl e)" | w1 x where "m w = Some (w1, Inr x)" "f x w1 = Some (w', r)"
    by (auto simp: andthen_Some)
  then show "J (v w')"
  proof cases
    case 1
    then show ?thesis by (rule keepsD [OF assms(1) w])
  next
    case 2
    then show ?thesis using assms(2) [OF w] assms(4) keepsD [OF assms(3)] by metis
  qed
qed

lemma keeps_andthen [keeps_intros]: "keeps_in v J m \<Longrightarrow> (\<And>x. keeps_in v J (f x)) \<Longrightarrow> keeps_in v J (andthen m f)"
  by (rule keeps_learning [where P = "\<lambda>_. True" and J' = "\<lambda>_. J"]) (simp_all add: keepsD)

lemma keeps_catch:
  assumes "keeps_in v J m" "\<And>e h. handler e = Some h \<Longrightarrow> keeps_in v J h"
  shows "keeps_in v J (catch m handler)"
proof (rule keepsI)
  fix w w' r assume w: "J (v w)" and c: "catch m handler w = Some (w', r)"
  then obtain w1 r1 where m: "m w = Some (w1, r1)" by (cases "m w") (auto simp: catch_def)
  then have "r1 = r \<and> w1 = w' \<or> (\<exists>e h. handler e = Some h \<and> h w1 = Some (w', r))"
    using c by (cases r1) (auto simp: catch_def split: option.splits)
  moreover have "J (v w1)" by (rule keepsD [OF assms(1) w m])
  ultimately show "J (v w')" by (elim disjE exE conjE) (use keepsD [OF assms(2)] in auto)
qed

lemma keeps_only_if [keeps_intros]: "(c \<Longrightarrow> keeps_in v J m) \<Longrightarrow> keeps_in v J (only_if c m)"
  by (simp add: only_if_def keeps_ret)

lemma keeps_each [keeps_intros]: "(\<And>x. x \<in> set xs \<Longrightarrow> keeps_in v J (f x)) \<Longrightarrow> keeps_in v J (each xs f)"
  by (induction xs) (auto intro!: keeps_intros)

lemma keeps_gather [keeps_intros]: "(\<And>x. x \<in> set xs \<Longrightarrow> keeps_in v J (f x)) \<Longrightarrow> keeps_in v J (gather xs f)"
  by (induction xs) (auto intro!: keeps_intros)

lemma keeps_if: "(c \<Longrightarrow> keeps_in v J m) \<Longrightarrow> (\<not> c \<Longrightarrow> keeps_in v J m') \<Longrightarrow> keeps_in v J (if c then m else m')"
  by simp

lemma keeps_option:
  "keeps_in v J m \<Longrightarrow> (\<And>x. y = Some x \<Longrightarrow> keeps_in v J (f x)) \<Longrightarrow> keeps_in v J (case y of None \<Rightarrow> m | Some x \<Rightarrow> f x)"
  by (cases y) simp_all

lemma keeps_pair: "(\<And>a b. p = (a, b) \<Longrightarrow> keeps_in v J (f a b)) \<Longrightarrow> keeps_in v J (case p of (a, b) \<Rightarrow> f a b)"
  by (cases p) simp

text \<open>From one assertion to another, whether the action fails or not.\<close>

definition leads_in :: "('w \<Rightarrow> 'v) \<Rightarrow> ('v \<Rightarrow> bool) \<Rightarrow> ('v \<Rightarrow> bool) \<Rightarrow> ('w, 'e, 'a) action \<Rightarrow> bool" where
  "leads_in view A B m \<longleftrightarrow> (\<forall>w w' r. A (view w) \<longrightarrow> m w = Some (w', r) \<longrightarrow> B (view w'))"

lemma leadsI: "(\<And>w w' r. A (v w) \<Longrightarrow> m w = Some (w', r) \<Longrightarrow> B (v w')) \<Longrightarrow> leads_in v A B m"
  unfolding leads_in_def by blast

lemma leads_keeps: "leads_in v J J m \<longleftrightarrow> keeps_in v J m"
  by (simp add: leads_in_def keeps_in_def)

lemma leads_weaken: "keeps_in v B m \<Longrightarrow> (\<And>s. A s \<Longrightarrow> B s) \<Longrightarrow> leads_in v A B m"
  by (auto simp: leads_in_def dest: keepsD [where J = B])

lemma leads_andthen:
  assumes m: "\<And>w w' r. A (v w) \<Longrightarrow> m w = Some (w', r) \<Longrightarrow> (case r of Inl e \<Rightarrow> B (v w') | Inr x \<Rightarrow> C x (v w'))"
    and f: "\<And>x. leads_in v (C x) B (f x)"
  shows "leads_in v A B (andthen m f)"
proof (rule leadsI)
  fix w w' r assume w: "A (v w)" and "andthen m f w = Some (w', r)"
  then consider e where "m w = Some (w', Inl e)" | w1 x where "m w = Some (w1, Inr x)" "f x w1 = Some (w', r)"
    by (auto simp: andthen_Some)
  then show "B (v w')"
  proof cases
    case 1
    then show ?thesis using m [OF w] by fastforce
  next
    case 2
    then have "C x (v w1)" using m [OF w] by fastforce
    then show ?thesis using f 2(2) unfolding leads_in_def by blast
  qed
qed

text \<open>An action that keeps the stronger assertion first.\<close>

lemma leads_after: "keeps_in v A m \<Longrightarrow> (\<And>s. A s \<Longrightarrow> B s) \<Longrightarrow> (\<And>x. leads_in v A B (f x)) \<Longrightarrow> leads_in v A B (andthen m f)"
  by (rule leads_andthen [where C = "\<lambda>_. A"]) (auto dest: keepsD [where J = A] split: sum.splits)

lemmas keeps_cases = keeps_if keeps_option keeps_pair

end
