(* ===== verification/File_Sync_Rules.thy ===== *)
theory File_Sync_Rules
  imports Event_Registry "HOL-Library.Char_ord" "HOL-Library.List_Lexorder"
begin

text \<open>
  Which files of an Agent are synchronized with the drive of its Organization, in which direction,
  and under which names (\<open>api/domains/file_sync/rules.py\<close> and the naming functions of \<open>engine.py\<close>).
\<close>

section \<open>Paths\<close>

text \<open>\<open>str.split\<close> and \<open>str.rstrip\<close> with arguments, \<open>str.upper\<close> below code point 256 (except the two that leave the range).\<close>

fun split_on :: "char \<Rightarrow> string \<Rightarrow> string list" where
  "split_on c [] = [[]]"
| "split_on c (x # xs) = (if x = c then [] # split_on c xs else (case split_on c xs of w # ws \<Rightarrow> (x # w) # ws | [] \<Rightarrow> [[x]]))"

definition rstrip_set :: "string \<Rightarrow> string \<Rightarrow> string" where
  "rstrip_set cs s = rev (dropWhile (\<lambda>c. c \<in> set cs) (rev s))"

definition upper_char :: "char \<Rightarrow> string" where
  "upper_char c =
    (let n = of_char c :: nat
     in if (97 \<le> n \<and> n \<le> 122) \<or> (224 \<le> n \<and> n \<le> 254 \<and> n \<noteq> 247) then [char_of (n - 32)] else if n = 223 then ''SS'' else [c])"

definition upper :: "string \<Rightarrow> string" where
  "upper s = concat (map upper_char s)"

text \<open>Characters are evaluated by their codes as integers, which are binary.\<close>

lemma of_char_int: "(of_char c :: int) = int (of_char c)"
  by (cases c) (simp add: of_char_def)

lemma char_of_int: "(char_of (int n) :: char) = char_of n"
  by (metis char_of_nat id_apply of_nat_eq_id)

lemma lower_char_code [code]:
  "lower_char c =
    (let n = of_char c :: int
     in if (65 \<le> n \<and> n \<le> 90) \<or> (192 \<le> n \<and> n \<le> 222 \<and> n \<noteq> 215) then char_of (n + 32) else c)"
proof -
  have i: "int m + 32 = int (m + 32)" for m by simp
  show ?thesis unfolding lower_char_def Let_def of_char_int i char_of_int by simp
qed

lemma upper_char_code [code]:
  "upper_char c =
    (let n = of_char c :: int
     in if (97 \<le> n \<and> n \<le> 122) \<or> (224 \<le> n \<and> n \<le> 254 \<and> n \<noteq> 247) then [char_of (n - 32)] else if n = 223 then ''SS'' else [c])"
proof -
  have i: "char_of (int m - 32) = (char_of (m - 32) :: char)" if "97 \<le> m" for m
  proof -
    have "int m - 32 = int (m - 32)" using that by simp
    then show ?thesis by (simp only: char_of_int)
  qed
  show ?thesis unfolding upper_char_def Let_def of_char_int
    by (cases "97 \<le> (of_char c :: nat)") (simp_all add: i)
qed

definition BACKSLASH :: char where
  "BACKSLASH = CHR 0x5C"

section \<open>Rules\<close>

definition MAX_FILE_BYTES :: nat where
  "MAX_FILE_BYTES = 100 * 1024 * 1024"

definition too_large :: "nat \<Rightarrow> bool" where
  "too_large n \<longleftrightarrow> MAX_FILE_BYTES < n"

lemma too_large_code [code]: "too_large n \<longleftrightarrow> 100 * 1024 * 1024 < int n"
  by (simp add: too_large_def MAX_FILE_BYTES_def)

definition MAX_PATH_CHARS :: nat where
  "MAX_PATH_CHARS = 400"

definition NOT_SYNCED_DIR :: string where
  "NOT_SYNCED_DIR = ''_Not synced''"

definition SKIP_DIR_NAMES :: "string list" where
  "SKIP_DIR_NAMES = [''.git'', ''node_modules'', ''__pycache__'', ''venv'']"

definition FORBIDDEN_CHARACTERS :: "char list" where
  "FORBIDDEN_CHARACTERS = [CHR '':'', CHR 0x22, CHR ''*'', CHR ''<'', CHR ''>'', CHR ''?'', CHR ''|'', BACKSLASH]"

definition RESERVED_NAMES :: "string list" where
  "RESERVED_NAMES = [''CON'', ''PRN'', ''AUX'', ''NUL''] @ map (\<lambda>n. ''COM'' @ nat_str n) [0..<10] @ map (\<lambda>n. ''LPT'' @ nat_str n) [0..<10]"

definition RESERVED_PREFIX :: string where
  "RESERVED_PREFIX = ''_vti_''"

definition WORKSPACE :: string where
  "WORKSPACE = ''workspace''"

definition SKILLS :: string where
  "SKILLS = ''workspace/skills''"

datatype sync_category = SyncWORK | SyncMEMORY | SyncCONFIG | SyncSKILLS | SyncNEVER

datatype naming_problem = FORBIDDEN_CHARACTER | LEADING_SPACE | TRAILING_DOT_OR_SPACE | RESERVED_NAME | RESERVED_PREFIXED

record runtime_rules =
  rr_root :: string
  rr_config :: "string list"
  rr_memory :: "string list"

definition RUNTIME_RULES :: "(string \<times> runtime_rules) list" where
  "RUNTIME_RULES =
    [(''hermes'',
      \<lparr>rr_root = ''/opt/data'',
       rr_config = [''SOUL.md'', ''workspace/IDENTITY.md'', ''workspace/AGENTS.md'', ''workspace/AGENTS.override.md'',
         ''workspace/HERMES.md'', ''workspace/.hermes.md'', ''workspace/CLAUDE.md'', ''workspace/.cursorrules'',
         ''workspace/.cursor/rules'', ''workspace/TOOLS.md'', ''workspace/BOOT.md'', ''workspace/HEARTBEAT.md''],
       rr_memory = [''memories/USER.md'', ''memories/MEMORY.md'']\<rparr>),
     (''openclaw'',
      \<lparr>rr_root = ''/home/node/.openclaw'',
       rr_config = [''workspace/SOUL.md'', ''workspace/IDENTITY.md'', ''workspace/AGENTS.md'', ''workspace/TOOLS.md'',
         ''workspace/BOOT.md'', ''workspace/BOOTSTRAP.md'', ''workspace/HEARTBEAT.md'', ''workspace/CLAUDE.md''],
       rr_memory = [''workspace/USER.md'', ''workspace/MEMORY.md'']\<rparr>)]"

definition sync_rules :: "string \<Rightarrow> runtime_rules result" where
  "sync_rules runtime =
    (case map_of RUNTIME_RULES runtime of
       None \<Rightarrow> Inl (ValueError (''unknown runtime: '' @ runtime))
     | Some r \<Rightarrow> Inr r)"

definition control_char :: "char \<Rightarrow> bool" where
  "control_char c \<longleftrightarrow> (of_char c :: nat) < 32"

lemma control_char_code [code]: "control_char c \<longleftrightarrow> (of_char c :: int) < 32"
  by (simp add: control_char_def of_char_int)

definition segments :: "string \<Rightarrow> string list option" where
  "segments p =
    (if p = [] \<or> prefix ''/'' p \<or> BACKSLASH \<in> set p then None
     else if \<exists>c \<in> set p. control_char c \<or> of_char c = (127 :: nat) then None
     else let ss = split_on CHR ''/'' p
          in if \<exists>s \<in> set ss. s \<in> {'''', ''.'', ''..''} then None else Some ss)"

definition under :: "string \<Rightarrow> string \<Rightarrow> bool" where
  "under p e \<longleftrightarrow> p = e \<or> prefix (e @ ''/'') p"

definition classify :: "string \<Rightarrow> string \<Rightarrow> sync_category result" where
  "classify runtime p =
    bind_result (sync_rules runtime) (\<lambda>rules.
    Inr (case segments p of
        None \<Rightarrow> SyncNEVER
      | Some ss \<Rightarrow>
          if hd ss = NOT_SYNCED_DIR then SyncNEVER
          else if \<exists>s \<in> set ss. lower s \<in> set SKIP_DIR_NAMES then SyncNEVER
          else let folded = lower p
            in if \<exists>e \<in> set (rr_memory rules). folded = lower e then SyncMEMORY
               else if \<exists>e \<in> set (rr_config rules). under folded (lower e) then SyncCONFIG
               else if \<exists>s \<in> set ss. prefix ''.'' s then SyncNEVER
               else if under folded SKILLS then SyncSKILLS
               else if prefix (WORKSPACE @ ''/'') p then SyncWORK
               else SyncNEVER))"

definition segment_problem :: "string \<Rightarrow> naming_problem option" where
  "segment_problem s =
    (if \<exists>c \<in> set s. c \<in> set FORBIDDEN_CHARACTERS then Some FORBIDDEN_CHARACTER
     else if prefix '' '' s then Some LEADING_SPACE
     else if suffix ''.'' s \<or> suffix '' '' s then Some TRAILING_DOT_OR_SPACE
     else if upper (hd (split_on CHR ''.'' s)) \<in> set RESERVED_NAMES then Some RESERVED_NAME
     else if prefix RESERVED_PREFIX (lower s) then Some RESERVED_PREFIXED
     else None)"

fun first_problem :: "string list \<Rightarrow> naming_problem option" where
  "first_problem [] = None"
| "first_problem (s # ss) = (case segment_problem s of None \<Rightarrow> first_problem ss | Some p \<Rightarrow> Some p)"

definition name_problem :: "string \<Rightarrow> naming_problem option" where
  "name_problem p = first_problem (split_on CHR ''/'' p)"

definition path_too_long :: "string \<Rightarrow> string \<Rightarrow> bool" where
  "path_too_long folder p \<longleftrightarrow> MAX_PATH_CHARS < length (rstrip_set ''/'' folder @ ''/'' @ p)"

definition json_strings :: "string list \<Rightarrow> json" where
  "json_strings xs = JList (map JStr (sort xs))"

definition rules_manifest :: "string \<Rightarrow> (string \<times> json) list result" where
  "rules_manifest runtime =
    bind_result (sync_rules runtime) (\<lambda>rules.
    Inr [(''root'', JStr (rr_root rules)), (''workspace'', JStr WORKSPACE), (''skills'', JStr SKILLS),
         (''config'', json_strings (rr_config rules)), (''memory'', json_strings (rr_memory rules)),
         (''skip_dir_names'', json_strings SKIP_DIR_NAMES), (''not_synced_dir'', JStr NOT_SYNCED_DIR),
         (''max_file_bytes'', JInt (int MAX_FILE_BYTES))])"

section \<open>Names of folders\<close>

definition FOLDER_NAME_MAX :: nat where
  "FOLDER_NAME_MAX = 255"

definition FOLDER_NAME_FALLBACK :: string where
  "FOLDER_NAME_FALLBACK = ''Agent''"

definition FOLDER_FORBIDDEN_CHARACTERS :: "char list" where
  "FOLDER_FORBIDDEN_CHARACTERS = FORBIDDEN_CHARACTERS @ ''/''"

definition NAME_ATTEMPTS :: nat where
  "NAME_ATTEMPTS = 100"

definition folder_base_name :: "string \<Rightarrow> string" where
  "folder_base_name agent_name =
    (let replaced = map (\<lambda>c. if c \<in> set FOLDER_FORBIDDEN_CHARACTERS \<or> control_char c then CHR ''-'' else c) agent_name;
         name = strip_by py_space (rstrip_set ''. '' (strip_by py_space replaced))
     in if name = [] \<or> name_problem name \<noteq> None then FOLDER_NAME_FALLBACK else take FOLDER_NAME_MAX name)"

definition numbered_name :: "string \<Rightarrow> nat \<Rightarrow> string" where
  "numbered_name base n =
    (if n = 1 then take FOLDER_NAME_MAX base
     else let suffix_text = '' ('' @ nat_str n @ '')'' in take (FOLDER_NAME_MAX - length suffix_text) base @ suffix_text)"

text \<open>
  \<open>^(.*) \(([2-9]|[1-9][0-9]+)\)$\<close>: the digits of the last parenthesis. (The pattern would also
  accept a final line end, which the comparison that follows refuses.)
\<close>

definition is_digit :: "char \<Rightarrow> bool" where
  "is_digit c \<longleftrightarrow> 48 \<le> (of_char c :: nat) \<and> (of_char c :: nat) \<le> 57"

definition digits_value :: "string \<Rightarrow> nat" where
  "digits_value ds = foldl (\<lambda>n c. 10 * n + (of_char c - 48)) 0 ds"

definition match_number :: "string \<Rightarrow> nat option" where
  "match_number s =
    (let r = rev s;
         ds = rev (takeWhile is_digit (tl r));
         rest = dropWhile is_digit (tl r)
     in if prefix '')'' r \<and> prefix ''( '' rest \<and> CHR 0x0A \<notin> set (drop 2 rest) \<and> ds \<noteq> [] \<and> \<not> prefix ''0'' ds \<and> ds \<noteq> ''1''
        then Some (digits_value ds) else None)"

definition number_of :: "string \<Rightarrow> string \<Rightarrow> nat option" where
  "number_of folder_name base =
    (if folder_name = numbered_name base 1 then Some 1
     else (case match_number folder_name of
         None \<Rightarrow> None
       | Some n \<Rightarrow> if folder_name = numbered_name base n then Some n else None))"

definition free_name :: "string \<Rightarrow> string list \<Rightarrow> string option" where
  "free_name base taken =
    find (\<lambda>name. lower name \<notin> set taken) (map (numbered_name base) [1..<NAME_ATTEMPTS + 1])"

section \<open>Which files\<close>

lemma classify_cases:
  assumes "classify r p = Inr c" "c \<noteq> SyncNEVER"
  shows "\<exists>rules ss. sync_rules r = Inr rules \<and> segments p = Some ss \<and>
    c = (if \<exists>e \<in> set (rr_memory rules). lower p = lower e then SyncMEMORY
         else if \<exists>e \<in> set (rr_config rules). under (lower p) (lower e) then SyncCONFIG
         else if under (lower p) SKILLS then SyncSKILLS else SyncWORK) \<and>
    (c = SyncWORK \<longrightarrow> prefix (WORKSPACE @ ''/'') p)"
proof -
  obtain rules where "sync_rules r = Inr rules" using assms(1) by (auto simp: classify_def bind_result_Inr)
  moreover from this obtain ss where "segments p = Some ss" using assms by (auto simp: classify_def split: option.splits)
  ultimately show ?thesis using assms by (simp add: classify_def Let_def split: if_splits)
qed

text \<open>
  Locks ignore case: paths that differ only in the case of their letters and are both synchronized are
  treated alike. A file that an Agent reads as instructions or as a skill cannot be
  written from the drive under another spelling.
\<close>

theorem locks_ignore_case:
  assumes "classify r p = Inr c" "classify r q = Inr d" "lower p = lower q" "c \<noteq> SyncNEVER" "d \<noteq> SyncNEVER"
  shows "c = d"
  using classify_cases [OF assms(1,4)] classify_cases [OF assms(2,5)] assms(3) by auto

theorem locks_ignore_case_witness:
  "classify ''openclaw'' ''workspace/SOUL.md'' = Inr SyncCONFIG \<and> classify ''openclaw'' ''Workspace/soul.MD'' = Inr SyncCONFIG"
proof -
  have p: "classify ''openclaw'' ''workspace/SOUL.md'' = Inr SyncCONFIG" by code_simp
  have q: "classify ''openclaw'' ''Workspace/soul.MD'' = Inr SyncCONFIG" by code_simp
  have "lower ''workspace/SOUL.md'' = lower ''Workspace/soul.MD''" by code_simp
  from locks_ignore_case [OF p q this] show ?thesis using p q by simp
qed

text \<open>
  Nothing outside the workspace is synchronized except the listed files, and no path escapes: a
  synchronized path is relative, without empty, current or parent directories, backslashes and control
  characters.
\<close>

theorem synced_paths_stay_inside:
  assumes "classify r p = Inr c" "c \<noteq> SyncNEVER"
  shows "\<not> prefix ''/'' p \<and> set (split_on CHR ''/'' p) \<inter> {[], ''.'', ''..''} = {} \<and> (\<forall>x \<in> set p. x \<noteq> BACKSLASH \<and> \<not> control_char x) \<and>
    (prefix ''workspace/'' (lower p) \<or> (\<exists>rules. sync_rules r = Inr rules \<and>
      (\<exists>e \<in> set (rr_memory rules @ rr_config rules). under (lower p) (lower e))))"
proof -
  obtain rules ss where s: "sync_rules r = Inr rules" "segments p = Some ss"
    and c: "c = (if \<exists>e \<in> set (rr_memory rules). lower p = lower e then SyncMEMORY
         else if \<exists>e \<in> set (rr_config rules). under (lower p) (lower e) then SyncCONFIG
         else if under (lower p) SKILLS then SyncSKILLS else SyncWORK)" "c = SyncWORK \<longrightarrow> prefix (WORKSPACE @ ''/'') p"
    using classify_cases [OF assms] by blast
  have a: "\<not> prefix ''/'' p" "set (split_on CHR ''/'' p) \<inter> {[], ''.'', ''..''} = {}" "\<forall>x \<in> set p. x \<noteq> BACKSLASH \<and> \<not> control_char x"
    using s(2) by (auto simp: segments_def Let_def split: if_splits)
  have "prefix ''workspace/'' (lower p) \<or> (\<exists>e \<in> set (rr_memory rules @ rr_config rules). under (lower p) (lower e))"
  proof (cases c)
    case SyncWORK
    then obtain t where "p = ''workspace/'' @ t" using c(2) by (auto simp: WORKSPACE_def prefix_def)
    moreover have "lower ''workspace/'' = ''workspace/''" by code_simp
    ultimately show ?thesis by (metis lower_def map_append prefixI)
  next
    case SyncSKILLS
    then have "under (lower p) SKILLS" using c(1) by (auto split: if_splits)
    then have "prefix SKILLS (lower p)" using append_prefixD by (auto simp: under_def)
    moreover have "prefix ''workspace/'' SKILLS" by code_simp
    ultimately show ?thesis by (blast intro: prefix_order.trans)
  qed (use c(1) assms(2) in \<open>auto simp: under_def split: if_splits\<close>)
  with s(1) have b: "prefix ''workspace/'' (lower p) \<or> (\<exists>rules. sync_rules r = Inr rules \<and>
      (\<exists>e \<in> set (rr_memory rules @ rr_config rules). under (lower p) (lower e)))" by fast
  show ?thesis by (intro conjI a b)
qed

theorem synced_paths_stay_inside_witness:
  "set (split_on CHR ''/'' ''workspace/a.md'') \<inter> {[], ''.'', ''..''} = {}"
proof -
  have "classify ''hermes'' ''workspace/a.md'' = Inr SyncWORK" by code_simp
  from synced_paths_stay_inside [OF this] show ?thesis by blast
qed


section \<open>Which names\<close>

lemma split_on_single: "c \<notin> set s \<Longrightarrow> split_on c s = [s]"
  by (induction s) auto

lemma hd_split_on: "hd (split_on c s) = takeWhile (\<lambda>x. x \<noteq> c) s"
proof (induction s)
  case (Cons x s)
  have "split_on c s \<noteq> []" by (induction s) (auto split: list.splits)
  with Cons show ?case by (cases "split_on c s") auto
qed simp

lemma set_strip_by: "set (strip_by P s) \<subseteq> set s"
  unfolding strip_by_def by (auto dest!: set_dropWhileD)

lemma set_rstrip_set: "set (rstrip_set cs s) \<subseteq> set s"
  unfolding rstrip_set_def by (auto dest!: set_dropWhileD)

lemma length_strip_by: "length (strip_by P s) \<le> length s"
  unfolding strip_by_def by (metis length_dropWhile_le length_rev order_trans)

lemma length_rstrip_set: "length (rstrip_set cs s) \<le> length s"
  unfolding rstrip_set_def by (metis length_dropWhile_le length_rev)

text \<open>What a name is built from.\<close>

definition good_base :: "string \<Rightarrow> bool" where
  "good_base b \<longleftrightarrow> b \<noteq> [] \<and> CHR ''/'' \<notin> set b \<and> segment_problem b = None \<and> length b \<le> FOLDER_NAME_MAX"

lemma folder_base_name_good:
  assumes "length a \<le> FOLDER_NAME_MAX"
  shows "good_base (folder_base_name a)"
proof -
  define replaced where "replaced = map (\<lambda>c. if c \<in> set FOLDER_FORBIDDEN_CHARACTERS \<or> control_char c then CHR ''-'' else c) a"
  define name where "name = strip_by py_space (rstrip_set ''. '' (strip_by py_space replaced))"
  have n: "folder_base_name a = (if name = [] \<or> name_problem name \<noteq> None then FOLDER_NAME_FALLBACK else take FOLDER_NAME_MAX name)"
    by (simp add: folder_base_name_def Let_def name_def replaced_def)
  have fallback: "good_base FOLDER_NAME_FALLBACK" by code_simp
  have len: "length name \<le> FOLDER_NAME_MAX"
    using length_strip_by [of py_space "rstrip_set ''. '' (strip_by py_space replaced)"] length_rstrip_set [of "''. ''" "strip_by py_space replaced"]
      length_strip_by [of py_space replaced] assms unfolding name_def by (simp add: replaced_def)
  have "CHR ''/'' \<notin> set replaced" by (auto simp: replaced_def FOLDER_FORBIDDEN_CHARACTERS_def)
  moreover have "set name \<subseteq> set replaced"
    unfolding name_def using set_strip_by set_rstrip_set by (metis (no_types, lifting) order_trans)
  ultimately have slash: "CHR ''/'' \<notin> set name" by blast
  then have "name_problem name = segment_problem name" by (simp add: name_problem_def split_on_single split: option.splits)
  then show ?thesis using n len slash fallback by (auto simp: good_base_def)
qed


lemma nat_str_digits: "c \<in> set (nat_str n) \<Longrightarrow> is_digit c"
proof (induction n rule: nat_str.induct)
  case (1 n)
  have d: "is_digit (digit_char m)" if "m < 10" for m using that by (simp add: is_digit_def digit_char_def)
  show ?case
  proof (cases "n < 10")
    case True
    then show ?thesis using 1(2) d by (subst (asm) nat_str.simps) auto
  next
    case False
    then have "c \<in> set (nat_str (n div 10)) \<or> c = digit_char (n mod 10)" using 1(2) by (subst (asm) nat_str.simps) auto
    then show ?thesis using 1(1) False d [of "n mod 10"] by auto
  qed
qed

lemma length_nat_str_100: "n \<le> NAME_ATTEMPTS \<Longrightarrow> length (nat_str n) \<le> 3"
proof -
  assume "n \<le> NAME_ATTEMPTS"
  then have "n < 10 \<or> n div 10 < 10 \<or> n = 100" by (auto simp: NAME_ATTEMPTS_def)
  moreover have "length (nat_str 100) = 3" by code_simp
  ultimately show ?thesis by (elim disjE) (simp_all add: nat_str.simps [of n] nat_str.simps [of "n div 10"])
qed

definition number_suffix :: "nat \<Rightarrow> string" where
  "number_suffix n = '' ('' @ nat_str n @ '')''"

lemma number_suffix_chars: "c \<in> set (number_suffix n) \<Longrightarrow> c \<notin> set FORBIDDEN_CHARACTERS \<and> c \<noteq> CHR ''.'' \<and> c \<noteq> CHR ''/''"
proof -
  assume "c \<in> set (number_suffix n)"
  then have "c \<in> {CHR '' '', CHR ''('', CHR '')''} \<or> is_digit c" using nat_str_digits by (auto simp: number_suffix_def)
  then show ?thesis by (auto simp: is_digit_def FORBIDDEN_CHARACTERS_def BACKSLASH_def)
qed

lemma reserved_no_space: "r \<in> set RESERVED_NAMES \<Longrightarrow> CHR '' '' \<notin> set r"
proof -
  have "\<forall>r \<in> set RESERVED_NAMES. CHR '' '' \<notin> set r" by code_simp
  then show "r \<in> set RESERVED_NAMES \<Longrightarrow> CHR '' '' \<notin> set r" by blast
qed

lemma space_upper: "CHR '' '' \<in> set s \<Longrightarrow> CHR '' '' \<in> set (upper s)"
  by (auto simp: upper_def upper_char_def Let_def intro!: bexI [of _ "CHR '' ''"])

lemma takeWhile_take:
  assumes "\<exists>x \<in> set (take m s). \<not> P x"
  shows "takeWhile P (take m s @ t) = takeWhile P s"
proof -
  have "takeWhile P (take m s @ t) = takeWhile P (take m s)" using assms by (auto simp: takeWhile_append1)
  also have "\<dots> = takeWhile P (take m s @ drop m s)" using assms by (metis takeWhile_append1)
  finally show ?thesis by simp
qed

lemma suffixed_good:
  assumes b: "good_base b" and m: "0 < m" "m + length (number_suffix n) \<le> FOLDER_NAME_MAX"
  shows "good_base (take m b @ number_suffix n)"
proof -
  let ?u = "take m b" and ?t = "number_suffix n"
  have u: "?u \<noteq> []" "set ?u \<subseteq> set b" using b m(1) by (auto simp: good_base_def dest: in_set_takeD)
  have p: "segment_problem b = None" using b by (simp add: good_base_def)
  have space: "CHR '' '' \<in> set ?t" "hd ?t = CHR '' ''" "last ?t = CHR '')''" "?t \<noteq> []" by (simp_all add: number_suffix_def)
  have forbidden: "\<not> (\<exists>c \<in> set (?u @ ?t). c \<in> set FORBIDDEN_CHARACTERS)"
    using p u(2) number_suffix_chars by (auto simp: segment_problem_def split: if_splits)
  have first: "\<not> prefix '' '' (?u @ ?t)"
  proof -
    obtain x xs where "b = x # xs" "m = Suc (m - 1)" using u(1) m(1) by (cases b) auto
    then show ?thesis using p by (cases m) (auto simp: segment_problem_def split: if_splits)
  qed
  have ends: "\<not> suffix [c] (?u @ ?t)" if "c \<noteq> CHR '')''" for c
  proof
    assume "suffix [c] (?u @ ?t)"
    then have "last (?u @ ?t) = c" by (auto simp: suffix_def)
    then show False using space that by simp
  qed
  have reserved: "upper (hd (split_on CHR ''.'' (?u @ ?t))) \<notin> set RESERVED_NAMES"
  proof (cases "CHR ''.'' \<in> set ?u")
    case True
    then have "takeWhile (\<lambda>x. x \<noteq> CHR ''.'') (?u @ ?t) = takeWhile (\<lambda>x. x \<noteq> CHR ''.'') b" by (intro takeWhile_take) blast
    then show ?thesis using p by (simp add: hd_split_on segment_problem_def split: if_splits)
  next
    case False
    then have "takeWhile (\<lambda>x. x \<noteq> CHR ''.'') (?u @ ?t) = ?u @ ?t" using number_suffix_chars by (auto simp: takeWhile_eq_all_conv)
    moreover have "CHR '' '' \<in> set (upper (?u @ ?t))" using space(1) by (simp add: space_upper)
    ultimately have "CHR '' '' \<in> set (upper (hd (split_on CHR ''.'' (?u @ ?t))))" unfolding hd_split_on by (simp only:)
    then show ?thesis using reserved_no_space by blast
  qed
  have vti: "\<not> prefix RESERVED_PREFIX (lower (?u @ ?t))"
  proof
    assume "prefix RESERVED_PREFIX (lower (?u @ ?t))"
    then have "prefix RESERVED_PREFIX (lower ?u) \<or> (\<exists>w. RESERVED_PREFIX = lower ?u @ w \<and> prefix w (lower ?t))"
      by (simp add: lower_def prefix_append)
    then show False
    proof (elim disjE exE conjE)
      assume "prefix RESERVED_PREFIX (lower ?u)"
      then have "prefix RESERVED_PREFIX (lower b)" by (metis lower_def take_map take_is_prefix prefix_order.trans)
      then show False using p by (simp add: segment_problem_def split: if_splits)
    next
      fix w assume w: "RESERVED_PREFIX = lower ?u @ w" "prefix w (lower ?t)"
      show False
      proof (cases w)
        case Nil
        then have "prefix RESERVED_PREFIX (lower b)" using w(1) by (metis append_Nil2 lower_def take_map take_is_prefix)
        then show False using p by (simp add: segment_problem_def split: if_splits)
      next
        case (Cons c w')
        then have "c = CHR '' ''" using w(2) by (auto simp: number_suffix_def lower_def lower_char_def prefix_def)
        moreover have "CHR '' '' \<notin> set RESERVED_PREFIX" by code_simp
        ultimately show False using w(1) Cons by (metis in_set_conv_decomp)
      qed
    qed
  qed
  have "segment_problem (?u @ ?t) = None" using forbidden first ends reserved vti by (simp add: segment_problem_def)
  moreover have "CHR ''/'' \<notin> set (?u @ ?t)" using b u(2) number_suffix_chars by (auto simp: good_base_def)
  ultimately show ?thesis using u(1) m by (simp add: good_base_def)
qed

text \<open>
  Folder names are valid: whatever an Agent is called, each of the names tried for its folder
  is non-empty, at most 255 characters long, a single path segment, and one that the drive accepts.
\<close>

theorem folder_names_are_valid:
  assumes "length agent_name \<le> 255" "1 \<le> n" "n \<le> NAME_ATTEMPTS"
  shows "numbered_name (folder_base_name agent_name) n \<noteq> [] \<and> length (numbered_name (folder_base_name agent_name) n) \<le> 255 \<and>
    CHR ''/'' \<notin> set (numbered_name (folder_base_name agent_name) n) \<and> name_problem (numbered_name (folder_base_name agent_name) n) = None"
proof -
  let ?b = "folder_base_name agent_name"
  have b: "good_base ?b" using folder_base_name_good assms(1) by (simp add: FOLDER_NAME_MAX_def)
  have "good_base (numbered_name ?b n)"
  proof (cases "n = 1")
    case False
    have "length (number_suffix n) \<le> 6" using length_nat_str_100 [OF assms(3)] by (simp add: number_suffix_def)
    then show ?thesis using suffixed_good [OF b, of "FOLDER_NAME_MAX - length (number_suffix n)" n] False
      by (simp add: numbered_name_def number_suffix_def Let_def FOLDER_NAME_MAX_def)
  qed (use b in \<open>simp add: numbered_name_def good_base_def\<close>)
  then show ?thesis by (simp add: good_base_def name_problem_def split_on_single FOLDER_NAME_MAX_def)
qed

theorem folder_names_are_valid_witness:
  "name_problem (numbered_name (folder_base_name ''A/B. '') 2) = None"
  using folder_names_are_valid [of "''A/B. ''" 2] by (simp add: NAME_ATTEMPTS_def)


section \<open>Spelling\<close>

text \<open>A name is refused in every spelling of its letters or in none.\<close>

lemma of_lower_char:
  "(of_char (lower_char c) :: nat) =
    (if (65 \<le> (of_char c :: nat) \<and> (of_char c :: nat) \<le> 90) \<or> (192 \<le> (of_char c :: nat) \<and> (of_char c :: nat) \<le> 222 \<and> (of_char c :: nat) \<noteq> 215)
     then of_char c + 32 else of_char c)"
  by (simp add: lower_char_def Let_def of_char_of)

lemma char_by_code: "c = d \<longleftrightarrow> (of_char c :: nat) = of_char d"
  by simp

lemma lower_char_lower_char: "lower_char (lower_char c) = lower_char c"
  unfolding char_by_code of_lower_char by simp

lemma upper_char_lower_char: "upper_char (lower_char c) = upper_char c"
proof (cases "lower_char c = c")
  case False
  then have n: "(65 \<le> (of_char c :: nat) \<and> (of_char c :: nat) \<le> 90) \<or> (192 \<le> (of_char c :: nat) \<and> (of_char c :: nat) \<le> 222 \<and> (of_char c :: nat) \<noteq> 215)"
    by (auto simp: lower_char_def Let_def split: if_splits)
  then have l: "(of_char (lower_char c) :: nat) = of_char c + 32" by (simp add: of_lower_char)
  show ?thesis unfolding upper_char_def l Let_def using n by auto
qed simp

lemma lower_char_punctuation:
  assumes "d \<in> set FORBIDDEN_CHARACTERS \<union> {CHR '' '', CHR ''.'', CHR ''/''}"
  shows "lower_char c = d \<longleftrightarrow> c = d"
proof -
  have d: "(of_char d :: nat) < 65 \<or> (of_char d :: nat) = 92 \<or> (of_char d :: nat) = 124"
    using assms by (auto simp: FORBIDDEN_CHARACTERS_def BACKSLASH_def)
  show ?thesis unfolding char_by_code of_lower_char using d by auto
qed

lemma lower_split_on: "d \<in> set FORBIDDEN_CHARACTERS \<union> {CHR '' '', CHR ''.'', CHR ''/''} \<Longrightarrow> split_on d (lower s) = map lower (split_on d s)"
  by (induction s) (auto simp: lower_def lower_char_punctuation split: list.splits)

lemma split_on_nonempty: "split_on c s \<noteq> []"
  by (induction s) (auto split: list.splits)

lemma segment_problem_lower: "segment_problem (lower s) = segment_problem s"
proof -
  have forbidden: "(\<exists>c \<in> set (lower s). c \<in> set FORBIDDEN_CHARACTERS) \<longleftrightarrow> (\<exists>c \<in> set s. c \<in> set FORBIDDEN_CHARACTERS)"
  proof -
    have "lower_char c \<in> set FORBIDDEN_CHARACTERS \<longleftrightarrow> c \<in> set FORBIDDEN_CHARACTERS" for c
      using lower_char_punctuation [of "lower_char c" c] lower_char_punctuation [of c c] by auto
    then show ?thesis by (simp add: lower_def)
  qed
  have blank: "lower_char c = d \<longleftrightarrow> c = d" if "d \<in> {CHR '' '', CHR ''.''}" for c d
    using that lower_char_punctuation [of d c] by blast
  have first: "prefix '' '' (lower s) = prefix '' '' s"
    using blank [of "CHR '' ''"] by (cases s) (simp_all add: lower_def, metis)
  have last: "suffix [d] (lower s) = suffix [d] s" if "d \<in> {CHR '' '', CHR ''.''}" for d
    using blank [OF that] by (cases s rule: rev_cases) (simp_all add: lower_def, metis)
  have up: "upper (lower t) = upper t" for t by (induction t) (simp_all add: upper_def lower_def upper_char_lower_char)
  have reserved: "upper (hd (split_on CHR ''.'' (lower s))) = upper (hd (split_on CHR ''.'' s))"
    using lower_split_on [of "CHR ''.''" s] up split_on_nonempty by (simp add: hd_map)
  have low: "lower (lower s) = lower s" by (simp add: lower_def lower_char_lower_char)
  show ?thesis unfolding segment_problem_def forbidden first reserved low using last by simp
qed

lemma name_problem_lower: "name_problem (lower p) = name_problem p"
proof -
  have "first_problem (map lower ss) = first_problem ss" for ss
    by (induction ss) (simp_all add: segment_problem_lower split: option.split)
  then show ?thesis by (simp add: name_problem_def lower_split_on)
qed

lemma name_problem_cases: "lower p = lower q \<Longrightarrow> name_problem p = name_problem q"
  by (metis name_problem_lower)


end
