(* ===== verification/File_Sync.thy ===== *)
theory File_Sync
  imports Actions Agent_Authorization File_Sync_Rules "HOL-Library.AList" "HOL-Library.Product_Lexorder"
begin

text \<open>
  File synchronization: the tables and the repository
  (\<open>api/domains/file_sync/models.py\<close>, \<open>repository.py\<close>), the interface of a drive
  (\<open>sync_provider/plugins/base.py\<close>), the service that the pods of Agents call (\<open>service.py\<close>) and the engine that
  follows the changes people make on the drive (\<open>engine.py\<close>).

  A drive is a parameter: a record of the operations of \<open>SyncProviderPlugin\<close> on a state of an
  arbitrary type. Every repository method is a transaction of its own, so what was written stays
  written when a later step raises: an action returns the state together with its result.
\<close>

section \<open>Rows\<close>

datatype folder_status = FolderACTIVE | FolderRETIRED | FolderDISABLED

datatype pending_action = PendDOWNLOAD | PendREUPLOAD

datatype activity_kind =
    EDIT_UNDONE | RESTORED | RENAMED_BACK | MOVED_NOT_SYNCED | CONFLICT_AGENT_WON | DELETED_BY_AGENT | FOLDER_RESTORED
  | SKIPPED_TOO_LARGE | SKIPPED_NO_SPACE | SKIPPED_NAME

datatype provider_status = ProviderPENDING | ProviderACTIVE | ProviderDISCONNECTED

record sync_connection =
  sc_id :: uuid
  sc_organization_id :: uuid
  sc_provider_key :: string
  sc_status :: provider_status
  sc_account_id :: string
  sc_location_id :: "string option"
  sc_folder_id :: "string option"
  sc_connected_at :: "datetime option"
  sc_sync_cursor :: "string option"
  sc_sync_retry_at :: "datetime option"

record sync_agent_folder =
  fo_id :: uuid
  fo_organization_id :: uuid
  fo_connection_id :: uuid
  fo_agent_id :: uuid
  fo_folder_name :: string
  fo_folder_item_id :: "string option"
  fo_folder_web_url :: "string option"
  fo_folder_path :: "string option"
  fo_status :: folder_status
  fo_last_contact_at :: "datetime option"

record sync_file =
  sf_id :: uuid
  sf_folder_id :: uuid
  sf_path :: string
  sf_item_id :: "string option"
  sf_etag :: "string option"
  sf_ctag :: "string option"
  sf_remote_hash :: "string option"
  sf_local_sha256 :: string
  sf_size :: nat
  sf_synced_at :: "datetime option"
  sf_upload_started_at :: "datetime option"
  sf_pending :: "pending_action option"
  sf_pending_activity :: "activity_kind option"
  sf_lease_until :: "datetime option"
  sf_attempts :: nat
  sf_retry_at :: "datetime option"

record sync_activity =
  sa_organization_id :: uuid
  sa_agent_id :: uuid
  sa_folder_id :: "uuid option"
  sa_kind :: activity_kind
  sa_path :: "string option"
  sa_detail :: "string option"
  sa_occurred_at :: datetime

text \<open>\<open>sd_next_id\<close> is the supply of UUIDs, which grow.\<close>

record sync_db =
  sd_agents :: "agent list"
  sd_connections :: "sync_connection list"
  sd_folders :: "sync_agent_folder list"
  sd_files :: "sync_file list"
  sd_activities :: "sync_activity list"
  sd_next_id :: uuid

section \<open>The drive\<close>

record sync_root =
  root_account_id :: string
  root_location_id :: "string option"
  root_folder_id :: string
  root_folder_name :: string

record remote_item =
  ri_id :: string
  ri_name :: "string option"
  ri_parent_id :: "string option"
  ri_path :: "string option"
  ri_version :: "string option"
  ri_content_version :: "string option"
  ri_size :: nat
  ri_content_hash :: "string option"
  ri_is_folder :: bool
  ri_deleted :: bool
  ri_modified_at :: "datetime option"
  ri_modified_by_app :: bool
  ri_web_url :: "string option"

record remote_changes =
  rc_items :: "remote_item list"
  rc_cursor :: string
  rc_more :: bool

record upload_target =
  ut_url :: string
  ut_expires_at :: datetime

datatype provider_error =
    ProviderThrottled "nat option"
  | RemoteItemMissing
  | RemoteNameTaken
  | RemoteResyncRequired
  | OtherProviderError string

type_synonym ('d, 'a) remote = "'d \<Rightarrow> 'd \<times> (provider_error + 'a)"

record 'd sync_plugin =
  pl_file_sync :: bool
  pl_create_folder :: "sync_root \<Rightarrow> string \<Rightarrow> string \<Rightarrow> ('d, remote_item) remote"
  pl_get_item :: "sync_root \<Rightarrow> string \<Rightarrow> ('d, remote_item) remote"
  pl_get_item_by_path :: "sync_root \<Rightarrow> string \<Rightarrow> string \<Rightarrow> ('d, remote_item) remote"
  pl_move_item :: "sync_root \<Rightarrow> string \<Rightarrow> string option \<Rightarrow> string option \<Rightarrow> ('d, remote_item) remote"
  pl_delete_item :: "sync_root \<Rightarrow> string \<Rightarrow> ('d, unit) remote"
  pl_delete_item_with :: "string \<Rightarrow> sync_root \<Rightarrow> string \<Rightarrow> ('d, unit) remote"
  pl_list_files :: "sync_root \<Rightarrow> string \<Rightarrow> ('d, remote_item list) remote"
  pl_changes :: "sync_root \<Rightarrow> string option \<Rightarrow> bool \<Rightarrow> ('d, remote_changes) remote"
  pl_upload_target :: "sync_root \<Rightarrow> string \<Rightarrow> string \<Rightarrow> ('d, upload_target) remote"
  pl_download_url :: "sync_root \<Rightarrow> string \<Rightarrow> ('d, string) remote"
  pl_write_empty_file :: "sync_root \<Rightarrow> string \<Rightarrow> string \<Rightarrow> ('d, remote_item) remote"

section \<open>Actions on the tables and the drive\<close>

datatype sync_error =
    FromProvider provider_error
  | FromDatabase error
  | FileSyncUnauthorized
  | FileSyncNotFound string
  | FileSyncConflict string
  | FileSyncPathRefused string
  | FileSyncProviderBusy nat
  | FileSyncProviderFailed provider_error
  | FileSyncBusy
  | RecursionError

record 'd sync_world =
  sw_db :: sync_db
  sw_drive :: 'd

type_synonym ('d, 'a) act = "('d sync_world, sync_error, 'a) action"

definition query :: "(sync_db \<Rightarrow> 'a) \<Rightarrow> ('d, 'a) act" where
  "query f w = Some (w, Inr (f (sw_db w)))"

definition change :: "(sync_db \<Rightarrow> sync_db) \<Rightarrow> ('d, unit) act" where
  "change f w = Some (w\<lparr>sw_db := f (sw_db w)\<rparr>, Inr ())"

definition transact :: "(sync_db \<Rightarrow> (sync_db \<times> 'a) result) \<Rightarrow> ('d, 'a) act" where
  "transact f w =
    Some (case f (sw_db w) of Inl e \<Rightarrow> (w, Inl (FromDatabase e)) | Inr (db, x) \<Rightarrow> (w\<lparr>sw_db := db\<rparr>, Inr x))"

definition remotely :: "('d, 'a) remote \<Rightarrow> ('d, 'a) act" where
  "remotely m w =
    Some (case m (sw_drive w) of
       (d, Inl e) \<Rightarrow> (w\<lparr>sw_drive := d\<rparr>, Inl (FromProvider e))
     | (d, Inr x) \<Rightarrow> (w\<lparr>sw_drive := d\<rparr>, Inr x))"

definition lift :: "'a result \<Rightarrow> ('d, 'a) act" where
  "lift r = (case r of Inl e \<Rightarrow> throw (FromDatabase e) | Inr x \<Rightarrow> ret x)"

definition on_missing :: "('d, 'a) act \<Rightarrow> sync_error \<Rightarrow> ('d, 'a) act option" where
  "on_missing h e = (if e = FromProvider RemoteItemMissing then Some h else None)"

definition on_taken :: "('d, 'a) act \<Rightarrow> sync_error \<Rightarrow> ('d, 'a) act option" where
  "on_taken h e = (if e = FromProvider RemoteNameTaken then Some h else None)"

definition on_missing_or_taken :: "('d, 'a) act \<Rightarrow> sync_error \<Rightarrow> ('d, 'a) act option" where
  "on_missing_or_taken h e = (if e \<in> {FromProvider RemoteItemMissing, FromProvider RemoteNameTaken} then Some h else None)"

section \<open>Repository\<close>

definition due_connections :: "datetime \<Rightarrow> sync_db \<Rightarrow> sync_connection list" where
  "due_connections now db =
    sort_key (\<lambda>c. ((case sc_connected_at c of Some t \<Rightarrow> (0 :: nat, t) | None \<Rightarrow> (1, 0)), sc_id c))
      (row_where (\<lambda>c. sc_status c = ProviderACTIVE \<and> sc_folder_id c \<noteq> None \<and>
        (case sc_sync_retry_at c of None \<Rightarrow> True | Some t \<Rightarrow> t \<le> now)) (sd_connections db))"

definition update_connection :: "uuid \<Rightarrow> (sync_connection \<Rightarrow> sync_connection) \<Rightarrow> sync_db \<Rightarrow> sync_db" where
  "update_connection i g db = db\<lparr>sd_connections := map (\<lambda>c. if sc_id c = i then g c else c) (sd_connections db)\<rparr>"

definition postpone :: "uuid \<Rightarrow> datetime \<Rightarrow> sync_db \<Rightarrow> sync_db" where
  "postpone i until = update_connection i (\<lambda>c. c\<lparr>sc_sync_retry_at := Some until\<rparr>)"

definition save_cursor :: "uuid \<Rightarrow> string option \<Rightarrow> sync_db \<Rightarrow> sync_db" where
  "save_cursor i cursor = update_connection i (\<lambda>c. c\<lparr>sc_sync_cursor := cursor\<rparr>)"

definition agent_sync_target :: "uuid \<Rightarrow> uuid \<Rightarrow> sync_db \<Rightarrow> sync_connection option \<times> sync_agent_folder option" where
  "agent_sync_target org aid db =
    (case find (\<lambda>c. sc_organization_id c = org \<and> sc_status c = ProviderACTIVE) (sd_connections db) of
       None \<Rightarrow> (None, None)
     | Some c \<Rightarrow> (Some c, find (\<lambda>f. fo_connection_id f = sc_id c \<and> fo_agent_id f = aid) (sd_folders db)))"

text \<open>Folders, with the two unique indexes of the table.\<close>

definition folders_unique :: "sync_agent_folder list \<Rightarrow> bool" where
  "folders_unique fs \<longleftrightarrow>
    distinct (map (\<lambda>f. (fo_connection_id f, fo_agent_id f)) fs) \<and> distinct (map (\<lambda>f. (fo_connection_id f, lower (fo_folder_name f))) fs)"

definition update_folders :: "(sync_agent_folder \<Rightarrow> bool) \<Rightarrow> (sync_agent_folder \<Rightarrow> sync_agent_folder) \<Rightarrow> sync_db \<Rightarrow> sync_db" where
  "update_folders P g db = db\<lparr>sd_folders := map (\<lambda>f. if P f then g f else f) (sd_folders db)\<rparr>"

definition touch_folder :: "uuid \<Rightarrow> datetime \<Rightarrow> sync_db \<Rightarrow> sync_db" where
  "touch_folder i now = update_folders (\<lambda>f. fo_id f = i) (\<lambda>f. f\<lparr>fo_last_contact_at := Some now\<rparr>)"

definition forget_folder_item :: "uuid \<Rightarrow> sync_db \<Rightarrow> sync_db" where
  "forget_folder_item i =
    update_folders (\<lambda>f. fo_id f = i) (\<lambda>f. f\<lparr>fo_folder_item_id := None, fo_folder_web_url := None, fo_folder_path := None\<rparr>)"

definition record_folder :: "uuid \<Rightarrow> string \<Rightarrow> string option \<Rightarrow> string option \<Rightarrow> sync_db \<Rightarrow> sync_db" where
  "record_folder i item web_url path =
    update_folders (\<lambda>f. fo_id f = i)
      (\<lambda>f. f\<lparr>fo_folder_item_id := Some item, fo_folder_web_url := web_url, fo_folder_path := path\<rparr>)"

definition retire_folders :: "uuid list \<Rightarrow> sync_db \<Rightarrow> sync_db" where
  "retire_folders is = update_folders (\<lambda>f. fo_id f \<in> set is) (\<lambda>f. f\<lparr>fo_status := FolderRETIRED\<rparr>)"

definition new_sync_folder :: "uuid \<Rightarrow> sync_connection \<Rightarrow> uuid \<Rightarrow> string \<Rightarrow> sync_agent_folder" where
  "new_sync_folder i c aid name =
    \<lparr>fo_id = i, fo_organization_id = sc_organization_id c, fo_connection_id = sc_id c, fo_agent_id = aid, fo_folder_name = name,
     fo_folder_item_id = None, fo_folder_web_url = None, fo_folder_path = None, fo_status = FolderACTIVE, fo_last_contact_at = None\<rparr>"

definition reserve_folder :: "sync_connection \<Rightarrow> uuid \<Rightarrow> string \<Rightarrow> sync_db \<Rightarrow> (sync_db \<times> sync_agent_folder option) result" where
  "reserve_folder c aid name db =
    (let f = new_sync_folder (sd_next_id db) c aid name; fs = row_add f (sd_folders db)
     in if folders_unique fs then Inr (db\<lparr>sd_folders := fs, sd_next_id := sd_next_id db + 1\<rparr>, Some f) else Inr (db, None))"

definition rename_folder :: "uuid \<Rightarrow> string \<Rightarrow> sync_db \<Rightarrow> (sync_db \<times> bool) result" where
  "rename_folder i name db =
    (let db1 = update_folders (\<lambda>f. fo_id f = i) (\<lambda>f. f\<lparr>fo_folder_name := name\<rparr>) db
     in if folders_unique (sd_folders db1) then Inr (db1, True) else Inr (db, False))"

text \<open>The files of a folder go with it, and activities lose the reference.\<close>

definition remove_folder :: "uuid \<Rightarrow> sync_db \<Rightarrow> sync_db" where
  "remove_folder i db =
    db\<lparr>sd_folders := filter (\<lambda>f. fo_id f \<noteq> i) (sd_folders db), sd_files := filter (\<lambda>f. sf_folder_id f \<noteq> i) (sd_files db),
       sd_activities := map (\<lambda>a. if sa_folder_id a = Some i then a\<lparr>sa_folder_id := None\<rparr> else a) (sd_activities db)\<rparr>"

definition folders_of :: "uuid \<Rightarrow> sync_db \<Rightarrow> sync_agent_folder list" where
  "folders_of cid db = row_where (\<lambda>f. fo_connection_id f = cid) (sd_folders db)"

fun with_runtimes :: "agent list \<Rightarrow> sync_agent_folder list \<Rightarrow> (sync_agent_folder \<times> string) list result" where
  "with_runtimes ags [] = Inr []"
| "with_runtimes ags (f # fs) =
    (case row_get agent_id (fo_agent_id f) ags of
       None \<Rightarrow> with_runtimes ags fs
     | Some a \<Rightarrow> bind_result (agent_runtime a) (\<lambda>r. bind_result (with_runtimes ags fs) (\<lambda>rest. Inr ((f, r) # rest))))"

definition folders_with_runtime :: "uuid \<Rightarrow> sync_db \<Rightarrow> (sync_agent_folder \<times> string) list result" where
  "folders_with_runtime cid db = with_runtimes (sd_agents db) (folders_of cid db)"

definition live_agent_names :: "uuid \<Rightarrow> sync_db \<Rightarrow> (uuid \<times> string) list" where
  "live_agent_names org db =
    map (\<lambda>a. (agent_id a, agent_name a)) (row_where (\<lambda>a. agent_organization_id a = org \<and> agent_deleted_at a = None) (sd_agents db))"

text \<open>Files, with the two unique indexes of the table.\<close>

definition files_unique :: "sync_file list \<Rightarrow> bool" where
  "files_unique fs \<longleftrightarrow>
    distinct (map (\<lambda>f. (sf_folder_id f, lower (sf_path f))) fs) \<and>
    distinct (map (\<lambda>f. (sf_folder_id f, sf_item_id f)) (filter (\<lambda>f. sf_item_id f \<noteq> None) fs))"

definition write_files :: "sync_file list \<Rightarrow> sync_db \<Rightarrow> (sync_db \<times> unit) result" where
  "write_files fs db =
    bind_result (raise_if (\<not> files_unique fs) (IntegrityError ''sync_file'')) (\<lambda>_. Inr (db\<lparr>sd_files := fs\<rparr>, ()))"

definition update_files :: "(sync_file \<Rightarrow> bool) \<Rightarrow> (sync_file \<Rightarrow> sync_file) \<Rightarrow> sync_db \<Rightarrow> (sync_db \<times> unit) result" where
  "update_files P g db = write_files (map (\<lambda>f. if P f then g f else f) (sd_files db)) db"

definition update_file :: "uuid \<Rightarrow> (sync_file \<Rightarrow> sync_file) \<Rightarrow> sync_db \<Rightarrow> (sync_db \<times> unit) result" where
  "update_file i = update_files (\<lambda>f. sf_id f = i)"

definition files_of :: "uuid \<Rightarrow> sync_db \<Rightarrow> sync_file list" where
  "files_of fid db = row_where (\<lambda>f. sf_folder_id f = fid) (sd_files db)"

definition file_at :: "uuid \<Rightarrow> string \<Rightarrow> sync_db \<Rightarrow> sync_file option" where
  "file_at fid path db = find (\<lambda>f. sf_folder_id f = fid \<and> lower (sf_path f) = lower path) (sd_files db)"

definition new_sync_file :: "uuid \<Rightarrow> uuid \<Rightarrow> string \<Rightarrow> string \<Rightarrow> nat \<Rightarrow> sync_file" where
  "new_sync_file i fid path sha size_bytes =
    \<lparr>sf_id = i, sf_folder_id = fid, sf_path = path, sf_item_id = None, sf_etag = None, sf_ctag = None, sf_remote_hash = None,
     sf_local_sha256 = sha, sf_size = size_bytes, sf_synced_at = None, sf_upload_started_at = None, sf_pending = None,
     sf_pending_activity = None, sf_lease_until = None, sf_attempts = 0, sf_retry_at = None\<rparr>"

text \<open>\<open>row = session.exec(...).first() or SyncFile(...)\<close>, modified and saved.\<close>

definition upsert_file :: "uuid \<Rightarrow> string \<Rightarrow> string \<Rightarrow> nat \<Rightarrow> (sync_file \<Rightarrow> sync_file) \<Rightarrow> sync_db \<Rightarrow> (sync_db \<times> unit) result" where
  "upsert_file fid path sha size_bytes g db =
    (case file_at fid path db of
       Some row \<Rightarrow> update_file (sf_id row) (\<lambda>_. g row) db
     | None \<Rightarrow> write_files (row_add (g (new_sync_file (sd_next_id db) fid path sha size_bytes)) (sd_files db))
         (db\<lparr>sd_next_id := sd_next_id db + 1\<rparr>))"

definition start_upload :: "uuid \<Rightarrow> string \<Rightarrow> string \<Rightarrow> nat \<Rightarrow> datetime \<Rightarrow> sync_db \<Rightarrow> (sync_db \<times> unit) result" where
  "start_upload fid path sha size_bytes now =
    upsert_file fid path sha size_bytes (\<lambda>f. f\<lparr>sf_local_sha256 := sha, sf_size := size_bytes, sf_upload_started_at := Some now\<rparr>)"

definition record_synced ::
  "uuid \<Rightarrow> string \<Rightarrow> remote_item \<Rightarrow> string \<Rightarrow> nat \<Rightarrow> datetime \<Rightarrow> sync_db \<Rightarrow> (sync_db \<times> unit) result" where
  "record_synced fid path item sha size_bytes now =
    upsert_file fid path sha size_bytes (\<lambda>f. f
      \<lparr>sf_item_id := Some (ri_id item), sf_etag := ri_version item, sf_ctag := ri_content_version item,
       sf_remote_hash := ri_content_hash item, sf_local_sha256 := sha, sf_size := size_bytes, sf_synced_at := Some now,
       sf_upload_started_at := None, sf_pending := None, sf_pending_activity := None, sf_lease_until := None,
       sf_attempts := 0, sf_retry_at := None\<rparr>)"

definition claimable_file :: "uuid \<Rightarrow> datetime \<Rightarrow> sync_file \<Rightarrow> bool" where
  "claimable_file fid now f \<longleftrightarrow> sf_folder_id f = fid \<and> sf_pending f \<noteq> None \<and>
    (case sf_lease_until f of None \<Rightarrow> True | Some t \<Rightarrow> t < now) \<and> (case sf_retry_at f of None \<Rightarrow> True | Some t \<Rightarrow> t \<le> now)"

definition claimed_file :: "datetime \<Rightarrow> sync_file \<Rightarrow> sync_file" where
  "claimed_file until f = f\<lparr>sf_lease_until := Some until, sf_attempts := sf_attempts f + 1\<rparr>"

definition claim_files :: "uuid \<Rightarrow> datetime \<Rightarrow> datetime \<Rightarrow> sync_db \<Rightarrow> (sync_db \<times> sync_file list) result" where
  "claim_files fid now until db =
    bind_result (update_files (claimable_file fid now) (claimed_file until) db) (\<lambda>(db1, _).
    Inr (db1, map (claimed_file until) (sort_key sf_path (row_where (claimable_file fid now) (sd_files db)))))"

definition file_with_folder :: "sync_db \<Rightarrow> uuid \<Rightarrow> sync_file \<Rightarrow> (sync_file \<times> sync_agent_folder) option" where
  "file_with_folder db cid f =
    (case row_get fo_id (sf_folder_id f) (sd_folders db) of
       Some fo \<Rightarrow> if fo_connection_id fo = cid then Some (f, fo) else None
     | None \<Rightarrow> None)"

definition file_by_item_in_connection :: "uuid \<Rightarrow> string \<Rightarrow> sync_db \<Rightarrow> (sync_file \<times> sync_agent_folder) option" where
  "file_by_item_in_connection cid item db =
    (case List.map_filter (file_with_folder db cid) (row_where (\<lambda>f. sf_item_id f = Some item) (sd_files db)) of
       [] \<Rightarrow> None
     | r # _ \<Rightarrow> Some r)"

definition synced_files_in_connection :: "uuid \<Rightarrow> sync_db \<Rightarrow> (sync_file \<times> sync_agent_folder) list" where
  "synced_files_in_connection cid db =
    List.map_filter (file_with_folder db cid) (row_where (\<lambda>f. sf_item_id f \<noteq> None) (sd_files db))"

definition restore_values :: "sync_file \<Rightarrow> sync_file" where
  "restore_values f = f
    \<lparr>sf_pending := Some PendREUPLOAD, sf_item_id := None, sf_etag := None, sf_ctag := None, sf_remote_hash := None,
     sf_synced_at := None, sf_upload_started_at := None, sf_lease_until := None, sf_attempts := 0, sf_retry_at := None\<rparr>"

definition restore_from_agent :: "uuid \<Rightarrow> sync_db \<Rightarrow> (sync_db \<times> unit) result" where
  "restore_from_agent i = update_file i (\<lambda>f. (restore_values f)\<lparr>sf_pending_activity := Some RESTORED\<rparr>)"

definition restore_folder_files :: "uuid \<Rightarrow> sync_db \<Rightarrow> (sync_db \<times> unit) result" where
  "restore_folder_files fid = update_files (\<lambda>f. sf_folder_id f = fid) restore_values"

definition adopt_item :: "uuid \<Rightarrow> string \<Rightarrow> sync_db \<Rightarrow> (sync_db \<times> unit) result" where
  "adopt_item i item = update_file i (\<lambda>f. f
    \<lparr>sf_item_id := Some item, sf_pending := None, sf_pending_activity := None, sf_lease_until := None, sf_attempts := 0, sf_retry_at := None\<rparr>)"

definition mark_remote_change ::
  "uuid \<Rightarrow> pending_action \<Rightarrow> datetime \<Rightarrow> activity_kind option \<Rightarrow> sync_db \<Rightarrow> (sync_db \<times> unit) result" where
  "mark_remote_change i action retry_at note =
    update_files (\<lambda>f. sf_id f = i \<and> (sf_pending f = None \<or> sf_pending f = Some action))
      (\<lambda>f. f\<lparr>sf_pending := Some action, sf_retry_at := Some retry_at,
              sf_pending_activity := (case note of None \<Rightarrow> sf_pending_activity f | Some n \<Rightarrow> Some n)\<rparr>)"

definition clear_pending :: "uuid \<Rightarrow> sync_db \<Rightarrow> (sync_db \<times> unit) result" where
  "clear_pending i = update_file i (\<lambda>f. f
    \<lparr>sf_pending := None, sf_pending_activity := None, sf_lease_until := None, sf_attempts := 0, sf_retry_at := None\<rparr>)"

definition release_file :: "uuid \<Rightarrow> datetime option \<Rightarrow> sync_db \<Rightarrow> (sync_db \<times> unit) result" where
  "release_file i retry_at = update_file i (\<lambda>f. f\<lparr>sf_lease_until := None, sf_retry_at := retry_at\<rparr>)"

definition requeue_download :: "uuid \<Rightarrow> sync_db \<Rightarrow> (sync_db \<times> unit) result" where
  "requeue_download i = update_file i (\<lambda>f. f\<lparr>sf_pending := Some PendDOWNLOAD, sf_lease_until := None, sf_retry_at := None\<rparr>)"

definition remove_file :: "uuid \<Rightarrow> sync_db \<Rightarrow> sync_db" where
  "remove_file i db = db\<lparr>sd_files := filter (\<lambda>f. sf_id f \<noteq> i) (sd_files db)\<rparr>"

definition activity_of :: "sync_agent_folder \<Rightarrow> activity_kind \<Rightarrow> string option \<Rightarrow> string option \<Rightarrow> datetime \<Rightarrow> sync_activity" where
  "activity_of fo kind path detail now =
    \<lparr>sa_organization_id = fo_organization_id fo, sa_agent_id = fo_agent_id fo, sa_folder_id = Some (fo_id fo), sa_kind = kind,
     sa_path = path, sa_detail = detail, sa_occurred_at = now\<rparr>"

definition record_activity :: "sync_agent_folder \<Rightarrow> activity_kind \<Rightarrow> string option \<Rightarrow> datetime \<Rightarrow> sync_db \<Rightarrow> sync_db" where
  "record_activity fo kind path now db = db\<lparr>sd_activities := row_add (activity_of fo kind path None now) (sd_activities db)\<rparr>"

definition record_activity_once ::
  "sync_agent_folder \<Rightarrow> activity_kind \<Rightarrow> string \<Rightarrow> string \<Rightarrow> datetime \<Rightarrow> sync_db \<Rightarrow> sync_db" where
  "record_activity_once fo kind path detail now db =
    (if \<exists>a \<in> set (sd_activities db). sa_folder_id a = Some (fo_id fo) \<and> sa_kind a = kind \<and> sa_path a = Some path \<and> sa_detail a = Some detail
     then db
     else db\<lparr>sd_activities := row_add (activity_of fo kind (Some path) (Some detail) now) (sd_activities db)\<rparr>)"


end
