(* ===== verification/File_Sync_Service.thy ===== *)
theory File_Sync_Service
  imports File_Sync
begin

text \<open>
  The pod's side of file synchronization (\<open>api/domains/file_sync/service.py\<close>): the pod of an Agent reports
  the files it has, uploads what changed, and asks for the work that only it can do. All calls of
  one request use one reading of the clock.
\<close>

section \<open>Whom a call is for\<close>

text \<open>
  What is not in the repository or only configured: the registered drives, the decrypted key an Agent's pod
  was given (\<open>None\<close> without one), Unicode normalization, and the decoded path of a URL (Unicode as well).
\<close>

record 'd sync_env =
  se_plugins :: "string \<Rightarrow> 'd sync_plugin option"
  se_pod_key :: "agent \<Rightarrow> string option"
  se_nfc :: "string \<Rightarrow> string"
  se_server_path :: "string \<Rightarrow> string"

record 'd file_sync_target =
  ft_agent :: agent
  ft_connection :: sync_connection
  ft_folder :: sync_agent_folder
  ft_plugin :: "'d sync_plugin"
  ft_root :: sync_root
  ft_folder_item_id :: string

definition UPLOAD_REISSUE_AFTER :: int where
  "UPLOAD_REISSUE_AFTER = seconds (14 * 60)"

definition UPLOAD_CLOCK_SKEW :: int where
  "UPLOAD_CLOCK_SKEW = seconds (2 * 60)"

definition THROTTLE_FALLBACK_SECONDS :: nat where
  "THROTTLE_FALLBACK_SECONDS = 60"

definition OPERATION_LEASE :: int where
  "OPERATION_LEASE = seconds (3 * 60)"

definition NO_SPACE_RETRY :: int where
  "NO_SPACE_RETRY = seconds (5 * 60)"

definition FAILED_RETRY_BASE_SECONDS :: nat where
  "FAILED_RETRY_BASE_SECONDS = 60"

definition FAILED_RETRY_MAX_SECONDS :: nat where
  "FAILED_RETRY_MAX_SECONDS = 1800"

definition SYNC_FOLDER_NAME :: string where
  "SYNC_FOLDER_NAME = ''Agent Barn''"

definition sync_root_of :: "sync_connection \<Rightarrow> sync_root option" where
  "sync_root_of c =
    (case sc_folder_id c of
       None \<Rightarrow> None
     | Some folder \<Rightarrow> Some \<lparr>root_account_id = sc_account_id c, root_location_id = sc_location_id c, root_folder_id = folder,
         root_folder_name = SYNC_FOLDER_NAME\<rparr>)"

definition require_plugin :: "'d sync_env \<Rightarrow> string \<Rightarrow> ('d, 'd sync_plugin) act" where
  "require_plugin env key = (case se_plugins env key of None \<Rightarrow> throw (FromDatabase KeyError) | Some pl \<Rightarrow> ret pl)"

definition authenticate :: "'d sync_env \<Rightarrow> uuid \<Rightarrow> string \<Rightarrow> ('d, agent) act" where
  "authenticate env aid key =
    andthen (query (\<lambda>db. row_get agent_id aid (sd_agents db))) (\<lambda>found.
    case found of
      None \<Rightarrow> throw FileSyncUnauthorized
    | Some a \<Rightarrow>
        (case se_pod_key env a of
           None \<Rightarrow> throw FileSyncUnauthorized
         | Some stored \<Rightarrow>
             if key = [] \<or> stored \<noteq> key then throw FileSyncUnauthorized
             else if agent_deleted_at a \<noteq> None then throw (FileSyncNotFound ''Agent not found'')
             else ret a))"

definition sync_target :: "'d sync_env \<Rightarrow> datetime \<Rightarrow> uuid \<Rightarrow> string \<Rightarrow> ('d, 'd file_sync_target) act" where
  "sync_target env now aid key =
    andthen (authenticate env aid key) (\<lambda>a.
    andthen (query (agent_sync_target (agent_organization_id a) (agent_id a))) (\<lambda>(connection, folder).
    case connection of
      None \<Rightarrow> throw (FileSyncConflict ''The Organization has no active sync connection'')
    | Some c \<Rightarrow>
        andthen (require_plugin env (sc_provider_key c)) (\<lambda>pl.
        case (if pl_file_sync pl then sync_root_of c else None) of
          None \<Rightarrow> throw (FileSyncConflict ''The connected provider does not sync Agent files'')
        | Some root \<Rightarrow>
            (case folder of
               None \<Rightarrow> throw (FileSyncConflict ''File sync is not ready for this Agent yet'')
             | Some fo \<Rightarrow>
                 if fo_status fo \<noteq> FolderACTIVE then throw (FileSyncConflict ''File sync is turned off for this Agent'')
                 else (case fo_folder_item_id fo of
                     None \<Rightarrow> throw (FileSyncConflict ''The Agent's folder is still being created'')
                   | Some item \<Rightarrow>
                       andthen (change (touch_folder (fo_id fo) now)) (\<lambda>_.
                       ret \<lparr>ft_agent = a, ft_connection = c, ft_folder = fo, ft_plugin = pl, ft_root = root,
                            ft_folder_item_id = item\<rparr>))))))"

definition require_allowed :: "'d sync_env \<Rightarrow> 'd file_sync_target \<Rightarrow> string \<Rightarrow> ('d, unit) act" where
  "require_allowed env target path =
    andthen (lift (agent_runtime (ft_agent target))) (\<lambda>runtime.
    andthen (lift (classify runtime path)) (\<lambda>category.
    if se_nfc env path \<noteq> path \<or> category = SyncNEVER then throw (FileSyncPathRefused (''Path not synced: '' @ path)) else ret ()))"

text \<open>The \<open>except\<close> clauses around a single call of the drive.\<close>

definition busy_after :: "nat option \<Rightarrow> sync_error" where
  "busy_after wait = FileSyncProviderBusy (case wait of None \<Rightarrow> THROTTLE_FALLBACK_SECONDS | Some n \<Rightarrow> if n = 0 then THROTTLE_FALLBACK_SECONDS else n)"

definition provider_clauses :: "sync_error \<Rightarrow> ('d, 'a) act option" where
  "provider_clauses e =
    (case e of
       FromProvider (ProviderThrottled wait) \<Rightarrow> Some (throw (busy_after wait))
     | FromProvider p \<Rightarrow> Some (throw (FileSyncProviderFailed p))
     | _ \<Rightarrow> None)"

section \<open>What the pod has\<close>

record sync_entry =
  en_path :: string
  en_size :: nat
  en_sha256 :: string

record upload_read =
  ur_path :: string
  ur_url :: string
  ur_expires_at :: datetime

text \<open>A failure at the drive skips the file for this round; throttling ends the request.\<close>

definition per_file :: "('d, 'a option) act \<Rightarrow> ('d, 'a option) act" where
  "per_file m = catch m (\<lambda>e.
    case e of
      FromProvider (ProviderThrottled wait) \<Rightarrow> Some (throw (busy_after wait))
    | FromProvider p \<Rightarrow> Some (ret None)
    | _ \<Rightarrow> None)"

definition skip_kind :: "'d file_sync_target \<Rightarrow> sync_entry \<Rightarrow> string list \<Rightarrow> activity_kind option" where
  "skip_kind target e seen =
    (if too_large (en_size e) then Some SKIPPED_TOO_LARGE
     else if lower (en_path e) \<in> set seen \<or> name_problem (en_path e) \<noteq> None \<or>
       path_too_long (case fo_folder_path (ft_folder target) of None \<Rightarrow> [] | Some p \<Rightarrow> p) (en_path e)
     then Some SKIPPED_NAME
     else None)"

definition skipped :: "'d file_sync_target \<Rightarrow> sync_entry \<Rightarrow> string list \<Rightarrow> datetime \<Rightarrow> ('d, bool) act" where
  "skipped target e seen now =
    (case skip_kind target e seen of
       None \<Rightarrow> ret False
     | Some kind \<Rightarrow>
         andthen (change (record_activity_once (ft_folder target) kind (en_path e) (en_sha256 e) now)) (\<lambda>_. ret True))"

definition up_to_date :: "sync_entry \<Rightarrow> sync_file \<Rightarrow> datetime \<Rightarrow> bool" where
  "up_to_date e row now \<longleftrightarrow> sf_local_sha256 row = en_sha256 e \<and>
    ((sf_upload_started_at row = None \<and> sf_synced_at row \<noteq> None) \<or>
     (case sf_upload_started_at row of None \<Rightarrow> False | Some t \<Rightarrow> now - t < UPLOAD_REISSUE_AFTER))"

definition conflict_won :: "'d file_sync_target \<Rightarrow> sync_file option \<Rightarrow> datetime \<Rightarrow> ('d, unit) act" where
  "conflict_won target known now =
    (case known of
       None \<Rightarrow> ret ()
     | Some row \<Rightarrow> only_if (sf_pending row = Some PendDOWNLOAD)
         (andthen (transact (clear_pending (sf_id row))) (\<lambda>_.
          change (record_activity (ft_folder target) CONFLICT_AGENT_WON (Some (sf_path row)) now))))"

definition sync_one_entry :: "'d file_sync_target \<Rightarrow> sync_entry \<Rightarrow> sync_file option \<Rightarrow> datetime \<Rightarrow> ('d, upload_read option) act" where
  "sync_one_entry target e known now =
    (if (case known of None \<Rightarrow> False | Some row \<Rightarrow> up_to_date e row now) then ret None
     else andthen (conflict_won target known now) (\<lambda>_.
       if en_size e = 0 then
         andthen (remotely (pl_write_empty_file (ft_plugin target) (ft_root target) (ft_folder_item_id target) (en_path e))) (\<lambda>item.
         andthen (transact (record_synced (fo_id (ft_folder target)) (en_path e) item (en_sha256 e) 0 now)) (\<lambda>_. ret None))
       else
         andthen (remotely (pl_upload_target (ft_plugin target) (ft_root target) (ft_folder_item_id target) (en_path e))) (\<lambda>upload.
         andthen (transact (start_upload (fo_id (ft_folder target)) (en_path e) (en_sha256 e) (en_size e) now)) (\<lambda>_.
         ret (Some \<lparr>ur_path = en_path e, ur_url = ut_url upload, ur_expires_at = ut_expires_at upload\<rparr>)))))"

text \<open>The dictionary of the rows by lower-case path, the loop over the entries with the set of paths seen, and the deletions.\<close>

definition dict_of :: "('k \<times> 'v) list \<Rightarrow> ('k \<times> 'v) list" where
  "dict_of kvs = foldl (\<lambda>d (k, v). AList.update k v d) [] kvs"

definition known_files :: "sync_file list \<Rightarrow> (string \<times> sync_file) list" where
  "known_files fs = dict_of (map (\<lambda>f. (lower (sf_path f), f)) fs)"

fun sync_entries ::
  "'d file_sync_target \<Rightarrow> (string \<times> sync_file) list \<Rightarrow> datetime \<Rightarrow> sync_entry list \<Rightarrow> string list \<Rightarrow> ('d, upload_read list) act" where
  "sync_entries target known now [] seen = ret []"
| "sync_entries target known now (e # es) seen =
    andthen (skipped target e seen now) (\<lambda>skip.
    andthen (if skip then ret None else per_file (sync_one_entry target e (map_of known (lower (en_path e))) now)) (\<lambda>upload.
    andthen (sync_entries target known now es (lower (en_path e) # seen)) (\<lambda>uploads.
    ret (case upload of None \<Rightarrow> uploads | Some u \<Rightarrow> u # uploads))))"

definition delete_missing :: "'d file_sync_target \<Rightarrow> sync_file \<Rightarrow> datetime \<Rightarrow> ('d, unit option) act" where
  "delete_missing target row now =
    andthen (case sf_item_id row of
        None \<Rightarrow> ret ()
      | Some item \<Rightarrow>
          andthen (remotely (pl_delete_item (ft_plugin target) (ft_root target) item)) (\<lambda>_.
          change (record_activity (ft_folder target) DELETED_BY_AGENT (Some (sf_path row)) now))) (\<lambda>_.
    andthen (change (remove_file (sf_id row))) (\<lambda>_. ret None))"

definition report_changes ::
  "'d sync_env \<Rightarrow> datetime \<Rightarrow> uuid \<Rightarrow> string \<Rightarrow> bool \<Rightarrow> sync_entry list \<Rightarrow> ('d, upload_read list) act" where
  "report_changes env now aid key complete entries =
    andthen (sync_target env now aid key) (\<lambda>target.
    andthen (each entries (\<lambda>e. require_allowed env target (en_path e))) (\<lambda>_.
    andthen (query (files_of (fo_id (ft_folder target)))) (\<lambda>rows.
    let known = known_files rows; seen = map (\<lambda>e. lower (en_path e)) entries in
    andthen (sync_entries target known now entries []) (\<lambda>uploads.
    andthen (only_if (complete \<and> entries \<noteq> [])
        (each (filter (\<lambda>(path, row). path \<notin> set seen) known)
          (\<lambda>(path, row). andthen (per_file (delete_missing target row now)) (\<lambda>_. ret ())))) (\<lambda>_.
    ret uploads)))))"

section \<open>Uploads\<close>

definition written_by_upload :: "remote_item \<Rightarrow> datetime \<Rightarrow> bool" where
  "written_by_upload item started_at \<longleftrightarrow> \<not> ri_is_folder item \<and> ri_modified_by_app item \<and>
    (case ri_modified_at item of None \<Rightarrow> True | Some t \<Rightarrow> started_at - UPLOAD_CLOCK_SKEW \<le> t)"

definition complete_upload :: "'d sync_env \<Rightarrow> datetime \<Rightarrow> uuid \<Rightarrow> string \<Rightarrow> string \<Rightarrow> ('d, unit) act" where
  "complete_upload env now aid key path =
    andthen (sync_target env now aid key) (\<lambda>target.
    andthen (require_allowed env target path) (\<lambda>_.
    andthen (query (file_at (fo_id (ft_folder target)) path)) (\<lambda>found.
    case (case found of None \<Rightarrow> None | Some row \<Rightarrow> map_option (\<lambda>t. (row, t)) (sf_upload_started_at row)) of
      None \<Rightarrow> throw (FileSyncConflict ''No upload is under way for this path'')
    | Some (row, started_at) \<Rightarrow>
        andthen (catch (remotely (pl_get_item_by_path (ft_plugin target) (ft_root target) (ft_folder_item_id target) path))
          (\<lambda>e. if e = FromProvider RemoteItemMissing then Some (throw (FileSyncConflict ''The upload has not reached the provider''))
               else provider_clauses e)) (\<lambda>item.
        if \<not> written_by_upload item started_at then throw (FileSyncConflict ''The provider holds a file this upload didn't write'')
        else
          andthen (transact (record_synced (fo_id (ft_folder target)) path item (sf_local_sha256 row) (sf_size row) now)) (\<lambda>_.
          case sf_pending_activity row of
            None \<Rightarrow> ret ()
          | Some kind \<Rightarrow> change (record_activity (ft_folder target) kind (Some (sf_path row)) now))))))"

section \<open>Operations for the pod\<close>

record operation_read =
  or_path :: string
  or_action :: pending_action
  or_url :: string
  or_expires_at :: "datetime option"
  or_version :: "string option"

definition hand_out :: "'d file_sync_target \<Rightarrow> datetime \<Rightarrow> sync_file \<Rightarrow> ('d, operation_read option) act" where
  "hand_out target now row =
    (if sf_pending row = Some PendREUPLOAD then
       andthen (remotely (pl_upload_target (ft_plugin target) (ft_root target) (ft_folder_item_id target) (sf_path row))) (\<lambda>upload.
       andthen (transact (start_upload (fo_id (ft_folder target)) (sf_path row) (sf_local_sha256 row) (sf_size row) now)) (\<lambda>_.
       ret (Some \<lparr>or_path = sf_path row, or_action = PendREUPLOAD, or_url = ut_url upload,
                  or_expires_at = Some (ut_expires_at upload), or_version = None\<rparr>)))
     else (case sf_item_id row of
         None \<Rightarrow> andthen (transact (clear_pending (sf_id row))) (\<lambda>_. ret None)
       | Some item_id \<Rightarrow>
           andthen (catch (andthen (remotely (pl_get_item (ft_plugin target) (ft_root target) item_id)) (\<lambda>item. ret (Some item)))
             (on_missing (andthen (transact (clear_pending (sf_id row))) (\<lambda>_. ret None)))) (\<lambda>found.
           case found of
             None \<Rightarrow> ret None
           | Some item \<Rightarrow>
               andthen (remotely (pl_download_url (ft_plugin target) (ft_root target) item_id)) (\<lambda>url.
               ret (Some \<lparr>or_path = sf_path row, or_action = PendDOWNLOAD, or_url = url, or_expires_at = None,
                          or_version = ri_content_version item\<rparr>)))))"

definition claim_operations :: "'d sync_env \<Rightarrow> datetime \<Rightarrow> uuid \<Rightarrow> string \<Rightarrow> ('d, operation_read list) act" where
  "claim_operations env now aid key =
    andthen (sync_target env now aid key) (\<lambda>target.
    andthen (transact (claim_files (fo_id (ft_folder target)) now (now + OPERATION_LEASE))) (\<lambda>claimed.
    catch (gather claimed (hand_out target now)) (\<lambda>e.
      case e of
        FromProvider p \<Rightarrow>
          Some (andthen (each claimed (\<lambda>row. transact (release_file (sf_id row) None))) (\<lambda>_.
            throw (case p of ProviderThrottled wait \<Rightarrow> busy_after wait | _ \<Rightarrow> FileSyncProviderFailed p)))
      | _ \<Rightarrow> None)))"

datatype operation_outcome = OutcomeDONE | OutcomeSKIPPED_NO_SPACE | OutcomeFAILED | OutcomeLOCAL_CHANGED

record operation_result =
  res_path :: string
  res_outcome :: operation_outcome
  res_version :: "string option"
  res_sha256 :: "string option"
  res_size :: "nat option"

text \<open>\<open>_done_names_what_was_written\<close>, which the request body satisfies.\<close>

definition result_valid :: "operation_result \<Rightarrow> bool" where
  "result_valid r \<longleftrightarrow> (res_outcome r = OutcomeDONE \<longrightarrow> res_version r \<noteq> None \<and> res_sha256 r \<noteq> None \<and> res_size r \<noteq> None)"

definition failed_wait :: "nat \<Rightarrow> int" where
  "failed_wait attempts = seconds (int (min (FAILED_RETRY_BASE_SECONDS * 2 ^ (attempts - 1)) FAILED_RETRY_MAX_SECONDS))"

definition finish_download :: "'d file_sync_target \<Rightarrow> sync_file \<Rightarrow> operation_result \<Rightarrow> datetime \<Rightarrow> ('d, unit) act" where
  "finish_download target row result now =
    (case (if sf_pending row = Some PendDOWNLOAD then sf_item_id row else None) of
       None \<Rightarrow> throw (FileSyncConflict ''Only a download is finished with a done result'')
     | Some item_id \<Rightarrow>
         andthen (catch (andthen (remotely (pl_get_item (ft_plugin target) (ft_root target) item_id)) (\<lambda>item. ret (Some item)))
           (\<lambda>e. case on_missing (andthen (transact (clear_pending (sf_id row))) (\<lambda>_. ret None)) e of
              Some h \<Rightarrow> Some h | None \<Rightarrow> provider_clauses e)) (\<lambda>found.
         case found of
           None \<Rightarrow> ret ()
         | Some item \<Rightarrow>
             if ri_content_version item \<noteq> res_version result then transact (requeue_download (sf_id row))
             else (case (res_sha256 result, res_size result) of
                 (Some sha, Some n) \<Rightarrow> transact (record_synced (fo_id (ft_folder target)) (sf_path row) item sha n now)
               | _ \<Rightarrow> throw (FileSyncConflict ''A done result names the written content''))))"

definition report_result :: "'d sync_env \<Rightarrow> datetime \<Rightarrow> uuid \<Rightarrow> string \<Rightarrow> operation_result \<Rightarrow> ('d, unit) act" where
  "report_result env now aid key result =
    andthen (sync_target env now aid key) (\<lambda>target.
    andthen (require_allowed env target (res_path result)) (\<lambda>_.
    andthen (query (file_at (fo_id (ft_folder target)) (res_path result))) (\<lambda>found.
    case (case found of None \<Rightarrow> None | Some row \<Rightarrow> if sf_pending row = None \<or> sf_lease_until row = None then None else Some row) of
      None \<Rightarrow> throw (FileSyncConflict ''No job was handed out for this path'')
    | Some row \<Rightarrow>
        (case res_outcome result of
           OutcomeDONE \<Rightarrow> finish_download target row result now
         | OutcomeSKIPPED_NO_SPACE \<Rightarrow>
             let detail = (case res_version result of
                   Some v \<Rightarrow> if v = [] then (case sf_ctag row of None \<Rightarrow> [] | Some t \<Rightarrow> t) else v
                 | None \<Rightarrow> (case sf_ctag row of None \<Rightarrow> [] | Some t \<Rightarrow> t)) in
             andthen (change (record_activity_once (ft_folder target) SKIPPED_NO_SPACE (sf_path row) detail now)) (\<lambda>_.
             transact (release_file (sf_id row) (Some (now + NO_SPACE_RETRY))))
         | OutcomeFAILED \<Rightarrow> transact (release_file (sf_id row) (Some (now + failed_wait (sf_attempts row))))
         | OutcomeLOCAL_CHANGED \<Rightarrow>
             andthen (transact (clear_pending (sf_id row))) (\<lambda>_.
             change (record_activity (ft_folder target) CONFLICT_AGENT_WON (Some (sf_path row)) now))))))"

section \<open>Disconnecting\<close>

text \<open>\<open>FileSyncFolderRemoval\<close>; \<open>acquired\<close> is whether the lock of the connection was obtained.\<close>

definition remove_agent_folders :: "bool \<Rightarrow> sync_connection \<Rightarrow> 'd sync_plugin \<Rightarrow> string \<Rightarrow> ('d, unit) act" where
  "remove_agent_folders acquired c pl token =
    (if \<not> acquired then throw FileSyncBusy
     else andthen (query (folders_of (sc_id c))) (\<lambda>folders.
       each folders (\<lambda>fo.
         andthen (case (sync_root_of c, fo_folder_item_id fo) of
             (Some root, Some item) \<Rightarrow>
               catch (remotely (pl_delete_item_with pl token root item)) (\<lambda>e.
                 case e of FromProvider p \<Rightarrow> Some (ret ()) | _ \<Rightarrow> None)
           | _ \<Rightarrow> ret ()) (\<lambda>_.
         change (remove_folder (fo_id fo))))))"

end
