(* ===== verification/File_Sync_Engine.thy ===== *)
theory File_Sync_Engine
  imports File_Sync_Service
begin

text \<open>
  The engine that follows the drives (\<open>api/domains/file_sync/engine.py\<close>): it keeps one folder per Agent,
  and undoes, parks or hands to the pod what people change there. A pass uses one reading of the
  clock. The two loops that depend on the drive are partial functions: \<open>None\<close> when they do not return.
\<close>

section \<open>Where a change is\<close>

definition SETTLE_DELAY :: int where
  "SETTLE_DELAY = seconds 30"

record 'd changes_context =
  ch_connection :: sync_connection
  ch_plugin :: "'d sync_plugin"
  ch_root :: sync_root
  ch_by_name :: "(string \<times> (sync_agent_folder \<times> string)) list"
  ch_by_item :: "(string \<times> sync_agent_folder) list"

record change_target =
  ct_folder :: sync_agent_folder
  ct_runtime :: string
  ct_rel_path :: string

definition locate :: "'d changes_context \<Rightarrow> string option \<Rightarrow> change_target option" where
  "locate ctx path =
    (case path of
       None \<Rightarrow> None
     | Some p \<Rightarrow>
         let folder_name = takeWhile (\<lambda>c. c \<noteq> CHR ''/'') p; rel_path = drop (length folder_name + 1) p
         in (case map_of (ch_by_name ctx) (lower folder_name) of
               None \<Rightarrow> None
             | Some (fo, runtime) \<Rightarrow>
                 if rel_path = [] \<or> hd (split_on CHR ''/'' rel_path) = NOT_SYNCED_DIR then None
                 else Some \<lparr>ct_folder = fo, ct_runtime = runtime, ct_rel_path = rel_path\<rparr>))"

text \<open>\<open>s.rpartition(c)\<close>: what is before and after the last \<open>c\<close>, and whether there is one.\<close>

definition rpartition :: "char \<Rightarrow> string \<Rightarrow> string \<times> bool \<times> string" where
  "rpartition c s =
    (let after = takeWhile (\<lambda>x. x \<noteq> c) (rev s); before = drop (length after) (rev s)
     in (rev (tl before), before \<noteq> [], rev after))"

section \<open>Changes of a file\<close>

text \<open>What a user's edit means: the pod applies it, the engine undoes it, or it is only noted.\<close>

definition content_edit :: "datetime \<Rightarrow> change_target \<Rightarrow> sync_file \<Rightarrow> remote_item \<Rightarrow> ('d, unit) act" where
  "content_edit now target row item =
    (if ri_content_version item = sf_ctag row then ret ()
     else
       let settle_at = (case ri_modified_at item of None \<Rightarrow> now | Some t \<Rightarrow> t) + SETTLE_DELAY;
           version = (case ri_content_version item of None \<Rightarrow> [] | Some v \<Rightarrow> v)
       in if sf_upload_started_at row \<noteq> None then
            change (record_activity_once (ct_folder target) CONFLICT_AGENT_WON (sf_path row) version now)
          else andthen (lift (classify (ct_runtime target) (sf_path row))) (\<lambda>category.
            if category \<in> {SyncWORK, SyncMEMORY} then
              (if too_large (ri_size item)
               then change (record_activity_once (ct_folder target) SKIPPED_TOO_LARGE (sf_path row) version now)
               else transact (mark_remote_change (sf_id row) PendDOWNLOAD settle_at None))
            else only_if (category \<in> {SyncCONFIG, SyncSKILLS})
              (transact (mark_remote_change (sf_id row) PendREUPLOAD settle_at (Some EDIT_UNDONE)))))"

definition item_id_of :: "('d, remote_item) act \<Rightarrow> ('d, string) act" where
  "item_id_of m = andthen m (\<lambda>item. ret (ri_id item))"

text \<open>The folder at a path below another, created where it is missing.\<close>

fun folder_at :: "'d changes_context \<Rightarrow> string \<Rightarrow> string list \<Rightarrow> ('d, string) act" where
  "folder_at ctx parent [] = ret parent"
| "folder_at ctx parent (segment # rest) =
    andthen (catch (item_id_of (remotely (pl_get_item_by_path (ch_plugin ctx) (ch_root ctx) parent segment)))
      (on_missing (catch (item_id_of (remotely (pl_create_folder (ch_plugin ctx) (ch_root ctx) parent segment)))
        (on_taken (item_id_of (remotely (pl_get_item_by_path (ch_plugin ctx) (ch_root ctx) parent segment)))))))
      (\<lambda>next_parent. folder_at ctx next_parent rest)"

definition move_back :: "datetime \<Rightarrow> 'd changes_context \<Rightarrow> sync_agent_folder \<Rightarrow> sync_file \<Rightarrow> remote_item \<Rightarrow> ('d, bool) act" where
  "move_back now ctx fo row item =
    (case fo_folder_item_id fo of
       None \<Rightarrow> ret False
     | Some folder_item \<Rightarrow>
         let (original_dir, found, original_name) = rpartition CHR ''/'' (sf_path row) in
         andthen (catch
           (andthen (if original_dir \<noteq> [] then folder_at ctx folder_item (split_on CHR ''/'' original_dir) else ret folder_item) (\<lambda>parent.
            andthen (remotely (pl_move_item (ch_plugin ctx) (ch_root ctx) (ri_id item) (Some original_name) (Some parent))) (\<lambda>_.
            ret True)))
           (on_missing_or_taken (ret False))) (\<lambda>moved.
         if \<not> moved then ret False
         else andthen (change (record_activity fo RENAMED_BACK (Some (sf_path row)) now)) (\<lambda>_. ret True)))"

definition not_synced_folder :: "'d changes_context \<Rightarrow> string \<Rightarrow> ('d, string) act" where
  "not_synced_folder ctx folder_item = folder_at ctx folder_item [NOT_SYNCED_DIR]"

definition parked_name :: "string \<Rightarrow> nat \<Rightarrow> string" where
  "parked_name name n =
    (let (stem0, found, extension0) = rpartition CHR ''.'' name;
         (stem, dot, extension) = (if stem0 = [] then (name, [], []) else (stem0, ''.'', extension0))
     in if n = 1 then name else stem @ '' ('' @ nat_str n @ '')'' @ dot @ extension)"

fun move_under_free_name :: "'d changes_context \<Rightarrow> string \<Rightarrow> string \<Rightarrow> string \<Rightarrow> nat list \<Rightarrow> ('d, unit) act" where
  "move_under_free_name ctx item_id name parent [] = ret ()"
| "move_under_free_name ctx item_id name parent (n # ns) =
    catch (andthen (remotely (pl_move_item (ch_plugin ctx) (ch_root ctx) item_id (Some (parked_name name n)) (Some parent))) (\<lambda>_. ret ()))
      (on_taken (move_under_free_name ctx item_id name parent ns))"

definition park :: "datetime \<Rightarrow> 'd changes_context \<Rightarrow> change_target \<Rightarrow> remote_item \<Rightarrow> ('d, unit) act" where
  "park now ctx target item =
    (case (fo_folder_item_id (ct_folder target), ri_name item) of
       (Some folder_item, Some name) \<Rightarrow>
         andthen (not_synced_folder ctx folder_item) (\<lambda>not_synced.
         andthen (move_under_free_name ctx (ri_id item) name not_synced [1..<NAME_ATTEMPTS + 1]) (\<lambda>_.
         change (record_activity (ct_folder target) MOVED_NOT_SYNCED (Some (ct_rel_path target)) now)))
     | _ \<Rightarrow> ret ())"

definition tracked_change ::
  "datetime \<Rightarrow> 'd changes_context \<Rightarrow> remote_item \<Rightarrow> change_target option \<Rightarrow> sync_file \<Rightarrow> sync_agent_folder \<Rightarrow> ('d, unit) act" where
  "tracked_change now ctx item target row fo =
    (if fo_status fo \<noteq> FolderACTIVE then ret ()
     else
       let own = (case target of None \<Rightarrow> None | Some t \<Rightarrow> if fo_id (ct_folder t) = fo_id fo then Some t else None)
       in case (case own of None \<Rightarrow> None | Some t \<Rightarrow> if lower (ct_rel_path t) = lower (sf_path row) then Some t else None) of
            Some t \<Rightarrow>
              andthen (only_if (ct_rel_path t \<noteq> sf_path row) (andthen (move_back now ctx fo row item) (\<lambda>_. ret ()))) (\<lambda>_.
              content_edit now t row item)
          | None \<Rightarrow>
              andthen (if own \<noteq> None then move_back now ctx fo row item else ret False) (\<lambda>moved.
              if moved then ret ()
              else andthen (transact (restore_from_agent (sf_id row))) (\<lambda>_.
                case target of None \<Rightarrow> ret () | Some t \<Rightarrow> park now ctx t item)))"

definition adopted :: "sync_file \<Rightarrow> string \<Rightarrow> sync_file" where
  "adopted row item_id = row\<lparr>sf_item_id := Some item_id, sf_pending := None\<rparr>"

definition untracked_change :: "datetime \<Rightarrow> 'd changes_context \<Rightarrow> remote_item \<Rightarrow> change_target \<Rightarrow> ('d, unit) act" where
  "untracked_change now ctx item target =
    andthen (query (file_at (fo_id (ct_folder target)) (ct_rel_path target))) (\<lambda>at_path.
    case at_path of
      None \<Rightarrow> park now ctx target item
    | Some row \<Rightarrow>
        if sf_upload_started_at row \<noteq> None then ret ()
        else andthen (transact (adopt_item (sf_id row) (ri_id item))) (\<lambda>_.
          let row1 = adopted row (ri_id item) in
          andthen (only_if (ct_rel_path target \<noteq> sf_path row1)
            (andthen (move_back now ctx (ct_folder target) row1 item) (\<lambda>_. ret ()))) (\<lambda>_.
          content_edit now target row1 item)))"

definition file_change :: "datetime \<Rightarrow> 'd changes_context \<Rightarrow> remote_item \<Rightarrow> ('d, unit) act" where
  "file_change now ctx item =
    (let target = locate ctx (if ri_deleted item then None else ri_path item) in
     andthen (query (file_by_item_in_connection (sc_id (ch_connection ctx)) (ri_id item))) (\<lambda>tracked.
     case tracked of
       Some (row, fo) \<Rightarrow> tracked_change now ctx item target row fo
     | None \<Rightarrow>
         if ri_deleted item then ret ()
         else (case target of None \<Rightarrow> ret () | Some t \<Rightarrow> untracked_change now ctx item t)))"

section \<open>Changes of a folder\<close>

definition rebuild_folder :: "datetime \<Rightarrow> sync_agent_folder \<Rightarrow> ('d, unit) act" where
  "rebuild_folder now fo =
    andthen (change (forget_folder_item (fo_id fo))) (\<lambda>_.
    andthen (transact (restore_folder_files (fo_id fo))) (\<lambda>_.
    change (record_activity fo FOLDER_RESTORED None now)))"

text \<open>\<open>handler\<close> is \<open>_handle\<close>, which the files of a moved subfolder go through again.\<close>

definition subfolder_change :: "(remote_item \<Rightarrow> ('d, unit) act) \<Rightarrow> 'd changes_context \<Rightarrow> remote_item \<Rightarrow> ('d, unit) act" where
  "subfolder_change handler ctx item =
    (if ri_deleted item \<or> locate ctx (ri_path item) = None then ret ()
     else andthen (remotely (pl_list_files (ch_plugin ctx) (ch_root ctx) (ri_id item))) (\<lambda>children.
       each children (\<lambda>child.
         andthen (query (file_by_item_in_connection (sc_id (ch_connection ctx)) (ri_id child))) (\<lambda>tracked.
         only_if (tracked \<noteq> None) (handler child)))))"

definition folder_change ::
  "(remote_item \<Rightarrow> ('d, unit) act) \<Rightarrow> datetime \<Rightarrow> 'd changes_context \<Rightarrow> remote_item \<Rightarrow> ('d, unit) act" where
  "folder_change handler now ctx item =
    (case map_of (ch_by_item ctx) (ri_id item) of
       None \<Rightarrow> subfolder_change handler ctx item
     | Some fo \<Rightarrow>
         if \<not> ri_deleted item \<and> ri_path item = Some (fo_folder_name fo) then ret ()
         else andthen (if \<not> ri_deleted item \<and> ri_path item \<noteq> None
             then catch
               (andthen (remotely (pl_move_item (ch_plugin ctx) (ch_root ctx) (ri_id item) (Some (fo_folder_name fo))
                   (Some (root_folder_id (ch_root ctx))))) (\<lambda>_.
                andthen (change (record_activity fo FOLDER_RESTORED None now)) (\<lambda>_. ret True)))
               (on_missing_or_taken (ret False))
             else ret False) (\<lambda>moved.
           if moved then ret () else rebuild_folder now fo))"

text \<open>\<open>depth\<close> is the recursion limit of the interpreter; files of a drive are no folders, so two levels suffice.\<close>

fun handle_item :: "nat \<Rightarrow> datetime \<Rightarrow> 'd changes_context \<Rightarrow> remote_item \<Rightarrow> ('d, unit) act" where
  "handle_item 0 now ctx item = throw RecursionError"
| "handle_item (Suc depth) now ctx item =
    andthen (if \<not> ri_deleted item \<and> ri_path item = None
        then catch (andthen (remotely (pl_get_item (ch_plugin ctx) (ch_root ctx) (ri_id item))) (\<lambda>i. ret (Some i)))
          (on_missing (ret None))
        else ret (Some item)) (\<lambda>current.
    case current of
      None \<Rightarrow> ret ()
    | Some i \<Rightarrow> if ri_is_folder i then folder_change (handle_item depth now ctx) now ctx i else file_change now ctx i)"

definition remote_change :: "nat \<Rightarrow> datetime \<Rightarrow> 'd changes_context \<Rightarrow> remote_item \<Rightarrow> ('d, unit) act" where
  "remote_change depth now ctx item = (if ri_modified_by_app item then ret () else handle_item depth now ctx item)"

section \<open>The feed of changes\<close>

definition follow_page :: "nat \<Rightarrow> datetime \<Rightarrow> 'd changes_context \<Rightarrow> string \<Rightarrow> ('d, string \<times> bool) act" where
  "follow_page depth now ctx cursor =
    andthen (remotely (pl_changes (ch_plugin ctx) (ch_root ctx) (Some cursor) False)) (\<lambda>page.
    andthen (each (rc_items page) (remote_change depth now ctx)) (\<lambda>_.
    andthen (change (save_cursor (sc_id (ch_connection ctx)) (Some (rc_cursor page)))) (\<lambda>_.
    ret (rc_cursor page, rc_more page))))"

partial_function (option) follow ::
  "nat \<Rightarrow> datetime \<Rightarrow> 'd changes_context \<Rightarrow> string \<Rightarrow> 'd sync_world \<Rightarrow> ('d sync_world \<times> (sync_error + unit)) option" where
  "follow depth now ctx cursor w =
    Option.bind (follow_page depth now ctx cursor w) (\<lambda>(w1, r).
      case r of
        Inl e \<Rightarrow> Some (w1, Inl e)
      | Inr next_page \<Rightarrow> if snd next_page then follow depth now ctx (fst next_page) w1 else Some (w1, Inr ()))"

definition relist_page :: "nat \<Rightarrow> datetime \<Rightarrow> 'd changes_context \<Rightarrow> string option \<Rightarrow> ('d, remote_changes) act" where
  "relist_page depth now ctx cursor =
    andthen (remotely (pl_changes (ch_plugin ctx) (ch_root ctx) cursor (cursor = None))) (\<lambda>page.
    andthen (each (rc_items page) (remote_change depth now ctx)) (\<lambda>_. ret page))"

definition page_seen :: "remote_changes \<Rightarrow> string list" where
  "page_seen page = map ri_id (filter (\<lambda>i. \<not> ri_deleted i) (rc_items page))"

partial_function (option) relist_pages ::
  "nat \<Rightarrow> datetime \<Rightarrow> 'd changes_context \<Rightarrow> string option \<Rightarrow> string list \<Rightarrow> 'd sync_world
    \<Rightarrow> ('d sync_world \<times> (sync_error + string list \<times> string)) option" where
  "relist_pages depth now ctx cursor seen w =
    Option.bind (relist_page depth now ctx cursor w) (\<lambda>(w1, r).
      case r of
        Inl e \<Rightarrow> Some (w1, Inl e)
      | Inr page \<Rightarrow>
          if rc_more page then relist_pages depth now ctx (Some (rc_cursor page)) (page_seen page @ seen) w1
          else Some (w1, Inr (page_seen page @ seen, rc_cursor page)))"

definition relist :: "nat \<Rightarrow> datetime \<Rightarrow> 'd changes_context \<Rightarrow> ('d, unit) act" where
  "relist depth now ctx =
    andthen (relist_pages depth now ctx None []) (\<lambda>(seen, cursor).
    andthen (each (filter (\<lambda>(item, fo). item \<notin> set seen) (ch_by_item ctx)) (\<lambda>(item, fo). rebuild_folder now fo)) (\<lambda>_.
    andthen (query (synced_files_in_connection (sc_id (ch_connection ctx)))) (\<lambda>rows.
    andthen (each (filter (\<lambda>(row, fo). (case sf_item_id row of None \<Rightarrow> True | Some i \<Rightarrow> i \<notin> set seen) \<and>
        (case fo_folder_item_id fo of None \<Rightarrow> False | Some i \<Rightarrow> i \<in> fst ` set (ch_by_item ctx) \<and> i \<in> set seen)) rows)
      (\<lambda>(row, fo). transact (restore_from_agent (sf_id row)))) (\<lambda>_.
    change (save_cursor (sc_id (ch_connection ctx)) (Some cursor))))))"

definition active_folders :: "(sync_agent_folder \<times> string) list \<Rightarrow> (sync_agent_folder \<times> string) list" where
  "active_folders rows = filter (\<lambda>(fo, r). fo_status fo = FolderACTIVE \<and> fo_folder_item_id fo \<noteq> None) rows"

definition changes_context_of ::
  "sync_connection \<Rightarrow> 'd sync_plugin \<Rightarrow> sync_root \<Rightarrow> (sync_agent_folder \<times> string) list \<Rightarrow> 'd changes_context" where
  "changes_context_of c pl root rows =
    \<lparr>ch_connection = c, ch_plugin = pl, ch_root = root,
     ch_by_name = dict_of (map (\<lambda>(fo, r). (lower (fo_folder_name fo), (fo, r))) (active_folders rows)),
     ch_by_item = dict_of (map (\<lambda>(fo, r). (the (fo_folder_item_id fo), fo)) (active_folders rows))\<rparr>"

definition process_changes :: "'d sync_env \<Rightarrow> nat \<Rightarrow> datetime \<Rightarrow> sync_connection \<Rightarrow> ('d, unit) act" where
  "process_changes env depth now c =
    andthen (require_plugin env (sc_provider_key c)) (\<lambda>pl.
    case (if pl_file_sync pl then sync_root_of c else None) of
      None \<Rightarrow> ret ()
    | Some root \<Rightarrow>
        (case sc_sync_cursor c of
           None \<Rightarrow>
             andthen (remotely (pl_changes pl root None False)) (\<lambda>page.
             change (save_cursor (sc_id c) (Some (rc_cursor page))))
         | Some cursor \<Rightarrow>
             andthen (query (folders_with_runtime (sc_id c))) (\<lambda>found.
             andthen (lift found) (\<lambda>rows.
             let ctx = changes_context_of c pl root rows in
             catch (follow depth now ctx cursor) (\<lambda>e.
               if e = FromProvider RemoteResyncRequired then Some (relist depth now ctx) else None)))))"

section \<open>Folders of Agents\<close>

definition delete_agent_folder :: "'d sync_plugin \<Rightarrow> sync_root \<Rightarrow> sync_agent_folder \<Rightarrow> ('d, unit) act" where
  "delete_agent_folder pl root fo =
    andthen (case fo_folder_item_id fo of
        None \<Rightarrow> ret ()
      | Some item \<Rightarrow> catch (remotely (pl_delete_item pl root item)) (on_missing (ret ()))) (\<lambda>_.
    change (remove_folder (fo_id fo)))"

text \<open>The id of a retired folder that is gone; throttling ends the pass, other failures wait for the next.\<close>

definition delete_retired :: "'d sync_plugin \<Rightarrow> sync_root \<Rightarrow> sync_agent_folder \<Rightarrow> ('d, uuid option) act" where
  "delete_retired pl root fo =
    catch (andthen (delete_agent_folder pl root fo) (\<lambda>_. ret (Some (fo_id fo)))) (\<lambda>e.
      case e of
        FromProvider (ProviderThrottled wait) \<Rightarrow> None
      | FromProvider p \<Rightarrow> Some (ret None)
      | _ \<Rightarrow> None)"

fun reserve ::
  "sync_connection \<Rightarrow> uuid \<Rightarrow> string \<Rightarrow> nat list \<Rightarrow> string list \<Rightarrow> ('d, sync_agent_folder option \<times> string list) act" where
  "reserve c aid base [] taken = ret (None, taken)"
| "reserve c aid base (n # ns) taken =
    (let name = numbered_name base n
     in if lower name \<in> set taken then reserve c aid base ns taken
        else andthen (transact (reserve_folder c aid name)) (\<lambda>folder.
          case folder of
            Some fo \<Rightarrow> ret (Some fo, lower name # taken)
          | None \<Rightarrow> reserve c aid base ns (lower name # taken)))"

text \<open>The loops over free names end: every round takes one of the hundred candidates.\<close>

definition candidates_left :: "string \<Rightarrow> string list \<Rightarrow> nat" where
  "candidates_left base taken =
    card {name \<in> set (map (numbered_name base) [1..<NAME_ATTEMPTS + 1]). lower name \<notin> set taken}"

lemma free_name_Some:
  assumes "free_name base taken = Some name"
  shows "name \<in> set (map (numbered_name base) [1..<NAME_ATTEMPTS + 1])" "lower name \<notin> set taken"
  using find_SomeD [OF assms [unfolded free_name_def]] by blast+

lemma candidates_left_less:
  assumes "free_name base taken = Some name"
  shows "candidates_left base (lower name # taken) < candidates_left base taken"
  unfolding candidates_left_def by (rule psubset_card_mono) (use free_name_Some [OF assms] in auto)

function take_free_name :: "uuid \<Rightarrow> string \<Rightarrow> string list \<Rightarrow> ('d, string option \<times> string list) act" where
  "take_free_name i base taken =
    (case free_name base taken of
       None \<Rightarrow> ret (None, taken)
     | Some name \<Rightarrow>
         andthen (transact (rename_folder i name)) (\<lambda>renamed.
         if renamed then ret (Some name, lower name # taken) else take_free_name i base (lower name # taken)))"
  by auto
termination
  by (relation "measure (\<lambda>(i, base, taken). candidates_left base taken)") (auto intro: candidates_left_less)

declare take_free_name.simps [simp del]

definition rename_reserved :: "sync_agent_folder \<Rightarrow> string \<Rightarrow> string \<Rightarrow> string list \<Rightarrow> ('d, string option \<times> string list) act" where
  "rename_reserved fo refused base taken = take_free_name (fo_id fo) base (lower refused # taken)"

fun create_loop ::
  "nat \<Rightarrow> 'd sync_env \<Rightarrow> 'd sync_plugin \<Rightarrow> sync_root \<Rightarrow> sync_agent_folder \<Rightarrow> string \<Rightarrow> string \<Rightarrow> string list \<Rightarrow> ('d, string list) act" where
  "create_loop 0 env pl root fo name base taken = ret taken"
| "create_loop (Suc k) env pl root fo name base taken =
    andthen (catch
      (andthen (remotely (pl_create_folder pl root (root_folder_id root) name)) (\<lambda>item. ret (Some item)))
      (on_taken (ret None))) (\<lambda>created.
    case created of
      Some item \<Rightarrow>
        andthen (change (record_folder (fo_id fo) (ri_id item) (ri_web_url item) (map_option (se_server_path env) (ri_web_url item)))) (\<lambda>_.
        ret taken)
    | None \<Rightarrow>
        andthen (rename_reserved fo name base taken) (\<lambda>(next_name, taken1).
        case next_name of None \<Rightarrow> ret taken1 | Some n \<Rightarrow> create_loop k env pl root fo n base taken1))"

definition create_folder_for ::
  "'d sync_env \<Rightarrow> 'd sync_plugin \<Rightarrow> sync_root \<Rightarrow> sync_agent_folder \<Rightarrow> string \<Rightarrow> string list \<Rightarrow> ('d, string list) act" where
  "create_folder_for env pl root fo base taken = create_loop NAME_ATTEMPTS env pl root fo (fo_folder_name fo) base taken"

text \<open>
  One round of following a new name: the row is renamed, then the folder on the drive. \<open>None\<close> when the
  loop is over, and otherwise the name that the drive refused and what is taken then.
\<close>

definition rename_round ::
  "'d sync_plugin \<Rightarrow> sync_root \<Rightarrow> uuid \<Rightarrow> string \<Rightarrow> string \<Rightarrow> string \<Rightarrow> string list \<Rightarrow> ('d, bool \<times> string list) act" where
  "rename_round pl root i item current name taken =
    andthen (transact (rename_folder i name)) (\<lambda>renamed.
    if \<not> renamed then ret (False, taken)
    else
      let taken1 = lower name # filter (\<lambda>t. t \<noteq> lower current) taken in
      catch (andthen (remotely (pl_move_item pl root item (Some name) None)) (\<lambda>_. ret (False, taken1)))
        (on_taken (ret (True, taken1))))"

partial_function (option) follow_name_loop ::
  "'d sync_plugin \<Rightarrow> sync_root \<Rightarrow> uuid \<Rightarrow> string \<Rightarrow> string \<Rightarrow> string \<Rightarrow> string option \<Rightarrow> string list \<Rightarrow> 'd sync_world
    \<Rightarrow> ('d sync_world \<times> (sync_error + string list)) option" where
  "follow_name_loop pl root i item base current name taken w =
    (case name of
       None \<Rightarrow> Some (w, Inr taken)
     | Some n \<Rightarrow>
         Option.bind (rename_round pl root i item current n taken w) (\<lambda>(w1, r).
           case r of
             Inl e \<Rightarrow> Some (w1, Inl e)
           | Inr again \<Rightarrow>
               if fst again then follow_name_loop pl root i item base n (free_name base (snd again)) (snd again) w1
               else Some (w1, Inr (snd again))))"

definition follow_name ::
  "'d sync_plugin \<Rightarrow> sync_root \<Rightarrow> sync_agent_folder \<Rightarrow> string \<Rightarrow> string \<Rightarrow> string list \<Rightarrow> ('d, string list) act" where
  "follow_name pl root fo item base taken =
    (let number = number_of (fo_folder_name fo) base;
         others = filter (\<lambda>t. t \<noteq> lower (fo_folder_name fo)) taken
     in if number = Some 1 \<or> (number \<noteq> None \<and> lower base \<in> set others) then ret taken
        else follow_name_loop pl root (fo_id fo) item base (fo_folder_name fo) (free_name base others) taken)"

definition reconcile_agent ::
  "'d sync_env \<Rightarrow> sync_connection \<Rightarrow> 'd sync_plugin \<Rightarrow> sync_root \<Rightarrow> (uuid \<times> sync_agent_folder) list \<Rightarrow> uuid \<Rightarrow> string \<Rightarrow> string list
    \<Rightarrow> ('d, string list) act" where
  "reconcile_agent env c pl root by_agent aid name taken =
    (let base = folder_base_name name in
     andthen (case map_of by_agent aid of
         Some fo \<Rightarrow> ret (Some fo, taken)
       | None \<Rightarrow> reserve c aid base [1..<NAME_ATTEMPTS + 1] taken) (\<lambda>(folder, taken1).
     case folder of
       None \<Rightarrow> ret taken1
     | Some fo \<Rightarrow>
         if fo_status fo \<noteq> FolderACTIVE then ret taken1
         else (case fo_folder_item_id fo of
             None \<Rightarrow> create_folder_for env pl root fo base taken1
           | Some item \<Rightarrow> follow_name pl root fo item base taken1)))"

fun reconcile_agents ::
  "'d sync_env \<Rightarrow> sync_connection \<Rightarrow> 'd sync_plugin \<Rightarrow> sync_root \<Rightarrow> (uuid \<times> sync_agent_folder) list \<Rightarrow> (uuid \<times> string) list \<Rightarrow> string list
    \<Rightarrow> ('d, unit) act" where
  "reconcile_agents env c pl root by_agent [] taken = ret ()"
| "reconcile_agents env c pl root by_agent ((aid, name) # rest) taken =
    andthen (reconcile_agent env c pl root by_agent aid name taken) (\<lambda>taken1.
    reconcile_agents env c pl root by_agent rest taken1)"

definition reconcile_folders :: "'d sync_env \<Rightarrow> sync_connection \<Rightarrow> ('d, unit) act" where
  "reconcile_folders env c =
    andthen (require_plugin env (sc_provider_key c)) (\<lambda>pl.
    case (if pl_file_sync pl then sync_root_of c else None) of
      None \<Rightarrow> ret ()
    | Some root \<Rightarrow>
        andthen (query (live_agent_names (sc_organization_id c))) (\<lambda>live.
        andthen (query (folders_of (sc_id c))) (\<lambda>folders.
        let retired = filter (\<lambda>fo. fo_agent_id fo \<notin> fst ` set live) folders in
        andthen (change (retire_folders (map fo_id (filter (\<lambda>fo. fo_status fo \<noteq> FolderRETIRED) retired)))) (\<lambda>_.
        andthen (gather retired (delete_retired pl root)) (\<lambda>gone.
        let kept = filter (\<lambda>fo. fo_id fo \<notin> set gone) folders in
        reconcile_agents env c pl root (dict_of (map (\<lambda>fo. (fo_agent_id fo, fo)) kept)) live
          (map (\<lambda>fo. lower (fo_folder_name fo)) kept))))))"

section \<open>A pass\<close>

text \<open>\<open>acquired\<close> tells for which connections the lock is free.\<close>

definition sync_one_connection :: "'d sync_env \<Rightarrow> nat \<Rightarrow> datetime \<Rightarrow> sync_connection \<Rightarrow> ('d, unit) act" where
  "sync_one_connection env depth now c =
    catch (andthen (reconcile_folders env c) (\<lambda>_. process_changes env depth now c)) (\<lambda>e.
      case e of
        FromProvider (ProviderThrottled wait) \<Rightarrow>
          Some (change (postpone (sc_id c) (now + seconds (case wait of None \<Rightarrow> int THROTTLE_FALLBACK_SECONDS
            | Some n \<Rightarrow> if n = 0 then int THROTTLE_FALLBACK_SECONDS else int n))))
      | _ \<Rightarrow> Some (ret ()))"

definition run_pass :: "'d sync_env \<Rightarrow> nat \<Rightarrow> (uuid \<Rightarrow> bool) \<Rightarrow> datetime \<Rightarrow> ('d, unit) act" where
  "run_pass env depth acquired now =
    andthen (query (due_connections now)) (\<lambda>due.
    each due (\<lambda>c. only_if (acquired (sc_id c)) (sync_one_connection env depth now c)))"


end
