(* ===== verification/File_Sync_Guarantees.thy ===== *)
theory File_Sync_Guarantees
  imports File_Sync_Engine
begin

text \<open>
  What holds of the files of every Agent, whatever people do on the drive, whatever the drive answers
  and whatever the pods report: the invariant of the tables, a calculus of actions that keep it, and
  that every operation of the service and the engine is such an action.
\<close>

section \<open>The invariant\<close>

definition folder_runtime :: "sync_db \<Rightarrow> uuid \<Rightarrow> string option" where
  "folder_runtime db fid =
    (case row_get fo_id fid (sd_folders db) of
       None \<Rightarrow> None
     | Some fo \<Rightarrow> map_option agent_type (row_get agent_id (fo_agent_id fo) (sd_agents db)))"

definition category :: "string \<Rightarrow> string \<Rightarrow> sync_category" where
  "category r path = (case classify r path of Inl e \<Rightarrow> SyncNEVER | Inr c \<Rightarrow> c)"

text \<open>A path that may be synchronized, and one that people may write.\<close>

definition syncable :: "string \<Rightarrow> string \<Rightarrow> bool" where
  "syncable r path \<longleftrightarrow> category r path \<noteq> SyncNEVER \<and> name_problem path = None"

definition writable :: "string \<Rightarrow> string \<Rightarrow> bool" where
  "writable r path \<longleftrightarrow> category r path \<in> {SyncWORK, SyncMEMORY}"

definition file_ok :: "sync_db \<Rightarrow> sync_file \<Rightarrow> bool" where
  "file_ok db f \<longleftrightarrow>
    (\<exists>r. folder_runtime db (sf_folder_id f) = Some r \<and> syncable r (sf_path f) \<and>
      (sf_pending f = Some PendDOWNLOAD \<longrightarrow> writable r (sf_path f)))"

definition sync_inv :: "sync_db \<Rightarrow> bool" where
  "sync_inv db \<longleftrightarrow>
    distinct (map sf_id (sd_files db)) \<and> (\<forall>f \<in> set (sd_files db). sf_id f < sd_next_id db) \<and>
    distinct (map fo_id (sd_folders db)) \<and> (\<forall>fo \<in> set (sd_folders db). fo_id fo < sd_next_id db) \<and>
    files_unique (sd_files db) \<and> folders_unique (sd_folders db) \<and> (\<forall>f \<in> set (sd_files db). file_ok db f)"

text \<open>
  What an operation may rely on while it runs: rows it has read keep their folder and path, folders
  keep their runtime.
\<close>

definition knows :: "(uuid \<times> uuid \<times> string) set \<Rightarrow> (uuid \<times> string) set \<Rightarrow> sync_db \<Rightarrow> bool" where
  "knows S T db \<longleftrightarrow> sync_inv db \<and>
    (\<forall>(i, fid, path) \<in> S. i < sd_next_id db \<and> (\<forall>f \<in> set (sd_files db). sf_id f = i \<longrightarrow> sf_folder_id f = fid \<and> sf_path f = path)) \<and>
    (\<forall>(fid, r) \<in> T. folder_runtime db fid = Some r)"

lemma knows_mono: "knows S' T' db \<Longrightarrow> S \<subseteq> S' \<Longrightarrow> T \<subseteq> T' \<Longrightarrow> knows S T db"
  unfolding knows_def by blast

lemma knows_inv: "knows S T db \<Longrightarrow> sync_inv db"
  by (simp add: knows_def)

section \<open>Actions that keep it\<close>

abbreviation keeps :: "(sync_db \<Rightarrow> bool) \<Rightarrow> ('d, 'a) act \<Rightarrow> bool" where
  "keeps \<equiv> keeps_in sw_db"

lemma keeps_read:
  assumes "\<And>db. J db \<Longrightarrow> P (g db) \<and> J' (g db) db" "\<And>x. P x \<Longrightarrow> keeps (J' x) (f x)" "\<And>x db. J' x db \<Longrightarrow> J db"
  shows "keeps J (andthen (query g) f)"
  by (rule keeps_learning [where P = P and J' = J']) (use assms in \<open>auto simp: keeps_in_def query_def\<close>)

lemma keeps_query [keeps_intros]: "keeps J (query g)"
  by (simp add: keeps_in_def query_def)

lemma keeps_remotely [keeps_intros]: "keeps J (remotely m)"
  by (auto simp: keeps_in_def remotely_def split: prod.splits sum.splits)

lemma keeps_lift [keeps_intros]: "keeps J (lift r)"
  by (auto simp: lift_def keeps_ret keeps_throw split: sum.splits)

lemma keeps_change: "(\<And>db. J db \<Longrightarrow> J (f db)) \<Longrightarrow> keeps J (change f)"
  by (auto simp: keeps_in_def change_def)

lemma keeps_transact: "(\<And>db db' x. J db \<Longrightarrow> f db = Inr (db', x) \<Longrightarrow> J db') \<Longrightarrow> keeps J (transact f)"
  by (fastforce simp: keeps_in_def transact_def split: sum.splits)

lemma handlers:
  "on_missing h e = Some h' \<Longrightarrow> h' = h" "on_taken h e = Some h' \<Longrightarrow> h' = h" "on_missing_or_taken h e = Some h' \<Longrightarrow> h' = h"
  by (auto simp: on_missing_def on_taken_def on_missing_or_taken_def split: if_splits)

lemma keeps_clauses [keeps_intros]:
  "keeps J m \<Longrightarrow> keeps J h \<Longrightarrow> keeps J (catch m (on_missing h))" "keeps J m \<Longrightarrow> keeps J h \<Longrightarrow> keeps J (catch m (on_taken h))"
  "keeps J m \<Longrightarrow> keeps J h \<Longrightarrow> keeps J (catch m (on_missing_or_taken h))"
  by (auto intro!: keeps_catch dest!: handlers)

section \<open>Writes\<close>

text \<open>Writes of rows that keep what the invariant is about.\<close>

definition same_place :: "sync_file \<Rightarrow> sync_file \<Rightarrow> bool" where
  "same_place f g \<longleftrightarrow> sf_id g = sf_id f \<and> sf_folder_id g = sf_folder_id f \<and> sf_path g = sf_path f"

lemma same_place_ok:
  assumes "same_place f g" "file_ok db f"
    and "sf_pending g = Some PendDOWNLOAD \<Longrightarrow>
      sf_pending f = Some PendDOWNLOAD \<or> (\<exists>r. folder_runtime db (sf_folder_id f) = Some r \<and> writable r (sf_path f))"
  shows "file_ok db g"
  using assms by (auto simp: file_ok_def same_place_def)

lemma write_files_Inr: "write_files fs db = Inr (db', x) \<longleftrightarrow> files_unique fs \<and> db' = db\<lparr>sd_files := fs\<rparr>"
  by (auto simp: write_files_def bind_result_Inr)

lemma folder_runtime_files [simp]: "folder_runtime (db\<lparr>sd_files := fs\<rparr>) = folder_runtime db"
  "folder_runtime (db\<lparr>sd_activities := acts\<rparr>) = folder_runtime db"
  "folder_runtime (db\<lparr>sd_connections := cs\<rparr>) = folder_runtime db"
  "folder_runtime (db\<lparr>sd_next_id := n\<rparr>) = folder_runtime db"
  by (simp_all add: folder_runtime_def fun_eq_iff split: option.split)

lemma file_ok_cong: "folder_runtime db' = folder_runtime db \<Longrightarrow> file_ok db' = file_ok db"
  by (simp add: file_ok_def fun_eq_iff)

lemma update_files_knows:
  assumes k: "knows S T db" and u: "update_files P g db = Inr (db', x)"
    and g: "\<And>f. f \<in> set (sd_files db) \<Longrightarrow> P f \<Longrightarrow> same_place f (g f) \<and>
      (sf_pending (g f) = Some PendDOWNLOAD \<longrightarrow>
        sf_pending f = Some PendDOWNLOAD \<or> (\<exists>r. folder_runtime db (sf_folder_id f) = Some r \<and> writable r (sf_path f)))"
  shows "knows S T db'"
proof -
  define h where "h = (\<lambda>f. if P f then g f else f)"
  have db': "files_unique (map h (sd_files db))" "db' = db\<lparr>sd_files := map h (sd_files db)\<rparr>"
    using u by (simp_all add: update_files_def write_files_Inr h_def)
  have place: "same_place f (h f)" if "f \<in> set (sd_files db)" for f using g that by (auto simp: same_place_def h_def)
  have ids: "map sf_id (map h (sd_files db)) = map sf_id (sd_files db)" using place by (simp add: same_place_def)
  have "file_ok db (h f)" if f: "f \<in> set (sd_files db)" for f
    using same_place_ok [OF place [OF f]] g [OF f] k f unfolding h_def by (auto simp: knows_def sync_inv_def)
  then have ok: "\<forall>f \<in> set (sd_files db'). file_ok db' f" using file_ok_cong [of db' db] by (auto simp: db'(2))
  have at: "sf_folder_id (h f) = sf_folder_id f" "sf_path (h f) = sf_path f" "sf_id (h f) = sf_id f" if "f \<in> set (sd_files db)" for f
    using place [OF that] by (auto simp: same_place_def)
  then have "\<forall>f \<in> set (sd_files db'). sf_id f < sd_next_id db'" using k by (auto simp: db'(2) knows_def sync_inv_def)
  then have "sync_inv db'" using k db' ids ok by (simp add: knows_def sync_inv_def del: map_map)
  then show ?thesis using k at unfolding knows_def db'(2) by auto
qed

lemma update_file_knows:
  assumes "\<And>f. same_place f (g f) \<and> (sf_pending (g f) = Some PendDOWNLOAD \<longrightarrow> sf_pending f = Some PendDOWNLOAD)"
  shows "keeps (knows S T) (transact (update_files P g))" "keeps (knows S T) (transact (update_file i g))"
proof -
  show "keeps (knows S T) (transact (update_files P g))" for P
    by (rule keeps_transact, rule update_files_knows [where P = P and g = g]) (use assms in auto)
  then show "keeps (knows S T) (transact (update_file i g))" by (simp add: update_file_def)
qed

text \<open>A row is written under a path: the row that is there, or a new one.\<close>

lemma file_at_Some: "file_at fid path db = Some f \<Longrightarrow> f \<in> set (sd_files db) \<and> sf_folder_id f = fid \<and> lower (sf_path f) = lower path"
  by (auto simp: file_at_def dest!: find_SomeD)

lemma same_file: "sync_inv db \<Longrightarrow> f \<in> set (sd_files db) \<Longrightarrow> g \<in> set (sd_files db) \<Longrightarrow> sf_id f = sf_id g \<Longrightarrow> f = g"
  by (auto simp: sync_inv_def distinct_map inj_on_def)

lemma upsert_knows:
  assumes g: "\<And>f. same_place f (g f) \<and> sf_pending (g f) \<noteq> Some PendDOWNLOAD \<or> same_place f (g f) \<and> sf_pending (g f) = sf_pending f"
    and T: "(fid, r) \<in> T" "syncable r path"
  shows "keeps (knows S T) (transact (upsert_file fid path sha n g))"
proof (rule keeps_transact)
  fix db db' x assume k: "knows S T db" and u: "upsert_file fid path sha n g db = Inr (db', x :: unit)"
  have rt: "folder_runtime db fid = Some r" using k T(1) by (auto simp: knows_def)
  show "knows S T db'"
  proof (cases "file_at fid path db")
    case (Some row)
    have "row \<in> set (sd_files db)" using file_at_Some [OF Some] by simp
    then have same: "f = row" if "f \<in> set (sd_files db)" "sf_id f = sf_id row" for f using same_file [OF knows_inv [OF k]] that by blast
    have "update_files (\<lambda>f. sf_id f = sf_id row) (\<lambda>_. g row) db = Inr (db', x)" using u Some by (simp add: upsert_file_def update_file_def)
    then show ?thesis by (rule update_files_knows [OF k]) (use same g in metis)
  next
    case None
    define f where "f = g (new_sync_file (sd_next_id db) fid path sha n)"
    have f: "sf_id f = sd_next_id db" "sf_folder_id f = fid" "sf_path f = path" "sf_pending f \<noteq> Some PendDOWNLOAD"
      using g [of "new_sync_file (sd_next_id db) fid path sha n"] by (auto simp: f_def same_place_def new_sync_file_def)
    have db': "files_unique (row_add f (sd_files db))" "db' = db\<lparr>sd_next_id := sd_next_id db + 1, sd_files := row_add f (sd_files db)\<rparr>"
      using u None by (simp_all add: upsert_file_def write_files_Inr f_def)
    have rts: "folder_runtime db' = folder_runtime db" by (simp add: db'(2))
    have "file_ok db' f" using f rt T(2) rts by (simp add: file_ok_def)
    then have "sync_inv db'" using k db' f file_ok_cong [OF rts] by (auto simp: knows_def sync_inv_def row_add_def less_Suc_eq)
    then show ?thesis using k f(1) rts by (auto simp: knows_def db'(2) row_add_def less_Suc_eq)
  qed
qed

text \<open>Removed rows, and tables the invariant does not speak of.\<close>

lemma files_unique_filter:
  assumes "files_unique fs"
  shows "files_unique (filter P fs)"
proof -
  have "filter Q (filter P fs) = filter P (filter Q fs)" for Q by (simp add: conj_commute)
  then show ?thesis using assms by (simp add: files_unique_def distinct_map_filter del: filter_filter)
qed

lemma remove_file_knows: "keeps (knows S T) (change (remove_file i))"
proof (rule keeps_change)
  fix db assume k: "knows S T db"
  let ?db = "remove_file i db"
  have rts: "folder_runtime ?db = folder_runtime db" by (simp add: remove_file_def)
  then have "sync_inv ?db" using k file_ok_cong [OF rts] files_unique_filter
    by (auto simp: knows_def sync_inv_def remove_file_def intro: distinct_map_filter)
  then show "knows S T ?db" using k rts by (auto simp: knows_def remove_file_def)
qed

lemma frame_knows:
  assumes "knows S T db" "sd_files db' = sd_files db" "sd_folders db' = sd_folders db" "sd_agents db' = sd_agents db" "sd_next_id db' = sd_next_id db"
  shows "knows S T db'"
proof -
  have rts: "folder_runtime db' = folder_runtime db" using assms by (simp add: folder_runtime_def fun_eq_iff split: option.split)
  show ?thesis using assms file_ok_cong [OF rts] rts by (simp add: knows_def sync_inv_def)
qed

lemma update_connection_knows: "keeps (knows S T) (change (update_connection i g))"
  by (rule keeps_change, erule frame_knows) (simp_all add: update_connection_def)

lemma activity_knows:
  "keeps (knows S T) (change (record_activity fo kind path now))"
  "keeps (knows S T) (change (record_activity_once fo kind path' detail now))"
  by (rule keeps_change, erule frame_knows; simp add: record_activity_def record_activity_once_def)+

lemma row_get_map:
  "(\<And>x. key (h x) = key x) \<Longrightarrow> row_get key k (map h t) = map_option h (row_get key k t)"
  by (induction t) (auto simp: row_get_def)

text \<open>Folders keep their Agent.\<close>

lemma update_folders_knows:
  assumes "knows S T db" and g: "\<And>f. fo_id (g f) = fo_id f \<and> fo_agent_id (g f) = fo_agent_id f"
    and "folders_unique (sd_folders (update_folders P g db))"
  shows "knows S T (update_folders P g db)"
proof -
  let ?h = "\<lambda>f. if P f then g f else f" and ?db = "update_folders P g db"
  have h: "fo_id (?h f) = fo_id f" "fo_agent_id (?h f) = fo_agent_id f" for f using g by auto
  have rts: "folder_runtime ?db = folder_runtime db"
    using h by (auto simp: folder_runtime_def fun_eq_iff update_folders_def row_get_map split: option.split)
  have ids: "map fo_id (sd_folders ?db) = map fo_id (sd_folders db)" using h by (simp add: update_folders_def)
  then have "fo_id ` set (sd_folders ?db) = fo_id ` set (sd_folders db)" by (metis list.set_map)
  moreover have "\<forall>i \<in> fo_id ` set (sd_folders db). i < sd_next_id db" using assms(1) by (simp add: knows_def sync_inv_def)
  moreover have "sd_next_id ?db = sd_next_id db" by (simp add: update_folders_def)
  ultimately have "\<forall>fo \<in> set (sd_folders ?db). fo_id fo < sd_next_id ?db" by (metis imageI)
  then have "sync_inv ?db" using assms(1,3) ids file_ok_cong [OF rts]
    by (simp add: knows_def sync_inv_def) (simp add: update_folders_def)
  then show ?thesis using assms(1) rts by (simp add: knows_def) (simp add: update_folders_def)
qed

lemma unique_names_kept:
  assumes "\<And>f. fo_connection_id (g f) = fo_connection_id f \<and> fo_agent_id (g f) = fo_agent_id f \<and> fo_folder_name (g f) = fo_folder_name f"
  shows "folders_unique (sd_folders (update_folders P g db)) = folders_unique (sd_folders db)"
proof -
  let ?h = "\<lambda>f. if P f then g f else f"
  have h: "fo_connection_id (?h f) = fo_connection_id f" "fo_agent_id (?h f) = fo_agent_id f" "fo_folder_name (?h f) = fo_folder_name f" for f
    using assms by auto
  show ?thesis by (simp add: folders_unique_def update_folders_def comp_def h del: if_split)
qed

lemma folder_fields_knows:
  assumes "\<And>f. fo_id (g f) = fo_id f \<and> fo_connection_id (g f) = fo_connection_id f \<and> fo_agent_id (g f) = fo_agent_id f \<and>
    fo_folder_name (g f) = fo_folder_name f"
  shows "keeps (knows S T) (change (update_folders P g))"
proof (rule keeps_change)
  fix db assume k: "knows S T db"
  have "folders_unique (sd_folders (update_folders P g db)) = folders_unique (sd_folders db)" using assms by (intro unique_names_kept) simp
  then show "knows S T (update_folders P g db)" using k assms by (intro update_folders_knows) (simp_all add: knows_def sync_inv_def)
qed


lemmas keeps_writes [keeps_intros] = remove_file_knows activity_knows

lemma row_writes_knows [keeps_intros]:
  "keeps (knows S T) (transact (restore_from_agent i))" "keeps (knows S T) (transact (restore_folder_files i))"
  "keeps (knows S T) (transact (adopt_item i item))" "keeps (knows S T) (transact (clear_pending i))"
  "keeps (knows S T) (transact (release_file i retry_at))"
  "keeps (knows S T) (transact (mark_remote_change i PendREUPLOAD at_time note))"
  unfolding restore_from_agent_def restore_folder_files_def adopt_item_def clear_pending_def release_file_def mark_remote_change_def
  by (rule update_file_knows; simp add: same_place_def restore_values_def)+

lemma folder_writes_knows [keeps_intros]:
  "keeps (knows S T) (change (touch_folder i now))" "keeps (knows S T) (change (forget_folder_item i))"
  "keeps (knows S T) (change (record_folder i item url path))" "keeps (knows S T) (change (retire_folders is))"
  unfolding touch_folder_def forget_folder_item_def record_folder_def retire_folders_def
  by (rule folder_fields_knows; simp)+

lemma connection_writes_knows [keeps_intros]:
  "keeps (knows S T) (change (save_cursor i cursor))" "keeps (knows S T) (change (postpone i t))"
  unfolding save_cursor_def postpone_def by (rule update_connection_knows)+

lemma download_knows:
  assumes "(i, fid, path) \<in> S" "(fid, r) \<in> T" "writable r path"
  shows "keeps (knows S T) (transact (mark_remote_change i PendDOWNLOAD retry_at note))"
    and "keeps (knows S T) (transact (requeue_download i))"
proof -
  have w: "\<exists>r. folder_runtime db (sf_folder_id f) = Some r \<and> writable r (sf_path f)"
    if "knows S T db" "f \<in> set (sd_files db)" "sf_id f = i" for db f
    using that assms by (fastforce simp: knows_def)
  show "keeps (knows S T) (transact (mark_remote_change i PendDOWNLOAD retry_at note))"
    unfolding mark_remote_change_def
    by (rule keeps_transact, rule update_files_knows, assumption, assumption) (use w in \<open>auto simp: same_place_def\<close>)
  show "keeps (knows S T) (transact (requeue_download i))"
    unfolding requeue_download_def update_file_def
    by (rule keeps_transact, rule update_files_knows, assumption, assumption) (use w in \<open>auto simp: same_place_def\<close>)
qed

lemma upserts_knows:
  assumes "(fid, r) \<in> T" "syncable r path"
  shows "keeps (knows S T) (transact (start_upload fid path sha n now))" "keeps (knows S T) (transact (record_synced fid path item sha n now))"
  unfolding start_upload_def record_synced_def
  by (rule upsert_knows [OF _ assms]; simp add: same_place_def)+

lemma claim_files_knows [keeps_intros]: "keeps (knows S T) (transact (claim_files fid now t))"
proof (rule keeps_transact)
  fix db db' x assume k: "knows S T db" and "claim_files fid now t db = Inr (db', x)"
  then have "update_files (claimable_file fid now) (claimed_file t) db = Inr (db', ())" by (auto simp: claim_files_def bind_result_Inr)
  then show "knows S T db'" by (rule update_files_knows [OF k]) (simp add: same_place_def claimed_file_def)
qed

lemma rename_folder_knows [keeps_intros]: "keeps (knows S T) (transact (rename_folder i name))"
  by (rule keeps_transact) (auto simp: rename_folder_def Let_def split: if_splits intro: update_folders_knows)

lemma find_append_Some: "find P xs = Some x \<Longrightarrow> find P (xs @ ys) = Some x"
  by (induction xs) (auto split: if_splits)

lemma reserve_folder_knows [keeps_intros]: "keeps (knows S T) (transact (reserve_folder c aid name))"
proof (rule keeps_transact)
  fix db db' x assume k: "knows S T db" and r: "reserve_folder c aid name db = Inr (db', x)"
  show "knows S T db'"
  proof (cases "db' = db")
    case False
    define f where "f = new_sync_folder (sd_next_id db) c aid name"
    have f: "fo_id f = sd_next_id db" "folders_unique (sd_folders db @ [f])"
      "db' = db\<lparr>sd_folders := sd_folders db @ [f], sd_next_id := sd_next_id db + 1\<rparr>"
      using r False by (auto simp: reserve_folder_def Let_def row_add_def f_def new_sync_folder_def split: if_splits)
    have old: "folder_runtime db' fid = Some r" if "folder_runtime db fid = Some r" for fid r
      using that f(3) by (auto simp: folder_runtime_def row_get_def find_append_Some split: option.splits)
    then have "file_ok db' g" if "file_ok db g" for g using that by (auto simp: file_ok_def)
    then have "sync_inv db'" using k f by (auto simp: knows_def sync_inv_def less_Suc_eq)
    then show ?thesis using k old f(3) by (auto simp: knows_def less_Suc_eq)
  qed (use k in simp)
qed

text \<open>The files of a removed folder are gone, so no other file loses its folder.\<close>

lemma remove_folder_knows [keeps_intros]: "keeps (knows {} {}) (change (remove_folder i))"
proof (rule keeps_change)
  fix db assume k: "knows {} {} db"
  let ?db = "remove_folder i db"
  have other: "folder_runtime ?db fid = folder_runtime db fid" if "fid \<noteq> i" for fid
  proof -
    have "row_get fo_id fid (filter (\<lambda>f. fo_id f \<noteq> i) t) = row_get fo_id fid t" for t :: "sync_agent_folder list"
      using that by (induction t) (auto simp: row_get_def)
    then show ?thesis by (simp add: folder_runtime_def remove_folder_def split: option.split)
  qed
  have "sync_inv db" using k by (rule knows_inv)
  then have "\<forall>f \<in> set (sd_files ?db). file_ok ?db f" using other by (auto simp: sync_inv_def file_ok_def remove_folder_def)
  moreover have "folders_unique (sd_folders ?db)" using \<open>sync_inv db\<close>
    by (auto simp: sync_inv_def folders_unique_def remove_folder_def intro: distinct_map_filter)
  moreover have "files_unique (sd_files ?db)" using \<open>sync_inv db\<close> files_unique_filter by (simp add: sync_inv_def remove_folder_def)
  ultimately show "knows {} {} ?db" using \<open>sync_inv db\<close>
    by (auto simp: knows_def sync_inv_def remove_folder_def intro: distinct_map_filter)
qed


end
