(* ===== verification/File_Sync_Properties.thy ===== *)
theory File_Sync_Properties
  imports File_Sync_Guarantees
begin

text \<open>
  Every operation of the service and of the engine keeps the invariant of file synchronization, and
  the properties that follow.
\<close>

section \<open>The service\<close>

lemma keeps_plugin [keeps_intros]: "keeps J (require_plugin env key)"
  by (simp add: require_plugin_def keeps_throw keeps_ret split: option.split)

lemma keeps_authenticate [keeps_intros]: "keeps J (authenticate env aid key)"
  unfolding authenticate_def
  by (rule keeps_andthen [OF keeps_query]) (simp add: keeps_throw keeps_ret split: option.split)

lemma keeps_target [keeps_intros]: "keeps (knows S T) (sync_target env now aid key)"
  unfolding sync_target_def by (intro keeps_cases keeps_authenticate keeps_intros)

lemma row_get_Some: "row_get key k t = Some r \<Longrightarrow> r \<in> set t \<and> key r = k"
  by (auto simp: row_get_def dest: find_SomeD)

lemma row_get_member: "distinct (map key t) \<Longrightarrow> r \<in> set t \<Longrightarrow> row_get key (key r) t = Some r"
  by (induction t) (auto simp: row_get_def)

lemma authenticate_Inr:
  assumes "authenticate env aid key w = Some (w', Inr a)"
  shows "w' = w \<and> row_get agent_id aid (sd_agents (sw_db w)) = Some a \<and> se_pod_key env a = Some key \<and> agent_deleted_at a = None"
  using assms
  by (auto simp: authenticate_def andthen_def query_def throw_def ret_def split: option.splits if_splits)

lemma sync_target_Inr:
  assumes "sync_target env now aid key w = Some (w', Inr t)"
  shows "row_get agent_id aid (sd_agents (sw_db w)) = Some (ft_agent t) \<and> se_pod_key env (ft_agent t) = Some key \<and>
    agent_deleted_at (ft_agent t) = None \<and> ft_folder t \<in> set (sd_folders (sw_db w)) \<and> fo_agent_id (ft_folder t) = agent_id (ft_agent t) \<and>
    fo_status (ft_folder t) = FolderACTIVE \<and> w' = w\<lparr>sw_db := touch_folder (fo_id (ft_folder t)) now (sw_db w)\<rparr>"
proof -
  obtain a where a: "authenticate env aid key w = Some (w, Inr a)"
    using assms authenticate_Inr by (fastforce simp: sync_target_def andthen_Some)
  show ?thesis
    using assms authenticate_Inr [OF a] a
    by (auto simp: sync_target_def andthen_def query_def change_def ret_def throw_def require_plugin_def agent_sync_target_def
        split: option.splits if_splits prod.splits dest!: find_SomeD)
qed

definition target_place :: "'d file_sync_target \<Rightarrow> uuid \<times> string" where
  "target_place t = (fo_id (ft_folder t), agent_type (ft_agent t))"

lemma target_knows:
  assumes k: "knows S T (sw_db w)" and s: "sync_target env now aid key w = Some (w', Inr t)"
  shows "knows S (insert (target_place t) T) (sw_db w')"
proof -
  have k': "knows S T (sw_db w')" using keepsD [OF keeps_target k s] .
  have i: "sync_inv (sw_db w)" using k by (rule knows_inv)
  note t = sync_target_Inr [OF s]
  have "row_get fo_id (fo_id (ft_folder t)) (sd_folders (sw_db w)) = Some (ft_folder t)"
    using t i by (simp add: row_get_member sync_inv_def)
  then have "folder_runtime (sw_db w) (fo_id (ft_folder t)) = Some (agent_type (ft_agent t))"
    using t row_get_Some [of agent_id aid] by (auto simp: folder_runtime_def)
  then have "folder_runtime (sw_db w') (fo_id (ft_folder t)) = Some (agent_type (ft_agent t))"
    using t by (auto simp: folder_runtime_def touch_folder_def update_folders_def row_get_map split: option.splits)
  then show ?thesis using k' by (simp add: knows_def target_place_def)
qed

lemma keeps_for_target:
  assumes "\<And>t. keeps (knows S (insert (target_place t) T)) (f t)"
  shows "keeps (knows S T) (andthen (sync_target env now aid key) f)"
  by (rule keeps_learning [where P = "\<lambda>_. True" and J' = "\<lambda>t. knows S (insert (target_place t) T)"])
    (use assms keeps_target target_knows in \<open>auto intro: knows_mono\<close>)

lemma require_allowed_Inr:
  assumes "require_allowed env t path w = Some (w', Inr u)"
  shows "w' = w \<and> category (agent_type (ft_agent t)) path \<noteq> SyncNEVER"
  using assms
  by (auto simp: require_allowed_def andthen_Some lift_def throw_def ret_def agent_runtime_def category_def split: sum.splits if_splits)

section \<open>What the pod reports\<close>

lemma keeps_skipped [keeps_intros]: "keeps (knows S T) (skipped t e seen now)"
  unfolding skipped_def by (intro keeps_cases keeps_intros)

lemma skipped_False: "skipped t e seen now w = Some (w', Inr False) \<Longrightarrow> w' = w \<and> name_problem (en_path e) = None"
  by (auto simp: skipped_def skip_kind_def andthen_def change_def ret_def split: option.splits if_splits)

lemma keeps_per_file [keeps_intros]: "keeps J m \<Longrightarrow> keeps J (per_file m)"
  unfolding per_file_def
  by (rule keeps_catch) (auto simp: keeps_ret keeps_throw split: sync_error.splits provider_error.splits)

lemma keeps_conflict_won [keeps_intros]: "keeps (knows S T) (conflict_won t known now)"
  unfolding conflict_won_def by (intro keeps_cases keeps_intros)

lemma keeps_sync_one_entry:
  assumes "target_place t \<in> T" "syncable (agent_type (ft_agent t)) (en_path e)"
  shows "keeps (knows S T) (sync_one_entry t e known now)"
  using assms upserts_knows [where r = "agent_type (ft_agent t)" and fid = "fo_id (ft_folder t)"]
  unfolding sync_one_entry_def target_place_def by (intro keeps_cases keeps_intros) auto

lemma keeps_sync_entries:
  assumes "target_place t \<in> T" "\<forall>e \<in> set es. category (agent_type (ft_agent t)) (en_path e) \<noteq> SyncNEVER"
  shows "keeps (knows S T) (sync_entries t known now es seen)"
  using assms(2)
proof (induction es arbitrary: seen)
  case (Cons e es)
  show ?case unfolding sync_entries.simps
  proof (rule keeps_learning [where P = "\<lambda>skip. skip \<or> name_problem (en_path e) = None" and J' = "\<lambda>_. knows S T"])
    fix w w' skip assume "knows S T (sw_db w)" "skipped t e seen now w = Some (w', Inr skip)"
    then show "(skip \<or> name_problem (en_path e) = None) \<and> knows S T (sw_db w')"
      using skipped_False [of t e seen now w w'] keepsD [OF keeps_skipped] by (cases skip) auto
  next
    fix skip assume "skip \<or> name_problem (en_path e) = None"
    then show "keeps (knows S T) (andthen (if skip then ret None else per_file (sync_one_entry t e (map_of known (lower (en_path e))) now))
        (\<lambda>upload. andthen (sync_entries t known now es (lower (en_path e) # seen))
          (\<lambda>uploads. ret (case upload of None \<Rightarrow> uploads | Some u \<Rightarrow> u # uploads))))"
      using Cons assms(1) by (intro keeps_if keeps_intros keeps_sync_one_entry) (auto simp: syncable_def)
  qed (auto intro: keeps_skipped)
qed (simp add: keeps_ret)

lemma keeps_delete_missing [keeps_intros]: "keeps (knows S T) (delete_missing t row now)"
  unfolding delete_missing_def by (intro keeps_cases keeps_intros)

lemma keeps_require_allowed [keeps_intros]: "keeps J (require_allowed env t path)"
  unfolding require_allowed_def by (intro keeps_if keeps_intros)

lemma each_allowed:
  "each es (\<lambda>e. require_allowed env t (en_path e)) w = Some (w', Inr u) \<Longrightarrow>
    w' = w \<and> (\<forall>e \<in> set es. category (agent_type (ft_agent t)) (en_path e) \<noteq> SyncNEVER)"
proof (induction es arbitrary: w)
  case (Cons e es)
  then obtain w1 v where "require_allowed env t (en_path e) w = Some (w1, Inr v)"
    "each es (\<lambda>e. require_allowed env t (en_path e)) w1 = Some (w', Inr u)" by (auto simp: andthen_Some)
  then show ?case using require_allowed_Inr Cons.IH by fastforce
qed (simp add: ret_def)

lemma keeps_report_changes: "keeps (knows {} {}) (report_changes env now aid key complete entries)"
  unfolding report_changes_def
proof (rule keeps_for_target, rule keeps_learning [where J' = "\<lambda>_. knows {} {target_place t}" for t])
  fix t :: "'a file_sync_target" and w w' u
  assume "knows {} {target_place t} (sw_db w)" "each entries (\<lambda>e. require_allowed env t (en_path e)) w = Some (w', Inr u)"
  then show "(\<forall>e \<in> set entries. category (agent_type (ft_agent t)) (en_path e) \<noteq> SyncNEVER) \<and> knows {} {target_place t} (sw_db w')"
    using each_allowed by metis
qed (auto simp: Let_def intro!: keeps_intros keeps_sync_entries keeps_pair)


section \<open>Uploads and work\<close>

text \<open>What is known of a row of the table.\<close>

definition row_fact :: "string \<Rightarrow> sync_file \<Rightarrow> bool" where
  "row_fact r row \<longleftrightarrow> syncable r (sf_path row) \<and> (sf_pending row = Some PendDOWNLOAD \<longrightarrow> writable r (sf_path row))"

definition row_place :: "sync_file \<Rightarrow> uuid \<times> uuid \<times> string" where
  "row_place row = (sf_id row, sf_folder_id row, sf_path row)"

lemma place_knows:
  assumes "knows S T db" "row \<in> set (sd_files db)"
  shows "knows (insert (row_place row) S) T db"
proof -
  have i: "sync_inv db" using assms(1) by (rule knows_inv)
  show ?thesis using assms same_file [OF i] i by (auto simp: knows_def row_place_def sync_inv_def)
qed

lemma file_knows:
  assumes "knows S T db" "(sf_folder_id row, r) \<in> T" "row \<in> set (sd_files db)"
  shows "row_fact r row" and "knows (insert (row_place row) S) T db"
proof -
  show "row_fact r row" using assms by (fastforce simp: knows_def sync_inv_def file_ok_def row_fact_def)
  show "knows (insert (row_place row) S) T db" using assms(1,3) by (rule place_knows)
qed

lemma keeps_found:
  assumes "(fid, r) \<in> T" "keeps (knows S T) (f None)"
    and "\<And>row. sf_folder_id row = fid \<Longrightarrow> lower (sf_path row) = lower path \<Longrightarrow> row_fact r row \<Longrightarrow>
      keeps (knows (insert (row_place row) S) T) (f (Some row))"
  shows "keeps (knows S T) (andthen (query (file_at fid path)) f)"
proof (rule keeps_read [where
      P = "\<lambda>found. \<forall>row. found = Some row \<longrightarrow> sf_folder_id row = fid \<and> lower (sf_path row) = lower path \<and> row_fact r row" and
      J' = "\<lambda>found. case found of None \<Rightarrow> knows S T | Some row \<Rightarrow> knows (insert (row_place row) S) T"])
  fix db assume "knows S T db"
  then show "(\<forall>row. file_at fid path db = Some row \<longrightarrow> sf_folder_id row = fid \<and> lower (sf_path row) = lower path \<and> row_fact r row) \<and>
      (case file_at fid path db of None \<Rightarrow> knows S T | Some row \<Rightarrow> knows (insert (row_place row) S) T) db"
    using file_knows assms(1) file_at_Some by (fastforce split: option.split)
next
  fix found assume "\<forall>row. found = Some row \<longrightarrow> sf_folder_id row = fid \<and> lower (sf_path row) = lower path \<and> row_fact r row"
  then show "keeps (case found of None \<Rightarrow> knows S T | Some row \<Rightarrow> knows (insert (row_place row) S) T) (f found)"
    using assms(2,3) by (auto split: option.split)
qed (auto intro: knows_mono split: option.splits)

lemma keeps_allowed:
  assumes "category (agent_type (ft_agent t)) path \<noteq> SyncNEVER \<Longrightarrow> keeps (knows S T) m"
  shows "keeps (knows S T) (andthen (require_allowed env t path) (\<lambda>_. m))"
proof (rule keeps_learning [where P = "\<lambda>_. category (agent_type (ft_agent t)) path \<noteq> SyncNEVER" and J' = "\<lambda>_. knows S T"])
  fix w w' x assume "knows S T (sw_db w)" "require_allowed env t path w = Some (w', Inr x)"
  then show "category (agent_type (ft_agent t)) path \<noteq> SyncNEVER \<and> knows S T (sw_db w')" using require_allowed_Inr by metis
qed (use assms keeps_require_allowed in auto)

lemma keeps_provider_clauses [keeps_intros]:
  "keeps J m \<Longrightarrow> keeps J (catch m (\<lambda>e. if e = e' then Some (throw e'') else provider_clauses e))"
  by (rule keeps_catch)
    (auto simp: provider_clauses_def keeps_throw split: if_splits sync_error.splits provider_error.splits)

lemma found_syncable:
  "category r path \<noteq> SyncNEVER \<Longrightarrow> lower (sf_path row) = lower path \<Longrightarrow> row_fact r row \<Longrightarrow> syncable r path"
  using name_problem_cases by (metis row_fact_def syncable_def)

lemma keeps_complete_upload: "keeps (knows {} {}) (complete_upload env now aid key path)"
  unfolding complete_upload_def
  apply (rule keeps_for_target, rule keeps_allowed, rule keeps_found)
    apply (simp add: target_place_def)
   apply (simp add: keeps_throw)
  subgoal for t row
    using upserts_knows(2) [OF _ found_syncable, of "fo_id (ft_folder t)" "agent_type (ft_agent t)" "{target_place t}" path row]
    by (cases "sf_upload_started_at row") (auto simp: keeps_throw target_place_def intro!: keeps_cases keeps_intros)
  done

lemma keeps_hand_out:
  assumes "target_place t \<in> T" "row_fact (agent_type (ft_agent t)) row"
  shows "keeps (knows S T) (hand_out t now row)"
  using assms upserts_knows(1) [where r = "agent_type (ft_agent t)" and fid = "fo_id (ft_folder t)"]
  unfolding hand_out_def target_place_def row_fact_def by (intro keeps_cases keeps_intros) auto

lemma claim_files_rows:
  assumes "claim_files fid now til db = Inr (db', rows)" "knows S T db" "(fid, r) \<in> T"
  shows "\<forall>row \<in> set rows. row_fact r row"
proof
  fix row assume "row \<in> set rows"
  then obtain f where f: "row = claimed_file til f" "f \<in> set (sd_files db)" "claimable_file fid now f"
    using assms(1) by (auto simp: claim_files_def bind_result_Inr)
  then have "row_fact r f" using file_knows(1) assms(2,3) by (auto simp: claimable_file_def)
  then show "row_fact r row" by (simp add: f(1) claimed_file_def row_fact_def)
qed

lemma keeps_claim_operations: "keeps (knows {} {}) (claim_operations env now aid key)"
  unfolding claim_operations_def
proof (rule keeps_for_target, rule keeps_learning [where J' = "\<lambda>_. knows {} {target_place t}" for t])
  fix t :: "'a file_sync_target" and w w' rows
  assume k: "knows {} {target_place t} (sw_db w)"
    and c: "transact (claim_files (fo_id (ft_folder t)) now (now + OPERATION_LEASE)) w = Some (w', Inr rows)"
  then have "\<exists>db'. claim_files (fo_id (ft_folder t)) now (now + OPERATION_LEASE) (sw_db w) = Inr (db', rows)"
    by (auto simp: transact_def split: sum.splits)
  then show "(\<forall>row \<in> set rows. row_fact (agent_type (ft_agent t)) row) \<and> knows {} {target_place t} (sw_db w')"
    using claim_files_rows k keepsD [OF claim_files_knows k c] by (fastforce simp: target_place_def)
next
  fix t :: "'a file_sync_target" and rows assume r: "\<forall>row \<in> set rows. row_fact (agent_type (ft_agent t)) row"
  show "keeps (knows {} {target_place t}) (catch (gather rows (hand_out t now)) (\<lambda>e.
      case e of
        FromProvider p \<Rightarrow>
          Some (andthen (each rows (\<lambda>row. transact (release_file (sf_id row) None))) (\<lambda>_.
            throw (case p of ProviderThrottled wait \<Rightarrow> busy_after wait | _ \<Rightarrow> FileSyncProviderFailed p)))
      | _ \<Rightarrow> None))"
    using r by (intro keeps_catch keeps_intros keeps_hand_out) (auto split: sync_error.splits intro!: keeps_intros)
qed (auto intro: keeps_intros)

lemma keeps_finish_download:
  assumes "target_place t \<in> T" "row_place row \<in> S" "sf_folder_id row = fo_id (ft_folder t)" "row_fact (agent_type (ft_agent t)) row"
  shows "keeps (knows S T) (finish_download t row result now)"
proof (cases "sf_pending row = Some PendDOWNLOAD")
  case True
  have k: "keeps (knows S T) (transact (requeue_download (sf_id row)))"
    "\<And>item sha n. keeps (knows S T) (transact (record_synced (fo_id (ft_folder t)) (sf_path row) item sha n now))"
    using assms True download_knows(2) upserts_knows(2) by (auto simp: target_place_def row_place_def row_fact_def)
  have c: "keeps (knows S T) (catch (andthen (remotely m) (\<lambda>item. ret (Some item)))
           (\<lambda>e. case on_missing (andthen (transact (clear_pending (sf_id row))) (\<lambda>_. ret None)) e of
              Some h \<Rightarrow> Some h | None \<Rightarrow> provider_clauses e))" for m :: "('a, remote_item) remote"
    by (rule keeps_catch) (auto simp: on_missing_def provider_clauses_def keeps_throw
      split: if_splits sync_error.splits provider_error.splits intro!: keeps_intros)
  show ?thesis unfolding finish_download_def by (intro keeps_cases keeps_intros k c)
qed (simp add: finish_download_def keeps_throw)

lemma keeps_report_result: "keeps (knows {} {}) (report_result env now aid key result)"
  unfolding report_result_def
  apply (rule keeps_for_target, rule keeps_allowed, rule keeps_found)
    apply (simp add: target_place_def)
   apply (simp add: keeps_throw)
  subgoal for t row
    using keeps_finish_download [of t "{target_place t}" row "{row_place row}"]
    by (auto simp: keeps_throw Let_def intro!: keeps_intros split: operation_outcome.split)
  done

text \<open>Disconnecting takes folders away with all their files.\<close>

lemma keeps_remove_agent_folders: "keeps (knows {} {}) (remove_agent_folders acquired c pl token)"
  unfolding remove_agent_folders_def
  by (intro keeps_cases keeps_intros keeps_catch)
    (auto split: option.splits sync_error.splits intro!: keeps_catch keeps_intros)

section \<open>Changes on the drive\<close>

text \<open>A place of the context: the folder and the runtime of its Agent.\<close>

definition place_known :: "(uuid \<times> string) set \<Rightarrow> change_target \<Rightarrow> bool" where
  "place_known T t \<longleftrightarrow> (fo_id (ct_folder t), ct_runtime t) \<in> T"

definition context_known :: "(uuid \<times> string) set \<Rightarrow> 'd changes_context \<Rightarrow> bool" where
  "context_known T ctx \<longleftrightarrow> (\<forall>(k, fo, r) \<in> set (ch_by_name ctx). (fo_id fo, r) \<in> T)"

lemma locate_known: "context_known T ctx \<Longrightarrow> locate ctx path = Some t \<Longrightarrow> place_known T t"
  by (fastforce simp: locate_def context_known_def place_known_def Let_def dest: map_of_SomeD split: option.splits if_splits)

lemma keeps_content_edit:
  assumes "place_known T t" "row_place row \<in> S" "sf_folder_id row = fo_id (ct_folder t)"
  shows "keeps (knows S T) (content_edit now t row item)"
proof -
  have d: "keeps (knows S T) (transact (mark_remote_change (sf_id row) PendDOWNLOAD at_time kind))"
    if "classify (ct_runtime t) (sf_path row) = Inr c" "c \<in> {SyncWORK, SyncMEMORY}" for c at_time kind
    by (rule download_knows(1) [of _ "sf_folder_id row" "sf_path row" _ "ct_runtime t"])
      (use assms that in \<open>auto simp: place_known_def row_place_def writable_def category_def\<close>)
  have l: "keeps (knows S T) (andthen (lift (classify (ct_runtime t) (sf_path row))) f)"
    if "\<And>c. classify (ct_runtime t) (sf_path row) = Inr c \<Longrightarrow> keeps (knows S T) (f c)" for f :: "sync_category \<Rightarrow> ('a, unit) act"
    using that by (cases "classify (ct_runtime t) (sf_path row)") (simp_all add: lift_def keeps_throw andthen_def throw_def ret_def keeps_in_def)
  show ?thesis unfolding content_edit_def Let_def by (intro keeps_if l keeps_intros) (use d in blast)
qed

lemma keeps_item_id [keeps_intros]: "keeps J m \<Longrightarrow> keeps J (item_id_of m)"
  unfolding item_id_of_def by (intro keeps_intros)

lemma keeps_folder_at [keeps_intros]: "keeps J (folder_at ctx parent ss)"
proof (induction ss arbitrary: parent)
  case (Cons s ss)
  then show ?case by (auto intro!: keeps_intros)
qed (simp add: keeps_ret)

lemma keeps_move_back [keeps_intros]: "keeps (knows S T) (move_back now ctx fo row item)"
  unfolding move_back_def Let_def by (intro keeps_cases keeps_intros)

lemma keeps_move_under [keeps_intros]: "keeps J (move_under_free_name ctx i name parent ns)"
  by (induction ns) (auto intro!: keeps_intros)

lemma keeps_park [keeps_intros]: "keeps (knows S T) (park now ctx t item)"
  unfolding park_def not_synced_folder_def by (auto intro!: keeps_intros split: option.split)

lemma keeps_tracked_change:
  assumes "\<And>t. target = Some t \<Longrightarrow> place_known T t" "row_place row \<in> S" "sf_folder_id row = fo_id fo"
  shows "keeps (knows S T) (tracked_change now ctx item target row fo)"
  unfolding tracked_change_def Let_def
  by (intro keeps_cases keeps_intros keeps_content_edit) (use assms in \<open>auto split: option.splits if_splits\<close>)

lemma keeps_untracked_change:
  assumes "place_known T t"
  shows "keeps (knows S T) (untracked_change now ctx item t)"
  unfolding untracked_change_def
  apply (rule keeps_found [OF assms [unfolded place_known_def]])
   apply (simp add: keeps_park)
  subgoal for row
    using keeps_content_edit [OF assms, of "adopted row (ri_id item)" "insert (row_place row) S"]
    by (auto simp: Let_def row_place_def adopted_def intro!: keeps_intros)
  done

lemma map_filter_member: "y \<in> set (List.map_filter f xs) \<Longrightarrow> \<exists>x \<in> set xs. f x = Some y"
  by (induction xs) (auto simp: List.map_filter_simps split: option.splits)

lemma file_with_folder_Some: "file_with_folder db cid f = Some (row, fo) \<Longrightarrow> row = f \<and> fo \<in> set (sd_folders db) \<and> fo_id fo = sf_folder_id row"
  by (auto simp: file_with_folder_def dest: row_get_Some split: option.splits if_splits)

lemma file_by_item_Some:
  assumes "file_by_item_in_connection cid item db = Some (row, fo)"
  shows "row \<in> set (sd_files db) \<and> fo_id fo = sf_folder_id row"
proof -
  have "(row, fo) \<in> set (List.map_filter (file_with_folder db cid) (row_where (\<lambda>f. sf_item_id f = Some item) (sd_files db)))"
    using assms by (auto simp: file_by_item_in_connection_def split: list.splits)
  then show ?thesis by (auto dest!: map_filter_member file_with_folder_Some)
qed

lemma keeps_tracked:
  assumes "keeps (knows S T) (f None)"
    and "\<And>row fo. fo_id fo = sf_folder_id row \<Longrightarrow> keeps (knows (insert (row_place row) S) T) (f (Some (row, fo)))"
  shows "keeps (knows S T) (andthen (query (file_by_item_in_connection cid item)) f)"
proof (rule keeps_read [where
      P = "\<lambda>found. \<forall>row fo. found = Some (row, fo) \<longrightarrow> fo_id fo = sf_folder_id row" and
      J' = "\<lambda>found. case found of None \<Rightarrow> knows S T | Some (row, fo) \<Rightarrow> knows (insert (row_place row) S) T"])
  fix db assume "knows S T db"
  then show "(\<forall>row fo. file_by_item_in_connection cid item db = Some (row, fo) \<longrightarrow> fo_id fo = sf_folder_id row) \<and>
      (case file_by_item_in_connection cid item db of None \<Rightarrow> knows S T | Some (row, fo) \<Rightarrow> knows (insert (row_place row) S) T) db"
    using place_knows file_by_item_Some by (fastforce split: option.split)
qed (use assms in \<open>auto intro: knows_mono split: option.splits\<close>)

lemma keeps_file_change:
  assumes "context_known T ctx"
  shows "keeps (knows S T) (file_change now ctx item)"
  unfolding file_change_def Let_def
  by (rule keeps_tracked)
    (auto intro!: keeps_intros keeps_untracked_change keeps_tracked_change dest: locate_known [OF assms] simp: row_place_def split: option.split)

lemma keeps_rebuild_folder [keeps_intros]: "keeps (knows S T) (rebuild_folder now fo)"
  unfolding rebuild_folder_def by (intro keeps_intros)

lemma keeps_folder_change:
  assumes "\<And>i. keeps (knows S T) (handler i)"
  shows "keeps (knows S T) (folder_change handler now ctx item)"
  unfolding folder_change_def subfolder_change_def by (intro keeps_cases keeps_intros assms)

lemma keeps_handle_item:
  assumes "context_known T ctx"
  shows "keeps (knows S T) (handle_item depth now ctx item)"
proof (induction depth arbitrary: item)
  case (Suc depth)
  show ?case unfolding handle_item.simps
    by (intro keeps_cases keeps_intros keeps_folder_change keeps_file_change Suc assms)
qed (simp add: keeps_throw)

lemma keeps_remote_change: "context_known T ctx \<Longrightarrow> keeps (knows S T) (remote_change depth now ctx item)"
  unfolding remote_change_def by (intro keeps_if keeps_ret keeps_handle_item)


section \<open>The feed, the folders and the pass\<close>

lemma keeps_follow_page: "context_known T ctx \<Longrightarrow> keeps (knows S T) (follow_page depth now ctx cursor)"
  unfolding follow_page_def by (intro keeps_intros keeps_remote_change)

lemma follow_keeps:
  "follow depth now ctx cursor w = Some y \<Longrightarrow> context_known T ctx \<longrightarrow> knows S T (sw_db w) \<longrightarrow> knows S T (sw_db (fst y))"
proof (rule follow.raw_induct [of "\<lambda>depth now ctx cursor w y. context_known T ctx \<longrightarrow> knows S T (sw_db w) \<longrightarrow> knows S T (sw_db (fst y))"])
  fix rec d n and c :: "'a changes_context" and cu w y
  assume IH: "\<And>d n c cu w y. rec d n c cu w = Some y \<Longrightarrow> context_known T c \<longrightarrow> knows S T (sw_db w) \<longrightarrow> knows S T (sw_db (fst y))"
    and step: "Option.bind (follow_page d n c cu w) (\<lambda>(w1, r).
      case r of Inl e \<Rightarrow> Some (w1, Inl e)
      | Inr next_page \<Rightarrow> if snd next_page then rec d n c (fst next_page) w1 else Some (w1, Inr ())) = Some y"
  show "context_known T c \<longrightarrow> knows S T (sw_db w) \<longrightarrow> knows S T (sw_db (fst y))"
  proof (intro impI)
    assume c: "context_known T c" and k: "knows S T (sw_db w)"
    obtain w1 r where p: "follow_page d n c cu w = Some (w1, r)" using step by (cases "follow_page d n c cu w") auto
    have "knows S T (sw_db w1)" using keepsD [OF keeps_follow_page [OF c] k p] .
    then show "knows S T (sw_db (fst y))" using step p IH c by (auto split: sum.splits if_splits)
  qed
qed

lemma relist_pages_keeps:
  "relist_pages depth now ctx cursor seen w = Some y \<Longrightarrow> context_known T ctx \<longrightarrow> knows S T (sw_db w) \<longrightarrow> knows S T (sw_db (fst y))"
proof (rule relist_pages.raw_induct [of "\<lambda>depth now ctx cursor seen w y. context_known T ctx \<longrightarrow> knows S T (sw_db w) \<longrightarrow> knows S T (sw_db (fst y))"])
  fix rec d n and c :: "'a changes_context" and cu seen w y
  assume IH: "\<And>d n c cu seen w y. rec d n c cu seen w = Some y \<Longrightarrow> context_known T c \<longrightarrow> knows S T (sw_db w) \<longrightarrow> knows S T (sw_db (fst y))"
    and step: "Option.bind (relist_page d n c cu w) (\<lambda>(w1, r).
      case r of Inl e \<Rightarrow> Some (w1, Inl e)
      | Inr page \<Rightarrow> if rc_more page then rec d n c (Some (rc_cursor page)) (page_seen page @ seen) w1
          else Some (w1, Inr (page_seen page @ seen, rc_cursor page))) = Some y"
  show "context_known T c \<longrightarrow> knows S T (sw_db w) \<longrightarrow> knows S T (sw_db (fst y))"
  proof (intro impI)
    assume c: "context_known T c" and k: "knows S T (sw_db w)"
    obtain w1 r where p: "relist_page d n c cu w = Some (w1, r)" using step by (cases "relist_page d n c cu w") auto
    have "keeps (knows S T) (relist_page d n c cu)" unfolding relist_page_def by (intro keeps_intros keeps_remote_change c)
    from keepsD [OF this k p] have "knows S T (sw_db w1)" .
    then show "knows S T (sw_db (fst y))" using step p IH c by (auto split: sum.splits if_splits)
  qed
qed

lemma keeps_follow: "context_known T ctx \<Longrightarrow> keeps (knows S T) (follow depth now ctx cursor)"
  using follow_keeps by (fastforce intro!: keepsI)

lemma keeps_relist:
  assumes "context_known T ctx"
  shows "keeps (knows S T) (relist depth now ctx)"
proof -
  have "keeps (knows S T) (relist_pages depth now ctx None [])" using relist_pages_keeps assms by (fastforce intro!: keepsI)
  then show ?thesis unfolding relist_def by (intro keeps_cases keeps_intros)
qed

lemma set_dict_of: "set (dict_of kvs) \<subseteq> set kvs"
proof -
  have update: "set (AList.update k v al) \<subseteq> insert (k, v) (set al)" for k v and al :: "('a \<times> 'b) list"
    by (induction al) auto
  have "set (foldl (\<lambda>d (k, v). AList.update k v d) d kvs) \<subseteq> set d \<union> set kvs" for d :: "('a \<times> 'b) list"
  proof (induction kvs arbitrary: d)
    case (Cons kv kvs)
    then show ?case using update [of "fst kv" "snd kv" d] by (cases kv) fastforce
  qed simp
  then show ?thesis unfolding dict_of_def by (metis Un_empty_left list.set(1))
qed

definition runtimes_of :: "(sync_agent_folder \<times> string) list \<Rightarrow> (uuid \<times> string) set" where
  "runtimes_of rows = (\<lambda>(fo, r). (fo_id fo, r)) ` set rows"

lemma context_known_of: "context_known (runtimes_of rows) (changes_context_of c pl root rows)"
  unfolding context_known_def changes_context_of_def runtimes_of_def active_folders_def
  by (fastforce dest!: set_dict_of [THEN subsetD])

lemma with_runtimes_Inr:
  "with_runtimes ags fs = Inr rows \<Longrightarrow> \<forall>(fo, r) \<in> set rows. fo \<in> set fs \<and> (\<exists>a. row_get agent_id (fo_agent_id fo) ags = Some a \<and> agent_type a = r)"
proof (induction fs arbitrary: rows)
  case (Cons f fs)
  then show ?case
    by (auto simp: bind_result_Inr agent_runtime_def split: option.splits if_splits)
qed simp

lemma folders_with_runtime_knows:
  assumes "folders_with_runtime cid db = Inr rows" "knows S T db"
  shows "knows S (T \<union> runtimes_of rows) db"
proof -
  have "folder_runtime db (fo_id fo) = Some r" if "(fo, r) \<in> set rows" for fo r
  proof -
    have "fo \<in> set (sd_folders db)" "map_option agent_type (row_get agent_id (fo_agent_id fo) (sd_agents db)) = Some r"
      using with_runtimes_Inr [OF assms(1) [unfolded folders_with_runtime_def]] that by (auto simp: folders_of_def)
    then show ?thesis using row_get_member [of fo_id "sd_folders db" fo] assms(2) by (simp add: folder_runtime_def knows_def sync_inv_def)
  qed
  then show ?thesis using assms(2) by (auto simp: knows_def runtimes_of_def)
qed


lemma keeps_process_changes: "keeps (knows S T) (process_changes env depth now c)"
proof -
  have rows: "keeps (knows S T) (andthen (query (folders_with_runtime (sc_id c))) (\<lambda>found. andthen (lift found) (\<lambda>rows. f rows)))"
    if f: "\<And>rows. keeps (knows S (T \<union> runtimes_of rows)) (f rows)" for f :: "_ \<Rightarrow> ('a, unit) act"
  proof (rule keeps_read [where P = "\<lambda>_. True" and J' = "\<lambda>found. case found of Inl e \<Rightarrow> knows S T | Inr rows \<Rightarrow> knows S (T \<union> runtimes_of rows)"])
    fix db assume "knows S T db"
    then show "True \<and> (case folders_with_runtime (sc_id c) db of Inl e \<Rightarrow> knows S T | Inr rows \<Rightarrow> knows S (T \<union> runtimes_of rows)) db"
      by (auto split: sum.split intro: folders_with_runtime_knows)
  next
    fix found
    show "keeps (case found of Inl e \<Rightarrow> knows S T | Inr rows \<Rightarrow> knows S (T \<union> runtimes_of rows)) (andthen (lift found) (\<lambda>rows. f rows))"
      using f by (cases found) (simp_all add: lift_def andthen_def throw_def ret_def keeps_in_def)
  qed (auto intro: knows_mono split: sum.splits)
  have run: "keeps (knows S (T \<union> runtimes_of rows)) (catch (follow depth now (changes_context_of c pl root rows) cursor) (\<lambda>e.
      if e = FromProvider RemoteResyncRequired then Some (relist depth now (changes_context_of c pl root rows)) else None))" for pl root rows cursor
    by (rule keeps_catch) (auto intro!: keeps_follow keeps_relist simp: context_known_def split: if_splits
      dest: context_known_of [unfolded context_known_def, THEN bspec])
  show ?thesis unfolding process_changes_def Let_def by (intro keeps_cases keeps_intros rows run)
qed

lemma keeps_take_free_name [keeps_intros]: "keeps (knows S T) (take_free_name i base taken)"
proof (induction i base taken rule: take_free_name.induct)
  case (1 i base taken)
  show ?case
    by (subst take_free_name.simps) (intro keeps_cases keeps_intros 1)
qed

lemma keeps_reserve [keeps_intros]: "keeps (knows S T) (reserve c aid base ns taken)"
proof (induction ns arbitrary: taken)
  case (Cons n ns)
  show ?case unfolding reserve.simps Let_def by (intro keeps_cases keeps_intros Cons)
qed (simp add: keeps_ret)

lemma keeps_create_loop [keeps_intros]: "keeps (knows S T) (create_loop k env pl root fo name base taken)"
proof (induction k arbitrary: name taken)
  case (Suc k)
  show ?case unfolding create_loop.simps rename_reserved_def by (intro keeps_cases keeps_intros Suc)
qed (simp add: keeps_ret)

lemma follow_name_loop_keeps:
  "follow_name_loop pl root i item base current name taken w = Some y \<Longrightarrow> knows S T (sw_db w) \<longrightarrow> knows S T (sw_db (fst y))"
proof (rule follow_name_loop.raw_induct [of "\<lambda>pl root i item base current name taken w y. knows S T (sw_db w) \<longrightarrow> knows S T (sw_db (fst y))"])
  fix rec pl root i item base current name taken and w :: "'a sync_world" and y
  assume IH: "\<And>pl root i item base current name taken w y. rec pl root i item base current name taken w = Some y \<Longrightarrow>
      knows S T (sw_db w) \<longrightarrow> knows S T (sw_db (fst y))"
    and step: "(case name of
       None \<Rightarrow> Some (w, Inr taken)
     | Some n \<Rightarrow>
         Option.bind (rename_round pl root i item current n taken w) (\<lambda>(w1, r).
           case r of
             Inl e \<Rightarrow> Some (w1, Inl e)
           | Inr again \<Rightarrow>
               if fst again then rec pl root i item base n (free_name base (snd again)) (snd again) w1
               else Some (w1, Inr (snd again)))) = Some y"
  show "knows S T (sw_db w) \<longrightarrow> knows S T (sw_db (fst y))"
  proof (cases name)
    case (Some n)
    then obtain w1 r where p: "rename_round pl root i item current n taken w = Some (w1, r)"
      using step by (cases "rename_round pl root i item current n taken w") auto
    have "keeps (knows S T) (rename_round pl root i item current n taken)"
      unfolding rename_round_def Let_def by (intro keeps_cases keeps_intros)
    from keepsD [OF this _ p] have "knows S T (sw_db w) \<longrightarrow> knows S T (sw_db w1)" by simp
    then show ?thesis using step p Some IH by (auto split: sum.splits if_splits)
  qed (use step in auto)
qed

lemma keeps_follow_name [keeps_intros]: "keeps (knows S T) (follow_name pl root fo item base taken)"
  unfolding follow_name_def Let_def
  by (intro keeps_cases keeps_intros keepsI) (use follow_name_loop_keeps in fastforce)

lemma keeps_reconcile_agent [keeps_intros]: "keeps (knows S T) (reconcile_agent env c pl root by_agent aid name taken)"
  unfolding reconcile_agent_def create_folder_for_def Let_def by (intro keeps_cases keeps_intros)

lemma keeps_reconcile_agents [keeps_intros]: "keeps (knows S T) (reconcile_agents env c pl root by_agent live taken)"
proof (induction live arbitrary: taken)
  case (Cons a live)
  show ?case by (cases a) (simp add: keeps_andthen keeps_reconcile_agent Cons)
qed (simp add: keeps_ret)

lemma keeps_delete_retired [keeps_intros]: "keeps (knows {} {}) (delete_retired pl root fo)"
  unfolding delete_retired_def delete_agent_folder_def
  by (rule keeps_catch)
    (auto intro!: keeps_cases keeps_intros split: sync_error.splits provider_error.splits)

lemma keeps_reconcile_folders: "keeps (knows {} {}) (reconcile_folders env c)"
  unfolding reconcile_folders_def Let_def by (intro keeps_cases keeps_intros)

lemma keeps_run_pass: "keeps (knows {} {}) (run_pass env depth acquired now)"
proof -
  have "keeps (knows {} {}) (sync_one_connection env depth now c)" for c
    unfolding sync_one_connection_def
    by (intro keeps_catch keeps_andthen keeps_reconcile_folders keeps_process_changes)
      (auto intro!: keeps_intros split: sync_error.splits provider_error.splits)
  then show ?thesis unfolding run_pass_def by (intro keeps_intros)
qed


section \<open>All that can happen\<close>

text \<open>
  The steps of the system: requests of pods, passes of the engine, a disconnection, whatever people do on the
  drive, and changes of the tables that other parts own: an Agent is created, renamed or soft-deleted, but its
  row stays and its runtime never changes.
\<close>

inductive sync_step :: "'d sync_env \<Rightarrow> 'd sync_world \<Rightarrow> 'd sync_world \<Rightarrow> bool" for env where
  report: "report_changes env now aid key complete entries w = Some (w', r) \<Longrightarrow> sync_step env w w'"
| complete: "complete_upload env now aid key path w = Some (w', r') \<Longrightarrow> sync_step env w w'"
| claim: "claim_operations env now aid key w = Some (w', ops) \<Longrightarrow> sync_step env w w'"
| report_result: "report_result env now aid key result w = Some (w', r') \<Longrightarrow> sync_step env w w'"
| engine_pass: "run_pass env depth acquired now w = Some (w', r') \<Longrightarrow> sync_step env w w'"
| disconnect: "remove_agent_folders acquired' c pl token w = Some (w', r') \<Longrightarrow> sync_step env w w'"
| drive_changes: "sync_step env w (w\<lparr>sw_drive := d\<rparr>)"
| connections_change: "sync_step env w (w\<lparr>sw_db := (sw_db w)\<lparr>sd_connections := cs\<rparr>\<rparr>)"
| agents_change:
    "(\<And>i a. row_get agent_id i (sd_agents (sw_db w)) = Some a \<Longrightarrow> \<exists>a'. row_get agent_id i ags = Some a' \<and> agent_type a' = agent_type a) \<Longrightarrow>
      sync_step env w (w\<lparr>sw_db := (sw_db w)\<lparr>sd_agents := ags\<rparr>\<rparr>)"

lemma agents_change_inv:
  assumes i: "sync_inv db"
    and ags: "\<And>i a. row_get agent_id i (sd_agents db) = Some a \<Longrightarrow> \<exists>a'. row_get agent_id i ags = Some a' \<and> agent_type a' = agent_type a"
  shows "sync_inv (db\<lparr>sd_agents := ags\<rparr>)"
proof -
  have "folder_runtime (db\<lparr>sd_agents := ags\<rparr>) fid = Some r" if "folder_runtime db fid = Some r" for fid r
    using that ags by (fastforce simp: folder_runtime_def split: option.splits)
  then have "file_ok (db\<lparr>sd_agents := ags\<rparr>) f" if "file_ok db f" for f using that by (auto simp: file_ok_def)
  then show ?thesis using i by (simp add: sync_inv_def)
qed

lemma connections_change_inv: "sync_inv db \<Longrightarrow> sync_inv (db\<lparr>sd_connections := cs\<rparr>)"
  by (simp add: sync_inv_def file_ok_def)

lemma sync_step_inv:
  assumes "sync_step env w w'" "sync_inv (sw_db w)"
  shows "sync_inv (sw_db w')"
proof -
  have kept: "keeps (knows {} {}) m \<Longrightarrow> m w = Some (w', r) \<Longrightarrow> sync_inv (sw_db w')" for m r
    using assms(2) keepsD [of sw_db "knows {} {}" m w w' r] by (simp add: knows_def)
  show ?thesis using assms(1)
  proof cases
    case agents_change
    then show ?thesis using agents_change_inv assms(2) by simp
  next
    case connections_change
    then show ?thesis using connections_change_inv assms(2) by simp
  next
    case drive_changes
    then show ?thesis using assms(2) by simp
  qed (erule kept [OF keeps_report_changes] kept [OF keeps_complete_upload] kept [OF keeps_claim_operations]
      kept [OF keeps_report_result] kept [OF keeps_run_pass] kept [OF keeps_remove_agent_folders])+
qed

text \<open>
  C20. Whatever pods report, people do on the drive and the drive answers, in whatever order: every file
  tracked for an Agent has a path that the rules of its runtime let through and the drive can store, no two
  rows share a path (in any spelling) or an item of the drive, no two folders a name, and
  only the workspace and the memories of an Agent are ever due to be written into its pod.
\<close>

theorem sync_invariant_kept:
  assumes "(sync_step env)\<^sup>*\<^sup>* w0 w" "sync_inv (sw_db w0)"
  shows "sync_inv (sw_db w)"
  using assms by (induction rule: rtranclp_induct) (auto intro: sync_step_inv)

lemma hand_out_download:
  assumes "hand_out t now row w = Some (w', Inr (Some op))"
  shows "or_path op = sf_path row \<and> (or_action op = PendDOWNLOAD \<longrightarrow> sf_pending row \<noteq> Some PendREUPLOAD)"
  using assms
  by (auto simp: hand_out_def andthen_Some ret_def on_missing_def catch_def split: if_splits option.splits)


lemma claimed_rows:
  assumes "claim_operations env now aid key w = Some (w', Inr ops)" "op \<in> set ops"
  shows "\<exists>t w1 db' rows row x y. sync_target env now aid key w = Some (w1, Inr t) \<and>
    claim_files (fo_id (ft_folder t)) now (now + OPERATION_LEASE) (sw_db w1) = Inr (db', rows) \<and> row \<in> set rows \<and>
    hand_out t now row x = Some (y, Inr (Some op))"
proof -
  obtain t w1 rows w2 where t: "sync_target env now aid key w = Some (w1, Inr t)"
    and c: "transact (claim_files (fo_id (ft_folder t)) now (now + OPERATION_LEASE)) w1 = Some (w2, Inr rows)"
    and g: "catch (gather rows (hand_out t now)) (\<lambda>e.
      case e of
        FromProvider p \<Rightarrow>
          Some (andthen (each rows (\<lambda>row. transact (release_file (sf_id row) None))) (\<lambda>_.
            throw (case p of ProviderThrottled wait \<Rightarrow> busy_after wait | _ \<Rightarrow> FileSyncProviderFailed p)))
      | _ \<Rightarrow> None) w2 = Some (w', Inr ops)"
    using assms(1) by (auto simp: claim_operations_def andthen_Some)
  from catch_Inr [OF g] have "gather rows (hand_out t now) w2 = Some (w', Inr ops)"
  proof (elim disjE exE conjE)
    fix e h w1
    assume "(case e of
        FromProvider p \<Rightarrow>
          Some (andthen (each rows (\<lambda>row. transact (release_file (sf_id row) None))) (\<lambda>_.
            throw (case p of ProviderThrottled wait \<Rightarrow> busy_after wait | _ \<Rightarrow> FileSyncProviderFailed p)))
      | _ \<Rightarrow> None) = Some h" "h w1 = Some (w', Inr ops)"
    then show ?thesis by (cases e) (auto simp: andthen_Some throw_def)
  qed
  from gather_member [OF this assms(2)]
  obtain row x y where "row \<in> set rows" "hand_out t now row x = Some (y, Inr (Some op))" by blast
  moreover obtain db' where "claim_files (fo_id (ft_folder t)) now (now + OPERATION_LEASE) (sw_db w1) = Inr (db', rows)"
    using c by (auto simp: transact_def split: sum.splits)
  ultimately show ?thesis using t by blast
qed

lemma claim_files_pending: "claim_files fid now til db = Inr (db', rows) \<Longrightarrow> row \<in> set rows \<Longrightarrow> sf_pending row \<noteq> None"
  by (auto simp: claim_files_def bind_result_Inr claimable_file_def claimed_file_def)

text \<open>
  C3. Whatever has happened before, a pod is only ever told to download a file into the workspace or a memory of its own
  Agent: the instructions, the configuration and the skills of an Agent cannot be changed from the
  drive. Every file it is told about has a path that its rules let through, and the caller has shown the Agent's key.
\<close>

theorem only_work_is_written_back:
  assumes "(sync_step env)\<^sup>*\<^sup>* w0 w" "sync_inv (sw_db w0)" "claim_operations env now aid key w = Some (w', Inr ops)" "op \<in> set ops"
  shows "\<exists>a. row_get agent_id aid (sd_agents (sw_db w)) = Some a \<and> se_pod_key env a = Some key \<and> agent_deleted_at a = None \<and>
    category (agent_type a) (or_path op) \<noteq> SyncNEVER \<and>
    (or_action op = PendDOWNLOAD \<longrightarrow> category (agent_type a) (or_path op) \<in> {SyncWORK, SyncMEMORY})"
proof -
  have "sync_inv (sw_db w)" using assms(1,2) by (induction rule: rtranclp_induct) (auto intro: sync_step_inv)
  then have k: "knows {} {} (sw_db w)" by (simp add: knows_def)
  obtain t w1 db' rows row x y where t: "sync_target env now aid key w = Some (w1, Inr t)"
    and c: "claim_files (fo_id (ft_folder t)) now (now + OPERATION_LEASE) (sw_db w1) = Inr (db', rows)" and row: "row \<in> set rows"
    and h: "hand_out t now row x = Some (y, Inr (Some op))" using claimed_rows [OF assms(3,4)] by blast
  have "row_fact (agent_type (ft_agent t)) row"
    using claim_files_rows [OF c target_knows [OF k t]] row by (simp add: target_place_def)
  moreover have "or_action op = PendDOWNLOAD \<longrightarrow> sf_pending row = Some PendDOWNLOAD"
    using hand_out_download [OF h] claim_files_pending [OF c row] by (metis option.exhaust pending_action.exhaust)
  ultimately show ?thesis using sync_target_Inr [OF t] hand_out_download [OF h] by (auto simp: row_fact_def syncable_def writable_def)
qed

section \<open>What a report deletes\<close>

text \<open>That a row is there.\<close>

definition there :: "uuid \<times> uuid \<times> string \<Rightarrow> sync_db \<Rightarrow> bool" where
  "there pl db \<longleftrightarrow> distinct (map sf_id (sd_files db)) \<and> (\<forall>f \<in> set (sd_files db). sf_id f < sd_next_id db) \<and> pl \<in> row_place ` set (sd_files db)"

lemma there_write:
  assumes "there pl db" "\<And>f. f \<in> set (sd_files db) \<Longrightarrow> P f \<Longrightarrow> row_place (g f) = row_place f" "update_files P g db = Inr (db', x)"
  shows "there pl db'"
proof -
  define h where "h = (\<lambda>f. if P f then g f else f)"
  have db': "db' = db\<lparr>sd_files := map h (sd_files db)\<rparr>" using assms(3) by (simp add: update_files_def write_files_Inr h_def)
  have place: "row_place (h f) = row_place f" if "f \<in> set (sd_files db)" for f using assms(2) that by (simp add: h_def)
  have "map sf_id (map h (sd_files db)) = map sf_id (sd_files db)" using place by (simp add: row_place_def)
  moreover have "row_place ` set (map h (sd_files db)) = row_place ` set (sd_files db)"
    using place by (simp add: image_image)
  moreover have "\<forall>f \<in> set (map h (sd_files db)). sf_id f < sd_next_id db"
    using assms(1) place by (auto simp: there_def row_place_def)
  ultimately show ?thesis using assms(1) by (simp add: there_def db' del: map_map list.set_map)
qed

lemma there_clear [keeps_intros]: "keeps (there pl) (transact (clear_pending i))"
  unfolding clear_pending_def update_file_def
  by (rule keeps_transact, erule there_write, simp_all add: row_place_def)

lemma there_upsert:
  assumes "\<And>f. row_place (g f) = row_place f"
  shows "keeps (there pl) (transact (upsert_file fid path sha n g))"
proof (rule keeps_transact)
  fix db db' x assume t: "there pl db" and u: "upsert_file fid path sha n g db = Inr (db', x)"
  show "there pl db'"
  proof (cases "file_at fid path db")
    case None
    then have "db' = db\<lparr>sd_next_id := sd_next_id db + 1, sd_files := row_add (g (new_sync_file (sd_next_id db) fid path sha n)) (sd_files db)\<rparr>"
      using u by (simp add: upsert_file_def write_files_Inr)
    moreover have "sf_id (g (new_sync_file (sd_next_id db) fid path sha n)) = sd_next_id db"
      using assms [of "new_sync_file (sd_next_id db) fid path sha n"] by (simp add: row_place_def new_sync_file_def)
    ultimately show ?thesis using t by (auto simp: there_def row_add_def less_Suc_eq)
  next
    case (Some row)
    have same: "f = row" if "f \<in> set (sd_files db)" "sf_id f = sf_id row" for f
      using that t file_at_Some [OF Some] by (auto simp: there_def distinct_map inj_on_def)
    have "update_files (\<lambda>f. sf_id f = sf_id row) (\<lambda>_. g row) db = Inr (db', x)" using u Some by (simp add: upsert_file_def update_file_def)
    then show ?thesis by (rule there_write [OF t, rotated]) (use same assms in auto)
  qed
qed

lemma there_writes [keeps_intros]:
  "keeps (there pl) (transact (start_upload fid path sha n now))" "keeps (there pl) (transact (record_synced fid path item sha n now))"
  unfolding start_upload_def record_synced_def by (rule there_upsert, simp add: row_place_def)+

lemma there_frame [keeps_intros]:
  "keeps (there pl) (change (touch_folder i now))" "keeps (there pl) (change (record_activity fo kind path now))"
  "keeps (there pl) (change (record_activity_once fo kind path' detail now))"
  by (rule keeps_change, simp add: there_def touch_folder_def update_folders_def record_activity_def record_activity_once_def)+

lemma there_remove: "i \<noteq> fst pl \<Longrightarrow> keeps (there pl) (change (remove_file i))"
  by (rule keeps_change) (auto simp: there_def remove_file_def row_place_def image_iff intro: distinct_map_filter)

lemma there_target: "keeps (there pl) (sync_target env now aid key)"
  unfolding sync_target_def by (intro keeps_cases keeps_authenticate keeps_intros)

lemma there_entries: "keeps (there pl) (sync_entries t known now es seen)"
proof (induction es arbitrary: seen)
  case (Cons e es)
  show ?case
    unfolding sync_entries.simps skipped_def sync_one_entry_def conflict_won_def by (intro keeps_cases keeps_intros Cons)
qed (simp add: keeps_ret)

lemma there_delete: "sf_id row \<noteq> fst pl \<Longrightarrow> keeps (there pl) (delete_missing t row now)"
  unfolding delete_missing_def by (intro keeps_cases keeps_intros there_remove)

lemma there_report:
  assumes "complete \<Longrightarrow> entries \<noteq> [] \<Longrightarrow> lower (snd (snd pl)) \<in> (\<lambda>e. lower (en_path e)) ` set entries"
  shows "keeps (there pl) (report_changes env now aid key complete entries)"
proof -
  have rows: "keeps (there pl) (andthen (query (files_of fid)) f)"
    if "\<And>rows. (\<forall>row \<in> set rows. sf_id row = fst pl \<longrightarrow> row_place row = pl) \<Longrightarrow> keeps (there pl) (f rows)"
    for fid and f :: "sync_file list \<Rightarrow> ('a, upload_read list) act"
  proof (rule keeps_read [where P = "\<lambda>rows. \<forall>row \<in> set rows. sf_id row = fst pl \<longrightarrow> row_place row = pl" and J' = "\<lambda>_. there pl"])
    fix db assume "there pl db"
    then show "(\<forall>row \<in> set (files_of fid db). sf_id row = fst pl \<longrightarrow> row_place row = pl) \<and> there pl db"
      by (auto simp: there_def files_of_def distinct_map inj_on_def row_place_def)
  qed (use that in auto)
  have listed: "sf_id row \<noteq> fst pl" if "\<forall>row \<in> set rows. sf_id row = fst pl \<longrightarrow> row_place row = pl" "complete \<and> entries \<noteq> []"
    "(path, row) \<in> set (filter (\<lambda>(path, row). path \<notin> set (map (\<lambda>e. lower (en_path e)) entries)) (known_files rows))" for rows path row
  proof
    assume "sf_id row = fst pl"
    moreover have "(path, row) \<in> set (map (\<lambda>f. (lower (sf_path f), f)) rows)" using that(3) set_dict_of by (fastforce simp: known_files_def)
    ultimately have "row_place row = pl" "path = lower (sf_path row)" using that(1) by auto
    then show False using assms that(2,3) by (auto simp: row_place_def)
  qed
  show ?thesis unfolding report_changes_def Let_def
    by (intro keeps_intros keeps_require_allowed there_target there_entries rows keeps_pair there_delete)
      (use listed in blast)+
qed

text \<open>
  C21. A report deletes nothing that it lists, and a partial or an empty report deletes nothing: a file that is listed, in
  whatever spelling, keeps its row, whatever the drive answers to the deletions and uploads, and even
  when the request fails on the way.
\<close>

theorem listed_files_stay:
  assumes "report_changes env now aid key complete entries w = Some (w', r)" "sync_inv (sw_db w)" "f \<in> set (sd_files (sw_db w))"
    and "complete \<Longrightarrow> entries \<noteq> [] \<Longrightarrow> lower (sf_path f) \<in> (\<lambda>e. lower (en_path e)) ` set entries"
  shows "\<exists>f' \<in> set (sd_files (sw_db w')). sf_id f' = sf_id f \<and> sf_folder_id f' = sf_folder_id f \<and> sf_path f' = sf_path f"
proof -
  have "there (row_place f) (sw_db w)" using assms(2,3) by (auto simp: there_def sync_inv_def)
  then have "there (row_place f) (sw_db w')" using keepsD [OF there_report _ assms(1)] assms(4) by (simp add: row_place_def)
  then show ?thesis by (auto simp: there_def row_place_def)
qed


section \<open>A name the drive refuses twice\<close>

text \<open>A folder that can be renamed to two names: no other folder has either.\<close>

definition free_for :: "uuid \<Rightarrow> string set \<Rightarrow> sync_db \<Rightarrow> bool" where
  "free_for i names db \<longleftrightarrow> distinct (map fo_id (sd_folders db)) \<and> folders_unique (sd_folders db) \<and>
    (\<forall>f \<in> set (sd_folders db). fo_id f \<noteq> i \<longrightarrow> lower (fo_folder_name f) \<notin> lower ` names)"

lemma rename_free:
  assumes "free_for i names db" "n \<in> names"
  shows "\<exists>db'. rename_folder i n db = Inr (db', True) \<and> free_for i names db'"
proof -
  define h where "h = (\<lambda>f :: sync_agent_folder. if fo_id f = i then f\<lparr>fo_folder_name := n\<rparr> else f)"
  have h: "fo_id (h f) = fo_id f" "fo_connection_id (h f) = fo_connection_id f" "fo_agent_id (h f) = fo_agent_id f" for f by (simp_all add: h_def)
  have named: "lower (fo_folder_name (h f)) = (if fo_id f = i then lower n else lower (fo_folder_name f))" for f by (simp add: h_def)
  have "inj_on (\<lambda>f. (fo_connection_id f, lower (fo_folder_name (h f)))) (set (sd_folders db))"
  proof (rule inj_onI)
    fix f g assume fg: "f \<in> set (sd_folders db)" "g \<in> set (sd_folders db)"
      "(fo_connection_id f, lower (fo_folder_name (h f))) = (fo_connection_id g, lower (fo_folder_name (h g)))"
    have "lower n \<in> lower ` names" using assms(2) by blast
    with fg assms(1) have "fo_id f = i \<longleftrightarrow> fo_id g = i" unfolding named free_for_def by (auto split: if_splits)
    then show "f = g" using fg assms(1) unfolding named
      by (auto simp: free_for_def folders_unique_def distinct_map inj_on_def split: if_splits)
  qed
  then have u: "folders_unique (map h (sd_folders db))"
    using assms(1) h by (simp add: free_for_def folders_unique_def distinct_map comp_def inj_on_def)
  have "free_for i names (db\<lparr>sd_folders := map h (sd_folders db)\<rparr>)"
    using assms u h named by (auto simp: free_for_def comp_def)
  then show ?thesis using u by (auto simp: rename_folder_def update_folders_def h_def)
qed

text \<open>The round of a name that is refused: the next one.\<close>

lemma refused_round:
  assumes "free_for i names (sw_db w)" "n \<in> names" "pl_move_item pl root item (Some n) None (sw_drive w) = (sw_drive w, Inl RemoteNameTaken)"
  shows "\<exists>w'. rename_round pl root i item current n taken w = Some (w', Inr (True, lower n # filter (\<lambda>t. t \<noteq> lower current) taken)) \<and>
    sw_drive w' = sw_drive w \<and> free_for i names (sw_db w')"
proof -
  obtain db' where "rename_folder i n (sw_db w) = Inr (db', True)" "free_for i names db'" using rename_free [OF assms(1,2)] by blast
  then show ?thesis using assms(3)
    by (auto simp: rename_round_def andthen_def transact_def Let_def catch_def remotely_def on_taken_def ret_def)
qed

lemma free_name_first: "length base \<le> FOLDER_NAME_MAX \<Longrightarrow> lower base \<notin> set taken \<Longrightarrow> free_name base taken = Some base"
  by (simp add: free_name_def NAME_ATTEMPTS_def upt_conv_Cons numbered_name_def)

lemma free_name_second:
  "length base \<le> FOLDER_NAME_MAX \<Longrightarrow> lower base \<in> set taken \<Longrightarrow> lower (numbered_name base 2) \<notin> set taken \<Longrightarrow>
    free_name base taken = Some (numbered_name base 2)"
  by (simp add: free_name_def NAME_ATTEMPTS_def upt_conv_Cons numbered_name_def [of base "Suc 0"] numeral_2_eq_2)

text \<open>Two names that take turns: each refusal frees the other one again.\<close>

lemma next_name:
  assumes "length base \<le> FOLDER_NAME_MAX" "lower (numbered_name base 2) \<noteq> lower base"
    and "(n, m) \<in> {(base, numbered_name base 2), (numbered_name base 2, base)}" "lower m \<in> set taken \<longrightarrow> lower m = lower current"
  shows "free_name base (lower n # filter (\<lambda>t. t \<noteq> lower current) taken) = Some m"
  using assms free_name_first free_name_second by auto

lemma loop_never_returns:
  assumes base: "length base \<le> FOLDER_NAME_MAX" "lower (numbered_name base 2) \<noteq> lower base"
    and names: "names = {base, numbered_name base 2}"
    and refused: "\<And>n. n \<in> names \<Longrightarrow> pl_move_item pl root item (Some n) None d = (d, Inl RemoteNameTaken)"
    and start: "sw_drive w = d" "free_for i names (sw_db w)" "(n, m) \<in> {(base, numbered_name base 2), (numbered_name base 2, base)}"
      "lower m \<in> set taken \<longrightarrow> lower m = lower current"
  shows "follow_name_loop pl root i item base current (Some n) taken w = None"
proof -
  define stuck where "stuck = (\<lambda>(w :: _ sync_world) n m taken current. sw_drive w = d \<and> free_for i names (sw_db w) \<and>
    (n, m) \<in> {(base, numbered_name base 2), (numbered_name base 2, base)} \<and> (lower m \<in> set taken \<longrightarrow> lower m = lower current))"
  have "pl' = pl \<longrightarrow> root' = root \<longrightarrow> i' = i \<longrightarrow> item' = item \<longrightarrow> base' = base \<longrightarrow> (\<forall>n m. name = Some n \<longrightarrow> \<not> stuck w n m taken current)"
    if "follow_name_loop pl' root' i' item' base' current name taken w = Some y" for pl' root' i' item' base' current name taken w y
  proof (rule follow_name_loop.raw_induct [of "\<lambda>pl' root' i' item' base' current name taken w y.
      pl' = pl \<longrightarrow> root' = root \<longrightarrow> i' = i \<longrightarrow> item' = item \<longrightarrow> base' = base \<longrightarrow> (\<forall>n m. name = Some n \<longrightarrow> \<not> stuck w n m taken current)", OF _ that],
      intro impI allI notI)
    fix rec pl' root' i' item' base' current name taken w y n m
    assume IH: "\<And>pl' root' i' item' base' current name taken w y. rec pl' root' i' item' base' current name taken w = Some y \<Longrightarrow>
        pl' = pl \<longrightarrow> root' = root \<longrightarrow> i' = i \<longrightarrow> item' = item \<longrightarrow> base' = base \<longrightarrow> (\<forall>n m. name = Some n \<longrightarrow> \<not> stuck w n m taken current)"
      and step: "(case name of
         None \<Rightarrow> Some (w, Inr taken)
       | Some n \<Rightarrow>
           Option.bind (rename_round pl' root' i' item' current n taken w) (\<lambda>(w1, r).
             case r of
               Inl e \<Rightarrow> Some (w1, Inl e)
             | Inr again \<Rightarrow>
                 if fst again then rec pl' root' i' item' base' n (free_name base' (snd again)) (snd again) w1
                 else Some (w1, Inr (snd again)))) = Some y"
      and eqs: "pl' = pl" "root' = root" "i' = i" "item' = item" "base' = base" "name = Some n" and s: "stuck w n m taken current"
    define taken1 where "taken1 = lower n # filter (\<lambda>t. t \<noteq> lower current) taken"
    have "n \<in> names" using s names by (auto simp: stuck_def)
    then obtain w' where w': "rename_round pl root i item current n taken w = Some (w', Inr (True, taken1))" "sw_drive w' = d" "free_for i names (sw_db w')"
      using refused_round [of i names w n pl root item current taken] refused s by (auto simp: stuck_def taken1_def)
    have m: "free_name base taken1 = Some m" using next_name [OF base] s by (simp add: taken1_def stuck_def)
    have "rec pl root i item base n (Some m) taken1 w' = Some y" using step w'(1) m by (simp add: eqs)
    then have "\<not> stuck w' m n taken1 n" using IH by blast
    then show False using w' s by (auto simp: stuck_def)
  qed
  then show ?thesis using start unfolding stuck_def
    by (cases "follow_name_loop pl root i item base current (Some n) taken w") blast+
qed

text \<open>
  C39. A folder whose Agent is renamed is never left alone when the drive has both the new name and its
  numbered variant (folders that people made, say): the row is renamed to the first, the drive refuses, to the second, the
  drive refuses, and the first counts as free again, so the pass goes on for as long as the drive
  answers, and its lock stays taken.
\<close>

theorem follow_name_never_returns:
  assumes "length base \<le> FOLDER_NAME_MAX" "lower (numbered_name base 2) \<noteq> lower base" "fo_folder_name fo \<noteq> base"
    and "\<forall>n \<in> {base, numbered_name base 2}. pl_move_item pl root item (Some n) None (sw_drive w) = (sw_drive w, Inl RemoteNameTaken)"
    and "free_for (fo_id fo) {base, numbered_name base 2} (sw_db w)"
    and "\<forall>n \<in> {base, numbered_name base 2}. lower n \<in> set taken \<longrightarrow> lower n = lower (fo_folder_name fo)"
  shows "follow_name pl root fo item base taken w = None"
proof -
  have "number_of (fo_folder_name fo) base \<noteq> Some 1"
  proof -
    have "numbered_name base 1 = base" using assms(1) by (simp add: numbered_name_def)
    then show ?thesis using assms(3) unfolding number_of_def by (cases "match_number (fo_folder_name fo)") auto
  qed
  moreover have "lower base \<notin> set (filter (\<lambda>t. t \<noteq> lower (fo_folder_name fo)) taken)" using assms(6) by auto
  moreover from this have "free_name base (filter (\<lambda>t. t \<noteq> lower (fo_folder_name fo)) taken) = Some base" using assms(1) by (rule free_name_first [rotated])
  moreover have "follow_name_loop pl root (fo_id fo) item base (fo_folder_name fo) (Some base) taken w = None"
    by (rule loop_never_returns [OF assms(1,2) refl, where d = "sw_drive w" and m = "numbered_name base 2"])
      (use assms(4-6) in auto)
  ultimately show ?thesis by (auto simp: follow_name_def Let_def)
qed

section \<open>Examples\<close>

text \<open>A drive without state that refuses every move, and an Agent with a folder and a file that was edited.\<close>

definition example_item :: "string \<Rightarrow> remote_item" where
  "example_item i = \<lparr>ri_id = i, ri_name = Some ''a.md'', ri_parent_id = None, ri_path = Some ''Agent/workspace/a.md'', ri_version = Some ''2'',
     ri_content_version = Some ''c2'', ri_size = 3, ri_content_hash = None, ri_is_folder = False, ri_deleted = False, ri_modified_at = Some 5,
     ri_modified_by_app = False, ri_web_url = None\<rparr>"

definition example_plugin :: "unit sync_plugin" where
  "example_plugin = \<lparr>pl_file_sync = True, pl_create_folder = \<lambda>root parent name d. (d, Inl RemoteNameTaken),
     pl_get_item = \<lambda>root i d. (d, Inr (example_item i)), pl_get_item_by_path = \<lambda>root parent path d. (d, Inl RemoteItemMissing),
     pl_move_item = \<lambda>root i name parent d. (d, Inl RemoteNameTaken), pl_delete_item = \<lambda>root i d. (d, Inr ()),
     pl_delete_item_with = \<lambda>token root i d. (d, Inr ()), pl_list_files = \<lambda>root i d. (d, Inr []),
     pl_changes = \<lambda>root cursor latest d. (d, Inr \<lparr>rc_items = [example_item ''i''], rc_cursor = ''next'', rc_more = False\<rparr>),
     pl_upload_target = \<lambda>root parent path d. (d, Inr \<lparr>ut_url = ''u'', ut_expires_at = 9\<rparr>),
     pl_download_url = \<lambda>root i d. (d, Inr ''url''), pl_write_empty_file = \<lambda>root parent path d. (d, Inr (example_item ''e''))\<rparr>"

definition example_agent :: agent where
  "example_agent = \<lparr>agent_id = 1, agent_organization_id = 1, agent_name = ''Agent'', agent_status = RUNNING, agent_type = ''hermes'',
     general_access_role_id = None, agent_deleted_at = None, agent_created_by = None, communication_key = None\<rparr>"

definition example_env :: "unit sync_env" where
  "example_env = \<lparr>se_plugins = \<lambda>key. Some example_plugin, se_pod_key = \<lambda>a. Some ''k'', se_nfc = \<lambda>s. s, se_server_path = \<lambda>s. s\<rparr>"

definition example_connection :: sync_connection where
  "example_connection = \<lparr>sc_id = 1, sc_organization_id = 1, sc_provider_key = ''drive'', sc_status = ProviderACTIVE, sc_account_id = ''a'',
     sc_location_id = None, sc_folder_id = Some ''root'', sc_connected_at = Some 1, sc_sync_cursor = Some ''c'', sc_sync_retry_at = None\<rparr>"

definition example_folder :: sync_agent_folder where
  "example_folder = \<lparr>fo_id = 1, fo_organization_id = 1, fo_connection_id = 1, fo_agent_id = 1, fo_folder_name = ''Agent'',
     fo_folder_item_id = Some ''f'', fo_folder_web_url = None, fo_folder_path = None, fo_status = FolderACTIVE, fo_last_contact_at = None\<rparr>"

definition example_file :: sync_file where
  "example_file = (new_sync_file 2 1 ''workspace/a.md'' ''sha'' 3)\<lparr>sf_item_id := Some ''i'', sf_ctag := Some ''c1'', sf_synced_at := Some 1,
     sf_pending := Some PendDOWNLOAD\<rparr>"

definition example_world :: "unit sync_world" where
  "example_world = \<lparr>sw_db = \<lparr>sd_agents = [example_agent], sd_connections = [example_connection], sd_folders = [example_folder],
     sd_files = [example_file], sd_activities = [], sd_next_id = 3\<rparr>, sw_drive = ()\<rparr>"

lemma example_inv: "sync_inv (sw_db example_world)"
proof -
  have c: "syncable ''hermes'' ''workspace/a.md''" "writable ''hermes'' ''workspace/a.md''" by code_simp+
  have f: "sf_id example_file = 2" "sf_folder_id example_file = 1" "sf_path example_file = ''workspace/a.md''" "sf_item_id example_file = Some ''i''"
    by (simp_all add: example_file_def new_sync_file_def)
  have "folder_runtime (sw_db example_world) 1 = Some ''hermes''"
    by (simp add: folder_runtime_def row_get_def example_world_def example_folder_def example_agent_def)
  then have "file_ok (sw_db example_world) example_file" using c f by (simp add: file_ok_def)
  then show ?thesis using f
    by (simp add: sync_inv_def example_world_def files_unique_def folders_unique_def) (simp add: example_folder_def)
qed

text \<open>The world after the pod has asked for work once.\<close>

definition example_claimed :: "unit sync_world" where
  "example_claimed = fst (the (claim_operations example_env 100 1 ''k'' example_world))"

definition example_operation :: operation_read where
  "example_operation = \<lparr>or_path = ''workspace/a.md'', or_action = PendDOWNLOAD, or_url = ''url'', or_expires_at = None, or_version = Some ''c2''\<rparr>"

lemma example_first_claim: "claim_operations example_env 100 1 ''k'' example_world = Some (example_claimed, Inr [example_operation])"
  by code_simp

lemma example_second_claim:
  "claim_operations example_env (100 + seconds 200) 1 ''k'' example_claimed =
    Some (fst (the (claim_operations example_env (100 + seconds 200) 1 ''k'' example_claimed)), Inr [example_operation])"
  by code_simp

lemma example_steps: "(sync_step example_env)\<^sup>*\<^sup>* example_world example_claimed"
  using sync_step.claim [OF example_first_claim] by blast

theorem sync_invariant_kept_witness: "sync_inv (sw_db example_claimed)"
  by (rule sync_invariant_kept [OF example_steps example_inv])

theorem only_work_is_written_back_witness:
  "category (agent_type example_agent) ''workspace/a.md'' \<in> {SyncWORK, SyncMEMORY}"
proof -
  have m: "example_operation \<in> set [example_operation]" by simp
  have "row_get agent_id 1 (sd_agents (sw_db example_claimed)) = Some example_agent" by code_simp
  then show ?thesis
    using only_work_is_written_back [OF example_steps example_inv example_second_claim m] by (simp add: example_operation_def)
qed

text \<open>The whole report lists another spelling of the file, which stays.\<close>

definition example_report :: "sync_entry list" where
  "example_report = [\<lparr>en_path = ''Workspace/A.md'', en_size = 3, en_sha256 = ''sha2''\<rparr>]"

lemma example_reported:
  "report_changes example_env 100 1 ''k'' True example_report example_world =
    Some (fst (the (report_changes example_env 100 1 ''k'' True example_report example_world)),
      snd (the (report_changes example_env 100 1 ''k'' True example_report example_world)))"
  by code_simp

theorem listed_files_stay_witness:
  "\<exists>f \<in> set (sd_files (sw_db (fst (the (report_changes example_env 100 1 ''k'' True example_report example_world))))). sf_path f = ''workspace/a.md''"
proof -
  have f: "example_file \<in> set (sd_files (sw_db example_world))" "sf_path example_file = ''workspace/a.md''" by code_simp+
  have "lower ''workspace/a.md'' \<in> (\<lambda>e. lower (en_path e)) ` set example_report" by code_simp
  then show ?thesis using listed_files_stay [OF example_reported example_inv f(1)] f(2) by auto
qed

theorem follow_name_never_returns_witness:
  "follow_name example_plugin (the (sync_root_of example_connection)) example_folder ''f'' ''New'' [''agent''] example_world = None"
proof (rule follow_name_never_returns)
  show "length ''New'' \<le> FOLDER_NAME_MAX" by code_simp
  show "lower (numbered_name ''New'' 2) \<noteq> lower ''New''" by code_simp
  show "fo_folder_name example_folder \<noteq> ''New''" by code_simp
  show "\<forall>n \<in> {''New'', numbered_name ''New'' 2}.
      pl_move_item example_plugin (the (sync_root_of example_connection)) ''f'' (Some n) None (sw_drive example_world) = (sw_drive example_world, Inl RemoteNameTaken)"
    by (simp add: example_plugin_def)
  show "free_for (fo_id example_folder) {''New'', numbered_name ''New'' 2} (sw_db example_world)"
    by (simp add: free_for_def folders_unique_def example_world_def)
  show "\<forall>n \<in> {''New'', numbered_name ''New'' 2}. lower n \<in> set [''agent''] \<longrightarrow> lower n = lower (fo_folder_name example_folder)"
    by code_simp
qed


end
