(* ===== verification/Restore_Points.thy ===== *)
theory Restore_Points
  imports Actions Agent_Sharing
begin

text \<open>
  Restore points of Agents: copies of an Agent's volume on volumes of their own, with the configuration that the
  Agent had (\<open>restore_points/models.py\<close>, \<open>constants.py\<close>, the table \<open>agent_restore_point\<close> of
  \<open>agents/models.py\<close>), the names of their volumes and Jobs (\<open>agents/builders/restore_point.py\<close>), every query and
  transaction of \<open>restore_points/repository.py\<close>, and the transaction that writes a configuration (\<open>select_pin\<close> of
  \<open>agents/override_repository.py\<close>).
\<close>

section \<open>Tables\<close>

datatype restore_point_status = PtPENDING | PtCAPTURING | PtRESTORING | PtREADY | PtFAILED | PtDELETING

datatype restore_point_origin = OriginMANUAL | OriginPRE_RESTORE | OriginPRE_RESET | OriginPRE_UPGRADE

fun origin_value :: "restore_point_origin \<Rightarrow> string" where
  "origin_value OriginMANUAL = ''MANUAL''"
| "origin_value OriginPRE_RESTORE = ''PRE_RESTORE''"
| "origin_value OriginPRE_RESET = ''PRE_RESET''"
| "origin_value OriginPRE_UPGRADE = ''PRE_UPGRADE''"

definition TERMINAL_STATUSES :: "restore_point_status set" where
  "TERMINAL_STATUSES = {PtREADY, PtFAILED}"

definition NON_TERMINAL_STATUSES :: "restore_point_status set" where
  "NON_TERMINAL_STATUSES = {PtPENDING, PtCAPTURING, PtRESTORING, PtDELETING}"

definition ACTIVE_CAPTURE_STATUSES :: "restore_point_status set" where
  "ACTIVE_CAPTURE_STATUSES = {PtPENDING, PtCAPTURING}"

lemmas status_sets = TERMINAL_STATUSES_def NON_TERMINAL_STATUSES_def ACTIVE_CAPTURE_STATUSES_def

text \<open>
  The recorded configuration, a JSON object that is validated when it is read. \<open>cm_max_turns\<close> is \<open>None\<close> where
  the object has no such key.
\<close>

record recorded_skill =
  rs_skill_id :: uuid
  rs_name :: string
  rs_pinned_version :: int

record config_manifest =
  cm_version :: int
  cm_agent_type :: string
  cm_template_key :: string
  cm_template_version :: int
  cm_template_selection_type :: string
  cm_override_version :: "int option"
  cm_model :: string
  cm_effective_model :: string
  cm_approval_mode :: string
  cm_verbose_mode :: bool
  cm_max_turns :: "int option option"
  cm_skills :: "recorded_skill list"

record restore_point =
  pt_id :: uuid
  pt_agent_id :: uuid
  pt_created_by_user_id :: "uuid option"
  pt_label :: "string option"
  pt_status :: restore_point_status
  pt_origin :: restore_point_origin
  pt_agent_type :: string
  pt_pvc_name :: string
  pt_job_name :: "string option"
  pt_archive_bytes :: "json option"
  pt_file_count :: "json option"
  pt_config_manifest :: config_manifest
  pt_failure_reason :: "string option"
  pt_reapply_configuration :: bool
  pt_configuration_error :: "string option"
  pt_restored_by_user_id :: "uuid option"
  pt_restored_by_display :: "string option"
  pt_captured_at :: "datetime option"
  pt_created_at :: datetime
  pt_updated_at :: datetime

text \<open>
  The columns of an Agent that its row in the tables of the authorization does not have, its Skills, the
  Skills of all (id, name) and the versions of Templates (id, key, version) that an Agent may be pinned to.
\<close>

record agent_settings =
  as_agent_id :: uuid
  as_platform_template_id :: "uuid option"
  as_agent_template_id :: "uuid option"
  as_override_version_id :: "uuid option"
  as_model :: string
  as_running_model :: "string option"
  as_approval_mode :: string
  as_verbose_mode :: bool
  as_max_turns :: "int option"
  as_updated_at :: datetime
  as_managed_update_heartbeat_at :: "datetime option"

record assigned_skill =
  ak_agent_id :: uuid
  ak_skill_id :: uuid
  ak_pinned_version :: int

record restore_db =
  rd_access :: access_db
  rd_settings :: "agent_settings list"
  rd_skills :: "assigned_skill list"
  rd_skill_rows :: "(uuid \<times> string) list"
  rd_org_templates :: "(uuid \<times> string \<times> int) list"
  rd_platform_templates :: "(uuid \<times> string \<times> int) list"
  rd_overrides :: "(uuid \<times> string \<times> int) list"
  rd_points :: "restore_point list"
  rd_events :: event_db

definition MANAGED_UPDATE_STALE_SECONDS :: int where
  "MANAGED_UPDATE_STALE_SECONDS = 120"

definition managed_update_in_flight :: "datetime \<Rightarrow> agent_settings \<Rightarrow> bool" where
  "managed_update_in_flight now s =
    (case as_managed_update_heartbeat_at s of
       None \<Rightarrow> False
     | Some beat \<Rightarrow> beat > now - seconds MANAGED_UPDATE_STALE_SECONDS)"

section \<open>Names\<close>

definition PVC_NAME_PREFIX :: string where
  "PVC_NAME_PREFIX = ''restore-point-''"

definition CAPTURE_JOB_NAME_PREFIX :: string where
  "CAPTURE_JOB_NAME_PREFIX = ''rp-cap-''"

definition RESTORE_JOB_NAME_PREFIX :: string where
  "RESTORE_JOB_NAME_PREFIX = ''rp-res-''"

definition restore_point_resource_name :: "uuid \<Rightarrow> string" where
  "restore_point_resource_name i = PVC_NAME_PREFIX @ uuid_str i"

definition capture_job_name :: "uuid \<Rightarrow> string" where
  "capture_job_name i = CAPTURE_JOB_NAME_PREFIX @ uuid_str i"

text \<open>The second argument is the drawn \<open>secrets.token_hex(3)\<close>.\<close>

definition restore_job_name :: "uuid \<Rightarrow> string \<Rightarrow> string" where
  "restore_job_name i token = RESTORE_JOB_NAME_PREFIX @ uuid_str i @ ''-'' @ token"

text \<open>
  \<open>uuid.UUID(text)\<close>: prefixes, braces and hyphens are dropped, and 32 hexadecimal digits must remain. (What else
  \<open>int(text, 16)\<close> takes, underscores and a sign, is not accepted here.)
\<close>

function remove_all :: "string \<Rightarrow> string \<Rightarrow> string" where
  "remove_all p [] = []"
| "remove_all p (c # s) =
    (if p \<noteq> [] \<and> prefix p (c # s) then remove_all p (drop (length p) (c # s)) else c # remove_all p s)"
  by pat_completeness auto
termination by (relation "measure (\<lambda>(p, s). length s)") auto

definition hex_value :: "char \<Rightarrow> nat option" where
  "hex_value c =
    (let n = of_char c :: nat
     in if 48 \<le> n \<and> n \<le> 57 then Some (n - 48)
        else if 97 \<le> n \<and> n \<le> 102 then Some (n - 87)
        else if 65 \<le> n \<and> n \<le> 70 then Some (n - 55) else None)"

fun hex_number :: "nat \<Rightarrow> string \<Rightarrow> nat option" where
  "hex_number acc [] = Some acc"
| "hex_number acc (c # s) = (case hex_value c of None \<Rightarrow> None | Some d \<Rightarrow> hex_number (acc * 16 + d) s)"

definition parse_uuid :: "string \<Rightarrow> uuid option" where
  "parse_uuid s =
    (let digits = filter (\<lambda>c. c \<noteq> CHR ''-'')
       (strip_by (\<lambda>c. c \<in> {CHR ''{'', CHR ''}''}) (remove_all ''uuid:'' (remove_all ''urn:'' s)))
     in if length digits \<noteq> 32 then None else hex_number 0 digits)"

fun id_after :: "string list \<Rightarrow> string \<Rightarrow> uuid option" where
  "id_after [] name = None"
| "id_after (p # ps) name = (if prefix p name then parse_uuid (take 36 (drop (length p) name)) else id_after ps name)"

definition restore_point_id_from_name :: "string \<Rightarrow> uuid option" where
  "restore_point_id_from_name name = id_after [PVC_NAME_PREFIX, CAPTURE_JOB_NAME_PREFIX, RESTORE_JOB_NAME_PREFIX] name"

section \<open>The recorded configuration\<close>

definition CONFIG_MANIFEST_VERSION :: int where
  "CONFIG_MANIFEST_VERSION = 2"

text \<open>
  A selection of a configuration. An option of a setting is \<open>None\<close> where the selection does not set it;
  \<open>sel_approval_mode\<close> and \<open>sel_verbose_mode\<close> may not be null.
\<close>

record template_selection =
  sel_type :: string
  sel_template_key :: "string option"
  sel_template_version :: "int option"
  sel_override_version :: "int option"
  sel_expected_agent_updated_at :: datetime
  sel_skill_ids :: "uuid list"
  sel_removed_skill_ids :: "uuid list"
  sel_skill_versions :: "(uuid \<times> int) list"
  sel_model :: "string option"
  sel_approval_mode :: string
  sel_verbose_mode :: bool
  sel_max_turns :: "int option option"

definition COMMAND_APPROVAL_MODES :: "string list" where
  "COMMAND_APPROVAL_MODES = [''manual'', ''auto'', ''off'']"

definition non_empty :: "string \<Rightarrow> string option" where
  "non_empty s = (if s = [] then None else Some s)"

text \<open>What \<open>SkillVersionPin\<close> and \<open>CommandApprovalMode\<close> refuse; the selection then refuses an approval mode that is null.\<close>

definition recorded_problem :: "config_manifest \<Rightarrow> bool" where
  "recorded_problem m \<longleftrightarrow>
    (\<exists>s \<in> set (cm_skills m). rs_pinned_version s < 1) \<or> cm_approval_mode m \<notin> set ([] # COMMAND_APPROVAL_MODES)"

definition override_of :: "config_manifest \<Rightarrow> int" where
  "override_of m = (case cm_override_version m of None \<Rightarrow> cm_template_version m | Some v \<Rightarrow> if v = 0 then cm_template_version m else v)"

definition base_selection :: "config_manifest \<Rightarrow> datetime \<Rightarrow> template_selection" where
  "base_selection m updated =
    \<lparr>sel_type = cm_template_selection_type m, sel_template_key = None, sel_template_version = None, sel_override_version = None,
     sel_expected_agent_updated_at = updated, sel_skill_ids = map rs_skill_id (cm_skills m), sel_removed_skill_ids = [],
     sel_skill_versions = map (\<lambda>s. (rs_skill_id s, rs_pinned_version s)) (cm_skills m), sel_model = non_empty (cm_model m),
     sel_approval_mode = cm_approval_mode m, sel_verbose_mode = cm_verbose_mode m, sel_max_turns = cm_max_turns m\<rparr>"

definition selection_from_manifest :: "config_manifest \<Rightarrow> datetime \<Rightarrow> template_selection option result" where
  "selection_from_manifest m updated =
    (if cm_version m < CONFIG_MANIFEST_VERSION \<or> cm_template_selection_type m = [] then Inr None
     else if recorded_problem m then Inl (ValueError ''manifest'')
     else if cm_template_selection_type m = ''override'' then
       bind_result (raise_if (cm_approval_mode m = [] \<or> override_of m < 1) (ValueError ''selection'')) (\<lambda>_.
         Inr (Some ((base_selection m updated)\<lparr>sel_override_version := Some (override_of m)\<rparr>)))
     else if cm_template_selection_type m \<in> {''platform'', ''organization''} then
       bind_result (raise_if (cm_approval_mode m = [] \<or> length (cm_template_key m) \<notin> {1..255} \<or> cm_template_version m < 1)
         (ValueError ''selection'')) (\<lambda>_.
         Inr (Some ((base_selection m updated)\<lparr>sel_template_key := Some (cm_template_key m), sel_template_version := Some (cm_template_version m)\<rparr>)))
     else Inr None)"

section \<open>Queries\<close>

text \<open>The row of an Agent that is not deleted, with its other columns.\<close>

definition live_agent :: "uuid \<Rightarrow> restore_db \<Rightarrow> agent option" where
  "live_agent i db = find (\<lambda>a. agent_id a = i \<and> agent_deleted_at a = None) (agents (rd_access db))"

definition settings_of :: "uuid \<Rightarrow> restore_db \<Rightarrow> agent_settings option" where
  "settings_of i db = row_get as_agent_id i (rd_settings db)"

definition agent_row :: "uuid \<Rightarrow> restore_db \<Rightarrow> (agent \<times> agent_settings) option" where
  "agent_row i db = Option.bind (live_agent i db) (\<lambda>a. map_option (\<lambda>s. (a, s)) (settings_of i db))"

definition point_by_id :: "uuid \<Rightarrow> restore_db \<Rightarrow> restore_point option" where
  "point_by_id i db = row_get pt_id i (rd_points db)"

text \<open>The joins with the Agent: the predicates of the scope apply to its row.\<close>

definition points_in_scope :: "authz_scope \<Rightarrow> uuid \<Rightarrow> restore_db \<Rightarrow> restore_point list result" where
  "points_in_scope scope aid db =
    bind_result (agent_scope_predicates (rd_access db) scope False) (\<lambda>P.
      Inr (row_where (\<lambda>p. pt_agent_id p = aid \<and> (\<exists>a \<in> set (agents (rd_access db)). agent_id a = pt_agent_id p \<and> P a)) (rd_points db)))"

definition point_in_scope :: "uuid \<Rightarrow> uuid \<Rightarrow> authz_scope \<Rightarrow> restore_db \<Rightarrow> restore_point option result" where
  "point_in_scope i aid scope db = bind_result (points_in_scope scope aid db) (\<lambda>ps. Inr (find (\<lambda>p. pt_id p = i) ps))"

text \<open>A page of an Agent's restore points, the newest first, with the number of all of them.\<close>

definition points_page :: "uuid \<Rightarrow> nat \<Rightarrow> nat \<Rightarrow> authz_scope \<Rightarrow> restore_db \<Rightarrow> (restore_point list \<times> nat) result" where
  "points_page aid page per_page scope db =
    bind_result (points_in_scope scope aid db) (\<lambda>ps.
      Inr (take per_page (drop ((page - 1) * per_page) (rev (sort_key pt_created_at ps))), length ps))"

definition count_manual_for_agent :: "uuid \<Rightarrow> restore_db \<Rightarrow> nat" where
  "count_manual_for_agent aid db =
    length (row_where (\<lambda>p. pt_agent_id p = aid \<and> pt_origin p = OriginMANUAL \<and> pt_status p \<noteq> PtFAILED) (rd_points db))"

definition with_status :: "uuid \<Rightarrow> restore_point_status set \<Rightarrow> restore_db \<Rightarrow> restore_point list" where
  "with_status aid S db = row_where (\<lambda>p. pt_agent_id p = aid \<and> pt_status p \<in> S) (rd_points db)"

definition has_active_capture :: "uuid \<Rightarrow> restore_db \<Rightarrow> bool" where
  "has_active_capture aid db \<longleftrightarrow> with_status aid ACTIVE_CAPTURE_STATUSES db \<noteq> []"

definition has_non_terminal_operation :: "uuid \<Rightarrow> restore_db \<Rightarrow> bool" where
  "has_non_terminal_operation aid db \<longleftrightarrow> with_status aid NON_TERMINAL_STATUSES db \<noteq> []"

definition non_terminal_points :: "uuid \<Rightarrow> restore_db \<Rightarrow> restore_point list" where
  "non_terminal_points aid db = with_status aid NON_TERMINAL_STATUSES db"

definition owing_replay :: "uuid \<Rightarrow> restore_db \<Rightarrow> restore_point list" where
  "owing_replay aid db =
    row_where (\<lambda>p. pt_agent_id p = aid \<and> pt_reapply_configuration p \<and> pt_status p = PtREADY) (rd_points db)"

definition ready_without_volume :: "string set \<Rightarrow> nat \<Rightarrow> restore_db \<Rightarrow> restore_point list" where
  "ready_without_volume live limit db =
    take limit (sort_key pt_created_at (row_where (\<lambda>p. pt_status p = PtREADY \<and> pt_pvc_name p \<notin> live) (rd_points db)))"

definition existing_ids :: "uuid set \<Rightarrow> restore_db \<Rightarrow> uuid set" where
  "existing_ids ids db = {i \<in> ids. i \<in> pt_id ` set (rd_points db)}"

section \<open>Updates\<close>

definition put_points :: "(restore_point list \<Rightarrow> restore_point list) \<Rightarrow> restore_db \<Rightarrow> restore_db" where
  "put_points f db = db\<lparr>rd_points := f (rd_points db)\<rparr>"

text \<open>The update that applies only while the row has one of the given statuses, and whether it did.\<close>

definition conditional_update ::
  "uuid \<Rightarrow> restore_point_status set \<Rightarrow> (restore_point \<Rightarrow> restore_point) \<Rightarrow> datetime \<Rightarrow> restore_db \<Rightarrow> restore_db \<times> bool" where
  "conditional_update i from_statuses g now db =
    (let hit = (\<lambda>p. pt_id p = i \<and> pt_status p \<in> from_statuses)
     in (put_points (map (\<lambda>p. if hit p then (g p)\<lparr>pt_updated_at := now\<rparr> else p)) db, \<exists>p \<in> set (rd_points db). hit p))"

definition mark_capturing :: "uuid \<Rightarrow> datetime \<Rightarrow> restore_db \<Rightarrow> restore_db \<times> bool" where
  "mark_capturing i = conditional_update i {PtPENDING} (\<lambda>p. p\<lparr>pt_status := PtCAPTURING\<rparr>)"

definition mark_ready :: "uuid \<Rightarrow> json option \<Rightarrow> json option \<Rightarrow> datetime \<Rightarrow> restore_db \<Rightarrow> restore_db \<times> bool" where
  "mark_ready i bytes count now =
    conditional_update i NON_TERMINAL_STATUSES
      (\<lambda>p. p\<lparr>pt_status := PtREADY, pt_archive_bytes := bytes, pt_file_count := count, pt_captured_at := Some now,
              pt_failure_reason := None, pt_job_name := None\<rparr>) now"

definition mark_restored :: "uuid \<Rightarrow> bool \<Rightarrow> datetime \<Rightarrow> restore_db \<Rightarrow> restore_db \<times> bool" where
  "mark_restored i cancel_replay =
    conditional_update i {PtRESTORING}
      (\<lambda>p. let q = p\<lparr>pt_status := PtREADY, pt_failure_reason := None, pt_job_name := None\<rparr>
           in if cancel_replay then q\<lparr>pt_reapply_configuration := False, pt_configuration_error := None\<rparr> else q)"

definition mark_failed_restore_target_ready :: "uuid \<Rightarrow> datetime \<Rightarrow> restore_db \<Rightarrow> restore_db \<times> bool" where
  "mark_failed_restore_target_ready i =
    conditional_update i {PtFAILED} (\<lambda>p. p\<lparr>pt_status := PtREADY, pt_failure_reason := None\<rparr>)"

definition failed_point :: "string \<Rightarrow> restore_point \<Rightarrow> restore_point" where
  "failed_point reason p =
    p\<lparr>pt_status := PtFAILED, pt_failure_reason := Some reason, pt_job_name := None, pt_reapply_configuration := False\<rparr>"

definition mark_failed :: "uuid \<Rightarrow> string \<Rightarrow> datetime \<Rightarrow> restore_db \<Rightarrow> restore_db \<times> bool" where
  "mark_failed i reason = conditional_update i NON_TERMINAL_STATUSES (failed_point reason)"

definition mark_ready_row_failed :: "uuid \<Rightarrow> string \<Rightarrow> datetime \<Rightarrow> restore_db \<Rightarrow> restore_db \<times> bool" where
  "mark_ready_row_failed i reason = conditional_update i {PtREADY} (failed_point reason)"

text \<open>This one is not conditional (and \<open>onupdate\<close> sets the time).\<close>

definition mark_configuration_failed :: "uuid \<Rightarrow> string \<Rightarrow> datetime \<Rightarrow> restore_db \<Rightarrow> restore_db" where
  "mark_configuration_failed i reason now =
    put_points (map (\<lambda>p. if pt_id p = i
      then p\<lparr>pt_reapply_configuration := False, pt_configuration_error := Some reason, pt_updated_at := now\<rparr> else p))"

text \<open>Writing back the row of a capture that could not be provisioned: the two changed columns, whatever the rest is now.\<close>

definition save_failed_capture :: "uuid \<Rightarrow> string \<Rightarrow> datetime \<Rightarrow> restore_db \<Rightarrow> (restore_db \<times> unit) result" where
  "save_failed_capture i reason now db =
    bind_result (raise_if (point_by_id i db = None) (RuntimeError ''StaleDataError'')) (\<lambda>_.
      Inr (put_points (map (\<lambda>p. if pt_id p = i
        then p\<lparr>pt_status := PtFAILED, pt_failure_reason := Some reason, pt_updated_at := now\<rparr> else p)) db, ()))"

text \<open>Inserts, with the primary key and the unique index of active captures.\<close>

definition insert_point :: "restore_point \<Rightarrow> restore_db \<Rightarrow> restore_db result" where
  "insert_point p db =
    bind_result (raise_if (point_by_id (pt_id p) db \<noteq> None) (IntegrityError ''agent_restore_point_pkey'')) (\<lambda>_.
    bind_result (raise_if (pt_status p \<in> ACTIVE_CAPTURE_STATUSES \<and> has_active_capture (pt_agent_id p) db)
      (IntegrityError ''uq_agent_restore_point_active_capture'')) (\<lambda>_.
    Inr (put_points (row_add p) db)))"

definition delete_point :: "uuid \<Rightarrow> restore_db \<Rightarrow> restore_db \<times> bool" where
  "delete_point i db = (put_points (filter (\<lambda>p. pt_id p \<noteq> i)) db, point_by_id i db \<noteq> None)"

definition delete_for_agent :: "uuid \<Rightarrow> restore_db \<Rightarrow> restore_db" where
  "delete_for_agent aid = put_points (filter (\<lambda>p. pt_agent_id p \<noteq> aid))"

text \<open>The rows to reconcile, the oldest first; those that another transaction holds are skipped.\<close>

definition reconcilable :: "datetime \<Rightarrow> restore_point \<Rightarrow> bool" where
  "reconcilable stale_before p \<longleftrightarrow>
    pt_updated_at p \<le> stale_before \<and>
    (pt_status p \<in> NON_TERMINAL_STATUSES \<or> (pt_status p = PtREADY \<and> pt_reapply_configuration p))"

definition claim_restore_candidates ::
  "datetime \<Rightarrow> datetime \<Rightarrow> nat \<Rightarrow> uuid set \<Rightarrow> restore_db \<Rightarrow> restore_db \<times> restore_point list" where
  "claim_restore_candidates now stale_before limit locked db =
    (let claimed = take limit (sort_key pt_updated_at (row_where (\<lambda>p. reconcilable stale_before p \<and> pt_id p \<notin> locked) (rd_points db)));
         stamp = (\<lambda>p. p\<lparr>pt_updated_at := now\<rparr>)
     in (put_points (map (\<lambda>p. if pt_id p \<in> pt_id ` set claimed then stamp p else p)) db, map stamp claimed))"

section \<open>Transactions with an event\<close>

text \<open>Drawn identifiers: 0 is the event, 1 its correlation, the rest are the rows of the outbox.\<close>

record point_event =
  pe_name :: string
  pe_actor :: actor_identity
  pe_organization_id :: uuid
  pe_payload :: json

definition stage_point_event ::
  "event_registry \<Rightarrow> (nat \<Rightarrow> uuid) \<Rightarrow> datetime \<Rightarrow> uuid \<Rightarrow> point_event \<Rightarrow> restore_db \<Rightarrow> (restore_db \<times> uuid list) result" where
  "stage_point_event reg ids now aid e db =
    bind_result (build_event reg (ids 0)
      \<lparr>rq_event_name = pe_name e, rq_schema_version = 1, rq_occurred_at = now, rq_organization_id = Some (pe_organization_id e),
       rq_actor = pe_actor e,
       rq_subject = \<lparr>subject_type = SubjectAgent, subject_id = uuid_str aid, subject_organization_id = Some (pe_organization_id e)\<rparr>,
       rq_correlation_id = ids 1, rq_payload = pe_payload e, rq_causation_id = None, rq_event_scope = None\<rparr>) (\<lambda>ev.
    bind_result (outbox_stage (\<lambda>i. ids (i + 2)) now ev reg (rd_events db)) (\<lambda>(events, m).
    Inr (db\<lparr>rd_events := events\<rparr>, map dl_id (row_where (\<lambda>d. dl_event_id d = ev_event_id ev) (event_deliveries events)))))"

definition save_with_event ::
  "event_registry \<Rightarrow> (nat \<Rightarrow> uuid) \<Rightarrow> datetime \<Rightarrow> restore_point \<Rightarrow> point_event \<Rightarrow> restore_db \<Rightarrow> (restore_db \<times> uuid list) result" where
  "save_with_event reg ids now p e db =
    bind_result (insert_point p db) (stage_point_event reg ids now (pt_agent_id p) e)"

text \<open>What a restore writes on its target.\<close>

record restore_intent =
  want_job_name :: string
  want_reapply_configuration :: bool
  want_user_id :: uuid
  want_display :: string

definition begin_restoring :: "restore_intent \<Rightarrow> datetime \<Rightarrow> restore_point \<Rightarrow> restore_point" where
  "begin_restoring r now p =
    p\<lparr>pt_status := PtRESTORING, pt_job_name := Some (want_job_name r), pt_reapply_configuration := want_reapply_configuration r,
      pt_configuration_error := None, pt_restored_by_user_id := Some (want_user_id r), pt_restored_by_display := Some (want_display r),
      pt_updated_at := now\<rparr>"

definition begin_restore_with_event ::
  "event_registry \<Rightarrow> (nat \<Rightarrow> uuid) \<Rightarrow> datetime \<Rightarrow> uuid \<Rightarrow> restore_intent \<Rightarrow> point_event \<Rightarrow> restore_db \<Rightarrow>
    (restore_db \<times> uuid list option) result" where
  "begin_restore_with_event reg ids now i r e db =
    (case find (\<lambda>p. pt_id p = i \<and> pt_status p = PtREADY) (rd_points db) of
       None \<Rightarrow> Inr (db, None)
     | Some p \<Rightarrow>
         bind_result (stage_point_event reg ids now (pt_agent_id p) e
           (put_points (map (\<lambda>q. if pt_id q = i then begin_restoring r now q else q)) db)) (\<lambda>(db1, delivery_ids).
         Inr (db1, Some delivery_ids)))"

definition delete_with_event ::
  "event_registry \<Rightarrow> (nat \<Rightarrow> uuid) \<Rightarrow> datetime \<Rightarrow> restore_point \<Rightarrow> point_event \<Rightarrow> restore_db \<Rightarrow> (restore_db \<times> uuid list) result" where
  "delete_with_event reg ids now p e db =
    bind_result (stage_point_event reg ids now (pt_agent_id p) e db) (\<lambda>(db1, delivery_ids).
      Inr (put_points (filter (\<lambda>q. pt_id q \<noteq> pt_id p)) db1, delivery_ids))"


section \<open>Writing a configuration\<close>

text \<open>
  \<open>ResolvedSelection\<close>: what the validation of a selection (a parameter of the service) found. The updates of single
  columns are a dict: \<open>Some\<close> where it has the key, in the order of the record.
\<close>

record resolved_selection =
  res_selected_id :: uuid
  res_template_key :: "string option"
  res_version :: "int option"
  res_skill_pins :: "(uuid \<times> int) list"
  res_removed_skill_ids :: "uuid list"
  res_approval_mode :: "string option"
  res_verbose_mode :: "bool option"
  res_max_turns :: "int option option"
  res_model :: "string option"

definition pin_settings :: "string \<Rightarrow> resolved_selection \<Rightarrow> datetime \<Rightarrow> agent_settings \<Rightarrow> agent_settings" where
  "pin_settings kind r now s =
    s\<lparr>as_platform_template_id := (if kind = ''platform'' then Some (res_selected_id r) else None),
      as_agent_template_id := (if kind = ''organization'' then Some (res_selected_id r) else None),
      as_override_version_id := (if kind = ''override'' then Some (res_selected_id r) else None),
      as_approval_mode := case_option (as_approval_mode s) id (res_approval_mode r),
      as_verbose_mode := case_option (as_verbose_mode s) id (res_verbose_mode r),
      as_max_turns := case_option (as_max_turns s) id (res_max_turns r),
      as_model := case_option (as_model s) id (res_model r),
      as_updated_at := now\<rparr>"

definition opt_int :: "int option \<Rightarrow> json" where
  "opt_int x = (case x of None \<Rightarrow> JNull | Some n \<Rightarrow> JInt n)"

definition opt_string :: "string option \<Rightarrow> json" where
  "opt_string x = (case x of None \<Rightarrow> JNull | Some s \<Rightarrow> JStr s)"

definition field_change :: "string \<Rightarrow> ('v \<Rightarrow> json) \<Rightarrow> 'v \<Rightarrow> 'v option \<Rightarrow> (json_key \<times> json) list" where
  "field_change name show_value old new =
    (case new of
       None \<Rightarrow> []
     | Some v \<Rightarrow> if v = old then []
         else [(KStr name, JObj [(KStr ''previous'', show_value old), (KStr ''new'', show_value v)])])"

definition field_changes :: "resolved_selection \<Rightarrow> agent_settings \<Rightarrow> (json_key \<times> json) list" where
  "field_changes r s =
    field_change ''approval_mode'' JStr (as_approval_mode s) (res_approval_mode r) @
    field_change ''verbose_mode'' JBool (as_verbose_mode s) (res_verbose_mode r) @
    field_change ''max_turns'' opt_int (as_max_turns s) (res_max_turns r) @
    field_change ''model'' JStr (as_model s) (res_model r)"

definition pin_skill :: "uuid \<Rightarrow> uuid \<times> int \<Rightarrow> assigned_skill list \<Rightarrow> assigned_skill list" where
  "pin_skill aid pin ks =
    (if \<exists>k \<in> set ks. ak_agent_id k = aid \<and> ak_skill_id k = fst pin
     then map (\<lambda>k. if ak_agent_id k = aid \<and> ak_skill_id k = fst pin then k\<lparr>ak_pinned_version := snd pin\<rparr> else k) ks
     else row_add \<lparr>ak_agent_id = aid, ak_skill_id = fst pin, ak_pinned_version = snd pin\<rparr> ks)"

definition pin_skills :: "uuid \<Rightarrow> resolved_selection \<Rightarrow> assigned_skill list \<Rightarrow> assigned_skill list" where
  "pin_skills aid r ks =
    fold (pin_skill aid) (res_skill_pins r)
      (filter (\<lambda>k. \<not> (ak_agent_id k = aid \<and> ak_skill_id k \<in> set (res_removed_skill_ids r))) ks)"

text \<open>The replay of a restore point is finished in the same transaction.\<close>

definition finish_replay :: "uuid \<Rightarrow> uuid \<Rightarrow> datetime \<Rightarrow> restore_db \<Rightarrow> restore_db result" where
  "finish_replay i aid now db =
    bind_result (raise_if (\<not> (\<exists>p \<in> set (rd_points db). pt_id p = i \<and> pt_agent_id p = aid))
      (RuntimeError ''Restore point no longer exists'')) (\<lambda>_.
    Inr (put_points (map (\<lambda>p. if pt_id p = i \<and> pt_agent_id p = aid \<and> (pt_reapply_configuration p \<or> pt_configuration_error p \<noteq> None)
      then p\<lparr>pt_reapply_configuration := False, pt_configuration_error := None, pt_updated_at := now\<rparr> else p)) db))"

text \<open>The arguments of a selection; drawn identifiers: the first event has the even ones, the second the odd ones.\<close>

record pin_call =
  pc_registry :: event_registry
  pc_ids :: "nat \<Rightarrow> uuid"
  pc_now :: datetime
  pc_actor :: actor_identity
  pc_actor_display :: string

fun actor_type_value :: "actor_identity_type \<Rightarrow> string" where
  "actor_type_value ActorMembership = ''MEMBERSHIP''"
| "actor_type_value ActorUser = ''USER''"
| "actor_type_value ActorSystem = ''SYSTEM''"
| "actor_type_value ActorRuntime = ''RUNTIME''"

definition updated_event :: "pin_call \<Rightarrow> agent \<Rightarrow> (json_key \<times> json) list \<Rightarrow> point_event" where
  "updated_event c a changes =
    \<lparr>pe_name = ''agent.updated'', pe_actor = pc_actor c, pe_organization_id = agent_organization_id a,
     pe_payload = JObj [(KStr ''organization_id'', JStr (uuid_str (agent_organization_id a))),
       (KStr ''agent_id'', JStr (uuid_str (agent_id a))), (KStr ''field_changes'', JObj changes),
       (KStr ''actor_display'', JStr (if pc_actor_display c = [] then actor_type_value (actor_type (pc_actor c)) else pc_actor_display c)),
       (KStr ''subject_display'', JStr (agent_name a))]\<rparr>"

definition selected_event :: "pin_call \<Rightarrow> agent \<Rightarrow> string \<Rightarrow> resolved_selection \<Rightarrow> point_event" where
  "selected_event c a kind r =
    \<lparr>pe_name = ''agent.template_override.selected'', pe_actor = pc_actor c, pe_organization_id = agent_organization_id a,
     pe_payload = JObj [(KStr ''organization_id'', JStr (uuid_str (agent_organization_id a))),
       (KStr ''agent_id'', JStr (uuid_str (agent_id a))), (KStr ''selection_type'', JStr kind),
       (KStr ''selected_id'', JStr (uuid_str (res_selected_id r))), (KStr ''selected_version'', opt_int (res_version r)),
       (KStr ''template_key'', opt_string (res_template_key r)), (KStr ''actor_display'', JStr (pc_actor_display c)),
       (KStr ''subject_display'', JStr (agent_name a))]\<rparr>"

definition select_pin ::
  "pin_call \<Rightarrow> uuid \<Rightarrow> uuid \<Rightarrow> string \<Rightarrow> datetime \<Rightarrow> resolved_selection \<Rightarrow> uuid \<Rightarrow> restore_db \<Rightarrow> (restore_db \<times> unit) result" where
  "select_pin c aid org kind expected r restored_id db =
    (case agent_row aid db of
       None \<Rightarrow> Inl (ValueError ''Agent not found'')
     | Some (a, s) \<Rightarrow>
         bind_result (raise_if (agent_organization_id a \<noteq> org) (ValueError ''Agent not found'')) (\<lambda>_.
         bind_result (raise_if (as_updated_at s \<noteq> expected) (RuntimeError ''The resource changed; reload and try again'')) (\<lambda>_.
         bind_result (finish_replay restored_id aid (pc_now c) db) (\<lambda>db1.
         let db2 = db1\<lparr>rd_settings := row_put as_agent_id (pin_settings kind r (pc_now c) s) (rd_settings db1),
                       rd_skills := pin_skills aid r (rd_skills db1)\<rparr>;
             changes = field_changes r s
         in bind_result (if changes = [] then Inr (db2, [])
              else stage_point_event (pc_registry c) (\<lambda>n. pc_ids c (2 * n)) (pc_now c) aid (updated_event c a changes) db2) (\<lambda>(db3, _).
         bind_result (stage_point_event (pc_registry c) (\<lambda>n. pc_ids c (2 * n + 1)) (pc_now c) aid (selected_event c a kind r) db3) (\<lambda>(db4, _).
         Inr (db4, ())))))))"

end
