(* ===== verification/Restore_Point_Service.thy ===== *)
theory Restore_Point_Service
  imports Restore_Points
begin

text \<open>
  What is done with restore points (\<open>restore_points/service.py\<close>): capture, restore with its safety copy, replay of the
  recorded configuration, deletion, and reconciliation of the rows with the Jobs of the cluster; and the sweep of
  \<open>restore_points/reconciliation.py\<close>. The cluster is a record of functions over its state, each of which may raise.
\<close>

section \<open>The cluster\<close>

text \<open>A Job as it is read: the counts of its status, its conditions (type, status, reason), and the names of the
  variables of its containers (none where the specification cannot be read).\<close>

record job_status =
  js_succeeded :: nat
  js_failed :: nat
  js_active :: nat
  js_conditions :: "(string \<times> string \<times> string) list"

record cluster_job =
  cj_status :: "job_status option"
  cj_env_names :: "string list"

text \<open>A volume or Job as it is listed.\<close>

record cluster_object =
  co_name :: string
  co_label_id :: "string option"
  co_created_at :: "datetime option"

record volume_request =
  vr_restore_point_id :: uuid
  vr_agent_id :: uuid
  vr_organization_id :: uuid

text \<open>\<open>jr_backup_pvc\<close> is the volume of the safety copy; a capture has none and writes to \<open>jr_archive_pvc\<close>.\<close>

record job_request =
  jr_name :: string
  jr_restore_point_id :: uuid
  jr_agent_id :: uuid
  jr_organization_id :: uuid
  jr_mode :: string
  jr_runtime :: string
  jr_agent_pvc :: string
  jr_backup_pvc :: "string option"
  jr_archive_pvc :: string

type_synonym ('k, 'a) cluster_call = "'k \<Rightarrow> 'k \<times> 'a result"

record 'k cluster_client =
  kc_get_job :: "string \<Rightarrow> ('k, cluster_job option) cluster_call"
  kc_get_pod_name_for_job :: "string \<Rightarrow> ('k, string option) cluster_call"
  kc_get_job_exit_code :: "string \<Rightarrow> ('k, int option) cluster_call"
  kc_read_job_logs :: "string \<Rightarrow> ('k, string option) cluster_call"
  kc_create_job :: "job_request \<Rightarrow> ('k, unit) cluster_call"
  kc_delete_job :: "string \<Rightarrow> ('k, unit) cluster_call"
  kc_has_pvc :: "string \<Rightarrow> ('k, bool) cluster_call"
  kc_create_pvc :: "volume_request \<Rightarrow> ('k, unit) cluster_call"
  kc_delete_pvc :: "string \<Rightarrow> ('k, unit) cluster_call"
  kc_list_jobs :: "string \<Rightarrow> ('k, cluster_object list) cluster_call"
  kc_list_pvcs :: "string \<Rightarrow> ('k, cluster_object list) cluster_call"
  kc_has_pods_for_deployment :: "string \<Rightarrow> ('k, bool) cluster_call"
  kc_monotonic :: "'k \<Rightarrow> int"
  kc_sleep :: "int \<Rightarrow> 'k \<Rightarrow> 'k"

section \<open>State and environment\<close>

text \<open>\<open>rw_held\<close>: the Agents whose lifecycle lock another session holds.\<close>

record 'k restore_world =
  rw_db :: restore_db
  rw_cluster :: 'k
  rw_held :: "uuid set"

type_synonym ('k, 'a) restore_act = "('k restore_world, error, 'a) action"

datatype provisioning_operation = ProvisionRESTORE | ProvisionBACKUP

text \<open>
  Configuration, and what is outside: \<open>json.loads\<close> (\<open>None\<close> where it raises), the wording of a failure of the cluster,
  the broker, and the validation of a selection.
\<close>

record 'k restore_env =
  re_client :: "'k cluster_client"
  re_registry :: event_registry
  re_max_per_agent :: nat
  re_loads :: "string \<Rightarrow> json option"
  re_friendly_error :: "provisioning_operation \<Rightarrow> error \<Rightarrow> string"
  re_accepts :: "uuid \<Rightarrow> bool"
  re_resolve :: "restore_db \<Rightarrow> agent \<Rightarrow> template_selection \<Rightarrow> uuid \<Rightarrow> resolved_selection result"

definition reading :: "(restore_db \<Rightarrow> 'a) \<Rightarrow> ('k, 'a) restore_act" where
  "reading f w = Some (w, Inr (f (rw_db w)))"

definition updating :: "(restore_db \<Rightarrow> restore_db \<times> 'a) \<Rightarrow> ('k, 'a) restore_act" where
  "updating f w = (case f (rw_db w) of (db, x) \<Rightarrow> Some (w\<lparr>rw_db := db\<rparr>, Inr x))"

definition transaction :: "(restore_db \<Rightarrow> (restore_db \<times> 'a) result) \<Rightarrow> ('k, 'a) restore_act" where
  "transaction f w =
    Some (case f (rw_db w) of Inl e \<Rightarrow> (w, Inl e) | Inr (db, x) \<Rightarrow> (w\<lparr>rw_db := db\<rparr>, Inr x))"

definition calling :: "('k, 'a) cluster_call \<Rightarrow> ('k, 'a) restore_act" where
  "calling m w = (case m (rw_cluster w) of (k, r) \<Rightarrow> Some (w\<lparr>rw_cluster := k\<rparr>, r))"

definition lifted :: "'a result \<Rightarrow> ('k, 'a) restore_act" where
  "lifted r w = Some (w, r)"

text \<open>\<open>with lifecycle_lock(agent_id) as acquired\<close>.\<close>

definition with_lifecycle_lock :: "uuid \<Rightarrow> (bool \<Rightarrow> ('k, 'a) restore_act) \<Rightarrow> ('k, 'a) restore_act" where
  "with_lifecycle_lock aid f w = f (aid \<notin> rw_held w) w"

text \<open>\<open>except Exception: logger.warning(...)\<close>.\<close>

definition logged :: "('k, unit) restore_act \<Rightarrow> ('k, unit) restore_act" where
  "logged m = catch m (\<lambda>_. Some (ret ()))"

definition conflict :: "string \<Rightarrow> error" where
  "conflict detail = HTTPException 409 detail"

section \<open>Reading Jobs\<close>

text \<open>\<open>str.splitlines\<close>.\<close>

definition line_break :: "char \<Rightarrow> bool" where
  "line_break c \<longleftrightarrow> (let n = of_char c :: nat in (10 \<le> n \<and> n \<le> 13) \<or> (28 \<le> n \<and> n \<le> 30) \<or> n = 133)"

fun split_lines_from :: "string \<Rightarrow> string \<Rightarrow> string list" where
  "split_lines_from line [] = (if line = [] then [] else [line])"
| "split_lines_from line (c # s) =
    (if line_break c then line # split_lines_from [] (if c = char_of (13 :: nat) \<and> s \<noteq> [] \<and> hd s = char_of (10 :: nat) then tl s else s)
     else split_lines_from (line @ [c]) s)"

definition split_lines :: "string \<Rightarrow> string list" where
  "split_lines = split_lines_from []"

definition manifest_from_line :: "(string \<Rightarrow> json option) \<Rightarrow> string \<Rightarrow> (json_key \<times> json) list option" where
  "manifest_from_line loads line =
    (let text = strip_by py_space line
     in if \<not> prefix ''{'' text then None
        else case loads text of Some (JObj entries) \<Rightarrow> Some entries | _ \<Rightarrow> None)"

fun first_manifest :: "(string \<Rightarrow> json option) \<Rightarrow> string list \<Rightarrow> (json_key \<times> json) list" where
  "first_manifest loads [] = []"
| "first_manifest loads (line # rest) =
    (case manifest_from_line loads line of Some m \<Rightarrow> m | None \<Rightarrow> first_manifest loads rest)"

definition parse_manifest :: "(string \<Rightarrow> json option) \<Rightarrow> string \<Rightarrow> (json_key \<times> json) list" where
  "parse_manifest loads logs = first_manifest loads (rev (split_lines logs))"

definition deadline_exceeded :: "job_status \<Rightarrow> bool" where
  "deadline_exceeded s \<longleftrightarrow> (''Failed'', ''True'', ''DeadlineExceeded'') \<in> set (js_conditions s)"

definition ENV_BACKUP :: string where
  "ENV_BACKUP = ''RESTORE_POINT_BACKUP''"

definition ran_safety_copy :: "cluster_job \<Rightarrow> bool" where
  "ran_safety_copy j \<longleftrightarrow> ENV_BACKUP \<in> set (cj_env_names j)"

datatype restore_outcome = OutcomeBACKUP_FAILED | OutcomeEXTRACTION_FAILED | OutcomeUNKNOWN

definition EXIT_BACKUP_FAILED :: int where
  "EXIT_BACKUP_FAILED = 2"

definition EXIT_RESTORE_FAILED :: int where
  "EXIT_RESTORE_FAILED = 3"

definition job_of :: "restore_point \<Rightarrow> string" where
  "job_of p = case_option [] id (pt_job_name p)"

definition restore_outcome_of :: "'k restore_env \<Rightarrow> cluster_job \<Rightarrow> string \<Rightarrow> ('k, restore_outcome) restore_act" where
  "restore_outcome_of env j name =
    andthen (calling (kc_get_pod_name_for_job (re_client env) name)) (\<lambda>pod.
    if pod = None then ret OutcomeUNKNOWN
    else andthen (calling (kc_get_job_exit_code (re_client env) name)) (\<lambda>code.
    if code = Some EXIT_BACKUP_FAILED then ret OutcomeBACKUP_FAILED
    else if code = Some EXIT_RESTORE_FAILED then ret OutcomeEXTRACTION_FAILED
    else if \<not> ran_safety_copy j then ret OutcomeEXTRACTION_FAILED
    else andthen (calling (kc_read_job_logs (re_client env) name)) (\<lambda>logs.
    case logs of
      None \<Rightarrow> ret OutcomeUNKNOWN
    | Some text \<Rightarrow> ret (if parse_manifest (re_loads env) text \<noteq> [] then OutcomeEXTRACTION_FAILED else OutcomeBACKUP_FAILED))))"

definition job_failure_reason :: "'k restore_env \<Rightarrow> string \<Rightarrow> ('k, string) restore_act" where
  "job_failure_reason env name =
    andthen (calling (kc_read_job_logs (re_client env) name)) (\<lambda>logs.
    let lines = (case logs of
          None \<Rightarrow> []
        | Some text \<Rightarrow> map (strip_by py_space)
            (filter (\<lambda>line. strip_by py_space line \<noteq> [] \<and> manifest_from_line (re_loads env) line = None) (split_lines text)))
    in ret (if lines = [] then ''The operation failed. Check the cluster logs for details.'' else last lines))"

definition is_restore :: "restore_point \<Rightarrow> bool" where
  "is_restore p \<longleftrightarrow> pt_status p = PtRESTORING \<or> pt_origin p = OriginPRE_RESTORE"

definition failure_reason :: "'k restore_env \<Rightarrow> restore_point \<Rightarrow> job_status \<Rightarrow> ('k, string) restore_act" where
  "failure_reason env p s =
    (if deadline_exceeded s then
       ret (''The operation did not finish within its time limit. Raise '' @
         (if is_restore p then ''RESTORE_POINT_RESTORE_TIMEOUT_SECONDS'' else ''RESTORE_POINT_CAPTURE_TIMEOUT_SECONDS'') @
         '' for large Agent volumes.'')
     else job_failure_reason env (job_of p))"

definition read_manifest :: "'k restore_env \<Rightarrow> restore_point \<Rightarrow> ('k, (json_key \<times> json) list) restore_act" where
  "read_manifest env p =
    (if job_of p = [] then ret []
     else andthen (calling (kc_read_job_logs (re_client env) (job_of p))) (\<lambda>logs.
       ret (case logs of None \<Rightarrow> [] | Some text \<Rightarrow> parse_manifest (re_loads env) text)))"

section \<open>Resolving rows from their Jobs\<close>

definition MAX_FAILURE_REASON :: nat where
  "MAX_FAILURE_REASON = 500"

definition RECONCILIATION_GRACE_SECONDS :: int where
  "RECONCILIATION_GRACE_SECONDS = 60"

definition json_get :: "string \<Rightarrow> (json_key \<times> json) list \<Rightarrow> json option" where
  "json_get name entries =
    (case map_of entries (KStr name) of None \<Rightarrow> None | Some v \<Rightarrow> if v = JNull then None else Some v)"

definition succeed_point :: "'k restore_env \<Rightarrow> datetime \<Rightarrow> restore_point \<Rightarrow> ('k, unit) restore_act" where
  "succeed_point env now p =
    andthen (read_manifest env p) (\<lambda>manifest.
    andthen (updating (mark_ready (pt_id p) (json_get ''bytes'' manifest) (json_get ''file_count'' manifest) now)) (\<lambda>_.
    ret ()))"

definition fail_point :: "datetime \<Rightarrow> restore_point \<Rightarrow> string \<Rightarrow> ('k, bool) restore_act" where
  "fail_point now p reason = updating (mark_failed (pt_id p) (take MAX_FAILURE_REASON reason) now)"

text \<open>The volume goes only when this call is the one that failed the row.\<close>

definition fail_capture :: "'k restore_env \<Rightarrow> datetime \<Rightarrow> restore_point \<Rightarrow> string \<Rightarrow> ('k, unit) restore_act" where
  "fail_capture env now p reason =
    andthen (fail_point now p reason) (\<lambda>failed.
    only_if (failed \<and> pt_pvc_name p \<noteq> []) (calling (kc_delete_pvc (re_client env) (pt_pvc_name p))))"

definition resolve_untracked :: "'k restore_env \<Rightarrow> datetime \<Rightarrow> bool \<Rightarrow> restore_point \<Rightarrow> string \<Rightarrow> ('k, unit) restore_act" where
  "resolve_untracked env now respect_grace p reason =
    (if respect_grace \<and> pt_updated_at p > now - seconds RECONCILIATION_GRACE_SECONDS then ret ()
     else if pt_status p = PtRESTORING then andthen (fail_point now p reason) (\<lambda>_. ret ())
     else fail_capture env now p reason)"

definition replay_cancelled :: string where
  "replay_cancelled = ''The restore did not complete, so the recorded configuration was not applied.''"

definition resolve_failure :: "'k restore_env \<Rightarrow> datetime \<Rightarrow> restore_point \<Rightarrow> cluster_job \<Rightarrow> job_status \<Rightarrow> ('k, unit) restore_act" where
  "resolve_failure env now p j s =
    andthen (failure_reason env p s) (\<lambda>reason.
    if \<not> is_restore p then fail_capture env now p reason
    else andthen (restore_outcome_of env j (job_of p)) (\<lambda>outcome.
    if pt_status p = PtRESTORING then
      andthen (only_if (pt_reapply_configuration p)
        (updating (\<lambda>db. (mark_configuration_failed (pt_id p) replay_cancelled now db, ())))) (\<lambda>_.
      if outcome = OutcomeBACKUP_FAILED then andthen (updating (mark_restored (pt_id p) False now)) (\<lambda>_. ret ())
      else andthen (fail_point now p reason) (\<lambda>_. ret ()))
    else if outcome = OutcomeEXTRACTION_FAILED then succeed_point env now p
    else if outcome = OutcomeBACKUP_FAILED then fail_capture env now p reason
    else andthen (fail_point now p reason) (\<lambda>_. ret ())))"

definition reconcile_row :: "'k restore_env \<Rightarrow> datetime \<Rightarrow> bool \<Rightarrow> restore_point \<Rightarrow> ('k, unit) restore_act" where
  "reconcile_row env now respect_grace p =
    (if pt_status p \<in> TERMINAL_STATUSES then ret ()
     else if job_of p = [] then resolve_untracked env now respect_grace p ''The restore point has no job to track.''
     else andthen (calling (kc_get_job (re_client env) (job_of p))) (\<lambda>job.
     case job of
       None \<Rightarrow> resolve_untracked env now respect_grace p ''The job that was running this operation is no longer available.''
     | Some j \<Rightarrow>
         (case cj_status j of
            None \<Rightarrow> ret ()
          | Some s \<Rightarrow>
              if js_succeeded s \<noteq> 0 then
                (if pt_status p = PtRESTORING then andthen (updating (mark_restored (pt_id p) False now)) (\<lambda>_. ret ())
                 else succeed_point env now p)
              else if js_failed s \<noteq> 0 then resolve_failure env now p j s
              else only_if (pt_status p = PtPENDING \<and> js_active s \<noteq> 0)
                (andthen (updating (mark_capturing (pt_id p) now)) (\<lambda>_. ret ())))))"

section \<open>Replay of the recorded configuration\<close>

text \<open>\<open>_recorded_selection\<close> and \<open>_write_recorded_configuration\<close>; a call has drawn identifiers.\<close>

definition recorded_selection :: "agent_settings \<Rightarrow> restore_point \<Rightarrow> template_selection result" where
  "recorded_selection s p =
    bind_result (selection_from_manifest (pt_config_manifest p) (as_updated_at s)) (\<lambda>selection.
      case selection of
        None \<Rightarrow> Inl (HTTPException 400 ''This restore point predates the recorded configuration, so there is nothing to re-apply.'')
      | Some x \<Rightarrow> Inr x)"

definition skill_ids_of :: "uuid \<Rightarrow> restore_db \<Rightarrow> uuid list" where
  "skill_ids_of aid db = map ak_skill_id (row_where (\<lambda>k. ak_agent_id k = aid) (rd_skills db))"

definition replay_selection :: "agent \<Rightarrow> agent_settings \<Rightarrow> restore_point \<Rightarrow> restore_db \<Rightarrow> template_selection result" where
  "replay_selection a s p db =
    bind_result (recorded_selection s p) (\<lambda>x.
      Inr (x\<lparr>sel_removed_skill_ids := filter (\<lambda>i. i \<notin> set (sel_skill_ids x)) (skill_ids_of (agent_id a) db)\<rparr>))"

definition write_recorded_configuration ::
  "'k restore_env \<Rightarrow> pin_call \<Rightarrow> agent \<Rightarrow> agent_settings \<Rightarrow> restore_point \<Rightarrow> ('k, unit) restore_act" where
  "write_recorded_configuration env c a s p =
    andthen (reading id) (\<lambda>db.
    andthen (lifted (replay_selection a s p db)) (\<lambda>x.
    andthen (lifted (re_resolve env db a x (agent_organization_id a))) (\<lambda>r.
    transaction (select_pin c (agent_id a) (agent_organization_id a) (sel_type x) (as_updated_at s) r (pt_id p)))))"

definition replay_actor :: "restore_point \<Rightarrow> agent \<Rightarrow> actor_identity" where
  "replay_actor p a =
    (case pt_restored_by_user_id p of
       None \<Rightarrow> \<lparr>actor_type = ActorSystem, actor_id = ''restore-points'', actor_organization_id = Some (agent_organization_id a)\<rparr>
     | Some u \<Rightarrow> \<lparr>actor_type = ActorUser, actor_id = uuid_str u, actor_organization_id = Some (agent_organization_id a)\<rparr>)"

definition replay_call :: "'k restore_env \<Rightarrow> (nat \<Rightarrow> uuid) \<Rightarrow> datetime \<Rightarrow> restore_point \<Rightarrow> agent \<Rightarrow> pin_call" where
  "replay_call env ids now p a =
    \<lparr>pc_registry = re_registry env, pc_ids = ids, pc_now = now, pc_actor = replay_actor p a,
     pc_actor_display = (case pt_restored_by_display p of None \<Rightarrow> ''Agent Barn'' | Some d \<Rightarrow> if d = [] then ''Agent Barn'' else d)\<rparr>"

definition replay_failure :: "error \<Rightarrow> string" where
  "replay_failure e =
    (case e of HTTPException code detail \<Rightarrow> take MAX_FAILURE_REASON detail | _ \<Rightarrow> ''The recorded configuration could not be re-applied.'')"

definition apply_owed_replay :: "'k restore_env \<Rightarrow> (nat \<Rightarrow> uuid) \<Rightarrow> datetime \<Rightarrow> restore_point \<Rightarrow> ('k, unit) restore_act" where
  "apply_owed_replay env ids now p =
    with_lifecycle_lock (pt_agent_id p) (\<lambda>acquired.
    if \<not> acquired then ret ()
    else andthen (reading id) (\<lambda>db.
    case agent_row (pt_agent_id p) db of
      None \<Rightarrow> ret ()
    | Some (a, s) \<Rightarrow>
        if agent_status a = RUNNING then ret ()
        else (case find (\<lambda>q. pt_id q = pt_id p) (owing_replay (pt_agent_id p) db) of
            None \<Rightarrow> ret ()
          | Some q \<Rightarrow>
              catch (write_recorded_configuration env (replay_call env ids now q a) a s q)
                (\<lambda>e. Some (updating (\<lambda>db. (mark_configuration_failed (pt_id q) (replay_failure e) now db, ())))))))"

text \<open>Drawn identifiers of the i-th replay: those at \<open>i\<close>.\<close>

definition reconcile_agent_points :: "'k restore_env \<Rightarrow> (nat \<Rightarrow> nat \<Rightarrow> uuid) \<Rightarrow> datetime \<Rightarrow> uuid \<Rightarrow> ('k, unit) restore_act" where
  "reconcile_agent_points env ids now aid =
    andthen (reading (non_terminal_points aid)) (\<lambda>ps.
    andthen (each ps (\<lambda>p. logged (reconcile_row env now True p))) (\<lambda>_.
    andthen (reading (owing_replay aid)) (\<lambda>owed.
    each (enumerate 0 owed) (\<lambda>(i, p). logged (apply_owed_replay env (ids i) now p)))))"

definition has_blocking_operation :: "'k restore_env \<Rightarrow> (nat \<Rightarrow> nat \<Rightarrow> uuid) \<Rightarrow> datetime \<Rightarrow> uuid \<Rightarrow> ('k, bool) restore_act" where
  "has_blocking_operation env ids now aid =
    andthen (reconcile_agent_points env ids now aid) (\<lambda>_.
    reading (\<lambda>db. has_non_terminal_operation aid db \<or> owing_replay aid db \<noteq> []))"

section \<open>What people and managed updates ask for\<close>

text \<open>Drawn identifiers of a request: of the new restore point, of its event, of replays, and the token of a Job's name.\<close>

record 'k restore_request =
  pr_env :: "'k restore_env"
  pr_context :: current_user_context
  pr_now :: datetime
  pr_new_id :: uuid
  pr_event_ids :: "nat \<Rightarrow> uuid"
  pr_replay_ids :: "nat \<Rightarrow> nat \<Rightarrow> uuid"
  pr_token :: string

definition no_permission :: string where
  "no_permission = ''You don't have permission to perform this action.''"

definition CAPTURE_IN_FLIGHT_DETAIL :: string where
  "CAPTURE_IN_FLIGHT_DETAIL = ''A restore point operation is already in progress for this Agent.''"

definition NOT_READY_DETAIL :: string where
  "NOT_READY_DETAIL = ''Only a ready restore point can be restored.''"

definition AGENT_RUNNING_RESTORE_DETAIL :: string where
  "AGENT_RUNNING_RESTORE_DETAIL = ''Stop the Agent before restoring a restore point.''"

definition point_not_found :: "uuid \<Rightarrow> error" where
  "point_not_found i = HTTPException 404 (''Restore point '' @ uuid_str i @ '' not found'')"

definition user_display :: "current_user_context \<Rightarrow> string" where
  "user_display ctx =
    (case user_full_name (ctx_user ctx) of Some n \<Rightarrow> if n \<noteq> [] then n else user_email (ctx_user ctx) | None \<Rightarrow> user_email (ctx_user ctx))"

definition point_event_of :: "string \<Rightarrow> current_user_context \<Rightarrow> agent \<Rightarrow> restore_point \<Rightarrow> point_event" where
  "point_event_of name ctx a p =
    \<lparr>pe_name = name, pe_actor = resolve_actor_identity ctx (agent_organization_id a), pe_organization_id = agent_organization_id a,
     pe_payload = JObj [(KStr ''organization_id'', JStr (uuid_str (agent_organization_id a))), (KStr ''agent_id'', JStr (uuid_str (agent_id a))),
       (KStr ''agent_name'', JStr (agent_name a)), (KStr ''restore_point_id'', JStr (uuid_str (pt_id p))),
       (KStr ''origin'', JStr (origin_value (pt_origin p))), (KStr ''label'', opt_string (pt_label p)),
       (KStr ''actor_display'', JStr (user_display ctx)), (KStr ''subject_display'', JStr (agent_name a))]\<rparr>"

definition dispatch_deliveries :: "'k restore_env \<Rightarrow> datetime \<Rightarrow> uuid list \<Rightarrow> ('k, unit) restore_act" where
  "dispatch_deliveries env now delivery_ids =
    updating (\<lambda>db. (db\<lparr>rd_events := fst (enqueue_immediate (re_accepts env) now delivery_ids (rd_events db, []))\<rparr>, ()))"

text \<open>Waiting until no pod of the Agent is left; one round, and the loop.\<close>

definition POD_TERMINATION_TIMEOUT_SECONDS :: int where
  "POD_TERMINATION_TIMEOUT_SECONDS = 30"

definition POD_TERMINATION_POLL_SECONDS :: int where
  "POD_TERMINATION_POLL_SECONDS = 1"

definition agent_resource :: "uuid \<Rightarrow> string" where
  "agent_resource aid = ''agent-'' @ uuid_str aid"

definition clock_seconds :: "'k restore_env \<Rightarrow> ('k, int) restore_act" where
  "clock_seconds env w = Some (w, Inr (kc_monotonic (re_client env) (rw_cluster w)))"

definition release_round :: "'k restore_env \<Rightarrow> string \<Rightarrow> int \<Rightarrow> ('k, bool) restore_act" where
  "release_round env name deadline =
    andthen (calling (kc_has_pods_for_deployment (re_client env) name)) (\<lambda>pods.
    if \<not> pods then ret False
    else andthen (clock_seconds env) (\<lambda>t.
    if t \<ge> deadline then throw (conflict ''The Agent is still shutting down. Try again in a moment.'')
    else andthen (calling (\<lambda>k. (kc_sleep (re_client env) POD_TERMINATION_POLL_SECONDS k, Inr ()))) (\<lambda>_. ret True)))"

partial_function (option) await_release :: "'k restore_env \<Rightarrow> string \<Rightarrow> int \<Rightarrow> ('k, unit) restore_act" where
  [code]: "await_release env name deadline w =
    Option.bind (release_round env name deadline w) (\<lambda>(w1, r).
      case r of Inl e \<Rightarrow> Some (w1, Inl e) | Inr again \<Rightarrow> if again then await_release env name deadline w1 else Some (w1, Inr ()))"

definition await_agent_volume_release :: "'k restore_env \<Rightarrow> uuid \<Rightarrow> ('k, unit) restore_act" where
  "await_agent_volume_release env aid =
    andthen (clock_seconds env) (\<lambda>t. await_release env (agent_resource aid) (t + POD_TERMINATION_TIMEOUT_SECONDS))"

definition assert_capturable :: "'k restore_env \<Rightarrow> agent \<Rightarrow> ('k, unit) restore_act" where
  "assert_capturable env a =
    (if agent_status a = RUNNING then throw (conflict ''Stop the Agent before capturing a restore point.'')
     else andthen (reading id) (\<lambda>db.
     if has_non_terminal_operation (agent_id a) db \<or> owing_replay (agent_id a) db \<noteq> [] then throw (conflict CAPTURE_IN_FLIGHT_DETAIL)
     else if count_manual_for_agent (agent_id a) db \<ge> re_max_per_agent env then
       throw (conflict (''This Agent has reached its limit of '' @ nat_str (re_max_per_agent env) @ '' restore points ('' @
         nat_str (count_manual_for_agent (agent_id a) db) @ '' of '' @ nat_str (re_max_per_agent env) @ ''). Delete one first.''))
     else andthen (calling (kc_has_pvc (re_client env) (agent_resource (agent_id a)))) (\<lambda>there.
     if there then ret () else throw (conflict ''This Agent has never run, so there is nothing to capture.''))))"

text \<open>The configuration an Agent has: how it is pinned, and everything that a replay writes.\<close>

definition selection_type_of :: "agent_settings \<Rightarrow> string" where
  "selection_type_of s =
    (if as_platform_template_id s \<noteq> None then ''platform''
     else if as_agent_template_id s \<noteq> None then ''organization''
     else if as_override_version_id s \<noteq> None then ''override'' else [])"

definition pinned_template_info :: "agent_settings \<Rightarrow> restore_db \<Rightarrow> (string \<times> int \<times> int option) option" where
  "pinned_template_info s db =
    (case (as_agent_template_id s, as_platform_template_id s, as_override_version_id s) of
       (Some i, _, _) \<Rightarrow> map_option (\<lambda>(key, version). (key, version, None)) (map_of (rd_org_templates db) i)
     | (None, Some i, _) \<Rightarrow> map_option (\<lambda>(key, version). (key, version, None)) (map_of (rd_platform_templates db) i)
     | (None, None, Some i) \<Rightarrow> map_option (\<lambda>(key, version). (key, version, Some version)) (map_of (rd_overrides db) i)
     | (None, None, None) \<Rightarrow> None)"

definition recorded_skills :: "uuid \<Rightarrow> restore_db \<Rightarrow> recorded_skill list" where
  "recorded_skills aid db =
    concat (map (\<lambda>k. case map_of (rd_skill_rows db) (ak_skill_id k) of
        None \<Rightarrow> []
      | Some name \<Rightarrow> [\<lparr>rs_skill_id = ak_skill_id k, rs_name = name, rs_pinned_version = ak_pinned_version k\<rparr>])
      (row_where (\<lambda>k. ak_agent_id k = aid) (rd_skills db)))"

definition build_config_manifest :: "agent \<Rightarrow> agent_settings \<Rightarrow> restore_db \<Rightarrow> config_manifest" where
  "build_config_manifest a s db =
    (let pin = (case pinned_template_info s db of None \<Rightarrow> ([], 0, None) | Some x \<Rightarrow> x)
     in \<lparr>cm_version = CONFIG_MANIFEST_VERSION, cm_agent_type = agent_type a, cm_template_key = fst pin,
         cm_template_version = fst (snd pin), cm_template_selection_type = selection_type_of s, cm_override_version = snd (snd pin),
         cm_model = as_model s,
         cm_effective_model = (case as_running_model s of Some m \<Rightarrow> if m \<noteq> [] then m else as_model s | None \<Rightarrow> as_model s),
         cm_approval_mode = as_approval_mode s, cm_verbose_mode = as_verbose_mode s, cm_max_turns = Some (as_max_turns s),
         cm_skills = recorded_skills (agent_id a) db\<rparr>)"

definition new_restore_point ::
  "uuid \<Rightarrow> datetime \<Rightarrow> agent \<Rightarrow> uuid option \<Rightarrow> string option \<Rightarrow> restore_point_origin \<Rightarrow> string \<Rightarrow> config_manifest \<Rightarrow> restore_point" where
  "new_restore_point i now a creator label origin job manifest =
    \<lparr>pt_id = i, pt_agent_id = agent_id a, pt_created_by_user_id = creator, pt_label = label, pt_status = PtPENDING,
     pt_origin = origin, pt_agent_type = agent_type a, pt_pvc_name = restore_point_resource_name i, pt_job_name = Some job,
     pt_archive_bytes = None, pt_file_count = None, pt_config_manifest = manifest, pt_failure_reason = None,
     pt_reapply_configuration = False, pt_configuration_error = None, pt_restored_by_user_id = None,
     pt_restored_by_display = None, pt_captured_at = None, pt_created_at = now, pt_updated_at = now\<rparr>"

definition volume_for :: "uuid \<Rightarrow> agent \<Rightarrow> volume_request" where
  "volume_for i a = \<lparr>vr_restore_point_id = i, vr_agent_id = agent_id a, vr_organization_id = agent_organization_id a\<rparr>"

definition capture_job_for :: "restore_point \<Rightarrow> agent \<Rightarrow> job_request" where
  "capture_job_for p a =
    \<lparr>jr_name = (if job_of p = [] then capture_job_name (pt_id p) else job_of p), jr_restore_point_id = pt_id p,
     jr_agent_id = agent_id a, jr_organization_id = agent_organization_id a, jr_mode = ''capture'', jr_runtime = agent_type a,
     jr_agent_pvc = agent_resource (agent_id a), jr_backup_pvc = None, jr_archive_pvc = pt_pvc_name p\<rparr>"

definition restore_job_for :: "string \<Rightarrow> restore_point \<Rightarrow> restore_point option \<Rightarrow> agent \<Rightarrow> job_request" where
  "restore_job_for job target backup a =
    \<lparr>jr_name = job, jr_restore_point_id = pt_id target, jr_agent_id = agent_id a,
     jr_organization_id = agent_organization_id a, jr_mode = ''restore'', jr_runtime = agent_type a,
     jr_agent_pvc = agent_resource (agent_id a), jr_backup_pvc = map_option pt_pvc_name backup, jr_archive_pvc = pt_pvc_name target\<rparr>"

definition provision_capture :: "'k restore_env \<Rightarrow> datetime \<Rightarrow> agent \<Rightarrow> restore_point \<Rightarrow> ('k, unit) restore_act" where
  "provision_capture env now a p =
    catch (andthen (calling (kc_create_pvc (re_client env) (volume_for (pt_id p) a))) (\<lambda>_.
           calling (kc_create_job (re_client env) (capture_job_for p a))))
      (\<lambda>e. Some (
        andthen (transaction (save_failed_capture (pt_id p) (re_friendly_error env ProvisionBACKUP e) now)) (\<lambda>_.
        andthen (calling (kc_delete_pvc (re_client env) (pt_pvc_name p))) (\<lambda>_.
        throw (HTTPException 500 (re_friendly_error env ProvisionBACKUP e))))))"

definition provision_restore ::
  "'k restore_env \<Rightarrow> datetime \<Rightarrow> agent \<Rightarrow> restore_point \<Rightarrow> restore_point option \<Rightarrow> string \<Rightarrow> ('k, unit) restore_act" where
  "provision_restore env now a target backup job =
    catch (andthen (case backup of None \<Rightarrow> ret () | Some b \<Rightarrow> calling (kc_create_pvc (re_client env) (volume_for (pt_id b) a))) (\<lambda>_.
           calling (kc_create_job (re_client env) (restore_job_for job target backup a))))
      (\<lambda>e. Some (
        andthen (case backup of
            None \<Rightarrow> ret ()
          | Some b \<Rightarrow>
              andthen (updating (mark_failed (pt_id b) (take MAX_FAILURE_REASON (re_friendly_error env ProvisionRESTORE e)) now)) (\<lambda>_.
              calling (kc_delete_pvc (re_client env) (pt_pvc_name b)))) (\<lambda>_.
        andthen (updating (mark_restored (pt_id target) True now)) (\<lambda>_.
        throw (HTTPException 500 (re_friendly_error env ProvisionRESTORE e))))))"


section \<open>Requests\<close>

definition refuse_during_managed_update :: "datetime \<Rightarrow> agent_settings \<Rightarrow> ('k, unit) restore_act" where
  "refuse_during_managed_update now s =
    (if managed_update_in_flight now s then throw (conflict ''A managed update is in progress for this Agent. Wait for it to finish.'')
     else ret ())"

text \<open>The body of a request that holds the lifecycle lock and has read the Agent again.\<close>

definition locked_agent :: "uuid \<Rightarrow> (agent \<Rightarrow> agent_settings \<Rightarrow> ('k, 'a) restore_act) \<Rightarrow> ('k, 'a) restore_act" where
  "locked_agent aid body =
    with_lifecycle_lock aid (\<lambda>acquired.
    if \<not> acquired then throw (conflict CAPTURE_IN_FLIGHT_DETAIL)
    else andthen (reading (agent_row aid)) (\<lambda>current.
    case current of None \<Rightarrow> throw (agent_not_found aid) | Some (a, s) \<Rightarrow> body a s))"

definition captured_point :: "'k restore_request \<Rightarrow> string option \<Rightarrow> bool \<Rightarrow> agent \<Rightarrow> config_manifest \<Rightarrow> restore_point" where
  "captured_point q label managed_update a manifest =
    new_restore_point (pr_new_id q) (pr_now q) a (Some (user_id (ctx_user (pr_context q)))) label
      (if managed_update then OriginPRE_UPGRADE else OriginMANUAL) (capture_job_name (pr_new_id q)) manifest"

definition store_capture :: "'k restore_request \<Rightarrow> agent \<Rightarrow> restore_point \<Rightarrow> ('k, restore_point \<times> uuid list) restore_act" where
  "store_capture q a p =
    andthen (transaction (save_with_event (re_registry (pr_env q)) (pr_event_ids q) (pr_now q) p
      (point_event_of ''agent.restore_point.created'' (pr_context q) a p))) (\<lambda>delivery_ids.
    andthen (provision_capture (pr_env q) (pr_now q) a p) (\<lambda>_.
    ret (p, delivery_ids)))"

definition capture_locked ::
  "'k restore_request \<Rightarrow> string option \<Rightarrow> bool \<Rightarrow> agent \<Rightarrow> agent_settings \<Rightarrow> ('k, restore_point \<times> uuid list) restore_act" where
  "capture_locked q label managed_update a s =
    andthen (if managed_update then ret () else refuse_during_managed_update (pr_now q) s) (\<lambda>_.
    andthen (assert_capturable (pr_env q) a) (\<lambda>_.
    andthen (reading (build_config_manifest a s)) (\<lambda>manifest.
    store_capture q a (captured_point q label managed_update a manifest))))"

definition create_restore_point ::
  "'k restore_request \<Rightarrow> uuid \<Rightarrow> string option \<Rightarrow> bool \<Rightarrow> ('k, restore_point) restore_act" where
  "create_restore_point q aid label managed_update =
    andthen (reading rd_access) (\<lambda>access.
    andthen (lifted (require_action access (pr_context q) aid AGENT_LIFECYCLE_MANAGE no_permission)) (\<lambda>agent.
    andthen (await_agent_volume_release (pr_env q) (agent_id agent)) (\<lambda>_.
    andthen (locked_agent (agent_id agent) (capture_locked q label managed_update)) (\<lambda>(p, delivery_ids).
    andthen (dispatch_deliveries (pr_env q) (pr_now q) delivery_ids) (\<lambda>_.
    ret p)))))"

definition pre_restore_point :: "'k restore_request \<Rightarrow> agent \<Rightarrow> string \<Rightarrow> config_manifest \<Rightarrow> restore_point" where
  "pre_restore_point q a job manifest =
    new_restore_point (pr_new_id q) (pr_now q) a None (Some ''Automatic backup before restore'') OriginPRE_RESTORE job manifest"

definition create_pre_restore_row ::
  "'k restore_request \<Rightarrow> agent \<Rightarrow> agent_settings \<Rightarrow> string \<Rightarrow> ('k, restore_point) restore_act" where
  "create_pre_restore_row q a s job =
    andthen (reading (build_config_manifest a s)) (\<lambda>manifest.
    let b = pre_restore_point q a job manifest in
    transaction (\<lambda>db. bind_result (insert_point b db) (\<lambda>db1. Inr (db1, b))))"

definition find_restore_target :: "uuid \<Rightarrow> uuid \<Rightarrow> authz_scope \<Rightarrow> ('k, restore_point) restore_act" where
  "find_restore_target i aid scope =
    andthen (reading (point_in_scope i aid scope)) (\<lambda>found.
    andthen (lifted found) (\<lambda>target.
    case target of None \<Rightarrow> throw (point_not_found i) | Some p \<Rightarrow> ret p))"

definition refuse_while_busy :: "uuid \<Rightarrow> ('k, unit) restore_act" where
  "refuse_while_busy aid =
    andthen (reading (\<lambda>db. has_non_terminal_operation aid db \<or> owing_replay aid db \<noteq> [])) (\<lambda>busy.
    if busy then throw (conflict CAPTURE_IN_FLIGHT_DETAIL) else ret ())"

definition validate_recorded_configuration ::
  "'k restore_env \<Rightarrow> agent \<Rightarrow> agent_settings \<Rightarrow> restore_point \<Rightarrow> ('k, unit) restore_act" where
  "validate_recorded_configuration env a s p =
    andthen (reading id) (\<lambda>db.
    andthen (lifted (recorded_selection s p)) (\<lambda>x.
    andthen (lifted (re_resolve env db a x (agent_organization_id a))) (\<lambda>_. ret ())))"

text \<open>Checked before the Job starts: the permission for the write that comes later, and that it can be made.\<close>

definition check_replayable ::
  "'k restore_request \<Rightarrow> bool \<Rightarrow> agent \<Rightarrow> agent_settings \<Rightarrow> restore_point \<Rightarrow> ('k, unit) restore_act" where
  "check_replayable q reapply a s target =
    (if \<not> reapply then ret ()
     else andthen (reading rd_access) (\<lambda>access.
       andthen (lifted (require_action_for_visible access (pr_context q) a AGENT_UPDATE no_permission)) (\<lambda>_.
       validate_recorded_configuration (pr_env q) a s target)))"

definition intent_of :: "'k restore_request \<Rightarrow> string \<Rightarrow> bool \<Rightarrow> restore_intent" where
  "intent_of q job reapply =
    \<lparr>want_job_name = job, want_reapply_configuration = reapply, want_user_id = user_id (ctx_user (pr_context q)),
     want_display = user_display (pr_context q)\<rparr>"

definition begin_restore ::
  "'k restore_request \<Rightarrow> agent \<Rightarrow> restore_point \<Rightarrow> bool \<Rightarrow> string \<Rightarrow> restore_point option \<Rightarrow>
    ('k, restore_point \<times> uuid list) restore_act" where
  "begin_restore q a target reapply job backup =
    andthen (transaction (begin_restore_with_event (re_registry (pr_env q)) (pr_event_ids q) (pr_now q) (pt_id target)
      (intent_of q job reapply) (point_event_of ''agent.restore_point.restored'' (pr_context q) a target))) (\<lambda>result.
    case result of
      None \<Rightarrow> throw (conflict NOT_READY_DETAIL)
    | Some delivery_ids \<Rightarrow>
        andthen (provision_restore (pr_env q) (pr_now q) a target backup job) (\<lambda>_.
        ret (target, delivery_ids)))"

definition restore_locked ::
  "'k restore_request \<Rightarrow> uuid \<Rightarrow> uuid \<Rightarrow> bool \<Rightarrow> bool \<Rightarrow> authz_scope \<Rightarrow> agent \<Rightarrow> agent_settings \<Rightarrow>
    ('k, restore_point \<times> uuid list) restore_act" where
  "restore_locked q aid i reapply managed_update scope a s =
    andthen (if agent_status a = RUNNING then throw (conflict AGENT_RUNNING_RESTORE_DETAIL) else ret ()) (\<lambda>_.
    andthen (if managed_update then ret () else refuse_during_managed_update (pr_now q) s) (\<lambda>_.
    andthen (find_restore_target i aid scope) (\<lambda>target.
    andthen (if pt_status target \<noteq> PtREADY then throw (conflict NOT_READY_DETAIL) else ret ()) (\<lambda>_.
    andthen (refuse_while_busy aid) (\<lambda>_.
    andthen (check_replayable q reapply a s target) (\<lambda>_.
    let job = restore_job_name (pt_id target) (pr_token q) in
    andthen (if managed_update then ret None else andthen (create_pre_restore_row q a s job) (\<lambda>b. ret (Some b))) (\<lambda>backup.
    begin_restore q a target reapply job backup)))))))"

definition restore_restore_point ::
  "'k restore_request \<Rightarrow> uuid \<Rightarrow> uuid \<Rightarrow> bool \<Rightarrow> bool \<Rightarrow> ('k, restore_point) restore_act" where
  "restore_restore_point q aid i reapply managed_update =
    andthen (reading rd_access) (\<lambda>access.
    andthen (lifted (require_action access (pr_context q) aid AGENT_LIFECYCLE_MANAGE no_permission)) (\<lambda>agent.
    andthen (lifted (authorization_scope (pr_context q) ACTIVITY_READ)) (\<lambda>scope.
    andthen (await_agent_volume_release (pr_env q) (agent_id agent)) (\<lambda>_.
    andthen (locked_agent (agent_id agent) (restore_locked q aid i reapply managed_update scope)) (\<lambda>(target, delivery_ids).
    andthen (dispatch_deliveries (pr_env q) (pr_now q) delivery_ids) (\<lambda>_.
    andthen (reading (point_in_scope i aid scope)) (\<lambda>found.
    andthen (lifted found) (\<lambda>refreshed.
    ret (case refreshed of Some p \<Rightarrow> p | None \<Rightarrow> target)))))))))"

definition apply_recorded_configuration :: "'k restore_request \<Rightarrow> uuid \<Rightarrow> uuid \<Rightarrow> ('k, unit) restore_act" where
  "apply_recorded_configuration q aid i =
    (let ctx = pr_context q in
    andthen (reading rd_access) (\<lambda>access.
    andthen (lifted (require_action access ctx aid AGENT_UPDATE no_permission)) (\<lambda>agent.
    andthen (lifted (authorization_scope ctx ACTIVITY_READ)) (\<lambda>scope.
    locked_agent (agent_id agent) (\<lambda>a s.
      andthen (if agent_status a = RUNNING then throw (conflict AGENT_RUNNING_RESTORE_DETAIL) else ret ()) (\<lambda>_.
      andthen (refuse_during_managed_update (pr_now q) s) (\<lambda>_.
      andthen (find_restore_target i aid scope) (\<lambda>target.
      andthen (refuse_while_busy aid) (\<lambda>_.
      write_recorded_configuration (pr_env q)
        \<lparr>pc_registry = re_registry (pr_env q), pc_ids = pr_event_ids q, pc_now = pr_now q,
         pc_actor = resolve_actor_identity ctx (agent_organization_id a), pc_actor_display = user_display ctx\<rparr>
        a s target)))))))))"

definition read_scope :: "current_user_context \<Rightarrow> uuid \<Rightarrow> ('k, authz_scope) restore_act" where
  "read_scope ctx aid =
    andthen (reading rd_access) (\<lambda>access.
    andthen (lifted (require_visible access ctx aid)) (\<lambda>a.
    lifted (require_action_for_visible access ctx a ACTIVITY_READ no_permission)))"

text \<open>A page of restore points with the number of all of them, the cap and how many count towards it.\<close>

definition list_restore_points ::
  "'k restore_request \<Rightarrow> uuid \<Rightarrow> nat \<Rightarrow> nat \<Rightarrow> ('k, (restore_point list \<times> nat) \<times> nat \<times> nat) restore_act" where
  "list_restore_points q aid page per_page =
    andthen (read_scope (pr_context q) aid) (\<lambda>scope.
    andthen (reconcile_agent_points (pr_env q) (pr_replay_ids q) (pr_now q) aid) (\<lambda>_.
    andthen (reading (points_page aid page per_page scope)) (\<lambda>found.
    andthen (lifted found) (\<lambda>items.
    andthen (reading (count_manual_for_agent aid)) (\<lambda>manual.
    ret (items, re_max_per_agent (pr_env q), manual))))))"

definition get_restore_point :: "'k restore_request \<Rightarrow> uuid \<Rightarrow> uuid \<Rightarrow> ('k, restore_point) restore_act" where
  "get_restore_point q aid i =
    andthen (read_scope (pr_context q) aid) (\<lambda>scope.
    andthen (reconcile_agent_points (pr_env q) (pr_replay_ids q) (pr_now q) aid) (\<lambda>_.
    find_restore_target i aid scope))"

definition DELETE_IN_FLIGHT_DETAIL :: string where
  "DELETE_IN_FLIGHT_DETAIL = ''This restore point is still being worked on. Wait for it to finish, then delete it.''"

definition delete_target :: "'k restore_request \<Rightarrow> uuid \<Rightarrow> restore_point \<Rightarrow> ('k, unit) restore_act" where
  "delete_target q aid p =
    (let env = pr_env q in
    andthen (if pt_status p \<in> NON_TERMINAL_STATUSES \<or> pt_reapply_configuration p then throw (conflict DELETE_IN_FLIGHT_DETAIL) else ret ()) (\<lambda>_.
    andthen (reading (agent_row aid)) (\<lambda>current.
    case current of
      None \<Rightarrow> throw (agent_not_found aid)
    | Some (a, s) \<Rightarrow>
        andthen (refuse_during_managed_update (pr_now q) s) (\<lambda>_.
        andthen (only_if (job_of p \<noteq> []) (calling (kc_delete_job (re_client env) (job_of p)))) (\<lambda>_.
        andthen (only_if (pt_pvc_name p \<noteq> []) (calling (kc_delete_pvc (re_client env) (pt_pvc_name p)))) (\<lambda>_.
        andthen (transaction (delete_with_event (re_registry env) (pr_event_ids q) (pr_now q) p
          (point_event_of ''agent.restore_point.deleted'' (pr_context q) a p))) (\<lambda>delivery_ids.
        dispatch_deliveries env (pr_now q) delivery_ids)))))))"

definition delete_restore_point :: "'k restore_request \<Rightarrow> uuid \<Rightarrow> uuid \<Rightarrow> ('k, unit) restore_act" where
  "delete_restore_point q aid i =
    andthen (reading rd_access) (\<lambda>access.
    andthen (lifted (require_action access (pr_context q) aid AGENT_LIFECYCLE_MANAGE no_permission)) (\<lambda>_.
    andthen (lifted (authorization_scope (pr_context q) ACTIVITY_READ)) (\<lambda>scope.
    andthen (reconcile_agent_points (pr_env q) (pr_replay_ids q) (pr_now q) aid) (\<lambda>_.
    andthen (find_restore_target i aid scope) (delete_target q aid)))))"

text \<open>When an Agent is deleted; the selector is the label of the Agent.\<close>

definition purge_agent :: "'k restore_env \<Rightarrow> uuid \<Rightarrow> ('k, unit) restore_act" where
  "purge_agent env aid =
    (let c = re_client env; selector = ''agentbarn.io/agent-id='' @ uuid_str aid in
    andthen (calling (kc_list_jobs c selector)) (\<lambda>jobs.
    andthen (each jobs (\<lambda>j. calling (kc_delete_job c (co_name j)))) (\<lambda>_.
    andthen (calling (kc_list_pvcs c selector)) (\<lambda>volumes.
    andthen (each volumes (\<lambda>v. calling (kc_delete_pvc c (co_name v)))) (\<lambda>_.
    updating (\<lambda>db. (delete_for_agent aid db, ())))))))"

definition reopen_failed_restore :: "datetime \<Rightarrow> uuid \<Rightarrow> ('k, bool) restore_act" where
  "reopen_failed_restore now i = updating (mark_failed_restore_target_ready i now)"

text \<open>
  A managed update waits for its capture or restore. \<open>meanwhile\<close> is what everybody else does during a sleep,
  \<open>on_poll\<close> the heartbeat of the update, \<open>clock\<close> the time at which the n-th round reconciles.
\<close>

record 'k wait_call =
  wc_env :: "'k restore_env"
  wc_clock :: "nat \<Rightarrow> datetime"
  wc_replay_ids :: "nat \<Rightarrow> nat \<Rightarrow> nat \<Rightarrow> uuid"
  wc_on_poll :: "('k, unit) restore_act"
  wc_meanwhile :: "nat \<Rightarrow> 'k restore_world \<Rightarrow> 'k restore_world"
  wc_timeout_seconds :: int

definition wait_round :: "'k wait_call \<Rightarrow> uuid \<Rightarrow> uuid \<Rightarrow> int \<Rightarrow> nat \<Rightarrow> ('k, restore_point option) restore_act" where
  "wait_round c aid i deadline n =
    andthen (wc_on_poll c) (\<lambda>_.
    andthen (reconcile_agent_points (wc_env c) (wc_replay_ids c n) (wc_clock c n) aid) (\<lambda>_.
    andthen (reading (point_by_id i)) (\<lambda>found.
    case found of
      None \<Rightarrow> throw (point_not_found i)
    | Some p \<Rightarrow>
        if pt_status p \<in> TERMINAL_STATUSES then ret (Some p)
        else andthen (clock_seconds (wc_env c)) (\<lambda>t.
          if t \<ge> deadline then throw (HTTPException 504
            (''Restore point '' @ uuid_str i @ '' did not finish within '' @ int_str (wc_timeout_seconds c) @ '' seconds''))
          else andthen (\<lambda>w. Some (wc_meanwhile c n w, Inr ())) (\<lambda>_. ret None)))))"

partial_function (option) wait_rounds :: "'k wait_call \<Rightarrow> uuid \<Rightarrow> uuid \<Rightarrow> int \<Rightarrow> nat \<Rightarrow> ('k, restore_point) restore_act" where
  [code]: "wait_rounds c aid i deadline n w =
    Option.bind (wait_round c aid i deadline n w) (\<lambda>(w1, r).
      case r of
        Inl e \<Rightarrow> Some (w1, Inl e)
      | Inr found \<Rightarrow> (case found of Some p \<Rightarrow> Some (w1, Inr p) | None \<Rightarrow> wait_rounds c aid i deadline (n + 1) w1))"

definition wait_until_terminal :: "'k wait_call \<Rightarrow> uuid \<Rightarrow> uuid \<Rightarrow> ('k, restore_point) restore_act" where
  "wait_until_terminal c aid i =
    andthen (clock_seconds (wc_env c)) (\<lambda>t. wait_rounds c aid i (t + wc_timeout_seconds c) 0)"

section \<open>The sweep\<close>

record sweep_result =
  sw_claimed :: nat
  sw_resolved :: nat
  sw_replays_attempted :: nat
  sw_volumes_missing :: nat
  sw_orphans_deleted :: nat
  sw_orphans_unidentified :: nat
  sw_failed :: nat

definition empty_sweep :: sweep_result where
  "empty_sweep = \<lparr>sw_claimed = 0, sw_resolved = 0, sw_replays_attempted = 0, sw_volumes_missing = 0, sw_orphans_deleted = 0,
    sw_orphans_unidentified = 0, sw_failed = 0\<rparr>"

text \<open>The limits; \<open>sl_locked\<close> are rows that other transactions hold, \<open>sl_started\<close> is when the sweep began.\<close>

definition SWEEP_STALE_SECONDS :: int where
  "SWEEP_STALE_SECONDS = 900"

definition SWEEP_BATCH_SIZE :: nat where
  "SWEEP_BATCH_SIZE = 100"

definition SWEEP_MAX_RUNTIME_SECONDS :: int where
  "SWEEP_MAX_RUNTIME_SECONDS = 120"

definition SWEEP_MISSING_VOLUME_LIMIT :: nat where
  "SWEEP_MISSING_VOLUME_LIMIT = 50"

definition ORPHAN_MIN_AGE_SECONDS :: int where
  "ORPHAN_MIN_AGE_SECONDS = 1800"

definition ORPHAN_DELETE_LIMIT :: nat where
  "ORPHAN_DELETE_LIMIT = 20"

definition RESTORE_POINT_SELECTOR :: string where
  "RESTORE_POINT_SELECTOR = ''agentbarn.io/component=restore-point''"

record 'k sweep_call =
  sl_env :: "'k restore_env"
  sl_now :: datetime
  sl_replay_ids :: "uuid \<Rightarrow> nat \<Rightarrow> uuid"
  sl_locked :: "uuid set"
  sl_started :: int

definition sweep_expired :: "'k sweep_call \<Rightarrow> ('k, bool) restore_act" where
  "sweep_expired c = andthen (clock_seconds (sl_env c)) (\<lambda>t. ret (t - sl_started c \<ge> SWEEP_MAX_RUNTIME_SECONDS))"

text \<open>\<open>try: ...; except Exception\<close>, as whether it went through.\<close>

definition attempt :: "('k, 'a) restore_act \<Rightarrow> ('k, 'a option) restore_act" where
  "attempt m = catch (andthen m (\<lambda>x. ret (Some x))) (\<lambda>_. Some (ret None))"

definition resolve_claimed_row :: "'k sweep_call \<Rightarrow> restore_point \<Rightarrow> sweep_result \<Rightarrow> ('k, sweep_result) restore_act" where
  "resolve_claimed_row c p result =
    andthen (if pt_status p \<in> TERMINAL_STATUSES then ret (Some result)
      else andthen (attempt (reconcile_row (sl_env c) (sl_now c) False p)) (\<lambda>done.
        ret (if done = None then None else Some (result\<lparr>sw_resolved := sw_resolved result + 1\<rparr>)))) (\<lambda>resolved.
    case resolved of
      None \<Rightarrow> ret (result\<lparr>sw_failed := sw_failed result + 1\<rparr>)
    | Some result1 \<Rightarrow>
        if \<not> pt_reapply_configuration p then ret result1
        else andthen (attempt (apply_owed_replay (sl_env c) (sl_replay_ids c (pt_id p)) (sl_now c) p)) (\<lambda>done.
          ret (if done = None then result1\<lparr>sw_failed := sw_failed result1 + 1\<rparr>
            else result1\<lparr>sw_replays_attempted := sw_replays_attempted result1 + 1\<rparr>)))"

fun resolve_claimed_rows :: "'k sweep_call \<Rightarrow> restore_point list \<Rightarrow> sweep_result \<Rightarrow> ('k, sweep_result) restore_act" where
  "resolve_claimed_rows c [] result = ret result"
| "resolve_claimed_rows c (p # ps) result =
    andthen (sweep_expired c) (\<lambda>expired.
    if expired then ret result
    else andthen (resolve_claimed_row c p result) (resolve_claimed_rows c ps))"

definition resolve_claimed :: "'k sweep_call \<Rightarrow> ('k, sweep_result) restore_act" where
  "resolve_claimed c =
    andthen (updating (claim_restore_candidates (sl_now c) (sl_now c - seconds SWEEP_STALE_SECONDS) SWEEP_BATCH_SIZE (sl_locked c))) (\<lambda>ps.
    resolve_claimed_rows c ps (empty_sweep\<lparr>sw_claimed := length ps\<rparr>))"

definition list_objects :: "'k sweep_call \<Rightarrow> ('k, (cluster_object list \<times> cluster_object list) option) restore_act" where
  "list_objects c =
    attempt (andthen (calling (kc_list_pvcs (re_client (sl_env c)) RESTORE_POINT_SELECTOR)) (\<lambda>volumes.
      andthen (calling (kc_list_jobs (re_client (sl_env c)) RESTORE_POINT_SELECTOR)) (\<lambda>jobs.
      ret (volumes, jobs))))"

definition missing_volume_reason :: "string \<Rightarrow> string" where
  "missing_volume_reason name = ''The archive volume '' @ name @ '' is no longer in the cluster, so this restore point cannot be used.''"

fun fail_missing :: "'k sweep_call \<Rightarrow> restore_point list \<Rightarrow> sweep_result \<Rightarrow> ('k, sweep_result) restore_act" where
  "fail_missing c [] result = ret result"
| "fail_missing c (p # ps) result =
    andthen (sweep_expired c) (\<lambda>expired.
    if expired then ret result
    else andthen (updating (mark_ready_row_failed (pt_id p) (missing_volume_reason (pt_pvc_name p)) (sl_now c))) (\<lambda>failed.
      fail_missing c ps (if failed then result\<lparr>sw_volumes_missing := sw_volumes_missing result + 1\<rparr> else result)))"

definition fail_rows_without_volumes ::
  "'k sweep_call \<Rightarrow> cluster_object list \<Rightarrow> sweep_result \<Rightarrow> ('k, sweep_result) restore_act" where
  "fail_rows_without_volumes c volumes result =
    (let live = filter (\<lambda>name. name \<noteq> []) (map co_name volumes)
     in if live = [] then ret result
        else andthen (reading (ready_without_volume (set live) SWEEP_MISSING_VOLUME_LIMIT)) (\<lambda>ps. fail_missing c ps result))"

text \<open>The restore point that an object belongs to: by its label, or else by its name.\<close>

definition object_restore_point_id :: "cluster_object \<Rightarrow> uuid option" where
  "object_restore_point_id x =
    (case Option.bind (co_label_id x) parse_uuid of
       Some i \<Rightarrow> Some i
     | None \<Rightarrow> restore_point_id_from_name (co_name x))"

definition created_before :: "cluster_object \<Rightarrow> datetime \<Rightarrow> bool" where
  "created_before x cutoff = (case co_created_at x of None \<Rightarrow> False | Some t \<Rightarrow> t \<le> cutoff)"

datatype object_kind = KindJOB | KindPVC

definition delete_object :: "'k restore_env \<Rightarrow> object_kind \<Rightarrow> string \<Rightarrow> ('k, unit) restore_act" where
  "delete_object env kind name =
    calling (case kind of KindJOB \<Rightarrow> kc_delete_job (re_client env) name | KindPVC \<Rightarrow> kc_delete_pvc (re_client env) name)"

fun reclaim :: "'k sweep_call \<Rightarrow> uuid set \<Rightarrow> (object_kind \<times> cluster_object) list \<Rightarrow> sweep_result \<Rightarrow> ('k, sweep_result) restore_act" where
  "reclaim c known [] result = ret result"
| "reclaim c known ((kind, x) # xs) result =
    andthen (sweep_expired c) (\<lambda>expired.
    if expired \<or> sw_orphans_deleted result \<ge> ORPHAN_DELETE_LIMIT then ret result
    else (case object_restore_point_id x of
        None \<Rightarrow> reclaim c known xs (result\<lparr>sw_orphans_unidentified := sw_orphans_unidentified result + 1\<rparr>)
      | Some i \<Rightarrow>
          if i \<in> known \<or> \<not> created_before x (sl_now c - seconds ORPHAN_MIN_AGE_SECONDS) then reclaim c known xs result
          else andthen (attempt (delete_object (sl_env c) kind (co_name x))) (\<lambda>done.
            reclaim c known xs (if done = None then result\<lparr>sw_failed := sw_failed result + 1\<rparr>
              else result\<lparr>sw_orphans_deleted := sw_orphans_deleted result + 1\<rparr>))))"

definition reclaim_orphans ::
  "'k sweep_call \<Rightarrow> cluster_object list \<Rightarrow> cluster_object list \<Rightarrow> sweep_result \<Rightarrow> ('k, sweep_result) restore_act" where
  "reclaim_orphans c volumes jobs result =
    (let xs = map (\<lambda>x. (KindJOB, x)) jobs @ map (\<lambda>x. (KindPVC, x)) volumes;
         identified = set (concat (map (\<lambda>(kind, x). case object_restore_point_id x of None \<Rightarrow> [] | Some i \<Rightarrow> [i]) xs))
     in andthen (reading (existing_ids identified)) (\<lambda>known. reclaim c known xs result))"

definition sweep_objects ::
  "'k sweep_call \<Rightarrow> sweep_result \<Rightarrow> (cluster_object list \<times> cluster_object list) option \<Rightarrow> ('k, sweep_result) restore_act" where
  "sweep_objects c result objects =
    (case objects of
       None \<Rightarrow> ret result
     | Some (volumes, jobs) \<Rightarrow> andthen (fail_rows_without_volumes c volumes result) (reclaim_orphans c volumes jobs))"

definition sweep_started :: "'k sweep_call \<Rightarrow> ('k, sweep_result) restore_act" where
  "sweep_started c = andthen (resolve_claimed c) (\<lambda>result. andthen (list_objects c) (sweep_objects c result))"

definition sweep_once :: "'k sweep_call \<Rightarrow> ('k, sweep_result) restore_act" where
  "sweep_once c = andthen (clock_seconds (sl_env c)) (\<lambda>started. sweep_started (c\<lparr>sl_started := started\<rparr>))"

end
