(* ===== verification/Restore_Point_Guarantees.thy ===== *)
theory Restore_Point_Guarantees
  imports Restore_Point_Service
begin

text \<open>
  What holds of the restore points of all Agents, whatever Members ask for, whatever the cluster answers and however old
  the rows are that a reconciliation has read: the invariant of the table, the moves of a row as a locale with one
  interpretation per update of the repository, and the assertion about archive volumes that the operations keep.
\<close>

section \<open>The invariant of the table\<close>

definition busy :: "restore_point \<Rightarrow> bool" where
  "busy p \<longleftrightarrow> pt_status p \<in> NON_TERMINAL_STATUSES"

text \<open>The target of a restore, and the safety copy that the same Job takes.\<close>

definition restore_pair :: "restore_point \<Rightarrow> restore_point \<Rightarrow> bool" where
  "restore_pair target backup \<longleftrightarrow>
    pt_status target = PtRESTORING \<and> pt_status backup \<in> ACTIVE_CAPTURE_STATUSES \<and> pt_origin backup = OriginPRE_RESTORE \<and>
    (\<exists>job. pt_job_name target = Some job \<and> pt_job_name backup = Some job)"

definition uuid_bound :: nat where
  "uuid_bound = 2 ^ 128"

definition manual_count :: "uuid \<Rightarrow> restore_point list \<Rightarrow> nat" where
  "manual_count aid ps = length (filter (\<lambda>p. pt_agent_id p = aid \<and> pt_origin p = OriginMANUAL \<and> pt_status p \<noteq> PtFAILED) ps)"

definition points_ok :: "nat \<Rightarrow> restore_point list \<Rightarrow> bool" where
  "points_ok cap ps \<longleftrightarrow>
    distinct (map pt_id ps) \<and>
    (\<forall>p \<in> set ps. pt_id p < uuid_bound \<and> pt_pvc_name p = restore_point_resource_name (pt_id p) \<and> pt_status p \<noteq> PtDELETING) \<and>
    (\<forall>p \<in> set ps. \<forall>q \<in> set ps. p \<noteq> q \<longrightarrow> pt_agent_id p = pt_agent_id q \<longrightarrow> busy p \<longrightarrow> busy q \<longrightarrow> restore_pair p q \<or> restore_pair q p) \<and>
    (\<forall>aid. manual_count aid ps \<le> cap)"

text \<open>A write that changes neither whose row it is nor what it is, starts no work, and does not bring a manual capture back.\<close>

definition calmer :: "restore_point \<Rightarrow> restore_point \<Rightarrow> bool" where
  "calmer p q \<longleftrightarrow>
    pt_id q = pt_id p \<and> pt_agent_id q = pt_agent_id p \<and> pt_pvc_name q = pt_pvc_name p \<and> pt_origin q = pt_origin p \<and>
    pt_status q \<noteq> PtDELETING \<and>
    (busy q \<longrightarrow> pt_job_name q = pt_job_name p \<and> (pt_status q = pt_status p \<or> pt_status p = PtPENDING \<and> pt_status q = PtCAPTURING)) \<and>
    (pt_status p = PtFAILED \<longrightarrow> pt_origin p = OriginMANUAL \<longrightarrow> pt_status q = PtFAILED)"

lemma calmer_refl: "pt_status p \<noteq> PtDELETING \<Longrightarrow> calmer p p"
  by (simp add: calmer_def)

lemma calmer_busy: "calmer p q \<Longrightarrow> busy q \<Longrightarrow> busy p"
  by (cases "pt_status p") (simp_all add: calmer_def busy_def NON_TERMINAL_STATUSES_def)

lemma calmer_pair: "restore_pair p q \<Longrightarrow> calmer p p' \<Longrightarrow> calmer q q' \<Longrightarrow> busy p' \<Longrightarrow> busy q' \<Longrightarrow> restore_pair p' q'"
  by (auto simp: calmer_def restore_pair_def ACTIVE_CAPTURE_STATUSES_def)

lemma manual_count_map:
  assumes "\<And>p. p \<in> set ps \<Longrightarrow> pt_agent_id (h p) = pt_agent_id p \<and> pt_origin (h p) = pt_origin p \<and>
      (pt_status p = PtFAILED \<longrightarrow> pt_origin p = OriginMANUAL \<longrightarrow> pt_status (h p) = PtFAILED)"
  shows "manual_count aid (map h ps) \<le> manual_count aid ps"
  using assms by (induction ps) (auto simp: manual_count_def)

lemma points_ok_map:
  assumes ok: "points_ok cap ps" and h: "\<And>p. p \<in> set ps \<Longrightarrow> calmer p (h p)"
  shows "points_ok cap (map h ps)"
proof -
  have ids: "map pt_id (map h ps) = map pt_id ps" using h by (simp add: calmer_def)
  have each: "pt_id (h p) < uuid_bound \<and> pt_pvc_name (h p) = restore_point_resource_name (pt_id (h p)) \<and> pt_status (h p) \<noteq> PtDELETING"
    if "p \<in> set ps" for p using h [OF that] ok that by (auto simp: calmer_def points_ok_def)
  have pairs: "restore_pair (h p) (h q) \<or> restore_pair (h q) (h p)"
    if p: "p \<in> set ps" and q: "q \<in> set ps" and ne: "h p \<noteq> h q" and same: "pt_agent_id (h p) = pt_agent_id (h q)" and b: "busy (h p)" "busy (h q)" for p q
  proof -
    have "restore_pair p q \<or> restore_pair q p"
      using ok p q ne same calmer_busy [OF h [OF p] b(1)] calmer_busy [OF h [OF q] b(2)] h [OF p] h [OF q]
      by (auto simp: points_ok_def calmer_def)
    then show ?thesis using calmer_pair h [OF p] h [OF q] b by blast
  qed
  have "manual_count aid (map h ps) \<le> cap" for aid
    using manual_count_map [of ps h aid] h ok by (force simp: calmer_def points_ok_def intro: le_trans)
  then show ?thesis using ids each pairs ok unfolding points_ok_def by (simp del: map_map)
qed

lemma points_ok_filter: "points_ok cap ps \<Longrightarrow> points_ok cap (filter P ps)"
proof -
  assume ok: "points_ok cap ps"
  have "manual_count aid (filter P ps) \<le> manual_count aid ps" for aid
    by (induction ps) (auto simp: manual_count_def)
  then have "\<forall>aid. manual_count aid (filter P ps) \<le> cap" using ok le_trans unfolding points_ok_def by blast
  then show ?thesis using ok by (auto simp: points_ok_def distinct_map_filter)
qed

text \<open>A new capture, and the start of a restore.\<close>

definition idle :: "uuid \<Rightarrow> restore_point list \<Rightarrow> bool" where
  "idle aid ps \<longleftrightarrow> (\<forall>p \<in> set ps. pt_agent_id p = aid \<longrightarrow> \<not> busy p)"

lemma points_ok_add:
  assumes ok: "points_ok cap ps" and idle: "idle (pt_agent_id p) ps" and fresh: "pt_id p \<notin> pt_id ` set ps"
    and p: "pt_id p < uuid_bound" "pt_pvc_name p = restore_point_resource_name (pt_id p)" "pt_status p = PtPENDING"
    and cap: "pt_origin p = OriginMANUAL \<Longrightarrow> manual_count (pt_agent_id p) ps < cap"
  shows "points_ok cap (row_add p ps)"
proof -
  have "manual_count aid (row_add p ps) \<le> cap" for aid
    using ok cap by (cases "pt_origin p = OriginMANUAL \<and> pt_agent_id p = aid") (auto simp: manual_count_def points_ok_def row_add_def)
  then show ?thesis using ok idle fresh p unfolding points_ok_def idle_def by (auto simp: row_add_def)
qed

definition only_backup :: "uuid \<Rightarrow> string \<Rightarrow> restore_point list \<Rightarrow> bool" where
  "only_backup aid job ps \<longleftrightarrow>
    (\<forall>p \<in> set ps. pt_agent_id p = aid \<longrightarrow> busy p \<longrightarrow>
      pt_status p \<in> ACTIVE_CAPTURE_STATUSES \<and> pt_origin p = OriginPRE_RESTORE \<and> pt_job_name p = Some job)"

lemma idle_only_backup: "idle aid ps \<Longrightarrow> only_backup aid job ps"
  by (simp add: idle_def only_backup_def)

lemma points_ok_begin:
  assumes ok: "points_ok cap ps" and target: "p \<in> set ps" "pt_id p = i" "pt_status p = PtREADY"
    and others: "only_backup (pt_agent_id p) (want_job_name r) ps"
  shows "points_ok cap (map (\<lambda>q. if pt_id q = i then begin_restoring r now q else q) ps)"
proof -
  define h where "h = (\<lambda>q. if pt_id q = i then begin_restoring r now q else q)"
  have the: "q = p" if "q \<in> set ps" "pt_id q = i" for q
    using that target ok by (auto simp: points_ok_def distinct_map inj_on_def)
  have ids: "map pt_id (map h ps) = map pt_id ps" by (auto simp: h_def begin_restoring_def)
  have pair: "restore_pair (h p) q" if "q \<in> set ps" "pt_agent_id q = pt_agent_id p" "busy q" for q
    using that others target by (auto simp: h_def only_backup_def restore_pair_def begin_restoring_def)
  have pairs: "restore_pair (h p') (h q) \<or> restore_pair (h q) (h p')"
    if s: "p' \<in> set ps" "q \<in> set ps" and ne: "h p' \<noteq> h q" and same: "pt_agent_id (h p') = pt_agent_id (h q)" and b: "busy (h p')" "busy (h q)" for p' q
  proof -
    have agent: "pt_agent_id (h x) = pt_agent_id x" for x by (simp add: h_def begin_restoring_def)
    consider "p' = p" | "q = p" "p' \<noteq> p" | "p' \<noteq> p" "q \<noteq> p" by blast
    then show ?thesis
    proof cases
      case 1
      then have q: "q \<noteq> p" "h q = q" using ne the [OF s(2)] by (auto simp: h_def)
      then show ?thesis using 1 pair [OF s(2)] same agent b by metis
    next
      case 2
      then have "h p' = p'" using the [OF s(1)] by (auto simp: h_def)
      then show ?thesis using 2 pair [OF s(1)] same agent b by metis
    next
      case 3
      then have "h p' = p'" "h q = q" using the s by (auto simp: h_def)
      then show ?thesis using ok s ne same b by (auto simp: points_ok_def)
    qed
  qed
  have each: "pt_id (h q) < uuid_bound \<and> pt_pvc_name (h q) = restore_point_resource_name (pt_id (h q)) \<and> pt_status (h q) \<noteq> PtDELETING"
    if "q \<in> set ps" for q using ok that by (auto simp: h_def begin_restoring_def points_ok_def)
  have "manual_count aid (map h ps) \<le> manual_count aid ps" for aid
    by (rule manual_count_map) (use the target(3) in \<open>auto simp: h_def begin_restoring_def\<close>)
  then have "\<forall>aid. manual_count aid (map h ps) \<le> cap" using ok le_trans unfolding points_ok_def by blast
  then have "points_ok cap (map h ps)" using ids each pairs ok unfolding points_ok_def by (simp del: map_map)
  then show ?thesis by (simp add: h_def)
qed


section \<open>Names of volumes\<close>

lemma digit_char_inj: "d < 16 \<Longrightarrow> e < 16 \<Longrightarrow> digit_char d = digit_char e \<Longrightarrow> d = e"
  by (auto simp: digit_char_def split: if_splits)

lemma hex_digits_inj: "m < 16 ^ k \<Longrightarrow> n < 16 ^ k \<Longrightarrow> hex_digits k m = hex_digits k n \<Longrightarrow> m = n"
proof (induction k arbitrary: m n)
  case (Suc k)
  have "m div 16 < 16 ^ k" "n div 16 < 16 ^ k" using Suc.prems by (auto simp: div_less_iff_less_mult mult.commute)
  then have "m div 16 = n div 16" using Suc by simp
  moreover have "m mod 16 = n mod 16" using Suc.prems digit_char_inj by simp
  ultimately show ?case by (metis div_mult_mod_eq)
qed simp

lemma uuid_parts:
  fixes x :: string
  shows "x = take 8 x @ take 4 (drop 8 x) @ take 4 (drop 12 x) @ take 4 (drop 16 x) @ drop 20 x"
proof -
  have "take 20 x = take 8 x @ take 4 (drop 8 x) @ take 4 (drop 12 x) @ take 4 (drop 16 x)"
    using take_add [of 8 4 x] take_add [of 12 4 x] take_add [of 16 4 x] by simp
  then show ?thesis using append_take_drop_id [of 20 x] by simp
qed

lemma uuid_str_inj: "m < uuid_bound \<Longrightarrow> n < uuid_bound \<Longrightarrow> uuid_str m = uuid_str n \<Longrightarrow> m = n"
proof -
  assume b: "m < uuid_bound" "n < uuid_bound" and e: "uuid_str m = uuid_str n"
  define g where "g = hex_digits 32 m"
  define h where "h = hex_digits 32 n"
  have l: "length g = 32" "length h = 32" by (simp_all add: g_def h_def)
  have "take 8 g = take 8 h \<and> take 4 (drop 8 g) = take 4 (drop 8 h) \<and> take 4 (drop 12 g) = take 4 (drop 12 h) \<and>
      take 4 (drop 16 g) = take 4 (drop 16 h) \<and> drop 20 g = drop 20 h"
    using e l by (simp add: uuid_str_def Let_def g_def [symmetric] h_def [symmetric])
  then have "g = h" using uuid_parts [of g] uuid_parts [of h] by simp
  then show ?thesis using hex_digits_inj [of m 32 n] b by (simp add: g_def h_def uuid_bound_def)
qed

lemma resource_name_inj:
  "m < uuid_bound \<Longrightarrow> n < uuid_bound \<Longrightarrow> restore_point_resource_name m = restore_point_resource_name n \<Longrightarrow> m = n"
  using uuid_str_inj by (simp add: restore_point_resource_name_def)

section \<open>The moves of a row\<close>

text \<open>
  What the callers of an update of the repository rely on: it applies while the row has one of the statuses \<open>from\<close>, says
  whether it did, changes this row alone, and puts it into one of the statuses \<open>to\<close>.
\<close>

locale point_move =
  fixes move :: "uuid \<Rightarrow> datetime \<Rightarrow> restore_db \<Rightarrow> restore_db \<times> bool"
    and from_statuses to_statuses :: "restore_point_status set"
    and stepped :: "datetime \<Rightarrow> restore_point \<Rightarrow> restore_point"
  assumes hit: "snd (move i now db) \<longleftrightarrow> (\<exists>p \<in> set (rd_points db). pt_id p = i \<and> pt_status p \<in> from_statuses)"
    and rows: "fst (move i now db) = put_points (map (\<lambda>p. if pt_id p = i \<and> pt_status p \<in> from_statuses then stepped now p else p)) db"
    and same: "pt_id (stepped now p) = pt_id p" "pt_agent_id (stepped now p) = pt_agent_id p"
    and lands: "pt_status p \<in> from_statuses \<Longrightarrow> pt_status (stepped now p) \<in> to_statuses"
begin

lemma miss: "\<not> snd (move i now db) \<Longrightarrow> fst (move i now db) = db"
proof -
  assume "\<not> snd (move i now db)"
  then have "map (\<lambda>p. if pt_id p = i \<and> pt_status p \<in> from_statuses then stepped now p else p) (rd_points db) = rd_points db"
    by (intro map_idI) (auto simp: hit)
  then show ?thesis by (simp add: rows put_points_def)
qed

lemma member:
  "q \<in> set (rd_points (fst (move i now db))) \<Longrightarrow>
    \<exists>p \<in> set (rd_points db). q = (if pt_id p = i \<and> pt_status p \<in> from_statuses then stepped now p else p)"
  by (auto simp: rows put_points_def)

lemma status_in:
  assumes "\<exists>p \<in> set (rd_points db). pt_id p = j \<and> pt_status p \<in> S" and "j = i \<Longrightarrow> from_statuses \<inter> S \<noteq> {} \<Longrightarrow> to_statuses \<subseteq> S"
  shows "\<exists>p \<in> set (rd_points (fst (move i now db))). pt_id p = j \<and> pt_status p \<in> S"
proof -
  obtain p where p: "p \<in> set (rd_points db)" "pt_id p = j" "pt_status p \<in> S" using assms(1) by blast
  define q where "q = (if pt_id p = i \<and> pt_status p \<in> from_statuses then stepped now p else p)"
  have "q \<in> set (rd_points (fst (move i now db)))" using p(1) by (auto simp: rows put_points_def q_def)
  moreover have "pt_id q = j" using p(2) same by (simp add: q_def)
  moreover have "pt_status q \<in> S" using p assms(2) lands [of p now] by (auto simp: q_def)
  ultimately show ?thesis by blast
qed

end

text \<open>A move that neither starts work nor brings a manual capture back.\<close>

locale calm_move = point_move +
  assumes calm: "pt_status p \<in> from_statuses \<Longrightarrow> pt_status p \<noteq> PtDELETING \<Longrightarrow> calmer p (stepped now p)"
begin

lemma keeps_points: "points_ok cap (rd_points db) \<Longrightarrow> points_ok cap (rd_points (fst (move i now db)))"
proof -
  assume ok: "points_ok cap (rd_points db)"
  have "calmer p (if pt_id p = i \<and> pt_status p \<in> from_statuses then stepped now p else p)" if "p \<in> set (rd_points db)" for p
  proof -
    have "pt_status p \<noteq> PtDELETING" using ok that by (simp add: points_ok_def)
    then show ?thesis using calm [of p now] calmer_refl [of p] by simp
  qed
  then show ?thesis using points_ok_map [OF ok] by (simp add: rows put_points_def)
qed

end

definition touched :: "datetime \<Rightarrow> restore_point \<Rightarrow> restore_point" where
  "touched now p = p\<lparr>pt_updated_at := now\<rparr>"

lemma conditional_update_move:
  assumes "\<And>p. pt_id (g p) = pt_id p \<and> pt_agent_id (g p) = pt_agent_id p" "\<And>p. pt_status p \<in> A \<Longrightarrow> pt_status (g p) \<in> B"
  shows "snd (conditional_update i A g now db) \<longleftrightarrow> (\<exists>p \<in> set (rd_points db). pt_id p = i \<and> pt_status p \<in> A)"
    "fst (conditional_update i A g now db) = put_points (map (\<lambda>p. if pt_id p = i \<and> pt_status p \<in> A then touched now (g p) else p)) db"
    "pt_id (touched now (g p)) = pt_id p" "pt_agent_id (touched now (g p)) = pt_agent_id p"
    "pt_status p \<in> A \<Longrightarrow> pt_status (touched now (g p)) \<in> B"
  using assms unfolding conditional_update_def touched_def Let_def by simp_all


lemmas move_defs = conditional_update_def touched_def failed_point_def calmer_def busy_def status_sets Let_def

interpretation capturing: calm_move mark_capturing "{PtPENDING}" "{PtCAPTURING}" "\<lambda>now p. touched now (p\<lparr>pt_status := PtCAPTURING\<rparr>)"
  by (unfold_locales; unfold mark_capturing_def move_defs; simp)

interpretation ready: calm_move "\<lambda>i. mark_ready i bytes count" NON_TERMINAL_STATUSES "{PtREADY}"
  "\<lambda>now p. touched now (p\<lparr>pt_status := PtREADY, pt_archive_bytes := bytes, pt_file_count := count, pt_captured_at := Some now,
      pt_failure_reason := None, pt_job_name := None\<rparr>)" for bytes count
  by (unfold_locales; unfold mark_ready_def move_defs; auto)

interpretation restored: calm_move "\<lambda>i. mark_restored i cancel" "{PtRESTORING}" "{PtREADY}"
  "\<lambda>now p. touched now (let q = p\<lparr>pt_status := PtREADY, pt_failure_reason := None, pt_job_name := None\<rparr>
     in if cancel then q\<lparr>pt_reapply_configuration := False, pt_configuration_error := None\<rparr> else q)" for cancel
  by (unfold_locales; unfold mark_restored_def move_defs; simp)

interpretation failed: calm_move "\<lambda>i. mark_failed i reason" NON_TERMINAL_STATUSES "{PtFAILED}" "\<lambda>now p. touched now (failed_point reason p)" for reason
  by (unfold_locales; unfold mark_failed_def move_defs; auto)

interpretation lost: calm_move "\<lambda>i. mark_ready_row_failed i reason" "{PtREADY}" "{PtFAILED}" "\<lambda>now p. touched now (failed_point reason p)" for reason
  by (unfold_locales; unfold mark_ready_row_failed_def move_defs; simp)

interpretation reopened: point_move mark_failed_restore_target_ready "{PtFAILED}" "{PtREADY}"
  "\<lambda>now p. touched now (p\<lparr>pt_status := PtREADY, pt_failure_reason := None\<rparr>)"
  by (unfold_locales; unfold mark_failed_restore_target_ready_def move_defs; simp)


section \<open>Archives\<close>

text \<open>
  \<open>has k name\<close>: the volume exists in the state \<open>k\<close> of the cluster. No call but the deletion of a volume removes it, and
  listed volumes carry no label but that of the restore point they are named after: what the code relies on.
\<close>

definition spares :: "('k \<Rightarrow> string \<Rightarrow> bool) \<Rightarrow> string \<Rightarrow> ('k, 'a) cluster_call \<Rightarrow> bool" where
  "spares has name m \<longleftrightarrow> (\<forall>k. has k name \<longrightarrow> has (fst (m k)) name)"

definition only_deletion_removes :: "('k \<Rightarrow> string \<Rightarrow> bool) \<Rightarrow> 'k cluster_client \<Rightarrow> bool" where
  "only_deletion_removes has c \<longleftrightarrow>
    (\<forall>name. (\<forall>x. spares has name (kc_get_job c x)) \<and> (\<forall>x. spares has name (kc_get_pod_name_for_job c x)) \<and>
      (\<forall>x. spares has name (kc_get_job_exit_code c x)) \<and> (\<forall>x. spares has name (kc_read_job_logs c x)) \<and>
      (\<forall>x. spares has name (kc_create_job c x)) \<and> (\<forall>x. spares has name (kc_delete_job c x)) \<and>
      (\<forall>x. spares has name (kc_has_pvc c x)) \<and> (\<forall>x. spares has name (kc_create_pvc c x)) \<and>
      (\<forall>x. spares has name (kc_list_jobs c x)) \<and> (\<forall>x. spares has name (kc_list_pvcs c x)) \<and>
      (\<forall>x. spares has name (kc_has_pods_for_deployment c x)) \<and> (\<forall>x. x \<noteq> name \<longrightarrow> spares has name (kc_delete_pvc c x)) \<and>
      (\<forall>n k. has k name \<longrightarrow> has (kc_sleep c n k) name))"

text \<open>
  The assertion the operations keep: the invariant of the table, and that each of the restore points \<open>I\<close> is there, is
  ready or failed (or being restored, where \<open>restoring\<close>) and has its volume.
\<close>

definition settled :: "bool \<Rightarrow> restore_point_status set" where
  "settled restoring = TERMINAL_STATUSES \<union> (if restoring then {PtRESTORING} else {})"

definition stored :: "bool \<Rightarrow> uuid set \<Rightarrow> restore_point list \<Rightarrow> bool" where
  "stored restoring I ps \<longleftrightarrow> (\<forall>i \<in> I. \<exists>p \<in> set ps. pt_id p = i \<and> pt_status p \<in> settled restoring)"

definition guarded :: "'k restore_env \<Rightarrow> ('k \<Rightarrow> string \<Rightarrow> bool) \<Rightarrow> bool \<Rightarrow> uuid set \<Rightarrow> 'k restore_world \<Rightarrow> bool" where
  "guarded env has restoring I w \<longleftrightarrow>
    points_ok (re_max_per_agent env) (rd_points (rw_db w)) \<and> stored restoring I (rd_points (rw_db w)) \<and>
    (\<forall>i \<in> I. has (rw_cluster w) (restore_point_resource_name i))"

abbreviation holds :: "('k restore_world \<Rightarrow> bool) \<Rightarrow> ('k, 'a) restore_act \<Rightarrow> bool" where
  "holds \<equiv> keeps_in (\<lambda>w. w)"

lemma holds_reading [keeps_intros]: "holds J (reading f)"
  by (simp add: keeps_in_def reading_def)

lemma holds_lifted [keeps_intros]: "holds J (lifted r)"
  by (simp add: keeps_in_def lifted_def)

lemma holds_clock [keeps_intros]: "holds J (clock_seconds env)"
  by (simp add: keeps_in_def clock_seconds_def)

lemma holds_lock [keeps_intros]: "(\<And>acquired. holds J (f acquired)) \<Longrightarrow> holds J (with_lifecycle_lock aid f)"
  by (auto simp: keeps_in_def with_lifecycle_lock_def)

lemma holds_logged [keeps_intros]: "holds J m \<Longrightarrow> holds J (logged m)"
  unfolding logged_def by (rule keeps_catch) (auto simp: keeps_ret)

lemma holds_attempt [keeps_intros]: "holds J m \<Longrightarrow> holds J (attempt m)"
  unfolding attempt_def by (rule keeps_catch, rule keeps_andthen) (auto simp: keeps_ret)

lemma holds_read:
  assumes "\<And>w. J w \<Longrightarrow> P (g (rw_db w)) \<and> J' (g (rw_db w)) w" "\<And>x. P x \<Longrightarrow> holds (J' x) (f x)" "\<And>x w. J' x w \<Longrightarrow> J w"
  shows "holds J (andthen (reading g) f)"
  by (rule keeps_learning [where P = P and J' = J']) (use assms in \<open>auto simp: keeps_in_def reading_def\<close>)

lemma holds_updating: "(\<And>w. J w \<Longrightarrow> J (w\<lparr>rw_db := fst (f (rw_db w))\<rparr>)) \<Longrightarrow> holds J (updating f)"
  by (auto simp: keeps_in_def updating_def split: prod.splits) (metis fst_conv)

lemma holds_transaction:
  "(\<And>w db' x. J w \<Longrightarrow> f (rw_db w) = Inr (db', x) \<Longrightarrow> J (w\<lparr>rw_db := db'\<rparr>)) \<Longrightarrow> holds J (transaction f)"
  by (fastforce simp: keeps_in_def transaction_def split: sum.splits)

lemma holds_calling: "(\<And>w. J w \<Longrightarrow> J (w\<lparr>rw_cluster := fst (m (rw_cluster w))\<rparr>)) \<Longrightarrow> holds J (calling m)"
  by (auto simp: keeps_in_def calling_def split: prod.splits) (metis fst_conv)

lemma guarded_db:
  "guarded env has b I w \<Longrightarrow> points_ok (re_max_per_agent env) (rd_points db) \<Longrightarrow> stored b I (rd_points db) \<Longrightarrow>
    guarded env has b I (w\<lparr>rw_db := db\<rparr>)"
  by (simp add: guarded_def)

lemma guarded_spares: "(\<And>i. i \<in> I \<Longrightarrow> spares has (restore_point_resource_name i) m) \<Longrightarrow> holds (guarded env has b I) (calling m)"
  by (rule holds_calling) (auto simp: guarded_def spares_def)

text \<open>Writes of a row that leave its status and all that the invariant is about.\<close>

definition same_standing :: "restore_point \<Rightarrow> restore_point \<Rightarrow> bool" where
  "same_standing p q \<longleftrightarrow>
    pt_id q = pt_id p \<and> pt_agent_id q = pt_agent_id p \<and> pt_pvc_name q = pt_pvc_name p \<and> pt_origin q = pt_origin p \<and>
    pt_status q = pt_status p \<and> pt_job_name q = pt_job_name p"

lemma points_ok_standing:
  assumes "points_ok cap ps" "\<And>p. p \<in> set ps \<Longrightarrow> same_standing p (h p)"
  shows "points_ok cap (map h ps)"
  by (rule points_ok_map [OF assms(1)]) (use assms in \<open>auto simp: points_ok_def calmer_def same_standing_def\<close>)

lemma stored_standing: "stored b I ps \<Longrightarrow> (\<And>p. p \<in> set ps \<Longrightarrow> same_standing p (h p)) \<Longrightarrow> stored b I (map h ps)"
  by (fastforce simp: stored_def same_standing_def)

lemma guarded_standing:
  "guarded env has b I w \<Longrightarrow> rd_points db = map h (rd_points (rw_db w)) \<Longrightarrow> (\<And>p. same_standing p (h p)) \<Longrightarrow>
    guarded env has b I (w\<lparr>rw_db := db\<rparr>)"
  by (rule guarded_db) (simp_all add: guarded_def points_ok_standing stored_standing)

lemma guarded_same: "guarded env has b I w \<Longrightarrow> rd_points db = rd_points (rw_db w) \<Longrightarrow> guarded env has b I (w\<lparr>rw_db := db\<rparr>)"
  by (simp add: guarded_def)

context calm_move begin

lemma keeps_guarded:
  assumes "i \<in> I \<Longrightarrow> from_statuses \<inter> settled b \<noteq> {} \<Longrightarrow> to_statuses \<subseteq> settled b"
  shows "holds (guarded env has b I) (updating (move i now))"
proof (rule holds_updating)
  fix w assume g: "guarded env has b I w"
  have "stored b I (rd_points (fst (move i now (rw_db w))))"
    unfolding stored_def
  proof
    fix j assume j: "j \<in> I"
    have "\<exists>p \<in> set (rd_points (rw_db w)). pt_id p = j \<and> pt_status p \<in> settled b" using g j by (auto simp: guarded_def stored_def)
    then show "\<exists>p \<in> set (rd_points (fst (move i now (rw_db w)))). pt_id p = j \<and> pt_status p \<in> settled b"
      by (rule status_in) (use assms j in auto)
  qed
  then show "guarded env has b I (w\<lparr>rw_db := fst (move i now (rw_db w))\<rparr>)"
    using g keeps_points by (intro guarded_db) (auto simp: guarded_def)
qed

end


section \<open>Reconciliation keeps it\<close>

text \<open>A row as it was read at some time: what never changes of it is true.\<close>

definition true_copy :: "restore_point \<Rightarrow> bool" where
  "true_copy p \<longleftrightarrow> pt_id p < uuid_bound \<and> pt_pvc_name p = restore_point_resource_name (pt_id p)"

lemma settled_sets [simp]:
  "PtREADY \<in> settled b" "PtFAILED \<in> settled b" "PtPENDING \<notin> settled b" "PtCAPTURING \<notin> settled b" "PtDELETING \<notin> settled b"
  "PtRESTORING \<in> settled b \<longleftrightarrow> b"
  by (auto simp: settled_def TERMINAL_STATUSES_def)

lemma guarded_member:
  assumes "guarded env has b I w" "p \<in> set (rd_points (rw_db w))"
  shows "true_copy p" "pt_id p \<in> I \<Longrightarrow> pt_status p \<in> settled b"
proof -
  show "true_copy p" using assms by (simp add: guarded_def points_ok_def true_copy_def)
  show "pt_status p \<in> settled b" if i: "pt_id p \<in> I"
  proof -
    have "stored b I (rd_points (rw_db w))" using assms(1) by (simp add: guarded_def)
    then obtain q where q: "q \<in> set (rd_points (rw_db w))" "pt_id q = pt_id p" "pt_status q \<in> settled b"
      unfolding stored_def using i by blast
    have "inj_on pt_id (set (rd_points (rw_db w)))" using assms(1) by (simp add: guarded_def points_ok_def distinct_map)
    from inj_onD [OF this q(2,1) assms(2)] show ?thesis using q(3) by simp
  qed
qed

abbreviation quiet :: "'k restore_env \<Rightarrow> ('k \<Rightarrow> string \<Rightarrow> bool) \<Rightarrow> bool" where
  "quiet env has \<equiv> only_deletion_removes has (re_client env)"

lemma calls:
  assumes "quiet env has"
  shows
    "holds (guarded env has b I) (calling (kc_get_job (re_client env) x))"
    "holds (guarded env has b I) (calling (kc_get_pod_name_for_job (re_client env) x))"
    "holds (guarded env has b I) (calling (kc_get_job_exit_code (re_client env) x))"
    "holds (guarded env has b I) (calling (kc_read_job_logs (re_client env) x))"
    "holds (guarded env has b I) (calling (kc_create_job (re_client env) jr))"
    "holds (guarded env has b I) (calling (kc_delete_job (re_client env) x))"
    "holds (guarded env has b I) (calling (kc_has_pvc (re_client env) x))"
    "holds (guarded env has b I) (calling (kc_create_pvc (re_client env) vr))"
    "holds (guarded env has b I) (calling (kc_list_jobs (re_client env) x))"
    "holds (guarded env has b I) (calling (kc_list_pvcs (re_client env) x))"
    "holds (guarded env has b I) (calling (kc_has_pods_for_deployment (re_client env) x))"
  by (rule guarded_spares, use assms in \<open>simp add: only_deletion_removes_def\<close>)+

lemma deletion_guarded:
  "quiet env has \<Longrightarrow> (\<And>i. i \<in> I \<Longrightarrow> name \<noteq> restore_point_resource_name i) \<Longrightarrow> holds (guarded env has b I) (calling (kc_delete_pvc (re_client env) name))"
  by (rule guarded_spares) (simp add: only_deletion_removes_def)

lemma other_volume_deleted:
  assumes "quiet env has" "true_copy p" "pt_id p \<notin> I"
  shows "holds (guarded env has b I) (calling (kc_delete_pvc (re_client env) (pt_pvc_name p)))"
proof (rule keepsI)
  fix w w' r assume g: "guarded env has b I w" and c: "calling (kc_delete_pvc (re_client env) (pt_pvc_name p)) w = Some (w', r)"
  have "pt_pvc_name p \<noteq> restore_point_resource_name i" if i: "i \<in> I" for i
  proof -
    obtain q where "q \<in> set (rd_points (rw_db w))" "pt_id q = i" using g i by (auto simp: guarded_def stored_def)
    then have "i < uuid_bound" using g by (auto simp: guarded_def points_ok_def)
    then show ?thesis using assms(2,3) i resource_name_inj [of "pt_id p" i] by (auto simp: true_copy_def)
  qed
  from keepsD [OF deletion_guarded [OF assms(1) this] g c] show "guarded env has b I w'" .
qed

text \<open>The updates.\<close>

lemma updates:
  "holds (guarded env has b I) (updating (mark_ready i bytes count now))"
  "holds (guarded env has b I) (updating (mark_restored i cancel now))"
  "holds (guarded env has b I) (updating (mark_failed i reason now))"
  "holds (guarded env has b I) (updating (mark_ready_row_failed i reason now))"
  "holds (guarded env has b I) (updating (mark_capturing i now))"
  by (rule ready.keeps_guarded restored.keeps_guarded failed.keeps_guarded lost.keeps_guarded capturing.keeps_guarded; simp)+

lemma configuration_failed_guarded: "holds (guarded env has b I) (updating (\<lambda>db. (mark_configuration_failed i reason now db, ())))"
proof (rule holds_updating)
  define h where "h = (\<lambda>p :: restore_point. if pt_id p = i
    then p\<lparr>pt_reapply_configuration := False, pt_configuration_error := Some reason, pt_updated_at := now\<rparr> else p)"
  fix w assume "guarded env has b I w"
  then show "guarded env has b I (w\<lparr>rw_db := fst (mark_configuration_failed i reason now (rw_db w), ())\<rparr>)"
    by (rule guarded_standing [where h = h]) (simp_all add: mark_configuration_failed_def put_points_def same_standing_def h_def)
qed

lemma read_guarded: "quiet env has \<Longrightarrow> holds (guarded env has b I) (read_manifest env p)"
  "quiet env has \<Longrightarrow> holds (guarded env has b I) (failure_reason env p s)"
  "quiet env has \<Longrightarrow> holds (guarded env has b I) (restore_outcome_of env j name)"
  unfolding read_manifest_def failure_reason_def job_failure_reason_def restore_outcome_of_def Let_def
  by (intro keeps_cases keeps_intros calls; assumption)+

lemma succeed_guarded: "quiet env has \<Longrightarrow> holds (guarded env has b I) (succeed_point env now p)"
  unfolding succeed_point_def by (intro keeps_intros read_guarded updates)

lemma fail_guarded: "holds (guarded env has b I) (fail_point now p reason)"
  unfolding fail_point_def by (rule updates)

text \<open>A row that could be failed from a status of running work is not one of the settled.\<close>

lemma hit_not_settled:
  assumes "guarded env has b I w" "snd (mark_failed i reason now (rw_db w))" "b \<Longrightarrow> i \<notin> I"
  shows "i \<notin> I"
proof
  assume i: "i \<in> I"
  obtain p where p: "p \<in> set (rd_points (rw_db w))" "pt_id p = i" "pt_status p \<in> NON_TERMINAL_STATUSES"
    using assms(2) failed.hit by blast
  then have "pt_status p \<in> settled b" using guarded_member(2) [OF assms(1) p(1)] i by simp
  then show False using p(3) assms(3) i by (auto simp: NON_TERMINAL_STATUSES_def)
qed

lemma fail_capture_guarded:
  assumes "quiet env has" "true_copy p" "b \<Longrightarrow> pt_id p \<notin> I"
  shows "holds (guarded env has b I) (fail_capture env now p reason)"
  unfolding fail_capture_def
proof (rule keeps_learning [where P = "\<lambda>failed. failed \<longrightarrow> pt_id p \<notin> I" and J' = "\<lambda>_. guarded env has b I"])
  show "holds (guarded env has b I) (fail_point now p reason)" by (rule fail_guarded)
  show "(failed \<longrightarrow> pt_id p \<notin> I) \<and> guarded env has b I w'"
    if g: "guarded env has b I w" and s: "fail_point now p reason w = Some (w', Inr failed)" for w w' failed
    using hit_not_settled [OF g, of "pt_id p"] assms(3) keepsD [OF fail_guarded g s] s
    by (auto simp: fail_point_def updating_def split: prod.splits) (metis snd_conv)
  show "holds (guarded env has b I) (only_if (failed \<and> pt_pvc_name p \<noteq> []) (calling (kc_delete_pvc (re_client env) (pt_pvc_name p))))"
    if "failed \<longrightarrow> pt_id p \<notin> I" for failed
    using that assms by (intro keeps_intros other_volume_deleted) auto
qed

text \<open>Old copies may be used, but not where the assertion admits rows that are being restored.\<close>

definition usable_copy :: "bool \<Rightarrow> uuid set \<Rightarrow> restore_point \<Rightarrow> bool" where
  "usable_copy b I p \<longleftrightarrow> true_copy p \<and> (b \<longrightarrow> pt_id p \<in> I \<longrightarrow> pt_status p \<in> settled True)"

lemma usable_true [dest]: "usable_copy b I p \<Longrightarrow> true_copy p"
  by (simp add: usable_copy_def)

lemma usable_unsettled: "usable_copy b I p \<Longrightarrow> pt_status p \<notin> settled True \<Longrightarrow> b \<Longrightarrow> pt_id p \<notin> I"
  by (auto simp: usable_copy_def)

lemma resolve_untracked_guarded:
  assumes "quiet env has" "usable_copy b I p" "pt_status p \<notin> TERMINAL_STATUSES"
  shows "holds (guarded env has b I) (resolve_untracked env now g p reason)"
proof -
  have "pt_status p \<noteq> PtRESTORING \<Longrightarrow> pt_status p \<notin> settled True" using assms(3) by (auto simp: settled_def)
  then show ?thesis
    unfolding resolve_untracked_def
    using assms usable_unsettled by (intro keeps_cases keeps_intros fail_guarded fail_capture_guarded) auto
qed

lemma resolve_failure_guarded:
  assumes "quiet env has" "usable_copy b I p" "pt_status p \<notin> TERMINAL_STATUSES"
  shows "holds (guarded env has b I) (resolve_failure env now p j s)"
proof -
  have u: "pt_status p \<noteq> PtRESTORING \<Longrightarrow> pt_status p \<notin> settled True" using assms(3) by (auto simp: settled_def)
  have c: "holds (guarded env has b I) (fail_capture env now p reason)" if "pt_status p \<noteq> PtRESTORING" for reason
    using assms usable_unsettled u [OF that] by (intro fail_capture_guarded) auto
  have r: "\<not> is_restore p \<Longrightarrow> pt_status p \<noteq> PtRESTORING" by (simp add: is_restore_def)
  show ?thesis
    unfolding resolve_failure_def
    by (intro keeps_if keeps_intros read_guarded assms updates fail_guarded succeed_guarded configuration_failed_guarded c; (assumption | erule r))
qed

lemma reconcile_row_guarded:
  assumes "quiet env has" "usable_copy b I p"
  shows "holds (guarded env has b I) (reconcile_row env now g p)"
  unfolding reconcile_row_def
  by (intro keeps_cases keeps_intros calls assms resolve_untracked_guarded resolve_failure_guarded updates succeed_guarded; assumption)

end
