(* ===== verification/Restore_Point_Operations.thy ===== *)
theory Restore_Point_Operations
  imports Restore_Point_Guarantees
begin

text \<open>
  Every operation on restore points keeps the invariant and the archives that are not its own: reconciliation and replay,
  the requests, the purge and the sweep.
\<close>

section \<open>Transactions with events\<close>

lemma stage_point_event_db:
  "stage_point_event reg ids now aid e db = Inr (db', ds) \<Longrightarrow> \<exists>events. db' = db\<lparr>rd_events := events\<rparr>"
  by (auto simp: stage_point_event_def bind_result_Inr)

lemma stage_points: "stage_point_event reg ids now aid e db = Inr (db', ds) \<Longrightarrow> rd_points db' = rd_points db"
  using stage_point_event_db by fastforce

definition replay_done :: "uuid \<Rightarrow> uuid \<Rightarrow> datetime \<Rightarrow> restore_point \<Rightarrow> restore_point" where
  "replay_done i aid now p =
    (if pt_id p = i \<and> pt_agent_id p = aid \<and> (pt_reapply_configuration p \<or> pt_configuration_error p \<noteq> None)
     then p\<lparr>pt_reapply_configuration := False, pt_configuration_error := None, pt_updated_at := now\<rparr> else p)"

lemma replay_done_standing: "same_standing p (replay_done i aid now p)"
  by (simp add: same_standing_def replay_done_def)

lemma finish_replay_Inr:
  "finish_replay i aid now db = Inr db' \<longleftrightarrow>
    (\<exists>p \<in> set (rd_points db). pt_id p = i \<and> pt_agent_id p = aid) \<and> db' = put_points (map (replay_done i aid now)) db"
  by (auto simp: finish_replay_def bind_result_Inr replay_done_def [abs_def])

lemma select_pin_points:
  assumes "select_pin c aid org kind expected r i db = Inr (db', u)"
  shows "rd_points db' = map (replay_done i aid (pc_now c)) (rd_points db)"
proof -
  obtain a s db1 where db1: "finish_replay i aid (pc_now c) db = Inr db1" and a: "agent_row aid db = Some (a, s)"
    using assms by (auto simp: select_pin_def bind_result_Inr split: option.splits)
  define db2 where "db2 = db1\<lparr>rd_settings := row_put as_agent_id (pin_settings kind r (pc_now c) s) (rd_settings db1),
    rd_skills := pin_skills aid r (rd_skills db1)\<rparr>"
  obtain db3 x db4 y where
    db3: "(if field_changes r s = [] then Inr (db2, [])
      else stage_point_event (pc_registry c) (\<lambda>n. pc_ids c (2 * n)) (pc_now c) aid (updated_event c a (field_changes r s)) db2) = Inr (db3, x)"
    and db4: "stage_point_event (pc_registry c) (\<lambda>n. pc_ids c (2 * n + 1)) (pc_now c) aid (selected_event c a kind r) db3 = Inr (db4, y)"
    and db': "db' = db4"
    using assms a db1 unfolding db2_def by (auto simp: select_pin_def bind_result_Inr Let_def)
  have "rd_points db3 = rd_points db2" using db3 stage_points by (auto split: if_splits)
  then have "rd_points db' = rd_points db1" using stage_points [OF db4] by (simp add: db' db2_def)
  then show ?thesis using db1 by (simp add: finish_replay_Inr put_points_def)
qed

section \<open>Reconciliation and replay\<close>

lemma write_configuration_guarded: "holds (guarded env has b I) (write_recorded_configuration env' c a s p)"
  unfolding write_recorded_configuration_def
  by (intro keeps_intros holds_transaction, rule guarded_standing [OF _ select_pin_points replay_done_standing])

lemma apply_owed_replay_guarded: "holds (guarded env has b I) (apply_owed_replay env ids now p)"
proof -
  have "holds (guarded env has b I) (catch (write_recorded_configuration env c a s q)
      (\<lambda>e. Some (updating (\<lambda>db. (mark_configuration_failed i (f e) now db, ())))))" for c a s q i f
    by (rule keeps_catch) (auto intro: write_configuration_guarded configuration_failed_guarded)
  then show ?thesis unfolding apply_owed_replay_def by (intro keeps_cases keeps_intros)
qed

lemma member_usable: "guarded env has b I w \<Longrightarrow> p \<in> set (rd_points (rw_db w)) \<Longrightarrow> usable_copy b I p"
  using guarded_member [of env has b I w p] by (auto simp: usable_copy_def)

lemma reconcile_agent_guarded:
  assumes "quiet env has"
  shows "holds (guarded env has b I) (reconcile_agent_points env ids now aid)"
  unfolding reconcile_agent_points_def
proof (rule holds_read [where P = "\<lambda>ps. \<forall>p \<in> set ps. usable_copy b I p" and J' = "\<lambda>_. guarded env has b I"])
  show "(\<forall>p \<in> set (non_terminal_points aid (rw_db w)). usable_copy b I p) \<and> guarded env has b I w" if "guarded env has b I w" for w
    using member_usable [OF that] that by (auto simp: non_terminal_points_def with_status_def)
qed (use assms in \<open>auto intro!: keeps_intros keeps_pair reconcile_row_guarded apply_owed_replay_guarded\<close>)

lemma has_blocking_guarded: "quiet env has \<Longrightarrow> holds (guarded env has b I) (has_blocking_operation env ids now aid)"
  unfolding has_blocking_operation_def by (intro keeps_intros reconcile_agent_guarded)

section \<open>Waiting\<close>

lemma sleep_guarded: "quiet env has \<Longrightarrow> holds (guarded env has b I) (calling (\<lambda>k. (kc_sleep (re_client env) n k, Inr ())))"
  by (rule guarded_spares) (simp add: spares_def only_deletion_removes_def)

lemma release_round_guarded: "quiet env has \<Longrightarrow> holds (guarded env has b I) (release_round env name deadline)"
  unfolding release_round_def by (intro keeps_cases keeps_intros calls sleep_guarded)

lemma await_release_keeps:
  assumes J: "\<And>env name deadline. env = env0 \<Longrightarrow> holds J (release_round env name deadline)"
  shows "await_release env0 name deadline w = Some y \<Longrightarrow> J w \<longrightarrow> J (fst y)"
proof -
  have "await_release env name deadline w = Some y \<Longrightarrow> env = env0 \<longrightarrow> J w \<longrightarrow> J (fst y)" for env
  proof (rule await_release.raw_induct [of "\<lambda>env name deadline w y. env = env0 \<longrightarrow> J w \<longrightarrow> J (fst y)"])
    fix rec e n d w y
    assume IH: "\<And>e n d w y. rec e n d w = Some y \<Longrightarrow> e = env0 \<longrightarrow> J w \<longrightarrow> J (fst y)"
      and step: "Option.bind (release_round e n d w) (\<lambda>(w1, r).
        case r of Inl e \<Rightarrow> Some (w1, Inl e) | Inr again \<Rightarrow> if again then rec e n d w1 else Some (w1, Inr ())) = Some y"
    show "e = env0 \<longrightarrow> J w \<longrightarrow> J (fst y)"
    proof (intro impI)
      assume e: "e = env0" and j: "J w"
      obtain w1 r where p: "release_round e n d w = Some (w1, r)" using step by (cases "release_round e n d w") auto
      have "J w1" using keepsD [OF J [OF e] j p] .
      then show "J (fst y)" using step p IH e by (auto split: sum.splits if_splits)
    qed
  qed
  then show "await_release env0 name deadline w = Some y \<Longrightarrow> J w \<longrightarrow> J (fst y)" by blast
qed

lemma await_guarded: "quiet env has \<Longrightarrow> holds (guarded env has b I) (await_agent_volume_release env aid)"
proof -
  assume q: "quiet env has"
  have "holds (guarded env has b I) (await_release env name deadline)" for name deadline
  proof (rule keepsI)
    fix w w' r assume "guarded env has b I w" "await_release env name deadline w = Some (w', r)"
    then show "guarded env has b I w'"
      using await_release_keeps [of env "guarded env has b I" name deadline w "(w', r)"] release_round_guarded [OF q] by auto
  qed
  then show ?thesis unfolding await_agent_volume_release_def by (intro keeps_intros)
qed


section \<open>Capture\<close>

abbreviation arrives :: "('k restore_world \<Rightarrow> bool) \<Rightarrow> ('k restore_world \<Rightarrow> bool) \<Rightarrow> ('k, 'a) restore_act \<Rightarrow> bool" where
  "arrives \<equiv> leads_in (\<lambda>w. w)"

lemma insert_point_Inr:
  "insert_point p db = Inr db' \<longleftrightarrow>
    pt_id p \<notin> pt_id ` set (rd_points db) \<and> \<not> (pt_status p \<in> ACTIVE_CAPTURE_STATUSES \<and> has_active_capture (pt_agent_id p) db) \<and>
    db' = put_points (row_add p) db"
proof -
  have "point_by_id i db = None \<longleftrightarrow> i \<notin> pt_id ` set (rd_points db)" for i
    by (auto simp: point_by_id_def row_get_def find_None_iff)
  then show ?thesis by (auto simp: insert_point_def bind_result_Inr)
qed

lemma new_point_added:
  assumes g: "guarded env has b I w" and ins: "insert_point p (rw_db w) = Inr db"
    and "idle (pt_agent_id p) (rd_points (rw_db w))" "true_copy p" "pt_status p = PtPENDING"
    and "pt_origin p = OriginMANUAL \<Longrightarrow> manual_count (pt_agent_id p) (rd_points (rw_db w)) < re_max_per_agent env"
    and pts: "rd_points db' = rd_points db"
  shows "guarded env has b I (w\<lparr>rw_db := db'\<rparr>)" "pt_id p \<notin> I"
proof -
  have new: "pt_id p \<notin> pt_id ` set (rd_points (rw_db w))" "rd_points db' = row_add p (rd_points (rw_db w))"
    using ins pts by (simp_all add: insert_point_Inr put_points_def)
  have "points_ok (re_max_per_agent env) (rd_points db')"
    unfolding new(2) by (rule points_ok_add) (use assms new(1) in \<open>simp_all add: guarded_def true_copy_def\<close>)
  moreover have "stored b I (rd_points db')" using g by (fastforce simp: guarded_def stored_def new(2) row_add_def)
  ultimately show "guarded env has b I (w\<lparr>rw_db := db'\<rparr>)" using g by - (rule guarded_db)
  show "pt_id p \<notin> I" using g new(1) unfolding guarded_def stored_def by (metis image_eqI)
qed

text \<open>Before a capture: nothing runs, and one more is within the cap.\<close>

definition capturable :: "'k restore_env \<Rightarrow> ('k \<Rightarrow> string \<Rightarrow> bool) \<Rightarrow> bool \<Rightarrow> uuid set \<Rightarrow> uuid \<Rightarrow> 'k restore_world \<Rightarrow> bool" where
  "capturable env has b I aid w \<longleftrightarrow>
    guarded env has b I w \<and> idle aid (rd_points (rw_db w)) \<and> manual_count aid (rd_points (rw_db w)) < re_max_per_agent env"

lemma idle_iff: "idle aid (rd_points db) \<longleftrightarrow> \<not> has_non_terminal_operation aid db"
  by (auto simp: idle_def has_non_terminal_operation_def with_status_def busy_def filter_empty_conv)

lemma count_manual: "count_manual_for_agent aid db = manual_count aid (rd_points db)"
  by (simp add: count_manual_for_agent_def manual_count_def)

lemma assert_capturable_ends:
  assumes "assert_capturable env a w = Some (w', r)"
  shows "rw_db w' = rw_db w" "r = Inr () \<Longrightarrow> idle (agent_id a) (rd_points (rw_db w)) \<and>
    manual_count (agent_id a) (rd_points (rw_db w)) < re_max_per_agent env \<and> agent_status a \<noteq> RUNNING"
  using assms
  by (auto simp: assert_capturable_def andthen_def throw_def ret_def reading_def calling_def idle_iff count_manual split: if_splits prod.splits sum.splits)

lemma assert_capturable_guarded: "quiet env has \<Longrightarrow> holds (guarded env has b I) (assert_capturable env a)"
  unfolding assert_capturable_def by (intro keeps_cases keeps_intros calls)

lemma failed_capture_guarded:
  assumes "i \<notin> I"
  shows "holds (guarded env has b I) (transaction (save_failed_capture i reason now))"
proof (rule holds_transaction)
  fix w db' x assume g: "guarded env has b I w" and s: "save_failed_capture i reason now (rw_db w) = Inr (db', x)"
  define h where "h = (\<lambda>p :: restore_point. if pt_id p = i
    then p\<lparr>pt_status := PtFAILED, pt_failure_reason := Some reason, pt_updated_at := now\<rparr> else p)"
  have db': "rd_points db' = map h (rd_points (rw_db w))"
    using s by (auto simp: save_failed_capture_def bind_result_Inr put_points_def h_def)
  have "calmer p (h p)" if "p \<in> set (rd_points (rw_db w))" for p
    using g that by (auto simp: h_def calmer_def guarded_def points_ok_def busy_def NON_TERMINAL_STATUSES_def)
  then have "points_ok (re_max_per_agent env) (rd_points db')" unfolding db' using g by (intro points_ok_map) (simp_all add: guarded_def)
  moreover have "stored b I (rd_points db')"
    using g assms unfolding db' guarded_def stored_def by (fastforce simp: h_def)
  ultimately show "guarded env has b I (w\<lparr>rw_db := db'\<rparr>)" using g by - (rule guarded_db)
qed

lemma provision_capture_guarded:
  assumes "quiet env has" "true_copy p" "pt_id p \<notin> I"
  shows "holds (guarded env has b I) (provision_capture env now a p)"
  unfolding provision_capture_def
  by (rule keeps_catch) (auto intro!: keeps_intros calls failed_capture_guarded other_volume_deleted assms)

lemma new_point_copy: "i < uuid_bound \<Longrightarrow> true_copy (new_restore_point i now a u l og job m)"
  by (simp add: true_copy_def new_restore_point_def)

lemma dispatch_guarded: "holds (guarded env' has b I) (dispatch_deliveries env now ids)"
  unfolding dispatch_deliveries_def by (rule holds_updating) (simp add: guarded_same)

lemma locked_guarded: "(\<And>a s. holds J (body a s)) \<Longrightarrow> holds J (locked_agent aid body)"
  unfolding locked_agent_def by (intro keeps_cases keeps_intros)

lemma refuse_guarded: "holds J (refuse_during_managed_update now s)"
  unfolding refuse_during_managed_update_def by (intro keeps_cases keeps_intros)

definition capture_stored :: "'k restore_env \<Rightarrow> ('k \<Rightarrow> string \<Rightarrow> bool) \<Rightarrow> bool \<Rightarrow> uuid set \<Rightarrow> restore_point \<Rightarrow> 'k restore_world \<Rightarrow> bool" where
  "capture_stored env has b I p w \<longleftrightarrow> guarded env has b I w \<and> pt_id p \<notin> I"

lemma store_capture_guarded:
  assumes q: "quiet (pr_env q) has" and p: "true_copy p" "pt_status p = PtPENDING" "pt_agent_id p = agent_id a"
  shows "arrives (capturable (pr_env q) has b I (agent_id a)) (guarded (pr_env q) has b I) (store_capture q a p)"
  unfolding store_capture_def
proof (rule leads_andthen [where C = "\<lambda>_. capture_stored (pr_env q) has b I p"])
  fix w w' r assume A: "capturable (pr_env q) has b I (agent_id a) w"
    and t: "transaction (save_with_event (re_registry (pr_env q)) (pr_event_ids q) (pr_now q) p
      (point_event_of ''agent.restore_point.created'' (pr_context q) a p)) w = Some (w', r)"
  show "case r of Inl e \<Rightarrow> guarded (pr_env q) has b I w' | Inr x \<Rightarrow> capture_stored (pr_env q) has b I p w'"
  proof (cases r)
    case (Inl err)
    then show ?thesis using A t by (auto simp: transaction_def capturable_def split: sum.splits)
  next
    case (Inr ds)
    then obtain db db' where db: "insert_point p (rw_db w) = Inr db" "w' = w\<lparr>rw_db := db'\<rparr>" "rd_points db' = rd_points db"
      using t stage_points by (fastforce simp: transaction_def save_with_event_def bind_result_Inr split: sum.splits)
    then show ?thesis
      using A p Inr new_point_added [of "pr_env q" has b I w p db db'] by (simp add: capturable_def capture_stored_def)
  qed
next
  show "arrives (capture_stored (pr_env q) has b I p) (guarded (pr_env q) has b I)
      (andthen (provision_capture (pr_env q) (pr_now q) a p) (\<lambda>_. ret (p, ds)))" for ds
  proof (cases "pt_id p \<in> I")
    case False
    have "holds (guarded (pr_env q) has b I) (andthen (provision_capture (pr_env q) (pr_now q) a p) (\<lambda>_. ret (p, ds)))"
      by (intro keeps_intros provision_capture_guarded q p False)
    then show ?thesis by (rule leads_weaken) (simp add: capture_stored_def)
  qed (simp add: leads_in_def capture_stored_def)
qed

lemma capture_locked_guarded:
  assumes q: "quiet (pr_env q) has" and new: "pr_new_id q < uuid_bound"
  shows "holds (guarded (pr_env q) has b I) (capture_locked q label managed a s)"
proof -
  have p: "true_copy (captured_point q label managed a m)" "pt_status (captured_point q label managed a m) = PtPENDING"
    "pt_agent_id (captured_point q label managed a m) = agent_id a" for m
    using new_point_copy [OF new] by (simp_all add: captured_point_def new_restore_point_def)
  have "arrives (guarded (pr_env q) has b I) (guarded (pr_env q) has b I) (andthen (assert_capturable (pr_env q) a) (\<lambda>_.
    andthen (reading (build_config_manifest a s)) (\<lambda>manifest. store_capture q a (captured_point q label managed a manifest))))"
  proof (rule leads_andthen [where C = "\<lambda>_. capturable (pr_env q) has b I (agent_id a)"])
    fix w w' r assume g: "guarded (pr_env q) has b I w" and c: "assert_capturable (pr_env q) a w = Some (w', r)"
    show "case r of Inl e \<Rightarrow> guarded (pr_env q) has b I w' | Inr x \<Rightarrow> capturable (pr_env q) has b I (agent_id a) w'"
      using keepsD [OF assert_capturable_guarded [OF q] g c] assert_capturable_ends [OF c] by (auto simp: capturable_def split: sum.splits)
  next
    show "arrives (capturable (pr_env q) has b I (agent_id a)) (guarded (pr_env q) has b I)
      (andthen (reading (build_config_manifest a s)) (\<lambda>manifest. store_capture q a (captured_point q label managed a manifest)))"
      by (rule leads_after [OF holds_reading _ store_capture_guarded [OF q p]]) (simp add: capturable_def)
  qed
  then show ?thesis unfolding capture_locked_def leads_keeps by - (rule keeps_andthen, intro keeps_if keeps_ret refuse_guarded)
qed

lemma create_guarded:
  assumes "quiet (pr_env q) has" "pr_new_id q < uuid_bound"
  shows "holds (guarded (pr_env q) has b I) (create_restore_point q aid label managed)"
  unfolding create_restore_point_def
  by (intro keeps_intros keeps_pair locked_guarded capture_locked_guarded dispatch_guarded await_guarded assms)


section \<open>Restore\<close>

lemma stored_map:
  assumes "stored b I ps" "\<And>p. p \<in> set ps \<Longrightarrow> pt_id (h p) = pt_id p \<and> (pt_status p \<in> settled b \<longrightarrow> pt_status (h p) \<in> settled b)"
  shows "stored b I (map h ps)"
  unfolding stored_def
proof
  fix i assume "i \<in> I"
  then obtain p where p: "p \<in> set ps" "pt_id p = i" "pt_status p \<in> settled b" using assms(1) by (auto simp: stored_def)
  then have "h p \<in> set (map h ps)" "pt_id (h p) = i" "pt_status (h p) \<in> settled b" using assms(2) by auto
  then show "\<exists>p \<in> set (map h ps). pt_id p = i \<and> pt_status p \<in> settled b" by blast
qed

lemma agent_row_id: "agent_row i db = Some (a, s) \<Longrightarrow> agent_id a = i \<and> live_agent i db = Some a \<and> settings_of i db = Some s"
  by (auto simp: agent_row_def live_agent_def bind_eq_Some_conv dest: find_SomeD)

lemma locked_guarded_id: "(\<And>a s. agent_id a = aid \<Longrightarrow> holds J (body a s)) \<Longrightarrow> holds J (locked_agent aid body)"
  unfolding locked_agent_def
  by (intro keeps_intros keeps_if holds_read [where P = "\<lambda>x. \<forall>a s. x = Some (a, s) \<longrightarrow> agent_id a = aid" and J' = "\<lambda>_. J"])
    (auto dest: agent_row_id intro!: keeps_option keeps_pair keeps_intros)

lemma require_action_id: "require_action db ctx i k detail = Inr a \<Longrightarrow> agent_id a = i"
  by (auto simp: require_action_def require_visible_def get_active_in_scope_def bind_result_Inr split: option.splits dest!: find_SomeD)

lemma holds_required:
  assumes "\<And>a. agent_id a = i \<Longrightarrow> holds J (f a)"
  shows "holds J (andthen (lifted (require_action db ctx i k detail)) f)"
  by (rule keeps_learning [where P = "\<lambda>a. agent_id a = i" and J' = "\<lambda>_. J"])
    (use assms in \<open>auto simp: lifted_def holds_lifted dest: require_action_id\<close>)

text \<open>Before the Job: the target is a restore point of the Agent, and at most the safety copy is waiting.\<close>

definition restorable ::
  "'k restore_env \<Rightarrow> ('k \<Rightarrow> string \<Rightarrow> bool) \<Rightarrow> uuid set \<Rightarrow> uuid \<Rightarrow> uuid \<Rightarrow> 'k restore_world \<Rightarrow> bool" where
  "restorable env has I aid i w \<longleftrightarrow>
    guarded env has True I w \<and> (\<forall>p \<in> set (rd_points (rw_db w)). pt_id p = i \<longrightarrow> pt_agent_id p = aid)"

definition backup_made ::
  "'k restore_env \<Rightarrow> ('k \<Rightarrow> string \<Rightarrow> bool) \<Rightarrow> uuid set \<Rightarrow> uuid \<Rightarrow> uuid \<Rightarrow> string \<Rightarrow> restore_point option \<Rightarrow> 'k restore_world \<Rightarrow> bool" where
  "backup_made env has I aid i job backup w \<longleftrightarrow>
    restorable env has I aid i w \<and> only_backup aid job (rd_points (rw_db w)) \<and>
    (\<forall>x. backup = Some x \<longrightarrow> true_copy x \<and> pt_id x \<notin> I)"

lemma find_restore_target_ends:
  assumes "find_restore_target i aid scope w = Some (w', r)"
  shows "w' = w" "r = Inr p \<Longrightarrow> p \<in> set (rd_points (rw_db w)) \<and> pt_id p = i \<and> pt_agent_id p = aid"
  using assms
  by (auto simp: find_restore_target_def andthen_def reading_def lifted_def throw_def ret_def point_in_scope_def points_in_scope_def
      bind_result_Inr split: option.splits sum.splits dest!: find_SomeD)

lemma refuse_while_busy_ends:
  assumes "refuse_while_busy aid w = Some (w', r)"
  shows "w' = w" "r = Inr () \<Longrightarrow> idle aid (rd_points (rw_db w)) \<and> owing_replay aid (rw_db w) = []"
  using assms by (auto simp: refuse_while_busy_def andthen_def reading_def throw_def ret_def idle_iff split: if_splits)

lemma check_replayable_keeps: "holds J (check_replayable q reapply a s target)"
  unfolding check_replayable_def validate_recorded_configuration_def by (intro keeps_cases keeps_intros)

lemma provision_restore_guarded:
  assumes "quiet env has" "\<And>x. backup = Some x \<Longrightarrow> true_copy x \<and> pt_id x \<notin> I"
  shows "holds (guarded env has True I) (provision_restore env now a target backup job)"
  unfolding provision_restore_def
  by (rule keeps_catch) (use assms in \<open>auto intro!: keeps_intros keeps_option calls updates other_volume_deleted\<close>)

lemma begin_restore_ends:
  assumes t: "transaction (begin_restore_with_event reg ids now i r e) w = Some (w', x)"
  shows "w' = w \<or> (\<exists>p \<in> set (rd_points (rw_db w)). pt_id p = i \<and> pt_status p = PtREADY \<and>
    (\<exists>db. w' = w\<lparr>rw_db := db\<rparr> \<and> rd_points db = map (\<lambda>q. if pt_id q = i then begin_restoring r now q else q) (rd_points (rw_db w))))"
proof (cases "find (\<lambda>p. pt_id p = i \<and> pt_status p = PtREADY) (rd_points (rw_db w))")
  case None
  then show ?thesis using t by (simp add: transaction_def begin_restore_with_event_def)
next
  case (Some p)
  define db1 where "db1 = put_points (map (\<lambda>q. if pt_id q = i then begin_restoring r now q else q)) (rw_db w)"
  show ?thesis
  proof (cases "stage_point_event reg ids now (pt_agent_id p) e db1")
    case Inl
    then show ?thesis using t Some by (simp add: transaction_def begin_restore_with_event_def db1_def)
  next
    case (Inr y)
    obtain db ds where y: "y = (db, ds)" by fastforce
    have "w' = w\<lparr>rw_db := db\<rparr>" using t Some Inr y by (simp add: transaction_def begin_restore_with_event_def db1_def)
    moreover have "rd_points db = rd_points db1" using Inr y stage_points by simp
    ultimately show ?thesis using find_SomeD [OF Some] by (auto simp: db1_def put_points_def)
  qed
qed

lemma begin_restore_guarded:
  assumes q: "quiet (pr_env q) has"
  shows "arrives (backup_made (pr_env q) has I aid (pt_id target) job backup) (guarded (pr_env q) has True I) (begin_restore q a target reapply job backup)"
  unfolding begin_restore_def
proof (rule leads_andthen [where C = "\<lambda>_ w. guarded (pr_env q) has True I w \<and> (\<forall>x. backup = Some x \<longrightarrow> true_copy x \<and> pt_id x \<notin> I)"])
  fix w w' r assume A: "backup_made (pr_env q) has I aid (pt_id target) job backup w"
    and t: "transaction (begin_restore_with_event (re_registry (pr_env q)) (pr_event_ids q) (pr_now q) (pt_id target)
      (intent_of q job reapply) (point_event_of ''agent.restore_point.restored'' (pr_context q) a target)) w = Some (w', r)"
  have g: "guarded (pr_env q) has True I w" using A by (simp add: backup_made_def restorable_def)
  define h where "h = (\<lambda>p. if pt_id p = pt_id target then begin_restoring (intent_of q job reapply) (pr_now q) p else p)"
  consider "w' = w" | p db where "p \<in> set (rd_points (rw_db w))" "pt_id p = pt_id target" "pt_status p = PtREADY"
      "w' = w\<lparr>rw_db := db\<rparr>" "rd_points db = map h (rd_points (rw_db w))"
    using begin_restore_ends [OF t] unfolding h_def by blast
  then have "guarded (pr_env q) has True I w'"
  proof cases
    case 2
    have "only_backup (pt_agent_id p) (want_job_name (intent_of q job reapply)) (rd_points (rw_db w))"
      using A 2 by (simp add: backup_made_def restorable_def intent_of_def)
    then have "points_ok (re_max_per_agent (pr_env q)) (rd_points db)"
      using points_ok_begin [of _ "rd_points (rw_db w)" p "pt_id target" "intent_of q job reapply" "pr_now q"] g 2 by (simp add: guarded_def h_def)
    moreover have "stored True I (rd_points db)"
      unfolding 2(5) by (rule stored_map) (use g in \<open>auto simp: guarded_def h_def begin_restoring_def\<close>)
    ultimately show ?thesis using g 2(4) guarded_db by blast
  qed (use g in simp)
  then show "case r of Inl e \<Rightarrow> guarded (pr_env q) has True I w'
      | Inr x \<Rightarrow> guarded (pr_env q) has True I w' \<and> (\<forall>x. backup = Some x \<longrightarrow> true_copy x \<and> pt_id x \<notin> I)"
    using A by (auto simp: backup_made_def split: sum.splits)
next
  fix result
  show "arrives (\<lambda>w. guarded (pr_env q) has True I w \<and> (\<forall>x. backup = Some x \<longrightarrow> true_copy x \<and> pt_id x \<notin> I)) (guarded (pr_env q) has True I)
      (case result of None \<Rightarrow> throw (conflict NOT_READY_DETAIL)
       | Some ds \<Rightarrow> andthen (provision_restore (pr_env q) (pr_now q) a target backup job) (\<lambda>_. ret (target, ds)))"
  proof (cases "\<forall>x. backup = Some x \<longrightarrow> true_copy x \<and> pt_id x \<notin> I")
    case True
    have "holds (guarded (pr_env q) has True I) (case result of None \<Rightarrow> throw (conflict NOT_READY_DETAIL)
       | Some ds \<Rightarrow> andthen (provision_restore (pr_env q) (pr_now q) a target backup job) (\<lambda>_. ret (target, ds)))"
      using True by (intro keeps_option keeps_intros provision_restore_guarded q) auto
    then show ?thesis by (rule leads_weaken) simp
  next
    case False
    then show ?thesis unfolding leads_in_def by blast
  qed
qed


lemma backup_guarded:
  assumes new: "pr_new_id q < uuid_bound" and a: "agent_id a = aid"
    and A: "restorable (pr_env q) has I aid i w" "idle aid (rd_points (rw_db w))"
    and c: "create_pre_restore_row q a s job w = Some (w', r)"
  shows "case r of Inl e \<Rightarrow> guarded (pr_env q) has True I w' | Inr b \<Rightarrow> backup_made (pr_env q) has I aid i job (Some b) w'"
proof -
  define p where "p = pre_restore_point q a job (build_config_manifest a s (rw_db w))"
  have p: "true_copy p" "pt_status p = PtPENDING" "pt_origin p = OriginPRE_RESTORE" "pt_agent_id p = aid" "pt_job_name p = Some job"
    using new a by (simp_all add: p_def pre_restore_point_def new_restore_point_def true_copy_def)
  have t: "transaction (\<lambda>db. bind_result (insert_point p db) (\<lambda>db1. Inr (db1, p))) w = Some (w', r)"
    using c by (simp add: create_pre_restore_row_def andthen_def reading_def p_def Let_def)
  show ?thesis
  proof (cases "insert_point p (rw_db w)")
    case (Inl e)
    then show ?thesis using t A(1) by (auto simp: transaction_def restorable_def)
  next
    case (Inr db)
    have w': "w' = w\<lparr>rw_db := db\<rparr>" "r = Inr p" using t Inr by (auto simp: transaction_def)
    have g: "guarded (pr_env q) has True I w" using A(1) by (simp add: restorable_def)
    have new_row: "rd_points db = row_add p (rd_points (rw_db w))" "pt_id p \<notin> pt_id ` set (rd_points (rw_db w))"
      using Inr by (simp_all add: insert_point_Inr put_points_def)
    have added: "guarded (pr_env q) has True I w'" "pt_id p \<notin> I"
      using new_point_added [OF g Inr _ p(1,2) _ refl] A(2) p(3,4) by (simp_all add: w')
    have "\<forall>x \<in> set (rd_points db). pt_id x = i \<longrightarrow> pt_agent_id x = aid"
      using A(1) p(4) by (auto simp: new_row(1) row_add_def restorable_def)
    moreover have "only_backup aid job (rd_points db)"
      using A(2) p by (auto simp: new_row(1) row_add_def only_backup_def idle_def ACTIVE_CAPTURE_STATUSES_def)
    ultimately show ?thesis using added p(1) by (simp add: w' backup_made_def restorable_def)
  qed
qed

lemma restore_started_guarded:
  assumes q: "quiet (pr_env q) has" and new: "pr_new_id q < uuid_bound" and a: "agent_id a = aid"
  shows "arrives (\<lambda>w. restorable (pr_env q) has I aid (pt_id target) w \<and> idle aid (rd_points (rw_db w))) (guarded (pr_env q) has True I)
    (andthen (if managed then ret None else andthen (create_pre_restore_row q a s job) (\<lambda>b. ret (Some b)))
      (begin_restore q a target reapply job))"
proof (rule leads_andthen [OF _ begin_restore_guarded [OF q]])
  fix w w' r
  assume A: "restorable (pr_env q) has I aid (pt_id target) w \<and> idle aid (rd_points (rw_db w))"
    and c: "(if managed then ret None else andthen (create_pre_restore_row q a s job) (\<lambda>b. ret (Some b))) w = Some (w', r)"
  show "case r of Inl e \<Rightarrow> guarded (pr_env q) has True I w' | Inr x \<Rightarrow> backup_made (pr_env q) has I aid (pt_id target) job x w'"
  proof (cases managed)
    case True
    then show ?thesis using A c idle_only_backup by (auto simp: ret_def backup_made_def)
  next
    case False
    then consider x where "create_pre_restore_row q a s job w = Some (w', Inl x)" "r = Inl x"
      | x where "create_pre_restore_row q a s job w = Some (w', Inr x)" "r = Inr (Some x)"
      using c by (auto simp: andthen_Some ret_def)
    then show ?thesis using backup_guarded [OF new a] A by cases fastforce+
  qed
qed

lemma restore_locked_guarded:
  assumes q: "quiet (pr_env q) has" and new: "pr_new_id q < uuid_bound" and a: "agent_id a = aid"
  shows "holds (guarded (pr_env q) has True I) (restore_locked q aid i reapply managed scope a s)"
proof -
  let ?G = "guarded (pr_env q) has True I"
  let ?R = "\<lambda>target. restorable (pr_env q) has I aid (pt_id target)"
  let ?rest = "\<lambda>target. let job = restore_job_name (pt_id target) (pr_token q) in
    andthen (if managed then ret None else andthen (create_pre_restore_row q a s job) (\<lambda>b. ret (Some b))) (begin_restore q a target reapply job)"
  have busy: "arrives (?R target) ?G (andthen (refuse_while_busy aid) (\<lambda>_. andthen (check_replayable q reapply a s target) (\<lambda>_. ?rest target)))" for target
  proof (rule leads_andthen [where C = "\<lambda>_ w. ?R target w \<and> idle aid (rd_points (rw_db w))"])
    show "case r of Inl e \<Rightarrow> ?G w' | Inr x \<Rightarrow> ?R target w' \<and> idle aid (rd_points (rw_db w'))"
      if "?R target w" "refuse_while_busy aid w = Some (w', r)" for w w' r
      using that refuse_while_busy_ends [OF that(2)] by (auto simp: restorable_def split: sum.splits)
    show "arrives (\<lambda>w. ?R target w \<and> idle aid (rd_points (rw_db w))) ?G (andthen (check_replayable q reapply a s target) (\<lambda>_. ?rest target))"
      unfolding Let_def
      by (rule leads_after [OF check_replayable_keeps _ restore_started_guarded [OF q new a]]) (simp add: restorable_def)
  qed
  have "arrives ?G ?G (andthen (find_restore_target i aid scope) (\<lambda>target.
    andthen (if pt_status target \<noteq> PtREADY then throw (conflict NOT_READY_DETAIL) else ret ()) (\<lambda>_.
    andthen (refuse_while_busy aid) (\<lambda>_. andthen (check_replayable q reapply a s target) (\<lambda>_. ?rest target)))))"
  proof (rule leads_andthen [where C = ?R])
    show "case r of Inl e \<Rightarrow> ?G w' | Inr target \<Rightarrow> ?R target w'" if g: "?G w" and f: "find_restore_target i aid scope w = Some (w', r)" for w w' r
    proof (cases r)
      case (Inr target)
      have t: "target \<in> set (rd_points (rw_db w))" "pt_agent_id target = aid" "w' = w"
        using find_restore_target_ends [OF f] Inr by auto
      have "inj_on pt_id (set (rd_points (rw_db w)))" using g by (simp add: guarded_def points_ok_def distinct_map)
      then have "p = target" if "p \<in> set (rd_points (rw_db w))" "pt_id p = pt_id target" for p using that t(1) by (simp add: inj_onD)
      then show ?thesis using g t Inr by (auto simp: restorable_def)
    qed (use g find_restore_target_ends(1) [OF f] in simp)
    show "arrives (?R target) ?G (andthen (if pt_status target \<noteq> PtREADY then throw (conflict NOT_READY_DETAIL) else ret ()) (\<lambda>_.
      andthen (refuse_while_busy aid) (\<lambda>_. andthen (check_replayable q reapply a s target) (\<lambda>_. ?rest target))))" for target
      by (rule leads_after [OF _ _ busy]) (auto simp: restorable_def intro!: keeps_if keeps_intros)
  qed
  then show ?thesis
    unfolding restore_locked_def leads_keeps
    by (intro keeps_andthen [OF keeps_if] keeps_throw keeps_ret refuse_guarded) (simp_all add: Let_def)
qed

lemma restore_guarded:
  assumes "quiet (pr_env q) has" "pr_new_id q < uuid_bound"
  shows "holds (guarded (pr_env q) has True I) (restore_restore_point q aid i reapply managed)"
  unfolding restore_restore_point_def
  by (intro keeps_andthen [OF holds_reading] holds_required keeps_intros keeps_pair locked_guarded_id restore_locked_guarded dispatch_guarded
      await_guarded assms) simp_all


section \<open>The identifier in a name\<close>

lemma digit_code: "d < 16 \<Longrightarrow> of_char (digit_char d) = (if d < 10 then 48 + d else 87 + d)"
  by (auto simp: digit_char_def)

lemma hex_value_digit: "d < 16 \<Longrightarrow> hex_value (digit_char d) = Some d"
  by (auto simp: hex_value_def Let_def digit_code)

lemma hex_number_append: "hex_number acc (xs @ ys) = Option.bind (hex_number acc xs) (\<lambda>a. hex_number a ys)"
  by (induction xs arbitrary: acc) (auto split: option.split)

lemma hex_number_digits: "hex_number acc (hex_digits k n) = Some (acc * 16 ^ k + n mod 16 ^ k)"
proof (induction k arbitrary: n acc)
  case (Suc k)
  have "n div 16 mod 16 ^ k * 16 + n mod 16 = n mod 16 ^ Suc k" by (simp add: mod_mult2_eq)
  then show ?case using Suc by (simp add: hex_number_append hex_value_digit algebra_simps)
qed simp

lemma hex_digits_chars: "c \<in> set (hex_digits k n) \<Longrightarrow> (of_char c :: nat) \<in> {48..57} \<union> {97..102}"
proof (induction k arbitrary: n)
  case (Suc k)
  show ?case
  proof (cases "c \<in> set (hex_digits k (n div 16))")
    case False
    then have "c = digit_char (n mod 16)" using Suc.prems by simp
    then show ?thesis using digit_code [of "n mod 16"] by auto
  qed (rule Suc.IH)
qed simp

lemma uuid_str_chars: "c \<in> set (uuid_str i) \<Longrightarrow> c \<in> set (hex_digits 32 i) \<or> c = CHR ''-''"
  by (auto simp: uuid_str_def Let_def dest: in_set_takeD in_set_dropD)

lemma remove_all_absent: "c \<notin> set s \<Longrightarrow> remove_all (c # p) s = s"
proof (induction s)
  case (Cons x s)
  then show ?case by auto
qed simp

lemma strip_by_none: "(\<And>c. c \<in> set s \<Longrightarrow> \<not> P c) \<Longrightarrow> strip_by P s = s"
proof -
  assume "\<And>c. c \<in> set s \<Longrightarrow> \<not> P c"
  then have "dropWhile P s = s" "dropWhile P (rev s) = rev s" by (auto simp: dropWhile_eq_self_iff hd_rev)
  then show ?thesis by (simp add: strip_by_def)
qed

lemma uuid_str_digits: "filter (\<lambda>c. c \<noteq> CHR ''-'') (uuid_str i) = hex_digits 32 i"
proof -
  define h where "h = hex_digits 32 i"
  have "CHR ''-'' \<notin> set h" using hex_digits_chars [of "CHR ''-''"] by (auto simp: h_def)
  then have "filter (\<lambda>c. c \<noteq> CHR ''-'') (take n (drop m h)) = take n (drop m h)" "filter (\<lambda>c. c \<noteq> CHR ''-'') (drop m h) = drop m h" for n m
    by (auto simp: filter_id_conv dest: in_set_takeD in_set_dropD)
  from this(1) [of _ 0] this show ?thesis
    unfolding uuid_str_def Let_def h_def [symmetric] using uuid_parts [of h] by simp
qed

lemma parse_uuid_str: "i < uuid_bound \<Longrightarrow> parse_uuid (uuid_str i) = Some i"
proof -
  assume i: "i < uuid_bound"
  have no: "CHR ''u'' \<notin> set (uuid_str i)" "c \<in> set (uuid_str i) \<Longrightarrow> c \<notin> {CHR ''{'', CHR ''}''}" for c
    using uuid_str_chars [of _ i] hex_digits_chars [of _ 32 i] by fastforce+
  have "remove_all ''uuid:'' (remove_all ''urn:'' (uuid_str i)) = uuid_str i" using no(1) by (simp only: remove_all_absent not_False_eq_True)
  then have "parse_uuid (uuid_str i) = hex_number 0 (hex_digits 32 i)"
    using no(2) by (simp add: parse_uuid_def strip_by_none uuid_str_digits)
  then show ?thesis using i by (simp add: hex_number_digits uuid_bound_def)
qed

text \<open>An identifier is read back from each of the names made of it.\<close>

lemma id_from_resource_name: "i < uuid_bound \<Longrightarrow> restore_point_id_from_name (restore_point_resource_name i) = Some i"
  by (simp add: restore_point_id_from_name_def restore_point_resource_name_def PVC_NAME_PREFIX_def parse_uuid_str)

lemma id_from_job_names:
  "i < uuid_bound \<Longrightarrow> restore_point_id_from_name (capture_job_name i) = Some i"
  "i < uuid_bound \<Longrightarrow> restore_point_id_from_name (restore_job_name i token) = Some i"
  by (simp_all add: restore_point_id_from_name_def capture_job_name_def restore_job_name_def PVC_NAME_PREFIX_def CAPTURE_JOB_NAME_PREFIX_def
      RESTORE_JOB_NAME_PREFIX_def parse_uuid_str)


section \<open>Reads, deletion, and what managed updates do\<close>

lemma read_scope_keeps: "holds J (read_scope ctx aid)"
  unfolding read_scope_def by (intro keeps_intros)

lemma find_target_keeps: "holds J (find_restore_target i aid scope)"
  by (rule keepsI) (use find_restore_target_ends(1) in blast)

lemma refuse_busy_keeps: "holds J (refuse_while_busy aid)"
  by (rule keepsI) (use refuse_while_busy_ends(1) in blast)

lemma list_guarded: "quiet (pr_env q) has \<Longrightarrow> holds (guarded (pr_env q) has b I) (list_restore_points q aid page per_page)"
  unfolding list_restore_points_def by (intro keeps_intros read_scope_keeps reconcile_agent_guarded)

lemma get_guarded: "quiet (pr_env q) has \<Longrightarrow> holds (guarded (pr_env q) has b I) (get_restore_point q aid i)"
  unfolding get_restore_point_def by (intro keeps_intros read_scope_keeps reconcile_agent_guarded find_target_keeps)

lemma apply_recorded_guarded: "holds (guarded env has b I) (apply_recorded_configuration q aid i)"
  unfolding apply_recorded_configuration_def Let_def
  by (intro keeps_if keeps_intros locked_guarded refuse_guarded find_target_keeps refuse_busy_keeps write_configuration_guarded)

lemma deletion_row_guarded:
  assumes "pt_id p \<notin> I"
  shows "holds (guarded env has b I) (transaction (delete_with_event reg ids now p e))"
proof (rule holds_transaction)
  fix w db' x assume g: "guarded env has b I w" and d: "delete_with_event reg ids now p e (rw_db w) = Inr (db', x)"
  have "rd_points db' = filter (\<lambda>r. pt_id r \<noteq> pt_id p) (rd_points (rw_db w))"
    using d by (auto simp: delete_with_event_def bind_result_Inr put_points_def dest: stage_points)
  moreover have "stored b I (filter (\<lambda>r. pt_id r \<noteq> pt_id p) (rd_points (rw_db w)))"
    using g assms by (fastforce simp: guarded_def stored_def)
  ultimately show "guarded env has b I (w\<lparr>rw_db := db'\<rparr>)"
    using g points_ok_filter by (intro guarded_db) (auto simp: guarded_def)
qed

lemma delete_target_guarded:
  assumes "quiet (pr_env q) has" "true_copy p" "pt_id p \<notin> I"
  shows "holds (guarded (pr_env q) has b I) (delete_target q aid p)"
  unfolding delete_target_def Let_def
  by (intro keeps_cases keeps_intros refuse_guarded calls other_volume_deleted deletion_row_guarded dispatch_guarded assms)

lemma delete_guarded:
  assumes q: "quiet (pr_env q) has" and i: "i \<notin> I"
  shows "holds (guarded (pr_env q) has b I) (delete_restore_point q aid i)"
proof -
  let ?G = "guarded (pr_env q) has b I"
  have found: "holds ?G (andthen (find_restore_target i aid scope) (delete_target q aid))" for scope
  proof (rule keeps_learning [where P = "\<lambda>p. true_copy p \<and> pt_id p = i" and J' = "\<lambda>_. ?G"])
    show "(true_copy p \<and> pt_id p = i) \<and> ?G w'" if g: "?G w" and f: "find_restore_target i aid scope w = Some (w', Inr p)" for w w' p
      using find_restore_target_ends [OF f] guarded_member(1) [OF g] g by auto
  qed (use delete_target_guarded q i find_target_keeps in auto)
  show ?thesis
    unfolding delete_restore_point_def
    by (intro keeps_andthen [OF holds_reading] keeps_andthen [OF holds_lifted] keeps_andthen [OF reconcile_agent_guarded [OF q]] found)
qed

lemma reopened_guarded:
  assumes g: "guarded env has b I w" and r: "reopen_failed_restore now i w = Some (w', r)"
    and o: "\<And>p. p \<in> set (rd_points (rw_db w)) \<Longrightarrow> pt_id p = i \<Longrightarrow> pt_origin p \<noteq> OriginMANUAL"
  shows "guarded env has b I w'"
proof -
  define h where "h = (\<lambda>p. if pt_id p = i \<and> pt_status p \<in> {PtFAILED} then touched now (p\<lparr>pt_status := PtREADY, pt_failure_reason := None\<rparr>) else p)"
  have w': "w' = w\<lparr>rw_db := put_points (map h) (rw_db w)\<rparr>"
    using r reopened.rows [of i now "rw_db w"] by (auto simp: reopen_failed_restore_def updating_def h_def split: prod.splits)
  have "calmer p (h p)" if "p \<in> set (rd_points (rw_db w))" for p
    using g that o [OF that] by (auto simp: h_def calmer_def guarded_def points_ok_def busy_def NON_TERMINAL_STATUSES_def touched_def)
  then have "points_ok (re_max_per_agent env) (map h (rd_points (rw_db w)))" using g by (intro points_ok_map) (simp_all add: guarded_def)
  moreover have "stored b I (map h (rd_points (rw_db w)))"
    by (rule stored_map) (use g in \<open>auto simp: guarded_def h_def touched_def\<close>)
  ultimately show ?thesis using g unfolding w' by (intro guarded_db) (simp_all add: put_points_def)
qed

lemma purge_guarded: "holds (guarded env has b {}) (purge_agent env aid)"
proof -
  have d: "holds (guarded env has b {}) (updating (\<lambda>db. (delete_for_agent aid db, ())))"
    by (rule holds_updating, rule guarded_db) (auto simp: guarded_def delete_for_agent_def put_points_def points_ok_filter stored_def)
  show ?thesis unfolding purge_agent_def Let_def by (intro keeps_intros d; rule guarded_spares; simp)
qed

lemma wait_round_guarded:
  assumes "quiet (wc_env c) has" "holds (guarded (wc_env c) has b I) (wc_on_poll c)"
    and "\<And>n w. guarded (wc_env c) has b I w \<Longrightarrow> guarded (wc_env c) has b I (wc_meanwhile c n w)"
  shows "holds (guarded (wc_env c) has b I) (wait_round c aid i deadline n)"
proof -
  have "holds (guarded (wc_env c) has b I) (\<lambda>w. Some (wc_meanwhile c n w, Inr ()))" using assms(3) by (auto simp: keeps_in_def)
  then show ?thesis unfolding wait_round_def by (intro keeps_cases keeps_intros reconcile_agent_guarded assms)
qed

section \<open>The sweep\<close>

text \<open>What the listing says: an object named after a restore point has no other label.\<close>

definition labels_true :: "cluster_object list \<Rightarrow> bool" where
  "labels_true xs \<longleftrightarrow> (\<forall>x \<in> set xs. \<forall>i. co_name x = restore_point_resource_name i \<longrightarrow> co_label_id x \<in> {None, Some (uuid_str i)})"

definition lists_true :: "'k cluster_client \<Rightarrow> bool" where
  "lists_true c \<longleftrightarrow> (\<forall>selector k xs. snd (kc_list_pvcs c selector k) = Inr xs \<longrightarrow> labels_true xs)"

lemma labels_true_id:
  "labels_true xs \<Longrightarrow> x \<in> set xs \<Longrightarrow> co_name x = restore_point_resource_name i \<Longrightarrow> i < uuid_bound \<Longrightarrow> object_restore_point_id x = Some i"
  using id_from_resource_name [of i] parse_uuid_str [of i] by (fastforce simp: labels_true_def object_restore_point_id_def)

lemma claim_guarded: "holds (guarded env has b I) (updating (claim_restore_candidates now stale limit locked))"
proof (rule holds_updating)
  fix w assume g: "guarded env has b I w"
  define claimed where "claimed = take limit (sort_key pt_updated_at (row_where (\<lambda>p. reconcilable stale p \<and> pt_id p \<notin> locked) (rd_points (rw_db w))))"
  define h where "h = (\<lambda>p :: restore_point. if pt_id p \<in> pt_id ` set claimed then p\<lparr>pt_updated_at := now\<rparr> else p)"
  show "guarded env has b I (w\<lparr>rw_db := fst (claim_restore_candidates now stale limit locked (rw_db w))\<rparr>)"
    by (rule guarded_standing [OF g, where h = h])
      (simp_all add: claim_restore_candidates_def claimed_def [symmetric] put_points_def h_def Let_def same_standing_def)
qed

lemma claimed_usable:
  assumes "guarded env has b I w" "snd (claim_restore_candidates now stale limit locked (rw_db w)) = ps" "p \<in> set ps"
  shows "usable_copy b I p"
proof -
  obtain r where r: "r \<in> set (rd_points (rw_db w))" "p = r\<lparr>pt_updated_at := now\<rparr>"
    using assms(2,3) by (auto simp: claim_restore_candidates_def Let_def dest!: in_set_takeD)
  have "usable_copy b I r" by (rule member_usable [OF assms(1) r(1)])
  then show ?thesis using r(2) by (simp add: usable_copy_def true_copy_def)
qed

lemma sweep_expired_keeps: "holds J (sweep_expired c)"
  unfolding sweep_expired_def by (intro keeps_intros)

lemma resolve_rows_guarded:
  "quiet (sl_env c) has \<Longrightarrow> \<forall>p \<in> set ps. usable_copy b I p \<Longrightarrow> holds (guarded (sl_env c) has b I) (resolve_claimed_rows c ps result)"
proof (induction ps arbitrary: result)
  case (Cons p ps)
  have "holds (guarded (sl_env c) has b I) (resolve_claimed_row c p result)"
    unfolding resolve_claimed_row_def
    by (intro keeps_cases keeps_intros reconcile_row_guarded apply_owed_replay_guarded) (use Cons.prems in auto)
  then show ?case using Cons by (auto intro!: keeps_if keeps_intros sweep_expired_keeps)
qed (simp add: keeps_ret)

lemma resolve_claimed_guarded:
  assumes q: "quiet (sl_env c) has"
  shows "holds (guarded (sl_env c) has b I) (resolve_claimed c)"
  unfolding resolve_claimed_def
proof (rule keeps_learning [where P = "\<lambda>ps. \<forall>p \<in> set ps. usable_copy b I p" and J' = "\<lambda>_. guarded (sl_env c) has b I"])
  fix w w' ps
  assume g: "guarded (sl_env c) has b I w"
    and u: "updating (claim_restore_candidates (sl_now c) (sl_now c - seconds SWEEP_STALE_SECONDS) SWEEP_BATCH_SIZE (sl_locked c)) w = Some (w', Inr ps)"
  then have "snd (claim_restore_candidates (sl_now c) (sl_now c - seconds SWEEP_STALE_SECONDS) SWEEP_BATCH_SIZE (sl_locked c) (rw_db w)) = ps"
    by (auto simp: updating_def split: prod.splits)
  then show "(\<forall>p \<in> set ps. usable_copy b I p) \<and> guarded (sl_env c) has b I w'"
    using claimed_usable [OF g] keepsD [OF claim_guarded g u] by blast
qed (use claim_guarded resolve_rows_guarded q in auto)


lemma fail_missing_guarded: "holds (guarded env has b I) (fail_missing c ps result)"
proof (induction ps arbitrary: result)
  case (Cons p ps)
  then show ?case by (auto intro!: keeps_if keeps_intros sweep_expired_keeps updates)
qed (simp add: keeps_ret)

lemma fail_rows_guarded: "holds (guarded env has b I) (fail_rows_without_volumes c volumes result)"
  unfolding fail_rows_without_volumes_def Let_def by (intro keeps_if keeps_intros fail_missing_guarded)

text \<open>No volume of the restore points \<open>I\<close> is taken for an orphan.\<close>

definition recognised :: "uuid set \<Rightarrow> uuid set \<Rightarrow> (object_kind \<times> cluster_object) list \<Rightarrow> bool" where
  "recognised I known xs \<longleftrightarrow>
    (\<forall>x i. (KindPVC, x) \<in> set xs \<longrightarrow> i \<in> I \<longrightarrow> co_name x = restore_point_resource_name i \<longrightarrow>
      object_restore_point_id x = Some i \<and> i \<in> known)"

lemma reclaim_guarded:
  assumes "quiet (sl_env c) has" "recognised I known xs"
  shows "holds (guarded (sl_env c) has b I) (reclaim c known xs result)"
  using assms(2)
proof (induction xs arbitrary: result)
  case (Cons kx xs)
  obtain kind x where kx: "kx = (kind, x)" by fastforce
  have rest: "holds (guarded (sl_env c) has b I) (reclaim c known xs result)" for result
    by (rule Cons.IH) (use Cons.prems in \<open>auto simp: recognised_def\<close>)
  have del: "holds (guarded (sl_env c) has b I) (delete_object (sl_env c) kind (co_name x))"
    if "object_restore_point_id x = Some i" "i \<notin> known" for i
  proof (cases kind)
    case KindPVC
    have "co_name x \<noteq> restore_point_resource_name j" if "j \<in> I" for j
      using Cons.prems that \<open>object_restore_point_id x = Some i\<close> \<open>i \<notin> known\<close> unfolding kx KindPVC recognised_def by (metis list.set_intros(1) option.inject)
    then show ?thesis unfolding delete_object_def KindPVC by (simp add: deletion_guarded assms(1))
  qed (simp add: delete_object_def calls assms(1))
  show ?case
    unfolding kx reclaim.simps by (intro keeps_if keeps_intros keeps_option sweep_expired_keeps rest del) auto
qed (simp add: keeps_ret)

lemma reclaim_orphans_guarded:
  assumes q: "quiet (sl_env c) has" and l: "I \<noteq> {} \<Longrightarrow> labels_true volumes"
  shows "holds (guarded (sl_env c) has b I) (reclaim_orphans c volumes jobs result)"
proof -
  define xs where "xs = map (\<lambda>x. (KindJOB, x)) jobs @ map (\<lambda>x. (KindPVC, x)) volumes"
  define identified where "identified = set (concat (map (\<lambda>(kind, x). case object_restore_point_id x of None \<Rightarrow> [] | Some i \<Rightarrow> [i]) xs))"
  have "holds (guarded (sl_env c) has b I) (andthen (reading (existing_ids identified)) (\<lambda>known. reclaim c known xs result))"
  proof (rule holds_read [where P = "\<lambda>known. recognised I known xs" and J' = "\<lambda>_. guarded (sl_env c) has b I"])
    fix w assume g: "guarded (sl_env c) has b I w"
    have "object_restore_point_id x = Some i \<and> i \<in> existing_ids identified (rw_db w)"
      if x: "(KindPVC, x) \<in> set xs" and i: "i \<in> I" and n: "co_name x = restore_point_resource_name i" for x i
    proof -
      obtain p where p: "p \<in> set (rd_points (rw_db w))" "pt_id p = i" using g i by (auto simp: guarded_def stored_def)
      then have "i < uuid_bound" using guarded_member(1) [OF g p(1)] by (simp add: true_copy_def)
      then have id: "object_restore_point_id x = Some i" using labels_true_id [OF l _ n] x i by (auto simp: xs_def)
      then have "i \<in> identified" using x unfolding identified_def by force
      then show ?thesis using id p by (auto simp: existing_ids_def)
    qed
    then show "recognised I (existing_ids identified (rw_db w)) xs \<and> guarded (sl_env c) has b I w" using g by (auto simp: recognised_def)
  qed (auto intro: reclaim_guarded q)
  then show ?thesis unfolding reclaim_orphans_def Let_def xs_def [symmetric] identified_def [symmetric] .
qed

lemma attempt_ends: "attempt m w = Some (w', Inr (Some x)) \<Longrightarrow> m w = Some (w', Inr x)"
  unfolding attempt_def by (drule catch_Inr) (auto simp: andthen_Some ret_def)

lemma list_objects_ends:
  assumes "lists_true (re_client (sl_env c))" "list_objects c w = Some (w', Inr (Some (volumes, jobs)))"
  shows "labels_true volumes"
proof -
  obtain w1 where "calling (kc_list_pvcs (re_client (sl_env c)) RESTORE_POINT_SELECTOR) w = Some (w1, Inr volumes)"
    using attempt_ends [OF assms(2) [unfolded list_objects_def]] by (auto simp: andthen_Some ret_def)
  then have "snd (kc_list_pvcs (re_client (sl_env c)) RESTORE_POINT_SELECTOR (rw_cluster w)) = Inr volumes"
    by (auto simp: calling_def split: prod.splits)
  then show ?thesis using assms(1) unfolding lists_true_def by blast
qed

lemma list_objects_guarded: "quiet (sl_env c) has \<Longrightarrow> holds (guarded (sl_env c) has b I) (list_objects c)"
  unfolding list_objects_def by (intro keeps_intros calls)

lemma sweep_started_guarded:
  assumes q: "quiet (sl_env c) has" and l: "I \<noteq> {} \<Longrightarrow> lists_true (re_client (sl_env c))"
  shows "holds (guarded (sl_env c) has b I) (sweep_started c)"
proof -
  let ?P = "\<lambda>objects. I \<noteq> {} \<longrightarrow> (\<forall>volumes jobs. objects = Some (volumes, jobs) \<longrightarrow> labels_true volumes)"
  have objects: "holds (guarded (sl_env c) has b I) (sweep_objects c result x)" if "?P x" for result x
    unfolding sweep_objects_def using that q
    by (intro keeps_option keeps_pair keeps_andthen keeps_ret fail_rows_guarded reclaim_orphans_guarded) auto
  have "holds (guarded (sl_env c) has b I) (andthen (list_objects c) (sweep_objects c result))" for result
  proof (rule keeps_learning [where P = ?P and J' = "\<lambda>_. guarded (sl_env c) has b I"])
    show "?P x \<and> guarded (sl_env c) has b I w'" if g: "guarded (sl_env c) has b I w" and f: "list_objects c w = Some (w', Inr x)" for w w' x
      using keepsD [OF list_objects_guarded [OF q] g f] list_objects_ends [OF l] f by blast
  qed (use list_objects_guarded [OF q] objects in auto)
  then show ?thesis unfolding sweep_started_def by (intro keeps_andthen [OF resolve_claimed_guarded [OF q]])
qed

lemma sweep_guarded:
  assumes "quiet (sl_env c) has" "I \<noteq> {} \<Longrightarrow> lists_true (re_client (sl_env c))"
  shows "holds (guarded (sl_env c) has b I) (sweep_once c)"
proof -
  have "holds (guarded (sl_env c) has b I) (sweep_started (c\<lparr>sl_started := t\<rparr>))" for t
    using sweep_started_guarded [where c = "c\<lparr>sl_started := t\<rparr>"] assms by simp
  then show ?thesis unfolding sweep_once_def by (intro keeps_andthen holds_clock)
qed

end
