(* ===== verification/Restore_Point_Properties.thy ===== *)
theory Restore_Point_Properties
  imports Restore_Point_Operations
begin

text \<open>
  What follows for restore points, whoever asks for what in which order: one operation at a time on the volume of an
  Agent, archives that stay, the cap, and when a configuration is replayed.
\<close>

section \<open>Any order of operations\<close>

text \<open>
  A step is an operation; in between, Members come and go, Agents start and stop, Jobs run and other sessions take and
  release locks (\<open>elsewhere\<close>), which leaves the table of restore points. An operation on a row that was read earlier may
  come at any time: \<open>OldCopyStep i s\<close> reconciles a copy of row \<open>i\<close> that was in status \<open>s\<close> when it was read; a replay reads the
  row again before it does anything.
\<close>

datatype restore_step_kind = FreshStep | OldCopyStep uuid restore_point_status | DeletionOf uuid | PurgeOf uuid

inductive restore_step :: "'k restore_env \<Rightarrow> restore_step_kind \<Rightarrow> 'k restore_world \<Rightarrow> 'k restore_world \<Rightarrow> bool" for env where
  captures: "pr_env q = env \<Longrightarrow> pr_new_id q < uuid_bound \<Longrightarrow> create_restore_point q aid label managed w = Some (w', created) \<Longrightarrow>
    restore_step env FreshStep w w'"
| restores: "pr_env q = env \<Longrightarrow> pr_new_id q < uuid_bound \<Longrightarrow> restore_restore_point q aid i reapply managed w = Some (w', read) \<Longrightarrow>
    restore_step env FreshStep w w'"
| replays: "pr_env q = env \<Longrightarrow> apply_recorded_configuration q aid i w = Some (w', finished) \<Longrightarrow> restore_step env FreshStep w w'"
| lists: "pr_env q = env \<Longrightarrow> list_restore_points q aid page per_page w = Some (w', items) \<Longrightarrow> restore_step env FreshStep w w'"
| reads: "pr_env q = env \<Longrightarrow> get_restore_point q aid i w = Some (w', read) \<Longrightarrow> restore_step env FreshStep w w'"
| asks: "has_blocking_operation env ids now aid w = Some (w', blocked) \<Longrightarrow> restore_step env FreshStep w w'"
| sweeps: "sl_env c = env \<Longrightarrow> sweep_once c w = Some (w', result) \<Longrightarrow> restore_step env FreshStep w w'"
| reopens: "reopen_failed_restore now i w = Some (w', reopened) \<Longrightarrow>
    (\<And>p. p \<in> set (rd_points (rw_db w)) \<Longrightarrow> pt_id p = i \<Longrightarrow> pt_origin p \<noteq> OriginMANUAL) \<Longrightarrow> restore_step env FreshStep w w'"
| old_row: "true_copy p \<Longrightarrow> reconcile_row env now g p w = Some (w', finished) \<Longrightarrow> restore_step env (OldCopyStep (pt_id p) (pt_status p)) w w'"
| old_replay: "apply_owed_replay env ids now p w = Some (w', finished) \<Longrightarrow> restore_step env FreshStep w w'"
| deletes: "pr_env q = env \<Longrightarrow> delete_restore_point q aid i w = Some (w', finished) \<Longrightarrow> restore_step env (DeletionOf i) w w'"
| purges: "purge_agent env aid w = Some (w', finished) \<Longrightarrow> restore_step env (PurgeOf aid) w w'"

definition elsewhere :: "'k restore_world \<Rightarrow> 'k restore_world \<Rightarrow> bool" where
  "elsewhere w w' \<longleftrightarrow> rd_points (rw_db w') = rd_points (rw_db w)"

definition restore_steps :: "'k restore_env \<Rightarrow> 'k restore_world \<Rightarrow> 'k restore_world \<Rightarrow> bool" where
  "restore_steps env = (\<lambda>w w'. (\<exists>kind. restore_step env kind w w') \<or> elsewhere w w')\<^sup>*\<^sup>*"

text \<open>A step keeps what the assertion says of the restore points that are not deleted.\<close>

definition concerns :: "restore_step_kind \<Rightarrow> bool \<Rightarrow> uuid set \<Rightarrow> bool" where
  "concerns kind restoring I \<longleftrightarrow>
    (case kind of FreshStep \<Rightarrow> False | OldCopyStep i s \<Rightarrow> restoring \<and> i \<in> I \<and> s \<notin> settled True
     | DeletionOf i \<Rightarrow> i \<in> I | PurgeOf aid \<Rightarrow> I \<noteq> {})"

lemma step_guarded:
  assumes "restore_step env kind w w'" and q: "quiet env has" and l: "I \<noteq> {} \<Longrightarrow> lists_true (re_client env)"
    and k: "\<not> concerns kind b I" and g: "guarded env has b I w"
  shows "guarded env has b I w' \<or> guarded env has True I w'"
proof -
  have weaker: "guarded env has b I w \<Longrightarrow> guarded env has True I w" for w
  proof -
    have "settled b \<subseteq> settled True" by (auto simp: settled_def)
    then show "guarded env has b I w \<Longrightarrow> guarded env has True I w" unfolding guarded_def stored_def by blast
  qed
  show ?thesis using assms(1)
  proof cases
    case (captures q aid label managed created)
    have "holds (guarded env has b I) (create_restore_point q aid label managed)" using create_guarded [where q = q] captures(2,3) q by simp
    from keepsD [OF this g captures(4)] show ?thesis by blast
  next
    case (restores q aid i reapply managed read)
    have "holds (guarded env has True I) (restore_restore_point q aid i reapply managed)" using restore_guarded [where q = q] restores(2,3) q by simp
    from keepsD [OF this weaker [OF g] restores(4)] show ?thesis by blast
  next
    case (replays q aid i finished)
    from keepsD [OF apply_recorded_guarded g replays(3)] show ?thesis by blast
  next
    case (lists q aid page per_page items)
    have "holds (guarded env has b I) (list_restore_points q aid page per_page)" using list_guarded [where q = q] lists(2) q by simp
    from keepsD [OF this g lists(3)] show ?thesis by blast
  next
    case (reads q aid i read)
    have "holds (guarded env has b I) (get_restore_point q aid i)" using get_guarded [where q = q] reads(2) q by simp
    from keepsD [OF this g reads(3)] show ?thesis by blast
  next
    case (asks ids now aid blocked)
    from keepsD [OF has_blocking_guarded [OF q] g asks(2)] show ?thesis by blast
  next
    case (sweeps c result)
    have "holds (guarded env has b I) (sweep_once c)" using sweep_guarded [where c = c] sweeps(2) q l by simp
    from keepsD [OF this g sweeps(3)] show ?thesis by blast
  next
    case (reopens now i reopened)
    then show ?thesis using reopened_guarded [OF g reopens(2)] by blast
  next
    case (old_row p now ga finished)
    have "usable_copy b I p" using old_row(1,2) k by (auto simp: usable_copy_def concerns_def)
    from keepsD [OF reconcile_row_guarded [OF q this] g old_row(3)] show ?thesis by blast
  next
    case (old_replay ids now p finished)
    from keepsD [OF apply_owed_replay_guarded g old_replay(2)] show ?thesis by blast
  next
    case (deletes q aid i finished)
    have "holds (guarded env has b I) (delete_restore_point q aid i)" using delete_guarded [where q = q] deletes(1,2) q k by (simp add: concerns_def)
    from keepsD [OF this g deletes(3)] show ?thesis by blast
  next
    case (purges aid finished)
    have "I = {}" using k purges(1) by (simp add: concerns_def)
    then have "guarded env has b {} w" using g by simp
    from keepsD [OF purge_guarded this purges(2)] show ?thesis using \<open>I = {}\<close> by simp
  qed
qed

definition well_formed :: "'k restore_env \<Rightarrow> 'k restore_world \<Rightarrow> bool" where
  "well_formed env w \<longleftrightarrow> points_ok (re_max_per_agent env) (rd_points (rw_db w))"

lemma well_formed_guarded: "well_formed env w \<longleftrightarrow> guarded env (\<lambda>_ _. False) b {} w"
  by (simp add: well_formed_def guarded_def stored_def)

lemma step_well_formed: "restore_step env kind w w' \<Longrightarrow> well_formed env w \<Longrightarrow> well_formed env w'"
proof -
  assume s: "restore_step env kind w w'" and w: "well_formed env w"
  have q: "quiet env (\<lambda>_ _. False)" by (simp add: only_deletion_removes_def spares_def)
  have k: "\<not> concerns kind False {}" by (simp add: concerns_def split: restore_step_kind.split)
  show ?thesis using step_guarded [OF s q _ k] w well_formed_guarded by blast
qed

lemma steps_well_formed: "restore_steps env w w' \<Longrightarrow> well_formed env w \<Longrightarrow> well_formed env w'"
  unfolding restore_steps_def
  by (induction rule: rtranclp_induct) (auto simp: elsewhere_def well_formed_def dest: step_well_formed [unfolded well_formed_def])


section \<open>A small installation\<close>

text \<open>A cluster whose state is the list of its volumes; no Job is left, and no pod runs.\<close>

definition demo_client :: "string list cluster_client" where
  "demo_client =
    \<lparr>kc_get_job = (\<lambda>_ k. (k, Inr None)), kc_get_pod_name_for_job = (\<lambda>_ k. (k, Inr None)),
     kc_get_job_exit_code = (\<lambda>_ k. (k, Inr None)), kc_read_job_logs = (\<lambda>_ k. (k, Inr None)),
     kc_create_job = (\<lambda>_ k. (k, Inr ())), kc_delete_job = (\<lambda>_ k. (k, Inr ())), kc_has_pvc = (\<lambda>name k. (k, Inr (name \<in> set k))),
     kc_create_pvc = (\<lambda>v k. (k @ [restore_point_resource_name (vr_restore_point_id v)], Inr ())),
     kc_delete_pvc = (\<lambda>name k. (filter (\<lambda>x. x \<noteq> name) k, Inr ())), kc_list_jobs = (\<lambda>_ k. (k, Inr [])),
     kc_list_pvcs = (\<lambda>_ k. (k, Inr (map (\<lambda>x. \<lparr>co_name = x, co_label_id = None, co_created_at = Some 0\<rparr>) k))),
     kc_has_pods_for_deployment = (\<lambda>_ k. (k, Inr False)), kc_monotonic = (\<lambda>_. 0), kc_sleep = (\<lambda>_ k. k)\<rparr>"

definition demo_resolved :: resolved_selection where
  "demo_resolved =
    \<lparr>res_selected_id = 70, res_template_key = Some ''t'', res_version = Some 3, res_skill_pins = [], res_removed_skill_ids = [],
     res_approval_mode = Some ''auto'', res_verbose_mode = Some True, res_max_turns = Some None, res_model = Some ''m''\<rparr>"

definition demo_restore_registry :: event_registry where
  "demo_restore_registry =
    \<lparr>registry_definitions = map (\<lambda>name. \<lparr>def_event_name = name, def_schema_version = 1, def_payload_model = (\<lambda>_. Dumped (JObj [])),
        def_handler_names = [], def_event_scope = Some ScopeOrganization\<rparr>)
       [''agent.updated'', ''agent.template_override.selected'', ''agent.restore_point.created'', ''agent.restore_point.restored'',
        ''agent.restore_point.deleted''],
     registry_max_payload_bytes = 50\<rparr>"

definition demo_restore_env :: "string list restore_env" where
  "demo_restore_env =
    \<lparr>re_client = demo_client, re_registry = demo_restore_registry, re_max_per_agent = 2, re_loads = (\<lambda>_. None),
     re_friendly_error = (\<lambda>_ _. ''failed''), re_accepts = (\<lambda>_. True), re_resolve = (\<lambda>_ _ _ _. Inr demo_resolved)\<rparr>"

definition demo_manifest :: config_manifest where
  "demo_manifest =
    \<lparr>cm_version = 2, cm_agent_type = ''hermes'', cm_template_key = ''t'', cm_template_version = 3,
     cm_template_selection_type = ''organization'', cm_override_version = None, cm_model = ''m'', cm_effective_model = ''m'',
     cm_approval_mode = ''auto'', cm_verbose_mode = True, cm_max_turns = Some None, cm_skills = []\<rparr>"

definition demo_point :: "uuid \<Rightarrow> restore_point_status \<Rightarrow> restore_point_origin \<Rightarrow> string option \<Rightarrow> restore_point" where
  "demo_point i status origin job =
    \<lparr>pt_id = i, pt_agent_id = 100, pt_created_by_user_id = Some 1, pt_label = None, pt_status = status, pt_origin = origin,
     pt_agent_type = ''hermes'', pt_pvc_name = restore_point_resource_name i, pt_job_name = job, pt_archive_bytes = None,
     pt_file_count = None, pt_config_manifest = demo_manifest, pt_failure_reason = None, pt_reapply_configuration = False,
     pt_configuration_error = None, pt_restored_by_user_id = None, pt_restored_by_display = None, pt_captured_at = None,
     pt_created_at = 0, pt_updated_at = 0\<rparr>"

definition demo_settings :: agent_settings where
  "demo_settings =
    \<lparr>as_agent_id = 100, as_platform_template_id = None, as_agent_template_id = Some 70, as_override_version_id = None,
     as_model = ''m'', as_running_model = None, as_approval_mode = ''auto'', as_verbose_mode = True, as_max_turns = None,
     as_updated_at = 5, as_managed_update_heartbeat_at = None\<rparr>"

definition stopped_agent :: agent where
  "stopped_agent = (demo_agent 100 7 None)\<lparr>agent_status := STOPPED\<rparr>"

definition demo_restore_db :: "restore_point list \<Rightarrow> restore_db" where
  "demo_restore_db ps =
    \<lparr>rd_access = \<lparr>permission_rows = [], access_role_rows = [], role_permission_rows = [], agents = [stopped_agent],
       agent_accesses = [], memberships = [], users = []\<rparr>, rd_settings = [demo_settings], rd_skills = [], rd_skill_rows = [],
     rd_org_templates = [(70, ''t'', 3)], rd_platform_templates = [], rd_overrides = [], rd_points = ps,
     rd_events = \<lparr>outbox_messages = [], event_deliveries = []\<rparr>\<rparr>"

definition demo_world :: "restore_point list \<Rightarrow> string list restore_world" where
  "demo_world ps = \<lparr>rw_db = demo_restore_db ps, rw_cluster = map (\<lambda>p. pt_pvc_name p) ps, rw_held = {}\<rparr>"

lemmas demo_restore_defs = demo_world_def demo_restore_db_def demo_restore_env_def demo_client_def demo_point_def

abbreviation demo_has :: "string list \<Rightarrow> string \<Rightarrow> bool" where
  "demo_has k name \<equiv> name \<in> set k"

lemma demo_quiet: "only_deletion_removes demo_has (re_client demo_restore_env)"
  by (simp add: demo_restore_env_def demo_client_def only_deletion_removes_def spares_def)

lemma demo_lists: "lists_true (re_client demo_restore_env)"
  by (auto simp: demo_restore_env_def demo_client_def lists_true_def labels_true_def)

definition demo_target :: restore_point where
  "demo_target = demo_point 1 PtRESTORING OriginMANUAL (Some ''job'')"

definition demo_backup :: restore_point where
  "demo_backup = demo_point 2 PtPENDING OriginPRE_RESTORE (Some ''job'')"

lemma demo_well_formed: "well_formed demo_restore_env (demo_world [demo_target, demo_backup])"
  by (auto simp: well_formed_def points_ok_def demo_restore_defs demo_target_def demo_backup_def uuid_bound_def manual_count_def
      restore_pair_def ACTIVE_CAPTURE_STATUSES_def busy_def NON_TERMINAL_STATUSES_def)

section \<open>One operation at a time\<close>

text \<open>
  C14. Whatever anybody does, in whatever order, and whichever rows were read how long ago: if two operations on restore
  points of the same Agent are recorded as under way, then they are a restore and the safety copy that the same Job takes
  before it.
\<close>

theorem one_operation_per_agent:
  assumes "restore_steps env w w'" and "well_formed env w"
    and "p \<in> set (rd_points (rw_db w'))" and "q \<in> set (rd_points (rw_db w'))" and "p \<noteq> q" and "pt_agent_id p = pt_agent_id q"
    and "pt_status p \<in> NON_TERMINAL_STATUSES" and "pt_status q \<in> NON_TERMINAL_STATUSES"
  shows "restore_pair p q \<or> restore_pair q p"
  using steps_well_formed [OF assms(1,2)] assms(3-) by (simp add: well_formed_def points_ok_def busy_def)

lemma one_operation_per_agent_witness: "restore_pair demo_target demo_backup \<or> restore_pair demo_backup demo_target"
  by (rule one_operation_per_agent [of demo_restore_env "demo_world [demo_target, demo_backup]" "demo_world [demo_target, demo_backup]"])
    (simp_all add: restore_steps_def demo_well_formed, simp_all add: demo_restore_defs demo_target_def demo_backup_def NON_TERMINAL_STATUSES_def)

text \<open>
  C30. The number of restore points that Members took of an Agent and that did not fail never exceeds the cap, in
  whatever order captures, restores, failures and the retries of managed updates come.
\<close>

theorem manual_captures_within_cap:
  assumes "restore_steps env w w'" and "well_formed env w"
  shows "count_manual_for_agent aid (rw_db w') \<le> re_max_per_agent env"
  using steps_well_formed [OF assms] by (simp add: count_manual well_formed_def points_ok_def)

lemma manual_captures_within_cap_witness:
  "count_manual_for_agent 100 (rw_db (demo_world [demo_target, demo_backup])) \<le> re_max_per_agent demo_restore_env"
  by (rule manual_captures_within_cap [of demo_restore_env "demo_world [demo_target, demo_backup]"])
    (simp_all add: restore_steps_def demo_well_formed)

section \<open>Archives\<close>

text \<open>
  Any sequence of steps that may not take the archive of restore point \<open>i\<close> of Agent \<open>owner\<close> away: everything but its own deletion,
  the purge of its Agent, and the reconciliation of a copy of its row that was read during its capture while it is
  being restored; and what happens elsewhere does not remove its volume.
\<close>

definition being_restored :: "uuid \<Rightarrow> 'k restore_world \<Rightarrow> bool" where
  "being_restored i w \<longleftrightarrow> (\<exists>p \<in> set (rd_points (rw_db w)). pt_id p = i \<and> pt_status p = PtRESTORING)"

definition harmless :: "uuid \<Rightarrow> uuid \<Rightarrow> restore_step_kind \<Rightarrow> 'k restore_world \<Rightarrow> bool" where
  "harmless owner i kind w \<longleftrightarrow>
    (case kind of
       FreshStep \<Rightarrow> True
     | OldCopyStep j s \<Rightarrow> j = i \<longrightarrow> being_restored i w \<longrightarrow> s \<in> settled True
     | DeletionOf j \<Rightarrow> j \<noteq> i
     | PurgeOf aid \<Rightarrow> aid \<noteq> owner \<and> aid < uuid_bound \<and> (\<forall>p \<in> set (rd_points (rw_db w)). pt_id p = i \<longrightarrow> pt_agent_id p \<noteq> aid))"

definition archive_step :: "'k restore_env \<Rightarrow> ('k \<Rightarrow> string \<Rightarrow> bool) \<Rightarrow> uuid \<Rightarrow> uuid \<Rightarrow> 'k restore_world \<Rightarrow> 'k restore_world \<Rightarrow> bool" where
  "archive_step env has owner i w w' \<longleftrightarrow>
    (\<exists>kind. restore_step env kind w w' \<and> harmless owner i kind w) \<or>
    elsewhere w w' \<and> (has (rw_cluster w) (restore_point_resource_name i) \<longrightarrow> has (rw_cluster w') (restore_point_resource_name i))"

text \<open>What the code relies on: a volume with the label of one Agent is not listed under the label of another.\<close>

definition lists_by_agent :: "'k cluster_client \<Rightarrow> uuid \<Rightarrow> string \<Rightarrow> bool" where
  "lists_by_agent c owner name \<longleftrightarrow>
    (\<forall>aid k xs. aid \<noteq> owner \<longrightarrow> aid < uuid_bound \<longrightarrow> snd (kc_list_pvcs c (''agentbarn.io/agent-id='' @ uuid_str aid) k) = Inr xs \<longrightarrow> name \<notin> co_name ` set xs)"

lemma guarded_weaker: "guarded env has b I w \<Longrightarrow> guarded env has True I w"
proof -
  have "settled b \<subseteq> settled True" by (auto simp: settled_def)
  then show "guarded env has b I w \<Longrightarrow> guarded env has True I w" unfolding guarded_def stored_def by blast
qed

lemma guarded_unless_restored: "guarded env has True {i} w \<Longrightarrow> \<not> being_restored i w \<Longrightarrow> guarded env has False {i} w"
  by (auto simp: guarded_def stored_def settled_def being_restored_def TERMINAL_STATUSES_def)

lemma purge_other_guarded:
  assumes q: "quiet env has" and l: "lists_by_agent (re_client env) owner (restore_point_resource_name i)"
    and g: "guarded env has True {i} w" and h: "harmless owner i (PurgeOf aid) w" and p: "purge_agent env aid w = Some (w', r)"
  shows "guarded env has True {i} w'"
proof -
  let ?J = "\<lambda>w. guarded env has True {i} w \<and> (\<forall>p \<in> set (rd_points (rw_db w)). pt_id p = i \<longrightarrow> pt_agent_id p \<noteq> aid)"
  have ne: "aid \<noteq> owner" "aid < uuid_bound" using h by (simp_all add: harmless_def)
  have call: "holds ?J (calling m)" if "spares has (restore_point_resource_name i) m" for m :: "('a, 'c) cluster_call"
    by (rule holds_calling) (use that in \<open>auto simp: guarded_def spares_def\<close>)
  have jobs: "holds ?J (calling (kc_list_jobs (re_client env) x))" "holds ?J (calling (kc_delete_job (re_client env) y))" for x y
    using q by (auto intro!: call simp: only_deletion_removes_def)
  have rows: "holds ?J (updating (\<lambda>db. (delete_for_agent aid db, ())))"
    by (rule holds_updating, intro conjI guarded_db) (auto simp: guarded_def delete_for_agent_def put_points_def points_ok_filter stored_def)
  have volumes: "holds ?J (each vs (\<lambda>v. calling (kc_delete_pvc (re_client env) (co_name v))))"
    if "restore_point_resource_name i \<notin> co_name ` set vs" for vs
  proof (intro keeps_intros call)
    fix v assume "v \<in> set vs"
    then have "co_name v \<noteq> restore_point_resource_name i" using that by force
    then show "spares has (restore_point_resource_name i) (kc_delete_pvc (re_client env) (co_name v))"
      using q by (simp add: only_deletion_removes_def)
  qed
  define list_volumes where "list_volumes = kc_list_pvcs (re_client env) (''agentbarn.io/agent-id='' @ uuid_str aid)"
  have free: "restore_point_resource_name i \<notin> co_name ` set vs" if "snd (list_volumes k) = Inr vs" for k vs
    using l ne that unfolding lists_by_agent_def list_volumes_def by blast
  have list: "holds ?J (calling list_volumes)" unfolding list_volumes_def using q by (intro call) (simp add: only_deletion_removes_def)
  have listed: "holds ?J (andthen (calling list_volumes)
      (\<lambda>vs. andthen (each vs (\<lambda>v. calling (kc_delete_pvc (re_client env) (co_name v)))) (\<lambda>_. updating (\<lambda>db. (delete_for_agent aid db, ())))))"
  proof (rule keeps_learning [where P = "\<lambda>vs. restore_point_resource_name i \<notin> co_name ` set vs" and J' = "\<lambda>_. ?J"])
    show "holds ?J (calling list_volumes)" by (rule list)
    show "restore_point_resource_name i \<notin> co_name ` set vs \<and> ?J w'"
      if j: "?J w" and c: "calling list_volumes w = Some (w', Inr vs)" for w w' vs
    proof
      show "restore_point_resource_name i \<notin> co_name ` set vs"
        by (rule free [of "rw_cluster w"]) (use c in \<open>simp add: calling_def split: prod.splits\<close>)
      show "?J w'" by (rule keepsD [OF list j c])
    qed
    show "holds ?J (andthen (each vs (\<lambda>v. calling (kc_delete_pvc (re_client env) (co_name v)))) (\<lambda>_. updating (\<lambda>db. (delete_for_agent aid db, ()))))"
      if "restore_point_resource_name i \<notin> co_name ` set vs" for vs
      by (intro keeps_intros volumes [OF that] rows)
  qed
  have "holds ?J (purge_agent env aid)"
    unfolding purge_agent_def Let_def list_volumes_def [symmetric] by (intro keeps_andthen listed keeps_each jobs)
  from keepsD [OF this _ p] g h show ?thesis by (simp add: harmless_def)
qed

lemma archive_step_guarded:
  assumes s: "archive_step env has owner i w w'" and q: "quiet env has" and l: "lists_true (re_client env)"
    and o: "lists_by_agent (re_client env) owner (restore_point_resource_name i)" and g: "guarded env has True {i} w"
  shows "guarded env has True {i} w'"
  using s unfolding archive_step_def
proof (elim disjE exE conjE)
  fix kind assume step: "restore_step env kind w w'" and h: "harmless owner i kind w"
  show ?thesis
  proof (cases "concerns kind True {i}")
    case False
    then show ?thesis using step_guarded [OF step q l False g] by blast
  next
    case True
    show ?thesis
    proof (cases kind)
      case (OldCopyStep j s)
      then have "\<not> being_restored i w"
        using True h by (auto simp: concerns_def harmless_def)
      from step_guarded [OF step q l _ guarded_unless_restored [OF g this]] OldCopyStep show ?thesis
        using guarded_weaker by (auto simp: concerns_def)
    next
      case (PurgeOf aid)
      then obtain r where "purge_agent env aid w = Some (w', r)" using step by (auto elim: restore_step.cases)
      then show ?thesis using purge_other_guarded [OF q o g] h PurgeOf by blast
    qed (use True h in \<open>auto simp: concerns_def harmless_def\<close>)
  qed
next
  assume "elsewhere w w'" "has (rw_cluster w) (restore_point_resource_name i) \<longrightarrow> has (rw_cluster w') (restore_point_resource_name i)"
  then show ?thesis using g by (simp add: guarded_def elsewhere_def)
qed

text \<open>
  C15. Archives stay: however many operations come in whatever order, the volume of a restore point that is ready, has
  failed or is being restored is still there afterwards, and so is its row, in one of these statuses. Excepted are its own
  deletion, the purge of its Agent, and one step that does remove it (\<open>old_copy_deletes_archive\<close> in
  \<open>Restore_Point_Edges\<close>): while it is being restored, the reconciliation of a copy of its row that was read during its
  capture. (Given that no other call to the cluster and nothing else removes its volume, that volumes carry the label of the
  restore point they are named after, and that its volume is listed under its own Agent alone.)
\<close>

theorem archives_are_kept:
  assumes "(archive_step env has (pt_agent_id p) (pt_id p))\<^sup>*\<^sup>* w w'" and "well_formed env w"
    and "only_deletion_removes has (re_client env)" and "lists_true (re_client env)"
    and "lists_by_agent (re_client env) (pt_agent_id p) (pt_pvc_name p)"
    and "p \<in> set (rd_points (rw_db w))" and "has (rw_cluster w) (pt_pvc_name p)"
    and "pt_status p \<in> {PtREADY, PtFAILED, PtRESTORING}"
  shows "has (rw_cluster w') (pt_pvc_name p) \<and>
    (\<exists>p' \<in> set (rd_points (rw_db w')). pt_id p' = pt_id p \<and> pt_status p' \<in> {PtREADY, PtFAILED, PtRESTORING})"
proof -
  have name: "pt_pvc_name p = restore_point_resource_name (pt_id p)" using assms(2,6) by (simp add: well_formed_def points_ok_def)
  have "guarded env has True {pt_id p} w"
    using assms(2,6-8) name by (auto simp: guarded_def well_formed_def stored_def)
  with assms(1) have "guarded env has True {pt_id p} w'"
    by (induction rule: rtranclp_induct) (use archive_step_guarded assms(3-5) name in auto)
  then show ?thesis by (auto simp: guarded_def stored_def name settled_def TERMINAL_STATUSES_def)
qed

text \<open>
  The volumes of Agent 100 are found by its label alone. A row that was pending when it was read is ready now and its Job is gone;
  after its copy was reconciled, another Agent is purged.
\<close>

definition demo_ready :: restore_point where
  "demo_ready = demo_point 1 PtREADY OriginMANUAL None"

definition demo_old_copy :: restore_point where
  "demo_old_copy = demo_point 1 PtPENDING OriginMANUAL (Some ''job'')"

definition demo_labelled_env :: "string list restore_env" where
  "demo_labelled_env = demo_restore_env\<lparr>re_client := demo_client\<lparr>kc_list_pvcs := (\<lambda>selector k.
    (k, Inr (if selector = ''agentbarn.io/agent-id='' @ uuid_str 100
       then map (\<lambda>x. \<lparr>co_name = x, co_label_id = None, co_created_at = Some 0\<rparr>) k else [])))\<rparr>\<rparr>"

lemma demo_labelled:
  "only_deletion_removes demo_has (re_client demo_labelled_env)" "lists_true (re_client demo_labelled_env)"
  "lists_by_agent (re_client demo_labelled_env) 100 name"
proof -
  show "only_deletion_removes demo_has (re_client demo_labelled_env)" "lists_true (re_client demo_labelled_env)"
    by (auto simp: demo_labelled_env_def demo_client_def only_deletion_removes_def spares_def lists_true_def labels_true_def)
  have "uuid_str aid \<noteq> uuid_str 100" if "aid \<noteq> 100" "aid < uuid_bound" for aid
    using uuid_str_inj [of aid 100] that by (auto simp: uuid_bound_def)
  then show "lists_by_agent (re_client demo_labelled_env) 100 name"
    by (auto simp: lists_by_agent_def demo_labelled_env_def)
qed

lemma demo_old_row: "restore_step demo_labelled_env (OldCopyStep 1 PtPENDING) (demo_world [demo_ready]) (demo_world [demo_ready])"
proof -
  have "true_copy demo_old_copy" by (simp add: true_copy_def demo_old_copy_def demo_point_def uuid_bound_def)
  moreover have "reconcile_row demo_labelled_env 100 False demo_old_copy (demo_world [demo_ready]) = Some (demo_world [demo_ready], Inr ())"
    by (simp add: reconcile_row_def demo_old_copy_def demo_labelled_env_def demo_restore_defs demo_ready_def TERMINAL_STATUSES_def job_of_def
        andthen_def calling_def resolve_untracked_def fail_capture_def fail_point_def updating_def mark_failed_def conditional_update_def
        put_points_def NON_TERMINAL_STATUSES_def only_if_def ret_def)
  ultimately have "restore_step demo_labelled_env (OldCopyStep (pt_id demo_old_copy) (pt_status demo_old_copy))
      (demo_world [demo_ready]) (demo_world [demo_ready])" by (rule restore_step.old_row)
  then show ?thesis by (simp add: demo_old_copy_def demo_point_def)
qed

lemma demo_purge_other: "restore_step demo_labelled_env (PurgeOf 101) (demo_world [demo_ready]) (demo_world [demo_ready])"
proof -
  have "uuid_str 101 \<noteq> uuid_str 100" using uuid_str_inj [of 101 100] by (auto simp: uuid_bound_def)
  then have "purge_agent demo_labelled_env 101 (demo_world [demo_ready]) = Some (demo_world [demo_ready], Inr ())"
    by (simp add: purge_agent_def Let_def demo_labelled_env_def demo_restore_defs demo_ready_def andthen_def calling_def ret_def
        updating_def delete_for_agent_def put_points_def)
  then show ?thesis by (rule restore_step.purges)
qed

lemma archives_are_kept_witness: "demo_has (rw_cluster (demo_world [demo_ready])) (pt_pvc_name demo_ready)"
proof -
  have row: "rd_points (rw_db (demo_world [demo_ready])) = [demo_ready]" "pt_status demo_ready = PtREADY" "pt_agent_id demo_ready = 100"
      "pt_id demo_ready = 1" "pt_pvc_name demo_ready = restore_point_resource_name 1" "rw_cluster (demo_world [demo_ready]) = [restore_point_resource_name 1]"
    by (simp_all add: demo_restore_defs demo_ready_def)
  have "harmless 100 1 (OldCopyStep 1 PtPENDING) (demo_world [demo_ready])" "harmless 100 1 (PurgeOf 101) (demo_world [demo_ready])"
    by (simp_all add: harmless_def being_restored_def row uuid_bound_def)
  then have "archive_step demo_labelled_env demo_has 100 1 (demo_world [demo_ready]) (demo_world [demo_ready])"
    using demo_old_row demo_purge_other unfolding archive_step_def by blast
  then have "(archive_step demo_labelled_env demo_has (pt_agent_id demo_ready) (pt_id demo_ready))\<^sup>*\<^sup>*
      (demo_world [demo_ready]) (demo_world [demo_ready])"
    unfolding row by (rule r_into_rtranclp)
  moreover have "well_formed demo_labelled_env (demo_world [demo_ready])"
    by (simp add: well_formed_def points_ok_def row busy_def uuid_bound_def manual_count_def)
      (simp add: demo_labelled_env_def demo_restore_env_def)
  ultimately show ?thesis
    using archives_are_kept [of demo_labelled_env demo_has demo_ready] demo_labelled row by auto
qed


section \<open>Replay of the configuration\<close>

lemma write_configuration_ends:
  assumes "write_recorded_configuration env c a s q w = Some (w', r)"
  shows "(\<exists>e. r = Inl e \<and> w' = w) \<or>
    (\<exists>kind res db. r = Inr () \<and> select_pin c (agent_id a) (agent_organization_id a) kind (as_updated_at s) res (pt_id q) (rw_db w) = Inr (db, ()) \<and>
      w' = w\<lparr>rw_db := db\<rparr>)"
  using assms
  by (auto simp: write_recorded_configuration_def andthen_def reading_def lifted_def transaction_def split: sum.splits)

lemma select_pin_frame:
  assumes "select_pin c aid org kind expected r i db = Inr (db', u)"
  shows "rd_access db' = rd_access db" "map as_agent_id (rd_settings db') = map as_agent_id (rd_settings db)"
proof -
  obtain a s db1 where db1: "finish_replay i aid (pc_now c) db = Inr db1" and a: "agent_row aid db = Some (a, s)"
    using assms by (auto simp: select_pin_def bind_result_Inr split: option.splits)
  define db2 where "db2 = db1\<lparr>rd_settings := row_put as_agent_id (pin_settings kind r (pc_now c) s) (rd_settings db1),
    rd_skills := pin_skills aid r (rd_skills db1)\<rparr>"
  obtain db3 x db4 y where
    db3: "(if field_changes r s = [] then Inr (db2, [])
      else stage_point_event (pc_registry c) (\<lambda>n. pc_ids c (2 * n)) (pc_now c) aid (updated_event c a (field_changes r s)) db2) = Inr (db3, x)"
    and db4: "stage_point_event (pc_registry c) (\<lambda>n. pc_ids c (2 * n + 1)) (pc_now c) aid (selected_event c a kind r) db3 = Inr (db4, y)"
    and db': "db' = db4"
    using assms a db1 unfolding db2_def by (auto simp: select_pin_def bind_result_Inr Let_def)
  have "rd_access db3 = rd_access db2 \<and> rd_settings db3 = rd_settings db2" using db3 by (auto split: if_splits dest!: stage_point_event_db)
  then have "rd_access db' = rd_access db1 \<and> rd_settings db' = rd_settings db2"
    using stage_point_event_db [OF db4] by (auto simp: db' db2_def)
  then show "rd_access db' = rd_access db" "map as_agent_id (rd_settings db') = map as_agent_id (rd_settings db)"
    using db1 by (auto simp: finish_replay_Inr put_points_def db2_def)
qed

text \<open>What a replay does: nothing; or it writes the configuration and clears the intent, or stores why it could not and clears it.\<close>

definition replay_ends :: "datetime \<Rightarrow> restore_point \<Rightarrow> 'k restore_world \<Rightarrow> 'k restore_world \<Rightarrow> bool" where
  "replay_ends now p w w' \<longleftrightarrow>
    (\<exists>a s q. agent_row (pt_agent_id p) (rw_db w) = Some (a, s) \<and> agent_status a \<noteq> RUNNING \<and> pt_agent_id p \<notin> rw_held w \<and>
      q \<in> set (rd_points (rw_db w)) \<and> pt_id q = pt_id p \<and> pt_agent_id q = pt_agent_id p \<and> pt_status q = PtREADY \<and> pt_reapply_configuration q \<and>
      ((\<exists>c kind res db. pc_now c = now \<and> select_pin c (pt_agent_id p) (agent_organization_id a) kind (as_updated_at s) res (pt_id p) (rw_db w) = Inr (db, ()) \<and>
          w' = w\<lparr>rw_db := db\<rparr>) \<or>
       (\<exists>reason. w' = w\<lparr>rw_db := mark_configuration_failed (pt_id p) reason now (rw_db w)\<rparr>)))"

definition no_replay :: "restore_point \<Rightarrow> 'k restore_world \<Rightarrow> bool" where
  "no_replay p w \<longleftrightarrow>
    pt_agent_id p \<in> rw_held w \<or>
    (case agent_row (pt_agent_id p) (rw_db w) of
       None \<Rightarrow> True
     | Some (a, s) \<Rightarrow> agent_status a = RUNNING \<or> find (\<lambda>q. pt_id q = pt_id p) (owing_replay (pt_agent_id p) (rw_db w)) = None)"

lemma apply_owed_replay_ends:
  assumes run: "apply_owed_replay env ids now p w = Some (w', r)"
  shows "w' = w \<and> no_replay p w \<or> replay_ends now p w w'"
proof (rule disjCI)
  assume n: "\<not> replay_ends now p w w'"
  let ?db = "rw_db w"
  show "w' = w \<and> no_replay p w"
  proof (cases "pt_agent_id p \<in> rw_held w")
    case True
    then show ?thesis using run by (simp add: apply_owed_replay_def with_lifecycle_lock_def ret_def no_replay_def)
  next
    case False
    note free = False
    show ?thesis
    proof (cases "agent_row (pt_agent_id p) ?db")
      case None
      then show ?thesis using run free by (simp add: apply_owed_replay_def with_lifecycle_lock_def andthen_def reading_def ret_def no_replay_def)
    next
      case (Some x)
      obtain a s where x: "x = (a, s)" by fastforce
      have a: "agent_id a = pt_agent_id p" using Some x agent_row_id by blast
      show ?thesis
      proof (cases "agent_status a = RUNNING \<or> find (\<lambda>q. pt_id q = pt_id p) (owing_replay (pt_agent_id p) ?db) = None")
        case True
        then show ?thesis using run free Some x
          by (auto simp: apply_owed_replay_def with_lifecycle_lock_def andthen_def reading_def ret_def no_replay_def split: if_splits)
      next
        case False
        then obtain q where q: "find (\<lambda>q. pt_id q = pt_id p) (owing_replay (pt_agent_id p) ?db) = Some q" by auto
        have q': "q \<in> set (rd_points ?db)" "pt_id q = pt_id p" "pt_agent_id q = pt_agent_id p" "pt_status q = PtREADY" "pt_reapply_configuration q"
          using find_SomeD [OF q] by (auto simp: owing_replay_def)
        define c where "c = replay_call env ids now q a"
        have c: "pc_now c = now" by (simp add: c_def replay_call_def)
        have "catch (write_recorded_configuration env c a s q)
            (\<lambda>e. Some (updating (\<lambda>db. (mark_configuration_failed (pt_id q) (replay_failure e) now db, ())))) w = Some (w', r)"
          using run free Some x False q by (simp add: apply_owed_replay_def with_lifecycle_lock_def andthen_def reading_def c_def)
        then obtain w1 r1 where w1: "write_recorded_configuration env c a s q w = Some (w1, r1)"
            "case r1 of Inl e \<Rightarrow> w' = w1\<lparr>rw_db := mark_configuration_failed (pt_id q) (replay_failure e) now (rw_db w1)\<rparr> | Inr u \<Rightarrow> w' = w1"
          by (cases "write_recorded_configuration env c a s q w") (auto simp: catch_def updating_def split: sum.splits)
        have "(\<exists>kind res db. select_pin c (pt_agent_id p) (agent_organization_id a) kind (as_updated_at s) res (pt_id p) ?db = Inr (db, ()) \<and> w' = w\<lparr>rw_db := db\<rparr>) \<or>
            (\<exists>reason. w' = w\<lparr>rw_db := mark_configuration_failed (pt_id p) reason now ?db\<rparr>)"
        proof (cases r1)
          case (Inl e)
          then show ?thesis using write_configuration_ends [OF w1(1)] w1(2) q'(2) by auto
        next
          case (Inr u)
          then have "w' = w1" using w1(2) by simp
          then show ?thesis using write_configuration_ends [OF w1(1)] Inr a q'(2) by auto
        qed
        then have "replay_ends now p w w'"
          unfolding replay_ends_def using Some x False free q' c by blast
        then show ?thesis using n by blast
      qed
    qed
  qed
qed

lemma replay_ends_points:
  assumes "replay_ends now p w w'"
  shows "\<exists>h. rd_points (rw_db w') = map h (rd_points (rw_db w)) \<and> (\<forall>x. same_standing x (h x)) \<and>
    (\<forall>x. pt_reapply_configuration (h x) \<longrightarrow> pt_reapply_configuration x) \<and>
    (\<forall>x. pt_id x = pt_id p \<longrightarrow> pt_agent_id x = pt_agent_id p \<longrightarrow> \<not> pt_reapply_configuration (h x))"
proof -
  consider c kind res db org expected where "pc_now c = now" "select_pin c (pt_agent_id p) org kind expected res (pt_id p) (rw_db w) = Inr (db, ())" "w' = w\<lparr>rw_db := db\<rparr>"
    | reason where "w' = w\<lparr>rw_db := mark_configuration_failed (pt_id p) reason now (rw_db w)\<rparr>"
    using assms unfolding replay_ends_def by blast
  then show ?thesis
  proof cases
    case 1
    then show ?thesis using select_pin_points [OF 1(2)]
      by (intro exI [of _ "replay_done (pt_id p) (pt_agent_id p) now"]) (auto simp: same_standing_def replay_done_def)
  next
    case 2
    then show ?thesis
      by (intro exI [of _ "\<lambda>x. if pt_id x = pt_id p
          then x\<lparr>pt_reapply_configuration := False, pt_configuration_error := Some reason, pt_updated_at := now\<rparr> else x"])
        (auto simp: same_standing_def mark_configuration_failed_def put_points_def)
  qed
qed

text \<open>
  C28. The configuration of an Agent is replayed only for a restore point that owes it: the restore has succeeded, the
  intent is still stored (however old the row is that the caller holds), nobody else holds the Agent's lifecycle lock,
  and the Agent is not running. Afterwards the intent is gone, so that it is not replayed again.
\<close>

theorem replayed_once_restored:
  assumes "apply_owed_replay env ids now p w = Some (w', r)"
    and "rd_settings (rw_db w') \<noteq> rd_settings (rw_db w) \<or> rd_skills (rw_db w') \<noteq> rd_skills (rw_db w)"
  shows "(\<exists>q \<in> set (owing_replay (pt_agent_id p) (rw_db w)). pt_id q = pt_id p) \<and> pt_agent_id p \<notin> rw_held w \<and>
    (\<exists>a. live_agent (pt_agent_id p) (rw_db w) = Some a \<and> agent_status a \<noteq> RUNNING) \<and>
    (\<forall>x \<in> set (owing_replay (pt_agent_id p) (rw_db w')). pt_id x \<noteq> pt_id p)"
proof -
  have e: "replay_ends now p w w'" using apply_owed_replay_ends [OF assms(1)] assms(2) by auto
  obtain h where "rd_points (rw_db w') = map h (rd_points (rw_db w))" "\<And>x. same_standing x (h x)"
      "\<And>x. pt_id x = pt_id p \<Longrightarrow> pt_agent_id x = pt_agent_id p \<Longrightarrow> \<not> pt_reapply_configuration (h x)"
    using replay_ends_points [OF e] by blast
  then have "\<forall>x \<in> set (owing_replay (pt_agent_id p) (rw_db w')). pt_id x \<noteq> pt_id p"
    by (auto simp: owing_replay_def same_standing_def)
  then show ?thesis using e agent_row_id unfolding replay_ends_def owing_replay_def by (auto; blast)
qed


text \<open>Events of the small installation are staged.\<close>

lemma demo_point_stage:
  assumes "pe_name e \<in> {''agent.template_override.selected'', ''agent.restore_point.created'', ''agent.restore_point.restored''}"
    and "actor_organization_id (pe_actor e) \<in> {None, Some (pe_organization_id e)}"
    and "rd_events db = \<lparr>outbox_messages = [], event_deliveries = []\<rparr>" and "is_json_object (pe_payload e)"
  shows "\<exists>events. stage_point_event demo_restore_registry ids now aid e db = Inr (db\<lparr>rd_events := events\<rparr>, [])"
proof -
  define d where "d = (\<lambda>name. \<lparr>def_event_name = name, def_schema_version = 1, def_payload_model = (\<lambda>_. Dumped (JObj [])),
        def_handler_names = [], def_event_scope = Some ScopeOrganization\<rparr> :: domain_event_definition)"
  have get: "event_registry_get demo_restore_registry (pe_name e) 1 = Inr (d (pe_name e))" and size: "registry_max_payload_bytes demo_restore_registry = 50"
    using assms(1) by (auto simp: event_registry_get_def demo_restore_registry_def row_get_def definition_key_def d_def)
  have dumps: "length (json_dumps (JObj [])) \<le> 50" by simp
  have name: "pe_name e \<noteq> [] \<and> length (pe_name e) \<le> 255" using assms(1) by auto
  show ?thesis
    using assms(2,3,4) get size dumps name
    by (auto simp: stage_point_event_def build_event_def d_def resolved_scope_def validate_scope_def validate_identity_organization_def
      identity_organization_id_def validate_payload_def is_json_object_def validate_payload_organization_def domain_event_envelope_def
      outbox_stage_def insert_message_def build_message_def row_get_def scope_matches_organization_def handler_names_for_def
      build_deliveries_def raise_if_def Let_def row_add_def enumerate_eq_zip ref_organization_def)
qed

text \<open>A restore has succeeded and the configuration is owed; the replay writes it at time 9.\<close>

definition demo_owing :: restore_point where
  "demo_owing = (demo_point 1 PtREADY OriginMANUAL None)\<lparr>pt_reapply_configuration := True\<rparr>"

lemma demo_selected:
  assumes "pc_registry c = demo_restore_registry" "pc_now c = 9" "actor_organization_id (pc_actor c) = Some 7"
  shows "\<exists>db'. select_pin c 100 7 ''organization'' 5 demo_resolved 1 (demo_restore_db [demo_owing]) = Inr (db', ()) \<and>
    map as_updated_at (rd_settings db') = [9]"
proof -
  define e where "e = selected_event c stopped_agent ''organization'' demo_resolved"
  have a: "agent_row 100 (demo_restore_db [demo_owing]) = Some (stopped_agent, demo_settings)" "agent_organization_id stopped_agent = 7"
    by (simp_all add: agent_row_def live_agent_def settings_of_def row_get_def demo_restore_db_def stopped_agent_def demo_agent_def demo_settings_def)
  define db1 where "db1 = put_points (map (replay_done 1 100 9)) (demo_restore_db [demo_owing])"
  have f: "finish_replay 1 100 9 (demo_restore_db [demo_owing]) = Inr db1"
    by (simp add: finish_replay_Inr db1_def demo_restore_db_def demo_owing_def demo_point_def)
  define db2 where "db2 = db1\<lparr>rd_settings := row_put as_agent_id (pin_settings ''organization'' demo_resolved 9 demo_settings) (rd_settings db1),
    rd_skills := pin_skills 100 demo_resolved (rd_skills db1)\<rparr>"
  have s: "map as_updated_at (rd_settings db2) = [9]" "rd_events db2 = \<lparr>outbox_messages = [], event_deliveries = []\<rparr>"
    by (simp_all add: db2_def db1_def put_points_def demo_restore_db_def row_put_def pin_settings_def demo_settings_def)
  have n: "field_changes demo_resolved demo_settings = []"
    by (simp add: field_changes_def field_change_def demo_resolved_def demo_settings_def)
  have "pe_name e = ''agent.template_override.selected''" "actor_organization_id (pe_actor e) = Some (pe_organization_id e)"
      "is_json_object (pe_payload e)"
    using assms(3) a(2) by (simp_all add: e_def selected_event_def is_json_object_def)
  then obtain events where "stage_point_event demo_restore_registry (\<lambda>n. pc_ids c (2 * n + 1)) 9 100 e db2 = Inr (db2\<lparr>rd_events := events\<rparr>, [])"
    using demo_point_stage [of e db2] s(2) by (metis insertCI)
  moreover have "as_updated_at demo_settings = 5" by (simp add: demo_settings_def)
  ultimately have "select_pin c 100 7 ''organization'' 5 demo_resolved 1 (demo_restore_db [demo_owing]) = Inr (db2\<lparr>rd_events := events\<rparr>, ())"
    using a f n assms by (simp add: select_pin_def Let_def db2_def [symmetric] e_def [symmetric])
  then show ?thesis using s(1) by simp
qed

lemma demo_replayed:
  "\<exists>w'. apply_owed_replay demo_restore_env (\<lambda>n. n + 20) 9 demo_owing (demo_world [demo_owing]) = Some (w', Inr ()) \<and>
    map as_updated_at (rd_settings (rw_db w')) = [9]"
proof -
  define c where "c = replay_call demo_restore_env (\<lambda>n. n + 20) 9 demo_owing stopped_agent"
  have c: "pc_registry c = demo_restore_registry" "pc_now c = 9" "actor_organization_id (pc_actor c) = Some 7"
    by (simp_all add: c_def replay_call_def demo_restore_env_def replay_actor_def demo_owing_def demo_point_def stopped_agent_def demo_agent_def)
  obtain db' where db': "select_pin c 100 7 ''organization'' 5 demo_resolved 1 (demo_restore_db [demo_owing]) = Inr (db', ())"
      "map as_updated_at (rd_settings db') = [9]" using demo_selected [OF c] by (elim exE conjE) (rule that)
  have a: "agent_row 100 (demo_restore_db [demo_owing]) = Some (stopped_agent, demo_settings)" "agent_id stopped_agent = 100"
      "agent_organization_id stopped_agent = 7" "agent_status stopped_agent \<noteq> RUNNING"
    by (simp_all add: agent_row_def live_agent_def settings_of_def row_get_def demo_restore_db_def stopped_agent_def demo_agent_def demo_settings_def)
  have p: "pt_agent_id demo_owing = 100" "pt_id demo_owing = 1" "pt_config_manifest demo_owing = demo_manifest" "as_updated_at demo_settings = 5"
    by (simp_all add: demo_owing_def demo_point_def demo_settings_def)
  have o: "find (\<lambda>q. pt_id q = 1) (owing_replay 100 (demo_restore_db [demo_owing])) = Some demo_owing"
    by (simp add: owing_replay_def demo_restore_db_def demo_owing_def demo_point_def)
  have w: "rw_db (demo_world [demo_owing]) = demo_restore_db [demo_owing]" "rw_held (demo_world [demo_owing]) = {}" by (simp_all add: demo_world_def)
  obtain x where x: "replay_selection stopped_agent demo_settings demo_owing (demo_restore_db [demo_owing]) = Inr x" "sel_type x = ''organization''"
    by (simp add: replay_selection_def recorded_selection_def p selection_from_manifest_def demo_manifest_def
      CONFIG_MANIFEST_VERSION_def recorded_problem_def COMMAND_APPROVAL_MODES_def base_selection_def)
  have "write_recorded_configuration demo_restore_env c stopped_agent demo_settings demo_owing (demo_world [demo_owing])
      = Some ((demo_world [demo_owing])\<lparr>rw_db := db'\<rparr>, Inr ())"
    using db'(1) x a p w by (simp add: write_recorded_configuration_def andthen_def reading_def lifted_def transaction_def demo_restore_env_def)
  then have "apply_owed_replay demo_restore_env (\<lambda>n. n + 20) 9 demo_owing (demo_world [demo_owing])
      = Some ((demo_world [demo_owing])\<lparr>rw_db := db'\<rparr>, Inr ())"
    using a p w o by (simp add: apply_owed_replay_def with_lifecycle_lock_def andthen_def reading_def catch_def c_def [symmetric])
  then show ?thesis using db'(2) by simp
qed

lemma replayed_once_restored_witness:
  "\<exists>q \<in> set (owing_replay 100 (rw_db (demo_world [demo_owing]))). pt_id q = 1"
proof -
  obtain w' where r: "apply_owed_replay demo_restore_env (\<lambda>n. n + 20) 9 demo_owing (demo_world [demo_owing]) = Some (w', Inr ())"
    and u: "map as_updated_at (rd_settings (rw_db w')) = [9]" using demo_replayed by (elim exE conjE) (rule that)
  have "map as_updated_at (rd_settings (rw_db (demo_world [demo_owing]))) = [5]"
    by (simp add: demo_world_def demo_restore_db_def demo_settings_def)
  then have "rd_settings (rw_db w') \<noteq> rd_settings (rw_db (demo_world [demo_owing]))" using u by auto
  then show ?thesis using replayed_once_restored [OF r] by (simp add: demo_owing_def demo_point_def)
qed

end
