(* ===== verification/Restore_Point_Progress.thy ===== *)
theory Restore_Point_Progress
  imports Restore_Point_Properties
begin

text \<open>
  That finished work does not block an Agent: the reconciliation of rows whose Jobs have ended resolves all of them, and the
  replays that follow clear what is owed. The last section is about actions that return.
\<close>

section \<open>Rows whose Jobs have ended\<close>

text \<open>The Job of a row has succeeded or failed, and the cluster answers what is asked about ended Jobs.\<close>

definition job_ended :: "'k cluster_client \<Rightarrow> restore_point \<Rightarrow> bool" where
  "job_ended c p \<longleftrightarrow>
    job_of p \<noteq> [] \<and>
    (\<forall>k. \<exists>j s. snd (kc_get_job c (job_of p) k) = Inr (Some j) \<and> cj_status j = Some s \<and> (js_succeeded s \<noteq> 0 \<or> js_failed s \<noteq> 0))"

definition answers :: "'k cluster_client \<Rightarrow> bool" where
  "answers c \<longleftrightarrow>
    (\<forall>name k. (\<exists>x. snd (kc_get_pod_name_for_job c name k) = Inr x) \<and> (\<exists>x. snd (kc_get_job_exit_code c name k) = Inr x) \<and>
      (\<exists>x. snd (kc_read_job_logs c name k) = Inr x))"

text \<open>Actions that only read, and answer.\<close>

definition only_reads :: "('k, 'a) restore_act \<Rightarrow> bool" where
  "only_reads m \<longleftrightarrow> (\<forall>w w' r. m w = Some (w', r) \<longrightarrow> rw_db w' = rw_db w \<and> (\<exists>x. r = Inr x))"

named_theorems reads_intros \<open>rules for actions that only read\<close>

lemma reads_ret [reads_intros]: "only_reads (ret x)"
  by (simp add: only_reads_def ret_def)

lemma reads_calling: "(\<And>k. \<exists>x. snd (m k) = Inr x) \<Longrightarrow> only_reads (calling m)"
  by (auto simp: only_reads_def calling_def split: prod.splits) (metis snd_conv)

lemma reads_andthen [reads_intros]: "only_reads m \<Longrightarrow> (\<And>x. only_reads (f x)) \<Longrightarrow> only_reads (andthen m f)"
  unfolding only_reads_def by (metis andthen_Some sum.distinct(1))

lemma reads_if [reads_intros]: "only_reads m \<Longrightarrow> only_reads m' \<Longrightarrow> only_reads (if c then m else m')"
  by simp

lemma reads_option [reads_intros]: "only_reads m \<Longrightarrow> (\<And>x. only_reads (f x)) \<Longrightarrow> only_reads (case y of None \<Rightarrow> m | Some x \<Rightarrow> f x)"
  by (cases y) simp_all

lemma answers_reads:
  assumes "answers (re_client env)"
  shows "only_reads (read_manifest env p)" "only_reads (failure_reason env p s)" "only_reads (restore_outcome_of env j name)"
  unfolding read_manifest_def failure_reason_def job_failure_reason_def restore_outcome_of_def Let_def
  by (intro reads_intros reads_calling; use assms in \<open>simp add: answers_def\<close>)+

text \<open>From the tables \<open>db\<close> to tables with \<open>B\<close>.\<close>

abbreviation from_tables :: "restore_db \<Rightarrow> (restore_db \<Rightarrow> bool) \<Rightarrow> ('k, 'a) restore_act \<Rightarrow> bool" where
  "from_tables db B \<equiv> leads_in rw_db (\<lambda>d. d = db) B"

lemma after_reading: "only_reads m \<Longrightarrow> (\<And>x. from_tables db B (f x)) \<Longrightarrow> from_tables db B (andthen m f)"
  by (rule leads_andthen [where C = "\<lambda>_ d. d = db"]) (auto simp: only_reads_def split: sum.splits)

lemma after_update:
  "(\<And>x. x = snd (g db) \<Longrightarrow> from_tables (fst (g db)) B (f x)) \<Longrightarrow> from_tables db B (andthen (updating g) f)"
  by (rule leads_andthen [where C = "\<lambda>x d. d = fst (g db) \<and> x = snd (g db)"])
    (auto simp: updating_def leads_in_def split: prod.splits)

lemma if_both: "from_tables db B m \<Longrightarrow> from_tables db B m' \<Longrightarrow> from_tables db B (if c then m else m')"
  by simp

lemma tables_stay: "keeps_in rw_db B m \<Longrightarrow> B db \<Longrightarrow> from_tables db B m"
  by (rule leads_weaken) auto

lemma tables_calling [keeps_intros]: "keeps_in rw_db B (calling m)"
  by (auto simp: keeps_in_def calling_def split: prod.splits)

lemma terminal_not_busy: "pt_status p \<in> TERMINAL_STATUSES \<Longrightarrow> \<not> busy p"
  by (auto simp: busy_def status_sets)

text \<open>The row \<open>i\<close> is no longer busy, and no other row has changed.\<close>

definition settles :: "uuid \<Rightarrow> restore_db \<Rightarrow> restore_db \<Rightarrow> bool" where
  "settles i db db' \<longleftrightarrow>
    (\<exists>h. rd_points db' = map h (rd_points db) \<and> (\<forall>x. pt_id (h x) = pt_id x \<and> pt_agent_id (h x) = pt_agent_id x) \<and>
      (\<forall>x. pt_id x \<noteq> i \<longrightarrow> h x = x) \<and> (\<forall>x \<in> set (rd_points db). pt_id x = i \<longrightarrow> \<not> busy (h x)))"

context point_move begin

lemma settles_move:
  assumes "\<And>x. x \<in> set (rd_points db) \<Longrightarrow> pt_id x = i \<Longrightarrow> pt_status x \<in> from_statuses" and "to_statuses \<subseteq> TERMINAL_STATUSES"
  shows "settles i db (fst (move i now db))"
  unfolding settles_def
proof (intro exI conjI)
  show "rd_points (fst (move i now db)) = map (\<lambda>p. if pt_id p = i \<and> pt_status p \<in> from_statuses then stepped now p else p) (rd_points db)"
    by (simp add: rows put_points_def)
  have "pt_status (stepped now x) \<in> TERMINAL_STATUSES" if "pt_status x \<in> from_statuses" for x using lands [OF that] assms(2) by blast
  then show "\<forall>x \<in> set (rd_points db). pt_id x = i \<longrightarrow> \<not> busy (if pt_id x = i \<and> pt_status x \<in> from_statuses then stepped now x else x)"
    using assms(1) terminal_not_busy by simp
qed (auto simp: same)

end

lemma settles_after_standing:
  assumes "rd_points db1 = map h (rd_points db)" "\<And>x. same_standing x (h x)" "\<And>x. pt_id x \<noteq> i \<Longrightarrow> h x = x" "settles i db1 db2"
  shows "settles i db db2"
proof -
  obtain g where g: "rd_points db2 = map g (rd_points db1)" "\<forall>x. pt_id (g x) = pt_id x \<and> pt_agent_id (g x) = pt_agent_id x"
      "\<forall>x. pt_id x \<noteq> i \<longrightarrow> g x = x" "\<forall>x \<in> set (rd_points db1). pt_id x = i \<longrightarrow> \<not> busy (g x)"
    using assms(4) unfolding settles_def by blast
  show ?thesis unfolding settles_def
    by (intro exI [of _ "g \<circ> h"]) (use g assms(1-3) in \<open>auto simp: same_standing_def\<close>)
qed

text \<open>The row \<open>p\<close> as it is stored, with status \<open>p\<close>'s own.\<close>

definition stored_row :: "restore_point \<Rightarrow> restore_db \<Rightarrow> bool" where
  "stored_row p db \<longleftrightarrow> pt_status p \<in> NON_TERMINAL_STATUSES \<and> (\<forall>x \<in> set (rd_points db). pt_id x = pt_id p \<longrightarrow> pt_status x = pt_status p)"

lemma marks_settle:
  assumes "stored_row p db"
  shows "settles (pt_id p) db (fst (mark_ready (pt_id p) bytes count now db))"
    "settles (pt_id p) db (fst (mark_failed (pt_id p) reason now db))"
    "pt_status p = PtRESTORING \<Longrightarrow> settles (pt_id p) db (fst (mark_restored (pt_id p) cancel now db))"
  using assms by (auto intro!: ready.settles_move failed.settles_move restored.settles_move simp: stored_row_def TERMINAL_STATUSES_def)

lemma marked: "B (fst (g db)) \<Longrightarrow> (\<And>x. keeps_in rw_db B (f x)) \<Longrightarrow> from_tables db B (andthen (updating g) f)"
  by (rule after_update, rule tables_stay)

lemma ends_settled:
  assumes "answers (re_client env)" "stored_row p db"
  shows "from_tables db (settles (pt_id p) db) (succeed_point env now p)"
    "from_tables db (settles (pt_id p) db) (andthen (fail_point now p reason) (\<lambda>_. ret ()))"
    "from_tables db (settles (pt_id p) db) (fail_capture env now p reason)"
    "pt_status p = PtRESTORING \<Longrightarrow> from_tables db (settles (pt_id p) db) (andthen (updating (mark_restored (pt_id p) False now)) (\<lambda>_. ret ()))"
proof -
  show "from_tables db (settles (pt_id p) db) (succeed_point env now p)"
    unfolding succeed_point_def
    by (rule after_reading [OF answers_reads(1) [OF assms(1)]], rule marked, rule marks_settle(1) [OF assms(2)], rule keeps_ret)
  show "from_tables db (settles (pt_id p) db) (andthen (fail_point now p reason) (\<lambda>_. ret ()))"
    unfolding fail_point_def by (rule marked, rule marks_settle(2) [OF assms(2)], rule keeps_ret)
  show "from_tables db (settles (pt_id p) db) (fail_capture env now p reason)"
    unfolding fail_capture_def fail_point_def
    by (rule marked, rule marks_settle(2) [OF assms(2)], intro keeps_only_if tables_calling)
  show "from_tables db (settles (pt_id p) db) (andthen (updating (mark_restored (pt_id p) False now)) (\<lambda>_. ret ()))" if "pt_status p = PtRESTORING"
    by (rule marked, rule marks_settle(3) [OF assms(2) that], rule keeps_ret)
qed

lemma reconciled_settled:
  fixes env :: "'k restore_env"
  assumes a: "answers (re_client env)" and p: "stored_row p db" and j: "job_ended (re_client env) p"
  shows "from_tables db (settles (pt_id p) db) (reconcile_row env now g p)"
proof -
  let ?B = "settles (pt_id p) db"
  define db1 where "db1 = mark_configuration_failed (pt_id p) replay_cancelled now db"
  define h where "h = (\<lambda>x :: restore_point. if pt_id x = pt_id p
    then x\<lparr>pt_reapply_configuration := False, pt_configuration_error := Some replay_cancelled, pt_updated_at := now\<rparr> else x)"
  have db1: "rd_points db1 = map h (rd_points db)" by (simp add: db1_def h_def mark_configuration_failed_def put_points_def)
  have p1: "stored_row p db1" using p by (auto simp: stored_row_def db1 h_def)
  have onward: "settles (pt_id p) db1 d \<Longrightarrow> ?B d" for d by (rule settles_after_standing [OF db1]) (auto simp: h_def same_standing_def)
  have later: "from_tables db1 ?B m" if "from_tables db1 (settles (pt_id p) db1) m" for m :: "('k, unit) restore_act"
    using that onward by (auto simp: leads_in_def)
  define finish :: "restore_outcome \<Rightarrow> string \<Rightarrow> ('k, unit) restore_act" where
    "finish outcome reason = (if outcome = OutcomeBACKUP_FAILED then andthen (updating (mark_restored (pt_id p) False now)) (\<lambda>_. ret ())
      else andthen (fail_point now p reason) (\<lambda>_. ret ()))" for outcome reason
  have restoring: "from_tables db ?B (finish outcome reason)" "from_tables db1 ?B (finish outcome reason)" if "pt_status p = PtRESTORING" for outcome reason
    using that by (simp_all add: finish_def ends_settled(2,4) [OF a p] later ends_settled(2,4) [OF a p1])
  have cancelled: "from_tables db ?B (andthen (only_if (pt_reapply_configuration p)
        (updating (\<lambda>db. (mark_configuration_failed (pt_id p) replay_cancelled now db, ())))) (\<lambda>_. finish outcome reason))"
    if r: "pt_status p = PtRESTORING" for outcome reason
  proof (cases "pt_reapply_configuration p")
    case True
    have "from_tables db ?B (andthen (updating (\<lambda>db. (mark_configuration_failed (pt_id p) replay_cancelled now db, ()))) (\<lambda>_. finish outcome reason))"
      by (rule after_update) (simp add: restoring(2) [OF r] db1_def [symmetric])
    then show ?thesis using True by (simp add: only_if_def)
  next
    case False
    have "from_tables db ?B (andthen (ret ()) (\<lambda>_. finish outcome reason))" by (rule after_reading [OF reads_ret restoring(1) [OF r]])
    then show ?thesis using False by (simp add: only_if_def)
  qed
  have outcomes: "from_tables db ?B (if pt_status p = PtRESTORING then
        andthen (only_if (pt_reapply_configuration p) (updating (\<lambda>db. (mark_configuration_failed (pt_id p) replay_cancelled now db, ()))))
          (\<lambda>_. finish outcome reason)
      else if outcome = OutcomeEXTRACTION_FAILED then succeed_point env now p
      else if outcome = OutcomeBACKUP_FAILED then fail_capture env now p reason
      else andthen (fail_point now p reason) (\<lambda>_. ret ()))" for outcome reason
    by (simp add: cancelled ends_settled [OF a p])
  have failure: "from_tables db ?B (resolve_failure env now p jb s)" for jb s
    unfolding resolve_failure_def finish_def [symmetric]
    by (rule after_reading [OF answers_reads(2) [OF a]], rule if_both [OF ends_settled(3) [OF a p]],
      rule after_reading [OF answers_reads(3) [OF a]], rule outcomes)
  have ended: "from_tables db ?B (case job of None \<Rightarrow> resolve_untracked env now g p reason
      | Some j \<Rightarrow> (case cj_status j of None \<Rightarrow> ret ()
          | Some s \<Rightarrow> if js_succeeded s \<noteq> 0 then
                (if pt_status p = PtRESTORING then andthen (updating (mark_restored (pt_id p) False now)) (\<lambda>_. ret ()) else succeed_point env now p)
              else if js_failed s \<noteq> 0 then resolve_failure env now p j s
              else only_if (pt_status p = PtPENDING \<and> js_active s \<noteq> 0) (andthen (updating (mark_capturing (pt_id p) now)) (\<lambda>_. ret ()))))"
    if "\<exists>j s. job = Some j \<and> cj_status j = Some s \<and> (js_succeeded s \<noteq> 0 \<or> js_failed s \<noteq> 0)" for job reason
    using that by (auto simp: failure ends_settled [OF a p])
  have "from_tables db ?B (andthen (calling (kc_get_job (re_client env) (job_of p))) f)"
    if "\<And>x. \<exists>j s. x = Some j \<and> cj_status j = Some s \<and> (js_succeeded s \<noteq> 0 \<or> js_failed s \<noteq> 0) \<Longrightarrow> from_tables db ?B (f x)" for f
  proof (rule leads_andthen [where C = "\<lambda>x d. d = db \<and> (\<exists>j s. x = Some j \<and> cj_status j = Some s \<and> (js_succeeded s \<noteq> 0 \<or> js_failed s \<noteq> 0))"])
    fix w :: "'k restore_world" and w' r assume "rw_db w = db" and c: "calling (kc_get_job (re_client env) (job_of p)) w = Some (w', r)"
    then have r: "rw_db w' = db" "r = snd (kc_get_job (re_client env) (job_of p) (rw_cluster w))" by (auto simp: calling_def split: prod.splits)
    obtain jb s where "snd (kc_get_job (re_client env) (job_of p) (rw_cluster w)) = Inr (Some jb)" "cj_status jb = Some s" "js_succeeded s \<noteq> 0 \<or> js_failed s \<noteq> 0"
      using j unfolding job_ended_def by blast
    then show "case r of Inl e \<Rightarrow> ?B (rw_db w') | Inr x \<Rightarrow> rw_db w' = db \<and> (\<exists>j s. x = Some j \<and> cj_status j = Some s \<and> (js_succeeded s \<noteq> 0 \<or> js_failed s \<noteq> 0))"
      using r by simp
  next
    show "leads_in rw_db (\<lambda>d. d = db \<and> (\<exists>j s. x = Some j \<and> cj_status j = Some s \<and> (js_succeeded s \<noteq> 0 \<or> js_failed s \<noteq> 0))) ?B (f x)" for x
      using that [of x] unfolding leads_in_def by blast
  qed
  from this [OF ended] show ?thesis
    using p j unfolding reconcile_row_def by (auto simp: stored_row_def status_sets job_ended_def)
qed

section \<open>Finished work does not block\<close>

text \<open>What a reconciliation leaves as it is.\<close>

abbreviation surroundings :: "'k restore_world \<Rightarrow> uuid set \<times> access_db \<times> agent_settings list" where
  "surroundings w \<equiv> (rw_held w, rd_access (rw_db w), rd_settings (rw_db w))"

lemma around_updating:
  "(\<And>db. rd_access (fst (g db)) = rd_access db \<and> rd_settings (fst (g db)) = rd_settings db) \<Longrightarrow> keeps_in surroundings J (updating g)"
  by (auto simp: keeps_in_def updating_def split: prod.splits) (metis fst_conv)

lemma around_calling [keeps_intros]: "keeps_in surroundings J (calling m)"
  by (auto simp: keeps_in_def calling_def split: prod.splits)

lemma around_marks:
  "keeps_in surroundings J (updating (mark_ready i bytes count now))" "keeps_in surroundings J (updating (mark_restored i cancel now))"
  "keeps_in surroundings J (updating (mark_failed i reason now))" "keeps_in surroundings J (updating (mark_capturing i now))"
  "keeps_in surroundings J (updating (\<lambda>db. (mark_configuration_failed i reason now db, ())))"
  by (rule around_updating; simp add: mark_ready_def mark_restored_def mark_failed_def mark_capturing_def mark_configuration_failed_def
    conditional_update_def put_points_def Let_def)+

lemma around_ends:
  "keeps_in surroundings J (succeed_point env now p)" "keeps_in surroundings J (fail_point now p reason)"
  "keeps_in surroundings J (fail_capture env now p reason)"
  unfolding succeed_point_def fail_point_def fail_capture_def read_manifest_def
  by (intro keeps_intros keeps_cases around_marks)+

lemma around_reads:
  "keeps_in surroundings J (failure_reason env p s)" "keeps_in surroundings J (restore_outcome_of env j name)"
  unfolding failure_reason_def job_failure_reason_def restore_outcome_of_def Let_def
  by (intro keeps_intros keeps_cases)+

lemma around_reconcile: "keeps_in surroundings J (reconcile_row env now g p)"
  unfolding reconcile_row_def resolve_untracked_def resolve_failure_def
  by (intro keeps_intros keeps_cases around_marks around_ends around_reads)

lemma logged_Some: "logged m w = Some (w', r) \<longleftrightarrow> r = Inr () \<and> (\<exists>x. m w = Some (w', x))"
  by (cases "m w") (auto simp: logged_def catch_def ret_def split: sum.splits)

lemma each_logged_Cons:
  "each (x # xs) (\<lambda>x. logged (f x)) w = Some (w', r) \<longleftrightarrow>
    (\<exists>w1 y. f x w = Some (w1, y) \<and> each xs (\<lambda>x. logged (f x)) w1 = Some (w', r))"
  by (auto simp: andthen_Some logged_Some)

text \<open>The rows that are still to be reconciled.\<close>

definition remaining :: "uuid \<Rightarrow> restore_point list \<Rightarrow> restore_db \<Rightarrow> bool" where
  "remaining aid ps db \<longleftrightarrow>
    distinct (map pt_id ps) \<and> (\<forall>p \<in> set ps. stored_row p db) \<and>
    (\<forall>x \<in> set (rd_points db). pt_agent_id x = aid \<longrightarrow> busy x \<longrightarrow> pt_id x \<in> pt_id ` set ps)"

lemma remaining_step:
  assumes "remaining aid (p # ps) db" "settles (pt_id p) db db'"
  shows "remaining aid ps db'"
proof -
  obtain h where h: "rd_points db' = map h (rd_points db)" "\<And>x. pt_id (h x) = pt_id x" "\<And>x. pt_agent_id (h x) = pt_agent_id x"
      "\<And>x. pt_id x \<noteq> pt_id p \<Longrightarrow> h x = x" "\<And>x. x \<in> set (rd_points db) \<Longrightarrow> pt_id x = pt_id p \<Longrightarrow> \<not> busy (h x)"
    using assms(2) unfolding settles_def by blast
  have "stored_row q db'" if "q \<in> set ps" for q
  proof -
    have "stored_row q db" "pt_id q \<noteq> pt_id p" using assms(1) that by (auto simp: remaining_def image_iff)
    then show ?thesis using h(2,4) by (auto simp: stored_row_def h(1))
  qed
  moreover have "pt_id x \<in> pt_id ` set ps" if x: "x \<in> set (rd_points db')" "pt_agent_id x = aid" "busy x" for x
  proof -
    obtain y where y: "y \<in> set (rd_points db)" "x = h y" using x(1) h(1) by auto
    have n: "pt_id y \<noteq> pt_id p" using h(5) [OF y(1)] x(3) y(2) by auto
    then have "busy y" using x(3) y(2) h(4) by simp
    moreover have "pt_agent_id y = aid" using x(2) y(2) h(3) by simp
    ultimately have "pt_id y \<in> pt_id ` set (p # ps)" using assms(1) y(1) by (simp add: remaining_def)
    then show ?thesis using n y(2) h(2) by simp
  qed
  ultimately show ?thesis using assms(1) by (simp add: remaining_def)
qed

lemma all_reconciled:
  assumes "answers (re_client env)" "\<And>p. p \<in> set ps \<Longrightarrow> job_ended (re_client env) p" "remaining aid ps (rw_db w)"
    and "each ps (\<lambda>p. logged (reconcile_row env now g p)) w = Some (w', r)"
  shows "remaining aid [] (rw_db w') \<and> surroundings w' = surroundings w"
  using assms(2-)
proof (induction ps arbitrary: w)
  case Nil
  then show ?case by (simp add: ret_def)
next
  case (Cons p ps)
  obtain w1 y where s: "reconcile_row env now g p w = Some (w1, y)" "each ps (\<lambda>p. logged (reconcile_row env now g p)) w1 = Some (w', r)"
    using Cons.prems(3) unfolding each_logged_Cons by blast
  have "stored_row p (rw_db w)" using Cons.prems(2) by (simp add: remaining_def)
  then have "settles (pt_id p) (rw_db w) (rw_db w1)"
    using reconciled_settled [OF assms(1) _ Cons.prems(1)] s(1) unfolding leads_in_def by fastforce
  then have "remaining aid ps (rw_db w1)" by (rule remaining_step [OF Cons.prems(2)])
  then have "remaining aid [] (rw_db w') \<and> surroundings w' = surroundings w1" using Cons.IH Cons.prems(1) s(2) by simp
  moreover have "surroundings w1 = surroundings w"
    by (rule keepsD [OF around_reconcile [where J = "\<lambda>v. v = surroundings w"] refl s(1)])
  ultimately show ?case by simp
qed

text \<open>Replays: the Agent is stopped and its lifecycle lock free.\<close>

definition replayable :: "uuid \<Rightarrow> 'k restore_world \<Rightarrow> bool" where
  "replayable aid w \<longleftrightarrow>
    aid \<notin> rw_held w \<and> (\<exists>a. live_agent aid (rw_db w) = Some a \<and> agent_status a \<noteq> RUNNING) \<and> aid \<in> as_agent_id ` set (rd_settings (rw_db w))"

lemma replayable_row: "replayable aid w \<longleftrightarrow> aid \<notin> rw_held w \<and> (\<exists>a s. agent_row aid (rw_db w) = Some (a, s) \<and> agent_status a \<noteq> RUNNING)"
proof -
  have "aid \<in> as_agent_id ` set xs \<longleftrightarrow> (\<exists>s. row_get as_agent_id aid xs = Some s)" for xs
    by (induction xs) (auto simp: row_get_def)
  then have "aid \<in> as_agent_id ` set (rd_settings (rw_db w)) \<longleftrightarrow> (\<exists>s. settings_of aid (rw_db w) = Some s)" by (simp add: settings_of_def)
  then show ?thesis unfolding replayable_def by (auto simp: agent_row_def bind_eq_Some_conv)
qed

lemma replayed_point:
  assumes "apply_owed_replay env ids now p w = Some (w', r)" "pt_agent_id p = aid" "replayable aid w"
  shows "replayable aid w' \<and> (\<exists>h. rd_points (rw_db w') = map h (rd_points (rw_db w)) \<and> (\<forall>x. same_standing x (h x)) \<and>
    (\<forall>x \<in> set (rd_points (rw_db w)). pt_agent_id x = aid \<longrightarrow> pt_status x = PtREADY \<longrightarrow> pt_reapply_configuration (h x) \<longrightarrow>
      pt_reapply_configuration x \<and> pt_id x \<noteq> pt_id p))"
proof (rule disjE [OF apply_owed_replay_ends [OF assms(1)]])
  assume e: "replay_ends now p w w'"
  consider c kind res db org expected where "select_pin c (pt_agent_id p) org kind expected res (pt_id p) (rw_db w) = Inr (db, ())" "w' = w\<lparr>rw_db := db\<rparr>"
    | reason where "w' = w\<lparr>rw_db := mark_configuration_failed (pt_id p) reason now (rw_db w)\<rparr>"
    using e unfolding replay_ends_def by blast
  then have "replayable aid w'"
  proof cases
    case 1
    have "as_agent_id ` set (rd_settings db) = as_agent_id ` set (rd_settings (rw_db w))"
      using select_pin_frame(2) [OF 1(1)] by (metis list.set_map)
    then show ?thesis using assms(3) 1(2) select_pin_frame(1) [OF 1(1)] by (simp add: replayable_def live_agent_def)
  next
    case 2
    then show ?thesis using assms(3) by (simp add: replayable_def live_agent_def mark_configuration_failed_def put_points_def)
  qed
  then show ?thesis using replay_ends_points [OF e] assms(2) by metis
next
  assume n: "w' = w \<and> no_replay p w"
  obtain a s where a: "aid \<notin> rw_held w" "agent_row aid (rw_db w) = Some (a, s)" "agent_status a \<noteq> RUNNING"
    using assms(3) replayable_row by blast
  then have none: "find (\<lambda>q. pt_id q = pt_id p) (owing_replay aid (rw_db w)) = None" using n assms(2) by (simp add: no_replay_def)
  have "pt_id x \<noteq> pt_id p" if "x \<in> set (rd_points (rw_db w))" "pt_agent_id x = aid" "pt_status x = PtREADY" "pt_reapply_configuration x" for x
    using none that by (auto simp: find_None_iff owing_replay_def)
  then show ?thesis using n assms(3) by (intro conjI exI [of _ id]) (auto simp: same_standing_def)
qed

definition owes :: "uuid \<Rightarrow> uuid set \<Rightarrow> restore_db \<Rightarrow> bool" where
  "owes aid I db \<longleftrightarrow>
    (\<forall>x \<in> set (rd_points db). pt_agent_id x = aid \<longrightarrow> \<not> busy x \<and> (pt_status x = PtREADY \<longrightarrow> pt_reapply_configuration x \<longrightarrow> pt_id x \<in> I))"

lemma all_replayed:
  assumes "replayable aid w" "\<And>i p. (i, p) \<in> set xs \<Longrightarrow> pt_agent_id p = aid" "owes aid ((\<lambda>x. pt_id (snd x)) ` set xs) (rw_db w)"
    and "each xs (\<lambda>x. logged (case x of (i, p) \<Rightarrow> apply_owed_replay env (ids i) now p)) w = Some (w', r)"
  shows "r = Inr () \<and> owes aid {} (rw_db w')"
  using assms
proof (induction xs arbitrary: w)
  case Nil
  then show ?case by (simp add: ret_def)
next
  case (Cons y xs)
  obtain i p where y: "y = (i, p)" by fastforce
  obtain w1 z where s: "apply_owed_replay env (ids i) now p w = Some (w1, z)"
      "each xs (\<lambda>x. logged (case x of (i, p) \<Rightarrow> apply_owed_replay env (ids i) now p)) w1 = Some (w', r)"
    using Cons.prems(4) unfolding each_logged_Cons y by auto
  have "pt_agent_id p = aid" using Cons.prems(2) y by auto
  from replayed_point [OF s(1) this Cons.prems(1)] obtain h where h: "replayable aid w1" "rd_points (rw_db w1) = map h (rd_points (rw_db w))"
      "\<And>x. same_standing x (h x)" "\<And>x. x \<in> set (rd_points (rw_db w)) \<Longrightarrow> pt_agent_id x = aid \<Longrightarrow> pt_status x = PtREADY \<Longrightarrow>
        pt_reapply_configuration (h x) \<Longrightarrow> pt_reapply_configuration x \<and> pt_id x \<noteq> pt_id p" by blast
  have "owes aid ((\<lambda>x. pt_id (snd x)) ` set xs) (rw_db w1)"
    unfolding owes_def h(2)
  proof (intro ballI impI)
    fix x assume "x \<in> set (map h (rd_points (rw_db w)))" and a: "pt_agent_id x = aid"
    then obtain z where z: "z \<in> set (rd_points (rw_db w))" "x = h z" by auto
    have zh: "pt_agent_id z = aid" "pt_status x = pt_status z" "pt_id x = pt_id z" using h(3) [of z] a z(2) by (simp_all add: same_standing_def)
    have "\<not> busy z \<and> (pt_status z = PtREADY \<longrightarrow> pt_reapply_configuration z \<longrightarrow> pt_id z \<in> (\<lambda>x. pt_id (snd x)) ` set (y # xs))"
      using Cons.prems(3) z(1) zh(1) unfolding owes_def by blast
    then show "\<not> busy x \<and> (pt_status x = PtREADY \<longrightarrow> pt_reapply_configuration x \<longrightarrow> pt_id x \<in> (\<lambda>x. pt_id (snd x)) ` set xs)"
      using h(4) [OF z(1) zh(1)] z(2) zh y by (auto simp: busy_def)
  qed
  moreover have "\<And>i p. (i, p) \<in> set xs \<Longrightarrow> pt_agent_id p = aid" using Cons.prems(2) by (meson list.set_intros(2))
  ultimately show ?case using Cons.IH [OF h(1) _ _ s(2)] by blast
qed

lemma each_logged_Inr: "each xs (\<lambda>x. logged (f x)) w = Some (w', r) \<Longrightarrow> r = Inr ()"
  by (induction xs arbitrary: w) (auto simp: ret_def each_logged_Cons simp del: each.simps(2))

lemma asked:
  assumes "has_blocking_operation env ids now aid w = Some (w', r)"
  shows "\<exists>w1 z. each (non_terminal_points aid (rw_db w)) (\<lambda>p. logged (reconcile_row env now True p)) w = Some (w1, Inr ()) \<and>
    each (enumerate 0 (owing_replay aid (rw_db w1))) (\<lambda>x. logged (case x of (i, p) \<Rightarrow> apply_owed_replay env (ids i) now p)) w1 = Some (w', z) \<and>
    (z = Inr () \<longrightarrow> r = Inr (has_non_terminal_operation aid (rw_db w') \<or> owing_replay aid (rw_db w') \<noteq> []))"
proof -
  have "(\<lambda>(i, p). logged (f i p)) = (\<lambda>x. logged (case x of (i, p) \<Rightarrow> f i p))" for f :: "nat \<Rightarrow> restore_point \<Rightarrow> ('a, unit) restore_act"
    by (simp add: fun_eq_iff split_def)
  then show ?thesis using assms
    by (auto simp: has_blocking_operation_def reconcile_agent_points_def andthen_Some reading_def dest: each_logged_Inr)
qed

text \<open>Actions that return, whatever they answer.\<close>

definition returns :: "('k, 'a) restore_act \<Rightarrow> bool" where
  "returns m \<longleftrightarrow> (\<forall>w. \<exists>w' r. m w = Some (w', r))"

named_theorems returns_intros \<open>rules for actions that return\<close>

lemma returns_simple [returns_intros]:
  "returns (ret x)" "returns (throw e)" "returns (reading f)" "returns (updating g)" "returns (calling m)" "returns (lifted y)" "returns (transaction h)"
  by (auto simp: returns_def ret_def throw_def reading_def updating_def calling_def lifted_def transaction_def split: prod.split)

lemma returns_andthen [returns_intros]: "returns m \<Longrightarrow> (\<And>x. returns (f x)) \<Longrightarrow> returns (andthen m f)"
  unfolding returns_def
proof
  fix w assume "\<forall>w. \<exists>w' r. m w = Some (w', r)" and f: "\<And>x. \<forall>w. \<exists>w' r. f x w = Some (w', r)"
  then obtain w1 r where "m w = Some (w1, r)" by blast
  then show "\<exists>w' r. andthen m f w = Some (w', r)" using f by (cases r) (auto simp: andthen_def)
qed

lemma returns_catch: "returns m \<Longrightarrow> (\<And>e h. handler e = Some h \<Longrightarrow> returns h) \<Longrightarrow> returns (catch m handler)"
  unfolding returns_def
proof
  fix w assume "\<forall>w. \<exists>w' r. m w = Some (w', r)" and f: "\<And>e h. handler e = Some h \<Longrightarrow> \<forall>w. \<exists>w' r. h w = Some (w', r)"
  then obtain w1 r where "m w = Some (w1, r)" by blast
  then show "\<exists>w' r. catch m handler w = Some (w', r)" using f by (cases r) (auto simp: catch_def split: option.split)
qed

lemma returns_only_if [returns_intros]: "returns m \<Longrightarrow> returns (only_if c m)"
  by (simp add: only_if_def returns_simple)

lemma returns_each [returns_intros]: "(\<And>x. returns (f x)) \<Longrightarrow> returns (each xs f)"
  by (induction xs) (auto intro: returns_intros)

lemma returns_lock [returns_intros]: "(\<And>b. returns (f b)) \<Longrightarrow> returns (with_lifecycle_lock aid f)"
  by (simp add: returns_def with_lifecycle_lock_def)

lemma returns_logged [returns_intros]: "returns m \<Longrightarrow> returns (logged m)"
  unfolding logged_def by (rule returns_catch) (auto intro: returns_intros)

lemma returns_cases [returns_intros]:
  "returns m \<Longrightarrow> returns m' \<Longrightarrow> returns (if c then m else m')"
  "returns m \<Longrightarrow> (\<And>x. returns (f x)) \<Longrightarrow> returns (case y of None \<Rightarrow> m | Some x \<Rightarrow> f x)"
  "(\<And>a b. returns (h a b)) \<Longrightarrow> returns (case p of (a, b) \<Rightarrow> h a b)"
  by (simp_all split: option.split prod.split)

lemma reconcile_returns: "returns (reconcile_row env now g p)"
  unfolding reconcile_row_def resolve_untracked_def resolve_failure_def succeed_point_def fail_point_def fail_capture_def read_manifest_def
    failure_reason_def job_failure_reason_def restore_outcome_of_def Let_def
  by (intro returns_intros)

lemma replay_returns: "returns (apply_owed_replay env ids now p)"
  unfolding apply_owed_replay_def write_recorded_configuration_def
  by (intro returns_intros returns_catch) (auto intro: returns_intros)

lemma blocking_returns: "returns (has_blocking_operation env ids now aid)"
  unfolding has_blocking_operation_def reconcile_agent_points_def by (intro returns_intros reconcile_returns replay_returns)

text \<open>Replays start no work; and they do nothing while the lifecycle lock is held.\<close>

lemma replays_stay_quiet:
  assumes "remaining aid [] (rw_db w)"
    and "each xs (\<lambda>x. logged (case x of (i, p) \<Rightarrow> apply_owed_replay env (ids i) now p)) w = Some (w', r)"
  shows "remaining aid [] (rw_db w')"
  using assms
proof (induction xs arbitrary: w)
  case Nil
  then show ?case by (simp add: ret_def)
next
  case (Cons y xs)
  obtain i p where y: "y = (i, p)" by fastforce
  obtain w1 z where s: "apply_owed_replay env (ids i) now p w = Some (w1, z)"
      "each xs (\<lambda>x. logged (case x of (i, p) \<Rightarrow> apply_owed_replay env (ids i) now p)) w1 = Some (w', r)"
    using Cons.prems(2) unfolding each_logged_Cons y by auto
  have "remaining aid [] (rw_db w1)"
    using apply_owed_replay_ends [OF s(1)]
  proof
    assume "replay_ends now p w w1"
    from replay_ends_points [OF this] Cons.prems(1) show ?thesis by (auto simp: remaining_def same_standing_def busy_def)
  qed (use Cons.prems(1) in simp)
  then show ?case using Cons.IH s(2) by blast
qed

lemma held_replays_nothing:
  assumes "aid \<in> rw_held w" "\<And>i p. (i, p) \<in> set xs \<Longrightarrow> pt_agent_id p = aid"
    and "each xs (\<lambda>x. logged (case x of (i, p) \<Rightarrow> apply_owed_replay env (ids i) now p)) w = Some (w', r)"
  shows "w' = w"
  using assms
proof (induction xs arbitrary: w)
  case Nil
  then show ?case by (simp add: ret_def)
next
  case (Cons y xs)
  obtain i p where y: "y = (i, p)" by fastforce
  obtain w1 z where s: "apply_owed_replay env (ids i) now p w = Some (w1, z)"
      "each xs (\<lambda>x. logged (case x of (i, p) \<Rightarrow> apply_owed_replay env (ids i) now p)) w1 = Some (w', r)"
    using Cons.prems(3) unfolding each_logged_Cons y by auto
  have "pt_agent_id p = aid" using Cons.prems(2) y by auto
  then have "w1 = w" using apply_owed_replay_ends [OF s(1)] Cons.prems(1) by (auto simp: replay_ends_def)
  moreover have "\<And>i p. (i, p) \<in> set xs \<Longrightarrow> pt_agent_id p = aid" using Cons.prems(2) by (meson list.set_intros(2))
  ultimately show ?case using Cons.IH Cons.prems(1) s(2) by blast
qed

text \<open>A row that owes a replay already, or will when its restore, whose Job has succeeded, is among the rows \<open>ps\<close> to be reconciled.\<close>

definition restore_succeeded :: "'k cluster_client \<Rightarrow> restore_point \<Rightarrow> bool" where
  "restore_succeeded c p \<longleftrightarrow>
    pt_status p = PtRESTORING \<and> job_of p \<noteq> [] \<and>
    (\<forall>k. \<exists>j s. snd (kc_get_job c (job_of p) k) = Inr (Some j) \<and> cj_status j = Some s \<and> js_succeeded s \<noteq> 0)"

definition owing_soon :: "'k cluster_client \<Rightarrow> uuid \<Rightarrow> restore_point list \<Rightarrow> restore_db \<Rightarrow> bool" where
  "owing_soon c aid ps db \<longleftrightarrow>
    (\<exists>x \<in> set (rd_points db). pt_agent_id x = aid \<and> pt_reapply_configuration x \<and>
      (pt_status x = PtREADY \<and> pt_id x \<notin> pt_id ` set ps \<or> (\<exists>p \<in> set ps. pt_id p = pt_id x \<and> restore_succeeded c p)))"

lemma reconcile_succeeded:
  assumes "restore_succeeded (re_client env) p" "reconcile_row env now g p w = Some (w', r)"
  shows "rw_db w' = fst (mark_restored (pt_id p) False now (rw_db w))"
proof -
  obtain k j s where "kc_get_job (re_client env) (job_of p) (rw_cluster w) = (k, Inr (Some j))" "cj_status j = Some s" "js_succeeded s \<noteq> 0"
    using assms(1) unfolding restore_succeeded_def by (metis prod.collapse)
  then show ?thesis using assms
    by (auto simp: reconcile_row_def restore_succeeded_def andthen_def calling_def updating_def ret_def status_sets split: prod.splits)
qed

lemma owing_soon_step:
  assumes o: "owing_soon (re_client env) aid (p # ps) (rw_db w)" and m: "remaining aid (p # ps) (rw_db w)"
    and s: "settles (pt_id p) (rw_db w) (rw_db w1)" and run: "reconcile_row env now g p w = Some (w1, y)"
  shows "owing_soon (re_client env) aid ps (rw_db w1)"
proof -
  obtain h where h: "rd_points (rw_db w1) = map h (rd_points (rw_db w))" "\<And>x. pt_id x \<noteq> pt_id p \<Longrightarrow> h x = x"
    using s unfolding settles_def by blast
  obtain x where x: "x \<in> set (rd_points (rw_db w))" "pt_agent_id x = aid" "pt_reapply_configuration x"
      "pt_status x = PtREADY \<and> pt_id x \<notin> pt_id ` set (p # ps) \<or> (\<exists>q \<in> set (p # ps). pt_id q = pt_id x \<and> restore_succeeded (re_client env) q)"
    using o unfolding owing_soon_def by blast
  have fresh: "pt_id p \<notin> pt_id ` set ps" using m by (simp add: remaining_def)
  show ?thesis
  proof (cases "pt_id x = pt_id p")
    case False
    then have "x \<in> set (rd_points (rw_db w1))" using x(1) h by (metis image_eqI list.set_map)
    then show ?thesis using x False unfolding owing_soon_def by auto
  next
    case True
    then obtain q where "q \<in> set (p # ps)" "pt_id q = pt_id p" "restore_succeeded (re_client env) q" using x(4) by auto
    then have p: "restore_succeeded (re_client env) p" using fresh by (auto simp: image_iff)
    have "stored_row p (rw_db w)" using m by (simp add: remaining_def)
    then have "pt_status x = PtRESTORING" using x(1) True p by (simp add: stored_row_def restore_succeeded_def)
    then have "touched now (x\<lparr>pt_status := PtREADY, pt_failure_reason := None, pt_job_name := None\<rparr>) \<in> set (rd_points (rw_db w1))"
      unfolding reconcile_succeeded [OF p run] restored.rows using x(1) True by (auto simp: put_points_def image_iff intro!: bexI [of _ x])
    then show ?thesis unfolding owing_soon_def
      by (rule bexI [rotated]) (use x True fresh in \<open>auto simp: touched_def\<close>)
  qed
qed

lemma all_reconciled_owing:
  assumes "answers (re_client env)" "\<And>p. p \<in> set ps \<Longrightarrow> job_ended (re_client env) p" "remaining aid ps (rw_db w)"
    and "owing_soon (re_client env) aid ps (rw_db w)"
    and "each ps (\<lambda>p. logged (reconcile_row env now g p)) w = Some (w', r)"
  shows "owing_replay aid (rw_db w') \<noteq> []"
  using assms(2-)
proof (induction ps arbitrary: w)
  case Nil
  then show ?case by (auto simp: ret_def owing_soon_def owing_replay_def filter_empty_conv)
next
  case (Cons p ps)
  obtain w1 y where s: "reconcile_row env now g p w = Some (w1, y)" "each ps (\<lambda>p. logged (reconcile_row env now g p)) w1 = Some (w', r)"
    using Cons.prems(4) unfolding each_logged_Cons by blast
  have "stored_row p (rw_db w)" using Cons.prems(2) by (simp add: remaining_def)
  then have t: "settles (pt_id p) (rw_db w) (rw_db w1)"
    using reconciled_settled [OF assms(1) _ Cons.prems(1)] s(1) unfolding leads_in_def by fastforce
  show ?case
    by (rule Cons.IH [OF _ remaining_step [OF Cons.prems(2) t] owing_soon_step [OF Cons.prems(3,2) t s(1)] s(2)]) (use Cons.prems(1) in simp)
qed

text \<open>
  C16. Once the Jobs of an Agent's operations have ended, however they ended, and the cluster answers what it is asked about them,
  asking whether something blocks the Agent resolves every unfinished row, and the answer is yes exactly when a
  restore that succeeded still owes its configuration. If nobody holds the Agent's lifecycle lock and the Agent is not
  running, what is owed is written or given up on the way, so the answer is no. A caller that asks while the lock is held, its own
  lock included, leaves what is owed as it is: then the answer is yes if a configuration was owed before, and also if the
  Job of a restore that is to be followed by its configuration has just succeeded.
\<close>

theorem finished_work_does_not_block:
  assumes "well_formed env w" and "answers (re_client env)"
    and "\<And>p. p \<in> set (non_terminal_points aid (rw_db w)) \<Longrightarrow> job_ended (re_client env) p"
  shows "\<exists>w'. has_blocking_operation env ids now aid w = Some (w', Inr (owing_replay aid (rw_db w') \<noteq> [])) \<and>
    non_terminal_points aid (rw_db w') = [] \<and>
    (aid \<notin> rw_held w \<and> (\<exists>a s. agent_row aid (rw_db w) = Some (a, s) \<and> agent_status a \<noteq> RUNNING) \<longrightarrow> owing_replay aid (rw_db w') = []) \<and>
    (aid \<in> rw_held w \<and>
      (owing_replay aid (rw_db w) \<noteq> [] \<or>
       (\<exists>p \<in> set (non_terminal_points aid (rw_db w)). pt_reapply_configuration p \<and> restore_succeeded (re_client env) p)) \<longrightarrow>
      owing_replay aid (rw_db w') \<noteq> [])"
proof -
  obtain w' r where run: "has_blocking_operation env ids now aid w = Some (w', r)" using blocking_returns unfolding returns_def by blast
  let ?ps = "non_terminal_points aid (rw_db w)"
  obtain w1 z where l1: "each ?ps (\<lambda>p. logged (reconcile_row env now True p)) w = Some (w1, Inr ())"
    and l2: "each (enumerate 0 (owing_replay aid (rw_db w1))) (\<lambda>x. logged (case x of (i, p) \<Rightarrow> apply_owed_replay env (ids i) now p)) w1 = Some (w', z)"
    and r: "z = Inr () \<Longrightarrow> r = Inr (has_non_terminal_operation aid (rw_db w') \<or> owing_replay aid (rw_db w') \<noteq> [])"
    using asked [OF run] by blast
  have ids: "distinct (map pt_id (rd_points (rw_db w)))" using assms(1) by (simp add: well_formed_def points_ok_def)
  have start: "remaining aid ?ps (rw_db w)"
    using ids by (auto simp: remaining_def stored_row_def non_terminal_points_def with_status_def busy_def distinct_map inj_on_def)
  from all_reconciled [OF assms(2,3) start l1] have settled: "remaining aid [] (rw_db w1)" "surroundings w1 = surroundings w" by blast+
  have of_agent: "pt_agent_id p = aid" if "(i, p) \<in> set (enumerate 0 (owing_replay aid (rw_db w1)))" for i p
    using that by (auto simp: owing_replay_def in_set_enumerate_eq dest: nth_mem)
  have "remaining aid [] (rw_db w')" by (rule replays_stay_quiet [OF settled(1) l2])
  then have idle: "\<not> has_non_terminal_operation aid (rw_db w')" "non_terminal_points aid (rw_db w') = []"
    by (auto simp: remaining_def has_non_terminal_operation_def non_terminal_points_def with_status_def busy_def filter_empty_conv)
  have "z = Inr ()" by (rule each_logged_Inr [OF l2])
  then have answer: "r = Inr (owing_replay aid (rw_db w') \<noteq> [])" using r idle(1) by simp
  have none: "owing_replay aid (rw_db w') = []" if f: "aid \<notin> rw_held w" "\<exists>a s. agent_row aid (rw_db w) = Some (a, s) \<and> agent_status a \<noteq> RUNNING"
  proof -
    have ready: "replayable aid w1" using settled(2) f unfolding replayable_row by (simp add: agent_row_def live_agent_def settings_of_def)
    have owed: "owes aid ((\<lambda>x. pt_id (snd x)) ` set (enumerate 0 (owing_replay aid (rw_db w1)))) (rw_db w1)"
      using settled(1) by (auto simp: owes_def remaining_def owing_replay_def image_image [symmetric] set_map [symmetric] simp del: set_map)
    have "z = Inr () \<and> owes aid {} (rw_db w')" by (rule all_replayed [OF ready _ owed l2]) (rule of_agent)
    then show ?thesis by (auto simp: owes_def owing_replay_def filter_empty_conv)
  qed
  have some: "owing_replay aid (rw_db w') \<noteq> []" if held: "aid \<in> rw_held w" and o: "owing_replay aid (rw_db w) \<noteq> [] \<or>
      (\<exists>p \<in> set ?ps. pt_reapply_configuration p \<and> restore_succeeded (re_client env) p)"
  proof -
    have "owing_soon (re_client env) aid ?ps (rw_db w)"
      using o
    proof
      assume "owing_replay aid (rw_db w) \<noteq> []"
      then obtain x where x: "x \<in> set (rd_points (rw_db w))" "pt_agent_id x = aid" "pt_status x = PtREADY" "pt_reapply_configuration x"
        by (auto simp: owing_replay_def filter_empty_conv)
      have "pt_id x \<notin> pt_id ` set ?ps"
        using start x(1,3) by (fastforce simp: remaining_def stored_row_def status_sets)
      then show ?thesis using x unfolding owing_soon_def by blast
    next
      assume "\<exists>p \<in> set ?ps. pt_reapply_configuration p \<and> restore_succeeded (re_client env) p"
      then show ?thesis unfolding owing_soon_def by (auto simp: non_terminal_points_def with_status_def)
    qed
    from all_reconciled_owing [OF assms(2,3) start this l1] have "owing_replay aid (rw_db w1) \<noteq> []" .
    moreover have "w' = w1" by (rule held_replays_nothing [OF _ _ l2, of aid]) (use settled(2) held of_agent in simp_all)
    ultimately show ?thesis by simp
  qed
  show ?thesis using run answer idle(2) none some by auto
qed

text \<open>The Job of the restore has succeeded.\<close>

definition demo_finished_env :: "string list restore_env" where
  "demo_finished_env =
    demo_restore_env\<lparr>re_client := demo_client\<lparr>kc_get_job := (\<lambda>_ k. (k, Inr (Some \<lparr>cj_status =
      Some \<lparr>js_succeeded = 1, js_failed = 0, js_active = 0, js_conditions = []\<rparr>, cj_env_names = []\<rparr>)))\<rparr>\<rparr>"

definition demo_hopeful :: restore_point where
  "demo_hopeful = demo_target\<lparr>pt_reapply_configuration := True\<rparr>"

lemma demo_ended:
  assumes "p \<in> {demo_target, demo_hopeful, demo_backup}"
  shows "job_ended (re_client demo_finished_env) p" "pt_status p = PtRESTORING \<Longrightarrow> restore_succeeded (re_client demo_finished_env) p"
proof -
  have "job_of p = ''job''" using assms by (auto simp: job_of_def demo_target_def demo_hopeful_def demo_backup_def demo_point_def)
  then show "job_ended (re_client demo_finished_env) p" "pt_status p = PtRESTORING \<Longrightarrow> restore_succeeded (re_client demo_finished_env) p"
    by (simp_all add: job_ended_def restore_succeeded_def demo_finished_env_def)
qed

lemma demo_hopeful_well_formed: "well_formed demo_restore_env (demo_world [demo_hopeful, demo_backup])"
  by (auto simp: well_formed_def points_ok_def demo_restore_defs demo_hopeful_def demo_target_def demo_backup_def uuid_bound_def manual_count_def
      restore_pair_def ACTIVE_CAPTURE_STATUSES_def busy_def NON_TERMINAL_STATUSES_def)

text \<open>The lock is free and the answer is no; and the lock is held while a configuration is owed, and the answer is yes.\<close>

lemma finished_work_does_not_block_witness:
  "\<exists>w1 w2. has_blocking_operation demo_finished_env (\<lambda>i n. n) 9 100 (demo_world [demo_target, demo_backup]) = Some (w1, Inr False) \<and>
    has_blocking_operation demo_finished_env (\<lambda>i n. n) 9 100 ((demo_world [demo_hopeful, demo_backup])\<lparr>rw_held := {100}\<rparr>) = Some (w2, Inr True)"
proof -
  let ?w = "demo_world [demo_target, demo_backup]" and ?v = "(demo_world [demo_hopeful, demo_backup])\<lparr>rw_held := {100}\<rparr>"
  have ok: "well_formed demo_finished_env ?w" "well_formed demo_finished_env ?v"
    using demo_well_formed demo_hopeful_well_formed by (simp_all add: well_formed_def demo_finished_env_def)
  have answers: "answers (re_client demo_finished_env)" by (simp add: answers_def demo_finished_env_def demo_client_def)
  have rows: "non_terminal_points 100 (rw_db ?w) = [demo_target, demo_backup]" "non_terminal_points 100 (rw_db ?v) = [demo_hopeful, demo_backup]"
    by (simp_all add: non_terminal_points_def with_status_def demo_world_def demo_restore_db_def demo_target_def demo_hopeful_def demo_backup_def
        demo_point_def status_sets)
  have stopped: "agent_row 100 (rw_db ?w) = Some (stopped_agent, demo_settings)" "agent_status stopped_agent \<noteq> RUNNING"
    by (simp_all add: agent_row_def live_agent_def settings_of_def row_get_def demo_world_def demo_restore_db_def stopped_agent_def demo_agent_def demo_settings_def)
  have free: "100 \<notin> rw_held ?w" by (simp add: demo_world_def)
  have owed: "pt_reapply_configuration demo_hopeful" "pt_status demo_hopeful = PtRESTORING"
    by (simp_all add: demo_hopeful_def demo_target_def demo_point_def)
  have ended: "job_ended (re_client demo_finished_env) p" if "p \<in> set (non_terminal_points 100 (rw_db ?w))" for p
    using that unfolding rows by (intro demo_ended(1)) auto
  have ended': "job_ended (re_client demo_finished_env) p" if "p \<in> set (non_terminal_points 100 (rw_db ?v))" for p
    using that unfolding rows by (intro demo_ended(1)) auto
  have one: "\<exists>w1. has_blocking_operation demo_finished_env (\<lambda>i n. n) 9 100 ?w = Some (w1, Inr False)"
  proof -
    have "\<exists>w'. has_blocking_operation demo_finished_env (\<lambda>i n. n) 9 100 ?w = Some (w', Inr (owing_replay 100 (rw_db w') \<noteq> [])) \<and>
      non_terminal_points 100 (rw_db w') = [] \<and>
      (100 \<notin> rw_held ?w \<and> (\<exists>a s. agent_row 100 (rw_db ?w) = Some (a, s) \<and> agent_status a \<noteq> RUNNING) \<longrightarrow> owing_replay 100 (rw_db w') = []) \<and>
      (100 \<in> rw_held ?w \<and> (owing_replay 100 (rw_db ?w) \<noteq> [] \<or>
        (\<exists>p \<in> set (non_terminal_points 100 (rw_db ?w)). pt_reapply_configuration p \<and> restore_succeeded (re_client demo_finished_env) p)) \<longrightarrow>
        owing_replay 100 (rw_db w') \<noteq> [])"
      by (rule finished_work_does_not_block [OF ok(1) answers]) (rule ended)
    then show ?thesis
    proof (elim exE conjE)
    fix w1 assume b: "has_blocking_operation demo_finished_env (\<lambda>i n. n) 9 100 ?w = Some (w1, Inr (owing_replay 100 (rw_db w1) \<noteq> []))"
      and n: "100 \<notin> rw_held ?w \<and> (\<exists>a s. agent_row 100 (rw_db ?w) = Some (a, s) \<and> agent_status a \<noteq> RUNNING) \<longrightarrow> owing_replay 100 (rw_db w1) = []"
    have "owing_replay 100 (rw_db w1) = []" by (rule mp [OF n]) (use free stopped in blast)
    then have "(owing_replay 100 (rw_db w1) \<noteq> []) = False" by simp
    from b [unfolded this] show ?thesis by (rule exI)
    qed
  qed
  have two: "\<exists>w2. has_blocking_operation demo_finished_env (\<lambda>i n. n) 9 100 ?v = Some (w2, Inr True)"
  proof -
    have "\<exists>w'. has_blocking_operation demo_finished_env (\<lambda>i n. n) 9 100 ?v = Some (w', Inr (owing_replay 100 (rw_db w') \<noteq> [])) \<and>
      non_terminal_points 100 (rw_db w') = [] \<and>
      (100 \<notin> rw_held ?v \<and> (\<exists>a s. agent_row 100 (rw_db ?v) = Some (a, s) \<and> agent_status a \<noteq> RUNNING) \<longrightarrow> owing_replay 100 (rw_db w') = []) \<and>
      (100 \<in> rw_held ?v \<and> (owing_replay 100 (rw_db ?v) \<noteq> [] \<or>
        (\<exists>p \<in> set (non_terminal_points 100 (rw_db ?v)). pt_reapply_configuration p \<and> restore_succeeded (re_client demo_finished_env) p)) \<longrightarrow>
        owing_replay 100 (rw_db w') \<noteq> [])"
      by (rule finished_work_does_not_block [OF ok(2) answers]) (rule ended')
    then show ?thesis
    proof (elim exE conjE)
    fix w2 assume b: "has_blocking_operation demo_finished_env (\<lambda>i n. n) 9 100 ?v = Some (w2, Inr (owing_replay 100 (rw_db w2) \<noteq> []))"
      and y: "100 \<in> rw_held ?v \<and> (owing_replay 100 (rw_db ?v) \<noteq> [] \<or>
        (\<exists>p \<in> set (non_terminal_points 100 (rw_db ?v)). pt_reapply_configuration p \<and> restore_succeeded (re_client demo_finished_env) p)) \<longrightarrow>
        owing_replay 100 (rw_db w2) \<noteq> []"
    have "restore_succeeded (re_client demo_finished_env) demo_hopeful" by (rule demo_ended(2)) (simp_all add: owed(2))
    then have "owing_replay 100 (rw_db w2) \<noteq> []" by (intro mp [OF y], unfold rows) (simp add: owed(1) demo_world_def)
    then have "(owing_replay 100 (rw_db w2) \<noteq> []) = True" by simp
    from b [unfolded this] show ?thesis by (rule exI)
    qed
  qed
  from one two show ?thesis by (elim exE) (intro exI conjI)
qed

end
