(* ===== verification/Restore_Point_Edges.thy ===== *)
theory Restore_Point_Edges
  imports Restore_Point_Progress
begin

text \<open>
  Restore points at the edges: that requests return although they wait for pods, what an old copy of a row does to a
  running restore, and when a restore is refused.
\<close>

section \<open>Requests return\<close>

text \<open>Time passes: during a sleep, and never backwards.\<close>

definition time_passes :: "'k cluster_client \<Rightarrow> bool" where
  "time_passes c \<longleftrightarrow>
    (\<forall>name k. kc_monotonic c (fst (kc_has_pods_for_deployment c name k)) \<ge> kc_monotonic c k) \<and>
    (\<forall>n k. kc_monotonic c (kc_sleep c n k) \<ge> kc_monotonic c k + n)"

lemma release_round_Some:
  assumes "time_passes (re_client env)"
  shows "\<exists>w1 r. release_round env name deadline w = Some (w1, r) \<and>
    (r = Inr True \<longrightarrow> kc_monotonic (re_client env) (rw_cluster w) < deadline \<and>
      kc_monotonic (re_client env) (rw_cluster w1) > kc_monotonic (re_client env) (rw_cluster w))"
proof -
  let ?c = "re_client env"
  obtain k r where k: "kc_has_pods_for_deployment ?c name (rw_cluster w) = (k, r)" by fastforce
  have t: "kc_monotonic ?c k \<ge> kc_monotonic ?c (rw_cluster w)"
    using assms k unfolding time_passes_def by (metis fst_conv)
  have s: "kc_monotonic ?c (kc_sleep ?c POD_TERMINATION_POLL_SECONDS k) \<ge> kc_monotonic ?c k + 1"
    using assms by (simp add: time_passes_def POD_TERMINATION_POLL_SECONDS_def)
  show ?thesis
    using k t s by (cases r) (auto simp: release_round_def andthen_def calling_def clock_seconds_def ret_def throw_def)
qed

lemma await_release_returns:
  assumes "time_passes (re_client env)"
  shows "\<exists>w' r. await_release env name deadline w = Some (w', r)"
proof (induction "nat (deadline - kc_monotonic (re_client env) (rw_cluster w))" arbitrary: w rule: less_induct)
  case less
  obtain w1 r where r: "release_round env name deadline w = Some (w1, r)"
      "r = Inr True \<Longrightarrow> kc_monotonic (re_client env) (rw_cluster w) < deadline \<and>
        kc_monotonic (re_client env) (rw_cluster w1) > kc_monotonic (re_client env) (rw_cluster w)"
    using release_round_Some [OF assms] by blast
  show ?case
  proof (cases "r = Inr True")
    case True
    then have "\<exists>w' r. await_release env name deadline w1 = Some (w', r)" using r(2) by (intro less) linarith
    then show ?thesis using r(1) True by (simp add: await_release.simps [of env name deadline w])
  next
    case False
    then show ?thesis using r(1) by (cases r) (auto simp: await_release.simps [of env name deadline w])
  qed
qed

lemma await_returns: "time_passes (re_client env) \<Longrightarrow> returns (await_agent_volume_release env aid)"
  unfolding await_agent_volume_release_def
  by (intro returns_andthen) (auto simp: returns_def clock_seconds_def await_release_returns)

lemma create_returns:
  assumes "time_passes (re_client (pr_env q))"
  shows "returns (create_restore_point q aid label managed)"
proof -
  have provision: "returns (provision_capture (pr_env q) (pr_now q) a p)" for a p
    unfolding provision_capture_def by (rule returns_catch) (auto intro: returns_intros)
  have "returns (capture_locked q label managed a s)" for a s
    unfolding capture_locked_def store_capture_def assert_capturable_def refuse_during_managed_update_def
    by (intro returns_intros provision)
  then show ?thesis unfolding create_restore_point_def locked_agent_def dispatch_deliveries_def
    by (intro returns_intros await_returns assms)
qed

lemma restore_returns:
  assumes "time_passes (re_client (pr_env q))"
  shows "returns (restore_restore_point q aid i reapply managed)"
proof -
  have provision: "returns (provision_restore (pr_env q) (pr_now q) a t b job)" for a t b job
    unfolding provision_restore_def by (rule returns_catch) (auto intro!: returns_intros split: option.split)
  have begin_restore: "returns (begin_restore q a t reapply job b)" for a t job b
    unfolding begin_restore_def by (intro returns_intros provision)
  have target: "returns (find_restore_target i aid scope)" for scope unfolding find_restore_target_def by (intro returns_intros)
  have busy: "returns (refuse_while_busy aid)" unfolding refuse_while_busy_def by (intro returns_intros)
  have check: "returns (check_replayable q reapply a s t)" for a s t
    unfolding check_replayable_def validate_recorded_configuration_def by (intro returns_intros)
  have backup: "returns (create_pre_restore_row q a s job)" for a s job
    unfolding create_pre_restore_row_def Let_def by (intro returns_intros)
  have "returns (restore_locked q aid i reapply managed scope a s)" for scope a s
    unfolding restore_locked_def Let_def refuse_during_managed_update_def
    by (intro returns_intros begin_restore target busy check backup)
  then show ?thesis unfolding restore_restore_point_def locked_agent_def dispatch_deliveries_def
    by (intro returns_intros await_returns assms)
qed

text \<open>
  C29. A request to capture or to restore returns, whatever the cluster answers: even when the pods of the Agent never go
  away it waits for them no longer than the timeout, as long as time passes while it sleeps.
\<close>

theorem volume_requests_return:
  assumes "time_passes (re_client (pr_env q))"
  shows "(\<exists>w' r. create_restore_point q aid label managed w = Some (w', r)) \<and>
    (\<exists>w' r. restore_restore_point q aid i reapply managed w = Some (w', r))"
  using create_returns [OF assms] restore_returns [OF assms] by (simp add: returns_def)

text \<open>A cluster whose state is the clock, and in which the pods of Agents never go away.\<close>

definition stuck_client :: "int cluster_client" where
  "stuck_client =
    \<lparr>kc_get_job = (\<lambda>_ k. (k, Inr None)), kc_get_pod_name_for_job = (\<lambda>_ k. (k, Inr None)),
     kc_get_job_exit_code = (\<lambda>_ k. (k, Inr None)), kc_read_job_logs = (\<lambda>_ k. (k, Inr None)),
     kc_create_job = (\<lambda>_ k. (k, Inr ())), kc_delete_job = (\<lambda>_ k. (k, Inr ())), kc_has_pvc = (\<lambda>name k. (k, Inr True)),
     kc_create_pvc = (\<lambda>v k. (k, Inr ())), kc_delete_pvc = (\<lambda>name k. (k, Inr ())), kc_list_jobs = (\<lambda>_ k. (k, Inr [])),
     kc_list_pvcs = (\<lambda>_ k. (k, Inr [])), kc_has_pods_for_deployment = (\<lambda>_ k. (k, Inr True)), kc_monotonic = (\<lambda>k. k),
     kc_sleep = (\<lambda>n k. k + n)\<rparr>"

definition stuck_request :: "int restore_request" where
  "stuck_request =
    \<lparr>pr_env = \<lparr>re_client = stuck_client, re_registry = demo_restore_registry, re_max_per_agent = 2, re_loads = (\<lambda>_. None),
       re_friendly_error = (\<lambda>_ _. ''failed''), re_accepts = (\<lambda>_. True), re_resolve = (\<lambda>_ _ _ _. Inr demo_resolved)\<rparr>,
     pr_context = demo_context 1 OWNER True, pr_now = 9, pr_new_id = 3, pr_event_ids = (\<lambda>n. n + 20), pr_replay_ids = (\<lambda>i n. n), pr_token = ''ab''\<rparr>"

definition stuck_world :: "int restore_world" where
  "stuck_world = \<lparr>rw_db = demo_restore_db [demo_ready], rw_cluster = 0, rw_held = {}\<rparr>"

lemma volume_requests_return_witness: "\<exists>w' r. create_restore_point stuck_request 100 None False stuck_world = Some (w', r)"
  using volume_requests_return [of stuck_request 100 None False stuck_world]
  by (simp add: time_passes_def stuck_request_def stuck_client_def)

section \<open>An old copy of a row\<close>

text \<open>
  C38. A row that was pending when it was read, and whose capture Job has succeeded since, ends a restore: when meanwhile
  somebody else has resolved the row and a Member has started to restore it, then reconciling the old copy marks the row
  as ready while the restore still runs, forgets its Job, and makes the recorded configuration due although nobody knows
  whether the restore succeeds. (\<open>mark_ready\<close> applies to rows of every unfinished status.)
\<close>

theorem old_copy_ends_running_restore:
  assumes "pt_status p \<in> ACTIVE_CAPTURE_STATUSES" and "job_of p \<noteq> []"
    and "\<And>k. \<exists>j s. snd (kc_get_job (re_client env) (job_of p) k) = Inr (Some j) \<and> cj_status j = Some s \<and> js_succeeded s \<noteq> 0"
    and "answers (re_client env)"
    and "x \<in> set (rd_points (rw_db w))" and "pt_id x = pt_id p" and "pt_agent_id x = aid"
    and "pt_status x = PtRESTORING" and "pt_reapply_configuration x"
  shows "\<exists>w'. reconcile_row env now g p w = Some (w', Inr ()) \<and>
    (\<exists>y \<in> set (owing_replay aid (rw_db w')). pt_id y = pt_id p \<and> pt_job_name y = None)"
proof -
  obtain k j s where k: "kc_get_job (re_client env) (job_of p) (rw_cluster w) = (k, Inr (Some j))" "cj_status j = Some s" "js_succeeded s \<noteq> 0"
    using assms(3) [of "rw_cluster w"] by (metis prod.collapse)
  obtain k1 logs where k1: "kc_read_job_logs (re_client env) (job_of p) k = (k1, Inr logs)"
    using assms(4) unfolding answers_def by (metis prod.collapse)
  define entries where "entries = (case logs of None \<Rightarrow> [] | Some text \<Rightarrow> parse_manifest (re_loads env) text)"
  define bytes where "bytes = json_get ''bytes'' entries"
  define count where "count = json_get ''file_count'' entries"
  have "pt_status p \<notin> TERMINAL_STATUSES" "pt_status p \<noteq> PtRESTORING" using assms(1) by (auto simp: status_sets)
  then have "reconcile_row env now g p w =
      Some (w\<lparr>rw_cluster := k1, rw_db := fst (mark_ready (pt_id p) bytes count now (rw_db w))\<rparr>, Inr ())"
    using assms(2) k k1
    by (simp add: reconcile_row_def andthen_def calling_def succeed_point_def read_manifest_def updating_def ret_def split_def
      entries_def bytes_def count_def)
  moreover have "\<exists>y \<in> set (owing_replay aid (fst (mark_ready (pt_id p) bytes count now (rw_db w)))). pt_id y = pt_id p \<and> pt_job_name y = None"
    using assms(5-9) by (auto simp: owing_replay_def ready.rows put_points_def touched_def status_sets image_iff intro!: bexI [of _ x])
  ultimately show ?thesis by auto
qed

definition demo_running :: restore_point where
  "demo_running = demo_target\<lparr>pt_reapply_configuration := True\<rparr>"

lemma old_copy_ends_running_restore_witness:
  "\<exists>w'. reconcile_row demo_finished_env 9 False demo_old_copy (demo_world [demo_running]) = Some (w', Inr ()) \<and>
    (\<exists>y \<in> set (owing_replay 100 (rw_db w')). pt_id y = pt_id demo_old_copy \<and> pt_job_name y = None)"
  by (rule old_copy_ends_running_restore [where x = demo_running])
    (simp_all add: demo_old_copy_def demo_point_def status_sets job_of_def demo_finished_env_def answers_def demo_client_def demo_world_def
      demo_restore_db_def demo_running_def demo_target_def)

text \<open>
  Nor is the archive safe from such a copy: when the capture Job is gone by the time the old copy is reconciled, and the row is being
  restored by then, the update that fails a capture hits the row, and the volume the restore reads from is deleted
  (\<open>_fail_capture\<close> takes every row it could fail for a capture of its own). This is the step that \<open>archives_are_kept\<close> leaves out.
\<close>

theorem old_copy_deletes_archive:
  assumes "pt_status p \<in> ACTIVE_CAPTURE_STATUSES" and "job_of p \<noteq> []" and "pt_pvc_name p \<noteq> []"
    and "\<And>k. snd (kc_get_job (re_client env) (job_of p) k) = Inr None"
    and "\<not> g \<or> pt_updated_at p \<le> now - seconds RECONCILIATION_GRACE_SECONDS"
    and "x \<in> set (rd_points (rw_db w))" and "pt_id x = pt_id p" and "pt_status x = PtRESTORING"
    and "\<And>name k. snd (kc_delete_pvc (re_client env) name k) = Inr () \<and> \<not> has (fst (kc_delete_pvc (re_client env) name k)) name"
  shows "\<exists>w'. reconcile_row env now g p w = Some (w', Inr ()) \<and> \<not> has (rw_cluster w') (pt_pvc_name p) \<and>
    (\<exists>y \<in> set (rd_points (rw_db w')). pt_id y = pt_id p \<and> pt_status y = PtFAILED)"
proof -
  let ?reason = "''The job that was running this operation is no longer available.''"
  obtain k where k: "kc_get_job (re_client env) (job_of p) (rw_cluster w) = (k, Inr None)" using assms(4) by (metis prod.collapse)
  obtain k1 where k1: "kc_delete_pvc (re_client env) (pt_pvc_name p) k = (k1, Inr ())" "\<not> has k1 (pt_pvc_name p)"
    using assms(9) by (metis prod.collapse)
  have st: "pt_status p \<notin> TERMINAL_STATUSES" "pt_status p \<noteq> PtRESTORING" using assms(1) by (auto simp: status_sets)
  have hit: "snd (mark_failed (pt_id p) reason now (rw_db w))" for reason
    using assms(6-8) failed.hit by (auto simp: status_sets)
  have "\<exists>reason. fail_point now p ?reason (w\<lparr>rw_cluster := k\<rparr>)
      = Some (w\<lparr>rw_cluster := k, rw_db := fst (mark_failed (pt_id p) reason now (rw_db w))\<rparr>, Inr True)"
    using hit by (intro exI [of _ "take MAX_FAILURE_REASON ?reason"]) (simp add: fail_point_def updating_def split_def)
  then obtain reason where f: "fail_point now p ?reason (w\<lparr>rw_cluster := k\<rparr>)
      = Some (w\<lparr>rw_cluster := k, rw_db := fst (mark_failed (pt_id p) reason now (rw_db w))\<rparr>, Inr True)" ..
  have "fail_capture env now p ?reason (w\<lparr>rw_cluster := k\<rparr>)
      = Some (w\<lparr>rw_cluster := k1, rw_db := fst (mark_failed (pt_id p) reason now (rw_db w))\<rparr>, Inr ())"
    using f assms(3) k1 by (simp add: fail_capture_def andthen_def only_if_def calling_def ret_def)
  then have "reconcile_row env now g p w =
      Some (w\<lparr>rw_cluster := k1, rw_db := fst (mark_failed (pt_id p) reason now (rw_db w))\<rparr>, Inr ())"
    using st assms(2,5) k by (auto simp: reconcile_row_def andthen_def calling_def resolve_untracked_def)
  moreover have "\<exists>y \<in> set (rd_points (fst (mark_failed (pt_id p) reason now (rw_db w)))). pt_id y = pt_id p \<and> pt_status y = PtFAILED"
  proof (rule bexI [of _ "touched now (failed_point reason x)"])
    show "touched now (failed_point reason x) \<in> set (rd_points (fst (mark_failed (pt_id p) reason now (rw_db w))))"
      using assms(6-8) by (force simp: failed.rows put_points_def status_sets)
  qed (use assms(7) in \<open>simp add: touched_def failed_point_def\<close>)
  ultimately show ?thesis using k1(2) by auto
qed

theorem old_copy_deletes_archive_witness:
  "\<exists>w'. reconcile_row demo_restore_env 100 False demo_old_copy (demo_world [demo_running]) = Some (w', Inr ()) \<and>
    \<not> demo_has (rw_cluster w') (pt_pvc_name demo_old_copy) \<and> demo_has (rw_cluster (demo_world [demo_running])) (pt_pvc_name demo_old_copy)"
proof -
  have "\<exists>w'. reconcile_row demo_restore_env 100 False demo_old_copy (demo_world [demo_running]) = Some (w', Inr ()) \<and>
    \<not> demo_has (rw_cluster w') (pt_pvc_name demo_old_copy) \<and>
    (\<exists>y \<in> set (rd_points (rw_db w')). pt_id y = pt_id demo_old_copy \<and> pt_status y = PtFAILED)"
    by (rule old_copy_deletes_archive [where x = demo_running])
      (simp_all add: demo_old_copy_def demo_point_def status_sets job_of_def demo_restore_env_def demo_client_def demo_world_def
        demo_restore_db_def demo_running_def demo_target_def restore_point_resource_name_def PVC_NAME_PREFIX_def)
  then show ?thesis by (auto simp: demo_world_def demo_running_def demo_target_def demo_old_copy_def demo_point_def)
qed

section \<open>When a restore is refused\<close>

text \<open>From these tables and locks an action fails and writes nothing; and actions that write nothing.\<close>

definition refuses :: "restore_db \<Rightarrow> uuid set \<Rightarrow> ('k, 'a) restore_act \<Rightarrow> bool" where
  "refuses db held m \<longleftrightarrow>
    (\<forall>w w' r. rw_db w = db \<longrightarrow> rw_held w = held \<longrightarrow> m w = Some (w', r) \<longrightarrow> rw_db w' = db \<and> (\<exists>e. r = Inl e))"

definition looks :: "('k, 'a) restore_act \<Rightarrow> bool" where
  "looks m \<longleftrightarrow> (\<forall>w w' r. m w = Some (w', r) \<longrightarrow> rw_db w' = rw_db w \<and> rw_held w' = rw_held w)"

lemma refusesI:
  "(\<And>w w' r. rw_db w = db \<Longrightarrow> rw_held w = held \<Longrightarrow> m w = Some (w', r) \<Longrightarrow> rw_db w' = db \<and> (\<exists>e. r = Inl e)) \<Longrightarrow> refuses db held m"
  unfolding refuses_def by blast

lemma refusesD: "refuses db held m \<Longrightarrow> rw_db w = db \<Longrightarrow> rw_held w = held \<Longrightarrow> m w = Some (w', r) \<Longrightarrow> rw_db w' = db \<and> (\<exists>e. r = Inl e)"
  unfolding refuses_def by blast

lemma refuses_throw: "refuses db held (throw e)"
  by (simp add: refuses_def throw_def)

lemma refuses_as: "refuses db held m \<Longrightarrow> (\<And>w. rw_db w = db \<Longrightarrow> rw_held w = held \<Longrightarrow> m' w = m w) \<Longrightarrow> refuses db held m'"
  unfolding refuses_def by metis

lemma refuses_first: "refuses db held m \<Longrightarrow> refuses db held (andthen m f)"
proof (rule refusesI)
  fix w w' r assume m: "refuses db held m" and w: "rw_db w = db" "rw_held w = held" and "andthen m f w = Some (w', r)"
  then consider e where "m w = Some (w', Inl e)" "r = Inl e" | w1 x where "m w = Some (w1, Inr x)" unfolding andthen_Some by blast
  then show "rw_db w' = db \<and> (\<exists>e. r = Inl e)"
  proof cases
    case 1
    then show ?thesis using refusesD [OF m w] by blast
  next
    case 2
    then show ?thesis using refusesD [OF m w 2] by simp
  qed
qed

lemma refuses_after: "looks m \<Longrightarrow> (\<And>x. refuses db held (f x)) \<Longrightarrow> refuses db held (andthen m f)"
proof (rule refusesI)
  fix w w' r assume m: "looks m" and f: "\<And>x. refuses db held (f x)" and w: "rw_db w = db" "rw_held w = held"
    and "andthen m f w = Some (w', r)"
  then consider e where "m w = Some (w', Inl e)" "r = Inl e" | w1 x where "m w = Some (w1, Inr x)" "f x w1 = Some (w', r)"
    unfolding andthen_Some by blast
  then show "rw_db w' = db \<and> (\<exists>e. r = Inl e)"
  proof cases
    case 1
    then show ?thesis using m w unfolding looks_def by blast
  next
    case 2
    then have "rw_db w1 = db" "rw_held w1 = held" using m w unfolding looks_def by blast+
    then show ?thesis using refusesD [OF f _ _ 2(2)] by blast
  qed
qed

lemma refuses_reading: "refuses db held (f (g db)) \<Longrightarrow> refuses db held (andthen (reading g) f)"
  by (erule refuses_as) (simp add: andthen_def reading_def)

lemma refuses_lifted: "(\<And>x. y = Inr x \<Longrightarrow> refuses db held (f x)) \<Longrightarrow> refuses db held (andthen (lifted y) f)"
proof (cases y)
  case (Inl e)
  then show ?thesis by (intro refuses_as [OF refuses_throw [of _ _ e]]) (simp add: andthen_def lifted_def throw_def)
next
  case (Inr x)
  assume "\<And>x. y = Inr x \<Longrightarrow> refuses db held (f x)"
  from refuses_as [OF this [OF Inr]] show ?thesis using Inr by (simp add: andthen_def lifted_def)
qed

lemma refuses_gate:
  assumes "\<not> c \<Longrightarrow> refuses db held (f ())"
  shows "refuses db held (andthen (if c then throw e else ret ()) f)"
proof (cases c)
  case True
  then show ?thesis using refuses_first [OF refuses_throw] by simp
next
  case False
  then show ?thesis by (intro refuses_as [OF assms]) (simp_all add: andthen_def ret_def)
qed

lemma refuses_busy:
  assumes "\<not> has_non_terminal_operation aid db \<Longrightarrow> owing_replay aid db = [] \<Longrightarrow> refuses db held (f ())"
  shows "refuses db held (andthen (refuse_while_busy aid) f)"
proof (cases "has_non_terminal_operation aid db \<or> owing_replay aid db \<noteq> []")
  case True
  have "refuses db held (refuse_while_busy aid)"
    unfolding refuse_while_busy_def by (rule refuses_reading) (simp only: True if_True refuses_throw)
  then show ?thesis by (rule refuses_first)
next
  case False
  then have "refuses db held (f ())" using assms by blast
  then show ?thesis
    by (rule refuses_as) (use False in \<open>simp add: refuse_while_busy_def andthen_def reading_def ret_def\<close>)
qed

lemma refuses_target:
  assumes "\<And>p. p \<in> set (rd_points db) \<Longrightarrow> pt_id p = i \<Longrightarrow> refuses db held (f p)"
  shows "refuses db held (andthen (find_restore_target i aid scope) f)"
proof (cases "point_in_scope i aid scope db")
  case (Inl e)
  have "refuses db held (find_restore_target i aid scope)"
    unfolding find_restore_target_def Inl by (rule refuses_reading, rule refuses_lifted) (simp add: Inl)
  then show ?thesis by (rule refuses_first)
next
  case (Inr found)
  show ?thesis
  proof (cases found)
    case None
    have "refuses db held (find_restore_target i aid scope)"
      unfolding find_restore_target_def by (rule refuses_reading, rule refuses_lifted) (simp add: Inr None refuses_throw)
    then show ?thesis by (rule refuses_first)
  next
    case (Some p)
    have "p \<in> set (rd_points db) \<and> pt_id p = i"
      using Inr Some by (auto simp: point_in_scope_def points_in_scope_def bind_result_Inr dest!: find_SomeD)
    then have "refuses db held (f p)" using assms by blast
    then show ?thesis
      by (rule refuses_as) (simp add: find_restore_target_def andthen_def reading_def lifted_def ret_def Inr Some)
  qed
qed

lemma refuses_locked:
  assumes "\<And>a s. aid \<notin> held \<Longrightarrow> agent_row aid db = Some (a, s) \<Longrightarrow> refuses db held (body a s)"
  shows "refuses db held (locked_agent aid body)"
proof (cases "aid \<in> held")
  case True
  show ?thesis
    by (rule refuses_as [OF refuses_throw [of _ _ "conflict CAPTURE_IN_FLIGHT_DETAIL"]]) (simp add: locked_agent_def with_lifecycle_lock_def True)
next
  case False
  note free = False
  show ?thesis
  proof (cases "agent_row aid db")
    case None
    show ?thesis
      by (rule refuses_as [OF refuses_throw [of _ _ "agent_not_found aid"]])
        (simp add: locked_agent_def with_lifecycle_lock_def free andthen_def reading_def None)
  next
    case (Some x)
    then have "refuses db held (body (fst x) (snd x))" using assms [OF free, of "fst x" "snd x"] by simp
    then show ?thesis
      by (rule refuses_as) (simp add: locked_agent_def with_lifecycle_lock_def free andthen_def reading_def Some split_def)
  qed
qed

lemma looks_await: "looks (await_agent_volume_release env aid)"
proof -
  have round: "keeps_in (\<lambda>w. w) (\<lambda>w. rw_db w = db \<and> rw_held w = held) (release_round e name deadline)"
    for e :: "'a restore_env" and db held name deadline
    unfolding release_round_def
    by (intro keeps_cases keeps_intros) (auto simp: keeps_in_def calling_def clock_seconds_def split: prod.splits)
  have "rw_db w' = rw_db w \<and> rw_held w' = rw_held w" if "await_release env name deadline w = Some (w', r)" for name deadline w w' r
    using await_release_keeps [OF round that] by simp
  then show ?thesis by (auto simp: looks_def await_agent_volume_release_def andthen_Some clock_seconds_def)
qed

text \<open>What stands in the way of a restore.\<close>

definition restore_blocked :: "datetime \<Rightarrow> uuid \<Rightarrow> uuid \<Rightarrow> bool \<Rightarrow> 'k restore_world \<Rightarrow> bool" where
  "restore_blocked now aid i managed w \<longleftrightarrow>
    aid \<in> rw_held w \<or>
    (\<exists>a s. agent_row aid (rw_db w) = Some (a, s) \<and> (agent_status a = RUNNING \<or> \<not> managed \<and> managed_update_in_flight now s)) \<or>
    (\<forall>p \<in> set (rd_points (rw_db w)). pt_id p = i \<longrightarrow> pt_status p \<noteq> PtREADY) \<or>
    has_non_terminal_operation aid (rw_db w) \<or> owing_replay aid (rw_db w) \<noteq> []"

lemma restore_locked_refuses:
  assumes "restore_blocked (pr_now q) aid i managed w" and "aid \<notin> rw_held w" and "agent_row aid (rw_db w) = Some (a, s)"
  shows "refuses (rw_db w) (rw_held w) (restore_locked q aid i reapply managed scope a s)"
  unfolding restore_locked_def
proof (rule refuses_gate)
  assume stopped: "agent_status a \<noteq> RUNNING"
  let ?rest = "andthen (find_restore_target i aid scope) (\<lambda>target.
    andthen (if pt_status target \<noteq> PtREADY then throw (conflict NOT_READY_DETAIL) else ret ()) (\<lambda>_.
    andthen (refuse_while_busy aid) (\<lambda>_.
    andthen (check_replayable q reapply a s target) (\<lambda>_.
    let job = restore_job_name (pt_id target) (pr_token q) in
    andthen (if managed then ret None else andthen (create_pre_restore_row q a s job) (\<lambda>b. ret (Some b))) (\<lambda>backup.
    begin_restore q a target reapply job backup)))))"
  have rest: "refuses (rw_db w) (rw_held w) ?rest" if "managed \<or> \<not> managed_update_in_flight (pr_now q) s"
  proof (rule refuses_target, rule refuses_gate, rule refuses_busy)
    fix p assume p: "p \<in> set (rd_points (rw_db w))" "pt_id p = i" "\<not> pt_status p \<noteq> PtREADY"
      and free: "\<not> has_non_terminal_operation aid (rw_db w)" "owing_replay aid (rw_db w) = []"
    have False using assms p free stopped that unfolding restore_blocked_def by auto
    then show "refuses (rw_db w) (rw_held w) (andthen (check_replayable q reapply a s p) (\<lambda>_.
      let job = restore_job_name (pt_id p) (pr_token q) in
      andthen (if managed then ret None else andthen (create_pre_restore_row q a s job) (\<lambda>b. ret (Some b))) (\<lambda>backup.
      begin_restore q a p reapply job backup)))" ..
  qed
  show "refuses (rw_db w) (rw_held w) (andthen (if managed then ret () else refuse_during_managed_update (pr_now q) s) (\<lambda>_. ?rest))"
  proof (cases managed)
    case True
    have "refuses (rw_db w) (rw_held w) (andthen (ret ()) (\<lambda>_. ?rest))"
      by (rule refuses_after) (simp add: looks_def ret_def, use rest True in blast)
    then show ?thesis using True by (simp only: if_True)
  next
    case False
    then show ?thesis using rest unfolding refuse_during_managed_update_def by (simp only: if_False) (rule refuses_gate, simp)
  qed
qed

text \<open>
  C17. A restore is refused, and nothing is written, while somebody holds the Agent's lifecycle lock, while the Agent runs or is
  being updated (the restore of the update itself apart), while any other operation on its restore points is
  unfinished or owes its configuration, and unless the restore point is ready. In particular a restore point from which a restore
  has failed cannot be restored again, although its archive is kept for that.
\<close>

theorem blocked_restore_refused:
  assumes "restore_restore_point q aid i reapply managed w = Some (w', r)" and "restore_blocked (pr_now q) aid i managed w"
  shows "rw_db w' = rw_db w \<and> (\<exists>e. r = Inl e)"
proof -
  let ?rest = "\<lambda>agent scope. andthen (await_agent_volume_release (pr_env q) (agent_id agent)) (\<lambda>_.
    andthen (locked_agent (agent_id agent) (restore_locked q aid i reapply managed scope)) (\<lambda>(target, delivery_ids).
    andthen (dispatch_deliveries (pr_env q) (pr_now q) delivery_ids) (\<lambda>_.
    andthen (reading (point_in_scope i aid scope)) (\<lambda>found.
    andthen (lifted found) (\<lambda>refreshed.
    ret (case refreshed of Some p \<Rightarrow> p | None \<Rightarrow> target))))))"
  have step: "refuses (rw_db w) (rw_held w) (?rest agent scope)" if "agent_id agent = aid" for agent scope
  proof (rule refuses_after [OF looks_await])
    have "refuses (rw_db w) (rw_held w) (locked_agent aid (restore_locked q aid i reapply managed scope))"
      by (rule refuses_locked) (rule restore_locked_refuses [OF assms(2)])
    then show "refuses (rw_db w) (rw_held w) (andthen (locked_agent (agent_id agent) (restore_locked q aid i reapply managed scope)) f)" for f
      unfolding that by (rule refuses_first)
  qed
  have "refuses (rw_db w) (rw_held w) (restore_restore_point q aid i reapply managed)"
    unfolding restore_restore_point_def
    by (rule refuses_reading, rule refuses_lifted, rule refuses_lifted) (rule step, erule require_action_id)
  then show ?thesis by (rule refusesD) (rule refl refl assms(1))+
qed

definition freed_request :: "int restore_request" where
  "freed_request = stuck_request\<lparr>pr_env := (pr_env stuck_request)\<lparr>re_client := stuck_client\<lparr>kc_has_pods_for_deployment := (\<lambda>_ k. (k, Inr False))\<rparr>\<rparr>\<rparr>"

text \<open>A restore point from which a restore has failed.\<close>

definition failed_world :: "int restore_world" where
  "failed_world = \<lparr>rw_db = demo_restore_db [demo_point 1 PtFAILED OriginMANUAL None], rw_cluster = 0, rw_held = {}\<rparr>"

lemma blocked_restore_refused_witness:
  "\<exists>w' e. restore_restore_point freed_request 100 1 True False failed_world = Some (w', Inl e) \<and> rw_db w' = rw_db failed_world"
proof -
  have "time_passes (re_client (pr_env freed_request))" by (simp add: time_passes_def freed_request_def stuck_request_def stuck_client_def)
  then obtain w' r where r: "restore_restore_point freed_request 100 1 True False failed_world = Some (w', r)"
    using restore_returns unfolding returns_def by blast
  have "restore_blocked (pr_now freed_request) 100 1 False failed_world"
    by (simp add: restore_blocked_def failed_world_def demo_restore_db_def demo_point_def)
  from blocked_restore_refused [OF r this] show ?thesis using r by auto
qed

end
