(* ===== verification/Spec2Isabelle.thy ===== *)
theory Spec2Isabelle
  imports Agent_Authorization Agent_Sharing Event_Outbox Workflow_Controller Communication_Properties File_Sync_Properties
    Restore_Point_Edges
begin

text \<open>
  Verification of the control plane of Agent Barn (\<open>src/api\<close>): an API and its workers that
  let the members of Organizations own Agents, share them, and run saved workflows on them,
  with a transactional outbox between the requests and the workers.

  \<^bold>\<open>Parts and how they interact.\<close>
  A request carries a caller context (user, Membership, API key). Every operation first asks
  the Agent authorization whether the caller holds a permission on an Agent; it decides from
  the tables of the RBAC store, which start-up seeding fills from the permission catalogue.
  Operations change tables in transactions, and a transaction that has something to tell stores
  an event and one delivery per handler in the outbox; after the commit the dispatcher publishes
  the deliveries to a broker, a worker claims and handles them, and a periodic sweep republishes
  what got stuck. Workflows are definitions with numbered versions; a run executes one version
  step by step, each step as an attempt, a session in the running Agent. The event of a change
  wakes the controller, which advances the run and sends the step; the Agent fetches the step
  with the token of the attempt and reports its result or failure. Files of a run are pinned by
  artifact references until it settles. Messages of chat platforms reach an Agent, and its replies
  the platform, as deliveries that are claimed with a lease, completed, retried or cancelled.
  The files of Agents are synchronized with a drive of the Organization: the pod of an Agent reports and
  uploads what it has and asks for work, and an engine follows the changes people make on the drive.
  Restore points are copies of the volume of an Agent with the configuration it had: Jobs of the cluster make and restore
  them, reads and a periodic sweep reconcile the rows with the Jobs, and a restore may owe the Agent its recorded configuration.

  \<^bold>\<open>Theories, and the code they model.\<close>
  \<^item> \<open>Prelude\<close>: identifiers, times, errors, Python's string operations, tables as lists of
    rows, and the locale \<open>keyed_table\<close>, the interface of a table with a primary key.
  \<^item> \<open>Actions\<close>: operations that make several transactions and calls, and a calculus of actions that keep an
    assertion about a view of the state (\<open>keeps_in\<close>) or lead from one to another (\<open>leads_in\<close>).
  \<^item> \<open>Rbac_Catalog\<close> (\<open>rbac/catalog.py\<close>, \<open>rbac/policy.py\<close>, \<open>auth/models.py\<close>): permissions,
    roles, grants, the Organization Role policy, the caller context.
  \<^item> \<open>Rbac_Store\<close> (\<open>rbac/models.py\<close>, \<open>rbac/repository.py\<close>): the tables (\<open>access_db\<close>), role
    queries, \<open>ensure_system_catalogue\<close>.
  \<^item> \<open>Agent_Authorization\<close> (\<open>agents/authorization.py\<close>, scoped reads of
    \<open>agents/repository.py\<close>): scopes and every check; \<open>holds_permission\<close> is the abstract
    specification that the operations implement.
  \<^item> \<open>Event_Registry\<close> (\<open>events/registry.py\<close>, \<open>handlers.py\<close>, \<open>models.py\<close>, \<open>service.py\<close>):
    definitions of events and \<open>build_event\<close>.
  \<^item> \<open>Event_Outbox\<close> (\<open>events/repository.py\<close>, \<open>processor.py\<close>, \<open>dispatch.py\<close>,
    \<open>reconciliation.py\<close>, \<open>worker.py\<close>): messages and deliveries (\<open>event_db\<close>), the worker with its
    per-delivery specification, the sweep, and the step relation of any interleaving of them.
  \<^item> \<open>Agent_Sharing\<close> (\<open>agents/access_service.py\<close>, \<open>replace_access_settings\<close> of
    \<open>agents/repository.py\<close>): the Share dialog, on the tables of both (\<open>share_db\<close>).
  \<^item> \<open>Workflow_Definitions\<close> (\<open>workflows/models.py\<close>, \<open>repository.py\<close>, \<open>service.py\<close>,
    \<open>platform_repository.py\<close>, \<open>platform_service.py\<close>): drafts and their validation, versions, authoring.
  \<^item> \<open>Artifact_References\<close> (\<open>artifacts/references.py\<close>): pin and release.
  \<^item> \<open>Workflow_Runs\<close> (\<open>workflows/run_repository.py\<close>, \<open>run_models.py\<close>, \<open>config.py\<close>): the tables of
    runs (\<open>run_db\<close>, which extends the tables of definitions), every operation of the repository,
    and the invariant \<open>runs_inv\<close>.
  \<^item> \<open>Workflow_Execution\<close>: every operation keeps the invariant and only moves runs forward
    (\<open>run_moved\<close>); \<open>run_step\<close> is any interleaving of the operations and of what the database does to
    references when users, memberships or original runs go (\<open>ON DELETE SET NULL\<close>, \<open>by_forgetting\<close>);
    \<open>change_step W\<close> adds the deletion of workflows of \<open>W\<close> with all their runs.
  \<^item> \<open>Workflow_Guarantees\<close>: what follows for reachable states, and that recording a change succeeds.
  \<^item> \<open>Workflow_Service\<close> (\<open>workflows/run_service.py\<close>, \<open>runtime_service.py\<close>): the operations people
    and Agents call, and the hand-over of a step.
  \<^item> \<open>Workflow_Controller\<close> (\<open>workflows/controller.py\<close>, \<open>maintenance.py\<close>): \<open>wake\<close> and the operator pass.
  \<^item> \<open>Communication_Errors\<close> (\<open>communications/error_details.py\<close>): the codes and summaries of
    provider errors that may be stored.
  \<^item> \<open>Communication_Deliveries\<close> (\<open>communications/delivery_repository.py\<close>, the journal of
    \<open>operations.py\<close>): messages, deliveries in both directions and the journal (\<open>comm_db\<close>), every
    operation of the repository; the retirement of connections (\<open>retire\<close> of \<open>communications/repository.py\<close>) and the
    soft deletion of Agents (\<open>agents/repository.py\<close>), which cancel deliveries.
  \<^item> \<open>Communication_Guarantees\<close>: the state machine of a delivery (\<open>row_move\<close>), the invariant of the
    table, and that every operation is a sequence of such moves; \<open>comm_step\<close> is any interleaving of
    them with retirements and soft deletions; \<open>comm_change\<close> adds the removal of Agents with their rows.
  \<^item> \<open>Communication_Properties\<close>: what follows for reachable states, and the defects at the edges.
  \<^item> \<open>File_Sync_Rules\<close> (\<open>file_sync/rules.py\<close>, the naming functions of \<open>engine.py\<close>): which files are
    synchronized, which names a drive can store, how folders are named.
  \<^item> \<open>File_Sync\<close> (\<open>file_sync/models.py\<close>, \<open>repository.py\<close>, \<open>sync_provider/plugins/base.py\<close>): the
    tables (\<open>sync_db\<close>), the drive as a record of functions (\<open>sync_plugin\<close>) and every operation of the repository.
  \<^item> \<open>File_Sync_Service\<close> (\<open>file_sync/service.py\<close>): what pods call, and the removal of folders.
  \<^item> \<open>File_Sync_Engine\<close> (\<open>file_sync/engine.py\<close>): the passes of the engine.
  \<^item> \<open>File_Sync_Guarantees\<close>: the invariant \<open>sync_inv\<close>, and every write of the repository.
  \<^item> \<open>File_Sync_Properties\<close>: every operation keeps the invariant; \<open>sync_step\<close> is any order of them.
  \<^item> \<open>Restore_Points\<close> (\<open>restore_points/models.py\<close>, \<open>repository.py\<close>, the names of
    \<open>agents/builders/restore_point.py\<close>, \<open>select_pin\<close> of \<open>agents/override_repository.py\<close>): the table of restore points with
    what an Agent's configuration consists of (\<open>restore_db\<close>), recorded configurations, every operation of the repository.
  \<^item> \<open>Restore_Point_Service\<close> (\<open>restore_points/service.py\<close>, \<open>reconciliation.py\<close>): the cluster as a record of functions
    (\<open>cluster_client\<close>), what people and managed updates ask for, the reconciliation of rows with Jobs, the sweep.
  \<^item> \<open>Restore_Point_Guarantees\<close>: the invariant \<open>points_ok\<close> and the assertion \<open>guarded\<close> about volumes, with the
    locales \<open>point_move\<close> and \<open>calm_move\<close> of the state machine of a row.
  \<^item> \<open>Restore_Point_Operations\<close>: every operation keeps the assertion; the names of volumes and Jobs are read back.
  \<^item> \<open>Restore_Point_Properties\<close>: \<open>restore_step\<close> is any order of the operations, and what follows for it;
    \<open>archive_step\<close> are those that keep the archive of a given restore point.
  \<^item> \<open>Restore_Point_Progress\<close>: what is left after the Jobs of an Agent have ended, and actions that return.
  \<^item> \<open>Restore_Point_Edges\<close>: requests that wait for pods, refused restores, old copies of rows.

  \<^bold>\<open>Conventions.\<close>
  A table is a list of rows in insertion order; a transaction is a function from the database to
  \<open>error + database\<close>, so that a raise rolls back. A service call that makes several transactions
  returns the state with its result, since an earlier transaction stays when a later one raises.
  Row locks are not modelled: transactions are atomic. A transaction reads the clock once. Fresh
  UUIDs are arguments, and the uniqueness the database enforces is a check that raises; the
  hypothesis \<open>unused_ids\<close> says that the drawn ids are new. Rows that another transaction holds are an argument where a query skips them. Strings are lists of 8-bit characters.
  File synchronization and restore points write in many small transactions, so their operations are actions: they take
  and return the tables and the drive or the cluster, a failure leaves what is already written, and \<open>None\<close> is an operation
  that does not return. The lifecycle locks that other sessions hold are part of the state (\<open>rw_held\<close>); operations on
  restore points do not overlap otherwise, but may work on rows that were read at any time before. Operations of pods and passes of the engine do not overlap in the model. The recursion
  limit of the interpreter is the argument \<open>depth\<close>.
  Parameters stand for what is not in the repository: pydantic payload classes, the body of event
  handlers, SHA-256 and HMAC, decryption, the broker, the proxy of the cluster, the text
  of \<open>json.dumps\<close> for step packets, the drive, \<open>json.loads\<close>, the cluster with the wording of its errors, the validation
  of a selection of a configuration, Unicode normalization and the paths of URLs.

  \<^bold>\<open>What the theorems show.\<close>
  Authorization: enforcement equals the specification of authority, nobody acts across
  Organizations, what is offered is what is enforced, start-up seeding is idempotent. Sharing: the settings
  of an Agent take effect exactly as requested, only managers change them, and the dialog
  shows what is in force. Events:
  only safe events are built; under every interleaving the outbox keeps its invariant, finished
  deliveries stay finished for all work that begins afterwards (\<open>new_work\<close>), a claim is exclusive, a stale delivery is
  completed by one sweep and one worker run, and the worker refines its specification. A retryable failure makes a delivery
  \<open>ENQUEUED\<close>, as the code and its tests have it; \<open>docs/features/domain-events.md\<close> says that it stays
  \<open>PROCESSING\<close>. One theorem gives an interleaving of two runs in which the late failure of the first reopens a delivery
  that the second has finished.
  Definitions: no update is lost, version history is linear, only authors change definitions.
  Runs: under every interleaving the state of a run is true of its checkpoints and attempts, runs only move
  forward while their workflow exists (references to people and original runs may be cleared, never redirected), at most
  one attempt is live, the attempts of a run are bounded by three per step (so
  that no fuel is needed anywhere), results are recorded once, starting is idempotent,
  cancellation settles. Controller: a step is sent only when due, one wake finishes a
  cancellation unless the key of the Agent cannot be decrypted (then it raises, and the run stays cancelling), an operator pass
  is safe under interference (\<open>others_ok W\<close>: any change by others, deletions of workflows in \<open>W\<close> included), and
  parked runs starve it.
  Chat: stored deliveries are well typed, a message is accepted once, the replies of a conversation are
  sent in order (only delivered replies, or those cancelled with their connection or Agent, are passed), cancelled work is never attempted again, committed turns of a conversation do not
  overlap; four theorems show defects (concurrent claims overlap, a reply whose sender crashes is
  retried forever, two of the program's own diagnostics are redacted).
  Files: whatever pods report, people do and the drive answers, only the workspace and the memories
  of an Agent are written from the drive, rows stay well formed and unique, a report deletes
  nothing it lists, locks ignore case, folder names are valid; one theorem shows that following the new name of
  an Agent may not end.
  Restore points: whoever does what in whatever order, at most one operation on the volume of an Agent is recorded
  as under way, manual captures stay within the cap, archives stay until they are deleted or their Agent is
  purged, and a configuration is replayed only when it is owed and then not again; once its Jobs have ended an Agent is blocked
  only by a configuration that is still owed, which is none when the lifecycle lock is free and the Agent is stopped; requests return (the clock moves
  on in every round of waiting, so that no fuel is needed), and a restore that is blocked is refused without a trace. Two
  theorems show that an old copy of a row ends a running restore, and that it deletes the archive the restore reads from.

  \<^bold>\<open>Not modelled.\<close>
  The platform monitor's filtered page of deliveries, the broker's transport, the wiring of routes
  and applications, and the domains that mostly talk to third-party services or aggregate in SQL
  (provisioning of Agents, connections and adapters of chat platforms, costs, billing, memory,
  the sign-in at drives, templates, skills). The program inside the Jobs of restore points copies files; what it reports is
  part of the cluster. Of communications, the diagnostics page and the
  normalization of provider exceptions by regular expressions are not modelled. Next would come
  managed updates of Agents, resource limits and LLM budgets.
\<close>

end
